(* ===== verification/Prelude.thy ===== *)
theory Prelude
  imports "HOL-Library.Word"
begin

text \<open>
  Shared vocabulary of the development: Go's machine integers and byte strings, the outcome of
  running Go code (it returns, it panics, or the model's recursion fuel is exhausted), the
  little-endian layout of \<^verbatim>\<open>encoding/binary\<close>, and the collections of rules the component
  theories extend.

  Conventions.  \<^verbatim>\<open>byte\<close>/\<^verbatim>\<open>uint8\<close> is \<open>8 word\<close>, \<^verbatim>\<open>uint64\<close> and \<^verbatim>\<open>int64\<close> are
  \<open>64 word\<close> (the signed reading is \<open>sint\<close>).  Go's \<^verbatim>\<open>int\<close> (64 bits on every platform the
  driver ships for) is \<open>int\<close>; where a sum or product can leave the 64-bit range the wrap-around
  is written out with \<open>wrap64\<close>.  A Go \<^verbatim>\<open>string\<close> is a sequence of bytes, modelled as
  \<open>string\<close> (a list of 8-bit characters).
\<close>

unbundle bit_operations_syntax

type_synonym bytes = "8 word list"

named_theorems reads_rules \<open>rules deriving what a reader returns on a given byte sequence\<close>
named_theorems appends_rules \<open>rules deriving the bytes a writer appends\<close>
named_theorems safe_rules \<open>rules bounding what a reader consumes, and the fuel it needs\<close>

section \<open>Outcomes\<close>

datatype 'a outcome = Done 'a | Panic | OutOfFuel

primrec outcome_bind :: "'a outcome \<Rightarrow> ('a \<Rightarrow> 'b outcome) \<Rightarrow> 'b outcome" where
  "outcome_bind (Done x) f = f x"
| "outcome_bind Panic f = Panic"
| "outcome_bind OutOfFuel f = OutOfFuel"

lemma outcome_bind_eq_Done:
  "outcome_bind m f = Done y \<longleftrightarrow> (\<exists>x. m = Done x \<and> f x = Done y)"
  by (cases m) auto

lemma outcome_bind_Done [simp]: "outcome_bind m Done = m"
  by (cases m) auto

lemma outcome_bind_assoc: "outcome_bind (outcome_bind m f) g = outcome_bind m (\<lambda>x. outcome_bind (f x) g)"
  by (cases m) auto

lemma outcome_bind_cong [fundef_cong]:
  "m = m' \<Longrightarrow> (\<And>x. m' = Done x \<Longrightarrow> f x = g x) \<Longrightarrow> outcome_bind m f = outcome_bind m' g"
  by (cases m') auto

section \<open>Machine integers\<close>

definition wrap64 :: "int \<Rightarrow> int" where
  "wrap64 x = (x + 2 ^ 63) mod 2 ^ 64 - 2 ^ 63"

definition MaxInt :: int where
  "MaxInt = 2 ^ 63 - 1"

lemma wrap64_id: "- (2 ^ 63) \<le> x \<Longrightarrow> x < 2 ^ 63 \<Longrightarrow> wrap64 x = x"
  by (simp add: wrap64_def)

lemma wrap64_bounds: "- (2 ^ 63) \<le> wrap64 x" "wrap64 x < 2 ^ 63"
  by (simp_all add: wrap64_def)

lemma wrap64_overflow:
  assumes "2 ^ 63 \<le> x" "x < 2 ^ 64 + 2 ^ 63"
  shows "wrap64 x = x - 2 ^ 64"
proof -
  have "(x + 2 ^ 63) mod 2 ^ 64 = (x + 2 ^ 63 - 2 ^ 64) mod 2 ^ 64"
    by (rule minus_mod_self2 [symmetric])
  also have "\<dots> = x + 2 ^ 63 - 2 ^ 64"
    by (rule mod_pos_pos_trivial) (use assms in simp_all)
  finally show ?thesis by (simp add: wrap64_def)
qed

section \<open>Seven-bit groups of a word\<close>

lemma and_0x7F: "(v :: 'a::len word) AND 0x7F = take_bit 7 v"
  by (simp add: take_bit_eq_mask mask_eq_exp_minus_1)

lemma and_not_0x7F: "v AND NOT 0x7F = push_bit 7 (drop_bit 7 (v :: 'a::len word))"
proof -
  have "v AND NOT (mask 7) = push_bit 7 (drop_bit 7 v)"
    by (auto intro!: bit_word_eqI simp: bit_simps)
  then show ?thesis by (simp only: mask_eq_exp_minus_1) simp
qed

lemma unat_take_bit: "unat (take_bit n (v :: 'a::len word)) = unat v mod 2 ^ n"
  by (simp only: unsigned_take_bit_eq take_bit_eq_mod [where ?'a = nat])

lemma unat_drop_bit: "unat (drop_bit n (v :: 'a::len word)) = unat v div 2 ^ n"
  by (simp only: unat_drop_bit_eq drop_bit_eq_div [where ?'a = nat])

lemma high_bits_iff: "v AND NOT 0x7F \<noteq> 0 \<longleftrightarrow> 128 \<le> unat (v :: 64 word)"
proof -
  have "v AND NOT 0x7F = 0 \<longleftrightarrow> drop_bit 7 v = 0"
  proof
    assume "v AND NOT 0x7F = 0"
    then have "push_bit 7 (drop_bit 7 v) = 0" by (simp only: and_not_0x7F)
    then have "drop_bit 7 (push_bit 7 (drop_bit 7 v)) = 0" by simp
    then show "drop_bit 7 v = 0"
      by (fastforce intro!: bit_word_eqI simp: bit_simps bit_eq_iff dest: bit_imp_le_length)
  qed (simp only: and_not_0x7F push_bit_of_0)
  also have "\<dots> \<longleftrightarrow> unat v div 2 ^ 7 = 0"
    using unat_drop_bit [of 7 v] unat_eq_zero [of "drop_bit 7 v"] by metis
  finally show ?thesis by (simp add: div_eq_0_iff not_less)
qed

lemma sint_signed_drop_bit: "sint (signed_drop_bit n (v :: 'a::len word)) = sint v div 2 ^ n"
  by (simp only: sint_signed_drop_bit_eq drop_bit_eq_div)

lemma take_bit_sint: "n \<le> LENGTH('a) \<Longrightarrow> take_bit n (sint (v :: 'a::len word)) = take_bit n (uint v)"
  by (metis min.absorb1 take_bit_take_bit uint_sint)

lemma low_group_unat: "ucast (v AND 0x7F) = (of_nat (unat v mod 128) :: 8 word)" for v :: "64 word"
proof -
  have "ucast (v AND 0x7F) = (of_nat (unat (take_bit 7 v)) :: 8 word)"
    by (simp only: and_0x7F of_nat_unat)
  then show ?thesis by (simp only: unat_take_bit) simp
qed

lemma low_group_sint: "ucast (v AND 0x7F) = (of_int (sint v mod 128) :: 8 word)" for v :: "64 word"
proof -
  have "int (unat v mod 128) = sint v mod 128"
    using take_bit_sint [of 7 v] by (simp add: take_bit_eq_mod zmod_int)
  then show ?thesis by (metis low_group_unat of_int_of_nat_eq)
qed

lemma bit_sint: "n < 64 \<Longrightarrow> bit (sint (v :: 64 word)) n \<longleftrightarrow> bit v n"
  by (cases "n = 63") (auto simp: bit_simps min_def)

lemma sign_group_iff:
  "(ucast (v AND 0x7F) :: 8 word) AND 0x40 \<noteq> 0 \<longleftrightarrow> 64 \<le> sint v mod 128" for v :: "64 word"
proof -
  let ?b = "ucast (v AND 0x7F) :: 8 word"
  have "?b AND 2 ^ 6 \<noteq> 0 \<longleftrightarrow> bit ?b 6"
    by (simp only: and_exp_eq_0_iff_not_bit not_not)
  also have "\<dots> \<longleftrightarrow> bit v 6"
    by (simp only: and_0x7F) (simp add: bit_simps)
  also have "\<dots> \<longleftrightarrow> bit (sint v) 6"
    by (simp add: bit_sint)
  also have "\<dots> \<longleftrightarrow> 64 \<le> sint v mod 128"
    using zmod_zmult2_eq [of 2 "sint v" 64] pos_mod_bound [of 64 "sint v"] pos_mod_sign [of 64 "sint v"]
    by (cases "odd (sint v div 64)") (simp_all add: bit_iff_odd odd_iff_mod_2_eq_one even_iff_mod_2_eq_zero)
  finally show ?thesis by simp
qed

text \<open>The continuation bit is free in a seven-bit group.\<close>

lemma continuation_bit: "m < 128 \<Longrightarrow> (of_nat m :: 8 word) OR 0x80 = of_nat (m + 128)"
proof -
  assume m: "m < 128"
  have "(of_nat m :: 8 word) OR 2 ^ 7 = of_nat m + 2 ^ 7"
  proof (rule disjunctive_add_eq_or [symmetric])
    have "\<not> bit m 7"
      using m by (simp add: bit_iff_odd)
    then have "\<not> bit (of_nat m :: 8 word) 7"
      by (simp add: bit_simps)
    then show "(of_nat m :: 8 word) AND 2 ^ 7 = 0"
      by (simp only: and_exp_eq_0_iff_not_bit not_False_eq_True)
  qed
  then show ?thesis by simp
qed

text \<open>Reading a seven-bit group back.\<close>

lemma group_byte_last: "m < 128 \<Longrightarrow> (of_nat m :: 8 word) AND 0x80 = 0"
proof -
  assume "m < 128"
  then have "\<not> bit m 7" by (simp add: bit_iff_odd)
  then have "\<not> bit (of_nat m :: 8 word) 7" by (simp add: bit_simps)
  then have "(of_nat m :: 8 word) AND 2 ^ 7 = 0"
    by (simp only: and_exp_eq_0_iff_not_bit not_False_eq_True)
  then show ?thesis by simp
qed

lemma group_byte_more: "m < 128 \<Longrightarrow> (of_nat (m + 128) :: 8 word) AND 0x80 \<noteq> 0"
proof -
  assume "m < 128"
  have "bit ((of_nat m :: 8 word) OR 2 ^ 7) 7" by (simp add: bit_simps)
  then have "((of_nat m :: 8 word) OR 2 ^ 7) AND 2 ^ 7 \<noteq> 0"
    by (simp only: and_exp_eq_0_iff_not_bit not_not)
  with continuation_bit [OF \<open>m < 128\<close>] show ?thesis by simp
qed

lemma group_byte_low:
  assumes "m < 128"
  shows "ucast ((of_nat m :: 8 word) AND 0x7F) = (of_nat m :: 64 word)"
    and "ucast ((of_nat (m + 128) :: 8 word) AND 0x7F) = (of_nat m :: 64 word)"
proof -
  have low: "unat (of_nat m AND 0x7F :: 8 word) = m" "unat (of_nat (m + 128) AND 0x7F :: 8 word) = m"
    using assms by (simp_all only: and_0x7F unat_take_bit unat_of_nat) simp_all
  show "ucast ((of_nat m :: 8 word) AND 0x7F) = (of_nat m :: 64 word)"
    by (metis low(1) of_nat_unat)
  show "ucast ((of_nat (m + 128) :: 8 word) AND 0x7F) = (of_nat m :: 64 word)"
    by (metis low(2) of_nat_unat)
qed

lemma group_byte_sign:
  assumes "m < 128"
  shows "(of_nat m :: 8 word) AND 0x40 \<noteq> 0 \<longleftrightarrow> 64 \<le> m"
proof -
  have "(of_nat m :: 8 word) AND 2 ^ 6 \<noteq> 0 \<longleftrightarrow> bit m 6"
    by (simp only: and_exp_eq_0_iff_not_bit not_not) (simp add: bit_simps)
  also have "\<dots> \<longleftrightarrow> 64 \<le> m"
  proof -
    have "m div 64 = (if 64 \<le> m then 1 else 0)" using assms by auto
    then show ?thesis by (simp add: bit_iff_odd)
  qed
  finally show ?thesis by simp
qed

lemma take_or_push_drop: "take_bit n v OR push_bit n (drop_bit n v) = (v :: 'a::len word)"
proof (rule bit_word_eqI)
  fix k show "bit (take_bit n v OR push_bit n (drop_bit n v)) k \<longleftrightarrow> bit v k" if "k < LENGTH('a)"
    using that by (cases "k < n") (auto simp: bit_simps not_less)
qed

lemma take_or_push_take:
  "take_bit n v OR push_bit n (take_bit 7 (drop_bit n v)) = take_bit (n + 7) (v :: 'a::len word)"
proof (rule bit_word_eqI)
  fix k show "bit (take_bit n v OR push_bit n (take_bit 7 (drop_bit n v))) k
      \<longleftrightarrow> bit (take_bit (n + 7) v) k" if "k < LENGTH('a)"
    using that by (cases "k < n") (auto simp: bit_simps not_less)
qed

section \<open>Strings and bytes\<close>

text \<open>\<^verbatim>\<open>[]byte(s)\<close> and \<^verbatim>\<open>string(b)\<close>: the conversions keep every byte.\<close>

definition bytes_of_string :: "string \<Rightarrow> bytes" where
  "bytes_of_string s = map of_char s"

definition string_of_bytes :: "bytes \<Rightarrow> string" where
  "string_of_bytes b = map (\<lambda>w. char_of (unat w)) b"

lemma of_char_char_of_word [simp]: "of_char (char_of (unat (b :: 8 word))) = b"
proof -
  have lt: "unat b < 256" using unsigned_less [of b] by simp
  have "(of_char (char_of (unat b)) :: 8 word) = of_nat (of_char (char_of (unat b)))"
    by (simp only: of_nat_of_char)
  also have "\<dots> = of_nat (unat b mod 256)"
    by (simp only: of_char_of)
  also have "\<dots> = b"
    using lt by simp
  finally show ?thesis .
qed

lemma char_of_unat_of_char [simp]: "char_of (unat (of_char c :: 8 word)) = c"
proof -
  have lt: "(of_char c :: nat) < 256"
    using of_char_mod_256 [of c, where 'a = nat] mod_less_divisor [of 256 "of_char c :: nat"] by linarith
  have "unat (of_char c :: 8 word) = unat (of_nat (of_char c) :: 8 word)"
    by (simp only: of_nat_of_char)
  also have "\<dots> = of_char c"
    using lt by (simp only: unat_of_nat) simp
  finally show ?thesis by simp
qed

lemma string_of_bytes_of_string [simp]: "string_of_bytes (bytes_of_string s) = s"
  by (simp add: string_of_bytes_def bytes_of_string_def comp_def map_idI)

lemma bytes_of_string_of_bytes [simp]: "bytes_of_string (string_of_bytes b) = b"
  by (simp add: string_of_bytes_def bytes_of_string_def comp_def map_idI)

lemma length_bytes_of_string [simp]: "length (bytes_of_string s) = length s"
  by (simp add: bytes_of_string_def)

lemma length_string_of_bytes [simp]: "length (string_of_bytes s) = length s"
  by (simp add: string_of_bytes_def)

lemma bytes_of_string_Nil [simp]: "bytes_of_string [] = []"
  by (simp add: bytes_of_string_def)

text \<open>\<^verbatim>\<open>%d\<close> formatting of an integer.\<close>

definition digit_char :: "nat \<Rightarrow> char" where
  "digit_char d = char_of (48 + d)"

fun show_nat :: "nat \<Rightarrow> string" where
  "show_nat n = (if n < 10 then [digit_char n] else show_nat (n div 10) @ [digit_char (n mod 10)])"

declare show_nat.simps [simp del]

definition show_int :: "int \<Rightarrow> string" where
  "show_int i = (if i < 0 then CHR ''-'' # show_nat (nat (- i)) else show_nat (nat i))"

section \<open>Little-endian layout\<close>

text \<open>\<^verbatim>\<open>binary.LittleEndian.PutUintN\<close> and \<^verbatim>\<open>UintN\<close>.\<close>

primrec le_bytes :: "nat \<Rightarrow> 'a::len word \<Rightarrow> bytes" where
  "le_bytes 0 w = []"
| "le_bytes (Suc n) w = ucast w # le_bytes n (drop_bit 8 w)"

primrec le_word :: "bytes \<Rightarrow> 'a::len word" where
  "le_word [] = 0"
| "le_word (b # bs) = ucast b OR push_bit 8 (le_word bs)"

lemma length_le_bytes [simp]: "length (le_bytes n w) = n"
  by (induction n arbitrary: w) auto

lemma le_word_le_bytes_take: "le_word (le_bytes n w) = take_bit (8 * n) (w :: 'a::len word)"
proof (induction n arbitrary: w)
  case 0
  then show ?case by simp
next
  case (Suc n)
  have "ucast (ucast w :: 8 word) OR push_bit 8 (take_bit (8 * n) (drop_bit 8 w))
      = take_bit (8 * Suc n) (w :: 'a word)"
    by (rule bit_word_eqI) (auto simp: bit_simps)
  then show ?case by (simp add: Suc.IH)
qed

lemma le_word_le_bytes:
  assumes "LENGTH('a) \<le> 8 * n"
  shows "le_word (le_bytes n w) = (w :: 'a::len word)"
proof -
  have "take_bit (8 * n) w = w"
    using assms by (auto intro!: bit_word_eqI simp: bit_simps dest: bit_imp_le_length)
  then show ?thesis by (simp add: le_word_le_bytes_take)
qed

section \<open>Slices and loops\<close>

text \<open>
  \<^verbatim>\<open>make([]T, n)\<close> panics when \<open>n\<close> elements of \<open>esz\<close> bytes exceed the runtime's address-space
  limit (\<^verbatim>\<open>maxAlloc\<close>, \<open>2 ^ 48\<close> bytes on the 64-bit platforms).  Running out of real memory below
  that limit depends on the machine and is not modelled.
\<close>

definition maxAlloc :: int where
  "maxAlloc = 2 ^ 48"

definition make_ok :: "int \<Rightarrow> int \<Rightarrow> bool" where
  "make_ok esz n \<longleftrightarrow> 0 \<le> n \<and> n * esz \<le> maxAlloc"

definition make_slice :: "int \<Rightarrow> int \<Rightarrow> 'a \<Rightarrow> 'a list outcome" where
  "make_slice esz n zero = (if make_ok esz n then Done (replicate (nat n) zero) else Panic)"

text \<open>\<^verbatim>\<open>xs[i]\<close> and \<^verbatim>\<open>xs[i] = v\<close>: a panic outside the slice.\<close>

definition index_at :: "'a list \<Rightarrow> int \<Rightarrow> 'a outcome" where
  "index_at xs i = (if 0 \<le> i \<and> i < int (length xs) then Done (xs ! nat i) else Panic)"

definition set_at :: "'a list \<Rightarrow> int \<Rightarrow> 'a \<Rightarrow> 'a list outcome" where
  "set_at xs i v = (if 0 \<le> i \<and> i < int (length xs) then Done (xs[nat i := v]) else Panic)"

text \<open>A loop over \<open>xs\<close> with state \<open>s\<close>; a loop that computes one result per element.\<close>

primrec for_each :: "('a \<Rightarrow> 's \<Rightarrow> 's outcome) \<Rightarrow> 'a list \<Rightarrow> 's \<Rightarrow> 's outcome" where
  "for_each f [] s = Done s"
| "for_each f (x # xs) s = outcome_bind (f x s) (for_each f xs)"

primrec map_outcome :: "('a \<Rightarrow> 'b outcome) \<Rightarrow> 'a list \<Rightarrow> 'b list outcome" where
  "map_outcome f [] = Done []"
| "map_outcome f (x # xs) =
     outcome_bind (f x) (\<lambda>y. outcome_bind (map_outcome f xs) (\<lambda>ys. Done (y # ys)))"

lemma index_at_nat [simp]: "i < length xs \<Longrightarrow> index_at xs (int i) = Done (xs ! i)"
  by (simp add: index_at_def)

lemma set_at_nat [simp]: "i < length xs \<Longrightarrow> set_at xs (int i) v = Done (xs[i := v])"
  by (simp add: set_at_def)

lemma index_at_panic: "i < 0 \<or> int (length xs) \<le> i \<Longrightarrow> index_at xs i = Panic"
  by (auto simp: index_at_def)

lemma index_at_eq_Done: "index_at xs i = Done v \<longleftrightarrow> 0 \<le> i \<and> nat i < length xs \<and> v = xs ! nat i"
  by (auto simp: index_at_def)

lemma no_fuel_simps [simp]:
  "index_at xs i \<noteq> OutOfFuel" "set_at xs i v \<noteq> OutOfFuel" "make_slice esz n z \<noteq> OutOfFuel"
  by (simp_all add: index_at_def set_at_def make_slice_def)

lemma outcome_bind_eq_OutOfFuel [simp]:
  "outcome_bind m f = OutOfFuel \<longleftrightarrow> m = OutOfFuel \<or> (\<exists>x. m = Done x \<and> f x = OutOfFuel)"
  by (cases m) auto

lemma for_each_no_fuel: "(\<And>x s. x \<in> set xs \<Longrightarrow> f x s \<noteq> OutOfFuel) \<Longrightarrow> for_each f xs s \<noteq> OutOfFuel"
  by (induction xs arbitrary: s) auto

lemma map_outcome_no_fuel: "(\<And>x. x \<in> set xs \<Longrightarrow> f x \<noteq> OutOfFuel) \<Longrightarrow> map_outcome f xs \<noteq> OutOfFuel"
  by (induction xs) auto

lemma map_outcome_Done: "(\<And>x. x \<in> set xs \<Longrightarrow> f x = Done (g x)) \<Longrightarrow> map_outcome f xs = Done (map g xs)"
  by (induction xs) auto

lemma map_outcome_eq_Done:
  "map_outcome f xs = Done ys \<longleftrightarrow> length ys = length xs \<and> (\<forall>i < length xs. f (xs ! i) = Done (ys ! i))"
proof (induction xs arbitrary: ys)
  case (Cons x xs)
  show ?case
    by (cases ys) (auto simp: outcome_bind_eq_Done Cons.IH less_Suc_eq_0_disj)
qed auto

lemma for_each_Nil [simp]: "for_each f [] = Done"
  by (rule ext) simp

lemma for_each_cong [fundef_cong]:
  "xs = ys \<Longrightarrow> s = t \<Longrightarrow> (\<And>x s. x \<in> set ys \<Longrightarrow> f x s = g x s) \<Longrightarrow> for_each f xs s = for_each g ys t"
proof -
  have "(\<And>x s. x \<in> set ys \<Longrightarrow> f x s = g x s) \<Longrightarrow> for_each f ys t = for_each g ys t"
    by (induction ys arbitrary: t) (auto intro: outcome_bind_cong)
  then show "xs = ys \<Longrightarrow> s = t \<Longrightarrow> (\<And>x s. x \<in> set ys \<Longrightarrow> f x s = g x s) \<Longrightarrow> for_each f xs s = for_each g ys t"
    by simp
qed

lemma for_each_append: "for_each f (xs @ ys) s = outcome_bind (for_each f xs s) (for_each f ys)"
proof (induction xs arbitrary: s)
  case (Cons x xs)
  then show ?case by (cases "f x s") auto
qed simp

lemma for_each_pure: "(\<And>x s. x \<in> set xs \<Longrightarrow> f x s = Done (g x s)) \<Longrightarrow> for_each f xs s = Done (fold g xs s)"
  by (induction xs arbitrary: s) auto

end
