(* ===== verification/Codec.thy ===== *)
theory Codec
  imports Prelude
begin

text \<open>
  Package \<^verbatim>\<open>internal/codec\<close>, the parts every other file uses: the wire-format constants of
  \<^verbatim>\<open>constants.go\<close> and the error value of \<^verbatim>\<open>errors.go\<close>.
\<close>

section \<open>Constants\<close>

definition QuackVersion :: "64 word" where "QuackVersion = 1"

definition DefaultQuackPort :: int where "DefaultQuackPort = 9494"

definition QuackEndpoint :: string where "QuackEndpoint = ''/quack''"

definition DuckDBMIMEType :: string where "DuckDBMIMEType = ''application/duckdb''"

definition FieldEnd :: "16 word" where "FieldEnd = 0xFFFF"

definition OptionalIndexInvalid :: "64 word" where
  "OptionalIndexInvalid = 0xFFFFFFFFFFFFFFFF"

section \<open>Errors\<close>

record codec_error =
  Op :: string
  Offset :: int
  Msg :: string

definition newError :: "string \<Rightarrow> string \<Rightarrow> int \<Rightarrow> codec_error" where
  "newError op msg offset = \<lparr>Op = op, Offset = offset, Msg = msg\<rparr>"

text \<open>Method \<^verbatim>\<open>Error()\<close> of \<^verbatim>\<open>*codec.Error\<close>.\<close>

definition Error_string :: "codec_error \<Rightarrow> string" where
  "Error_string e =
    (if Op e = [] then ''codec: '' @ Msg e @ '' (offset '' @ show_int (Offset e) @ '')''
     else ''codec: '' @ Op e @ '': '' @ Msg e @ '' (offset '' @ show_int (Offset e) @ '')'')"

end
