(* ===== verification/HugeInt.thy ===== *)
theory HugeInt
  imports Codec
begin

text \<open>
  \<^verbatim>\<open>internal/codec/hugeint.go\<close>: the two 64-bit halves of a DuckDB HUGEINT/UHUGEINT and their
  conversions to and from unbounded integers (\<^verbatim>\<open>*big.Int\<close>, here \<open>int\<close>, whose \<open>AND\<close>/\<open>OR\<close>/shift
  are the two's complement operations of \<^verbatim>\<open>math/big\<close>).
\<close>

record HugeIntParts =
  Upper :: "64 word"
  Lower :: "64 word"

definition zeroHugeInt :: HugeIntParts where
  "zeroHugeInt = \<lparr>Upper = 0, Lower = 0\<rparr>"

definition twoPow64 :: int where "twoPow64 = push_bit 64 1"

definition uint64Mask :: int where "uint64Mask = twoPow64 - 1"

definition HugeIntFromSigned :: "int \<Rightarrow> HugeIntParts" where
  "HugeIntFromSigned value =
     (let m = push_bit 128 1 :: int;
          normalized = value mod m;
          normalized' = (if normalized < 0 then normalized + m else normalized);
          lowerBig = normalized' AND uint64Mask;
          upperBig = drop_bit 64 normalized'
      in \<lparr>Upper = word_of_int upperBig, Lower = word_of_int lowerBig\<rparr>)"

definition SignedBigInt :: "HugeIntParts \<Rightarrow> int" where
  "SignedBigInt p = push_bit 64 (sint (Upper p)) OR uint (Lower p)"

definition UnsignedBigInt :: "HugeIntParts \<Rightarrow> int" where
  "UnsignedBigInt p = push_bit 64 (uint (Upper p)) OR uint (Lower p)"

section \<open>Correctness\<close>

text \<open>The bits of the two halves, and of the numbers they denote.\<close>

lemma HugeIntFromSigned_eq:
  "HugeIntFromSigned v =
     \<lparr>Upper = word_of_int (drop_bit 64 v), Lower = word_of_int v\<rparr>"
proof -
  have mask: "uint64Mask = mask 64"
    by (simp add: uint64Mask_def twoPow64_def mask_eq_exp_minus_1)
  have norm: "v mod push_bit 128 1 = take_bit 128 v" by (simp add: take_bit_eq_mod)
  have low: "word_of_int (take_bit 128 v AND mask 64) = (word_of_int v :: 64 word)"
    by (rule bit_word_eqI) (simp add: bit_simps)
  have up: "word_of_int (drop_bit 64 (take_bit 128 v)) = (word_of_int (drop_bit 64 v) :: 64 word)"
    by (rule bit_word_eqI) (simp add: bit_simps)
  have "\<not> take_bit 128 v < 0" by (simp add: not_less)
  then show ?thesis
    by (simp only: HugeIntFromSigned_def norm mask Let_def if_False low up)
qed

lemma SignedBigInt_FromSigned: "SignedBigInt (HugeIntFromSigned v) = signed_take_bit 127 v"
proof (rule bit_eqI)
  fix n
  show "bit (SignedBigInt (HugeIntFromSigned v)) n \<longleftrightarrow> bit (signed_take_bit 127 v) n"
    by (cases "n < 64"; cases "n < 127")
       (auto simp: SignedBigInt_def HugeIntFromSigned_eq bit_simps min_def)
qed

lemma UnsignedBigInt_FromSigned: "UnsignedBigInt (HugeIntFromSigned v) = take_bit 128 v"
  by (rule bit_eqI) (auto simp: UnsignedBigInt_def HugeIntFromSigned_eq bit_simps)

lemma FromSigned_SignedBigInt: "HugeIntFromSigned (SignedBigInt p) = p"
proof -
  have "word_of_int (drop_bit 64 (SignedBigInt p)) = Upper p"
  proof (rule bit_word_eqI)
    fix n assume "n < LENGTH(64)"
    then show "bit (word_of_int (drop_bit 64 (SignedBigInt p)) :: 64 word) n \<longleftrightarrow> bit (Upper p) n"
      by (cases "n = 63")
         (auto simp: SignedBigInt_def bit_simps min_def dest: bit_imp_le_length)
  qed
  moreover have "word_of_int (SignedBigInt p) = Lower p"
    by (rule bit_word_eqI) (auto simp: SignedBigInt_def bit_simps)
  ultimately show ?thesis by (simp add: HugeIntFromSigned_eq)
qed

lemma SignedBigInt_range: "- (2 ^ 127) \<le> SignedBigInt p" "SignedBigInt p < 2 ^ 127"
proof -
  have "signed_take_bit 127 (SignedBigInt p) = SignedBigInt p"
    using SignedBigInt_FromSigned [of "SignedBigInt p"] by (simp add: FromSigned_SignedBigInt)
  then show "- (2 ^ 127) \<le> SignedBigInt p" "SignedBigInt p < 2 ^ 127"
    by (metis signed_take_bit_int_greater_eq_minus_exp, metis signed_take_bit_int_less_exp)
qed

end
