(* ===== verification/WireGrammar.thy ===== *)
theory WireGrammar
  imports Codec HugeInt
begin

text \<open>
  The byte grammar of DuckDB's BinarySerializer, stated independently of the reader and the
  writer: arithmetic definitions of the two LEB128 forms on \<open>nat\<close> and \<open>int\<close>, and the shapes the
  protocol is built from (fields, optional fields, objects, length-prefixed blobs, lists).
  It is the specification both directions are proved against; nothing here models code.
\<close>

section \<open>LEB128\<close>

fun uleb128 :: "nat \<Rightarrow> bytes" where
  "uleb128 n = (if n < 128 then [of_nat n] else of_nat (n mod 128 + 128) # uleb128 (n div 128))"

declare uleb128.simps [simp del]

function sleb128 :: "int \<Rightarrow> bytes" where
  "sleb128 i =
     (if -64 \<le> i \<and> i < 64 then [of_int (i mod 128)]
      else of_int (i mod 128 + 128) # sleb128 (i div 128))"
  by pat_completeness auto

lemma abs_div_128_less: "\<not> (-64 \<le> i \<and> i < 64) \<Longrightarrow> nat \<bar>i div 128\<bar> < nat \<bar>i :: int\<bar>"
  using div_mult_mod_eq [of i 128] pos_mod_bound [of 128 i] pos_mod_sign [of 128 i] by linarith

termination sleb128
  by (relation "measure (\<lambda>i. nat \<bar>i\<bar>)") (simp, simp only: in_measure, erule abs_div_128_less)

declare sleb128.simps [simp del]

lemma uleb128_small [simp]: "n < 128 \<Longrightarrow> uleb128 n = [of_nat n]"
  by (simp add: uleb128.simps)

lemma length_uleb128_pos: "0 < length (uleb128 n)"
  by (subst uleb128.simps) simp

lemma length_sleb128_pos: "0 < length (sleb128 i)"
  by (subst sleb128.simps) simp

lemma length_uleb128_le: "n < 128 ^ k \<Longrightarrow> 0 < k \<Longrightarrow> length (uleb128 n) \<le> k"
proof (induction k arbitrary: n)
  case 0
  then show ?case by simp
next
  case (Suc k)
  show ?case
  proof (cases "n < 128")
    case True
    then show ?thesis by simp
  next
    case False
    with Suc.prems have "n div 128 < 128 ^ k" "0 < k"
      by (auto simp: less_mult_imp_div_less mult.commute intro: gr0I)
    then have "length (uleb128 (n div 128)) \<le> k" by (rule Suc.IH)
    with False show ?thesis by (simp add: uleb128.simps [of n])
  qed
qed

section \<open>Shapes\<close>

definition fid_bytes :: "16 word \<Rightarrow> bytes" where
  "fid_bytes fid = le_bytes 2 fid"

definition field :: "16 word \<Rightarrow> bytes \<Rightarrow> bytes" where
  "field fid bs = fid_bytes fid @ bs"

definition opt_field :: "bool \<Rightarrow> 16 word \<Rightarrow> bytes \<Rightarrow> bytes" where
  "opt_field present fid bs = (if present then field fid bs else [])"

definition object_end :: bytes where
  "object_end = fid_bytes FieldEnd"

definition object :: "bytes \<Rightarrow> bytes" where
  "object bs = bs @ object_end"

definition bool_bytes :: "bool \<Rightarrow> bytes" where
  "bool_bytes b = [if b then 1 else 0]"

text \<open>A 64-bit value in ULEB128, a Go \<^verbatim>\<open>int\<close> converted to \<^verbatim>\<open>uint64\<close>, a length.\<close>

definition uleb_word :: "64 word \<Rightarrow> bytes" where
  "uleb_word v = uleb128 (unat v)"

definition uleb_int :: "int \<Rightarrow> bytes" where
  "uleb_int i = uleb_word (word_of_int i)"

definition uleb_len :: "nat \<Rightarrow> bytes" where
  "uleb_len n = uleb_word (of_nat n)"

definition blob_bytes :: "bytes \<Rightarrow> bytes" where
  "blob_bytes b = uleb_len (length b) @ b"

definition string_bytes :: "string \<Rightarrow> bytes" where
  "string_bytes s = blob_bytes (bytes_of_string s)"

definition list_bytes :: "('a \<Rightarrow> bytes) \<Rightarrow> 'a list \<Rightarrow> bytes" where
  "list_bytes f xs = uleb_len (length xs) @ concat (map f xs)"

definition hugeint_bytes :: "HugeIntParts \<Rightarrow> bytes" where
  "hugeint_bytes p = sleb128 (sint (Upper p)) @ uleb_word (Lower p)"

lemma list_bytes_cong [fundef_cong]:
  "xs = ys \<Longrightarrow> (\<And>x. x \<in> set ys \<Longrightarrow> f x = g x) \<Longrightarrow> list_bytes f xs = list_bytes g ys"
  by (simp add: list_bytes_def cong: map_cong)

lemma length_fid_bytes [simp]: "length (fid_bytes fid) = 2"
  by (simp add: fid_bytes_def)

lemma length_field [simp]: "length (field fid bs) = 2 + length bs"
  by (simp add: field_def)

lemma length_object [simp]: "length (object bs) = length bs + 2"
  by (simp add: object_def object_end_def)

lemma length_string_bytes_ge: "length s < length (string_bytes s)"
  using length_uleb128_pos
  by (simp add: string_bytes_def blob_bytes_def uleb_len_def uleb_word_def)

text \<open>An element's encoding is shorter than the list's: the bound that fuels the decoders.\<close>

lemma length_list_bytes_element:
  "x \<in> set xs \<Longrightarrow> length (f x) < length (list_bytes f xs)"
proof (induction xs)
  case (Cons a xs)
  from Cons.prems obtain ys zs where "a # xs = ys @ x # zs"
    by (meson split_list)
  then have "length (f x) \<le> length (concat (map f (a # xs)))"
    by simp
  then show ?case
    using length_uleb128_pos [of "unat (of_nat (length (a # xs)) :: 64 word)"]
    by (simp add: list_bytes_def uleb_len_def uleb_word_def del: of_nat_Suc length_greater_0_conv)
qed simp

lemma length_list_bytes_ge:
  "(\<And>x. x \<in> set xs \<Longrightarrow> 0 < length (f x)) \<Longrightarrow> length xs \<le> length (list_bytes f xs)"
proof -
  assume pos: "\<And>x. x \<in> set xs \<Longrightarrow> 0 < length (f x)"
  then have "length xs \<le> length (concat (map f xs))"
  proof (induction xs)
    case (Cons a xs)
    then have "1 \<le> length (f a)" "length xs \<le> length (concat (map f xs))"
      by (auto simp: Suc_le_eq)
    then show ?case by simp
  qed simp
  then show ?thesis by (simp add: list_bytes_def)
qed

section \<open>What the next field is\<close>

text \<open>
  \<open>starts_other fid bs\<close>: the bytes begin with a field id different from \<open>fid\<close>, which is what
  makes a reader skip an optional field.
\<close>

definition starts_other :: "16 word \<Rightarrow> bytes \<Rightarrow> bool" where
  "starts_other fid bs \<longleftrightarrow> (\<exists>g bs'. bs = fid_bytes g @ bs' \<and> g \<noteq> fid)"

lemma fid_bytes_inj: "fid_bytes a = fid_bytes b \<longleftrightarrow> a = b"
proof
  assume "fid_bytes a = fid_bytes b"
  then have "le_word (fid_bytes a) = (le_word (fid_bytes b) :: 16 word)" by simp
  then show "a = b" by (simp add: fid_bytes_def le_word_le_bytes)
qed simp

lemma starts_other_fid [simp]: "starts_other fid (fid_bytes g @ bs) \<longleftrightarrow> g \<noteq> fid"
proof -
  have "g = g'" if "fid_bytes g @ bs = fid_bytes g' @ bs'" for g' bs'
    using that by (simp add: fid_bytes_inj [symmetric])
  then show ?thesis by (auto simp: starts_other_def)
qed

lemma starts_other_field [simp]: "starts_other fid (field g bs @ rest) \<longleftrightarrow> g \<noteq> fid"
  by (simp add: field_def)

lemma starts_other_object_end [simp]: "starts_other fid (object_end @ rest) \<longleftrightarrow> FieldEnd \<noteq> fid"
  by (simp add: object_end_def)

lemma starts_other_opt_field:
  "(c \<Longrightarrow> g \<noteq> fid) \<Longrightarrow> (\<not> c \<Longrightarrow> starts_other fid rest) \<Longrightarrow>
   starts_other fid (opt_field c g bs @ rest)"
  by (simp add: opt_field_def)

end
