(* ===== verification/BinaryWriter.thy ===== *)
theory BinaryWriter
  imports WireGrammar HugeInt
begin

text \<open>
  \<^verbatim>\<open>internal/codec/binary_writer.go\<close>: the append-only writer with a sticky error, one definition
  per method.  A method that returns nothing is a function from writer states to writer states
  (\<open>wr\<close>).  The second half gives the arithmetic reference of the two LEB128 forms and the relation
  \<open>appends f bs\<close> ("on a writer without error, \<open>f\<close> appends exactly \<open>bs\<close>") with one rule per
  method, from which the encoders of the higher layers are specified.
\<close>

section \<open>State\<close>

record writer =
  w_buf :: bytes
  w_err :: "codec_error option"

type_synonym wr = "writer \<Rightarrow> writer"

text \<open>The initial capacity only pre-allocates; it is not observable.\<close>

definition NewBinaryWriter :: "int \<Rightarrow> writer" where
  "NewBinaryWriter initialCapacity = \<lparr>w_buf = [], w_err = None\<rparr>"

definition writer_Err :: "writer \<Rightarrow> codec_error option" where
  "writer_Err w = w_err w"

definition Bytes :: "writer \<Rightarrow> bytes" where
  "Bytes w = w_buf w"

definition Size :: "writer \<Rightarrow> int" where
  "Size w = int (length (w_buf w))"

text \<open>The guard \<^verbatim>\<open>if w.err != nil { return }\<close> in front of an append.\<close>

definition append_buf :: "bytes \<Rightarrow> wr" where
  "append_buf bs w = (if w_err w \<noteq> None then w else w\<lparr>w_buf := w_buf w @ bs\<rparr>)"

text \<open>Statement sequence.\<close>

definition wseq :: "wr \<Rightarrow> wr \<Rightarrow> wr" where
  "wseq f g w = g (f w)"

definition wskip :: wr where
  "wskip w = w"

section \<open>Objects and fields\<close>

definition WriteFieldID :: "16 word \<Rightarrow> wr" where
  "WriteFieldID fieldID = append_buf (le_bytes 2 fieldID)"

definition WriteObject :: "wr \<Rightarrow> wr" where
  "WriteObject body = wseq body (WriteFieldID FieldEnd)"

definition WriteField :: "16 word \<Rightarrow> wr \<Rightarrow> wr" where
  "WriteField fieldID body = wseq (WriteFieldID fieldID) body"

section \<open>Primitive scalars\<close>

definition writeByte :: "8 word \<Rightarrow> wr" where
  "writeByte b = append_buf [b]"

definition WriteBytes :: "bytes \<Rightarrow> wr" where
  "WriteBytes b = append_buf b"

definition WriteBool :: "bool \<Rightarrow> wr" where
  "WriteBool v = (if v then writeByte 1 else writeByte 0)"

section \<open>LEB128\<close>

function ULEB128_loop :: "64 word \<Rightarrow> bytes \<Rightarrow> bytes" where
  "ULEB128_loop value buf =
     (if value AND NOT 0x7F \<noteq> 0
      then ULEB128_loop (drop_bit 7 value) (buf @ [ucast (value AND 0x7F) OR 0x80])
      else buf @ [ucast (value AND 0x7F)])"
  by pat_completeness auto

termination ULEB128_loop
  by (relation "measure (\<lambda>(v, _). unat v)") (simp_all only: high_bits_iff in_measure case_prod_conv unat_drop_bit wf_measure, simp)

declare ULEB128_loop.simps [simp del]

text \<open>The loop runs on the buffer itself, under the guard of \<^verbatim>\<open>WriteULEB128\<close>.\<close>

definition WriteULEB128 :: "64 word \<Rightarrow> wr" where
  "WriteULEB128 value w =
     (if w_err w \<noteq> None then w else w\<lparr>w_buf := ULEB128_loop value (w_buf w)\<rparr>)"

function SLEB128_loop :: "64 word \<Rightarrow> bytes \<Rightarrow> bytes" where
  "SLEB128_loop value buf =
     (let b = ucast (value AND 0x7F) :: 8 word;
          value' = signed_drop_bit 7 value;
          signBitSet = (b AND 0x40 \<noteq> 0)
      in if (value' = 0 \<and> \<not> signBitSet) \<or> (value' = -1 \<and> signBitSet) then buf @ [b]
         else SLEB128_loop value' (buf @ [b OR 0x80]))"
  by pat_completeness auto

lemma SLEB128_stop_iff:
  "(signed_drop_bit 7 v = 0 \<and> \<not> (ucast (v AND 0x7F) :: 8 word) AND 0x40 \<noteq> 0)
   \<or> (signed_drop_bit 7 v = -1 \<and> (ucast (v AND 0x7F) :: 8 word) AND 0x40 \<noteq> 0)
   \<longleftrightarrow> -64 \<le> sint v \<and> sint v < 64" for v :: "64 word"
proof -
  have zero: "signed_drop_bit 7 v = 0 \<longleftrightarrow> sint v div 128 = 0"
    using sint_signed_drop_bit [of 7 v] by (auto intro!: signed_word_eqI)
  have minus: "signed_drop_bit 7 v = -1 \<longleftrightarrow> sint v div 128 = -1"
    using sint_signed_drop_bit [of 7 v] by (auto intro!: signed_word_eqI)
  have "(sint v div 128 = 0 \<and> \<not> 64 \<le> sint v mod 128) \<or> (sint v div 128 = -1 \<and> 64 \<le> sint v mod 128)
      \<longleftrightarrow> -64 \<le> sint v \<and> sint v < 64"
    using div_mult_mod_eq [of "sint v" 128] pos_mod_bound [of 128 "sint v"]
      pos_mod_sign [of 128 "sint v"] by linarith
  then show ?thesis unfolding sign_group_iff zero minus by simp
qed

termination SLEB128_loop
proof (relation "measure (\<lambda>(v, _). nat \<bar>sint v\<bar>)", goal_cases)
  case 1
  show ?case by simp
next
  case (2 v buf b value' signBitSet)
  then have "\<not> (-64 \<le> sint v \<and> sint v < 64)"
    unfolding SLEB128_stop_iff [of v, symmetric] by blast
  moreover have "sint value' = sint v div 128"
    using 2 by (simp add: sint_signed_drop_bit)
  ultimately have "nat \<bar>sint value'\<bar> < nat \<bar>sint v\<bar>"
    using div_mult_mod_eq [of "sint v" 128] pos_mod_bound [of 128 "sint v"]
      pos_mod_sign [of 128 "sint v"] by linarith
  then show ?case by simp
qed

declare SLEB128_loop.simps [simp del]

definition WriteSLEB128 :: "64 word \<Rightarrow> wr" where
  "WriteSLEB128 value w =
     (if w_err w \<noteq> None then w else w\<lparr>w_buf := SLEB128_loop value (w_buf w)\<rparr>)"

section \<open>Length-prefixed values\<close>

definition WriteStringBytes :: "bytes \<Rightarrow> wr" where
  "WriteStringBytes b = wseq (WriteULEB128 (of_nat (length b))) (WriteBytes b)"

definition WriteString :: "string \<Rightarrow> wr" where
  "WriteString s = WriteStringBytes (bytes_of_string s)"

definition WriteBlob :: "bytes \<Rightarrow> wr" where
  "WriteBlob b = wseq (WriteULEB128 (of_nat (length b))) (WriteBytes b)"

primrec WriteList_loop :: "nat \<Rightarrow> 'a list \<Rightarrow> (nat \<Rightarrow> 'a \<Rightarrow> wr) \<Rightarrow> wr" where
  "WriteList_loop i [] writeItem w = w"
| "WriteList_loop i (x # xs) writeItem w =
     (let w' = writeItem i x w
      in if w_err w' \<noteq> None then w' else WriteList_loop (Suc i) xs writeItem w')"

definition WriteList :: "'a list \<Rightarrow> (nat \<Rightarrow> 'a \<Rightarrow> wr) \<Rightarrow> wr" where
  "WriteList items writeItem =
     wseq (WriteULEB128 (of_nat (length items))) (WriteList_loop 0 items writeItem)"

definition WriteNullable :: "'a option \<Rightarrow> ('a \<Rightarrow> wr) \<Rightarrow> wr" where
  "WriteNullable value writeValue =
     (case value of None \<Rightarrow> WriteBool False
      | Some v \<Rightarrow> wseq (WriteBool True) (writeValue v))"

definition WriteHugeInt :: "HugeIntParts \<Rightarrow> wr" where
  "WriteHugeInt p = wseq (WriteSLEB128 (Upper p)) (WriteULEB128 (Lower p))"

lemma WriteList_loop_cong:
  "(\<And>i x. x \<in> set xs \<Longrightarrow> f i x = g i x) \<Longrightarrow> WriteList_loop k xs f = WriteList_loop k xs g"
  by (induction xs arbitrary: k) (auto simp: fun_eq_iff Let_def)

lemma WriteList_cong [fundef_cong]:
  "xs = ys \<Longrightarrow> (\<And>i x. x \<in> set ys \<Longrightarrow> f i x = g i x) \<Longrightarrow> WriteList xs f = WriteList ys g"
  unfolding WriteList_def by (auto intro!: arg_cong2 [where f = wseq] WriteList_loop_cong)

section \<open>Fixed-width values\<close>

definition WriteFixedInt8 :: "8 word \<Rightarrow> wr" where
  "WriteFixedInt8 v = writeByte v"

definition WriteFixedUint8 :: "8 word \<Rightarrow> wr" where
  "WriteFixedUint8 v = writeByte v"

definition WriteFixedInt16 :: "16 word \<Rightarrow> wr" where
  "WriteFixedInt16 v = append_buf (le_bytes 2 v)"

definition WriteFixedUint16 :: "16 word \<Rightarrow> wr" where
  "WriteFixedUint16 v = append_buf (le_bytes 2 v)"

definition WriteFixedInt32 :: "32 word \<Rightarrow> wr" where
  "WriteFixedInt32 v = append_buf (le_bytes 4 v)"

definition WriteFixedUint32 :: "32 word \<Rightarrow> wr" where
  "WriteFixedUint32 v = append_buf (le_bytes 4 v)"

definition WriteFixedInt64 :: "64 word \<Rightarrow> wr" where
  "WriteFixedInt64 v = append_buf (le_bytes 8 v)"

definition WriteFixedUint64 :: "64 word \<Rightarrow> wr" where
  "WriteFixedUint64 v = append_buf (le_bytes 8 v)"

text \<open>
  A float is its IEEE bit pattern; \<^verbatim>\<open>math.Float32bits\<close> and \<^verbatim>\<open>Float64bits\<close> are the identity on
  patterns.
\<close>

definition WriteFixedFloat32 :: "32 word \<Rightarrow> wr" where
  "WriteFixedFloat32 v = WriteFixedUint32 v"

definition WriteFixedFloat64 :: "64 word \<Rightarrow> wr" where
  "WriteFixedFloat64 v = WriteFixedUint64 v"

section \<open>Invalidation\<close>

definition invalidate :: "string \<Rightarrow> string \<Rightarrow> wr" where
  "invalidate op msg w =
     (if w_err w = None
      then w\<lparr>w_err := Some \<lparr>Op = op, Offset = int (length (w_buf w)), Msg = msg\<rparr>\<rparr> else w)"

definition checkFieldRange :: "string \<Rightarrow> int \<Rightarrow> wr" where
  "checkFieldRange op fieldID =
     (if fieldID < 0 \<or> 0xFFFF < fieldID
      then invalidate op (''invalid field id '' @ show_int fieldID) else wskip)"

section \<open>LEB128 against the reference\<close>

lemma ULEB128_loop_eq: "ULEB128_loop v buf = buf @ uleb128 (unat v)"
proof (induction v buf rule: ULEB128_loop.induct)
  case (1 v buf)
  show ?case
  proof (cases "128 \<le> unat v")
    case True
    have byte: "ucast (v AND 0x7F) OR 0x80 = (of_nat (unat v mod 128 + 128) :: 8 word)"
      unfolding low_group_unat by (rule continuation_bit) simp
    have "ULEB128_loop v buf
        = ULEB128_loop (drop_bit 7 v) (buf @ [of_nat (unat v mod 128 + 128)])"
      using True by (subst ULEB128_loop.simps) (simp only: high_bits_iff byte if_True)
    also have "\<dots> = buf @ of_nat (unat v mod 128 + 128) # uleb128 (unat v div 128)"
      using True by (subst 1 [unfolded high_bits_iff byte, OF True]) (simp add: unat_drop_bit [of 7, simplified])
    also have "\<dots> = buf @ uleb128 (unat v)"
      using True by (subst (2) uleb128.simps) simp
    finally show ?thesis .
  next
    case False
    then show ?thesis
      by (subst ULEB128_loop.simps) (simp only: high_bits_iff if_False low_group_unat, simp)
  qed
qed

lemma SLEB128_loop_eq: "SLEB128_loop v buf = buf @ sleb128 (sint v)"
proof (induction v buf rule: SLEB128_loop.induct)
  case (1 v buf)
  show ?case
  proof (cases "-64 \<le> sint v \<and> sint v < 64")
    case True
    have "SLEB128_loop v buf = buf @ [ucast (v AND 0x7F)]"
      by (simp only: SLEB128_loop.simps [of v buf] Let_def SLEB128_stop_iff if_P [OF True])
    with True show ?thesis by (simp only: low_group_sint) (simp add: sleb128.simps)
  next
    case False
    have "(0::int) \<le> sint v mod 128" "sint v mod 128 < 128" by simp_all
    then have byte: "ucast (v AND 0x7F) OR 0x80 = (of_int (sint v mod 128 + 128) :: 8 word)"
      using continuation_bit [of "nat (sint v mod 128)"]
      by (simp only: low_group_sint) (simp add: nat_less_iff del: of_nat_nat add: of_nat_nat [symmetric])
    have "SLEB128_loop v buf
        = SLEB128_loop (signed_drop_bit 7 v) (buf @ [of_int (sint v mod 128 + 128)])"
      using False by (simp only: SLEB128_loop.simps [of v buf] Let_def SLEB128_stop_iff byte if_False)
    also have "\<dots> = buf @ of_int (sint v mod 128 + 128) # sleb128 (sint v div 128)"
      using 1 [OF refl refl refl] False
      by (simp only: SLEB128_stop_iff byte sint_signed_drop_bit) simp
    also have "\<dots> = buf @ sleb128 (sint v)"
      using False by (subst (2) sleb128.simps) simp
    finally show ?thesis .
  qed
qed

section \<open>What each method appends\<close>

definition appends :: "wr \<Rightarrow> bytes \<Rightarrow> bool" where
  "appends f bs \<longleftrightarrow> (\<forall>w. w_err w = None \<longrightarrow> f w = w\<lparr>w_buf := w_buf w @ bs\<rparr>)"

lemma appendsD: "appends f bs \<Longrightarrow> w_err w = None \<Longrightarrow> f w = w\<lparr>w_buf := w_buf w @ bs\<rparr>"
  by (simp add: appends_def)

lemma appends_unique: "appends f a \<Longrightarrow> appends f b \<Longrightarrow> a = b"
  by (auto simp: appends_def dest: spec [of _ "\<lparr>w_buf = [], w_err = None\<rparr>"])

lemma appends_buf [appends_rules]: "appends (append_buf bs) bs"
  by (simp add: appends_def append_buf_def)

lemma appends_wseq [appends_rules]:
  "appends f a \<Longrightarrow> appends g b \<Longrightarrow> appends (wseq f g) (a @ b)"
  by (simp add: appends_def wseq_def)

lemma appends_wskip [appends_rules]: "appends wskip []"
  by (simp add: appends_def wskip_def)

lemma appends_if [appends_rules]:
  "(c \<Longrightarrow> appends f a) \<Longrightarrow> (\<not> c \<Longrightarrow> appends g b) \<Longrightarrow>
   appends (if c then f else g) (if c then a else b)"
  by simp

lemma appends_WriteFieldID [appends_rules]: "appends (WriteFieldID fid) (fid_bytes fid)"
  by (simp add: WriteFieldID_def fid_bytes_def appends_buf)

lemma appends_WriteField [appends_rules]:
  "appends f bs \<Longrightarrow> appends (WriteField fid f) (field fid bs)"
  unfolding WriteField_def field_def by (intro appends_wseq appends_WriteFieldID)

lemma appends_opt_field [appends_rules]:
  "(c \<Longrightarrow> appends f bs) \<Longrightarrow> appends (if c then WriteField fid f else wskip) (opt_field c fid bs)"
  by (simp add: opt_field_def appends_WriteField appends_wskip)

lemma appends_WriteObject [appends_rules]:
  "appends f bs \<Longrightarrow> appends (WriteObject f) (object bs)"
  unfolding WriteObject_def object_def object_end_def by (intro appends_wseq appends_WriteFieldID)

lemma appends_writeByte [appends_rules]: "appends (writeByte b) [b]"
  by (simp add: writeByte_def appends_buf)

lemma appends_WriteBytes [appends_rules]: "appends (WriteBytes b) b"
  by (simp add: WriteBytes_def appends_buf)

lemma appends_WriteBool [appends_rules]: "appends (WriteBool b) (bool_bytes b)"
  by (simp add: WriteBool_def bool_bytes_def appends_writeByte)

lemma appends_WriteULEB128 [appends_rules]: "appends (WriteULEB128 v) (uleb_word v)"
  by (simp add: appends_def WriteULEB128_def ULEB128_loop_eq uleb_word_def)

lemma appends_WriteULEB128_int [appends_rules]:
  "appends (WriteULEB128 (word_of_int i)) (uleb_int i)"
  unfolding uleb_int_def by (rule appends_WriteULEB128)

lemma appends_WriteSLEB128 [appends_rules]: "appends (WriteSLEB128 v) (sleb128 (sint v))"
  by (simp add: appends_def WriteSLEB128_def SLEB128_loop_eq)

lemma appends_WriteStringBytes [appends_rules]: "appends (WriteStringBytes b) (blob_bytes b)"
  unfolding WriteStringBytes_def blob_bytes_def uleb_len_def
  by (intro appends_wseq appends_WriteULEB128 appends_WriteBytes)

lemma appends_WriteString [appends_rules]: "appends (WriteString s) (string_bytes s)"
  unfolding WriteString_def string_bytes_def by (rule appends_WriteStringBytes)

lemma appends_WriteBlob [appends_rules]: "appends (WriteBlob b) (blob_bytes b)"
  unfolding WriteBlob_def blob_bytes_def uleb_len_def
  by (intro appends_wseq appends_WriteULEB128 appends_WriteBytes)

lemma appends_WriteList_loop:
  "(\<And>i x. x \<in> set xs \<Longrightarrow> appends (f i x) (enc x)) \<Longrightarrow>
   appends (WriteList_loop k xs f) (concat (map enc xs))"
proof (induction xs arbitrary: k)
  case (Cons x xs)
  then have "appends (f k x) (enc x)" "appends (WriteList_loop (Suc k) xs f) (concat (map enc xs))"
    by simp_all
  then show ?case by (simp add: appends_def)
qed (simp add: appends_def)

lemma appends_WriteList [appends_rules]:
  "(\<And>i x. x \<in> set xs \<Longrightarrow> appends (f i x) (enc x)) \<Longrightarrow> appends (WriteList xs f) (list_bytes enc xs)"
  unfolding WriteList_def list_bytes_def uleb_len_def
  by (intro appends_wseq appends_WriteULEB128 appends_WriteList_loop)

lemma appends_WriteHugeInt [appends_rules]: "appends (WriteHugeInt p) (hugeint_bytes p)"
  unfolding WriteHugeInt_def hugeint_bytes_def
  by (intro appends_wseq appends_WriteSLEB128 appends_WriteULEB128)

lemma appends_WriteFixed [appends_rules]:
  "appends (WriteFixedInt8 a) [a]" "appends (WriteFixedUint8 a) [a]"
  "appends (WriteFixedInt16 b) (le_bytes 2 b)" "appends (WriteFixedUint16 b) (le_bytes 2 b)"
  "appends (WriteFixedInt32 c) (le_bytes 4 c)" "appends (WriteFixedUint32 c) (le_bytes 4 c)"
  "appends (WriteFixedInt64 d) (le_bytes 8 d)" "appends (WriteFixedUint64 d) (le_bytes 8 d)"
  "appends (WriteFixedFloat32 c) (le_bytes 4 c)" "appends (WriteFixedFloat64 d) (le_bytes 8 d)"
  by (simp_all add: WriteFixedInt8_def WriteFixedUint8_def WriteFixedInt16_def WriteFixedUint16_def
      WriteFixedInt32_def WriteFixedUint32_def WriteFixedInt64_def WriteFixedUint64_def
      WriteFixedFloat32_def WriteFixedFloat64_def appends_buf appends_writeByte)

lemma Bytes_of_appends: "appends f bs \<Longrightarrow> Bytes (f (NewBinaryWriter n)) = bs"
  by (simp add: Bytes_def NewBinaryWriter_def appends_def)

lemma Err_of_appends: "appends f bs \<Longrightarrow> writer_Err (f (NewBinaryWriter n)) = None"
  by (simp add: writer_Err_def NewBinaryWriter_def appends_def)

end
