(* ===== verification/BinaryReader.thy ===== *)
theory BinaryReader
  imports WireGrammar
begin

text \<open>
  \<^verbatim>\<open>internal/codec/binary_reader.go\<close>: the sticky-error reader, one definition per method or
  generic function.  A method with result \<^verbatim>\<open>T\<close> is a \<open>'a rd\<close>: from a reader state to the value
  and the new state, or \<open>Panic\<close> (Go runtime panic), or \<open>OutOfFuel\<close> (only for the recursive
  decoders of other theories).  The error of the source is the state component \<open>r_err\<close>; code after
  a failed read keeps running, as in Go.

  Lemmas: \<open>reads f v bs rest\<close> (on a healthy reader in front of \<open>bs @ rest\<close>, \<open>f\<close> returns \<open>v\<close> and
  consumes \<open>bs\<close>), \<open>sticky\<close> (with an error recorded, \<open>f\<close> changes nothing) and \<open>consuming\<close> (what
  \<open>f\<close> leaves of the input; the fuel a recursive reader needs), with a rule for every method.
\<close>

section \<open>State\<close>

record reader =
  r_bytes :: bytes
  r_offset :: nat
  r_err :: "codec_error option"

type_synonym 'a rd = "reader \<Rightarrow> ('a \<times> reader) outcome"

definition NewBinaryReader :: "bytes \<Rightarrow> reader" where
  "NewBinaryReader b = \<lparr>r_bytes = b, r_offset = 0, r_err = None\<rparr>"

definition Err :: "reader \<Rightarrow> codec_error option" where
  "Err r = r_err r"

definition Position :: "reader \<Rightarrow> int" where
  "Position r = int (r_offset r)"

definition Remaining :: "reader \<Rightarrow> int" where
  "Remaining r = int (length (r_bytes r)) - int (r_offset r)"

definition EOF :: "reader \<Rightarrow> bool" where
  "EOF r \<longleftrightarrow> length (r_bytes r) \<le> r_offset r"

section \<open>Sequencing\<close>

definition rret :: "'a \<Rightarrow> 'a rd" where
  "rret v r = Done (v, r)"

definition rbind :: "'a rd \<Rightarrow> ('a \<Rightarrow> 'b rd) \<Rightarrow> 'b rd" where
  "rbind f g r = outcome_bind (f r) (\<lambda>(v, r'). g v r')"

text \<open>\<^verbatim>\<open>if r.err != nil { return zero }\<close> in front of the rest of a method.\<close>

definition on_err :: "'a \<Rightarrow> 'a rd \<Rightarrow> 'a rd" where
  "on_err zero f r = (if r_err r \<noteq> None then Done (zero, r) else f r)"

text \<open>\<^verbatim>\<open>r.err = newError(op, msg, offset); return zero\<close>, the offset relative to the position.\<close>

definition rfail :: "'a \<Rightarrow> string \<Rightarrow> string \<Rightarrow> int \<Rightarrow> 'a rd" where
  "rfail zero op msg back r =
     Done (zero, r\<lparr>r_err := Some (newError op msg (int (r_offset r) - back))\<rparr>)"

definition rpanic :: "'a rd" where
  "rpanic r = Panic"

text \<open>An allocation of \<open>n\<close> elements in front of the rest of a method.\<close>

definition rmake :: "int \<Rightarrow> int \<Rightarrow> 'a rd \<Rightarrow> 'a rd" where
  "rmake esz n f = (if make_ok esz n then f else rpanic)"

section \<open>Bounds check\<close>

text \<open>
  \<^verbatim>\<open>r.offset+n > len(r.bytes)\<close> is a sum of 64-bit \<^verbatim>\<open>int\<close>s: it wraps.
\<close>

definition ensure :: "int \<Rightarrow> bool rd" where
  "ensure n r =
     (if r_err r \<noteq> None then Done (False, r)
      else if int (length (r_bytes r)) < wrap64 (int (r_offset r) + n)
      then rfail False ''ensure''
             (''unexpected end of input; needed '' @ show_int n @ '' byte(s), have ''
                @ show_int (Remaining r)) 0 r
      else Done (True, r))"

text \<open>
  \<^verbatim>\<open>r.bytes[r.offset:]\<close> read at a fixed width, and the same followed by the advance of the offset;
  the slice expression panics when the bytes are not there.
\<close>

definition slice_at :: "nat \<Rightarrow> reader \<Rightarrow> bytes" where
  "slice_at n r = take n (drop (r_offset r) (r_bytes r))"

definition peek_slice :: "nat \<Rightarrow> bytes rd" where
  "peek_slice n r =
     (if r_offset r + n \<le> length (r_bytes r) then Done (slice_at n r, r) else Panic)"

definition advance :: "nat \<Rightarrow> reader \<Rightarrow> reader" where
  "advance n r = r\<lparr>r_offset := r_offset r + n\<rparr>"

definition take_slice :: "nat \<Rightarrow> bytes rd" where
  "take_slice n r =
     (if r_offset r + n \<le> length (r_bytes r) then Done (slice_at n r, advance n r) else Panic)"

text \<open>\<^verbatim>\<open>if !r.ensure(n) { return zero }\<close>.\<close>

definition ensured :: "nat \<Rightarrow> 'a \<Rightarrow> 'a rd \<Rightarrow> 'a rd" where
  "ensured n zero f = rbind (ensure (int n)) (\<lambda>ok. if ok then f else rret zero)"

section \<open>Objects and fields\<close>

definition AssertEOF :: "unit rd" where
  "AssertEOF = on_err () (\<lambda>r.
     if \<not> EOF r
     then rfail () ''AssertEOF'' (''unexpected trailing '' @ show_int (Remaining r) @ '' byte(s)'') 0 r
     else Done ((), r))"

definition ReadFieldID :: "16 word rd" where
  "ReadFieldID = ensured 2 0 (rbind (take_slice 2) (\<lambda>bs. rret (le_word bs)))"

definition PeekFieldID :: "16 word rd" where
  "PeekFieldID = ensured 2 0 (rbind (peek_slice 2) (\<lambda>bs. rret (le_word bs)))"

definition ReadEndObject :: "unit rd" where
  "ReadEndObject = rbind ReadFieldID (\<lambda>id. on_err ()
     (if id \<noteq> FieldEnd
      then rfail () ''ReadEndObject''
             (''expected end-of-object (0xFFFF), got field '' @ show_nat (unat id)) 2
      else rret ()))"

text \<open>
  The second result of \<^verbatim>\<open>ReadObject\<close> is the reader's own error, which the state carries.
\<close>

definition ReadObject :: "'a \<Rightarrow> 'a rd \<Rightarrow> 'a rd" where
  "ReadObject zero body = rbind body (\<lambda>v. on_err zero
     (rbind ReadEndObject (\<lambda>_. on_err zero (rret v))))"

definition ReadRequiredField :: "16 word \<Rightarrow> 'a \<Rightarrow> 'a rd \<Rightarrow> 'a rd" where
  "ReadRequiredField fieldID zero read = rbind ReadFieldID (\<lambda>actual. on_err zero
     (if actual \<noteq> fieldID
      then rfail zero ''ReadRequiredField''
             (''expected field '' @ show_nat (unat fieldID) @ '', got '' @ show_nat (unat actual)) 2
      else read))"

definition ReadOptionalField :: "16 word \<Rightarrow> 'a rd \<Rightarrow> 'a \<Rightarrow> 'a rd" where
  "ReadOptionalField fieldID read defaultValue r =
     (if r_err r \<noteq> None \<or> EOF r then Done (defaultValue, r)
      else rbind PeekFieldID (\<lambda>id.
             if id \<noteq> fieldID then rret defaultValue
             else rbind ReadFieldID (\<lambda>_. read)) r)"

section \<open>Primitive scalars\<close>

definition readByte :: "8 word rd" where
  "readByte = ensured 1 0 (rbind (take_slice 1) (\<lambda>bs. rret (hd bs)))"

definition ReadBytes :: "int \<Rightarrow> bytes rd" where
  "ReadBytes n =
     (if n < 0 then rfail [] ''ReadBytes'' (''invalid length '' @ show_int n) 0
      else rbind (ensure n) (\<lambda>ok.
             if ok then rmake 1 n (take_slice (nat n)) else rret []))"

definition ReadBool :: "bool rd" where
  "ReadBool = rbind readByte (\<lambda>b. on_err False
     (if b \<noteq> 0 \<and> b \<noteq> 1
      then rfail False ''ReadBool'' (''invalid boolean byte '' @ show_nat (unat b)) 1
      else rret (b = 1)))"

section \<open>LEB128\<close>

text \<open>The loop \<^verbatim>\<open>for i := 0; i < 10; i++\<close>; the first argument is \<open>10 - i\<close>.\<close>

primrec ULEB128_groups :: "nat \<Rightarrow> 64 word \<Rightarrow> nat \<Rightarrow> 64 word rd" where
  "ULEB128_groups 0 result shift = rfail 0 ''ReadULEB128'' ''value is too long'' 0"
| "ULEB128_groups (Suc n) result shift = rbind readByte (\<lambda>b. on_err 0
     (let result' = result OR push_bit shift (ucast (b AND 0x7F))
      in if b AND 0x80 = 0 then rret result' else ULEB128_groups n result' (shift + 7)))"

definition ReadULEB128 :: "64 word rd" where
  "ReadULEB128 = ULEB128_groups 10 0 0"

definition ReadULEB128Int :: "int rd" where
  "ReadULEB128Int = rbind ReadULEB128 (\<lambda>v. on_err 0
     (if MaxInt < uint v
      then rfail 0 ''ReadULEB128Int''
             (''ULEB128 value '' @ show_nat (unat v) @ '' exceeds MaxInt'') 0
      else rret (uint v)))"

text \<open>\<^verbatim>\<open>*big.Int\<close>, \<^verbatim>\<open>nil\<close> after an error.\<close>

definition ReadULEB128BigInt :: "int option rd" where
  "ReadULEB128BigInt = rbind ReadULEB128 (\<lambda>v. on_err None (rret (Some (uint v))))"

primrec SLEB128_groups :: "nat \<Rightarrow> 64 word \<Rightarrow> nat \<Rightarrow> 64 word rd" where
  "SLEB128_groups 0 result shift = rfail 0 ''ReadSLEB128'' ''value is too long'' 0"
| "SLEB128_groups (Suc n) result shift = rbind readByte (\<lambda>b. on_err 0
     (let result' = result OR push_bit shift (ucast (b AND 0x7F));
          shift' = shift + 7
      in if b AND 0x80 = 0
         then rret (if shift' < 64 \<and> b AND 0x40 \<noteq> 0
                    then result' OR push_bit shift' (NOT 0) else result')
         else SLEB128_groups n result' shift'))"

definition ReadSLEB128 :: "64 word rd" where
  "ReadSLEB128 = SLEB128_groups 10 0 0"

section \<open>Length-prefixed values\<close>

definition ReadStringBytes :: "bytes rd" where
  "ReadStringBytes = rbind ReadULEB128Int (\<lambda>len. on_err [] (ReadBytes len))"

definition ReadString :: "string rd" where
  "ReadString = rbind ReadStringBytes (\<lambda>b. on_err [] (rret (string_of_bytes b)))"

definition ReadBlob :: "bytes rd" where
  "ReadBlob = rbind ReadULEB128Int (\<lambda>len. on_err [] (ReadBytes len))"

text \<open>
  \<^verbatim>\<open>ReadList\<close>: \<open>n\<close> elements left, \<open>i\<close> the index of the next one, \<open>out\<close> what is read so far; the
  slice is allocated for \<open>length\<close> elements of \<open>esz\<close> bytes before the first is read.
\<close>

primrec ReadList_loop :: "nat \<Rightarrow> nat \<Rightarrow> (nat \<Rightarrow> 'a rd) \<Rightarrow> 'a list \<Rightarrow> 'a list rd" where
  "ReadList_loop 0 i read out = rret out"
| "ReadList_loop (Suc n) i read out =
     rbind (read i) (\<lambda>v. on_err [] (ReadList_loop n (Suc i) read (out @ [v])))"

definition ReadList :: "int \<Rightarrow> (nat \<Rightarrow> 'a rd) \<Rightarrow> 'a list rd" where
  "ReadList esz read = rbind ReadULEB128Int (\<lambda>len. on_err []
     (rmake esz len (ReadList_loop (nat len) 0 read [])))"

definition ReadNullable :: "'a \<Rightarrow> 'a rd \<Rightarrow> ('a \<times> bool) rd" where
  "ReadNullable zero read = rbind ReadBool (\<lambda>present. on_err (zero, False)
     (if \<not> present then rret (zero, False) else rbind read (\<lambda>v. rret (v, True))))"

definition ReadHugeInt :: "HugeIntParts rd" where
  "ReadHugeInt = rbind ReadSLEB128 (\<lambda>upper. on_err zeroHugeInt
     (rbind ReadULEB128 (\<lambda>lower. on_err zeroHugeInt
       (rret \<lparr>Upper = upper, Lower = lower\<rparr>))))"

section \<open>Fixed-width values\<close>

definition ReadFixedInt8 :: "8 word rd" where
  "ReadFixedInt8 = rbind readByte (\<lambda>b. on_err 0 (rret b))"

definition ReadFixedUint8 :: "8 word rd" where
  "ReadFixedUint8 = rbind readByte (\<lambda>b. on_err 0 (rret b))"

definition ReadFixedInt16 :: "16 word rd" where
  "ReadFixedInt16 = ensured 2 0 (rbind (take_slice 2) (\<lambda>bs. rret (le_word bs)))"

definition ReadFixedUint16 :: "16 word rd" where
  "ReadFixedUint16 = ensured 2 0 (rbind (take_slice 2) (\<lambda>bs. rret (le_word bs)))"

definition ReadFixedInt32 :: "32 word rd" where
  "ReadFixedInt32 = ensured 4 0 (rbind (take_slice 4) (\<lambda>bs. rret (le_word bs)))"

definition ReadFixedUint32 :: "32 word rd" where
  "ReadFixedUint32 = ensured 4 0 (rbind (take_slice 4) (\<lambda>bs. rret (le_word bs)))"

definition ReadFixedInt64 :: "64 word rd" where
  "ReadFixedInt64 = ensured 8 0 (rbind (take_slice 8) (\<lambda>bs. rret (le_word bs)))"

definition ReadFixedUint64 :: "64 word rd" where
  "ReadFixedUint64 = ensured 8 0 (rbind (take_slice 8) (\<lambda>bs. rret (le_word bs)))"

definition ReadFixedFloat32 :: "32 word rd" where
  "ReadFixedFloat32 = ReadFixedUint32"

definition ReadFixedFloat64 :: "64 word rd" where
  "ReadFixedFloat64 = ReadFixedUint64"

section \<open>Reading back known bytes\<close>

text \<open>
  A healthy reader: no error, the offset inside the input, the input at most \<open>2 ^ 40\<close> bytes (a
  terabyte), so that no length or offset computation of the package overflows and no slice of its
  elements exceeds the allocation limit.
\<close>

definition maxInput :: nat where
  "maxInput = 2 ^ 40"

definition healthy :: "reader \<Rightarrow> bool" where
  "healthy r \<longleftrightarrow> r_err r = None \<and> r_offset r \<le> length (r_bytes r) \<and> length (r_bytes r) \<le> maxInput"

definition rem_bytes :: "reader \<Rightarrow> bytes" where
  "rem_bytes r = drop (r_offset r) (r_bytes r)"

definition reads :: "'a rd \<Rightarrow> 'a \<Rightarrow> bytes \<Rightarrow> bytes \<Rightarrow> bool" where
  "reads f v bs rest \<longleftrightarrow>
     (\<forall>r. healthy r \<and> rem_bytes r = bs @ rest \<longrightarrow> f r = Done (v, advance (length bs) r))"

lemma readsI:
  "(\<And>r. healthy r \<Longrightarrow> rem_bytes r = bs @ rest \<Longrightarrow> f r = Done (v, advance (length bs) r)) \<Longrightarrow>
   reads f v bs rest"
  by (simp add: reads_def)

lemma readsD:
  "reads f v bs rest \<Longrightarrow> healthy r \<Longrightarrow> rem_bytes r = bs @ rest \<Longrightarrow> f r = Done (v, advance (length bs) r)"
  by (simp add: reads_def)

lemma advance_simps [simp]:
  "r_bytes (advance n r) = r_bytes r" "r_offset (advance n r) = r_offset r + n"
  "r_err (advance n r) = r_err r" "advance 0 r = r"
  "advance m (advance n r) = advance (n + m) r"
  by (simp_all add: advance_def add.assoc)

lemma rem_bytes_length:
  "healthy r \<Longrightarrow> rem_bytes r = bs \<Longrightarrow> length (r_bytes r) = r_offset r + length bs"
  by (auto simp: rem_bytes_def healthy_def)

lemma rem_bytes_advance:
  "rem_bytes r = bs @ rest \<Longrightarrow> rem_bytes (advance (length bs) r) = rest"
proof -
  assume a: "rem_bytes r = bs @ rest"
  have "rem_bytes (advance (length bs) r) = drop (length bs) (rem_bytes r)"
    by (simp add: rem_bytes_def add.commute)
  with a show ?thesis by simp
qed

lemma healthy_advance:
  assumes "healthy r" "rem_bytes r = bs @ rest"
  shows "healthy (advance (length bs) r)"
  using rem_bytes_length [OF assms] assms(1) by (simp add: healthy_def)

lemma healthy_err: "healthy r \<Longrightarrow> r_err r = None"
  by (simp add: healthy_def)

lemma reads_rret [reads_rules]: "reads (rret v) v [] rest"
  by (simp add: reads_def rret_def)

lemma reads_rbind [reads_rules]:
  assumes "reads f v bs (cs @ rest)" "reads (g v) w cs rest"
  shows "reads (rbind f g) w (bs @ cs) rest"
proof (rule readsI)
  fix r assume r: "healthy r" "rem_bytes r = (bs @ cs) @ rest"
  then have f: "f r = Done (v, advance (length bs) r)"
    using assms(1) by (auto dest: readsD)
  have "healthy (advance (length bs) r)" "rem_bytes (advance (length bs) r) = cs @ rest"
    using r healthy_advance [of r bs "cs @ rest"] rem_bytes_advance [of r bs "cs @ rest"] by simp_all
  then have "g v (advance (length bs) r) = Done (w, advance (length cs) (advance (length bs) r))"
    by (rule readsD [OF assms(2)])
  with f show "rbind f g r = Done (w, advance (length (bs @ cs)) r)"
    by (simp add: rbind_def)
qed

text \<open>The last read of a sequence, whose continuation reads nothing.\<close>

lemma reads_rbind_last:
  "reads f v bs rest \<Longrightarrow> reads (g v) w [] rest \<Longrightarrow> reads (rbind f g) w bs rest"
  using reads_rbind [of f v bs "[]" rest g w] by simp

lemma reads_rbind_first:
  "reads f v [] (cs @ rest) \<Longrightarrow> reads (g v) w cs rest \<Longrightarrow> reads (rbind f g) w cs rest"
  using reads_rbind [of f v "[]" cs rest g w] by simp

lemma reads_on_err [reads_rules]: "reads f v bs rest \<Longrightarrow> reads (on_err z f) v bs rest"
  by (auto simp: reads_def on_err_def healthy_def)

lemma reads_rmake: "make_ok esz n \<Longrightarrow> reads f v bs rest \<Longrightarrow> reads (rmake esz n f) v bs rest"
  by (simp add: rmake_def)

lemma reads_if [reads_rules]:
  "(c \<Longrightarrow> reads f v bs rest) \<Longrightarrow> (\<not> c \<Longrightarrow> reads g v bs rest) \<Longrightarrow>
   reads (if c then f else g) v bs rest"
  by simp

lemma reads_ensure: "n \<le> length bs + length rest \<Longrightarrow> reads (ensured n z f) v bs rest = reads f v bs rest"
proof -
  assume n: "n \<le> length bs + length rest"
  have "ensure (int n) r = Done (True, r)" if "healthy r" "rem_bytes r = bs @ rest" for r
  proof -
    have "length (r_bytes r) = r_offset r + (length bs + length rest)" "length (r_bytes r) \<le> maxInput"
      using rem_bytes_length [OF that] that by (simp_all add: healthy_def)
    then show ?thesis
      using n that(1) by (simp add: ensure_def healthy_def wrap64_id maxInput_def)
  qed
  then show ?thesis
    by (auto simp: reads_def ensured_def rbind_def)
qed

lemma reads_take_slice: "reads (take_slice (length bs)) bs bs rest"
proof (rule readsI)
  fix r assume r: "healthy r" "rem_bytes r = bs @ rest"
  then have "r_offset r + length bs \<le> length (r_bytes r)" "slice_at (length bs) r = bs"
    using rem_bytes_length [OF r] by (simp_all add: slice_at_def rem_bytes_def)
  then show "take_slice (length bs) r = Done (bs, advance (length bs) r)"
    by (simp add: take_slice_def)
qed

lemma reads_fetch:
  "length bs = n \<Longrightarrow> g bs = v \<Longrightarrow>
   reads (ensured n z (rbind (take_slice n) (\<lambda>bs. rret (g bs)))) v bs rest"
  by (subst reads_ensure) (auto intro!: reads_rbind_last reads_take_slice reads_rret)

lemma reads_ReadFieldID [reads_rules]: "reads ReadFieldID fid (fid_bytes fid) rest"
  unfolding ReadFieldID_def by (rule reads_fetch) (simp_all add: fid_bytes_def le_word_le_bytes)

lemma reads_readByte [reads_rules]: "reads readByte b [b] rest"
  unfolding readByte_def by (rule reads_fetch) simp_all

lemma reads_ReadFixed [reads_rules]:
  "reads ReadFixedInt8 a [a] rest" "reads ReadFixedUint8 a [a] rest"
  "reads ReadFixedInt16 b (le_bytes 2 b) rest" "reads ReadFixedUint16 b (le_bytes 2 b) rest"
  "reads ReadFixedInt32 c (le_bytes 4 c) rest" "reads ReadFixedUint32 c (le_bytes 4 c) rest"
  "reads ReadFixedInt64 d (le_bytes 8 d) rest" "reads ReadFixedUint64 d (le_bytes 8 d) rest"
  "reads ReadFixedFloat32 c (le_bytes 4 c) rest" "reads ReadFixedFloat64 d (le_bytes 8 d) rest"
  unfolding ReadFixedInt8_def ReadFixedUint8_def ReadFixedInt16_def ReadFixedUint16_def
    ReadFixedInt32_def ReadFixedUint32_def ReadFixedInt64_def ReadFixedUint64_def
    ReadFixedFloat32_def ReadFixedFloat64_def
  by ((rule reads_fetch, simp, simp add: le_word_le_bytes)
      | (rule reads_rbind_last [OF reads_readByte], intro reads_on_err reads_rret))+

lemma reads_ReadEndObject [reads_rules]: "reads ReadEndObject () object_end rest"
  unfolding ReadEndObject_def object_end_def
  by (rule reads_rbind_last [OF reads_ReadFieldID]) (auto intro: reads_on_err reads_rret)

lemma reads_ReadObject [reads_rules]:
  "reads body v bs (object_end @ rest) \<Longrightarrow> reads (ReadObject z body) v (object bs) rest"
  unfolding ReadObject_def object_def
  by (rule reads_rbind, assumption, rule reads_on_err, rule reads_rbind_last [OF reads_ReadEndObject],
      intro reads_on_err reads_rret)

lemma reads_ReadRequiredField [reads_rules]:
  "reads f v bs rest \<Longrightarrow> reads (ReadRequiredField fid z f) v (field fid bs) rest"
  unfolding ReadRequiredField_def field_def
  by (intro reads_rbind [OF reads_ReadFieldID] reads_on_err) simp

lemma PeekFieldID_eq:
  assumes "healthy r" "rem_bytes r = fid_bytes g @ rest"
  shows "PeekFieldID r = Done (g, r)"
proof -
  have "reads (ensured 2 0 (rbind (peek_slice 2) (\<lambda>bs. rret (le_word bs)))) g [] (fid_bytes g @ rest)"
  proof (subst reads_ensure)
    show "reads (rbind (peek_slice 2) (\<lambda>bs. rret (le_word bs))) g [] (fid_bytes g @ rest)"
    proof (rule readsI)
      fix r assume r: "healthy r" "rem_bytes r = [] @ fid_bytes g @ rest"
      then have "r_offset r + 2 \<le> length (r_bytes r)"
        using rem_bytes_length [of r "fid_bytes g @ rest"] by simp
      moreover have "slice_at 2 r = fid_bytes g"
        using r(2) by (simp add: slice_at_def rem_bytes_def)
      ultimately show "rbind (peek_slice 2) (\<lambda>bs. rret (le_word bs)) r = Done (g, advance (length []) r)"
        by (simp add: rbind_def peek_slice_def rret_def fid_bytes_def le_word_le_bytes)
    qed
  qed simp
  from readsD [OF this assms(1)] assms(2) show ?thesis by (simp add: PeekFieldID_def)
qed

lemma not_EOF: "healthy r \<Longrightarrow> rem_bytes r = bs \<Longrightarrow> bs \<noteq> [] \<Longrightarrow> \<not> EOF r"
  by (auto simp: rem_bytes_def EOF_def)

lemma reads_PeekFieldID [reads_rules]: "reads PeekFieldID g [] (fid_bytes g @ rest)"
  by (rule readsI) (simp add: PeekFieldID_eq)

lemma fid_bytes_not_Nil [simp]: "fid_bytes g \<noteq> []"
  using length_fid_bytes [of g] by fastforce

lemma reads_ReadOptionalField_present:
  assumes "reads f v bs rest"
  shows "reads (ReadOptionalField fid f d) v (field fid bs) rest"
proof (rule readsI)
  fix r assume r: "healthy r" "rem_bytes r = field fid bs @ rest"
  then have "\<not> EOF r" "r_err r = None"
    using not_EOF [OF r] by (simp_all add: healthy_def field_def)
  moreover have "PeekFieldID r = Done (fid, r)"
    using r by (simp add: PeekFieldID_eq field_def)
  moreover have "rbind ReadFieldID (\<lambda>_. f) r = Done (v, advance (length (field fid bs)) r)"
    using r by (intro readsD [OF reads_rbind [OF reads_ReadFieldID assms], folded field_def])
  ultimately show "ReadOptionalField fid f d r = Done (v, advance (length (field fid bs)) r)"
    by (simp add: ReadOptionalField_def rbind_def [of PeekFieldID])
qed

lemma reads_ReadOptionalField_absent:
  assumes "starts_other fid rest"
  shows "reads (ReadOptionalField fid f d) d [] rest"
proof (rule readsI)
  fix r assume r: "healthy r" "rem_bytes r = [] @ rest"
  from assms obtain g bs where g: "rest = fid_bytes g @ bs" "g \<noteq> fid"
    by (auto simp: starts_other_def)
  then have "\<not> EOF r" "r_err r = None" "PeekFieldID r = Done (g, r)"
    using r not_EOF [of r rest] by (simp_all add: healthy_def PeekFieldID_eq)
  then show "ReadOptionalField fid f d r = Done (d, advance (length []) r)"
    using g by (simp add: ReadOptionalField_def rbind_def rret_def)
qed

lemma reads_ReadOptionalField [reads_rules]:
  "(c \<Longrightarrow> reads f v bs rest) \<Longrightarrow> (\<not> c \<Longrightarrow> v = d \<and> starts_other fid rest) \<Longrightarrow>
   reads (ReadOptionalField fid f d) v (opt_field c fid bs) rest"
  by (auto simp: opt_field_def reads_ReadOptionalField_present reads_ReadOptionalField_absent)

lemma reads_ReadBool [reads_rules]: "reads ReadBool b (bool_bytes b) rest"
  unfolding ReadBool_def bool_bytes_def
  by (rule reads_rbind_last [OF reads_readByte]) (auto intro: reads_on_err reads_rret)

text \<open>Anything longer than \<open>maxInput\<close> is not in front of a healthy reader.\<close>

lemma reads_bounded:
  "(length bs + length rest \<le> maxInput \<Longrightarrow> reads f v bs rest) \<Longrightarrow> reads f v bs rest"
proof (rule readsI)
  fix r assume small: "length bs + length rest \<le> maxInput \<Longrightarrow> reads f v bs rest"
    and r: "healthy r" "rem_bytes r = bs @ rest"
  from r have "length bs + length rest \<le> maxInput"
    using rem_bytes_length [OF r] by (simp add: healthy_def)
  with small r show "f r = Done (v, advance (length bs) r)" by (simp add: readsD)
qed

lemma reads_ReadBytes [reads_rules]: "reads (ReadBytes (int (length bs))) bs bs rest"
proof (rule reads_bounded)
  assume "length bs + length rest \<le> maxInput"
  then have "make_ok 1 (int (length bs))"
    by (simp add: make_ok_def maxAlloc_def maxInput_def)
  then have "reads (rmake 1 (int (length bs)) (take_slice (nat (int (length bs))))) bs bs rest"
    by (simp only: nat_int) (rule reads_rmake [OF _ reads_take_slice])
  then have "reads (ensured (length bs) [] (rmake 1 (int (length bs)) (take_slice (nat (int (length bs)))))) bs bs rest"
    by (subst reads_ensure) simp_all
  then show ?thesis by (simp only: ReadBytes_def ensured_def of_nat_less_0_iff if_False)
qed

subsection \<open>LEB128\<close>

lemma drop_bit_63_small: "unat (drop_bit 63 (v :: 64 word)) < 2"
proof -
  have "unat v < 2 ^ 64" using unsigned_less [of v] by simp
  then show ?thesis by (simp only: unat_drop_bit) (simp add: less_mult_imp_div_less)
qed

lemma reads_ULEB128_groups:
  "n + k = 10 \<Longrightarrow> 0 < n \<Longrightarrow>
   reads (ULEB128_groups n (take_bit (7 * k) v) (7 * k)) v (uleb128 (unat (drop_bit (7 * k) v))) rest"
proof (induction n arbitrary: k)
  case 0
  then show ?case by simp
next
  case (Suc n)
  define m where "m = unat (drop_bit (7 * k) v)"
  define low where "low = m mod 128"
  have low: "low < 128" by (simp add: low_def)
  have group: "of_nat low = take_bit 7 (drop_bit (7 * k) v)"
  proof -
    have "low = unat (take_bit 7 (drop_bit (7 * k) v))"
      by (simp only: low_def m_def unat_take_bit) simp
    then show ?thesis by (simp only: of_nat_unat ucast_id)
  qed
  show ?case
  proof (cases "m < 128")
    case True
    then have "low = m" by (simp add: low_def)
    moreover have "of_nat m = drop_bit (7 * k) v" by (simp add: m_def)
    ultimately show ?thesis
      unfolding ULEB128_groups.simps
      using True
      by (simp add: m_def [symmetric])
        (rule reads_rbind_last [OF reads_readByte], rule reads_on_err,
         simp add: group_byte_last group_byte_low Let_def take_or_push_drop reads_rret)
  next
    case False
    then have "k < 9"
      using drop_bit_63_small [of v] Suc.prems by (cases "k = 9") (auto simp: m_def)
    then have n: "n + Suc k = 10" "0 < n" using Suc.prems by auto
    have next_m: "m div 128 = unat (drop_bit (7 * Suc k) v)"
      unfolding m_def using unat_drop_bit [of 7 "drop_bit (7 * k) v"] by (simp add: add.commute)
    have "reads (ULEB128_groups (Suc n) (take_bit (7 * k) v) (7 * k)) v
            ([of_nat (low + 128)] @ uleb128 (m div 128)) rest"
      unfolding ULEB128_groups.simps next_m
      apply (rule reads_rbind [OF reads_readByte])
      apply (rule reads_on_err)
      using group_byte_more [OF low] Suc.IH [OF n]
      by (simp only: group_byte_low [OF low] group Let_def take_or_push_take if_False) (simp add: add.commute)
    then show ?thesis
      using False by (simp add: m_def [symmetric] uleb128.simps [of m] low_def)
  qed
qed

lemma reads_ReadULEB128 [reads_rules]: "reads ReadULEB128 v (uleb_word v) rest"
  using reads_ULEB128_groups [of 10 0 v rest] by (simp add: ReadULEB128_def uleb_word_def)

lemma reads_ReadULEB128Int [reads_rules]:
  assumes "0 \<le> i" "i \<le> MaxInt"
  shows "reads ReadULEB128Int i (uleb_int i) rest"
proof -
  have "uint (word_of_int i :: 64 word) = i"
    using assms by (simp add: unsigned_of_int take_bit_int_eq_self MaxInt_def)
  then show ?thesis
    unfolding ReadULEB128Int_def uleb_int_def
    using assms
    by (intro reads_rbind_last [OF reads_ReadULEB128] reads_on_err) (simp add: reads_rret)
qed

lemma reads_ReadULEB128Int_len:
  assumes "n \<le> maxInput"
  shows "reads ReadULEB128Int (int n) (uleb_len n) rest"
proof -
  have "int n \<le> MaxInt" using assms by (simp add: maxInput_def MaxInt_def)
  then show ?thesis
    using reads_ReadULEB128Int [of "int n" rest] by (simp add: uleb_int_def uleb_len_def)
qed

lemma reads_ReadULEB128BigInt [reads_rules]:
  "reads ReadULEB128BigInt (Some (uint v)) (uleb_word v) rest"
  unfolding ReadULEB128BigInt_def
  by (intro reads_rbind_last [OF reads_ReadULEB128] reads_on_err reads_rret)

text \<open>The signed form: the accumulated low bits, the last group and the sign extension.\<close>

lemma low_group_sint64: "take_bit 7 w = (of_int (sint w mod 128) :: 64 word)" for w :: "64 word"
proof -
  have "sint w mod 128 = take_bit 7 (sint w)" by (simp add: take_bit_eq_mod)
  then show ?thesis by (auto intro!: bit_word_eqI simp: bit_simps bit_sint)
qed

lemma sign_extension:
  fixes v :: "64 word"
  assumes k: "k \<le> 9" and small: "-64 \<le> sint (signed_drop_bit (7 * k) v)"
    "sint (signed_drop_bit (7 * k) v) < 64"
  shows "(if 7 * k + 7 < 64 \<and> sint v < 0
          then take_bit (7 * k + 7) v OR push_bit (7 * k + 7) (NOT 0) else take_bit (7 * k + 7) v) = v"
proof (rule bit_word_eqI)
  fix j assume j: "j < LENGTH(64)"
  have tail: "bit v j \<longleftrightarrow> sint v < 0" if "7 * k + 6 \<le> j"
  proof -
    have split: "sint v div 2 ^ j = sint v div 2 ^ (7 * k) div 2 ^ 6 div 2 ^ (j - (7 * k + 6))"
      using that by (simp only: div_exp_eq) simp
    have "bit v j \<longleftrightarrow> bit (sint v) j"
      using j by (simp add: bit_sint)
    also have "\<dots> \<longleftrightarrow> odd (sint v div 2 ^ (7 * k) div 2 ^ 6 div 2 ^ (j - (7 * k + 6)))"
      by (simp only: bit_iff_odd split)
    also have "sint v div 2 ^ (7 * k) div 2 ^ 6 = (if sint v < 0 then -1 else 0)"
    proof -
      have "sint v div 2 ^ (7 * k) < 0 \<longleftrightarrow> sint v < 0"
        by (simp add: pos_imp_zdiv_neg_iff)
      then show ?thesis
        using small by (auto simp: sint_signed_drop_bit)
    qed
    also have "odd ((if sint v < 0 then -1 else 0 :: int) div 2 ^ (j - (7 * k + 6))) \<longleftrightarrow> sint v < 0"
      by (simp add: minus_1_div_exp_eq_int)
    finally show ?thesis .
  qed
  show "bit (if 7 * k + 7 < 64 \<and> sint v < 0
          then take_bit (7 * k + 7) v OR push_bit (7 * k + 7) (NOT 0) else take_bit (7 * k + 7) v) j
      \<longleftrightarrow> bit v j"
    using tail j k by (cases "j < 7 * k + 7") (auto simp: bit_simps)
qed

lemma signed_low_group:
  "take_bit n v OR push_bit n (take_bit 7 (signed_drop_bit n v)) = take_bit (n + 7) (v :: 64 word)"
  if "n + 7 \<le> 64 \<or> n = 63"
proof (rule bit_word_eqI)
  fix j assume j: "j < LENGTH(64)"
  show "bit (take_bit n v OR push_bit n (take_bit 7 (signed_drop_bit n v))) j
      \<longleftrightarrow> bit (take_bit (n + 7) v) j"
    using that j by (cases "j < n") (auto simp: bit_simps not_less)
qed

lemma reads_SLEB128_groups:
  "n + k = 10 \<Longrightarrow> 0 < n \<Longrightarrow>
   reads (SLEB128_groups n (take_bit (7 * k) v) (7 * k)) v
     (sleb128 (sint (signed_drop_bit (7 * k) v))) rest"
proof (induction n arbitrary: k)
  case 0
  then show ?case by simp
next
  case (Suc n)
  define i where "i = sint (signed_drop_bit (7 * k) v)"
  define low where "low = nat (i mod 128)"
  have low: "low < 128" by (simp add: low_def nat_less_iff)
  have low_i: "int low = i mod 128" by (simp add: low_def)
  have k: "k \<le> 9" using Suc.prems by simp
  have group: "of_nat low = take_bit 7 (signed_drop_bit (7 * k) v)"
  proof -
    have "of_nat low = (of_int (int low) :: 64 word)" by (simp only: of_int_of_nat_eq)
    then show ?thesis
      by (simp only: low_i i_def low_group_sint64)
  qed
  have i_eq: "i = sint v div 2 ^ (7 * k)" by (simp add: i_def sint_signed_drop_bit)
  have grp: "take_bit (7 * k) v OR push_bit (7 * k) (take_bit 7 (signed_drop_bit (7 * k) v))
      = take_bit (7 * k + 7) v"
    using k by (intro signed_low_group) presburger
  show ?case
  proof (cases "-64 \<le> i \<and> i < 64")
    case True
    then have bytes: "sleb128 i = [of_nat low]"
    proof -
      have "of_nat low = (of_int (int low) :: 8 word)" by (simp only: of_int_of_nat_eq)
      with True show ?thesis by (simp only: sleb128.simps [of i] low_i simp_thms if_True)
    qed
    have neg: "64 \<le> low \<longleftrightarrow> sint v < 0"
    proof -
      have "64 \<le> low \<longleftrightarrow> i < 0" using True low_i by presburger
      then show ?thesis by (simp add: i_eq pos_imp_zdiv_neg_iff)
    qed
    have ext: "(if 7 * k + 7 < 64 \<and> sint v < 0
          then take_bit (7 * k + 7) v OR push_bit (7 * k + 7) (NOT 0) else take_bit (7 * k + 7) v) = v"
      by (rule sign_extension [OF k]) (use True in \<open>simp_all add: i_def\<close>)
    show ?thesis
      unfolding SLEB128_groups.simps i_def [symmetric] bytes
      by (rule reads_rbind_last [OF reads_readByte], rule reads_on_err)
         (simp only: group_byte_last [OF low] group_byte_low [OF low] group_byte_sign [OF low] neg group
            Let_def grp ext refl if_True reads_rret)
  next
    case False
    have "k < 9"
    proof (rule ccontr)
      assume "\<not> k < 9"
      with k have "i = sint v div 9223372036854775808" by (simp add: i_eq)
      moreover have "- 9223372036854775808 \<le> sint v" "sint v < 9223372036854775808"
        using sint_lt [of v] sint_ge [of v] by simp_all
      ultimately have "-1 \<le> i \<and> i \<le> 0"
        using div_mult_mod_eq [of "sint v" 9223372036854775808]
          pos_mod_bound [of 9223372036854775808 "sint v"]
          pos_mod_sign [of 9223372036854775808 "sint v"] by linarith
      with False show False by simp
    qed
    then have n: "n + Suc k = 10" "0 < n" using Suc.prems by auto
    have next_i: "i div 128 = sint (signed_drop_bit (7 * Suc k) v)"
      by (simp add: sint_signed_drop_bit i_eq div_exp_eq [of _ _ 7, simplified] add.commute)
    have byte: "of_nat (low + 128) = (of_int (i mod 128 + 128) :: 8 word)"
    proof -
      have "of_nat (low + 128) = (of_int (int (low + 128)) :: 8 word)" by (simp only: of_int_of_nat_eq)
      then show ?thesis by (simp only: of_nat_add low_i of_nat_numeral)
    qed
    have "reads (SLEB128_groups (Suc n) (take_bit (7 * k) v) (7 * k)) v
            ([of_nat (low + 128)] @ sleb128 (i div 128)) rest"
      unfolding SLEB128_groups.simps next_i
      apply (rule reads_rbind [OF reads_readByte])
      apply (rule reads_on_err)
      using group_byte_more [OF low] Suc.IH [OF n]
      by (simp only: group_byte_low [OF low] group Let_def grp if_False) (simp add: add.commute)
    moreover have "sleb128 i = of_nat (low + 128) # sleb128 (i div 128)"
      using False by (simp only: sleb128.simps [of i] byte if_False)
    ultimately show ?thesis by (simp add: i_def [symmetric])
  qed
qed

lemma reads_ReadSLEB128 [reads_rules]: "reads ReadSLEB128 v (sleb128 (sint v)) rest"
  using reads_SLEB128_groups [of 10 0 v rest] by (simp add: ReadSLEB128_def)

subsection \<open>Length-prefixed values\<close>

lemma reads_length_prefixed:
  "reads (rbind ReadULEB128Int (\<lambda>len. on_err [] (ReadBytes len))) b (blob_bytes b) rest"
proof (rule reads_bounded)
  assume "length (blob_bytes b) + length rest \<le> maxInput"
  then have "length b \<le> maxInput" by (simp add: blob_bytes_def)
  then show "reads (rbind ReadULEB128Int (\<lambda>len. on_err [] (ReadBytes len))) b (blob_bytes b) rest"
    unfolding blob_bytes_def
    by (intro reads_rbind [OF reads_ReadULEB128Int_len] reads_on_err reads_ReadBytes)
qed

lemma reads_ReadStringBytes [reads_rules]: "reads ReadStringBytes b (blob_bytes b) rest"
  unfolding ReadStringBytes_def by (rule reads_length_prefixed)

lemma reads_ReadBlob [reads_rules]: "reads ReadBlob b (blob_bytes b) rest"
  unfolding ReadBlob_def by (rule reads_length_prefixed)

lemma reads_ReadString [reads_rules]: "reads ReadString s (string_bytes s) rest"
  unfolding ReadString_def string_bytes_def
  by (rule reads_rbind_last [OF reads_ReadStringBytes]) (simp add: reads_on_err reads_rret)

lemma reads_ReadList_loop:
  "length es = length vs \<Longrightarrow>
   (\<And>j rest. j < length vs \<Longrightarrow> reads (f (k + j)) (vs ! j) (es ! j) rest) \<Longrightarrow>
   reads (ReadList_loop (length vs) k f out) (out @ vs) (concat es) rest"
proof (induction vs arbitrary: es k out)
  case Nil
  then show ?case by (simp add: reads_rret)
next
  case (Cons v vs)
  then obtain e es' where es: "es = e # es'" by (cases es) auto
  have "reads (f k) v e (concat es' @ rest)"
    using Cons.prems(2) [of 0] by (simp add: es)
  moreover have "reads (ReadList_loop (length vs) (Suc k) f (out @ [v])) ((out @ [v]) @ vs) (concat es') rest"
  proof (rule Cons.IH)
    fix j rest assume "j < length vs"
    then show "reads (f (Suc k + j)) (vs ! j) (es' ! j) rest"
      using Cons.prems(2) [of "Suc j"] by (simp add: es)
  qed (use Cons.prems(1) es in simp)
  ultimately show ?case
    by (simp add: es reads_rbind reads_on_err)
qed

lemma reads_ReadList_indexed:
  assumes esz: "0 \<le> esz" "esz \<le> 256"
    and len: "length es = length vs" and pos: "\<And>e. e \<in> set es \<Longrightarrow> e \<noteq> []"
    and el: "\<And>j rest. j < length vs \<Longrightarrow> reads (f j) (vs ! j) (es ! j) rest"
  shows "reads (ReadList esz f) vs (uleb_len (length vs) @ concat es) rest"
proof (rule reads_bounded)
  assume small: "length (uleb_len (length vs) @ concat es) + length rest \<le> maxInput"
  have "length es \<le> length (list_bytes id es)"
    by (rule length_list_bytes_ge) (use pos in auto)
  then have vs: "length vs \<le> maxInput"
    using small len by (simp add: list_bytes_def)
  then have "int (length vs) * esz \<le> 2 ^ 40 * 256"
    by (intro mult_mono) (use esz in \<open>simp_all add: maxInput_def\<close>)
  then have ok: "make_ok esz (int (length vs))"
    by (simp add: make_ok_def maxAlloc_def)
  have "reads (ReadList_loop (length vs) 0 f []) ([] @ vs) (concat es) rest"
    by (rule reads_ReadList_loop) (simp_all add: len el)
  then show "reads (ReadList esz f) vs (uleb_len (length vs) @ concat es) rest"
    unfolding ReadList_def
    by (intro reads_rbind [OF reads_ReadULEB128Int_len [OF vs]] reads_on_err reads_rmake [OF ok]) simp
qed

lemma reads_ReadList:
  assumes "0 \<le> esz" "esz \<le> 256"
    and "\<And>x. x \<in> set xs \<Longrightarrow> enc x \<noteq> []"
    and "\<And>i x rest. x \<in> set xs \<Longrightarrow> reads (f i) x (enc x) rest"
  shows "reads (ReadList esz f) xs (list_bytes enc xs) rest"
  using reads_ReadList_indexed [of esz "map enc xs" xs f rest] assms
  by (force simp: list_bytes_def)

lemma reads_ReadNullable [reads_rules]:
  "reads f v bs rest \<Longrightarrow> reads (ReadNullable z f) (v, True) (bool_bytes True @ bs) rest"
  unfolding ReadNullable_def
  by (rule reads_rbind [OF reads_ReadBool], rule reads_on_err, simp,
      rule reads_rbind_last, assumption, rule reads_rret)

lemma reads_ReadHugeInt [reads_rules]: "reads ReadHugeInt p (hugeint_bytes p) rest"
proof (cases p)
  case (fields u l)
  show ?thesis
    unfolding ReadHugeInt_def hugeint_bytes_def fields HugeIntParts.simps
    by (rule reads_rbind [OF reads_ReadSLEB128], rule reads_on_err,
        rule reads_rbind_last [OF reads_ReadULEB128], rule reads_on_err, rule reads_rret)
qed

section \<open>Sticky errors\<close>

text \<open>Once an error is recorded, \<open>f\<close> returns its zero value and leaves the reader unchanged.\<close>

named_theorems sticky_rules

definition sticky :: "'a \<Rightarrow> 'a rd \<Rightarrow> bool" where
  "sticky z f \<longleftrightarrow> (\<forall>r. r_err r \<noteq> None \<longrightarrow> f r = Done (z, r))"

lemma sticky_rret [sticky_rules]: "sticky z (rret z)"
  by (simp add: sticky_def rret_def)

lemma sticky_on_err [sticky_rules]: "sticky z (on_err z f)"
  by (simp add: sticky_def on_err_def)

lemma sticky_rbind: "sticky y f \<Longrightarrow> sticky z (g y) \<Longrightarrow> sticky z (rbind f g)"
  by (simp add: sticky_def rbind_def)

lemma sticky_ensured [sticky_rules]: "sticky z (ensured n z f)"
  by (simp add: sticky_def ensured_def rbind_def ensure_def rret_def)

lemma sticky_fields [sticky_rules]:
  "sticky () AssertEOF" "sticky 0 ReadFieldID" "sticky 0 PeekFieldID" "sticky () ReadEndObject"
  "sticky z (ReadRequiredField fid z f)" "sticky d (ReadOptionalField fid f d)"
  unfolding AssertEOF_def ReadFieldID_def PeekFieldID_def ReadEndObject_def ReadRequiredField_def
  by (simp_all only: sticky_ensured sticky_on_err sticky_rbind [where y = 0])
     (simp add: sticky_def ReadOptionalField_def)

text \<open>The length of \<^verbatim>\<open>ReadBytes\<close> is looked at before the recorded error.\<close>

lemma ReadBytes_after_error:
  assumes "r_err r \<noteq> None"
  shows "ReadBytes n r = Done ([], if n < 0 then r\<lparr>r_err := Some (newError ''ReadBytes'' (''invalid length '' @ show_int n) (int (r_offset r)))\<rparr> else r)"
  using assms by (simp add: ReadBytes_def rfail_def rbind_def ensure_def rret_def)

lemma sticky_ReadObject [sticky_rules]: "sticky y body \<Longrightarrow> sticky z (ReadObject z body)"
  unfolding ReadObject_def by (rule sticky_rbind) (assumption, rule sticky_on_err)

lemma sticky_scalars [sticky_rules]:
  "sticky 0 readByte" "sticky False ReadBool" "sticky 0 ReadULEB128" "sticky 0 ReadULEB128Int"
  "sticky None ReadULEB128BigInt" "sticky 0 ReadSLEB128" "sticky [] ReadStringBytes"
  "sticky [] ReadString" "sticky [] ReadBlob" "sticky [] (ReadList esz f')"
  "sticky (z, False) (ReadNullable z f)" "sticky zeroHugeInt ReadHugeInt"
proof -
  show b: "sticky 0 readByte" unfolding readByte_def by (rule sticky_ensured)
  show "sticky False ReadBool" "sticky (z, False) (ReadNullable z f)"
    unfolding ReadBool_def ReadNullable_def
    by (auto intro!: sticky_rbind [OF b] sticky_rbind [where y = False] sticky_on_err)
  show u: "sticky 0 ReadULEB128" and s: "sticky 0 ReadSLEB128"
    unfolding ReadULEB128_def ReadSLEB128_def numeral_eq_Suc
    by (auto intro!: sticky_rbind [OF b] sticky_on_err simp: numeral_eq_Suc)
  show i: "sticky 0 ReadULEB128Int" and "sticky None ReadULEB128BigInt"
    unfolding ReadULEB128Int_def ReadULEB128BigInt_def
    by (rule sticky_rbind [OF u], rule sticky_on_err)+
  show sb: "sticky [] ReadStringBytes" and "sticky [] ReadBlob" and "sticky [] (ReadList esz f')"
    unfolding ReadStringBytes_def ReadBlob_def ReadList_def
    by (rule sticky_rbind [OF i], rule sticky_on_err)+
  show "sticky [] ReadString" unfolding ReadString_def
    by (rule sticky_rbind [OF sb], rule sticky_on_err)
  show "sticky zeroHugeInt ReadHugeInt" unfolding ReadHugeInt_def
    by (rule sticky_rbind [OF s], rule sticky_on_err)
qed

lemma sticky_fixed [sticky_rules]:
  "sticky 0 ReadFixedInt8" "sticky 0 ReadFixedUint8" "sticky 0 ReadFixedInt16"
  "sticky 0 ReadFixedUint16" "sticky 0 ReadFixedInt32" "sticky 0 ReadFixedUint32"
  "sticky 0 ReadFixedInt64" "sticky 0 ReadFixedUint64" "sticky 0 ReadFixedFloat32"
  "sticky 0 ReadFixedFloat64"
  unfolding ReadFixedInt8_def ReadFixedUint8_def ReadFixedInt16_def ReadFixedUint16_def
    ReadFixedInt32_def ReadFixedUint32_def ReadFixedInt64_def ReadFixedUint64_def
    ReadFixedFloat32_def ReadFixedFloat64_def
  by (auto intro!: sticky_ensured sticky_rbind [OF sticky_scalars(1)] sticky_on_err)

section \<open>Consumption\<close>

text \<open>
  \<open>fueled n f\<close>: on any reader with fewer than \<open>n\<close> bytes left, \<open>f\<close> does not run out of fuel, and
  whatever it returns it has only moved forward in the same input.  \<open>consumes f\<close>: \<open>f\<close> advances by at
  least one byte unless it leaves an error.
\<close>

definition sane :: "reader \<Rightarrow> bool" where
  "sane r \<longleftrightarrow> r_offset r \<le> length (r_bytes r)"

definition left :: "reader \<Rightarrow> nat" where
  "left r = length (r_bytes r) - r_offset r"

definition forward :: "reader \<Rightarrow> reader \<Rightarrow> bool" where
  "forward r r' \<longleftrightarrow> r_bytes r' = r_bytes r \<and> r_offset r \<le> r_offset r' \<and> sane r'"

definition fueled :: "nat \<Rightarrow> 'a rd \<Rightarrow> bool" where
  "fueled n f \<longleftrightarrow> (\<forall>r. sane r \<and> left r < n \<longrightarrow>
     f r \<noteq> OutOfFuel \<and> (\<forall>v r'. f r = Done (v, r') \<longrightarrow> forward r r'))"

definition consumes :: "'a rd \<Rightarrow> bool" where
  "consumes f \<longleftrightarrow> (\<forall>r v r'. sane r \<longrightarrow> f r = Done (v, r') \<longrightarrow> r_err r' \<noteq> None \<or> r_offset r < r_offset r')"

lemma fueledI:
  "(\<And>r. sane r \<Longrightarrow> left r < n \<Longrightarrow> f r \<noteq> OutOfFuel) \<Longrightarrow>
   (\<And>r v r'. sane r \<Longrightarrow> left r < n \<Longrightarrow> f r = Done (v, r') \<Longrightarrow> forward r r') \<Longrightarrow> fueled n f"
  by (auto simp: fueled_def)

lemma fueledD:
  "fueled n f \<Longrightarrow> sane r \<Longrightarrow> left r < n \<Longrightarrow> f r \<noteq> OutOfFuel"
  "fueled n f \<Longrightarrow> sane r \<Longrightarrow> left r < n \<Longrightarrow> f r = Done (v, r') \<Longrightarrow> forward r r'"
  by (auto simp: fueled_def)

lemma fueled_mono: "fueled n f \<Longrightarrow> m \<le> n \<Longrightarrow> fueled m f"
  by (simp add: fueled_def)

lemma forward_refl: "sane r \<Longrightarrow> forward r r"
  by (simp add: forward_def)

lemma forward_left: "forward r r' \<Longrightarrow> left r' \<le> left r"
  by (auto simp: forward_def left_def sane_def)

lemma forward_trans: "forward r r' \<Longrightarrow> forward r' r'' \<Longrightarrow> forward r r''"
  by (simp add: forward_def)

lemma forward_sane: "forward r r' \<Longrightarrow> sane r'"
  by (simp add: forward_def)

lemma fueled_rret [safe_rules]: "fueled n (rret v)"
  by (simp add: fueled_def rret_def forward_refl)

lemma fueled_rpanic [safe_rules]: "fueled n rpanic"
  by (simp add: fueled_def rpanic_def)

lemma fueled_rfail [safe_rules]: "fueled n (rfail z op msg b)"
  by (simp add: fueled_def rfail_def forward_def sane_def)

lemma fueled_on_err [safe_rules]: "fueled n f \<Longrightarrow> fueled n (on_err z f)"
  by (auto simp: fueled_def on_err_def forward_refl)

lemma fueled_if [safe_rules]: "(c \<Longrightarrow> fueled n f) \<Longrightarrow> (\<not> c \<Longrightarrow> fueled n g) \<Longrightarrow> fueled n (if c then f else g)"
  by simp

lemma fueled_rbind [safe_rules]:
  assumes f: "fueled n f" and g: "\<And>v. fueled n (g v)"
  shows "fueled n (rbind f g)"
proof (rule fueledI)
  fix r assume r: "sane r" "left r < n"
  show "rbind f g r \<noteq> OutOfFuel"
  proof (cases "f r")
    case (Done x)
    obtain v r' where x: "x = (v, r')" by (cases x)
    have "forward r r'" using fueledD(2) [OF f r] Done x by simp
    then have "sane r'" "left r' < n" using forward_left [of r r'] r by (simp_all add: forward_sane)
    then show ?thesis using fueledD(1) [OF g] Done x by (simp add: rbind_def)
  qed (use fueledD(1) [OF f r] in \<open>simp_all add: rbind_def\<close>)
next
  fix r w r'' assume r: "sane r" "left r < n" and "rbind f g r = Done (w, r'')"
  then obtain v r' where f': "f r = Done (v, r')" and g': "g v r' = Done (w, r'')"
    by (auto simp: rbind_def outcome_bind_eq_Done)
  have fw: "forward r r'" by (rule fueledD(2) [OF f r f'])
  then have "sane r'" "left r' < n" using forward_left [of r r'] r by (simp_all add: forward_sane)
  then have "forward r' r''" by (rule fueledD(2) [OF g _ _ g'])
  with fw show "forward r r''" by (rule forward_trans)
qed

lemma consumes_left:
  assumes "consumes f" "f r = Done (v, r')" "forward r r'" "left r < Suc n" "sane r"
  shows "r_err r' \<noteq> None \<or> left r' < n"
proof -
  have "r_err r' \<noteq> None \<or> r_offset r < r_offset r'"
    using assms(1,2,5) unfolding consumes_def by blast
  moreover have "left r' < left r" if "r_offset r < r_offset r'"
    using that assms(3) by (auto simp: forward_def left_def sane_def)
  ultimately show ?thesis using assms(4) by auto
qed

text \<open>After a consuming step one unit less of fuel is needed.\<close>

lemma fueled_rbind_consumes:
  assumes f: "fueled (Suc n) f" "consumes f" and g: "\<And>v. fueled n (g v)"
  shows "fueled (Suc n) (rbind f (\<lambda>v. on_err z (g v)))"
proof (rule fueledI)
  fix r assume r: "sane r" "left r < Suc n"
  show "rbind f (\<lambda>v. on_err z (g v)) r \<noteq> OutOfFuel"
  proof (cases "f r")
    case (Done x)
    obtain v r' where x: "x = (v, r')" by (cases x)
    have fw: "forward r r'" using fueledD(2) [OF f(1) r] Done x by simp
    have "r_err r' \<noteq> None \<or> left r' < n"
      using consumes_left [OF f(2) _ fw r(2,1)] Done x by simp
    then show ?thesis
      using fueledD(1) [OF g forward_sane [OF fw], of v] Done x by (auto simp: rbind_def on_err_def)
  qed (use fueledD(1) [OF f(1) r] in \<open>simp_all add: rbind_def\<close>)
next
  fix r w r'' assume r: "sane r" "left r < Suc n"
    and "rbind f (\<lambda>v. on_err z (g v)) r = Done (w, r'')"
  then obtain v r' where f': "f r = Done (v, r')" and g': "on_err z (g v) r' = Done (w, r'')"
    by (auto simp: rbind_def outcome_bind_eq_Done)
  have fw: "forward r r'" by (rule fueledD(2) [OF f(1) r f'])
  have "r_err r' \<noteq> None \<or> left r' < n"
    by (rule consumes_left [OF f(2) f' fw r(2,1)])
  then have "forward r' r''"
    using fueledD(2) [OF g forward_sane [OF fw], of v] g' forward_refl [OF forward_sane [OF fw]]
    by (auto simp: on_err_def split: if_splits)
  with fw show "forward r r''" by (rule forward_trans)
qed

subsection \<open>The primitive reads\<close>

lemma fueled_ensure: "fueled n (ensure m)"
  by (auto simp: fueled_def ensure_def rfail_def forward_def sane_def)

lemma fueled_take_slice [safe_rules]: "fueled n (take_slice m)"
  by (auto simp: fueled_def take_slice_def forward_def sane_def)

lemma fueled_peek_slice [safe_rules]: "fueled n (peek_slice m)"
  by (auto simp: fueled_def peek_slice_def forward_def sane_def)

lemma fueled_rmake [safe_rules]: "fueled n f \<Longrightarrow> fueled n (rmake esz m f)"
  by (simp add: rmake_def fueled_rpanic)

lemma fueled_ensured [safe_rules]: "fueled n f \<Longrightarrow> fueled n (ensured m z f)"
  unfolding ensured_def by (intro fueled_rbind fueled_ensure fueled_if fueled_rret)

lemma fueled_AssertEOF [safe_rules]: "fueled n AssertEOF"
  by (auto simp: fueled_def AssertEOF_def rfail_def forward_def sane_def on_err_def)

lemma fueled_ReadFieldID [safe_rules]: "fueled n ReadFieldID"
  unfolding ReadFieldID_def by (intro safe_rules)

lemma fueled_PeekFieldID [safe_rules]: "fueled n PeekFieldID"
  unfolding PeekFieldID_def by (intro safe_rules)

lemma fueled_readByte [safe_rules]: "fueled n readByte"
  unfolding readByte_def by (intro safe_rules)

lemma fueled_ReadEndObject [safe_rules]: "fueled n ReadEndObject"
  unfolding ReadEndObject_def by (intro safe_rules)

lemma fueled_ReadBytes [safe_rules]: "fueled n (ReadBytes m)"
  unfolding ReadBytes_def by (intro safe_rules fueled_ensure)

lemma fueled_ReadBool [safe_rules]: "fueled n ReadBool"
  unfolding ReadBool_def by (intro safe_rules)

lemma fueled_ULEB128_groups: "fueled m (ULEB128_groups n a s)"
  by (induction n arbitrary: a s) (auto intro!: safe_rules simp: Let_def)

lemma fueled_SLEB128_groups: "fueled m (SLEB128_groups n a s)"
  by (induction n arbitrary: a s) (auto intro!: safe_rules simp: Let_def)

lemma fueled_scalars [safe_rules]:
  "fueled n ReadULEB128" "fueled n ReadULEB128Int" "fueled n ReadULEB128BigInt" "fueled n ReadSLEB128"
  "fueled n ReadHugeInt" "fueled n ReadStringBytes" "fueled n ReadString" "fueled n ReadBlob"
  unfolding ReadULEB128_def ReadULEB128Int_def ReadULEB128BigInt_def ReadSLEB128_def ReadHugeInt_def
    ReadStringBytes_def ReadString_def ReadBlob_def
  by (intro fueled_ULEB128_groups fueled_SLEB128_groups safe_rules)+

lemma fueled_fixed [safe_rules]:
  "fueled n ReadFixedInt8" "fueled n ReadFixedUint8" "fueled n ReadFixedInt16"
  "fueled n ReadFixedUint16" "fueled n ReadFixedInt32" "fueled n ReadFixedUint32"
  "fueled n ReadFixedInt64" "fueled n ReadFixedUint64" "fueled n ReadFixedFloat32"
  "fueled n ReadFixedFloat64"
  unfolding ReadFixedInt8_def ReadFixedUint8_def ReadFixedInt16_def ReadFixedUint16_def
    ReadFixedInt32_def ReadFixedUint32_def ReadFixedInt64_def ReadFixedUint64_def
    ReadFixedFloat32_def ReadFixedFloat64_def
  by (intro safe_rules)+

lemma fueled_ReadObject [safe_rules]: "fueled n body \<Longrightarrow> fueled n (ReadObject z body)"
  unfolding ReadObject_def by (intro safe_rules)

lemma consumes_ReadFieldID: "consumes ReadFieldID"
  by (auto simp: consumes_def ReadFieldID_def ensured_def rbind_def ensure_def rfail_def rret_def
      take_slice_def outcome_bind_eq_Done split: if_splits prod.splits)

lemma consumes_readByte: "consumes readByte"
  by (auto simp: consumes_def readByte_def ensured_def rbind_def ensure_def rfail_def rret_def
      take_slice_def outcome_bind_eq_Done split: if_splits prod.splits)

lemma consumes_rbind:
  assumes f: "consumes f" and g: "\<And>n v. fueled n (g v)" and f': "\<And>n. fueled n f"
  shows "consumes (rbind f (\<lambda>v. on_err z (g v)))"
  unfolding consumes_def
proof (intro allI impI)
  fix r w r'' assume r: "sane r" and "rbind f (\<lambda>v. on_err z (g v)) r = Done (w, r'')"
  then obtain v r' where fr: "f r = Done (v, r')" and gr: "on_err z (g v) r' = Done (w, r'')"
    by (auto simp: rbind_def outcome_bind_eq_Done)
  have fw: "forward r r'" by (rule fueledD(2) [OF f' r lessI fr])
  have "r_err r' \<noteq> None \<or> r_offset r < r_offset r'"
    using f r fr unfolding consumes_def by blast
  moreover have "r_offset r' \<le> r_offset r''" if "r_err r' = None"
    using fueledD(2) [OF g forward_sane [OF fw] lessI] gr that
    by (auto simp: on_err_def forward_def)
  ultimately show "r_err r'' \<noteq> None \<or> r_offset r < r_offset r''"
    using gr by (auto simp: on_err_def split: if_splits)
qed

lemma consumes_ReadULEB128: "consumes ReadULEB128"
  unfolding ReadULEB128_def numeral_eq_Suc ULEB128_groups.simps(2)
  by (intro consumes_rbind consumes_readByte fueled_readByte)
     (auto simp: Let_def intro!: safe_rules fueled_ULEB128_groups)

lemma consumes_ReadULEB128Int: "consumes ReadULEB128Int"
  unfolding ReadULEB128Int_def
  by (intro consumes_rbind consumes_ReadULEB128 safe_rules)

lemma fueled_ReadRequiredField [safe_rules]:
  "fueled n f \<Longrightarrow> fueled (Suc n) (ReadRequiredField fid z f)"
  unfolding ReadRequiredField_def
  by (intro fueled_rbind_consumes consumes_ReadFieldID safe_rules)

lemma fueled_ReadRequiredField_any: "fueled n f \<Longrightarrow> fueled n (ReadRequiredField fid z f)"
  using fueled_mono [OF fueled_ReadRequiredField, of n f n] by simp

lemma peek_then_read:
  assumes "r_err r = None"
  shows "PeekFieldID r = Panic
    \<or> (\<exists>r'. PeekFieldID r = Done (0, r') \<and> r_err r' \<noteq> None)
    \<or> (\<exists>v. PeekFieldID r = Done (v, r) \<and> ReadFieldID r = Done (v, advance 2 r)
           \<and> r_offset r + 2 \<le> length (r_bytes r))"
  using assms
  by (auto simp: PeekFieldID_def ReadFieldID_def ensured_def rbind_def ensure_def rfail_def rret_def
      take_slice_def peek_slice_def)

lemma fueled_ReadOptionalField [safe_rules]:
  assumes f: "fueled n f" and fid: "fid \<noteq> 0"
  shows "fueled (Suc n) (ReadOptionalField fid f d)"
proof -
  have "ReadOptionalField fid f d r \<noteq> OutOfFuel
      \<and> (\<forall>v r'. ReadOptionalField fid f d r = Done (v, r') \<longrightarrow> forward r r')"
    if r: "sane r" "left r < Suc n" for r
  proof (cases "r_err r \<noteq> None \<or> EOF r")
    case True
    then show ?thesis by (simp add: ReadOptionalField_def forward_refl r)
  next
    case False
    note peek = peek_then_read [of r]
    have fw: "forward r r'" if "PeekFieldID r = Done (v, r')" for v r'
      using fueledD(2) [OF fueled_PeekFieldID r(1) lessI that] .
    consider "PeekFieldID r = Panic"
      | r' where "PeekFieldID r = Done (0, r')"
      | v where "PeekFieldID r = Done (v, r)" "ReadFieldID r = Done (v, advance 2 r)"
          "r_offset r + 2 \<le> length (r_bytes r)"
      using peek False by blast
    then show ?thesis
    proof cases
      case 1
      then show ?thesis using False by (simp add: ReadOptionalField_def rbind_def)
    next
      case (2 r')
      then show ?thesis
        using False fid fw [OF 2] by (simp add: ReadOptionalField_def rbind_def rret_def)
    next
      case (3 v)
      have adv: "sane (advance 2 r)" "left (advance 2 r) < n" "forward r (advance 2 r)"
        using 3(3) r by (auto simp: sane_def left_def forward_def)
      have "f (advance 2 r) \<noteq> OutOfFuel"
        "\<And>w r'. f (advance 2 r) = Done (w, r') \<Longrightarrow> forward r r'"
        using fueledD [OF f adv(1,2)] forward_trans [OF adv(3)] by blast+
      then show ?thesis
        using False 3 r by (simp add: ReadOptionalField_def rbind_def rret_def forward_refl)
    qed
  qed
  then show ?thesis by (simp add: fueled_def)
qed

lemma fueled_ReadOptionalField_any:
  "fueled n f \<Longrightarrow> fid \<noteq> 0 \<Longrightarrow> fueled n (ReadOptionalField fid f d)"
  using fueled_mono [OF fueled_ReadOptionalField, of n f fid n] by simp

lemma fueled_ReadList_loop: "(\<And>i. fueled m (f i)) \<Longrightarrow> fueled m (ReadList_loop n i f out)"
  by (induction n arbitrary: i out) (auto intro!: safe_rules)

lemma fueled_ReadList [safe_rules]: "(\<And>i. fueled n (f i)) \<Longrightarrow> fueled (Suc n) (ReadList esz f)"
  unfolding ReadList_def
  by (intro fueled_rbind_consumes consumes_ReadULEB128Int fueled_rmake fueled_ReadList_loop safe_rules)

lemma fueled_ReadList_any: "(\<And>i. fueled n (f i)) \<Longrightarrow> fueled n (ReadList esz f)"
  using fueled_mono [OF fueled_ReadList, of n f n esz] by simp

lemma fueled_ReadNullable [safe_rules]: "fueled n f \<Longrightarrow> fueled n (ReadNullable z f)"
  unfolding ReadNullable_def by (intro safe_rules)

end
