(* ===== verification/WireCodec.thy ===== *)
theory WireCodec
  imports BinaryWriter BinaryReader
begin

text \<open>
  The contract between the two halves of \<^verbatim>\<open>internal/codec\<close> that every encoder and decoder of the
  higher layers relies on: a writer method and a reader method agree on a byte grammar.  Its
  consequences (round trip through a buffer, lists, fields, optional fields, nullable values) are
  proved once in the locale; the codec's own method pairs are its interpretations.
\<close>

locale wire_codec =
  fixes valid :: "'a \<Rightarrow> bool" and enc :: "'a \<Rightarrow> bytes" and put :: "'a \<Rightarrow> wr" and get :: "'a rd"
  assumes writes: "valid x \<Longrightarrow> appends (put x) (enc x)"
    and reads_back: "valid x \<Longrightarrow> reads get x (enc x) rest"
    and enc_nonempty: "valid x \<Longrightarrow> enc x \<noteq> []"
begin

lemma bytes_written: "valid x \<Longrightarrow> Bytes (put x (NewBinaryWriter n)) = enc x"
  by (rule Bytes_of_appends [OF writes])

lemma no_write_error: "valid x \<Longrightarrow> writer_Err (put x (NewBinaryWriter n)) = None"
  by (rule Err_of_appends [OF writes])

text \<open>What is written is read back, whatever follows it, and nothing more is consumed.\<close>

lemma roundtrip:
  assumes "valid x" "length (enc x) + length rest \<le> maxInput"
  shows "get (NewBinaryReader (Bytes (put x (NewBinaryWriter n)) @ rest))
    = Done (x, advance (length (enc x)) (NewBinaryReader (enc x @ rest)))"
proof -
  have "healthy (NewBinaryReader (enc x @ rest))" "rem_bytes (NewBinaryReader (enc x @ rest)) = enc x @ rest"
    using assms(2) by (simp_all add: healthy_def NewBinaryReader_def rem_bytes_def)
  then show ?thesis
    using readsD [OF reads_back [OF assms(1)]] by (simp add: bytes_written [OF assms(1)])
qed

lemma list_writes: "(\<And>x. x \<in> set xs \<Longrightarrow> valid x) \<Longrightarrow> appends (WriteList xs (\<lambda>_. put)) (list_bytes enc xs)"
  by (intro appends_WriteList writes)

lemma list_reads_back:
  "0 \<le> esz \<Longrightarrow> esz \<le> 256 \<Longrightarrow> (\<And>x. x \<in> set xs \<Longrightarrow> valid x) \<Longrightarrow>
   reads (ReadList esz (\<lambda>_. get)) xs (list_bytes enc xs) rest"
  by (intro reads_ReadList reads_back enc_nonempty)

lemma field_writes: "valid x \<Longrightarrow> appends (WriteField fid (put x)) (field fid (enc x))"
  by (intro appends_WriteField writes)

lemma field_reads_back: "valid x \<Longrightarrow> reads (ReadRequiredField fid z get) x (field fid (enc x)) rest"
  by (intro reads_ReadRequiredField reads_back)

lemma optional_reads_back:
  "(c \<Longrightarrow> valid x) \<Longrightarrow> (\<not> c \<Longrightarrow> x = d \<and> starts_other fid rest) \<Longrightarrow>
   reads (ReadOptionalField fid get d) x (opt_field c fid (enc x)) rest"
  by (intro reads_ReadOptionalField reads_back)

lemma nullable_reads_back:
  "valid x \<Longrightarrow> reads (ReadNullable z get) (x, True) (bool_bytes True @ enc x) rest"
  by (intro reads_ReadNullable reads_back)

end

section \<open>The codec's method pairs\<close>

lemma uleb_word_nonempty [simp]: "uleb_word v \<noteq> []"
  using length_uleb128_pos [of "unat v"] by (auto simp: uleb_word_def)

lemma hugeint_bytes_nonempty [simp]: "hugeint_bytes p \<noteq> []"
  by (simp add: hugeint_bytes_def)

lemma blob_bytes_nonempty [simp]: "blob_bytes b \<noteq> []" "string_bytes s \<noteq> []"
  by (simp_all add: string_bytes_def blob_bytes_def uleb_len_def)

lemma sleb128_nonempty [simp]: "sleb128 i \<noteq> []"
  using length_sleb128_pos [of i] by auto

interpretation uleb: wire_codec "\<lambda>_. True" uleb_word WriteULEB128 ReadULEB128
  by unfold_locales (simp_all add: appends_rules reads_rules)

interpretation sleb: wire_codec "\<lambda>_. True" "\<lambda>v. sleb128 (sint v)" WriteSLEB128 ReadSLEB128
  by unfold_locales (simp_all add: appends_rules reads_rules)

interpretation uleb_int: wire_codec "\<lambda>i. 0 \<le> i \<and> i \<le> MaxInt" uleb_int
  "\<lambda>i. WriteULEB128 (word_of_int i)" ReadULEB128Int
  by unfold_locales (auto simp: appends_rules reads_rules uleb_int_def intro: reads_ReadULEB128Int [unfolded uleb_int_def])

interpretation str: wire_codec "\<lambda>_. True" string_bytes WriteString ReadString
  by unfold_locales (simp_all add: appends_rules reads_rules)

interpretation str_raw: wire_codec "\<lambda>_. True" blob_bytes WriteStringBytes ReadStringBytes
  by unfold_locales (simp_all add: appends_rules reads_rules)

interpretation blob: wire_codec "\<lambda>_. True" blob_bytes WriteBlob ReadBlob
  by unfold_locales (simp_all add: appends_rules reads_rules)

interpretation boolean: wire_codec "\<lambda>_. True" bool_bytes WriteBool ReadBool
  by unfold_locales (rule appends_WriteBool reads_ReadBool | simp add: bool_bytes_def)+

interpretation hugeint: wire_codec "\<lambda>_. True" hugeint_bytes WriteHugeInt ReadHugeInt
  by unfold_locales (simp_all add: appends_rules reads_rules)

end
