(* ===== verification/LogicalTypes.thy ===== *)
theory LogicalTypes
  imports Codec
begin

text \<open>
  \<^verbatim>\<open>internal/quacktype/logical_type_id.go\<close> and \<^verbatim>\<open>logical_type.go\<close>: DuckDB's logical and physical
  types.  Go's enumerations are open (any \<^verbatim>\<open>int\<close> can arrive from the wire), so an id is an \<open>int\<close>
  and the named values are abbreviations; the sealed interface \<^verbatim>\<open>ExtraTypeInfo\<close> is a datatype
  with one constructor per Go struct, its fields in the order of the struct.
\<close>

section \<open>Logical type ids\<close>

type_synonym LogicalTypeID = int

abbreviation LogicalTypeIDInvalid :: LogicalTypeID where "LogicalTypeIDInvalid \<equiv> 0"
abbreviation LogicalTypeIDSQLNull :: LogicalTypeID where "LogicalTypeIDSQLNull \<equiv> 1"
abbreviation LogicalTypeIDUnknown :: LogicalTypeID where "LogicalTypeIDUnknown \<equiv> 2"
abbreviation LogicalTypeIDAny :: LogicalTypeID where "LogicalTypeIDAny \<equiv> 3"
abbreviation LogicalTypeIDUnbound :: LogicalTypeID where "LogicalTypeIDUnbound \<equiv> 4"
abbreviation LogicalTypeIDTemplate :: LogicalTypeID where "LogicalTypeIDTemplate \<equiv> 5"
abbreviation LogicalTypeIDType :: LogicalTypeID where "LogicalTypeIDType \<equiv> 6"
abbreviation LogicalTypeIDBoolean :: LogicalTypeID where "LogicalTypeIDBoolean \<equiv> 10"
abbreviation LogicalTypeIDTinyInt :: LogicalTypeID where "LogicalTypeIDTinyInt \<equiv> 11"
abbreviation LogicalTypeIDSmallInt :: LogicalTypeID where "LogicalTypeIDSmallInt \<equiv> 12"
abbreviation LogicalTypeIDInteger :: LogicalTypeID where "LogicalTypeIDInteger \<equiv> 13"
abbreviation LogicalTypeIDBigInt :: LogicalTypeID where "LogicalTypeIDBigInt \<equiv> 14"
abbreviation LogicalTypeIDDate :: LogicalTypeID where "LogicalTypeIDDate \<equiv> 15"
abbreviation LogicalTypeIDTime :: LogicalTypeID where "LogicalTypeIDTime \<equiv> 16"
abbreviation LogicalTypeIDTimestampSec :: LogicalTypeID where "LogicalTypeIDTimestampSec \<equiv> 17"
abbreviation LogicalTypeIDTimestampMS :: LogicalTypeID where "LogicalTypeIDTimestampMS \<equiv> 18"
abbreviation LogicalTypeIDTimestamp :: LogicalTypeID where "LogicalTypeIDTimestamp \<equiv> 19"
abbreviation LogicalTypeIDTimestampNS :: LogicalTypeID where "LogicalTypeIDTimestampNS \<equiv> 20"
abbreviation LogicalTypeIDDecimal :: LogicalTypeID where "LogicalTypeIDDecimal \<equiv> 21"
abbreviation LogicalTypeIDFloat :: LogicalTypeID where "LogicalTypeIDFloat \<equiv> 22"
abbreviation LogicalTypeIDDouble :: LogicalTypeID where "LogicalTypeIDDouble \<equiv> 23"
abbreviation LogicalTypeIDChar :: LogicalTypeID where "LogicalTypeIDChar \<equiv> 24"
abbreviation LogicalTypeIDVarchar :: LogicalTypeID where "LogicalTypeIDVarchar \<equiv> 25"
abbreviation LogicalTypeIDBlob :: LogicalTypeID where "LogicalTypeIDBlob \<equiv> 26"
abbreviation LogicalTypeIDInterval :: LogicalTypeID where "LogicalTypeIDInterval \<equiv> 27"
abbreviation LogicalTypeIDUTinyInt :: LogicalTypeID where "LogicalTypeIDUTinyInt \<equiv> 28"
abbreviation LogicalTypeIDUSmallInt :: LogicalTypeID where "LogicalTypeIDUSmallInt \<equiv> 29"
abbreviation LogicalTypeIDUInteger :: LogicalTypeID where "LogicalTypeIDUInteger \<equiv> 30"
abbreviation LogicalTypeIDUBigInt :: LogicalTypeID where "LogicalTypeIDUBigInt \<equiv> 31"
abbreviation LogicalTypeIDTimestampTZ :: LogicalTypeID where "LogicalTypeIDTimestampTZ \<equiv> 32"
abbreviation LogicalTypeIDTimeTZ :: LogicalTypeID where "LogicalTypeIDTimeTZ \<equiv> 34"
abbreviation LogicalTypeIDTimeNS :: LogicalTypeID where "LogicalTypeIDTimeNS \<equiv> 35"
abbreviation LogicalTypeIDBit :: LogicalTypeID where "LogicalTypeIDBit \<equiv> 36"
abbreviation LogicalTypeIDStringLiteral :: LogicalTypeID where "LogicalTypeIDStringLiteral \<equiv> 37"
abbreviation LogicalTypeIDIntegerLiteral :: LogicalTypeID where "LogicalTypeIDIntegerLiteral \<equiv> 38"
abbreviation LogicalTypeIDBigNum :: LogicalTypeID where "LogicalTypeIDBigNum \<equiv> 39"
abbreviation LogicalTypeIDUHugeInt :: LogicalTypeID where "LogicalTypeIDUHugeInt \<equiv> 49"
abbreviation LogicalTypeIDHugeInt :: LogicalTypeID where "LogicalTypeIDHugeInt \<equiv> 50"
abbreviation LogicalTypeIDPointer :: LogicalTypeID where "LogicalTypeIDPointer \<equiv> 51"
abbreviation LogicalTypeIDValidity :: LogicalTypeID where "LogicalTypeIDValidity \<equiv> 53"
abbreviation LogicalTypeIDUUID :: LogicalTypeID where "LogicalTypeIDUUID \<equiv> 54"
abbreviation LogicalTypeIDGeometry :: LogicalTypeID where "LogicalTypeIDGeometry \<equiv> 60"
abbreviation LogicalTypeIDStruct :: LogicalTypeID where "LogicalTypeIDStruct \<equiv> 100"
abbreviation LogicalTypeIDList :: LogicalTypeID where "LogicalTypeIDList \<equiv> 101"
abbreviation LogicalTypeIDMap :: LogicalTypeID where "LogicalTypeIDMap \<equiv> 102"
abbreviation LogicalTypeIDTable :: LogicalTypeID where "LogicalTypeIDTable \<equiv> 103"
abbreviation LogicalTypeIDEnum :: LogicalTypeID where "LogicalTypeIDEnum \<equiv> 104"
abbreviation LogicalTypeIDAggregateState :: LogicalTypeID where "LogicalTypeIDAggregateState \<equiv> 105"
abbreviation LogicalTypeIDLambda :: LogicalTypeID where "LogicalTypeIDLambda \<equiv> 106"
abbreviation LogicalTypeIDUnion :: LogicalTypeID where "LogicalTypeIDUnion \<equiv> 107"
abbreviation LogicalTypeIDArray :: LogicalTypeID where "LogicalTypeIDArray \<equiv> 108"
abbreviation LogicalTypeIDVariant :: LogicalTypeID where "LogicalTypeIDVariant \<equiv> 109"

definition logicalTypeIDNames :: "(LogicalTypeID \<times> string) list" where
  "logicalTypeIDNames =
    [(LogicalTypeIDInvalid, ''INVALID''),
     (LogicalTypeIDSQLNull, ''SQLNULL''),
     (LogicalTypeIDUnknown, ''UNKNOWN''),
     (LogicalTypeIDAny, ''ANY''),
     (LogicalTypeIDUnbound, ''UNBOUND''),
     (LogicalTypeIDTemplate, ''TEMPLATE''),
     (LogicalTypeIDType, ''TYPE''),
     (LogicalTypeIDBoolean, ''BOOLEAN''),
     (LogicalTypeIDTinyInt, ''TINYINT''),
     (LogicalTypeIDSmallInt, ''SMALLINT''),
     (LogicalTypeIDInteger, ''INTEGER''),
     (LogicalTypeIDBigInt, ''BIGINT''),
     (LogicalTypeIDDate, ''DATE''),
     (LogicalTypeIDTime, ''TIME''),
     (LogicalTypeIDTimestampSec, ''TIMESTAMP_SEC''),
     (LogicalTypeIDTimestampMS, ''TIMESTAMP_MS''),
     (LogicalTypeIDTimestamp, ''TIMESTAMP''),
     (LogicalTypeIDTimestampNS, ''TIMESTAMP_NS''),
     (LogicalTypeIDDecimal, ''DECIMAL''),
     (LogicalTypeIDFloat, ''FLOAT''),
     (LogicalTypeIDDouble, ''DOUBLE''),
     (LogicalTypeIDChar, ''CHAR''),
     (LogicalTypeIDVarchar, ''VARCHAR''),
     (LogicalTypeIDBlob, ''BLOB''),
     (LogicalTypeIDInterval, ''INTERVAL''),
     (LogicalTypeIDUTinyInt, ''UTINYINT''),
     (LogicalTypeIDUSmallInt, ''USMALLINT''),
     (LogicalTypeIDUInteger, ''UINTEGER''),
     (LogicalTypeIDUBigInt, ''UBIGINT''),
     (LogicalTypeIDTimestampTZ, ''TIMESTAMP_TZ''),
     (LogicalTypeIDTimeTZ, ''TIME_TZ''),
     (LogicalTypeIDTimeNS, ''TIME_NS''),
     (LogicalTypeIDBit, ''BIT''),
     (LogicalTypeIDStringLiteral, ''STRING_LITERAL''),
     (LogicalTypeIDIntegerLiteral, ''INTEGER_LITERAL''),
     (LogicalTypeIDBigNum, ''BIGNUM''),
     (LogicalTypeIDUHugeInt, ''UHUGEINT''),
     (LogicalTypeIDHugeInt, ''HUGEINT''),
     (LogicalTypeIDPointer, ''POINTER''),
     (LogicalTypeIDValidity, ''VALIDITY''),
     (LogicalTypeIDUUID, ''UUID''),
     (LogicalTypeIDGeometry, ''GEOMETRY''),
     (LogicalTypeIDStruct, ''STRUCT''),
     (LogicalTypeIDList, ''LIST''),
     (LogicalTypeIDMap, ''MAP''),
     (LogicalTypeIDTable, ''TABLE''),
     (LogicalTypeIDEnum, ''ENUM''),
     (LogicalTypeIDAggregateState, ''AGGREGATE_STATE''),
     (LogicalTypeIDLambda, ''LAMBDA''),
     (LogicalTypeIDUnion, ''UNION''),
     (LogicalTypeIDArray, ''ARRAY''),
     (LogicalTypeIDVariant, ''VARIANT'')]"

text \<open>Method \<^verbatim>\<open>String()\<close>.\<close>

definition LogicalTypeID_String :: "LogicalTypeID \<Rightarrow> string" where
  "LogicalTypeID_String i =
     (case map_of logicalTypeIDNames i of Some name \<Rightarrow> name | None \<Rightarrow> ''UNKNOWN_LOGICAL_TYPE'')"

section \<open>Physical types\<close>

type_synonym PhysicalType = int

abbreviation PhysicalTypeInvalid :: PhysicalType where "PhysicalTypeInvalid \<equiv> 255"
abbreviation PhysicalTypeBool :: PhysicalType where "PhysicalTypeBool \<equiv> 1"
abbreviation PhysicalTypeUint8 :: PhysicalType where "PhysicalTypeUint8 \<equiv> 2"
abbreviation PhysicalTypeInt8 :: PhysicalType where "PhysicalTypeInt8 \<equiv> 3"
abbreviation PhysicalTypeUint16 :: PhysicalType where "PhysicalTypeUint16 \<equiv> 4"
abbreviation PhysicalTypeInt16 :: PhysicalType where "PhysicalTypeInt16 \<equiv> 5"
abbreviation PhysicalTypeUint32 :: PhysicalType where "PhysicalTypeUint32 \<equiv> 6"
abbreviation PhysicalTypeInt32 :: PhysicalType where "PhysicalTypeInt32 \<equiv> 7"
abbreviation PhysicalTypeUint64 :: PhysicalType where "PhysicalTypeUint64 \<equiv> 8"
abbreviation PhysicalTypeInt64 :: PhysicalType where "PhysicalTypeInt64 \<equiv> 9"
abbreviation PhysicalTypeFloat :: PhysicalType where "PhysicalTypeFloat \<equiv> 11"
abbreviation PhysicalTypeDouble :: PhysicalType where "PhysicalTypeDouble \<equiv> 12"
abbreviation PhysicalTypeInterval :: PhysicalType where "PhysicalTypeInterval \<equiv> 21"
abbreviation PhysicalTypeList :: PhysicalType where "PhysicalTypeList \<equiv> 23"
abbreviation PhysicalTypeStruct :: PhysicalType where "PhysicalTypeStruct \<equiv> 24"
abbreviation PhysicalTypeArray :: PhysicalType where "PhysicalTypeArray \<equiv> 29"
abbreviation PhysicalTypeVarchar :: PhysicalType where "PhysicalTypeVarchar \<equiv> 200"
abbreviation PhysicalTypeUint128 :: PhysicalType where "PhysicalTypeUint128 \<equiv> 203"
abbreviation PhysicalTypeInt128 :: PhysicalType where "PhysicalTypeInt128 \<equiv> 204"
abbreviation PhysicalTypeUnknown :: PhysicalType where "PhysicalTypeUnknown \<equiv> 205"
abbreviation PhysicalTypeBit :: PhysicalType where "PhysicalTypeBit \<equiv> 206"

definition IsConstantSize :: "PhysicalType \<Rightarrow> bool" where
  "IsConstantSize p \<longleftrightarrow> p \<in> set
     [PhysicalTypeBool, PhysicalTypeUint8, PhysicalTypeInt8,
      PhysicalTypeUint16, PhysicalTypeInt16, PhysicalTypeUint32, PhysicalTypeInt32,
      PhysicalTypeUint64, PhysicalTypeInt64, PhysicalTypeFloat, PhysicalTypeDouble,
      PhysicalTypeInterval, PhysicalTypeUint128, PhysicalTypeInt128]"

definition ByteWidth :: "PhysicalType \<Rightarrow> int outcome" where
  "ByteWidth p =
     (if p \<in> set [PhysicalTypeBool, PhysicalTypeUint8, PhysicalTypeInt8] then Done 1
      else if p \<in> set [PhysicalTypeUint16, PhysicalTypeInt16] then Done 2
      else if p \<in> set [PhysicalTypeUint32, PhysicalTypeInt32, PhysicalTypeFloat] then Done 4
      else if p \<in> set [PhysicalTypeUint64, PhysicalTypeInt64, PhysicalTypeDouble] then Done 8
      else if p \<in> set [PhysicalTypeInterval, PhysicalTypeUint128, PhysicalTypeInt128] then Done 16
      else Panic)"

section \<open>Extra type info kinds\<close>

type_synonym ExtraTypeInfoType = int

abbreviation ExtraTypeInfoTypeInvalid :: ExtraTypeInfoType where "ExtraTypeInfoTypeInvalid \<equiv> 0"
abbreviation ExtraTypeInfoTypeGeneric :: ExtraTypeInfoType where "ExtraTypeInfoTypeGeneric \<equiv> 1"
abbreviation ExtraTypeInfoTypeDecimal :: ExtraTypeInfoType where "ExtraTypeInfoTypeDecimal \<equiv> 2"
abbreviation ExtraTypeInfoTypeString :: ExtraTypeInfoType where "ExtraTypeInfoTypeString \<equiv> 3"
abbreviation ExtraTypeInfoTypeList :: ExtraTypeInfoType where "ExtraTypeInfoTypeList \<equiv> 4"
abbreviation ExtraTypeInfoTypeStruct :: ExtraTypeInfoType where "ExtraTypeInfoTypeStruct \<equiv> 5"
abbreviation ExtraTypeInfoTypeEnum :: ExtraTypeInfoType where "ExtraTypeInfoTypeEnum \<equiv> 6"
abbreviation ExtraTypeInfoTypeUnbound :: ExtraTypeInfoType where "ExtraTypeInfoTypeUnbound \<equiv> 7"
abbreviation ExtraTypeInfoTypeAggregateState :: ExtraTypeInfoType where "ExtraTypeInfoTypeAggregateState \<equiv> 8"
abbreviation ExtraTypeInfoTypeArray :: ExtraTypeInfoType where "ExtraTypeInfoTypeArray \<equiv> 9"
abbreviation ExtraTypeInfoTypeAny :: ExtraTypeInfoType where "ExtraTypeInfoTypeAny \<equiv> 10"
abbreviation ExtraTypeInfoTypeIntegerLiteral :: ExtraTypeInfoType where "ExtraTypeInfoTypeIntegerLiteral \<equiv> 11"
abbreviation ExtraTypeInfoTypeTemplate :: ExtraTypeInfoType where "ExtraTypeInfoTypeTemplate \<equiv> 12"
abbreviation ExtraTypeInfoTypeGeo :: ExtraTypeInfoType where "ExtraTypeInfoTypeGeo \<equiv> 13"

section \<open>Logical types\<close>

text \<open>
  \<^verbatim>\<open>TypeInfo == nil\<close> is \<open>None\<close>; a nil slice is the empty list; \<^verbatim>\<open>*big.Int\<close> is \<open>int option\<close>.
\<close>

datatype LogicalType = LogicalType (lt_ID: LogicalTypeID) (lt_TypeInfo: "ExtraTypeInfo option")
and ExtraTypeInfo =
    GenericTypeInfo ExtraTypeInfoType string
  | DecimalTypeInfo int int string
  | StringTypeInfo string string
  | ListTypeInfo LogicalType string
  | StructTypeInfo "ChildType list" string
  | EnumTypeInfo "string list" string
  | AggregateStateTypeInfo string LogicalType "LogicalType list" string
  | ArrayTypeInfo LogicalType int string
  | AnyTypeInfo LogicalType "int option" string
  | TemplateTypeInfo string string
  | IntegerLiteralTypeInfo string
  | GeoTypeInfo string string
  | UnboundTypeInfo string string string string
and ChildType = ChildType (ct_Name: string) (ct_Type: LogicalType)

text \<open>The zero values of Go.\<close>

definition zeroLogicalType :: LogicalType where
  "zeroLogicalType = LogicalType LogicalTypeIDInvalid None"

definition zeroChildType :: ChildType where
  "zeroChildType = ChildType [] zeroLogicalType"

primrec Kind :: "ExtraTypeInfo \<Rightarrow> ExtraTypeInfoType" where
  "Kind (GenericTypeInfo k _) = k"
| "Kind (DecimalTypeInfo _ _ _) = ExtraTypeInfoTypeDecimal"
| "Kind (StringTypeInfo _ _) = ExtraTypeInfoTypeString"
| "Kind (ListTypeInfo _ _) = ExtraTypeInfoTypeList"
| "Kind (StructTypeInfo _ _) = ExtraTypeInfoTypeStruct"
| "Kind (EnumTypeInfo _ _) = ExtraTypeInfoTypeEnum"
| "Kind (AggregateStateTypeInfo _ _ _ _) = ExtraTypeInfoTypeAggregateState"
| "Kind (ArrayTypeInfo _ _ _) = ExtraTypeInfoTypeArray"
| "Kind (AnyTypeInfo _ _ _) = ExtraTypeInfoTypeAny"
| "Kind (TemplateTypeInfo _ _) = ExtraTypeInfoTypeTemplate"
| "Kind (IntegerLiteralTypeInfo _) = ExtraTypeInfoTypeIntegerLiteral"
| "Kind (GeoTypeInfo _ _) = ExtraTypeInfoTypeGeo"
| "Kind (UnboundTypeInfo _ _ _ _) = ExtraTypeInfoTypeUnbound"

primrec GetAlias :: "ExtraTypeInfo \<Rightarrow> string" where
  "GetAlias (GenericTypeInfo _ a) = a"
| "GetAlias (DecimalTypeInfo _ _ a) = a"
| "GetAlias (StringTypeInfo _ a) = a"
| "GetAlias (ListTypeInfo _ a) = a"
| "GetAlias (StructTypeInfo _ a) = a"
| "GetAlias (EnumTypeInfo _ a) = a"
| "GetAlias (AggregateStateTypeInfo _ _ _ a) = a"
| "GetAlias (ArrayTypeInfo _ _ a) = a"
| "GetAlias (AnyTypeInfo _ _ a) = a"
| "GetAlias (TemplateTypeInfo _ a) = a"
| "GetAlias (IntegerLiteralTypeInfo a) = a"
| "GetAlias (GeoTypeInfo _ a) = a"
| "GetAlias (UnboundTypeInfo _ _ _ a) = a"

section \<open>Constructors\<close>

definition Of :: "LogicalTypeID \<Rightarrow> LogicalType" where
  "Of i = LogicalType i None"

definition OfWithInfo :: "LogicalTypeID \<Rightarrow> ExtraTypeInfo \<Rightarrow> LogicalType" where
  "OfWithInfo i info = LogicalType i (Some info)"

definition Decimal :: "int \<Rightarrow> int \<Rightarrow> LogicalType" where
  "Decimal width scale = LogicalType LogicalTypeIDDecimal (Some (DecimalTypeInfo width scale []))"

definition List_T :: "LogicalType \<Rightarrow> LogicalType" where
  "List_T child = LogicalType LogicalTypeIDList (Some (ListTypeInfo child []))"

definition Array_T :: "LogicalType \<Rightarrow> int \<Rightarrow> LogicalType" where
  "Array_T child sz = LogicalType LogicalTypeIDArray (Some (ArrayTypeInfo child sz []))"

definition Struct_T :: "ChildType list \<Rightarrow> LogicalType" where
  "Struct_T children = LogicalType LogicalTypeIDStruct (Some (StructTypeInfo children []))"

definition Enum_T :: "string list \<Rightarrow> LogicalType" where
  "Enum_T values = LogicalType LogicalTypeIDEnum (Some (EnumTypeInfo values []))"

section \<open>Accessors\<close>

text \<open>
  The functions with a \<^verbatim>\<open>(T, error)\<close> result: \<open>Inl\<close> the error text, \<open>Inr\<close> the value.
\<close>

definition type_error :: "LogicalType \<Rightarrow> string \<Rightarrow> string" where
  "type_error t what = ''quacktype: logical type '' @ LogicalTypeID_String (lt_ID t) @ what"

definition GetChildType :: "LogicalType \<Rightarrow> string + LogicalType" where
  "GetChildType t = (case lt_TypeInfo t of
       Some (ListTypeInfo child _) \<Rightarrow> Inr child
     | Some (ArrayTypeInfo child _ _) \<Rightarrow> Inr child
     | _ \<Rightarrow> Inl (type_error t '' does not have a child type''))"

definition GetStructChildren :: "LogicalType \<Rightarrow> string + ChildType list" where
  "GetStructChildren t = (case lt_TypeInfo t of
       Some (StructTypeInfo children _) \<Rightarrow> Inr children
     | _ \<Rightarrow> (if lt_ID t = LogicalTypeIDVariant \<or> lt_ID t = LogicalTypeIDUnion then Inr []
             else Inl (type_error t '' does not have struct children'')))"

definition GetArraySize :: "LogicalType \<Rightarrow> string + int" where
  "GetArraySize t = (case lt_TypeInfo t of
       Some (ArrayTypeInfo _ sz _) \<Rightarrow> Inr sz
     | _ \<Rightarrow> Inl (type_error t '' is not an ARRAY''))"

definition GetEnumValues :: "LogicalType \<Rightarrow> string + string list" where
  "GetEnumValues t = (case lt_TypeInfo t of
       Some (EnumTypeInfo values _) \<Rightarrow> Inr values
     | _ \<Rightarrow> Inl (type_error t '' is not an ENUM''))"

text \<open>The value with the error dropped: \<^verbatim>\<open>v, _ := f(t)\<close>, the zero value on error.\<close>

definition or_zero :: "'a \<Rightarrow> string + 'a \<Rightarrow> 'a" where
  "or_zero z x = (case x of Inl _ \<Rightarrow> z | Inr v \<Rightarrow> v)"

section \<open>The physical layout of a logical type\<close>

definition getDecimalPhysicalType :: "LogicalType \<Rightarrow> PhysicalType" where
  "getDecimalPhysicalType t = (case lt_TypeInfo t of
       Some (DecimalTypeInfo width _ _) \<Rightarrow>
         (if width \<le> 4 then PhysicalTypeInt16
          else if width \<le> 9 then PhysicalTypeInt32
          else if width \<le> 18 then PhysicalTypeInt64
          else if width \<le> 38 then PhysicalTypeInt128
          else PhysicalTypeInvalid)
     | _ \<Rightarrow> PhysicalTypeInvalid)"

definition getEnumPhysicalType :: "LogicalType \<Rightarrow> PhysicalType" where
  "getEnumPhysicalType t = (case GetEnumValues t of
       Inl _ \<Rightarrow> PhysicalTypeInvalid
     | Inr values \<Rightarrow>
         (let n = length values
          in if n \<le> 0xFF then PhysicalTypeUint8
             else if n \<le> 0xFFFF then PhysicalTypeUint16
             else PhysicalTypeUint32))"

definition GetPhysicalType :: "LogicalType \<Rightarrow> PhysicalType" where
  "GetPhysicalType t = (let i = lt_ID t in
     if i = LogicalTypeIDBoolean then PhysicalTypeBool
     else if i = LogicalTypeIDTinyInt then PhysicalTypeInt8
     else if i = LogicalTypeIDUTinyInt then PhysicalTypeUint8
     else if i = LogicalTypeIDSmallInt then PhysicalTypeInt16
     else if i = LogicalTypeIDUSmallInt then PhysicalTypeUint16
     else if i \<in> set [LogicalTypeIDSQLNull, LogicalTypeIDDate, LogicalTypeIDInteger]
     then PhysicalTypeInt32
     else if i = LogicalTypeIDUInteger then PhysicalTypeUint32
     else if i \<in> set [LogicalTypeIDBigInt, LogicalTypeIDTime, LogicalTypeIDTimeNS,
         LogicalTypeIDTimestamp, LogicalTypeIDTimestampSec, LogicalTypeIDTimestampNS,
         LogicalTypeIDTimestampMS, LogicalTypeIDTimeTZ, LogicalTypeIDTimestampTZ]
     then PhysicalTypeInt64
     else if i = LogicalTypeIDUBigInt then PhysicalTypeUint64
     else if i = LogicalTypeIDUHugeInt then PhysicalTypeUint128
     else if i \<in> set [LogicalTypeIDHugeInt, LogicalTypeIDUUID] then PhysicalTypeInt128
     else if i = LogicalTypeIDFloat then PhysicalTypeFloat
     else if i = LogicalTypeIDDouble then PhysicalTypeDouble
     else if i = LogicalTypeIDDecimal then getDecimalPhysicalType t
     else if i \<in> set [LogicalTypeIDBigNum, LogicalTypeIDVarchar, LogicalTypeIDChar,
         LogicalTypeIDBlob, LogicalTypeIDBit, LogicalTypeIDType,
         LogicalTypeIDAggregateState, LogicalTypeIDGeometry]
     then PhysicalTypeVarchar
     else if i = LogicalTypeIDInterval then PhysicalTypeInterval
     else if i \<in> set [LogicalTypeIDUnion, LogicalTypeIDVariant, LogicalTypeIDStruct]
     then PhysicalTypeStruct
     else if i \<in> set [LogicalTypeIDList, LogicalTypeIDMap] then PhysicalTypeList
     else if i = LogicalTypeIDArray then PhysicalTypeArray
     else if i = LogicalTypeIDPointer then PhysicalTypeUint64
     else if i = LogicalTypeIDValidity then PhysicalTypeBit
     else if i = LogicalTypeIDEnum then getEnumPhysicalType t
     else PhysicalTypeInvalid)"

section \<open>Properties\<close>

lemma ByteWidth_total: "IsConstantSize p \<longleftrightarrow> (\<exists>n. ByteWidth p = Done n)"
  by (auto simp: IsConstantSize_def ByteWidth_def)

lemma ByteWidth_range: "ByteWidth p = Done n \<Longrightarrow> n \<in> {1, 2, 4, 8, 16}"
  by (auto simp: ByteWidth_def split: if_splits)

lemma logicalTypeIDNames_distinct: "distinct (map fst logicalTypeIDNames)"
  by (simp add: logicalTypeIDNames_def)

end
