(* ===== verification/TypeCodec.thy ===== *)
theory TypeCodec
  imports WireCodec LogicalTypes
begin

text \<open>
  \<^verbatim>\<open>internal/quacktype/codec.go\<close>: logical types on the wire.  The encoders are total functions
  on the type; the decoders recurse on the input, so they carry a fuel (the recursion depth left),
  and \<open>OutOfFuel\<close> marks its exhaustion.  \<open>LogicalType_fueled\<close> shows that fuel above the number
  of unread bytes is never exhausted, on any input.  The grammar \<open>lt_bytes\<close>/\<open>ti_bytes\<close> is the
  specification both sides are proved against.
\<close>

section \<open>Encoding\<close>

definition encodeCRS :: "string \<Rightarrow> wr" where
  "encodeCRS def = WriteObject
     (if def \<noteq> [] then WriteField 100 (WriteString def) else wskip)"

function (sequential)
  EncodeLogicalType :: "LogicalType \<Rightarrow> wr" and
  EncodeExtraTypeInfo :: "ExtraTypeInfo \<Rightarrow> wr" and
  encodeChildTypes :: "ChildType list \<Rightarrow> wr"
where
  "EncodeLogicalType t = WriteObject
     (wseq (WriteField 100 (WriteULEB128 (word_of_int (lt_ID t))))
       (case lt_TypeInfo t of
          None \<Rightarrow> wskip
        | Some info \<Rightarrow> WriteField 101 (wseq (WriteBool True) (EncodeExtraTypeInfo info))))"
| "EncodeExtraTypeInfo info = WriteObject
     (wseq (WriteField 100 (WriteULEB128 (word_of_int (Kind info))))
     (wseq (if GetAlias info \<noteq> [] then WriteField 101 (WriteString (GetAlias info)) else wskip)
       (case info of
          GenericTypeInfo _ _ \<Rightarrow> wskip
        | DecimalTypeInfo width scale _ \<Rightarrow>
            wseq (WriteField 200 (WriteULEB128 (word_of_int width)))
              (WriteField 201 (WriteULEB128 (word_of_int scale)))
        | StringTypeInfo collation _ \<Rightarrow> WriteField 200 (WriteString collation)
        | ListTypeInfo child _ \<Rightarrow> WriteField 200 (EncodeLogicalType child)
        | StructTypeInfo children _ \<Rightarrow> WriteField 200 (encodeChildTypes children)
        | EnumTypeInfo values _ \<Rightarrow>
            wseq (WriteField 200 (WriteULEB128 (of_nat (length values))))
              (WriteField 201 (WriteList values (\<lambda>_. WriteString)))
        | AggregateStateTypeInfo fn ret args _ \<Rightarrow>
            wseq (WriteField 200 (WriteString fn))
            (wseq (WriteField 201 (EncodeLogicalType ret))
              (WriteField 202 (WriteList args (\<lambda>_ t. EncodeLogicalType t))))
        | ArrayTypeInfo child sz _ \<Rightarrow>
            wseq (WriteField 200 (EncodeLogicalType child))
              (WriteField 201 (WriteULEB128 (word_of_int sz)))
        | AnyTypeInfo target castScore _ \<Rightarrow>
            wseq (WriteField 200 (EncodeLogicalType target))
              (WriteField 201 (WriteULEB128
                 (case castScore of None \<Rightarrow> 0 | Some score \<Rightarrow> word_of_int score)))
        | TemplateTypeInfo name _ \<Rightarrow> WriteField 200 (WriteString name)
        | IntegerLiteralTypeInfo _ \<Rightarrow> wskip
        | GeoTypeInfo crs _ \<Rightarrow> WriteField 200 (encodeCRS crs)
        | UnboundTypeInfo name cat schema _ \<Rightarrow>
            wseq (if name \<noteq> [] then WriteField 200 (WriteString name) else wskip)
            (wseq (if cat \<noteq> [] then WriteField 201 (WriteString cat) else wskip)
              (if schema \<noteq> [] then WriteField 202 (WriteString schema) else wskip)))))"
| "encodeChildTypes children = WriteList children (\<lambda>_ c. WriteObject
     (wseq (WriteField 0 (WriteString (ct_Name c)))
       (WriteField 1 (EncodeLogicalType (ct_Type c)))))"
  by pat_completeness auto

lemma size_lt_TypeInfo: "lt_TypeInfo t = Some info \<Longrightarrow> size info < size t"
  by (cases t) simp

lemma size_ct_Type: "c \<in> set cs \<Longrightarrow> size (ct_Type c) < size_list size cs"
  by (cases c) (auto dest!: split_list)

lemma size_list_element: "x \<in> set xs \<Longrightarrow> size x < size_list size xs" for x :: LogicalType
  by (auto dest!: split_list)

termination EncodeLogicalType
  by (relation "measure (\<lambda>x. case x of Inl t \<Rightarrow> size t | Inr (Inl i) \<Rightarrow> size i | Inr (Inr cs) \<Rightarrow> size_list size cs)")
     (auto simp: size_lt_TypeInfo size_ct_Type dest!: size_list_element)

declare EncodeLogicalType.simps [simp del] EncodeExtraTypeInfo.simps [simp del]
  encodeChildTypes.simps [simp del]

section \<open>Decoding\<close>

definition decodeCRS :: "string rd" where
  "decodeCRS = ReadObject [] (ReadOptionalField 100 ReadString [])"

text \<open>Element sizes of the slices the decoders allocate, in bytes (64-bit Go).\<close>

definition sizeof_string :: int where "sizeof_string = 16"
definition sizeof_LogicalType :: int where "sizeof_LogicalType = 24"
definition sizeof_ChildType :: int where "sizeof_ChildType = 40"

fun DecodeLogicalType :: "nat \<Rightarrow> LogicalType rd"
  and DecodeExtraTypeInfo :: "nat \<Rightarrow> ExtraTypeInfo option rd"
  and decodeChildTypes :: "nat \<Rightarrow> ChildType list rd"
where
  "DecodeLogicalType 0 = (\<lambda>r. OutOfFuel)"
| "DecodeLogicalType (Suc n) = ReadObject zeroLogicalType
     (rbind (ReadRequiredField 100 0 ReadULEB128Int) (\<lambda>id.
      rbind (ReadOptionalField 101
               (rbind (ReadNullable None (DecodeExtraTypeInfo n)) (\<lambda>(info, _). rret info)) None) (\<lambda>info.
      rret (LogicalType id info))))"
| "DecodeExtraTypeInfo 0 = (\<lambda>r. OutOfFuel)"
| "DecodeExtraTypeInfo (Suc n) = ReadObject None
     (rbind (ReadRequiredField 100 0 ReadULEB128Int) (\<lambda>kind.
      rbind (ReadOptionalField 101 ReadString []) (\<lambda>alias.
      rbind (ReadOptionalField 103
               (rbind (ReadNullable () (rret ())) (\<lambda>_. rret ())) ()) (\<lambda>_.
      if kind = ExtraTypeInfoTypeInvalid \<or> kind = ExtraTypeInfoTypeGeneric then
        rret (Some (GenericTypeInfo kind alias))
      else if kind = ExtraTypeInfoTypeDecimal then
        rbind (ReadOptionalField 200 ReadULEB128Int 0) (\<lambda>width.
        rbind (ReadOptionalField 201 ReadULEB128Int 0) (\<lambda>scale.
        rret (Some (DecimalTypeInfo width scale alias))))
      else if kind = ExtraTypeInfoTypeString then
        rbind (ReadOptionalField 200 ReadString []) (\<lambda>coll.
        rret (Some (StringTypeInfo coll alias)))
      else if kind = ExtraTypeInfoTypeList then
        rbind (ReadRequiredField 200 zeroLogicalType (DecodeLogicalType n)) (\<lambda>child.
        rret (Some (ListTypeInfo child alias)))
      else if kind = ExtraTypeInfoTypeStruct then
        rbind (ReadOptionalField 200 (decodeChildTypes n) []) (\<lambda>children.
        rret (Some (StructTypeInfo children alias)))
      else if kind = ExtraTypeInfoTypeEnum then
        rbind (ReadRequiredField 200 0 ReadULEB128Int) (\<lambda>valuesCount.
        rbind (ReadRequiredField 201 [] (ReadList sizeof_string (\<lambda>_. ReadString))) (\<lambda>values.
        rbind (if int (length values) \<noteq> valuesCount then AssertEOF else rret ()) (\<lambda>_.
        rret (Some (EnumTypeInfo values alias)))))
      else if kind = ExtraTypeInfoTypeAggregateState then
        rbind (ReadRequiredField 200 [] ReadString) (\<lambda>fn.
        rbind (ReadRequiredField 201 zeroLogicalType (DecodeLogicalType n)) (\<lambda>ret.
        rbind (ReadRequiredField 202 [] (ReadList sizeof_LogicalType (\<lambda>_. DecodeLogicalType n))) (\<lambda>args.
        rret (Some (AggregateStateTypeInfo fn ret args alias)))))
      else if kind = ExtraTypeInfoTypeArray then
        rbind (ReadRequiredField 200 zeroLogicalType (DecodeLogicalType n)) (\<lambda>child.
        rbind (ReadRequiredField 201 0 ReadULEB128Int) (\<lambda>sz.
        rret (Some (ArrayTypeInfo child sz alias))))
      else if kind = ExtraTypeInfoTypeAny then
        rbind (ReadRequiredField 200 zeroLogicalType (DecodeLogicalType n)) (\<lambda>target.
        rbind (ReadRequiredField 201 None ReadULEB128BigInt) (\<lambda>score.
        rret (Some (AnyTypeInfo target score alias))))
      else if kind = ExtraTypeInfoTypeIntegerLiteral then
        rret (Some (IntegerLiteralTypeInfo alias))
      else if kind = ExtraTypeInfoTypeTemplate then
        rbind (ReadOptionalField 200 ReadString []) (\<lambda>name.
        rret (Some (TemplateTypeInfo name alias)))
      else if kind = ExtraTypeInfoTypeGeo then
        rbind (ReadOptionalField 200 decodeCRS []) (\<lambda>crs.
        rret (Some (GeoTypeInfo crs alias)))
      else if kind = ExtraTypeInfoTypeUnbound then
        rbind (ReadOptionalField 200 ReadString []) (\<lambda>name.
        rbind (ReadOptionalField 201 ReadString []) (\<lambda>cat.
        rbind (ReadOptionalField 202 ReadString []) (\<lambda>schema.
        rret (Some (UnboundTypeInfo name cat schema alias)))))
      else rret (Some (GenericTypeInfo kind alias))))))"
| "decodeChildTypes 0 = (\<lambda>r. OutOfFuel)"
| "decodeChildTypes (Suc n) = ReadList sizeof_ChildType (\<lambda>_. ReadObject zeroChildType
     (rbind (ReadRequiredField 0 [] ReadString) (\<lambda>name.
      rbind (ReadRequiredField 1 zeroLogicalType (DecodeLogicalType n)) (\<lambda>t.
      rret (ChildType name t)))))"

declare DecodeLogicalType.simps [simp del] DecodeExtraTypeInfo.simps [simp del]
  decodeChildTypes.simps [simp del]

section \<open>The grammar of types\<close>

definition crs_bytes :: "string \<Rightarrow> bytes" where
  "crs_bytes def = object (opt_field (def \<noteq> []) 100 (string_bytes def))"

function (sequential)
  lt_bytes :: "LogicalType \<Rightarrow> bytes" and
  ti_bytes :: "ExtraTypeInfo \<Rightarrow> bytes" and
  ti_payload :: "ExtraTypeInfo \<Rightarrow> bytes" and
  ct_bytes :: "ChildType \<Rightarrow> bytes"
where
  "lt_bytes t = object (field 100 (uleb_int (lt_ID t)) @
     (case lt_TypeInfo t of None \<Rightarrow> []
      | Some info \<Rightarrow> field 101 (bool_bytes True @ ti_bytes info)))"
| "ti_bytes info = object (field 100 (uleb_int (Kind info)) @
     opt_field (GetAlias info \<noteq> []) 101 (string_bytes (GetAlias info)) @ ti_payload info)"
| "ti_payload info =
     (case info of
        GenericTypeInfo _ _ \<Rightarrow> []
      | DecimalTypeInfo width scale _ \<Rightarrow> field 200 (uleb_int width) @ field 201 (uleb_int scale)
      | StringTypeInfo collation _ \<Rightarrow> field 200 (string_bytes collation)
      | ListTypeInfo child _ \<Rightarrow> field 200 (lt_bytes child)
      | StructTypeInfo children _ \<Rightarrow> field 200 (list_bytes ct_bytes children)
      | EnumTypeInfo values _ \<Rightarrow>
          field 200 (uleb_len (length values)) @ field 201 (list_bytes string_bytes values)
      | AggregateStateTypeInfo fn ret args _ \<Rightarrow>
          field 200 (string_bytes fn) @ field 201 (lt_bytes ret) @ field 202 (list_bytes lt_bytes args)
      | ArrayTypeInfo child sz _ \<Rightarrow> field 200 (lt_bytes child) @ field 201 (uleb_int sz)
      | AnyTypeInfo target castScore _ \<Rightarrow>
          field 200 (lt_bytes target) @
          field 201 (uleb_word (case castScore of None \<Rightarrow> 0 | Some score \<Rightarrow> word_of_int score))
      | TemplateTypeInfo name _ \<Rightarrow> field 200 (string_bytes name)
      | IntegerLiteralTypeInfo _ \<Rightarrow> []
      | GeoTypeInfo crs _ \<Rightarrow> field 200 (crs_bytes crs)
      | UnboundTypeInfo name cat schema _ \<Rightarrow>
          opt_field (name \<noteq> []) 200 (string_bytes name) @
          opt_field (cat \<noteq> []) 201 (string_bytes cat) @
          opt_field (schema \<noteq> []) 202 (string_bytes schema))"
| "ct_bytes c = object (field 0 (string_bytes (ct_Name c)) @ field 1 (lt_bytes (ct_Type c)))"
  by pat_completeness auto

lemma size_ct_Type': "size (ct_Type c) < size c"
  by (cases c) simp

lemma size_list_element': "x \<in> set xs \<Longrightarrow> size x < size_list size xs" for x :: ChildType
  by (auto dest!: split_list)

termination lt_bytes
  by (relation "measure (\<lambda>x. case x of Inl (Inl t) \<Rightarrow> 2 * size t | Inl (Inr i) \<Rightarrow> 2 * size i + 1
        | Inr (Inl i) \<Rightarrow> 2 * size i | Inr (Inr c) \<Rightarrow> 2 * size c)")
     (auto simp: size_ct_Type' dest!: size_list_element size_list_element' size_lt_TypeInfo)

declare lt_bytes.simps [simp del] ti_bytes.simps [simp del] ti_payload.simps [simp del] ct_bytes.simps [simp del]

lemma lt_bytes_nonempty [simp]: "lt_bytes t \<noteq> []"
  by (simp add: lt_bytes.simps object_def object_end_def)

lemma ct_bytes_nonempty [simp]: "ct_bytes c \<noteq> []"
  by (simp add: ct_bytes.simps object_def object_end_def)

section \<open>The encoders write the grammar\<close>

lemma encodeCRS_writes: "appends (encodeCRS def) (crs_bytes def)"
  unfolding encodeCRS_def crs_bytes_def by (intro appends_rules)

lemmas appends_intros =
  appends_WriteObject appends_wseq appends_wskip appends_WriteField appends_opt_field
  appends_WriteULEB128_int appends_WriteULEB128 appends_WriteString appends_WriteBool
  appends_WriteList encodeCRS_writes

lemma Encode_writes:
  "appends (EncodeLogicalType t) (lt_bytes t)"
  "appends (EncodeExtraTypeInfo info) (ti_bytes info)"
  "appends (encodeChildTypes cs) (list_bytes ct_bytes cs)"
proof (induction t and info and cs
    rule: EncodeLogicalType_EncodeExtraTypeInfo_encodeChildTypes.induct)
  case (1 t)
  then show ?case
    unfolding EncodeLogicalType.simps [of t] lt_bytes.simps [of t]
    by (cases "lt_TypeInfo t") (auto intro!: appends_intros simp del: append_Nil2)
next
  case (2 info)
  then show ?case
    unfolding EncodeExtraTypeInfo.simps [of info] ti_bytes.simps [of info] ti_payload.simps [of info] uleb_len_def
    by (intro appends_WriteObject appends_wseq [OF appends_WriteField [OF appends_WriteULEB128_int]]
          appends_wseq [OF appends_opt_field [OF appends_WriteString]])
       (cases info; auto intro!: appends_intros simp del: append_Nil2 split del: if_split)
next
  case (3 cs)
  then show ?case
    unfolding encodeChildTypes.simps [of cs]
    by (intro appends_WriteList) (auto simp: ct_bytes.simps intro!: appends_intros)
qed

section \<open>The decoders read the grammar\<close>

text \<open>
  The types whose wire form determines them: sizes and ids in the range of a non-negative \<^verbatim>\<open>int\<close>,
  a cast score present and 64-bit, and a generic kind that is not the kind of another variant
  (\<^verbatim>\<open>GenericTypeInfo\<close> with such a kind would be encoded without the payload its kind announces).
\<close>

definition int_ok :: "int \<Rightarrow> bool" where
  "int_ok i \<longleftrightarrow> 0 \<le> i \<and> i \<le> MaxInt"

function (sequential)
  wf_lt :: "LogicalType \<Rightarrow> bool" and wf_ti :: "ExtraTypeInfo \<Rightarrow> bool" and wf_ct :: "ChildType \<Rightarrow> bool"
where
  "wf_lt t \<longleftrightarrow> int_ok (lt_ID t) \<and> (case lt_TypeInfo t of None \<Rightarrow> True | Some info \<Rightarrow> wf_ti info)"
| "wf_ti info \<longleftrightarrow> (case info of
       GenericTypeInfo k _ \<Rightarrow> int_ok k \<and> \<not> (2 \<le> k \<and> k \<le> 13)
     | DecimalTypeInfo width scale _ \<Rightarrow> int_ok width \<and> int_ok scale
     | ListTypeInfo child _ \<Rightarrow> wf_lt child
     | StructTypeInfo children _ \<Rightarrow> list_all wf_ct children
     | AggregateStateTypeInfo _ ret args _ \<Rightarrow> wf_lt ret \<and> list_all wf_lt args
     | ArrayTypeInfo child sz _ \<Rightarrow> wf_lt child \<and> int_ok sz
     | AnyTypeInfo target castScore _ \<Rightarrow> wf_lt target \<and>
         (case castScore of None \<Rightarrow> False | Some c \<Rightarrow> 0 \<le> c \<and> c < 2 ^ 64)
     | _ \<Rightarrow> True)"
| "wf_ct c \<longleftrightarrow> wf_lt (ct_Type c)"
  by pat_completeness auto

termination wf_lt
  by (relation "measure (\<lambda>x. case x of Inl t \<Rightarrow> size t | Inr (Inl i) \<Rightarrow> size i | Inr (Inr c) \<Rightarrow> size c)")
     (auto simp: size_lt_TypeInfo size_ct_Type' dest!: size_list_element size_list_element')

declare wf_lt.simps [simp del] wf_ti.simps [simp del] wf_ct.simps [simp del]

lemma reads_Int: "int_ok i \<Longrightarrow> reads ReadULEB128Int i (uleb_int i) rest"
  by (simp add: int_ok_def reads_ReadULEB128Int)

lemma reads_castScore:
  assumes "0 \<le> c" "c < 2 ^ 64"
  shows "reads ReadULEB128BigInt (Some c) (uleb_word (word_of_int c)) rest"
  using reads_ReadULEB128BigInt [of "word_of_int c" rest] assms
  by (simp add: unsigned_of_int take_bit_int_eq_self)

lemma reads_count:
  assumes "length (uleb_len (length xs) @ field fid (list_bytes enc xs) @ bs) \<le> maxInput"
    and "\<And>x. x \<in> set xs \<Longrightarrow> enc x \<noteq> []"
  shows "reads ReadULEB128Int (int (length xs)) (uleb_len (length xs)) rest"
proof (rule reads_ReadULEB128Int_len)
  have "length xs \<le> length (list_bytes enc xs)"
    by (rule length_list_bytes_ge) (use assms(2) in simp)
  with assms(1) show "length xs \<le> maxInput" by simp
qed

lemma decodeCRS_reads: "reads decodeCRS def (crs_bytes def) rest"
  unfolding decodeCRS_def crs_bytes_def
  by (rule reads_ReadObject, rule reads_ReadOptionalField [OF reads_ReadString]) (simp add: FieldEnd_def)

lemma starts_other_payload:
  "fid \<in> {101, 103} \<Longrightarrow> starts_other fid (ti_payload info @ object_end @ rest)"
  by (cases info) (auto simp: ti_payload.simps opt_field_def FieldEnd_def)

lemma length_ti_payload: "length (ti_payload info) < length (ti_bytes info)"
  by (simp add: ti_bytes.simps)

text \<open>One level of the three decoders, given the level below.\<close>

lemma DecodeLogicalType_step:
  assumes "\<And>info rest. wf_ti info \<Longrightarrow> length (ti_bytes info) < n \<Longrightarrow>
      reads (DecodeExtraTypeInfo n) (Some info) (ti_bytes info) rest"
    and "wf_lt t" "length (lt_bytes t) < Suc n"
  shows "reads (DecodeLogicalType (Suc n)) t (lt_bytes t) rest"
proof (cases t)
  case (LogicalType i ti)
  have i: "int_ok i" using assms(2) by (simp add: wf_lt.simps LogicalType)
  show ?thesis
  proof (cases ti)
    case None
    show ?thesis
      unfolding DecodeLogicalType.simps lt_bytes.simps LogicalType LogicalType.sel None option.case
      apply (rule reads_ReadObject)
      apply (rule reads_rbind [OF reads_ReadRequiredField [OF reads_Int [OF i]]])
      apply (rule reads_rbind_last [OF reads_ReadOptionalField_absent reads_rret])
      by (simp add: FieldEnd_def)
  next
    case (Some info)
    have wf: "wf_ti info" and len: "length (ti_bytes info) < n"
      using assms(2,3) by (simp_all add: wf_lt.simps lt_bytes.simps LogicalType Some)
    show ?thesis
      unfolding DecodeLogicalType.simps lt_bytes.simps LogicalType LogicalType.sel Some option.case
      apply (rule reads_ReadObject)
      apply (rule reads_rbind [OF reads_ReadRequiredField [OF reads_Int [OF i]]])
      apply (rule reads_rbind_last [OF reads_ReadOptionalField_present reads_rret])
      apply (rule reads_rbind_last [OF reads_ReadNullable [OF assms(1) [OF wf len]]])
      by (simp add: reads_rret)
  qed
qed

lemma decodeChildTypes_step:
  assumes "\<And>t rest. wf_lt t \<Longrightarrow> length (lt_bytes t) < n \<Longrightarrow> reads (DecodeLogicalType n) t (lt_bytes t) rest"
    and "list_all wf_ct cs" "length (list_bytes ct_bytes cs) < Suc n"
  shows "reads (decodeChildTypes (Suc n)) cs (list_bytes ct_bytes cs) rest"
  unfolding decodeChildTypes.simps sizeof_ChildType_def
proof (rule reads_ReadList)
  fix c and i :: nat and rest assume c: "c \<in> set cs"
  obtain name t where ct: "c = ChildType name t" by (cases c)
  have "wf_lt t" using assms(2) c by (auto simp: list_all_iff ct wf_ct.simps)
  moreover have "length (lt_bytes t) < n"
    using assms(3) length_list_bytes_element [OF c, of ct_bytes] by (simp add: ct ct_bytes.simps)
  ultimately show "reads (ReadObject zeroChildType (rbind (ReadRequiredField 0 [] ReadString) (\<lambda>name.
      rbind (ReadRequiredField 1 zeroLogicalType (DecodeLogicalType n)) (\<lambda>t. rret (ChildType name t)))))
      c (ct_bytes c) rest"
    unfolding ct ct_bytes.simps ChildType.sel
    by (intro reads_ReadObject reads_rbind [OF reads_ReadRequiredField [OF reads_ReadString]]
          reads_rbind_last [OF reads_ReadRequiredField [OF assms(1)] reads_rret])
qed simp_all

text \<open>The payload after the shared prefix (kind, alias, no extension metadata).\<close>

lemma ti_prefix:
  assumes k: "int_ok (Kind info)" and v: "reads (p (Kind info) (GetAlias info)) v (ti_payload info) (object_end @ rest)"
  shows "reads (ReadObject None
     (rbind (ReadRequiredField 100 0 ReadULEB128Int) (\<lambda>kind.
      rbind (ReadOptionalField 101 ReadString []) (\<lambda>alias.
      rbind (ReadOptionalField 103 (rbind (ReadNullable () (rret ())) (\<lambda>_. rret ())) ()) (\<lambda>_.
      p kind alias))))) v (ti_bytes info) rest"
  unfolding ti_bytes.simps
  apply (rule reads_ReadObject)
  apply (rule reads_rbind [OF reads_ReadRequiredField [OF reads_Int [OF k]]])
  apply (rule reads_rbind [OF reads_ReadOptionalField [OF reads_ReadString]])
   apply (simp add: starts_other_payload)
  apply (rule reads_rbind_first [OF reads_ReadOptionalField_absent])
   apply (simp add: starts_other_payload)
  by (rule v)

lemma Kind_ok: "wf_ti info \<Longrightarrow> int_ok (Kind info)"
  by (cases info) (simp_all add: wf_ti.simps int_ok_def MaxInt_def)

text \<open>A decoder of the fields \<open>fs\<close>, each followed by others or by the constructor.\<close>

lemmas reads_fields =
  reads_rbind [OF reads_ReadRequiredField]
  reads_rbind [OF reads_ReadOptionalField_present]
  reads_rbind_last [OF reads_ReadRequiredField]
  reads_rbind_last [OF reads_ReadOptionalField_present]
  reads_rret

lemma reads_unbound_fields:
  assumes "\<And>f. f \<in> {200, 201, 202} \<Longrightarrow> starts_other f rest"
  shows "reads
     (rbind (ReadOptionalField 200 ReadString []) (\<lambda>name.
      rbind (ReadOptionalField 201 ReadString []) (\<lambda>cat.
      rbind (ReadOptionalField 202 ReadString []) (\<lambda>schema.
      rret (Some (UnboundTypeInfo name cat schema alias))))))
     (Some (UnboundTypeInfo name cat schema alias))
     (opt_field (name \<noteq> []) 200 (string_bytes name) @
      opt_field (cat \<noteq> []) 201 (string_bytes cat) @
      opt_field (schema \<noteq> []) 202 (string_bytes schema)) rest"
  apply (rule reads_rbind [OF reads_ReadOptionalField [OF reads_ReadString]])
   apply (simp add: opt_field_def assms)
  apply (rule reads_rbind [OF reads_ReadOptionalField [OF reads_ReadString]])
   apply (simp add: opt_field_def assms)
  apply (rule reads_rbind_last [OF reads_ReadOptionalField [OF reads_ReadString] reads_rret])
  by (simp add: assms)

lemma reads_enum_fields:
  "reads
     (rbind (ReadRequiredField 200 0 ReadULEB128Int) (\<lambda>valuesCount.
      rbind (ReadRequiredField 201 [] (ReadList sizeof_string (\<lambda>_. ReadString))) (\<lambda>values.
      rbind (if int (length values) \<noteq> valuesCount then AssertEOF else rret ()) (\<lambda>_.
      rret (Some (EnumTypeInfo values alias))))))
     (Some (EnumTypeInfo values alias))
     (field 200 (uleb_len (length values)) @ field 201 (list_bytes string_bytes values)) rest"
    (is "reads ?f ?v ?bs rest")
proof (rule reads_bounded)
  assume small: "length ?bs + length rest \<le> maxInput"
  have "length values \<le> maxInput"
    using small length_list_bytes_ge [of "values" string_bytes] by simp
  then show "reads ?f ?v ?bs rest"
    apply (intro reads_rbind [OF reads_ReadRequiredField [OF reads_ReadULEB128Int_len]])
     apply assumption
    apply (rule reads_rbind_last [OF reads_ReadRequiredField])
     apply (rule reads_ReadList [OF _ _ _ reads_ReadString])
    by (simp_all add: sizeof_string_def reads_rbind_first reads_rret)
qed

lemma DecodeExtraTypeInfo_step:
  assumes lt: "\<And>t rest. wf_lt t \<Longrightarrow> length (lt_bytes t) < n \<Longrightarrow> reads (DecodeLogicalType n) t (lt_bytes t) rest"
    and ct: "\<And>cs rest. list_all wf_ct cs \<Longrightarrow> length (list_bytes ct_bytes cs) < n \<Longrightarrow>
      reads (decodeChildTypes n) cs (list_bytes ct_bytes cs) rest"
    and wf: "wf_ti info" and len: "length (ti_bytes info) < Suc n"
  shows "reads (DecodeExtraTypeInfo (Suc n)) (Some info) (ti_bytes info) rest"
proof -
  have short: "length (ti_payload info) < n"
    using length_ti_payload [of info] len by simp
  have args: "reads (ReadList sizeof_LogicalType (\<lambda>_. DecodeLogicalType n)) ts (list_bytes lt_bytes ts) rest'"
    if "list_all wf_lt ts" "length (list_bytes lt_bytes ts) < n" for ts rest'
  proof (rule reads_ReadList)
    fix t and i :: nat and rest assume "t \<in> set ts"
    with that show "reads (DecodeLogicalType n) t (lt_bytes t) rest"
      using length_list_bytes_element [of t ts lt_bytes] by (intro lt) (auto simp: list_all_iff)
  qed (simp_all add: sizeof_LogicalType_def)
  show ?thesis
    unfolding DecodeExtraTypeInfo.simps
    apply (rule ti_prefix [OF Kind_ok [OF wf]])
    using wf short
    apply (cases info; hypsubst; simp only: ti_payload.simps wf_ti.simps Kind.simps GetAlias.simps ExtraTypeInfo.case)
    subgoal by (auto simp: reads_rret)
    subgoal by (simp, (rule reads_fields reads_Int | simp)+)
    subgoal by (simp, (rule reads_fields reads_ReadString | simp)+)
    subgoal by (simp, (rule reads_fields lt | simp)+)
    subgoal by (simp, (rule reads_fields ct | simp)+)
    subgoal by (simp add: reads_enum_fields)
    subgoal by (simp, (rule reads_fields reads_ReadString lt args | simp)+)
    subgoal by (simp, (rule reads_fields lt reads_Int | simp)+)
    subgoal by (simp split: option.splits, (rule reads_fields lt reads_castScore | simp)+)
    subgoal by (simp, (rule reads_fields reads_ReadString | simp)+)
    subgoal by (simp add: reads_rret)
    subgoal by (simp, (rule reads_fields decodeCRS_reads | simp)+)
    subgoal by (simp, rule reads_unbound_fields) (auto simp: FieldEnd_def)
    done
qed

theorem Decode_reads:
  "wf_lt t \<Longrightarrow> length (lt_bytes t) < n \<Longrightarrow> reads (DecodeLogicalType n) t (lt_bytes t) rest"
  "wf_ti info \<Longrightarrow> length (ti_bytes info) < n \<Longrightarrow>
     reads (DecodeExtraTypeInfo n) (Some info) (ti_bytes info) rest"
  "list_all wf_ct cs \<Longrightarrow> length (list_bytes ct_bytes cs) < n \<Longrightarrow>
     reads (decodeChildTypes n) cs (list_bytes ct_bytes cs) rest"
proof (induction n arbitrary: t info cs rest)
  case (Suc n)
  { case 1 then show ?case using Suc.IH(2) by (intro DecodeLogicalType_step) }
  { case 2 then show ?case using Suc.IH(1,3) by (intro DecodeExtraTypeInfo_step) }
  { case 3 then show ?case using Suc.IH(1) by (intro decodeChildTypes_step) }
qed simp_all

section \<open>Fuel is enough, on any input\<close>

lemma fueled_decodeCRS: "fueled n decodeCRS"
  unfolding decodeCRS_def by (intro safe_rules fueled_ReadOptionalField_any) simp

lemma LogicalType_fueled:
  "fueled n (DecodeLogicalType n)" "fueled n (DecodeExtraTypeInfo n)" "fueled n (decodeChildTypes n)"
proof (induction n)
  case 0
  { case 1 show ?case by (simp add: fueled_def) }
  { case 2 show ?case by (simp add: fueled_def) }
  { case 3 show ?case by (simp add: fueled_def) }
next
  case (Suc n)
  { case 1 show ?case
      unfolding DecodeLogicalType.simps
      by (intro safe_rules fueled_ReadRequiredField_any fueled_scalars) (auto split: prod.split intro!: safe_rules Suc.IH) }
  { case 2 show ?case
      unfolding DecodeExtraTypeInfo.simps
      by (intro safe_rules fueled_ReadList_any fueled_decodeCRS Suc.IH) simp_all }
  { case 3 show ?case
      unfolding decodeChildTypes.simps
      by (intro safe_rules fueled_ReadRequiredField_any Suc.IH) }
qed

corollary DecodeLogicalType_returns: "left r < n \<Longrightarrow> sane r \<Longrightarrow> DecodeLogicalType n r \<noteq> OutOfFuel"
  using LogicalType_fueled(1) by (auto simp: fueled_def)

section \<open>The contract of the pair\<close>

interpretation lt: wire_codec "\<lambda>t. wf_lt t \<and> length (lt_bytes t) < n" lt_bytes EncodeLogicalType "DecodeLogicalType n"
  for n
  by unfold_locales (simp_all add: Encode_writes Decode_reads)

end
