(* ===== verification/Validity.thy ===== *)
theory Validity
  imports Prelude
begin

text \<open>
  \<^verbatim>\<open>internal/message/validity.go\<close>: the row bitmaps.  A \<^verbatim>\<open>[]uint64\<close> that may be nil is a
  \<open>64 word list option\<close> (\<open>None\<close> for nil, every row valid).  Counts and rows are Go \<^verbatim>\<open>int\<close>s; an
  index outside the slice panics.

  Lemmas: the operations are a flag store (locale \<open>row_flags\<close>: reads after writes), the two byte
  conversions are inverse, and the all-valid bitmap has exactly the first \<open>count\<close> bits set.
\<close>

type_synonym validity = "64 word list option"

section \<open>Operations\<close>

definition ValidityWordCount :: "int \<Rightarrow> int" where
  "ValidityWordCount count = drop_bit 6 (wrap64 (count + 63))"

definition ValidityWireByteCount :: "int \<Rightarrow> int" where
  "ValidityWireByteCount count = wrap64 (ValidityWordCount count * 8)"

text \<open>The bit of a row inside its word.\<close>

definition row_mask :: "int \<Rightarrow> 64 word" where
  "row_mask row = push_bit (nat (row AND 63)) 1"

definition ValidityIsValid :: "validity \<Rightarrow> int \<Rightarrow> bool outcome" where
  "ValidityIsValid validity row = (case validity of
       None \<Rightarrow> Done True
     | Some ws \<Rightarrow> outcome_bind (index_at ws (drop_bit 6 row)) (\<lambda>w. Done (w AND row_mask row \<noteq> 0)))"

definition ValidityIsNull :: "validity \<Rightarrow> int \<Rightarrow> bool outcome" where
  "ValidityIsNull validity row = outcome_bind (ValidityIsValid validity row) (\<lambda>b. Done (\<not> b))"

text \<open>The inner loop: up to eight bytes from \<open>base\<close>, as many as there are.\<close>

definition validity_word :: "bytes \<Rightarrow> nat \<Rightarrow> 64 word" where
  "validity_word bs base =
     fold (\<lambda>b v. v OR push_bit (b * 8) (ucast (bs ! (base + b)))) [0..<min 8 (length bs - base)] 0"

definition ValidityFromBytes :: "bytes \<Rightarrow> int \<Rightarrow> validity outcome" where
  "ValidityFromBytes bs count = outcome_bind (make_slice 8 (ValidityWordCount count) (0 :: 64 word))
     (\<lambda>out. Done (Some (map (\<lambda>i. validity_word bs (i * 8)) [0..<length out])))"

definition ValidityToBytes :: "validity \<Rightarrow> int \<Rightarrow> bytes outcome" where
  "ValidityToBytes validity count = outcome_bind (make_slice 1 (ValidityWireByteCount count) 0)
     (\<lambda>out. case validity of
        None \<Rightarrow> for_each (\<lambda>i out.
            outcome_bind (index_at out (drop_bit 3 (int i))) (\<lambda>b.
            set_at out (drop_bit 3 (int i)) (b OR push_bit (i mod 8) 1))) [0..<nat count] out
      | Some ws \<Rightarrow> for_each (\<lambda>(i, v). for_each (\<lambda>b out.
            set_at out (int (i * 8 + b)) (ucast (drop_bit (b * 8) v))) [0..<8])
          (enumerate 0 ws) out)"

definition ValidityAllValid :: "int \<Rightarrow> 64 word list outcome" where
  "ValidityAllValid count = outcome_bind (make_slice 8 (ValidityWordCount count) 0) (\<lambda>out.
     let full = drop_bit 6 count; rem = count AND 63 in
     outcome_bind (for_each (\<lambda>i out. set_at out (int i) (NOT 0)) [0..<nat full] out) (\<lambda>out.
     if rem > 0 \<and> full < int (length out) then set_at out full (push_bit (nat rem) 1 - 1)
     else Done out))"

definition ValiditySetValid :: "64 word list \<Rightarrow> int \<Rightarrow> 64 word list outcome" where
  "ValiditySetValid ws row = outcome_bind (index_at ws (drop_bit 6 row)) (\<lambda>w.
     set_at ws (drop_bit 6 row) (w OR row_mask row))"

definition ValiditySetNull :: "64 word list \<Rightarrow> int \<Rightarrow> 64 word list outcome" where
  "ValiditySetNull ws row = outcome_bind (index_at ws (drop_bit 6 row)) (\<lambda>w.
     set_at ws (drop_bit 6 row) (w AND NOT (row_mask row)))"

section \<open>Rows and bits\<close>

lemma row_word: "drop_bit 6 (int row) = int (row div 64)"
  by (simp add: drop_bit_eq_div zdiv_int)

lemma row_mask_nat: "row_mask (int row) = push_bit (row mod 64) 1"
proof -
  have "int row AND 63 = take_bit 6 (int row)"
    using take_bit_eq_mask [of 6 "int row"] by (simp add: mask_eq_exp_minus_1)
  then show ?thesis by (simp add: row_mask_def take_bit_eq_mod nat_mod_distrib)
qed

lemma and_row_mask: "w AND row_mask (int row) \<noteq> 0 \<longleftrightarrow> bit w (row mod 64)"
proof -
  have "w AND push_bit (row mod 64) 1 = (if bit w (row mod 64) then push_bit (row mod 64) 1 else 0)"
    by (rule bit_word_eqI) (auto simp: bit_simps)
  moreover have "bit (push_bit (row mod 64) 1 :: 64 word) (row mod 64)" by (simp add: bit_simps)
  then have "push_bit (row mod 64) 1 \<noteq> (0 :: 64 word)" by fastforce
  ultimately show ?thesis by (simp only: row_mask_nat split: if_split) simp
qed

lemma bit_row_mask: "n < 64 \<Longrightarrow> bit (row_mask (int row)) n \<longleftrightarrow> n = row mod 64"
  by (auto simp: row_mask_nat bit_simps)

lemma ValidityIsValid_bit:
  "row < 64 * length ws \<Longrightarrow> ValidityIsValid (Some ws) (int row) = Done (bit (ws ! (row div 64)) (row mod 64))"
  by (simp add: ValidityIsValid_def row_word less_mult_imp_div_less mult.commute and_row_mask)

lemma ValidityIsNull_bit:
  "row < 64 * length ws \<Longrightarrow> ValidityIsNull (Some ws) (int row) = Done (\<not> bit (ws ! (row div 64)) (row mod 64))"
  by (simp add: ValidityIsNull_def ValidityIsValid_bit)

lemma ValidityIsValid_None [simp]: "ValidityIsValid None row = Done True" "ValidityIsNull None row = Done False"
  by (simp_all add: ValidityIsValid_def ValidityIsNull_def)

lemma WordCount_nat:
  assumes "int count < 2 ^ 62"
  shows "ValidityWordCount (int count) = int ((count + 63) div 64)"
proof -
  have "wrap64 (int count + 63) = int (count + 63)"
    using assms by (simp add: wrap64_id)
  then show ?thesis by (simp add: ValidityWordCount_def drop_bit_eq_div zdiv_int)
qed

lemma WireByteCount_nat:
  assumes "int count < 2 ^ 62"
  shows "ValidityWireByteCount (int count) = int ((count + 63) div 64 * 8)"
  using assms by (simp add: ValidityWireByteCount_def WordCount_nat zdiv_int wrap64_id)

text \<open>Counts for which neither the word count overflows nor the allocation panics.\<close>

definition small_count :: "nat \<Rightarrow> bool" where
  "small_count count \<longleftrightarrow> int count \<le> 2 ^ 40"

lemma make_words: "small_count count \<Longrightarrow>
   make_slice 8 (ValidityWordCount (int count)) z = Done (replicate ((count + 63) div 64) z)"
  by (simp add: small_count_def make_slice_def make_ok_def WordCount_nat maxAlloc_def nat_div_distrib)

lemma make_wire_bytes: "small_count count \<Longrightarrow>
   make_slice 1 (ValidityWireByteCount (int count)) z = Done (replicate ((count + 63) div 64 * 8) z)"
  by (simp add: small_count_def make_slice_def make_ok_def WireByteCount_nat maxAlloc_def nat_mult_distrib nat_div_distrib)

lemma words_hold: "row < count \<Longrightarrow> row div 64 < (count + 63) div 64" "row < count \<Longrightarrow> row < 64 * ((count + 63) div 64)"
  for row count :: nat
  by linarith+

section \<open>The bitmap as a flag store\<close>

text \<open>
  The interface the vector code uses: a store of flags for rows below a bound, with total reads and
  writes there, a write seen at its row and nowhere else.
\<close>

locale row_flags =
  fixes get :: "'s \<Rightarrow> int \<Rightarrow> bool outcome" and clear put :: "'s \<Rightarrow> int \<Rightarrow> 's outcome" and rows :: "'s \<Rightarrow> nat"
  assumes get_total: "row < rows s \<Longrightarrow> \<exists>b. get s (int row) = Done b"
    and clear_ok: "row < rows s \<Longrightarrow> \<exists>s'. clear s (int row) = Done s' \<and> rows s' = rows s
      \<and> get s' (int row) = Done False \<and> (\<forall>r < rows s. r \<noteq> row \<longrightarrow> get s' (int r) = get s (int r))"
    and put_ok: "row < rows s \<Longrightarrow> \<exists>s'. put s (int row) = Done s' \<and> rows s' = rows s
      \<and> get s' (int row) = Done True \<and> (\<forall>r < rows s. r \<noteq> row \<longrightarrow> get s' (int r) = get s (int r))"
begin

text \<open>Clearing a set of rows one by one clears exactly those rows.\<close>

lemma clear_all:
  "\<forall>r \<in> set rs. r < rows s \<Longrightarrow>
   \<exists>s'. for_each (\<lambda>r s. clear s (int r)) rs s = Done s' \<and> rows s' = rows s \<and>
     (\<forall>r < rows s. get s' (int r) = (if r \<in> set rs then Done False else get s (int r)))"
proof (induction rs arbitrary: s)
  case Nil
  then show ?case by simp
next
  case (Cons x xs)
  then obtain t where t: "clear s (int x) = Done t" "rows t = rows s" "get t (int x) = Done False"
      "\<forall>r < rows s. r \<noteq> x \<longrightarrow> get t (int r) = get s (int r)"
    using clear_ok [of x s] by auto
  with Cons.prems obtain u where "for_each (\<lambda>r s. clear s (int r)) xs t = Done u" "rows u = rows t"
      "\<forall>r < rows t. get u (int r) = (if r \<in> set xs then Done False else get t (int r))"
    using Cons.IH [of t] by auto
  with t Cons.prems show ?case by (auto simp: outcome_bind_eq_Done)
qed

lemma put_then_clear:
  assumes "row < rows s" "put s (int row) = Done t" "clear t (int row) = Done u"
  shows "get u (int row) = Done False"
  using put_ok [OF assms(1)] clear_ok [of row t] assms by auto

end

lemma bit_after:
  assumes "row < 64 * length ws" "r < 64 * length ws"
    and "\<And>n. n < 64 \<Longrightarrow> bit w' n = (if n = row mod 64 then b else bit (ws ! (row div 64)) n)"
  shows "bit (ws[row div 64 := w'] ! (r div 64)) (r mod 64)
    = (if r = row then b else bit (ws ! (r div 64)) (r mod 64))"
proof (cases "r div 64 = row div 64")
  case True
  then have "r = row \<longleftrightarrow> r mod 64 = row mod 64"
    by (metis div_mult_mod_eq)
  with True assms show ?thesis by (simp add: less_mult_imp_div_less mult.commute)
qed (use assms in auto)

interpretation bitmap: row_flags "\<lambda>ws. ValidityIsValid (Some ws)" ValiditySetNull ValiditySetValid "\<lambda>ws. 64 * length ws"
proof
  fix row and ws :: "64 word list" assume row: "row < 64 * length ws"
  then have i: "row div 64 < length ws" by (simp add: less_mult_imp_div_less mult.commute)
  show "\<exists>b. ValidityIsValid (Some ws) (int row) = Done b"
    using row by (simp add: ValidityIsValid_bit)
  have clear: "bit ((ws ! (row div 64)) AND NOT (row_mask (int row))) n
      = (if n = row mod 64 then False else bit (ws ! (row div 64)) n)" if "n < 64" for n
    using that by (simp add: bit_simps bit_row_mask)
  have put: "bit ((ws ! (row div 64)) OR row_mask (int row)) n
      = (if n = row mod 64 then True else bit (ws ! (row div 64)) n)" if "n < 64" for n
    using that by (simp add: bit_simps bit_row_mask)
  show "\<exists>s'. ValiditySetNull ws (int row) = Done s' \<and> 64 * length s' = 64 * length ws \<and>
      ValidityIsValid (Some s') (int row) = Done False \<and>
      (\<forall>r < 64 * length ws. r \<noteq> row \<longrightarrow> ValidityIsValid (Some s') (int r) = ValidityIsValid (Some ws) (int r))"
    using row i bit_after [OF row _ clear] clear [of "row mod 64"] by (simp add: ValiditySetNull_def row_word ValidityIsValid_bit)
  show "\<exists>s'. ValiditySetValid ws (int row) = Done s' \<and> 64 * length s' = 64 * length ws \<and>
      ValidityIsValid (Some s') (int row) = Done True \<and>
      (\<forall>r < 64 * length ws. r \<noteq> row \<longrightarrow> ValidityIsValid (Some s') (int r) = ValidityIsValid (Some ws) (int r))"
    using row i bit_after [OF row _ put] put [of "row mod 64"] by (simp add: ValiditySetValid_def row_word ValidityIsValid_bit)
qed

section \<open>All rows valid\<close>

lemma for_each_set_at:
  "n \<le> length out \<Longrightarrow> for_each (\<lambda>i out. set_at out (int i) v) [0..<n] out = Done (replicate n v @ drop n out)"
proof (induction n)
  case (Suc n)
  then have "(replicate n v @ drop n out)[n := v] = replicate (Suc n) v @ drop (Suc n) out"
    by (simp add: list_update_append Cons_nth_drop_Suc [symmetric] replicate_append_same [symmetric])
  with Suc show ?case by (simp add: for_each_append)
qed simp

lemma rem_64: "int count AND 63 = int (count mod 64)"
proof -
  have "int count AND 63 = take_bit 6 (int count)"
    using take_bit_eq_mask [of 6 "int count"] by (simp add: mask_eq_exp_minus_1)
  then show ?thesis by (simp add: take_bit_eq_mod zmod_int)
qed

definition all_valid_words :: "nat \<Rightarrow> 64 word list" where
  "all_valid_words count = map (\<lambda>i. if i < count div 64 then NOT 0 else mask (count mod 64)) [0..<(count + 63) div 64]"

lemma words_of_count: "(count + 63) div 64 = (if count mod 64 = 0 then count div 64 else Suc (count div 64))"
  for count :: nat
proof (rule div_nat_eqI)
  define d m where "d = count div 64" and "m = count mod 64"
  have "count = 64 * d + m" "m < 64" by (simp_all add: d_def m_def)
  then show "64 * (if count mod 64 = 0 then count div 64 else Suc (count div 64)) \<le> count + 63"
    and "count + 63 < 64 * Suc (if count mod 64 = 0 then count div 64 else Suc (count div 64))"
    unfolding d_def [symmetric] m_def [symmetric] by (simp_all split: if_split)
qed

lemma AllValid_words:
  assumes "small_count count"
  shows "ValidityAllValid (int count) = Done (all_valid_words count)"
proof -
  let ?w = "(count + 63) div 64" and ?full = "count div 64" and ?rem = "count mod 64"
  have w: "?w = (if ?rem = 0 then ?full else Suc ?full)"
    by (rule words_of_count)
  have loop: "for_each (\<lambda>i out. set_at out (int i) (NOT 0)) [0..<?full] (replicate ?w 0)
      = Done (replicate ?full (NOT 0) @ replicate (?w - ?full) (0 :: 64 word))"
    by (subst for_each_set_at) (auto simp: w)
  have words: "all_valid_words count = replicate ?full (NOT 0) @ replicate (?w - ?full) (mask ?rem)"
    unfolding all_valid_words_def w by (rule nth_equalityI) (auto simp: nth_append)
  show ?thesis
    unfolding ValidityAllValid_def make_words [OF assms] row_word rem_64 words outcome_bind.simps Let_def nat_int loop
    by (auto simp: w set_at_def mask_eq_exp_minus_1 list_update_append)
qed

lemma length_all_valid_words [simp]: "length (all_valid_words count) = (count + 63) div 64"
  by (simp add: all_valid_words_def)

lemma AllValid_bits:
  assumes "r < 64 * ((count + 63) div 64)"
  shows "bit (all_valid_words count ! (r div 64)) (r mod 64) \<longleftrightarrow> r < count"
proof -
  have "r div 64 < (count + 63) div 64" using assms by linarith
  moreover have "r < count" if "r div 64 < count div 64" using that by linarith
  moreover have "r < count \<longleftrightarrow> r mod 64 < count mod 64" if "\<not> r div 64 < count div 64"
  proof -
    have "r div 64 < (count + 63) div 64" using assms by linarith
    then have "r div 64 = count div 64"
      using that unfolding words_of_count by (simp split: if_splits)
    then show ?thesis using div_mult_mod_eq [of r 64] div_mult_mod_eq [of count 64] by linarith
  qed
  ultimately show ?thesis by (auto simp: all_valid_words_def bit_simps)
qed

section \<open>The wire form\<close>

definition words_to_bytes :: "64 word list \<Rightarrow> bytes" where
  "words_to_bytes ws = concat (map (le_bytes 8) ws)"

lemma length_words_to_bytes [simp]: "length (words_to_bytes ws) = 8 * length ws"
  by (induction ws) (simp_all add: words_to_bytes_def)

lemma le_bytes_8: "le_bytes 8 (v :: 64 word) = map (\<lambda>b. ucast (drop_bit (b * 8) v)) [0..<8]"
  by (simp add: numeral_eq_Suc upt_rec)

lemma nth_words_to_bytes:
  "j < 8 * length ws \<Longrightarrow> words_to_bytes ws ! j = ucast (drop_bit (j mod 8 * 8) (ws ! (j div 8)))"
proof (induction ws arbitrary: j)
  case (Cons w ws)
  have split: "words_to_bytes (w # ws) = le_bytes 8 w @ words_to_bytes ws" by (simp add: words_to_bytes_def)
  show ?case
  proof (cases "j < 8")
    case True
    then show ?thesis by (simp add: split nth_append le_bytes_8)
  next
    case False
    then have "j div 8 = Suc ((j - 8) div 8)" "j mod 8 = (j - 8) mod 8"
      by (simp_all add: le_div_geq le_mod_geq)
    then show ?thesis using False Cons by (simp add: split nth_append)
  qed
qed simp

lemma set_segment:
  "k + length xs \<le> length out \<Longrightarrow>
   for_each (\<lambda>b out. set_at out (int (k + b)) (xs ! b)) [0..<length xs] out
     = Done (take k out @ xs @ drop (k + length xs) out)"
proof (induction xs rule: rev_induct)
  case (snoc x xs)
  have same: "for_each (\<lambda>b out. set_at out (int (k + b)) ((xs @ [x]) ! b)) [0..<length xs] out
      = for_each (\<lambda>b out. set_at out (int (k + b)) (xs ! b)) [0..<length xs] out"
    by (rule for_each_cong) (auto simp: nth_append)
  have upd: "(take k out @ xs @ drop (k + length xs) out)[k + length xs := x]
      = take k out @ (xs @ [x]) @ drop (k + length (xs @ [x])) out"
    using snoc.prems by (simp add: list_update_append Cons_nth_drop_Suc [symmetric] del: add_Suc_right) simp
  have "for_each (\<lambda>b out. set_at out (int (k + b)) ((xs @ [x]) ! b)) [0..<length (xs @ [x])] out
      = outcome_bind (for_each (\<lambda>b out. set_at out (int (k + b)) (xs ! b)) [0..<length xs] out)
          (\<lambda>out. set_at out (int (k + length xs)) x)"
    by (simp only: length_append_singleton upt_Suc_append [OF le0] for_each_append same)
       (rule outcome_bind_cong, simp_all add: nth_append)
  also have "\<dots> = set_at (take k out @ xs @ drop (k + length xs) out) (int (k + length xs)) x"
    using snoc by simp
  also have "\<dots> = Done (take k out @ (xs @ [x]) @ drop (k + length (xs @ [x])) out)"
    using snoc.prems unfolding upd [symmetric] by (intro set_at_nat) simp
  finally show ?case .
qed simp

lemma put_word:
  "i * 8 + 8 \<le> length out \<Longrightarrow>
   for_each (\<lambda>b out. set_at out (int (i * 8 + b)) (ucast (drop_bit (b * 8) v))) [0..<8] out
     = Done (take (i * 8) out @ le_bytes 8 (v :: 64 word) @ drop (i * 8 + 8) out)"
proof -
  assume "i * 8 + 8 \<le> length out"
  then have "for_each (\<lambda>b out. set_at out (int (i * 8 + b)) (le_bytes 8 v ! b)) [0..<8] out
     = Done (take (i * 8) out @ le_bytes 8 v @ drop (i * 8 + 8) out)"
    using set_segment [of "i * 8" "le_bytes 8 v" out] by simp
  moreover have "for_each (\<lambda>b out. set_at out (int (i * 8 + b)) (ucast (drop_bit (b * 8) v))) [0..<8] out
      = for_each (\<lambda>b out. set_at out (int (i * 8 + b)) (le_bytes 8 v ! b)) [0..<8] out"
    by (rule for_each_cong) (auto simp: le_bytes_8)
  ultimately show ?thesis by simp
qed

lemma put_words:
  "8 * length ws \<le> length out \<Longrightarrow>
   for_each (\<lambda>(i, v). for_each (\<lambda>b out. set_at out (int (i * 8 + b)) (ucast (drop_bit (b * 8) v))) [0..<8])
     (enumerate 0 ws) out = Done (words_to_bytes ws @ drop (8 * length ws) out)"
proof (induction ws rule: rev_induct)
  case (snoc w ws)
  then show ?case
    using put_word [of "length ws" "words_to_bytes ws @ drop (8 * length ws) out" w]
    by (simp add: enumerate_append_eq for_each_append words_to_bytes_def [of "ws @ [w]"] words_to_bytes_def [of ws, symmetric] mult.commute)
qed (simp add: words_to_bytes_def)

lemma ToBytes_words:
  assumes "small_count count" "length ws = (count + 63) div 64"
  shows "ValidityToBytes (Some ws) (int count) = Done (words_to_bytes ws)"
  unfolding ValidityToBytes_def make_wire_bytes [OF assms(1)]
  using assms(2) by (simp add: put_words [simplified])

lemma bit_validity_word:
  assumes "base + 8 \<le> length bs" "n < 64"
  shows "bit (validity_word bs base) n \<longleftrightarrow> bit (bs ! (base + n div 8)) (n mod 8)"
proof -
  have "bit (fold (\<lambda>b v. v OR push_bit (b * 8) (ucast (bs ! (base + b)))) [0..<k] (0 :: 64 word)) n
      \<longleftrightarrow> n < 8 * k \<and> bit (bs ! (base + n div 8)) (n mod 8)" for k
  proof (induction k)
    case (Suc k)
    have "n div 8 = k \<and> n mod 8 = n - k * 8" if "8 * k \<le> n" "n < 8 * Suc k"
    proof -
      have "n div 8 = k" using that by (intro div_nat_eqI) simp_all
      then show ?thesis by (simp add: modulo_nat_def)
    qed
    moreover have "\<not> bit (bs ! (base + k)) (n - k * 8)" if "8 * Suc k \<le> n"
      using that by (auto dest: bit_imp_le_length)
    ultimately show ?case using Suc assms(2)
      by (cases "n < 8 * k"; cases "n < 8 * Suc k") (auto simp: bit_simps mult.commute)
  qed simp
  from this [of 8] show ?thesis
    using assms by (simp add: validity_word_def min_absorb1)
qed

lemma validity_word_words_to_bytes:
  assumes "i < length ws"
  shows "validity_word (words_to_bytes ws) (i * 8) = ws ! i"
proof (rule bit_word_eqI)
  fix n assume "n < LENGTH(64)"
  then have n: "n < 64" "n div 8 < 8" by auto
  have "bit (validity_word (words_to_bytes ws) (i * 8)) n
      \<longleftrightarrow> bit (words_to_bytes ws ! (i * 8 + n div 8)) (n mod 8)"
    using assms n by (intro bit_validity_word) simp_all
  also have "\<dots> \<longleftrightarrow> bit (ws ! i) n"
    using assms n by (simp add: nth_words_to_bytes bit_simps mult.commute)
  finally show "bit (validity_word (words_to_bytes ws) (i * 8)) n \<longleftrightarrow> bit (ws ! i) n" .
qed

lemma FromBytes_words_to_bytes:
  assumes "small_count count" "length ws = (count + 63) div 64"
  shows "ValidityFromBytes (words_to_bytes ws) (int count) = Done (Some ws)"
  using assms(2)
  by (auto simp: ValidityFromBytes_def make_words [OF assms(1)] intro!: nth_equalityI validity_word_words_to_bytes)

text \<open>A nil bitmap is sent as the all-valid one.\<close>

lemma set_ones:
  "c \<le> 8 * length out \<Longrightarrow> (\<forall>j < length out. out ! j = 0) \<Longrightarrow>
   \<exists>out'. for_each (\<lambda>i out. outcome_bind (index_at out (drop_bit 3 (int i))) (\<lambda>b.
        set_at out (drop_bit 3 (int i)) (b OR push_bit (i mod 8) 1))) [0..<c] out = Done out'
     \<and> length out' = length out
     \<and> (\<forall>j < length out. \<forall>n < 8. bit (out' ! j :: 8 word) n \<longleftrightarrow> 8 * j + n < c)"
proof (induction c)
  case (Suc c)
  then obtain out' where out': "for_each (\<lambda>i out. outcome_bind (index_at out (drop_bit 3 (int i))) (\<lambda>b.
        set_at out (drop_bit 3 (int i)) (b OR push_bit (i mod 8) 1))) [0..<c] out = Done out'"
      "length out' = length out"
      and bits: "\<forall>j < length out. \<forall>n < 8. bit (out' ! j) n \<longleftrightarrow> 8 * j + n < c"
    by auto
  have i: "drop_bit 3 (int c) = int (c div 8)" by (simp add: drop_bit_eq_div zdiv_int)
  have c: "c div 8 < length out'" using Suc.prems out'(2) by linarith
  have "bit (out'[c div 8 := out' ! (c div 8) OR push_bit (c mod 8) 1] ! j) n \<longleftrightarrow> 8 * j + n < Suc c"
    if j: "j < length out" "n < 8" for j n
  proof (cases "j = c div 8")
    case True
    then have "n = c mod 8 \<longleftrightarrow> 8 * j + n = c"
      using div_mult_mod_eq [of c 8] by linarith
    with True j c bits show ?thesis by (auto simp: bit_simps less_Suc_eq)
  next
    case False
    then have "8 * j + n \<noteq> c" using j(2) by auto
    with False j bits show ?thesis by (auto simp: less_Suc_eq)
  qed
  then show ?case using out' c i by (simp add: for_each_append)
qed simp

lemma ToBytes_None:
  assumes "small_count count"
  shows "ValidityToBytes None (int count) = ValidityToBytes (Some (all_valid_words count)) (int count)"
proof -
  let ?n = "(count + 63) div 64"
  have "count \<le> 8 * length (replicate (?n * 8) (0 :: 8 word))" by simp
  then obtain out where out: "ValidityToBytes None (int count) = Done out" "length out = ?n * 8"
      and bits: "\<forall>j < ?n * 8. \<forall>n < 8. bit (out ! j) n \<longleftrightarrow> 8 * j + n < count"
    using set_ones [of count "replicate (?n * 8) 0"]
    unfolding ValidityToBytes_def make_wire_bytes [OF assms] by auto
  have "out = words_to_bytes (all_valid_words count)"
  proof (rule nth_equalityI)
    fix j assume j: "j < length out"
    show "out ! j = words_to_bytes (all_valid_words count) ! j"
    proof (rule bit_word_eqI)
      fix n assume "n < LENGTH(8)"
      then have n: "n < 8" by simp
      have d: "(8 * j + n) div 64 = j div 8"
        using n by (intro div_nat_eqI) simp_all
      then have r: "(8 * j + n) div 64 = j div 8" "(8 * j + n) mod 64 = 8 * (j mod 8) + n"
        using div_mult_mod_eq [of "8 * j + n" 64] div_mult_mod_eq [of j 8] by linarith+
      have "bit (words_to_bytes (all_valid_words count) ! j) n
          = bit (all_valid_words count ! ((8 * j + n) div 64)) ((8 * j + n) mod 64)"
        unfolding r using j n out(2) by (simp add: nth_words_to_bytes bit_simps mult.commute)
      also have "\<dots> \<longleftrightarrow> 8 * j + n < count"
        using j n out(2) by (intro AllValid_bits) linarith
      finally show "bit (out ! j) n = bit (words_to_bytes (all_valid_words count) ! j) n"
        using bits j n out(2) by simp
    qed
  qed (simp add: out(2))
  then show ?thesis by (simp add: out ToBytes_words [OF assms])
qed

end
