(* ===== verification/GoFloat.thy ===== *)
theory GoFloat
  imports Prelude Complex_Main
begin

text \<open>
  The floating-point conversions of Go that the vector codec uses: \<^verbatim>\<open>float64(x)\<close> of a \<^verbatim>\<open>float32\<close> or an
  integer, \<^verbatim>\<open>float32(x)\<close> of a \<^verbatim>\<open>float64\<close>, \<^verbatim>\<open>int64(x)\<close> of a float.  A float is its IEEE 754 bit pattern; its
  value is a rational; conversions round to nearest, ties to even.  For the results the language leaves
  to the implementation (\<^verbatim>\<open>int64\<close> of a value that does not fit, the payload of a converted NaN) the model
  takes what amd64 does.

  Lemmas: every finite \<^verbatim>\<open>float32\<close> and every infinity survives widening and narrowing; integers up to
  \<open>2 ^ 53\<close> are exact.
\<close>

section \<open>Rounding\<close>

fun bitlen :: "nat \<Rightarrow> nat" where
  "bitlen n = (if n = 0 then 0 else Suc (bitlen (n div 2)))"

declare bitlen.simps [simp del]

text \<open>The binary exponent of a positive rational.\<close>

definition flog2 :: "rat \<Rightarrow> int" where
  "flog2 x = (let (n, d) = quotient_of x; c = int (bitlen (nat n)) - int (bitlen (nat d))
              in if 2 powi c \<le> x then c else c - 1)"

text \<open>The nearest integer, ties to even.\<close>

definition rne :: "rat \<Rightarrow> int" where
  "rne x = (let f = \<lfloor>x\<rfloor>; r = x - of_int f
            in if r < 1/2 then f else if 1/2 < r then f + 1 else if even f then f else f + 1)"

text \<open>
  A format has \<open>mb\<close> mantissa bits and the least normal exponent \<open>emin\<close>; \<open>infp\<close> is the pattern of its
  infinity.  The pattern of a non-negative value, and the value of a finite pattern, without the sign:
  the significand with its hidden bit is added to the shifted exponent, so that rounding up carries.
\<close>

definition float_pattern :: "nat \<Rightarrow> int \<Rightarrow> nat \<Rightarrow> rat \<Rightarrow> nat" where
  "float_pattern mb emin infp x = (if x = 0 then 0 else
     let e = max (flog2 x) emin
     in min infp (nat ((e - emin) * 2 ^ mb + rne (x * 2 powi (int mb - e)))))"

definition float_value :: "nat \<Rightarrow> int \<Rightarrow> nat \<Rightarrow> rat" where
  "float_value mb emin n = (let e = n div 2 ^ mb; f = n mod 2 ^ mb in
     if e = 0 then of_nat f * 2 powi (emin - int mb)
     else of_nat (2 ^ mb + f) * 2 powi (int e - 1 + emin - int mb))"

definition inf64 :: nat where "inf64 = 2047 * 2 ^ 52"
definition inf32 :: nat where "inf32 = 255 * 2 ^ 23"

abbreviation pattern64 :: "rat \<Rightarrow> nat" where "pattern64 \<equiv> float_pattern 52 (- 1022) inf64"
abbreviation pattern32 :: "rat \<Rightarrow> nat" where "pattern32 \<equiv> float_pattern 23 (- 126) inf32"
abbreviation value64 :: "nat \<Rightarrow> rat" where "value64 \<equiv> float_value 52 (- 1022)"
abbreviation value32 :: "nat \<Rightarrow> rat" where "value32 \<equiv> float_value 23 (- 126)"

section \<open>Conversions\<close>

definition with_sign :: "nat \<Rightarrow> bool \<Rightarrow> nat \<Rightarrow> 'a::len word" where
  "with_sign k s n = (if s then push_bit k 1 else 0) OR of_nat n"

definition magnitude :: "nat \<Rightarrow> 'a::len word \<Rightarrow> nat" where
  "magnitude k w = unat (take_bit k w)"

definition float64_of_float32 :: "32 word \<Rightarrow> 64 word" where
  "float64_of_float32 w = (let n = magnitude 31 w in
     with_sign 63 (bit w 31)
       (if n < inf32 then pattern64 (value32 n)
        else if n = inf32 then inf64
        else inf64 + (if (n - inf32) < 2 ^ 22 then 2 ^ 51 else 0) + (n - inf32) * 2 ^ 29))"

definition float32_of_float64 :: "64 word \<Rightarrow> 32 word" where
  "float32_of_float64 w = (let n = magnitude 63 w in
     with_sign 31 (bit w 63)
       (if n < inf64 then pattern32 (value64 n)
        else if n = inf64 then inf32
        else let p = (n - inf64) div 2 ^ 29
             in inf32 + (if p < 2 ^ 22 then 2 ^ 22 else 0) + p))"

definition float64_of_int :: "int \<Rightarrow> 64 word" where
  "float64_of_int i = with_sign 63 (i < 0) (pattern64 (of_int \<bar>i\<bar>))"

definition int64_of_float64 :: "64 word \<Rightarrow> 64 word" where
  "int64_of_float64 w = (let n = magnitude 63 w in
     if inf64 \<le> n then push_bit 63 1
     else let i = (if bit w 63 then - \<lfloor>value64 n\<rfloor> else \<lfloor>value64 n\<rfloor>)
          in if - (2 ^ 63) \<le> i \<and> i < 2 ^ 63 then word_of_int i else push_bit 63 1)"

text \<open>The result of a \<^verbatim>\<open>float64\<close> operation whose exact result is the rational \<open>x\<close> (in the normal range).\<close>

definition round64 :: "rat \<Rightarrow> rat" where
  "round64 x = (if x < 0 then - value64 (pattern64 (- x)) else value64 (pattern64 x))"

section \<open>Exactness\<close>

lemma bitlen_bounds: "0 < n \<Longrightarrow> 2 ^ (bitlen n - 1) \<le> n \<and> n < 2 ^ bitlen n"
proof (induction n rule: bitlen.induct)
  case (1 n)
  show ?case
  proof (cases "n = 1")
    case True
    then show ?thesis by (simp add: bitlen.simps)
  next
    case False
    with 1 have half: "0 < n div 2" by linarith
    then have "bitlen (n div 2) \<noteq> 0" by (simp add: bitlen.simps)
    then obtain k where k: "bitlen (n div 2) = Suc k" by (cases "bitlen (n div 2)") auto
    have "2 ^ k \<le> n div 2" "n div 2 < 2 ^ Suc k" using 1 half k by simp_all
    then have "2 * 2 ^ k \<le> n" "n < 2 * 2 ^ Suc k" by linarith+
    then show ?thesis using 1 k by (simp add: bitlen.simps [of n])
  qed
qed

lemma flog2_bounds:
  assumes "0 < x"
  shows "2 powi flog2 x \<le> x \<and> x < 2 powi (flog2 x + 1)"
proof -
  obtain n d where q: "quotient_of x = (n, d)" by (cases "quotient_of x")
  then have x: "x = of_int n / of_int d" and d: "0 < d"
    by (simp_all add: quotient_of_div quotient_of_denom_pos)
  have n: "0 < n" using assms x d by (simp add: zero_less_divide_iff)
  define a b where "a = bitlen (nat n)" and "b = bitlen (nat d)"
  have pos: "0 < a" "0 < b" using n d by (simp_all add: a_def b_def bitlen.simps)
  have na: "2 ^ (a - 1) \<le> n" "n < 2 ^ a"
    using bitlen_bounds [of "nat n"] n by (simp_all add: a_def [symmetric] nat_less_iff le_nat_iff)
  have db: "2 ^ (b - 1) \<le> d" "d < 2 ^ b"
    using bitlen_bounds [of "nat d"] d by (simp_all add: b_def [symmetric] nat_less_iff le_nat_iff)
  have rn: "(2::rat) ^ (a - 1) \<le> of_int n" "(of_int n :: rat) < 2 ^ a"
    and rd: "(2::rat) ^ (b - 1) \<le> of_int d" "(of_int d :: rat) < 2 ^ b"
    using na db by (metis of_int_le_iff of_int_less_iff of_int_numeral of_int_power)+
  have "x < 2 ^ a / 2 ^ (b - 1)" unfolding x
    by (rule frac_less) (use rn rd d n in simp_all)
  also have "(2::rat) ^ a / 2 ^ (b - 1) = 2 powi (int a - int (b - 1))"
    by (subst power_int_diff) simp_all
  also have "int a - int (b - 1) = int a - int b + 1" using pos by simp
  finally have up: "x < 2 powi (int a - int b + 1)" .
  have "int a - int b - 1 = int (a - 1) - int b" using pos by simp
  then have "2 powi (int a - int b - 1) = (2::rat) powi (int (a - 1) - int b)" by (rule arg_cong)
  also have "\<dots> = (2::rat) ^ (a - 1) / 2 ^ b"
    by (subst power_int_diff) simp_all
  also have "\<dots> < x" unfolding x
    by (rule frac_less2) (use rn rd d n in simp_all)
  finally have low: "2 powi (int a - int b - 1) < x" .
  show ?thesis
    using up low by (auto simp: flog2_def q a_def [symmetric] b_def [symmetric] Let_def)
qed

lemma flog2_eqI:
  assumes "2 powi k \<le> x" "x < 2 powi (k + 1)"
  shows "flog2 x = k"
proof -
  have "0 < x" using assms(1) by (meson less_le_trans zero_less_numeral zero_less_power_int)
  note b = flog2_bounds [OF this]
  have "2 powi k < (2::rat) powi (flog2 x + 1)" "(2::rat) powi flog2 x < 2 powi (k + 1)"
    using assms b by linarith+
  then have "\<not> flog2 x + 1 \<le> k" "\<not> k + 1 \<le> flog2 x"
    using power_int_increasing [of "flog2 x + 1" k "2::rat"] power_int_increasing [of "k + 1" "flog2 x" "2::rat"]
    by linarith+
  then show ?thesis by simp
qed

lemma rne_of_int [simp]: "rne (of_int i) = i"
  by (simp add: rne_def)

lemma rne_of_nat [simp]: "rne (of_nat n) = int n"
  using rne_of_int [of "int n"] by simp

lemma powi_pos [simp]: "0 < (2::rat) powi k"
  by (simp add: zero_less_power_int)

lemma powi_shift: "j + k = 0 \<Longrightarrow> of_nat m * 2 powi j * 2 powi k = (of_nat m :: rat)"
  by (simp add: mult.assoc flip: power_int_add)

lemma powi_le_nat: "2 powi int k \<le> (of_nat m :: rat) \<longleftrightarrow> 2 ^ k \<le> m" "(of_nat m :: rat) < 2 powi int k \<longleftrightarrow> m < 2 ^ k"
proof -
  have "(2 :: rat) powi int k = of_nat (2 ^ k)" by simp
  then show "2 powi int k \<le> (of_nat m :: rat) \<longleftrightarrow> 2 ^ k \<le> m" "(of_nat m :: rat) < 2 powi int k \<longleftrightarrow> m < 2 ^ k"
    by (simp_all only: of_nat_le_iff of_nat_less_iff)
qed

text \<open>The exponent of a scaled significand.\<close>

lemma flog2_scaled:
  assumes "2 ^ k \<le> m" "m < 2 ^ Suc k"
  shows "flog2 (of_nat m * 2 powi j) = int k + j"
proof (rule flog2_eqI)
  have "(2::rat) powi int k * 2 powi j \<le> of_nat m * 2 powi j"
    using assms(1) powi_le_nat(1) [of k m] by (intro mult_right_mono) simp_all
  then show "(2::rat) powi (int k + j) \<le> of_nat m * 2 powi j" by (simp add: power_int_add)
  have "of_nat m * 2 powi j < (2::rat) powi int (Suc k) * 2 powi j"
    using assms(2) powi_le_nat(2) [of m "Suc k"] by (intro mult_strict_right_mono) simp_all
  then show "of_nat m * 2 powi j < (2::rat) powi (int k + j + 1)"
    by (simp add: power_int_add algebra_simps)
qed

lemma flog2_scaled_less:
  assumes "0 < m" "m < 2 ^ k"
  shows "flog2 (of_nat m * 2 powi j) < int k + j" "j \<le> flog2 (of_nat m * 2 powi j)"
proof -
  obtain b where b: "2 ^ b \<le> m" "m < 2 ^ Suc b"
    using bitlen_bounds [OF assms(1)] assms(1) by (cases "bitlen m") (auto simp: bitlen.simps)
  then have "(2::nat) ^ b < 2 ^ k" using assms(2) by linarith
  then have "b < k" by (simp add: power_strict_increasing_iff)
  then show "flog2 (of_nat m * 2 powi j) < int k + j" "j \<le> flog2 (of_nat m * 2 powi j)"
    using flog2_scaled [OF b] by simp_all
qed

lemma float_value_0 [simp]: "float_value mb emin 0 = 0" "float_pattern mb emin infp 0 = 0"
  by (simp_all add: float_value_def float_pattern_def)

text \<open>A pattern is the pattern of its value.\<close>

lemma pattern_value:
  assumes "n < infp"
  shows "float_pattern mb emin infp (float_value mb emin n) = n"
proof (cases "n div 2 ^ mb")
  case 0
  then have n: "n < 2 ^ mb" by (simp add: div_eq_0_iff)
  then have v: "float_value mb emin n = of_nat n * 2 powi (emin - int mb)"
    using 0 by (simp add: float_value_def)
  show ?thesis
  proof (cases "n = 0")
    case False
    then have "flog2 (of_nat n * 2 powi (emin - int mb)) < emin"
      using flog2_scaled_less(1) [of n mb "emin - int mb"] n by simp
    then have "max (flog2 (of_nat n * 2 powi (emin - int mb))) emin = emin" by simp
    then show ?thesis
      using False assms by (simp add: v float_pattern_def powi_shift)
  qed simp
next
  case (Suc e)
  define f where "f = n mod 2 ^ mb"
  have f: "f < 2 ^ mb" and n: "n = Suc e * 2 ^ mb + f"
    using div_mult_mod_eq [of n "2 ^ mb"] by (simp_all add: f_def Suc)
  have v: "float_value mb emin n = of_nat (2 ^ mb + f) * 2 powi (int e + emin - int mb)"
    by (simp add: float_value_def Suc f_def)
  have "flog2 (of_nat (2 ^ mb + f) * 2 powi (int e + emin - int mb)) = int e + emin"
    using f by (subst flog2_scaled [of mb]) simp_all
  then have e: "max (flog2 (float_value mb emin n)) emin = int e + emin" by (simp add: v)
  have "float_value mb emin n \<noteq> 0" by (simp add: v add_eq_0_iff_both_eq_0 flip: of_nat_add)
  moreover have "rne (float_value mb emin n * 2 powi (int mb - (int e + emin))) = int (2 ^ mb + f)"
    unfolding v by (subst powi_shift, simp, simp only: rne_of_nat)
  moreover have "nat (int e * 2 ^ mb + int (2 ^ mb + f)) = n"
    by (simp add: n nat_add_distrib nat_mult_distrib nat_power_eq)
  ultimately show ?thesis
    using assms by (simp add: float_pattern_def e Let_def del: of_nat_add)
qed

text \<open>A value whose significand fits is exact in the format.\<close>

lemma value_pattern:
  assumes m: "0 < m" and x: "x = of_nat m * 2 powi (e - int mb)" and e: "e = max (flog2 x) emin"
    and fits: "nat ((e - emin) * 2 ^ mb + int m) < infp"
  shows "float_value mb emin (float_pattern mb emin infp x) = x"
proof -
  have "x \<noteq> 0" using m by (simp add: x)
  moreover have "rne (x * 2 powi (int mb - e)) = int m"
    unfolding x by (subst powi_shift) simp_all
  ultimately have p: "float_pattern mb emin infp x = nat ((e - emin) * 2 ^ mb + int m)"
    using fits by (simp add: float_pattern_def e [symmetric] Let_def)
  obtain b where b: "2 ^ b \<le> m" "m < 2 ^ Suc b"
    using bitlen_bounds [OF m] m by (cases "bitlen m") (auto simp: bitlen.simps)
  have fl: "flog2 x = int b + e - int mb" using flog2_scaled [OF b] by (simp add: x)
  show ?thesis
  proof (cases "b = mb")
    case True
    define d where "d = nat (e - emin)"
    have d: "e = emin + int d" using e by (simp add: d_def)
    have n: "float_pattern mb emin infp x = Suc d * 2 ^ mb + (m - 2 ^ mb)"
      using b(1) True by (simp add: p d nat_add_distrib nat_mult_distrib nat_power_eq)
    have "m - 2 ^ mb < 2 ^ mb" using b True by simp
    then have "float_pattern mb emin infp x div 2 ^ mb = Suc d"
        "float_pattern mb emin infp x mod 2 ^ mb = m - 2 ^ mb"
      unfolding n by (simp_all del: mult_Suc)
    then show ?thesis using b(1) True by (simp add: float_value_def Let_def x d add.commute)
  next
    case False
    then have "flog2 x \<noteq> e" using fl by auto
    then have "flog2 x < emin" and ee: "e = emin" using e by auto
    then have "b < mb" using fl by simp
    then have "(2::nat) ^ Suc b \<le> 2 ^ mb" by (intro power_increasing) simp_all
    then have "m < 2 ^ mb" using b(2) by linarith
    moreover have "float_pattern mb emin infp x = m" by (simp add: p ee)
    ultimately show ?thesis by (simp add: float_value_def) (simp add: x ee)
  qed
qed

lemma float32_value:
  assumes "n < inf32" "value32 n \<noteq> 0"
  obtains m j where "0 < m" "m < 2 ^ 24" "value32 n = of_nat m * 2 powi j" "- 149 \<le> j" "j \<le> 104"
proof (cases "n div 2 ^ 23 = 0")
  case True
  show ?thesis
  proof (rule that)
    show "value32 n = of_nat (n mod 2 ^ 23) * 2 powi (- 149)"
      using True by (simp add: float_value_def)
    with assms(2) show "0 < n mod 2 ^ 23" by (simp only:) (rule gr0I, simp)
    have "n mod 2 ^ 23 < 2 ^ 23" by simp
    then show "n mod 2 ^ 23 < 2 ^ 24" by simp
  qed simp_all
next
  case False
  show ?thesis
  proof (rule that)
    show "value32 n = of_nat (2 ^ 23 + n mod 2 ^ 23) * 2 powi (int (n div 2 ^ 23) - 150)"
      using False by (simp add: float_value_def Let_def)
    have "n mod 2 ^ 23 < 2 ^ 23" by simp
    then show "2 ^ 23 + n mod 2 ^ 23 < 2 ^ 24" by simp
    have "n div 2 ^ 23 < 255" using assms(1) unfolding inf32_def by (simp add: less_mult_imp_div_less)
    then show "int (n div 2 ^ 23) - 150 \<le> 104" by simp
    show "- 149 \<le> int (n div 2 ^ 23) - 150" using False by simp
  qed simp
qed

text \<open>Every finite \<^verbatim>\<open>float32\<close> is a \<^verbatim>\<open>float64\<close>.\<close>

lemma value64_of_float32:
  assumes "n < inf32"
  shows "value64 (pattern64 (value32 n)) = value32 n" "pattern64 (value32 n) < inf64"
proof -
  have "value64 (pattern64 (value32 n)) = value32 n \<and> pattern64 (value32 n) < inf64"
  proof (cases "value32 n = 0")
    case True
    then show ?thesis by (simp add: float_pattern_def float_value_def inf64_def)
  next
    case False
    obtain m j where m: "0 < m" "m < 2 ^ 24" and v: "value32 n = of_nat m * 2 powi j"
        and j: "- 149 \<le> j" "j \<le> 104"
      using float32_value [OF assms False] by blast
    define e where "e = flog2 (value32 n)"
    have e: "j \<le> e" "e < 24 + j"
      using flog2_scaled_less [OF m, of j] by (simp_all add: e_def v)
    define k where "k = nat (j + 52 - e)"
    have k: "int k = j + 52 - e" using e by (simp add: k_def)
    define m' where "m' = m * 2 ^ k"
    have v': "value32 n = of_nat m' * 2 powi (e - int 52)"
    proof -
      have "(2::rat) powi j = 2 powi int k * 2 powi (e - 52)"
        by (simp add: k flip: power_int_add)
      then show ?thesis by (simp add: v m'_def)
    qed
    have m'pos: "0 < m'" using m by (simp add: m'_def)
    have mx: "e = max (flog2 (value32 n)) (- 1022)" using e j by (simp add: e_def)
    have "m' < 2 ^ 53"
    proof -
      obtain b where b: "2 ^ b \<le> m'" "m' < 2 ^ Suc b"
        using bitlen_bounds [OF m'pos] m'pos by (cases "bitlen m'") (auto simp: bitlen.simps)
      have "e = flog2 (of_nat m' * 2 powi (e - int 52))"
        using arg_cong [OF v', of flog2] by (simp only: e_def [symmetric])
      also have "\<dots> = int b + (e - int 52)" by (rule flog2_scaled [OF b])
      finally have "b = 52" by simp
      then show ?thesis using b(2) by simp
    qed
    then have fits: "nat ((e + 1022) * 2 ^ 52 + int m') < inf64"
    proof -
      have "(e + 1022) * 2 ^ 52 \<le> (128 + 1022) * 2 ^ 52" using e j by (intro mult_right_mono) simp_all
      moreover have "int m' < 2 ^ 53" using \<open>m' < 2 ^ 53\<close> by (simp add: of_nat_less_iff [symmetric])
      ultimately show ?thesis by (simp add: inf64_def)
    qed
    have "value64 (pattern64 (value32 n)) = value32 n"
      using value_pattern [OF m'pos v' mx] fits by simp
    moreover have "rne (value32 n * 2 powi (52 - e)) = int m'"
      unfolding v' by (subst powi_shift) simp_all
    then have "pattern64 (value32 n) < inf64"
      using False fits mx [symmetric] by (simp add: float_pattern_def Let_def)
    ultimately show ?thesis by simp
  qed
  then show "value64 (pattern64 (value32 n)) = value32 n" "pattern64 (value32 n) < inf64" by simp_all
qed

section \<open>Widening and narrowing\<close>

lemma magnitude_lt: "k \<le> LENGTH('a) \<Longrightarrow> magnitude k (w :: 'a::len word) < 2 ^ k"
  by (simp add: magnitude_def unat_take_bit)

lemma with_sign_bits:
  assumes "n < 2 ^ k" "LENGTH('a) = Suc k"
  shows "magnitude k (with_sign k s n :: 'a::len word) = n" "bit (with_sign k s n :: 'a word) k = s"
proof -
  have hi: "j < k" if "bit n j" for j
    using that assms(1) bit_take_bit_iff [of k n j] by (simp add: take_bit_nat_eq_self)
  have "take_bit k (with_sign k s n :: 'a word) = of_nat n"
    using hi by (auto intro!: bit_word_eqI simp: with_sign_def bit_simps bit_of_nat_iff)
  moreover have "n < 2 ^ LENGTH('a)" using assms by simp
  ultimately show "magnitude k (with_sign k s n :: 'a word) = n"
    by (simp add: magnitude_def unat_of_nat)
  show "bit (with_sign k s n :: 'a word) k = s"
    using hi assms(2) by (auto simp: with_sign_def bit_simps bit_of_nat_iff)
qed

lemma bit_magnitude: "bit (magnitude k w) j \<longleftrightarrow> j < k \<and> bit w j" for w :: "'a::len word"
  by (auto simp: magnitude_def bit_simps dest: bit_imp_le_length)

lemma with_sign_magnitude:
  assumes "LENGTH('a) = Suc k"
  shows "with_sign k (bit w k) (magnitude k w) = (w :: 'a::len word)"
proof (rule bit_word_eqI)
  fix n assume "n < LENGTH('a)"
  then show "bit (with_sign k (bit w k) (magnitude k w) :: 'a word) n = bit w n"
    using assms by (cases "n = k") (auto simp: with_sign_def bit_simps bit_of_nat_iff bit_magnitude)
qed

text \<open>Every \<^verbatim>\<open>float32\<close> that is not a NaN is unchanged by \<^verbatim>\<open>float32(float64(x))\<close>.\<close>

definition is_NaN32 :: "32 word \<Rightarrow> bool" where
  "is_NaN32 w \<longleftrightarrow> inf32 < magnitude 31 w"

lemma float32_float64_float32:
  assumes "\<not> is_NaN32 w"
  shows "float32_of_float64 (float64_of_float32 w) = w"
proof -
  define n where "n = magnitude 31 w"
  have n: "n \<le> inf32" using assms by (simp add: is_NaN32_def n_def)
  define p where "p = (if n < inf32 then pattern64 (value32 n) else inf64)"
  have w: "float64_of_float32 w = with_sign 63 (bit w 31) p"
    using n by (auto simp: float64_of_float32_def p_def n_def [symmetric] Let_def)
  have "p \<le> inf64" using value64_of_float32(2) [of n] by (auto simp: p_def)
  also have "inf64 < 2 ^ 63" by (simp add: inf64_def)
  finally have "p < 2 ^ 63" .
  then have pat: "magnitude 63 (float64_of_float32 w) = p" "bit (float64_of_float32 w) 63 = bit w 31"
    unfolding w by (simp_all add: with_sign_bits)
  have "float32_of_float64 (float64_of_float32 w) = with_sign 31 (bit w 31) n"
  proof (cases "n < inf32")
    case True
    then have "value64 p = value32 n" "p < inf64" using value64_of_float32 by (simp_all add: p_def)
    then show ?thesis
      using pattern_value [OF True] by (simp add: float32_of_float64_def pat Let_def)
  next
    case False
    then show ?thesis using n by (simp add: float32_of_float64_def pat Let_def p_def)
  qed
  also have "\<dots> = w" unfolding n_def by (rule with_sign_magnitude) simp
  finally show ?thesis .
qed

section \<open>Rounding a rational\<close>

lemma round64_eq:
  assumes e: "2 powi e \<le> x" "x < 2 powi (e + 1)" "- 1022 \<le> e" "e \<le> 1000"
    and m: "rne (x * 2 powi (52 - e)) = int m" "2 ^ 52 \<le> m" "m < 2 ^ 53"
  shows "round64 x = of_nat m * 2 powi (e - 52)"
proof -
  have "0 < x" using e(1) by (meson less_le_trans zero_less_power_int zero_less_numeral)
  then have p: "pattern64 x = min inf64 (nat ((e + 1022) * 2 ^ 52 + int m))"
    using e flog2_eqI [OF e(1,2)] m(1) by (simp add: float_pattern_def max_def)
  obtain k where k: "e = int k - 1022" using e(3) by (metis add.commute add_diff_cancel_left' le_iff_diff_le_0 minus_diff_eq nonneg_int_cases uminus_add_conv_diff diff_ge_0_iff_ge)
  have n: "nat ((e + 1022) * 2 ^ 52 + int m) = k * 2 ^ 52 + m" unfolding k by (simp add: nat_add_distrib nat_mult_distrib)
  have "k \<le> 2022" using e(4) k by simp
  then have "k * 2 ^ 52 + m \<le> inf64" using m(3) by (simp add: inf64_def)
  then have v: "pattern64 x = k * 2 ^ 52 + m" using p n by simp
  obtain j where j: "m = 2 ^ 52 + j" "j < 2 ^ 52" using m(2,3) le_Suc_ex by force
  have "(k * 2 ^ 52 + m) div 2 ^ 52 = Suc k" "(k * 2 ^ 52 + m) mod 2 ^ 52 = j"
    using j(2) unfolding j(1) by (simp_all add: div_add1_eq)
  then have "value64 (k * 2 ^ 52 + m) = of_nat m * 2 powi (e - 52)"
    by (simp add: float_value_def j(1) k algebra_simps)
  then show ?thesis using \<open>0 < x\<close> v by (simp add: round64_def)
qed

lemma rne_eq: "of_int k - 1/2 < x \<Longrightarrow> x < of_int k + 1/2 \<Longrightarrow> rne x = k"
proof -
  assume a: "of_int k - 1/2 < x" "x < of_int k + 1/2"
  define f where "f = \<lfloor>x\<rfloor>"
  have f: "of_int f \<le> x" "x < of_int f + 1" using floor_correct [of x] by (simp_all add: f_def)
  have "of_int f < (of_int (k + 1) :: rat)" "of_int k < (of_int (f + 2) :: rat)" using a f by simp_all
  then have "f < k + 1" "k < f + 2" by (simp_all only: of_int_less_iff)
  then have "f = k \<or> f = k - 1" by linarith
  then show ?thesis using a by (auto simp: rne_def f_def [symmetric] Let_def)
qed

end
