(* ===== verification/GoTime.thy ===== *)
theory GoTime
  imports GoFloat "HOL-Library.Signed_Division"
begin

text \<open>
  What the driver uses of Go's \<^verbatim>\<open>time\<close> package: a UTC \<^verbatim>\<open>time.Time\<close> as its Unix seconds (an \<^verbatim>\<open>int64\<close>) and the
  nanoseconds inside the second, the constructors from Unix counts, the accessors back, \<^verbatim>\<open>Add\<close> and \<^verbatim>\<open>Sub\<close>
  with their overflow behaviour, and \<^verbatim>\<open>Duration.Hours\<close> with its rounding.  Integer division truncates
  toward zero (\<open>sdiv\<close>, \<open>smod\<close>) as in Go.

  The clock reading of a time (\<^verbatim>\<open>Hour\<close>, \<^verbatim>\<open>Minute\<close>, \<^verbatim>\<open>Second\<close>) is that of its Unix second; the library computes
  it from a count that wraps only for seconds below \<open>-9223372028715321600\<close>, which no value the driver
  decodes from a TIME column reaches.
\<close>

record go_time =
  t_sec :: int
  t_nsec :: int

definition second_ns :: int where "second_ns = 1000000000"

definition time_Unix :: "int \<Rightarrow> int \<Rightarrow> go_time" where
  "time_Unix sec nsec =
     (if nsec < 0 \<or> second_ns \<le> nsec
      then let n = nsec sdiv second_ns; sec = wrap64 (sec + n); nsec = nsec - n * second_ns
           in if nsec < 0 then \<lparr>t_sec = wrap64 (sec - 1), t_nsec = nsec + second_ns\<rparr>
              else \<lparr>t_sec = sec, t_nsec = nsec\<rparr>
      else \<lparr>t_sec = sec, t_nsec = nsec\<rparr>)"

definition time_UnixMilli :: "int \<Rightarrow> go_time" where
  "time_UnixMilli ms = time_Unix (ms sdiv 1000) (ms smod 1000 * 1000000)"

definition time_UnixMicro :: "int \<Rightarrow> go_time" where
  "time_UnixMicro us = time_Unix (us sdiv 1000000) (us smod 1000000 * 1000)"

text \<open>\<^verbatim>\<open>t.Unix()\<close>, \<^verbatim>\<open>t.UnixMilli()\<close>, \<^verbatim>\<open>t.UnixMicro()\<close>, \<^verbatim>\<open>t.UnixNano()\<close>.\<close>

definition to_Unix :: "go_time \<Rightarrow> int" where "to_Unix t = t_sec t"
definition to_UnixMilli :: "go_time \<Rightarrow> int" where
  "to_UnixMilli t = wrap64 (t_sec t * 1000 + t_nsec t div 1000000)"
definition to_UnixMicro :: "go_time \<Rightarrow> int" where
  "to_UnixMicro t = wrap64 (t_sec t * 1000000 + t_nsec t div 1000)"
definition to_UnixNano :: "go_time \<Rightarrow> int" where
  "to_UnixNano t = wrap64 (t_sec t * second_ns + t_nsec t)"

text \<open>\<^verbatim>\<open>time.Date(1970, time.January, 1, 0, 0, 0, 0, time.UTC)\<close>, and the same with \<open>n\<close> days added.\<close>

definition epoch :: go_time where "epoch = \<lparr>t_sec = 0, t_nsec = 0\<rparr>"
definition epoch_AddDays :: "int \<Rightarrow> go_time" where
  "epoch_AddDays n = \<lparr>t_sec = n * 86400, t_nsec = 0\<rparr>"

definition time_Add :: "go_time \<Rightarrow> int \<Rightarrow> go_time" where
  "time_Add t d = (let dsec = d sdiv second_ns; nsec = t_nsec t + d smod second_ns in
     if second_ns \<le> nsec then \<lparr>t_sec = wrap64 (t_sec t + (dsec + 1)), t_nsec = nsec - second_ns\<rparr>
     else if nsec < 0 then \<lparr>t_sec = wrap64 (t_sec t + (dsec - 1)), t_nsec = nsec + second_ns\<rparr>
     else \<lparr>t_sec = wrap64 (t_sec t + dsec), t_nsec = nsec\<rparr>)"

text \<open>\<^verbatim>\<open>t.Sub(u)\<close>: the 64-bit difference in nanoseconds, saturated when it does not fit.\<close>

definition time_before :: "go_time \<Rightarrow> go_time \<Rightarrow> bool" where
  "time_before t u \<longleftrightarrow> t_sec t < t_sec u \<or> t_sec t = t_sec u \<and> t_nsec t < t_nsec u"

definition time_Sub :: "go_time \<Rightarrow> go_time \<Rightarrow> int" where
  "time_Sub t u = (let d = wrap64 ((t_sec t - t_sec u) * second_ns + (t_nsec t - t_nsec u)) in
     if time_Add u d = t then d
     else if time_before t u then - (2 ^ 63) else 2 ^ 63 - 1)"

definition time_Hour :: "go_time \<Rightarrow> int" where "time_Hour t = t_sec t mod 86400 div 3600"
definition time_Minute :: "go_time \<Rightarrow> int" where "time_Minute t = t_sec t mod 3600 div 60"
definition time_Second :: "go_time \<Rightarrow> int" where "time_Second t = t_sec t mod 60"

definition hour_ns :: int where "hour_ns = 3600 * second_ns"

definition Duration_Hours :: "int \<Rightarrow> rat" where
  "Duration_Hours d = round64 (of_int (d sdiv hour_ns) + round64 (of_int (d smod hour_ns) / of_int hour_ns))"

section \<open>Division toward zero\<close>

lemma sdiv_smod_pos:
  fixes x c :: int
  assumes "0 < c"
  shows "x sdiv c = (if 0 \<le> x then x div c else - (- x div c))"
    and "x smod c = (if 0 \<le> x then x mod c else - (- x mod c))"
  using assms by (auto simp: signed_divide_int_def signed_modulo_int_def sgn_if)

lemma sdiv_smod_floor:
  fixes x c :: int
  assumes "0 < c"
  shows "x sdiv c = (if 0 \<le> x \<or> x mod c = 0 then x div c else x div c + 1)"
    and "x smod c = (if 0 \<le> x \<or> x mod c = 0 then x mod c else x mod c - c)"
  using assms by (auto simp: sdiv_smod_pos zdiv_zminus1_eq_if zmod_zminus1_eq_if)

section \<open>Counts and times\<close>

definition int64 :: "int \<Rightarrow> bool" where
  "int64 x \<longleftrightarrow> - (2 ^ 63) \<le> x \<and> x < 2 ^ 63"

lemma wrap64_int64: "int64 x \<Longrightarrow> wrap64 x = x"
  by (simp add: int64_def wrap64_id)

lemma int64_sint [simp]: "int64 (sint (w :: 64 word))"
  using sint_range_size [of w] by (simp add: int64_def word_size)

text \<open>A count of \<open>1 / c\<close> seconds, normalised to seconds rounded down and the rest.\<close>

lemma time_Unix_floor:
  assumes "int64 x" "0 < c" "c * u = second_ns" "0 < u"
  shows "time_Unix (x sdiv c) (x smod c * u) = \<lparr>t_sec = x div c, t_nsec = x mod c * u\<rparr>"
proof (cases "0 \<le> x \<or> x mod c = 0")
  case True
  have "x mod c * u < c * u" using assms by (intro mult_strict_right_mono) simp_all
  moreover have "\<not> x mod c * u < 0" using assms by (simp add: not_less)
  ultimately show ?thesis using True assms by (simp add: sdiv_smod_floor time_Unix_def)
next
  case False
  have m: "0 < x mod c" "x mod c < c" using False assms(2) pos_mod_sign [of c x] pos_mod_bound [of c x] by linarith+
  define n where "n = (x mod c - c) * u"
  have n: "- second_ns < n" "n < 0"
    using m assms mult_strict_right_mono [of "- c" "x mod c - c" u]
    by (simp_all add: n_def mult_neg_pos)
  have "n sdiv second_ns = 0" using n by (simp add: sdiv_smod_pos second_ns_def)
  moreover have r: "int64 (x div c)" "int64 (x div c + 1)"
  proof -
    have "x div c < 0" using False assms(2) by (simp add: pos_imp_zdiv_neg_iff not_le)
    moreover have "x \<le> x div c"
    proof -
      have "(x div c + 1) * c \<le> (x div c + 1) * 1"
        using \<open>x div c < 0\<close> assms(2) by (intro mult_left_mono_neg) simp_all
      then have "x div c * c + c \<le> x div c + 1" by (simp add: algebra_simps)
      then show ?thesis using div_mult_mod_eq [of x c] m by linarith
    qed
    ultimately show "int64 (x div c)" "int64 (x div c + 1)" using assms(1) by (simp_all add: int64_def)
  qed
  moreover have "n + second_ns = x mod c * u"
    using assms(3) by (simp add: n_def algebra_simps)
  ultimately show ?thesis
    using n False assms(1,2)
    by (simp add: time_Unix_def sdiv_smod_floor n_def [symmetric] wrap64_int64 Let_def)
qed

lemma UnixMicro_floor: "int64 x \<Longrightarrow> time_UnixMicro x = \<lparr>t_sec = x div 1000000, t_nsec = x mod 1000000 * 1000\<rparr>"
  unfolding time_UnixMicro_def by (rule time_Unix_floor) (simp_all add: second_ns_def)

lemma UnixMilli_floor: "int64 x \<Longrightarrow> time_UnixMilli x = \<lparr>t_sec = x div 1000, t_nsec = x mod 1000 * 1000000\<rparr>"
  unfolding time_UnixMilli_def by (rule time_Unix_floor) (simp_all add: second_ns_def)

lemma UnixNano_floor:
  "int64 x \<Longrightarrow> time_Unix (x sdiv 1000000000) (x smod 1000000000)
    = \<lparr>t_sec = x div 1000000000, t_nsec = x mod 1000000000\<rparr>"
  using time_Unix_floor [of x 1000000000 1] by (simp add: second_ns_def)

text \<open>Every 64-bit count survives the conversion to a time and back.\<close>

lemma Unix_roundtrips:
  assumes "int64 x"
  shows "to_UnixMicro (time_UnixMicro x) = x" "to_UnixMilli (time_UnixMilli x) = x"
    "to_Unix (time_Unix x 0) = x"
    "to_UnixNano (time_Unix (x sdiv 1000000000) (x smod 1000000000)) = x"
  using assms wrap64_int64 [OF assms]
  by (simp_all add: UnixMicro_floor UnixMilli_floor UnixNano_floor to_UnixMicro_def to_UnixMilli_def
      to_Unix_def to_UnixNano_def second_ns_def time_Unix_def [of x 0])

lemma epoch_Add_floor:
  assumes "int64 d"
  shows "time_Add epoch d = \<lparr>t_sec = d div second_ns, t_nsec = d mod second_ns\<rparr>"
proof -
  have b: "0 \<le> d mod second_ns" "d mod second_ns < second_ns" by (simp_all add: second_ns_def)
  have r: "int64 (d div second_ns)" "int64 (d div second_ns + 1)"
    using assms by (simp_all add: int64_def second_ns_def) linarith+
  show ?thesis
    using b r by (auto simp: time_Add_def epoch_def Let_def sdiv_smod_floor second_ns_def wrap64_int64)
qed

section \<open>Dates\<close>

lemma round64_of_nat:
  assumes "n < 2 ^ 53"
  shows "round64 (of_nat n) = of_nat n"
proof (cases "n = 0")
  case True
  then show ?thesis by (simp add: round64_def)
next
  case False
  then have pos: "0 < n" by simp
  define e where "e = flog2 (of_nat n)"
  have e: "0 \<le> e" "e < 53"
    using flog2_scaled_less [OF pos assms, of 0] by (simp_all add: e_def)
  define k where "k = nat (52 - e)"
  have k: "int k = 52 - e" using e by (simp add: k_def)
  have v: "(of_nat n :: rat) = of_nat (n * 2 ^ k) * 2 powi (e - int 52)"
  proof -
    have "(2::rat) ^ k * 2 powi (e - 52) = 2 powi (int k + (e - 52))"
      by (subst power_int_add) simp_all
    then show ?thesis by (simp add: k)
  qed
  have p: "0 < n * 2 ^ k" using pos by simp
  obtain b where b: "2 ^ b \<le> n * 2 ^ k" "n * 2 ^ k < 2 ^ Suc b"
    using bitlen_bounds [OF p] p by (cases "bitlen (n * 2 ^ k)") (auto simp: bitlen.simps)
  have "e = flog2 (of_nat (n * 2 ^ k) * 2 powi (e - int 52))"
    using arg_cong [OF v, of flog2] by (simp only: e_def [symmetric])
  also have "\<dots> = int b + (e - int 52)" by (rule flog2_scaled [OF b])
  finally have "n * 2 ^ k < 2 ^ 53" using b(2) by simp
  then have m: "int (n * 2 ^ k) < 2 ^ 53" by (simp only: of_nat_less_iff [symmetric, where 'a = int]) simp
  have "(e + 1022) * 2 ^ 52 \<le> (52 + 1022) * 2 ^ 52" using e by (intro mult_right_mono) simp_all
  then have "nat ((e - - 1022) * 2 ^ 52 + int (n * 2 ^ k)) < inf64" using m by (simp add: inf64_def)
  then have "value64 (pattern64 (of_nat n)) = of_nat n"
    by (intro value_pattern [OF p v]) (use e in \<open>simp_all add: e_def\<close>)
  then show ?thesis by (simp add: round64_def)
qed

lemma round64_of_int:
  assumes "\<bar>i\<bar> < 2 ^ 53"
  shows "round64 (of_int i) = of_int i"
proof (cases "i < 0")
  case True
  define n where "n = nat (- i)"
  have i: "i = - int n" "n < 2 ^ 53" "0 < n" using True assms by (simp_all add: n_def nat_less_iff)
  have "round64 (- of_nat n) = - round64 (of_nat n)"
    using i(3) by (simp add: round64_def)
  then show ?thesis using round64_of_nat [OF i(2)] by (simp add: i(1))
next
  case False
  define n where "n = nat i"
  have "i = int n" "n < 2 ^ 53" using False assms by (simp_all add: n_def nat_less_iff)
  then show ?thesis using round64_of_nat [of n] by simp
qed

lemma time_Sub_epoch_days:
  assumes "\<bar>n\<bar> \<le> 106751"
  shows "time_Sub (epoch_AddDays n) epoch = n * 24 * hour_ns"
proof -
  have "- 106751 \<le> n" "n \<le> 106751" using assms by linarith+
  then have r: "int64 (n * 86400 * second_ns)" by (simp add: int64_def second_ns_def)
  have "time_Add epoch (n * 86400 * second_ns) = epoch_AddDays n"
    unfolding epoch_Add_floor [OF r] by (simp add: epoch_AddDays_def second_ns_def)
  then show ?thesis
    using wrap64_int64 [OF r] by (simp add: time_Sub_def epoch_AddDays_def epoch_def hour_ns_def)
qed

lemma Duration_Hours_days:
  assumes "\<bar>n\<bar> \<le> 106751"
  shows "Duration_Hours (n * 24 * hour_ns) = of_int (n * 24)"
proof -
  have "0 < hour_ns" by (simp add: hour_ns_def second_ns_def)
  then have "n * 24 * hour_ns sdiv hour_ns = n * 24" "n * 24 * hour_ns smod hour_ns = 0"
    by (simp_all add: sdiv_smod_floor)
  moreover have "round64 0 = 0" using round64_of_int [of 0] by simp
  ultimately show ?thesis
    using round64_of_int [of "n * 24"] assms by (simp add: Duration_Hours_def)
qed

end
