(* ===== verification/Vectors.thy ===== *)
theory Vectors
  imports HugeInt LogicalTypes Validity GoTime "HOL-Library.AList"
begin

text \<open>
  \<^verbatim>\<open>internal/message/vectors.go\<close> (decoded columns) and the value conversions at the end of
  \<^verbatim>\<open>vector_codec.go\<close>.  A value of type \<^verbatim>\<open>interface{}\<close> is a \<open>govalue\<close>: the constructor is the dynamic
  type, \<open>VNil\<close> the nil interface.  The sealed interface \<^verbatim>\<open>DecodedVector\<close> is a datatype with one
  constructor per Go struct; a nil \<^verbatim>\<open>DecodedVector\<close> is \<open>None\<close> of an option.  Floats are bit patterns,
  \<^verbatim>\<open>*big.Rat\<close> is \<open>rat\<close>, \<^verbatim>\<open>*big.Int\<close> is \<open>int\<close>, a \<^verbatim>\<open>map[string]interface{}\<close> an association list.
\<close>

record IntervalValue =
  Months :: "32 word"
  Days :: "32 word"
  Micros :: "64 word"

datatype govalue =
    VNil
  | VBool bool
  | VInt int
  | VInt8 "8 word"
  | VInt16 "16 word"
  | VInt32 "32 word"
  | VInt64 "64 word"
  | VUint8 "8 word"
  | VUint16 "16 word"
  | VUint32 "32 word"
  | VUint64 "64 word"
  | VFloat32 "32 word"
  | VFloat64 "64 word"
  | VString string
  | VBytes bytes
  | VTime go_time
  | VRat rat
  | VBigInt int
  | VInterval IntervalValue
  | VList "govalue list"
  | VMap "(string \<times> govalue) list"

datatype DecodedVector =
    BoolVec LogicalType "bool list" validity
  | ByteVec LogicalType "8 word list" validity
  | ShortVec LogicalType "16 word list" validity
  | IntVec LogicalType "32 word list" validity
  | LongVec LogicalType "64 word list" validity
  | FloatVec LogicalType "32 word list" validity
  | DoubleVec LogicalType "64 word list" validity
  | ObjectVec LogicalType "govalue list"

section \<open>Methods\<close>

primrec TypeRef :: "DecodedVector \<Rightarrow> LogicalType" where
  "TypeRef (BoolVec t _ _) = t"
| "TypeRef (ByteVec t _ _) = t"
| "TypeRef (ShortVec t _ _) = t"
| "TypeRef (IntVec t _ _) = t"
| "TypeRef (LongVec t _ _) = t"
| "TypeRef (FloatVec t _ _) = t"
| "TypeRef (DoubleVec t _ _) = t"
| "TypeRef (ObjectVec t _) = t"

primrec vec_Size :: "DecodedVector \<Rightarrow> nat" where
  "vec_Size (BoolVec _ vs _) = length vs"
| "vec_Size (ByteVec _ vs _) = length vs"
| "vec_Size (ShortVec _ vs _) = length vs"
| "vec_Size (IntVec _ vs _) = length vs"
| "vec_Size (LongVec _ vs _) = length vs"
| "vec_Size (FloatVec _ vs _) = length vs"
| "vec_Size (DoubleVec _ vs _) = length vs"
| "vec_Size (ObjectVec _ vs) = length vs"

primrec IsNull :: "DecodedVector \<Rightarrow> int \<Rightarrow> bool outcome" where
  "IsNull (BoolVec _ _ v) row = ValidityIsNull v row"
| "IsNull (ByteVec _ _ v) row = ValidityIsNull v row"
| "IsNull (ShortVec _ _ v) row = ValidityIsNull v row"
| "IsNull (IntVec _ _ v) row = ValidityIsNull v row"
| "IsNull (LongVec _ _ v) row = ValidityIsNull v row"
| "IsNull (FloatVec _ _ v) row = ValidityIsNull v row"
| "IsNull (DoubleVec _ _ v) row = ValidityIsNull v row"
| "IsNull (ObjectVec _ vs) row = outcome_bind (index_at vs row) (\<lambda>x. Done (x = VNil))"

text \<open>\<^verbatim>\<open>if v.IsNull(row) { return nil }; return v.Values[row]\<close>, boxed.\<close>

definition typed_get :: "('a \<Rightarrow> govalue) \<Rightarrow> 'a list \<Rightarrow> validity \<Rightarrow> int \<Rightarrow> govalue outcome" where
  "typed_get box vs v row = outcome_bind (ValidityIsNull v row) (\<lambda>isnull.
     if isnull then Done VNil else outcome_bind (index_at vs row) (\<lambda>x. Done (box x)))"

primrec GetObject :: "DecodedVector \<Rightarrow> int \<Rightarrow> govalue outcome" where
  "GetObject (BoolVec _ vs v) row = typed_get VBool vs v row"
| "GetObject (ByteVec _ vs v) row = typed_get VInt8 vs v row"
| "GetObject (ShortVec _ vs v) row = typed_get VInt16 vs v row"
| "GetObject (IntVec _ vs v) row = typed_get VInt32 vs v row"
| "GetObject (LongVec _ vs v) row = typed_get VInt64 vs v row"
| "GetObject (FloatVec _ vs v) row = typed_get VFloat32 vs v row"
| "GetObject (DoubleVec _ vs v) row = typed_get VFloat64 vs v row"
| "GetObject (ObjectVec _ vs) row = index_at vs row"

record DataChunk =
  RowCount :: int
  Types :: "LogicalType list"
  Columns :: "DecodedVector option list"

definition zeroDataChunk :: DataChunk where
  "zeroDataChunk = \<lparr>RowCount = 0, Types = [], Columns = []\<rparr>"

section \<open>Conversions\<close>

primrec toInt64Ok :: "govalue \<Rightarrow> 64 word option" where
  "toInt64Ok VNil = None"
| "toInt64Ok (VBool _) = None"
| "toInt64Ok (VInt x) = Some (word_of_int x)"
| "toInt64Ok (VInt8 x) = Some (scast x)"
| "toInt64Ok (VInt16 x) = Some (scast x)"
| "toInt64Ok (VInt32 x) = Some (scast x)"
| "toInt64Ok (VInt64 x) = Some x"
| "toInt64Ok (VUint8 x) = Some (ucast x)"
| "toInt64Ok (VUint16 x) = Some (ucast x)"
| "toInt64Ok (VUint32 x) = Some (ucast x)"
| "toInt64Ok (VUint64 x) = Some x"
| "toInt64Ok (VFloat32 x) = Some (int64_of_float64 (float64_of_float32 x))"
| "toInt64Ok (VFloat64 x) = Some (int64_of_float64 x)"
| "toInt64Ok (VString _) = None"
| "toInt64Ok (VBytes _) = None"
| "toInt64Ok (VTime _) = None"
| "toInt64Ok (VRat _) = None"
| "toInt64Ok (VBigInt _) = None"
| "toInt64Ok (VInterval _) = None"
| "toInt64Ok (VList _) = None"
| "toInt64Ok (VMap _) = None"

definition toInt64 :: "govalue \<Rightarrow> 64 word" where
  "toInt64 v = (case toInt64Ok v of Some n \<Rightarrow> n | None \<Rightarrow> 0)"

definition toBool :: "govalue \<Rightarrow> bool" where
  "toBool v = (case v of VBool b \<Rightarrow> b | _ \<Rightarrow> (case toInt64Ok v of Some n \<Rightarrow> n \<noteq> 0 | None \<Rightarrow> False))"

definition toFloat64 :: "govalue \<Rightarrow> 64 word" where
  "toFloat64 v = (case v of
       VFloat32 x \<Rightarrow> float64_of_float32 x
     | VFloat64 x \<Rightarrow> x
     | _ \<Rightarrow> (case toInt64Ok v of Some n \<Rightarrow> float64_of_int (sint n) | None \<Rightarrow> 0))"

definition minOne :: "int \<Rightarrow> int" where
  "minOne c = (if c > 0 then 1 else 0)"

section \<open>Rows\<close>

lemma typed_get_None: "i < length vs \<Longrightarrow> typed_get box vs None (int i) = Done (box (vs ! i))"
  by (simp add: typed_get_def)

lemma typed_get_Some:
  "i < length vs \<Longrightarrow> i < 64 * length ws \<Longrightarrow>
   typed_get box vs (Some ws) (int i) = Done (if bit (ws ! (i div 64)) (i mod 64) then box (vs ! i) else VNil)"
  by (simp add: typed_get_def ValidityIsNull_bit)

lemma no_fuel_validity [simp]:
  "ValidityIsValid v row \<noteq> OutOfFuel" "ValidityIsNull v row \<noteq> OutOfFuel"
  by (auto simp: ValidityIsValid_def ValidityIsNull_def split: option.splits)

lemma no_fuel_vectors [simp]: "IsNull v row \<noteq> OutOfFuel" "GetObject v row \<noteq> OutOfFuel"
  by (cases v; simp add: typed_get_def)+

lemma no_fuel_bitmaps [simp]:
  "ValidityAllValid count \<noteq> OutOfFuel" "ValiditySetNull ws row \<noteq> OutOfFuel"
  "ValidityFromBytes bs count \<noteq> OutOfFuel"
  by (auto simp: ValidityAllValid_def ValiditySetNull_def ValidityFromBytes_def Let_def for_each_no_fuel split: if_splits)

text \<open>
  The validity of a column of \<open>n\<close> rows is well-formed when it is nil or has one word per 64 rows; a
  well-formed column can be read at every row.
\<close>

definition wf_validity :: "validity \<Rightarrow> nat \<Rightarrow> bool" where
  "wf_validity v n \<longleftrightarrow> (case v of None \<Rightarrow> True | Some ws \<Rightarrow> length ws = (n + 63) div 64)"

definition row_valid :: "validity \<Rightarrow> nat \<Rightarrow> bool" where
  "row_valid v i = (case v of None \<Rightarrow> True | Some ws \<Rightarrow> bit (ws ! (i div 64)) (i mod 64))"

lemma IsValid_wf: "wf_validity v n \<Longrightarrow> i < n \<Longrightarrow> ValidityIsValid v (int i) = Done (row_valid v i)"
  using words_hold(2) [of i n]
  by (auto simp: wf_validity_def row_valid_def ValidityIsValid_bit split: option.splits)

lemma IsNull_wf: "wf_validity v n \<Longrightarrow> i < n \<Longrightarrow> ValidityIsNull v (int i) = Done (\<not> row_valid v i)"
  by (simp add: ValidityIsNull_def IsValid_wf)

lemma typed_get_wf:
  "wf_validity v (length vs) \<Longrightarrow> i < length vs \<Longrightarrow>
   typed_get box vs v (int i) = Done (if row_valid v i then box (vs ! i) else VNil)"
  by (simp add: typed_get_def IsNull_wf)

end
