(* ===== verification/VectorCodec.thy ===== *)
theory VectorCodec
  imports TypeCodec Vectors
begin

text \<open>
  \<^verbatim>\<open>internal/message/vector_codec.go\<close>: the decoders of column vectors and data chunks.  Slices of
  \<^verbatim>\<open>interface{}\<close> are allocated at 16 bytes per element; every index, allocation and nil dereference that
  can panic in Go is a \<open>Panic\<close> here.  The recursive decoders carry a fuel, which \<open>DecodeDataChunk_fueled\<close>
  shows is never exhausted when it exceeds the number of unread bytes.
\<close>

type_synonym VectorType = int

abbreviation VectorTypeFlat :: VectorType where "VectorTypeFlat \<equiv> 0"
abbreviation VectorTypeFSST :: VectorType where "VectorTypeFSST \<equiv> 1"
abbreviation VectorTypeConstant :: VectorType where "VectorTypeConstant \<equiv> 2"
abbreviation VectorTypeDictionary :: VectorType where "VectorTypeDictionary \<equiv> 3"
abbreviation VectorTypeSequence :: VectorType where "VectorTypeSequence \<equiv> 4"

text \<open>Code that does not touch the reader, and \<open>n\<close> values read one after the other.\<close>

definition rlift :: "'a outcome \<Rightarrow> 'a rd" where
  "rlift m r = outcome_bind m (\<lambda>v. Done (v, r))"

primrec read_values :: "nat \<Rightarrow> 'a rd \<Rightarrow> 'a list rd" where
  "read_values 0 f = rret []"
| "read_values (Suc n) f = rbind f (\<lambda>v. rbind (read_values n f) (\<lambda>vs. rret (v # vs)))"

section \<open>Logical values\<close>

definition decimalFromUnscaled :: "LogicalType \<Rightarrow> int \<Rightarrow> rat" where
  "decimalFromUnscaled t value = (case lt_TypeInfo t of
       Some (DecimalTypeInfo _ scale _) \<Rightarrow> Fract value (10 ^ nat scale)
     | _ \<Rightarrow> of_int value)"

definition decodeEnumOrInt :: "LogicalType \<Rightarrow> int \<Rightarrow> govalue" where
  "decodeEnumOrInt t idx =
     (if lt_ID t \<noteq> LogicalTypeIDEnum then VInt32 (word_of_int idx)
      else let values = or_zero [] (GetEnumValues t)
           in if idx < 0 \<or> int (length values) \<le> idx then VInt idx else VString (values ! nat idx))"

definition decodeEnumOrInt64 :: "LogicalType \<Rightarrow> 64 word \<Rightarrow> govalue" where
  "decodeEnumOrInt64 t idx =
     (if lt_ID t \<noteq> LogicalTypeIDEnum then VInt64 idx
      else if sint idx < 0 \<or> 0x7FFFFFFF < sint idx then VInt64 idx
      else decodeEnumOrInt t (sint idx))"

definition hex_digit :: "nat \<Rightarrow> char" where
  "hex_digit d = (if d < 10 then char_of (48 + d) else char_of (87 + d))"

definition hex_bytes :: "bytes \<Rightarrow> string" where
  "hex_bytes bs = concat (map (\<lambda>b. [hex_digit (unat b div 16), hex_digit (unat b mod 16)]) bs)"

text \<open>\<^verbatim>\<open>binary.BigEndian.PutUint64\<close>.\<close>

definition be_bytes8 :: "64 word \<Rightarrow> bytes" where
  "be_bytes8 w = rev (le_bytes 8 w)"

definition uuidFromHugeIntParts :: "64 word \<Rightarrow> 64 word \<Rightarrow> string" where
  "uuidFromHugeIntParts upper lower =
     (let display = upper XOR push_bit 63 1;
          b = be_bytes8 display @ be_bytes8 lower
      in hex_bytes (take 4 b) @ ''-'' @ hex_bytes (take 2 (drop 4 b)) @ ''-'' @
         hex_bytes (take 2 (drop 6 b)) @ ''-'' @ hex_bytes (take 2 (drop 8 b)) @ ''-'' @
         hex_bytes (take 6 (drop 10 b)))"

definition decodeInt64LogicalValue :: "LogicalType \<Rightarrow> 64 word \<Rightarrow> govalue" where
  "decodeInt64LogicalValue t w = (let i = lt_ID t; v = sint w in
     if i = LogicalTypeIDTime then VTime (time_Add epoch (wrap64 (v * 1000)))
     else if i = LogicalTypeIDTimeNS then VTime (time_Add epoch v)
     else if i = LogicalTypeIDTimeTZ then VInt64 w
     else if i = LogicalTypeIDTimestampSec then VTime (time_Unix v 0)
     else if i = LogicalTypeIDTimestampMS then VTime (time_UnixMilli v)
     else if i = LogicalTypeIDTimestamp then VTime (time_UnixMicro v)
     else if i = LogicalTypeIDTimestampNS then VTime (time_Unix (v sdiv 1000000000) (v smod 1000000000))
     else if i = LogicalTypeIDTimestampTZ then VTime (time_UnixMicro v)
     else if i = LogicalTypeIDDecimal then VRat (decimalFromUnscaled t v)
     else VInt64 w)"

definition decodeStringLikeValue :: "LogicalType \<Rightarrow> bytes \<Rightarrow> govalue" where
  "decodeStringLikeValue t raw =
     (if lt_ID t \<in> set [LogicalTypeIDBlob, LogicalTypeIDGeometry, LogicalTypeIDBit] then VBytes raw
      else VString (string_of_bytes raw))"

definition decodeFixedValue :: "LogicalType \<Rightarrow> PhysicalType \<Rightarrow> govalue rd" where
  "decodeFixedValue t physical =
     (if physical = PhysicalTypeBool then rbind ReadFixedUint8 (\<lambda>b. rret (VBool (b \<noteq> 0)))
      else if physical = PhysicalTypeInt8 then rbind ReadFixedInt8 (\<lambda>v. rret (VInt32 (scast v)))
      else if physical = PhysicalTypeUint8 then
        rbind ReadFixedUint8 (\<lambda>v. rret (decodeEnumOrInt t (uint v)))
      else if physical = PhysicalTypeInt16 then rbind ReadFixedInt16 (\<lambda>v.
        if lt_ID t = LogicalTypeIDDecimal then rret (VRat (decimalFromUnscaled t (sint v)))
        else rret (VInt32 (scast v)))
      else if physical = PhysicalTypeUint16 then
        rbind ReadFixedUint16 (\<lambda>v. rret (decodeEnumOrInt t (uint v)))
      else if physical = PhysicalTypeInt32 then rbind ReadFixedInt32 (\<lambda>v.
        if lt_ID t = LogicalTypeIDDate then rret (VTime (epoch_AddDays (sint v)))
        else if lt_ID t = LogicalTypeIDDecimal then rret (VRat (decimalFromUnscaled t (sint v)))
        else rret (VInt32 v))
      else if physical = PhysicalTypeUint32 then
        rbind ReadFixedUint32 (\<lambda>v. rret (decodeEnumOrInt64 t (ucast v)))
      else if physical = PhysicalTypeInt64 then
        rbind ReadFixedInt64 (\<lambda>v. rret (decodeInt64LogicalValue t v))
      else if physical = PhysicalTypeUint64 then rbind ReadFixedUint64 (\<lambda>v. rret (VUint64 v))
      else if physical = PhysicalTypeFloat then rbind ReadFixedFloat32 (\<lambda>v. rret (VFloat32 v))
      else if physical = PhysicalTypeDouble then rbind ReadFixedFloat64 (\<lambda>v. rret (VFloat64 v))
      else if physical = PhysicalTypeInt128 then
        rbind ReadFixedUint64 (\<lambda>lower. rbind ReadFixedInt64 (\<lambda>upper.
          if lt_ID t = LogicalTypeIDUUID then rret (VString (uuidFromHugeIntParts upper lower))
          else let signed = SignedBigInt \<lparr>Upper = upper, Lower = lower\<rparr>
               in if lt_ID t = LogicalTypeIDDecimal then rret (VRat (decimalFromUnscaled t signed))
                  else rret (VBigInt signed)))
      else if physical = PhysicalTypeUint128 then
        rbind ReadFixedUint64 (\<lambda>lower. rbind ReadFixedUint64 (\<lambda>upper.
          rret (VBigInt (UnsignedBigInt \<lparr>Upper = upper, Lower = lower\<rparr>))))
      else if physical = PhysicalTypeInterval then
        rbind ReadFixedInt32 (\<lambda>months. rbind ReadFixedInt32 (\<lambda>days. rbind ReadFixedInt64 (\<lambda>micros.
          rret (VInterval \<lparr>Months = months, Days = days, Micros = micros\<rparr>))))
      else rret VNil)"

section \<open>Fixed-width columns\<close>

definition needsObjectMaterialization :: "LogicalType \<Rightarrow> PhysicalType \<Rightarrow> bool" where
  "needsObjectMaterialization t physical \<longleftrightarrow>
     lt_ID t \<in> set [LogicalTypeIDDecimal, LogicalTypeIDDate,
       LogicalTypeIDTime, LogicalTypeIDTimeNS, LogicalTypeIDTimeTZ,
       LogicalTypeIDTimestamp, LogicalTypeIDTimestampSec,
       LogicalTypeIDTimestampMS, LogicalTypeIDTimestampNS,
       LogicalTypeIDTimestampTZ,
       LogicalTypeIDUUID, LogicalTypeIDInterval,
       LogicalTypeIDHugeInt, LogicalTypeIDUHugeInt,
       LogicalTypeIDEnum]
     \<or> physical = PhysicalTypeInterval \<or> physical = PhysicalTypeInt128 \<or> physical = PhysicalTypeUint128"

text \<open>\<^verbatim>\<open>arr := make([]T, count)\<close> filled by \<open>count\<close> reads; the values with the invalid rows left nil.\<close>

definition read_array :: "int \<Rightarrow> int \<Rightarrow> 'a rd \<Rightarrow> reader \<Rightarrow> 'a list outcome" where
  "read_array esz count f rr =
     (if make_ok esz count then outcome_bind (read_values (nat count) f rr) (\<lambda>(vs, _). Done vs) else Panic)"

definition keep_valid :: "validity \<Rightarrow> govalue list \<Rightarrow> govalue list outcome" where
  "keep_valid validity vs = map_outcome (\<lambda>(i, v).
     outcome_bind (ValidityIsValid validity (int i)) (\<lambda>ok. Done (if ok then v else VNil))) (enumerate 0 vs)"

definition decodeFixedFlatVector ::
  "LogicalType \<Rightarrow> PhysicalType \<Rightarrow> bytes \<Rightarrow> int \<Rightarrow> validity \<Rightarrow> DecodedVector outcome" where
  "decodeFixedFlatVector t physical bs count validity = (let rr = NewBinaryReader bs in
     if needsObjectMaterialization t physical then
       outcome_bind (read_array 16 count (decodeFixedValue t physical) rr) (\<lambda>vs.
       outcome_bind (keep_valid validity vs) (\<lambda>values. Done (ObjectVec t values)))
     else if physical = PhysicalTypeBool then
       outcome_bind (read_array 1 count (rbind ReadFixedUint8 (\<lambda>b. rret (b \<noteq> 0))) rr)
         (\<lambda>arr. Done (BoolVec t arr validity))
     else if physical = PhysicalTypeInt8 then
       outcome_bind (read_array 1 count ReadFixedInt8 rr) (\<lambda>arr. Done (ByteVec t arr validity))
     else if physical = PhysicalTypeUint8 then
       outcome_bind (read_array 2 count (rbind ReadFixedUint8 (\<lambda>b. rret (ucast b))) rr)
         (\<lambda>arr. Done (ShortVec t arr validity))
     else if physical = PhysicalTypeInt16 then
       outcome_bind (read_array 2 count ReadFixedInt16 rr) (\<lambda>arr. Done (ShortVec t arr validity))
     else if physical = PhysicalTypeUint16 then
       outcome_bind (read_array 4 count (rbind ReadFixedUint16 (\<lambda>w. rret (ucast w))) rr)
         (\<lambda>arr. Done (IntVec t arr validity))
     else if physical = PhysicalTypeInt32 then
       outcome_bind (read_array 4 count ReadFixedInt32 rr) (\<lambda>arr. Done (IntVec t arr validity))
     else if physical = PhysicalTypeUint32 then
       outcome_bind (read_array 8 count (rbind ReadFixedUint32 (\<lambda>w. rret (ucast w))) rr)
         (\<lambda>arr. Done (LongVec t arr validity))
     else if physical = PhysicalTypeInt64 \<or> physical = PhysicalTypeUint64 then
       outcome_bind (read_array 8 count ReadFixedInt64 rr) (\<lambda>arr. Done (LongVec t arr validity))
     else if physical = PhysicalTypeFloat then
       outcome_bind (read_array 4 count ReadFixedFloat32 rr) (\<lambda>arr. Done (FloatVec t arr validity))
     else if physical = PhysicalTypeDouble then
       outcome_bind (read_array 8 count ReadFixedFloat64 rr) (\<lambda>arr. Done (DoubleVec t arr validity))
     else outcome_bind (make_slice 16 count VNil) (\<lambda>values. Done (ObjectVec t values)))"

definition zeroFilledPrimitiveVector ::
  "LogicalType \<Rightarrow> PhysicalType \<Rightarrow> int \<Rightarrow> validity \<Rightarrow> DecodedVector outcome" where
  "zeroFilledPrimitiveVector t physical count validity =
     (if physical = PhysicalTypeBool then
        outcome_bind (make_slice 1 count False) (\<lambda>vs. Done (BoolVec t vs validity))
      else if physical = PhysicalTypeInt8 then
        outcome_bind (make_slice 1 count 0) (\<lambda>vs. Done (ByteVec t vs validity))
      else if physical = PhysicalTypeUint8 \<or> physical = PhysicalTypeInt16 then
        outcome_bind (make_slice 2 count 0) (\<lambda>vs. Done (ShortVec t vs validity))
      else if physical = PhysicalTypeUint16 \<or> physical = PhysicalTypeInt32 then
        outcome_bind (make_slice 4 count 0) (\<lambda>vs. Done (IntVec t vs validity))
      else if physical = PhysicalTypeUint32 \<or> physical = PhysicalTypeInt64 \<or> physical = PhysicalTypeUint64 then
        outcome_bind (make_slice 8 count 0) (\<lambda>vs. Done (LongVec t vs validity))
      else if physical = PhysicalTypeFloat then
        outcome_bind (make_slice 4 count 0) (\<lambda>vs. Done (FloatVec t vs validity))
      else if physical = PhysicalTypeDouble then
        outcome_bind (make_slice 8 count 0) (\<lambda>vs. Done (DoubleVec t vs validity))
      else outcome_bind (make_slice 16 count VNil) (\<lambda>vs. Done (ObjectVec t vs)))"

section \<open>Constant, dictionary and sequence columns\<close>

definition broadcastValue :: "LogicalType \<Rightarrow> govalue \<Rightarrow> int \<Rightarrow> DecodedVector outcome" where
  "broadcastValue t value count = (let physical = GetPhysicalType t in
     if needsObjectMaterialization t physical \<or> \<not> IsConstantSize physical then
       outcome_bind (make_slice 16 count value) (\<lambda>vs. Done (ObjectVec t vs))
     else if value = VNil then
       outcome_bind (make_slice 8 (ValidityWordCount count) 0) (\<lambda>validity.
       zeroFilledPrimitiveVector t physical count (Some validity))
     else if physical = PhysicalTypeBool then
       outcome_bind (make_slice 1 count (toBool value)) (\<lambda>vs. Done (BoolVec t vs None))
     else if physical = PhysicalTypeInt8 then
       outcome_bind (make_slice 1 count (ucast (toInt64 value))) (\<lambda>vs. Done (ByteVec t vs None))
     else if physical = PhysicalTypeUint8 \<or> physical = PhysicalTypeInt16 then
       outcome_bind (make_slice 2 count (ucast (toInt64 value))) (\<lambda>vs. Done (ShortVec t vs None))
     else if physical = PhysicalTypeUint16 \<or> physical = PhysicalTypeInt32 then
       outcome_bind (make_slice 4 count (ucast (toInt64 value))) (\<lambda>vs. Done (IntVec t vs None))
     else if physical = PhysicalTypeUint32 \<or> physical = PhysicalTypeInt64 \<or> physical = PhysicalTypeUint64 then
       outcome_bind (make_slice 8 count (toInt64 value)) (\<lambda>vs. Done (LongVec t vs None))
     else if physical = PhysicalTypeFloat then
       outcome_bind (make_slice 4 count (float32_of_float64 (toFloat64 value))) (\<lambda>vs. Done (FloatVec t vs None))
     else if physical = PhysicalTypeDouble then
       outcome_bind (make_slice 8 count (toFloat64 value)) (\<lambda>vs. Done (DoubleVec t vs None))
     else outcome_bind (make_slice 16 count value) (\<lambda>vs. Done (ObjectVec t vs)))"

text \<open>
  The loop of each typed case of \<^verbatim>\<open>projectVector\<close>: the rows selected from \<open>vs\<close>, an invalid one cleared
  in a bitmap that is allocated when the first one is met.
\<close>

definition project_values :: "'a \<Rightarrow> int \<Rightarrow> 'a list \<Rightarrow> validity \<Rightarrow> 32 word list \<Rightarrow> ('a list \<times> validity) outcome" where
  "project_values zero esz vs dvalidity selection =
     (let count = int (length selection) in
      outcome_bind (make_slice esz count zero) (\<lambda>arr.
      for_each (\<lambda>(i, idx) (arr, validity).
        outcome_bind (ValidityIsNull dvalidity (sint idx)) (\<lambda>isnull.
        if isnull then
          outcome_bind (case validity of None \<Rightarrow> ValidityAllValid count | Some ws \<Rightarrow> Done ws) (\<lambda>ws.
          outcome_bind (ValiditySetNull ws (int i)) (\<lambda>ws'. Done (arr, Some ws')))
        else
          outcome_bind (index_at vs (sint idx)) (\<lambda>x.
          outcome_bind (set_at arr (int i) x) (\<lambda>arr'. Done (arr', validity)))))
      (enumerate 0 selection) (arr, None)))"

definition nil_GetObject :: "DecodedVector option \<Rightarrow> int \<Rightarrow> govalue outcome" where
  "nil_GetObject v row = (case v of None \<Rightarrow> Panic | Some w \<Rightarrow> GetObject w row)"

definition projectVector :: "LogicalType \<Rightarrow> DecodedVector option \<Rightarrow> 32 word list \<Rightarrow> DecodedVector outcome" where
  "projectVector t dict selection = (case dict of
       Some (BoolVec _ vs v) \<Rightarrow>
         outcome_bind (project_values False 1 vs v selection) (\<lambda>(arr, validity). Done (BoolVec t arr validity))
     | Some (ByteVec _ vs v) \<Rightarrow>
         outcome_bind (project_values 0 1 vs v selection) (\<lambda>(arr, validity). Done (ByteVec t arr validity))
     | Some (ShortVec _ vs v) \<Rightarrow>
         outcome_bind (project_values 0 2 vs v selection) (\<lambda>(arr, validity). Done (ShortVec t arr validity))
     | Some (IntVec _ vs v) \<Rightarrow>
         outcome_bind (project_values 0 4 vs v selection) (\<lambda>(arr, validity). Done (IntVec t arr validity))
     | Some (LongVec _ vs v) \<Rightarrow>
         outcome_bind (project_values 0 8 vs v selection) (\<lambda>(arr, validity). Done (LongVec t arr validity))
     | Some (FloatVec _ vs v) \<Rightarrow>
         outcome_bind (project_values 0 4 vs v selection) (\<lambda>(arr, validity). Done (FloatVec t arr validity))
     | Some (DoubleVec _ vs v) \<Rightarrow>
         outcome_bind (project_values 0 8 vs v selection) (\<lambda>(arr, validity). Done (DoubleVec t arr validity))
     | _ \<Rightarrow>
         outcome_bind (make_slice 16 (int (length selection)) VNil) (\<lambda>_.
         outcome_bind (map_outcome (\<lambda>idx. nil_GetObject dict (sint idx)) selection) (\<lambda>values.
         Done (ObjectVec t values))))"

text \<open>\<^verbatim>\<open>v := start; for i := range arr { ...v...; v += incr }\<close>.\<close>

primrec sequence_values :: "nat \<Rightarrow> 64 word \<Rightarrow> 64 word \<Rightarrow> 64 word list" where
  "sequence_values 0 v incr = []"
| "sequence_values (Suc n) v incr = v # sequence_values n (v + incr) incr"

definition sequenceVector :: "LogicalType \<Rightarrow> int \<Rightarrow> 64 word \<Rightarrow> 64 word \<Rightarrow> DecodedVector outcome" where
  "sequenceVector t count start incr =
     (if lt_ID t = LogicalTypeIDInteger then
        outcome_bind (make_slice 4 count (0 :: 32 word)) (\<lambda>arr.
        Done (IntVec t (map ucast (sequence_values (length arr) start incr)) None))
      else if lt_ID t = LogicalTypeIDBigInt then
        outcome_bind (make_slice 8 count (0 :: 64 word)) (\<lambda>arr.
        Done (LongVec t (sequence_values (length arr) start incr) None))
      else
        outcome_bind (make_slice 16 count VNil) (\<lambda>values.
        Done (ObjectVec t (map (decodeInt64LogicalValue t) (sequence_values (length values) start incr)))))"

section \<open>Auxiliary reads\<close>

record listEntry =
  le_offset :: int
  le_length :: int

definition zeroListEntry :: listEntry where
  "zeroListEntry = \<lparr>le_offset = 0, le_length = 0\<rparr>"

text \<open>A nil \<^verbatim>\<open>[]int32\<close> or \<^verbatim>\<open>[]listEntry\<close> is the empty list (only its length and elements are used).\<close>

definition readSelectionVector :: "int \<Rightarrow> 32 word list rd" where
  "readSelectionVector count = rbind ReadBlob (\<lambda>bs.
     if int (length bs) \<noteq> wrap64 (count * 4) then rbind AssertEOF (\<lambda>_. rret [])
     else rlift (outcome_bind (make_slice 4 count (0 :: 32 word)) (\<lambda>out.
       map_outcome (\<lambda>i. if i * 4 + 4 \<le> length bs then Done (le_word (take 4 (drop (i * 4) bs))) else Panic)
         [0..<length out])))"

definition readValidityMask :: "int \<Rightarrow> validity rd" where
  "readValidityMask count = rbind ReadBlob (\<lambda>bs.
     if int (length bs) \<noteq> ValidityWireByteCount count then rbind AssertEOF (\<lambda>_. rret None)
     else rlift (ValidityFromBytes bs count))"

definition readListEntries :: "int \<Rightarrow> listEntry list rd" where
  "readListEntries count =
     rbind (ReadList 16 (\<lambda>_. ReadObject zeroListEntry
       (rbind (ReadRequiredField 100 0 ReadULEB128Int) (\<lambda>off.
        rbind (ReadRequiredField 101 0 ReadULEB128Int) (\<lambda>ln.
        rret \<lparr>le_offset = off, le_length = ln\<rparr>)))))
     (\<lambda>entries. if int (length entries) \<noteq> count then rbind AssertEOF (\<lambda>_. rret []) else rret entries)"

section \<open>Nested columns\<close>

text \<open>The row of a STRUCT: the fields whose child column was read.\<close>

definition struct_row :: "ChildType list \<Rightarrow> DecodedVector option list \<Rightarrow> int \<Rightarrow> govalue outcome" where
  "struct_row children childVecs row =
     outcome_bind (for_each (\<lambda>(c, child) rowMap.
       if c < length childVecs \<and> childVecs ! c \<noteq> None
       then outcome_bind (nil_GetObject (childVecs ! c) row) (\<lambda>v. Done (AList.update (ct_Name child) v rowMap))
       else Done rowMap) (enumerate 0 children) []) (\<lambda>rowMap. Done (VMap rowMap))"

text \<open>\<open>count\<close> rows, the invalid ones left nil, the others computed by \<open>row\<close>.\<close>

definition rows_of :: "int \<Rightarrow> validity \<Rightarrow> (int \<Rightarrow> govalue outcome) \<Rightarrow> govalue list outcome" where
  "rows_of count validity row = outcome_bind (make_slice 16 count VNil) (\<lambda>values.
     map_outcome (\<lambda>i. outcome_bind (ValidityIsValid validity (int i)) (\<lambda>ok.
       if ok then row (int i) else Done VNil)) [0..<length values])"

text \<open>\<open>slice[k] = childVec.GetObject(off + k)\<close> for \<open>k < n\<close>.\<close>

definition child_slice :: "DecodedVector option \<Rightarrow> int \<Rightarrow> int \<Rightarrow> govalue outcome" where
  "child_slice childVec off n = outcome_bind (make_slice 16 n VNil) (\<lambda>slice.
     outcome_bind (map_outcome (\<lambda>k. nil_GetObject childVec (wrap64 (off + int k))) [0..<length slice])
       (\<lambda>vs. Done (VList vs)))"

definition list_rows :: "int \<Rightarrow> validity \<Rightarrow> listEntry list \<Rightarrow> DecodedVector option \<Rightarrow> govalue list outcome" where
  "list_rows count validity entries childVec = outcome_bind (make_slice 16 count VNil)
     (for_each (\<lambda>(row, e) values.
       outcome_bind (ValidityIsValid validity (int row)) (\<lambda>ok.
       if \<not> ok then Done values
       else outcome_bind (child_slice childVec (le_offset e) (le_length e)) (\<lambda>slice.
            set_at values (int row) slice))) (enumerate 0 entries))"

definition array_rows :: "int \<Rightarrow> validity \<Rightarrow> int \<Rightarrow> DecodedVector option \<Rightarrow> govalue list outcome" where
  "array_rows count validity arrSize childVec =
     rows_of count validity (\<lambda>row. child_slice childVec (wrap64 (row * arrSize)) arrSize)"

section \<open>Columns\<close>

text \<open>Field 99 in front of a GEOMETRY column.\<close>

definition skip_geometry_field :: "LogicalType \<Rightarrow> unit rd" where
  "skip_geometry_field t r =
     (if lt_ID t = LogicalTypeIDGeometry \<and> \<not> EOF r
      then rbind PeekFieldID (\<lambda>i. if i = 99
             then rbind (ReadRequiredField 99 0 ReadULEB128Int) (\<lambda>_. rret ()) else rret ()) r
      else Done ((), r))"

definition force_error :: "'a \<Rightarrow> 'a rd" where
  "force_error zero = rbind AssertEOF (\<lambda>_. rret zero)"

definition object_column :: "LogicalType \<Rightarrow> govalue list outcome \<Rightarrow> DecodedVector option rd" where
  "object_column t m = rlift (outcome_bind m (\<lambda>values. Done (Some (ObjectVec t values))))"

function (sequential)
  DecodeVector :: "nat \<Rightarrow> LogicalType \<Rightarrow> int \<Rightarrow> DecodedVector option rd" and
  decodeVectorBody :: "nat \<Rightarrow> LogicalType \<Rightarrow> int \<Rightarrow> DecodedVector option rd" and
  decodeFlatVector :: "nat \<Rightarrow> LogicalType \<Rightarrow> int \<Rightarrow> DecodedVector option rd"
where
  "DecodeVector n t count = ReadObject None (decodeVectorBody n t count)"
| "decodeVectorBody 0 t count = (\<lambda>r. OutOfFuel)"
| "decodeVectorBody (Suc n) t count =
     rbind (ReadOptionalField 90 ReadULEB128Int VectorTypeFlat) (\<lambda>vectorType.
       if vectorType = VectorTypeFlat then decodeFlatVector (Suc n) t count
       else if vectorType = VectorTypeFSST then force_error None
       else if vectorType = VectorTypeConstant then
         rbind (decodeVectorBody n t (minOne count)) (\<lambda>single.
         rbind (rlift (case single of
                  Some v \<Rightarrow> (if 0 < vec_Size v then GetObject v 0 else Done VNil)
                | None \<Rightarrow> Done VNil)) (\<lambda>value.
         rlift (outcome_bind (broadcastValue t value count) (\<lambda>v. Done (Some v)))))
       else if vectorType = VectorTypeDictionary then
         rbind (ReadRequiredField 91 [] (readSelectionVector count)) (\<lambda>selection.
         rbind (ReadRequiredField 92 0 ReadULEB128Int) (\<lambda>dictCount.
         rbind (decodeVectorBody n t dictCount) (\<lambda>dict.
         rlift (outcome_bind (projectVector t dict selection) (\<lambda>v. Done (Some v))))))
       else if vectorType = VectorTypeSequence then
         rbind (ReadRequiredField 91 0 ReadSLEB128) (\<lambda>start.
         rbind (ReadRequiredField 92 0 ReadSLEB128) (\<lambda>incr.
         rlift (outcome_bind (sequenceVector t count start incr) (\<lambda>v. Done (Some v)))))
       else force_error None)"
| "decodeFlatVector 0 t count = (\<lambda>r. OutOfFuel)"
| "decodeFlatVector (Suc n) t count =
     rbind (skip_geometry_field t) (\<lambda>_.
     rbind (ReadRequiredField 100 False ReadBool) (\<lambda>hasValidity.
     rbind (if hasValidity then ReadRequiredField 101 None (readValidityMask count) else rret None) (\<lambda>validity.
     let physical = GetPhysicalType t in
     if IsConstantSize physical then
       rbind (rlift (ByteWidth physical)) (\<lambda>width.
       rbind (ReadRequiredField 102 [] ReadBlob) (\<lambda>bs.
       if int (length bs) \<noteq> wrap64 (width * count) then force_error None
       else rlift (outcome_bind (decodeFixedFlatVector t physical bs count validity) (\<lambda>v. Done (Some v)))))
     else if physical = PhysicalTypeVarchar then
       rbind (ReadRequiredField 102 [] (ReadList 24 (\<lambda>_. ReadStringBytes))) (\<lambda>raw.
       object_column t (keep_valid validity (map (decodeStringLikeValue t) raw)))
     else if physical = PhysicalTypeStruct then
       let children = or_zero [] (GetStructChildren t) in
       rbind (ReadRequiredField 103 [] (ReadList 16 (\<lambda>i.
         if length children \<le> i then force_error None
         else DecodeVector n (ct_Type (children ! i)) count))) (\<lambda>childVecs.
       object_column t (rows_of count validity (struct_row children childVecs)))
     else if physical = PhysicalTypeList then
       rbind (ReadRequiredField 104 0 ReadULEB128Int) (\<lambda>listSize.
       rbind (ReadRequiredField 105 [] (readListEntries count)) (\<lambda>entries.
       let childType = or_zero zeroLogicalType (GetChildType t) in
       rbind (ReadRequiredField 106 None (DecodeVector n childType listSize)) (\<lambda>childVec.
       object_column t (list_rows count validity entries childVec))))
     else if physical = PhysicalTypeArray then
       rbind (ReadRequiredField 103 0 ReadULEB128Int) (\<lambda>arrSize.
       if arrSize \<noteq> or_zero 0 (GetArraySize t) then force_error None
       else let childType = or_zero zeroLogicalType (GetChildType t) in
         rbind (ReadRequiredField 104 None (DecodeVector n childType (wrap64 (arrSize * count)))) (\<lambda>childVec.
         object_column t (array_rows count validity arrSize childVec)))
     else force_error None)))"
  by pat_completeness auto

termination DecodeVector
  by (relation "measure (\<lambda>x. case x of Inl (n, _) \<Rightarrow> 3 * n + 2 | Inr (Inl (n, _)) \<Rightarrow> 3 * n + 1
        | Inr (Inr (n, _)) \<Rightarrow> 3 * n)") auto

declare DecodeVector.simps [simp del] decodeVectorBody.simps [simp del] decodeFlatVector.simps [simp del]

section \<open>Data chunks\<close>

definition DecodeDataChunk :: "nat \<Rightarrow> DataChunk rd" where
  "DecodeDataChunk n = ReadObject zeroDataChunk
     (rbind (ReadRequiredField 100 0 ReadULEB128Int) (\<lambda>rowCount.
      rbind (ReadRequiredField 101 [] (ReadList sizeof_LogicalType (\<lambda>_. DecodeLogicalType n))) (\<lambda>types.
      rbind (ReadRequiredField 102 [] (ReadList 16 (\<lambda>i.
        if length types \<le> i then force_error None
        else DecodeVector n (types ! i) rowCount))) (\<lambda>columns.
      rbind (if length columns \<noteq> length types then AssertEOF else rret ()) (\<lambda>_.
      rret \<lparr>RowCount = rowCount, Types = types, Columns = columns\<rparr>)))))"

definition DecodeDataChunkWrapper :: "nat \<Rightarrow> DataChunk rd" where
  "DecodeDataChunkWrapper n = ReadObject zeroDataChunk
     (ReadRequiredField 300 zeroDataChunk (DecodeDataChunk n))"

section \<open>Fuel is enough, on any input\<close>

lemma fueled_rlift [safe_rules]: "m \<noteq> OutOfFuel \<Longrightarrow> fueled n (rlift m)"
  by (cases m) (auto simp: fueled_def rlift_def forward_def)

lemma fueled_force_error [safe_rules]: "fueled n (force_error z)"
  unfolding force_error_def by (intro safe_rules)

text \<open>An optional field that yields something else than its default was there, so bytes were consumed.\<close>

lemma optional_advances:
  assumes r: "sane r" "left r < Suc n" and f: "fueled n f" and fid: "fid \<noteq> 0"
    and ret: "ReadOptionalField fid f d r = Done (v, r')" and v: "v \<noteq> d"
  shows "left r' < n"
proof -
  have ok: "r_err r = None" "\<not> EOF r"
    using ret v by (auto simp: ReadOptionalField_def split: if_splits)
  have "\<exists>w. PeekFieldID r = Done (w, r) \<and> ReadFieldID r = Done (w, advance 2 r)
      \<and> r_offset r + 2 \<le> length (r_bytes r)"
    using peek_then_read [OF ok(1)] ret v ok fid by (auto simp: ReadOptionalField_def rbind_def rret_def)
  then have adv: "sane (advance 2 r)" "left (advance 2 r) < n"
      and "f (advance 2 r) = Done (v, r')"
    using ret v ok r by (auto simp: ReadOptionalField_def rbind_def rret_def sane_def left_def split: if_splits)
  then have "forward (advance 2 r) r'" using fueledD(2) [OF f] by blast
  then show ?thesis using forward_left adv(2) le_less_trans by blast
qed

lemma fueled_rbind_optional:
  assumes f: "fueled n f" and fid: "fid \<noteq> 0" and d: "fueled (Suc n) (g d)" and g: "\<And>v. v \<noteq> d \<Longrightarrow> fueled n (g v)"
  shows "fueled (Suc n) (rbind (ReadOptionalField fid f d) g)"
proof -
  note opt = fueled_ReadOptionalField [OF f fid]
  have "rbind (ReadOptionalField fid f d) g r \<noteq> OutOfFuel
      \<and> (\<forall>w r'. rbind (ReadOptionalField fid f d) g r = Done (w, r') \<longrightarrow> forward r r')"
    if r: "sane r" "left r < Suc n" for r
  proof (cases "ReadOptionalField fid f d r")
    case (Done x)
    obtain v r1 where x: "x = (v, r1)" by (cases x)
    have fw: "forward r r1" using fueledD(2) [OF opt r] Done x by simp
    have s1: "sane r1" by (rule forward_sane [OF fw])
    have "g v r1 \<noteq> OutOfFuel \<and> (\<forall>w r'. g v r1 = Done (w, r') \<longrightarrow> forward r1 r')"
    proof (cases "v = d")
      case True
      have "left r1 < Suc n" using forward_left [OF fw] r(2) by simp
      then show ?thesis using fueledD [OF d s1] True by blast
    next
      case False
      have "left r1 < n" by (rule optional_advances [OF r f fid]) (use Done x False in simp_all)
      then show ?thesis using fueledD [OF g [OF False] s1] by blast
    qed
    then show ?thesis using Done x fw forward_trans by (auto simp: rbind_def)
  qed (use fueledD(1) [OF opt r] in \<open>simp_all add: rbind_def\<close>)
  then show ?thesis by (simp add: fueled_def)
qed

lemma fueled_skip_geometry_field: "fueled n (skip_geometry_field t)"
proof -
  have "fueled n (rbind PeekFieldID (\<lambda>i. if i = 99
      then rbind (ReadRequiredField 99 0 ReadULEB128Int) (\<lambda>_. rret ()) else rret ()))"
    by (intro safe_rules fueled_ReadRequiredField_any)
  then show ?thesis
    by (auto simp: skip_geometry_field_def fueled_def forward_refl)
qed

lemma fueled_decodeFixedValue: "fueled n (decodeFixedValue t p)"
  unfolding decodeFixedValue_def Let_def by (intro safe_rules)

lemma fueled_read_values: "fueled n f \<Longrightarrow> fueled n (read_values m f)"
  by (induction m) (auto intro!: safe_rules)

lemma read_array_no_fuel:
  assumes "\<And>n. fueled n f"
  shows "read_array esz count f (NewBinaryReader bs) \<noteq> OutOfFuel"
proof -
  have "read_values (nat count) f (NewBinaryReader bs) \<noteq> OutOfFuel"
    by (rule fueledD(1) [OF fueled_read_values [OF assms] _ lessI]) (simp add: sane_def NewBinaryReader_def)
  then show ?thesis by (auto simp: read_array_def)
qed

lemma keep_valid_no_fuel [simp]: "keep_valid v vs \<noteq> OutOfFuel"
  unfolding keep_valid_def by (rule map_outcome_no_fuel) auto

lemma decodeFixedFlatVector_no_fuel [simp]: "decodeFixedFlatVector t p bs count v \<noteq> OutOfFuel"
proof -
  note r = read_array_no_fuel [OF fueled_decodeFixedValue] read_array_no_fuel [OF fueled_fixed(1)]
    read_array_no_fuel [OF fueled_fixed(3)] read_array_no_fuel [OF fueled_fixed(5)]
    read_array_no_fuel [OF fueled_fixed(7)] read_array_no_fuel [OF fueled_fixed(9)]
    read_array_no_fuel [OF fueled_fixed(10)]
  have m: "read_array esz count (rbind g (\<lambda>x. rret (h x))) (NewBinaryReader bs) \<noteq> OutOfFuel"
    if "\<And>n. fueled n g" for esz and g :: "'c rd" and h :: "'c \<Rightarrow> 'd"
    by (intro read_array_no_fuel safe_rules that)
  note m' = m [OF fueled_fixed(2)] m [OF fueled_fixed(4)] m [OF fueled_fixed(6)]
  show ?thesis
    by (simp add: decodeFixedFlatVector_def Let_def r m')
qed

lemma project_values_no_fuel [simp]: "project_values z esz vs v sel \<noteq> OutOfFuel"
  by (auto simp: project_values_def Let_def dest!: for_each_no_fuel [THEN notE, rotated] split: option.splits if_splits)

lemma nil_GetObject_no_fuel [simp]: "nil_GetObject v row \<noteq> OutOfFuel"
  by (simp add: nil_GetObject_def split: option.split)

lemma vectors_no_fuel [simp]:
  "zeroFilledPrimitiveVector t p count v \<noteq> OutOfFuel" "broadcastValue t x count \<noteq> OutOfFuel"
  "projectVector t dict sel \<noteq> OutOfFuel" "sequenceVector t count start incr \<noteq> OutOfFuel"
proof -
  show z: "zeroFilledPrimitiveVector t p count v \<noteq> OutOfFuel" for p count v
    by (simp add: zeroFilledPrimitiveVector_def)
  show "broadcastValue t x count \<noteq> OutOfFuel"
    by (simp add: broadcastValue_def Let_def z)
  show "sequenceVector t count start incr \<noteq> OutOfFuel"
    by (simp add: sequenceVector_def)
  show "projectVector t dict sel \<noteq> OutOfFuel"
    by (auto simp: projectVector_def map_outcome_no_fuel split: option.splits DecodedVector.splits)
qed

lemma rows_of_no_fuel: "(\<And>i. f i \<noteq> OutOfFuel) \<Longrightarrow> rows_of count v f \<noteq> OutOfFuel"
  by (auto simp: rows_of_def intro!: map_outcome_no_fuel split: if_splits)

lemma child_slice_no_fuel [simp]: "child_slice cv off k \<noteq> OutOfFuel"
proof -
  have "map_outcome (\<lambda>k. nil_GetObject cv (wrap64 (off + int k))) ks \<noteq> OutOfFuel" for ks
    by (rule map_outcome_no_fuel) simp
  then show ?thesis by (simp add: child_slice_def)
qed

lemma array_rows_no_fuel [simp]: "array_rows count v k cv \<noteq> OutOfFuel"
  unfolding array_rows_def by (rule rows_of_no_fuel) simp

lemma struct_row_no_fuel [simp]: "struct_row children cvs row \<noteq> OutOfFuel"
proof -
  have "for_each (\<lambda>(c, child) rowMap. if c < length cvs \<and> cvs ! c \<noteq> None
      then outcome_bind (nil_GetObject (cvs ! c) row) (\<lambda>v. Done (AList.update (ct_Name child) v rowMap))
      else Done rowMap) xs m \<noteq> OutOfFuel" for xs m
    by (rule for_each_no_fuel) (auto split: if_splits)
  then show ?thesis by (simp add: struct_row_def)
qed

lemma list_rows_no_fuel [simp]: "list_rows count v es cv \<noteq> OutOfFuel"
proof -
  have loop: "for_each (\<lambda>(row, e) values.
       outcome_bind (ValidityIsValid v (int row)) (\<lambda>ok.
       if \<not> ok then Done values
       else outcome_bind (child_slice cv (le_offset e) (le_length e)) (\<lambda>slice.
            set_at values (int row) slice))) xs m \<noteq> OutOfFuel" for xs m
    by (rule for_each_no_fuel) (auto split: if_splits)
  show ?thesis
    unfolding list_rows_def by (simp only: outcome_bind_eq_OutOfFuel no_fuel_simps loop simp_thms)
qed

lemma fueled_readSelectionVector: "fueled n (readSelectionVector count)"
proof -
  have "map_outcome (\<lambda>i. if i * 4 + 4 \<le> length bs then Done (le_word (take 4 (drop (i * 4) bs))) else Panic) xs
      \<noteq> (OutOfFuel :: 32 word list outcome)" for xs bs
    by (rule map_outcome_no_fuel) (auto split: if_splits)
  then show ?thesis unfolding readSelectionVector_def by (intro safe_rules) auto
qed

lemma fueled_readValidityMask: "fueled n (readValidityMask count)"
  unfolding readValidityMask_def by (intro safe_rules) auto

lemma fueled_readListEntries: "fueled n (readListEntries count)"
  unfolding readListEntries_def
  by (intro safe_rules fueled_ReadList_any fueled_ReadRequiredField_any)

lemmas fueled_aux_reads = fueled_readSelectionVector fueled_readValidityMask fueled_readListEntries

lemma fueled_object_column: "m \<noteq> OutOfFuel \<Longrightarrow> fueled n (object_column t m)"
  unfolding object_column_def by (rule fueled_rlift) auto

lemma ByteWidth_no_fuel [simp]: "ByteWidth p \<noteq> OutOfFuel"
  by (auto simp: ByteWidth_def)

lemma decodeFlatVector_fueled:
  assumes "\<And>t count. fueled n (DecodeVector n t count)"
  shows "fueled (Suc n) (decodeFlatVector (Suc n) t count)"
  unfolding decodeFlatVector.simps Let_def
  by (intro safe_rules fueled_skip_geometry_field fueled_ReadRequiredField_any [of "Suc n"] fueled_aux_reads
      fueled_object_column)
    (auto intro!: fueled_ReadRequiredField fueled_ReadList_any safe_rules assms rows_of_no_fuel fueled_aux_reads)

lemma decodeVectorBody_fueled: "fueled n (decodeVectorBody n t count)"
proof (induction n arbitrary: t count)
  case 0
  then show ?case by (simp add: fueled_def)
next
  case (Suc n)
  have "fueled n (DecodeVector n t count)" for t count
    unfolding DecodeVector.simps by (intro safe_rules Suc.IH)
  note flat = decodeFlatVector_fueled [OF this]
  show ?case
    unfolding decodeVectorBody.simps
    by (rule fueled_rbind_optional)
       (auto intro!: safe_rules flat Suc.IH fueled_ReadRequiredField_any fueled_aux_reads split: option.splits if_splits)
qed

lemma DecodeVector_fueled: "fueled n (DecodeVector n t count)"
  unfolding DecodeVector.simps by (intro safe_rules decodeVectorBody_fueled)

lemma DecodeDataChunk_fueled: "fueled n (DecodeDataChunk n)" "fueled n (DecodeDataChunkWrapper n)"
proof -
  show "fueled n (DecodeDataChunk n)"
    unfolding DecodeDataChunk_def
    by (intro safe_rules fueled_ReadRequiredField_any fueled_ReadList_any LogicalType_fueled DecodeVector_fueled)
  then show "fueled n (DecodeDataChunkWrapper n)"
    unfolding DecodeDataChunkWrapper_def by (intro safe_rules fueled_ReadRequiredField_any)
qed

end
