(* ===== verification/VectorEncoder.thy ===== *)
theory VectorEncoder
  imports VectorCodec
begin

text \<open>
  \<^verbatim>\<open>internal/message/vector_encoder.go\<close>: the encoders of column vectors and data chunks.  An encoder
  that can panic is a \<open>wr outcome\<close>: the panic, or the writer action of the call.

  Two library functions stay parameters, bundled in \<open>go_lib\<close>: \<open>fmt_other\<close>, what \<^verbatim>\<open>fmt.Sprintf("%v", x)\<close>
  prints for values other than strings, booleans and integers (floats, times, bytes, composites), and
  \<open>ParseFloat\<close>, the exact value of \<^verbatim>\<open>big.ParseFloat(s, 10, 256, big.ToNearestEven)\<close>, \<open>None\<close> on an error.
\<close>

record go_lib =
  fmt_other :: "govalue \<Rightarrow> string"
  ParseFloat :: "string \<Rightarrow> rat option"

definition sprint_v :: "go_lib \<Rightarrow> govalue \<Rightarrow> string" where
  "sprint_v lib v = (case v of
       VString s \<Rightarrow> s
     | VBool b \<Rightarrow> (if b then ''true'' else ''false'')
     | VInt x \<Rightarrow> show_int x
     | VInt8 x \<Rightarrow> show_int (sint x)
     | VInt16 x \<Rightarrow> show_int (sint x)
     | VInt32 x \<Rightarrow> show_int (sint x)
     | VInt64 x \<Rightarrow> show_int (sint x)
     | VUint8 x \<Rightarrow> show_int (uint x)
     | VUint16 x \<Rightarrow> show_int (uint x)
     | VUint32 x \<Rightarrow> show_int (uint x)
     | VUint64 x \<Rightarrow> show_int (uint x)
     | VBigInt x \<Rightarrow> show_int x
     | _ \<Rightarrow> fmt_other lib v)"

section \<open>Logical values\<close>

definition durationSinceMidnight :: "go_time \<Rightarrow> int" where
  "durationSinceMidnight t =
     time_Hour t * hour_ns + time_Minute t * (60 * second_ns) + time_Second t * second_ns + t_nsec t"

text \<open>The integer part, toward zero, of a float in the \<^verbatim>\<open>int64\<close> range.\<close>

definition trunc_rat :: "rat \<Rightarrow> int" where
  "trunc_rat x = (if x < 0 then - \<lfloor>- x\<rfloor> else \<lfloor>x\<rfloor>)"

definition dateToEpochDays :: "govalue \<Rightarrow> int" where
  "dateToEpochDays value = (case value of
       VTime t \<Rightarrow> trunc_rat (round64 (Duration_Hours (time_Sub t epoch) / 24))
     | _ \<Rightarrow> sint (toInt64 value))"

definition encodeEnumOrInt :: "go_lib \<Rightarrow> LogicalType \<Rightarrow> govalue \<Rightarrow> int \<Rightarrow> int outcome" where
  "encodeEnumOrInt lib t value def =
     (if value = VNil then Done def
      else if lt_ID t = LogicalTypeIDEnum then
        let values = or_zero [] (GetEnumValues t); s = sprint_v lib value
        in (case filter (\<lambda>(i, v). v = s) (enumerate 0 values) of
              [] \<Rightarrow> Panic
            | (i, _) # _ \<Rightarrow> Done (int i))
      else Done (sint (toInt64 value)))"

definition toFloat64Ok :: "govalue \<Rightarrow> 64 word option" where
  "toFloat64Ok v = (case v of
       VFloat32 x \<Rightarrow> Some (float64_of_float32 x)
     | VFloat64 x \<Rightarrow> Some x
     | _ \<Rightarrow> (case toInt64Ok v of Some n \<Rightarrow> Some (float64_of_int (sint n)) | None \<Rightarrow> None))"

text \<open>\<^verbatim>\<open>new(big.Rat).SetFloat64(f)\<close>: nil when \<^verbatim>\<open>f\<close> is not finite.\<close>

definition rat_of_float64 :: "64 word \<Rightarrow> rat option" where
  "rat_of_float64 w = (let n = magnitude 63 w in
     if inf64 \<le> n then None else Some (if bit w 63 then - value64 n else value64 n))"

definition scale_rat :: "rat \<Rightarrow> int \<Rightarrow> int" where
  "scale_rat r factor = (let (num, denom) = quotient_of r in (num * factor) sdiv denom)"

definition decimalUnscaled :: "go_lib \<Rightarrow> LogicalType \<Rightarrow> govalue \<Rightarrow> int outcome" where
  "decimalUnscaled lib t value = (case lt_TypeInfo t of
       Some (DecimalTypeInfo _ scale _) \<Rightarrow> (let factor = 10 ^ nat scale in
         (case value of
            VRat r \<Rightarrow> Done (scale_rat r factor)
          | VBigInt v \<Rightarrow> Done (v * factor)
          | VString s \<Rightarrow> (case ParseFloat lib s of Some r \<Rightarrow> Done (scale_rat r factor) | None \<Rightarrow> Done 0)
          | _ \<Rightarrow> (case toInt64Ok value of
                Some n \<Rightarrow> Done (sint n * factor)
              | None \<Rightarrow> (case toFloat64Ok value of
                    Some f \<Rightarrow> (case rat_of_float64 f of Some r \<Rightarrow> Done (scale_rat r factor) | None \<Rightarrow> Done 0)
                  | None \<Rightarrow> Done 0))))
     | _ \<Rightarrow> Panic)"

text \<open>\<^verbatim>\<open>big.Int.SetString(s, 16)\<close>: an optional sign and at least one hex digit.\<close>

definition hex_value :: "char \<Rightarrow> int option" where
  "hex_value c = (let n = of_char c :: int in
     if 48 \<le> n \<and> n \<le> 57 then Some (n - 48)
     else if 97 \<le> n \<and> n \<le> 102 then Some (n - 87)
     else if 65 \<le> n \<and> n \<le> 70 then Some (n - 55)
     else None)"

primrec hex_digits :: "string \<Rightarrow> int \<Rightarrow> int option" where
  "hex_digits [] acc = Some acc"
| "hex_digits (c # cs) acc = (case hex_value c of None \<Rightarrow> None | Some d \<Rightarrow> hex_digits cs (acc * 16 + d))"

definition SetString16 :: "string \<Rightarrow> int option" where
  "SetString16 s = (case s of
       CHR ''-'' # c # cs \<Rightarrow> map_option uminus (hex_digits (c # cs) 0)
     | CHR ''+'' # c # cs \<Rightarrow> hex_digits (c # cs) 0
     | c # cs \<Rightarrow> hex_digits (c # cs) 0
     | [] \<Rightarrow> None)"

definition uuidToHugeIntParts :: "govalue \<Rightarrow> HugeIntParts" where
  "uuidToHugeIntParts value = (case value of
       VString s \<Rightarrow>
         (if length s \<noteq> 36 then zeroHugeInt
          else let hex = filter (\<lambda>c. c \<noteq> CHR ''-'') s in
            if length hex \<noteq> 32 then zeroHugeInt
            else (case (SetString16 (take 16 hex), SetString16 (drop 16 hex)) of
                (Some upper, Some lower) \<Rightarrow>
                  \<lparr>Upper = word_of_int upper XOR push_bit 63 1, Lower = word_of_int lower\<rparr>
              | _ \<Rightarrow> zeroHugeInt))
     | _ \<Rightarrow> zeroHugeInt)"

definition encodeStringLikeValueForWrite :: "go_lib \<Rightarrow> govalue \<Rightarrow> bytes" where
  "encodeStringLikeValueForWrite lib value = (case value of
       VNil \<Rightarrow> []
     | VBytes b \<Rightarrow> b
     | _ \<Rightarrow> bytes_of_string (sprint_v lib value))"

definition encodeInt64LogicalValueForWrite :: "go_lib \<Rightarrow> LogicalType \<Rightarrow> govalue \<Rightarrow> 64 word outcome" where
  "encodeInt64LogicalValueForWrite lib t value = (let i = lt_ID t in
     if value = VNil then Done 0
     else if i = LogicalTypeIDDecimal then
       outcome_bind (decimalUnscaled lib t value) (\<lambda>v. Done (word_of_int v))
     else Done (case value of
         VTime tm \<Rightarrow>
           (if i = LogicalTypeIDTime then word_of_int (durationSinceMidnight tm sdiv 1000)
            else if i = LogicalTypeIDTimeNS then word_of_int (durationSinceMidnight tm)
            else if i = LogicalTypeIDTimestampSec then word_of_int (to_Unix tm)
            else if i = LogicalTypeIDTimestampMS then word_of_int (to_UnixMilli tm)
            else if i = LogicalTypeIDTimestamp \<or> i = LogicalTypeIDTimestampTZ then word_of_int (to_UnixMicro tm)
            else if i = LogicalTypeIDTimestampNS then word_of_int (to_UnixNano tm)
            else toInt64 value)
       | _ \<Rightarrow> toInt64 value))"

section \<open>Fixed-width columns\<close>

definition encodeFixedValueForWrite :: "go_lib \<Rightarrow> LogicalType \<Rightarrow> PhysicalType \<Rightarrow> govalue \<Rightarrow> wr outcome" where
  "encodeFixedValueForWrite lib t physical value =
     (if physical = PhysicalTypeBool then
        Done (WriteFixedUint8 (if toBool value then 1 else 0))
      else if physical = PhysicalTypeInt8 then Done (WriteFixedInt8 (ucast (toInt64 value)))
      else if physical = PhysicalTypeUint8 then
        outcome_bind (encodeEnumOrInt lib t value 0) (\<lambda>i. Done (WriteFixedUint8 (word_of_int i)))
      else if physical = PhysicalTypeInt16 then
        (if lt_ID t = LogicalTypeIDDecimal then
           outcome_bind (decimalUnscaled lib t value) (\<lambda>v. Done (WriteFixedInt16 (word_of_int v)))
         else Done (WriteFixedInt16 (ucast (toInt64 value))))
      else if physical = PhysicalTypeUint16 then
        outcome_bind (encodeEnumOrInt lib t value 0) (\<lambda>i. Done (WriteFixedUint16 (word_of_int i)))
      else if physical = PhysicalTypeInt32 then
        (if lt_ID t = LogicalTypeIDDate then Done (WriteFixedInt32 (word_of_int (dateToEpochDays value)))
         else if lt_ID t = LogicalTypeIDDecimal then
           outcome_bind (decimalUnscaled lib t value) (\<lambda>v. Done (WriteFixedInt32 (word_of_int v)))
         else Done (WriteFixedInt32 (ucast (toInt64 value))))
      else if physical = PhysicalTypeUint32 then
        outcome_bind (encodeEnumOrInt lib t value 0) (\<lambda>i. Done (WriteFixedUint32 (word_of_int i)))
      else if physical = PhysicalTypeInt64 then
        outcome_bind (encodeInt64LogicalValueForWrite lib t value) (\<lambda>v. Done (WriteFixedInt64 v))
      else if physical = PhysicalTypeUint64 then Done (WriteFixedUint64 (toInt64 value))
      else if physical = PhysicalTypeFloat then
        Done (WriteFixedFloat32 (float32_of_float64 (toFloat64 value)))
      else if physical = PhysicalTypeDouble then Done (WriteFixedFloat64 (toFloat64 value))
      else if physical = PhysicalTypeInt128 then
        outcome_bind
          (if value = VNil then Done zeroHugeInt
           else if lt_ID t = LogicalTypeIDUUID then Done (uuidToHugeIntParts value)
           else if lt_ID t = LogicalTypeIDDecimal then
             outcome_bind (decimalUnscaled lib t value) (\<lambda>v. Done (HugeIntFromSigned v))
           else Done (HugeIntFromSigned (case value of VBigInt v \<Rightarrow> v | _ \<Rightarrow> sint (toInt64 value))))
          (\<lambda>parts. Done (wseq (WriteFixedUint64 (Lower parts)) (WriteFixedInt64 (Upper parts))))
      else if physical = PhysicalTypeUint128 then
        (let v = (case value of VNil \<Rightarrow> 0 | VBigInt v \<Rightarrow> v | _ \<Rightarrow> sint (toInt64 value));
             msk = push_bit 64 1 - 1 :: int;
             lower = v AND msk; upper = drop_bit 64 v AND msk
         in Done (wseq (WriteFixedUint64 (word_of_int lower)) (WriteFixedUint64 (word_of_int upper))))
      else if physical = PhysicalTypeInterval then
        (let iv = (case value of VInterval iv \<Rightarrow> iv | _ \<Rightarrow> \<lparr>Months = 0, Days = 0, Micros = 0\<rparr>)
         in Done (wseq (WriteFixedInt32 (Months iv))
              (wseq (WriteFixedInt32 (Days iv)) (WriteFixedInt64 (Micros iv)))))
      else Done wskip)"

definition encodeFixedBytes :: "go_lib \<Rightarrow> LogicalType \<Rightarrow> PhysicalType \<Rightarrow> DecodedVector \<Rightarrow> bytes outcome" where
  "encodeFixedBytes lib t physical vec = (let rows = vec_Size vec in
     outcome_bind (ByteWidth physical) (\<lambda>width.
     outcome_bind (for_each (\<lambda>i buf.
       outcome_bind (IsNull vec (int i)) (\<lambda>isnull.
       outcome_bind (if isnull then Done VNil else GetObject vec (int i)) (\<lambda>v.
       outcome_bind (encodeFixedValueForWrite lib t physical v) (\<lambda>act. Done (act buf)))))
       [0..<rows] (NewBinaryWriter (wrap64 (width * int rows)))) (\<lambda>buf.
     Done (Bytes buf))))"

text \<open>The loop over an \<^verbatim>\<open>ObjectVec\<close>: a bitmap from the first nil value on.\<close>

definition object_validity :: "govalue list \<Rightarrow> int \<Rightarrow> validity outcome" where
  "object_validity values count = for_each (\<lambda>(i, val) validity.
     if val = VNil then
       outcome_bind (case validity of None \<Rightarrow> ValidityAllValid count | Some ws \<Rightarrow> Done ws) (\<lambda>ws.
       outcome_bind (ValiditySetNull ws (int i)) (\<lambda>ws'. Done (Some ws')))
     else Done validity) (enumerate 0 values) None"

definition extractValidity :: "DecodedVector \<Rightarrow> int \<Rightarrow> validity outcome" where
  "extractValidity vec count = (case vec of
       BoolVec _ _ v \<Rightarrow> Done v
     | ByteVec _ _ v \<Rightarrow> Done v
     | ShortVec _ _ v \<Rightarrow> Done v
     | IntVec _ _ v \<Rightarrow> Done v
     | LongVec _ _ v \<Rightarrow> Done v
     | FloatVec _ _ v \<Rightarrow> Done v
     | DoubleVec _ _ v \<Rightarrow> Done v
     | ObjectVec _ values \<Rightarrow> object_validity values count)"

section \<open>Columns and chunks\<close>

definition encodeFlatVectorBody :: "go_lib \<Rightarrow> LogicalType \<Rightarrow> DecodedVector \<Rightarrow> wr outcome" where
  "encodeFlatVectorBody lib t vec = (let count = vec_Size vec in
     outcome_bind (extractValidity vec (int count)) (\<lambda>validity.
     let hasNulls = validity \<noteq> None in
     outcome_bind (if hasNulls then ValidityToBytes validity (int count) else Done []) (\<lambda>vbytes.
     let header = wseq (WriteField 100 (WriteBool hasNulls))
           (if hasNulls then WriteField 101 (WriteBlob vbytes) else wskip);
         physical = GetPhysicalType t in
     if IsConstantSize physical then
       outcome_bind (encodeFixedBytes lib t physical vec) (\<lambda>bs.
       Done (wseq header (WriteField 102 (WriteBlob bs))))
     else if physical = PhysicalTypeVarchar then
       outcome_bind (map_outcome (\<lambda>i. GetObject vec (int i)) [0..<count]) (\<lambda>vs.
       Done (wseq header (WriteField 102 (wseq (WriteULEB128 (of_nat count))
         (foldr (\<lambda>v. wseq (WriteStringBytes (encodeStringLikeValueForWrite lib v))) vs wskip)))))
     else Panic)))"

definition EncodeVector :: "go_lib \<Rightarrow> LogicalType \<Rightarrow> DecodedVector \<Rightarrow> wr outcome" where
  "EncodeVector lib t vec = outcome_bind (encodeFlatVectorBody lib t vec) (\<lambda>body. Done (WriteObject body))"

definition EncodeDataChunk :: "go_lib \<Rightarrow> DataChunk \<Rightarrow> wr outcome" where
  "EncodeDataChunk lib chunk =
     (if length (Types chunk) \<noteq> length (Columns chunk) then Panic
      else if \<exists>col \<in> set (Columns chunk).
             (case col of None \<Rightarrow> True | Some v \<Rightarrow> int (vec_Size v) \<noteq> RowCount chunk) then Panic
      else outcome_bind (map_outcome (\<lambda>(t, col).
             case col of None \<Rightarrow> Panic | Some v \<Rightarrow> EncodeVector lib t v) (zip (Types chunk) (Columns chunk))) (\<lambda>cols.
        Done (WriteObject
          (wseq (WriteField 100 (WriteULEB128 (word_of_int (RowCount chunk))))
          (wseq (WriteField 101 (WriteList (Types chunk) (\<lambda>_. EncodeLogicalType)))
            (WriteField 102 (WriteList cols (\<lambda>_ act. act))))))))"

definition EncodeDataChunkWrapper :: "go_lib \<Rightarrow> DataChunk \<Rightarrow> wr outcome" where
  "EncodeDataChunkWrapper lib chunk = outcome_bind (EncodeDataChunk lib chunk) (\<lambda>body.
     Done (WriteObject (WriteField 300 body)))"

end
