(* ===== verification/Messages.thy ===== *)
theory Messages
  imports VectorEncoder
begin

text \<open>
  \<^verbatim>\<open>internal/message/messages.go\<close> and \<^verbatim>\<open>message_codec.go\<close>: the protocol messages and their wire form.  The
  sealed interface \<^verbatim>\<open>QuackMessage\<close> is a datatype with one constructor per Go struct, the fields in the
  order of the struct; the nil interface is \<open>None\<close> of an option.  A nil slice is the empty list.
\<close>

section \<open>Messages\<close>

type_synonym MessageType = int

abbreviation MessageTypeInvalid :: MessageType where "MessageTypeInvalid \<equiv> 0"
abbreviation MessageTypeConnectionRequest :: MessageType where "MessageTypeConnectionRequest \<equiv> 1"
abbreviation MessageTypeConnectionResponse :: MessageType where "MessageTypeConnectionResponse \<equiv> 2"
abbreviation MessageTypePrepareRequest :: MessageType where "MessageTypePrepareRequest \<equiv> 3"
abbreviation MessageTypePrepareResponse :: MessageType where "MessageTypePrepareResponse \<equiv> 4"
abbreviation MessageTypeFetchRequest :: MessageType where "MessageTypeFetchRequest \<equiv> 7"
abbreviation MessageTypeFetchResponse :: MessageType where "MessageTypeFetchResponse \<equiv> 8"
abbreviation MessageTypeAppendRequest :: MessageType where "MessageTypeAppendRequest \<equiv> 9"
abbreviation MessageTypeSuccessResponse :: MessageType where "MessageTypeSuccessResponse \<equiv> 10"
abbreviation MessageTypeDisconnectMessage :: MessageType where "MessageTypeDisconnectMessage \<equiv> 11"
abbreviation MessageTypeErrorResponse :: MessageType where "MessageTypeErrorResponse \<equiv> 100"

record MessageHeader =
  h_Type :: MessageType
  h_ConnectionID :: string
  h_ClientQueryID :: "64 word"

definition zeroHeader :: MessageHeader where
  "zeroHeader = \<lparr>h_Type = MessageTypeInvalid, h_ConnectionID = [], h_ClientQueryID = 0\<rparr>"

definition HasClientQueryID :: "MessageHeader \<Rightarrow> bool" where
  "HasClientQueryID h \<longleftrightarrow> h_ClientQueryID h \<noteq> OptionalIndexInvalid"

text \<open>
  \<open>ConnectionRequest hdr auth version platform minQuack maxQuack\<close>,
  \<open>ConnectionResponse hdr version platform quackVersion hasQuackVersion\<close>,
  \<open>PrepareResponse hdr types names needsMoreFetch results uuid\<close>,
  \<open>FetchResponse hdr results batchIndex hasBatchIndex\<close>, \<open>AppendRequest hdr schema table chunk\<close>.
\<close>

datatype QuackMessage =
    ConnectionRequest (Header: MessageHeader) string string string "64 word" "64 word"
  | ConnectionResponse (Header: MessageHeader) string string "64 word" bool
  | PrepareRequest (Header: MessageHeader) string
  | PrepareResponse (Header: MessageHeader) "LogicalType list" "string list" bool "DataChunk list" HugeIntParts
  | FetchRequest (Header: MessageHeader) HugeIntParts
  | FetchResponse (Header: MessageHeader) "DataChunk list" "64 word" bool
  | AppendRequest (Header: MessageHeader) string string DataChunk
  | SuccessResponse (Header: MessageHeader)
  | DisconnectMessage (Header: MessageHeader)
  | ErrorResponse (Header: MessageHeader) string

primrec messageTypeOf :: "QuackMessage \<Rightarrow> MessageType" where
  "messageTypeOf (ConnectionRequest _ _ _ _ _ _) = MessageTypeConnectionRequest"
| "messageTypeOf (ConnectionResponse _ _ _ _ _) = MessageTypeConnectionResponse"
| "messageTypeOf (PrepareRequest _ _) = MessageTypePrepareRequest"
| "messageTypeOf (PrepareResponse _ _ _ _ _ _) = MessageTypePrepareResponse"
| "messageTypeOf (FetchRequest _ _) = MessageTypeFetchRequest"
| "messageTypeOf (FetchResponse _ _ _ _) = MessageTypeFetchResponse"
| "messageTypeOf (AppendRequest _ _ _ _) = MessageTypeAppendRequest"
| "messageTypeOf (SuccessResponse _) = MessageTypeSuccessResponse"
| "messageTypeOf (DisconnectMessage _) = MessageTypeDisconnectMessage"
| "messageTypeOf (ErrorResponse _ _) = MessageTypeErrorResponse"

section \<open>Encoding\<close>

definition encodeHeader :: "MessageHeader \<Rightarrow> MessageType \<Rightarrow> wr" where
  "encodeHeader hdr mt = WriteObject
     (wseq (WriteField 1 (WriteULEB128 (word_of_int mt)))
     (wseq (if h_ConnectionID hdr \<noteq> [] then WriteField 2 (WriteString (h_ConnectionID hdr)) else wskip)
       (let queryID = (if \<not> HasClientQueryID hdr then OptionalIndexInvalid else h_ClientQueryID hdr)
        in WriteField 3 (WriteULEB128 queryID))))"

definition writeOptionalString :: "16 word \<Rightarrow> string \<Rightarrow> wr" where
  "writeOptionalString fieldID value = (if value \<noteq> [] then WriteField fieldID (WriteString value) else wskip)"

definition writeOptionalIndexNonZero :: "16 word \<Rightarrow> 64 word \<Rightarrow> wr" where
  "writeOptionalIndexNonZero fieldID value = (if value \<noteq> 0 then WriteField fieldID (WriteULEB128 value) else wskip)"

definition writeChunkPointerList :: "go_lib \<Rightarrow> DataChunk list \<Rightarrow> wr outcome" where
  "writeChunkPointerList lib chunks =
     outcome_bind (map_outcome (EncodeDataChunkWrapper lib) chunks) (\<lambda>acts.
     Done (WriteList acts (\<lambda>_ act. wseq (WriteBool True) act)))"

definition encodeBody :: "go_lib \<Rightarrow> QuackMessage \<Rightarrow> wr outcome" where
  "encodeBody lib m = (case m of
       ConnectionRequest _ auth version platform minQuack maxQuack \<Rightarrow> Done (WriteObject
         (wseq (writeOptionalString 1 auth)
         (wseq (writeOptionalString 2 version)
         (wseq (writeOptionalString 3 platform)
         (wseq (writeOptionalIndexNonZero 4 minQuack)
           (writeOptionalIndexNonZero 5 maxQuack))))))
     | ConnectionResponse _ version platform quackVersion hasQuackVersion \<Rightarrow> Done (WriteObject
         (wseq (writeOptionalString 1 version)
         (wseq (writeOptionalString 2 platform)
           (if hasQuackVersion then WriteField 3 (WriteULEB128 quackVersion) else wskip))))
     | PrepareRequest _ sql \<Rightarrow> Done (WriteObject (writeOptionalString 1 sql))
     | PrepareResponse _ types names needsMoreFetch results uuid \<Rightarrow>
         outcome_bind (if results \<noteq> [] then
             outcome_bind (writeChunkPointerList lib results) (\<lambda>act. Done (WriteField 4 act))
           else Done wskip) (\<lambda>chunks.
         Done (WriteObject
           (wseq (if types \<noteq> [] then WriteField 1 (WriteList types (\<lambda>_. EncodeLogicalType)) else wskip)
           (wseq (if names \<noteq> [] then WriteField 2 (WriteList names (\<lambda>_. WriteString)) else wskip)
           (wseq (if needsMoreFetch then WriteField 3 (WriteBool True) else wskip)
           (wseq chunks
             (WriteField 5 (WriteHugeInt uuid))))))))
     | FetchRequest _ uuid \<Rightarrow> Done (WriteObject (WriteField 1 (WriteHugeInt uuid)))
     | FetchResponse _ results batchIndex hasBatchIndex \<Rightarrow>
         outcome_bind (if results \<noteq> [] then
             outcome_bind (writeChunkPointerList lib results) (\<lambda>act. Done (WriteField 1 act))
           else Done wskip) (\<lambda>chunks.
         Done (WriteObject (wseq chunks
           (let batchIdx = (if \<not> hasBatchIndex then OptionalIndexInvalid else batchIndex)
            in WriteField 2 (WriteULEB128 batchIdx)))))
     | AppendRequest _ schema table chunk \<Rightarrow>
         outcome_bind (EncodeDataChunkWrapper lib chunk) (\<lambda>act.
         Done (WriteObject
           (wseq (writeOptionalString 1 schema)
           (wseq (if table \<noteq> [] then WriteField 2 (WriteString table) else wskip)
             (WriteField 3 (wseq (WriteBool True) act))))))
     | SuccessResponse _ \<Rightarrow> Done (WriteObject wskip)
     | DisconnectMessage _ \<Rightarrow> Done (WriteObject wskip)
     | ErrorResponse _ message \<Rightarrow> Done (WriteObject (writeOptionalString 1 message)))"

definition EncodeMessage :: "go_lib \<Rightarrow> QuackMessage \<Rightarrow> (codec_error + bytes) outcome" where
  "EncodeMessage lib m = outcome_bind (encodeBody lib m) (\<lambda>body.
     let w = body (encodeHeader (Header m) (messageTypeOf m) (NewBinaryWriter 256))
     in Done (case writer_Err w of Some e \<Rightarrow> Inl e | None \<Rightarrow> Inr (Bytes w)))"

section \<open>Decoding\<close>

definition decodeHeader :: "MessageHeader rd" where
  "decodeHeader = ReadObject zeroHeader
     (rbind (ReadRequiredField 1 0 ReadULEB128Int) (\<lambda>mt.
      rbind (ReadOptionalField 2 ReadString []) (\<lambda>connID.
      rbind (ReadRequiredField 3 0 ReadULEB128) (\<lambda>queryID.
      rret \<lparr>h_Type = mt, h_ConnectionID = connID, h_ClientQueryID = queryID\<rparr>))))"

text \<open>Element size of a \<^verbatim>\<open>[]DataChunk\<close>: an int and two slice headers.\<close>

definition sizeof_DataChunk :: int where "sizeof_DataChunk = 56"

definition readChunkPointerList :: "nat \<Rightarrow> DataChunk list rd" where
  "readChunkPointerList n = ReadList sizeof_DataChunk (\<lambda>_.
     rbind ReadBool (\<lambda>present. if \<not> present then rret zeroDataChunk else DecodeDataChunkWrapper n))"

definition decodeBody :: "nat \<Rightarrow> MessageHeader \<Rightarrow> QuackMessage option rd" where
  "decodeBody n header = (let ty = h_Type header in
     if ty = MessageTypeConnectionRequest then ReadObject None
       (rbind (ReadOptionalField 1 ReadString []) (\<lambda>auth.
        rbind (ReadOptionalField 2 ReadString []) (\<lambda>version.
        rbind (ReadOptionalField 3 ReadString []) (\<lambda>platform.
        rbind (ReadOptionalField 4 ReadULEB128 0) (\<lambda>minQuack.
        rbind (ReadOptionalField 5 ReadULEB128 0) (\<lambda>maxQuack.
        rret (Some (ConnectionRequest header auth version platform minQuack maxQuack))))))))
     else if ty = MessageTypeConnectionResponse then ReadObject None
       (rbind (ReadOptionalField 1 ReadString []) (\<lambda>version.
        rbind (ReadOptionalField 2 ReadString []) (\<lambda>platform.
        rbind PeekFieldID (\<lambda>fid.
          if fid = 3 then
            rbind ReadFieldID (\<lambda>_. rbind ReadULEB128 (\<lambda>quackVersion.
            rret (Some (ConnectionResponse header version platform quackVersion True))))
          else rret (Some (ConnectionResponse header version platform 0 False))))))
     else if ty = MessageTypePrepareRequest then ReadObject None
       (rbind (ReadOptionalField 1 ReadString []) (\<lambda>sql. rret (Some (PrepareRequest header sql))))
     else if ty = MessageTypePrepareResponse then ReadObject None
       (rbind (ReadOptionalField 1 (ReadList sizeof_LogicalType (\<lambda>_. DecodeLogicalType n)) []) (\<lambda>types.
        rbind (ReadOptionalField 2 (ReadList sizeof_string (\<lambda>_. ReadString)) []) (\<lambda>names.
        rbind (ReadOptionalField 3 ReadBool False) (\<lambda>needsMoreFetch.
        rbind (ReadOptionalField 4 (readChunkPointerList n) []) (\<lambda>results.
        rbind (ReadRequiredField 5 zeroHugeInt ReadHugeInt) (\<lambda>uuid.
        rret (Some (PrepareResponse header types names needsMoreFetch results uuid))))))))
     else if ty = MessageTypeFetchRequest then ReadObject None
       (rbind (ReadRequiredField 1 zeroHugeInt ReadHugeInt) (\<lambda>uuid. rret (Some (FetchRequest header uuid))))
     else if ty = MessageTypeFetchResponse then ReadObject None
       (rbind (ReadOptionalField 1 (readChunkPointerList n) []) (\<lambda>results.
        rbind (ReadRequiredField 2 0 ReadULEB128) (\<lambda>batchIdx.
        if batchIdx \<noteq> OptionalIndexInvalid then rret (Some (FetchResponse header results batchIdx True))
        else rret (Some (FetchResponse header results 0 False)))))
     else if ty = MessageTypeAppendRequest then ReadObject None
       (rbind (ReadOptionalField 1 ReadString []) (\<lambda>schema.
        rbind (ReadOptionalField 2 ReadString []) (\<lambda>table.
        rbind (ReadOptionalField 3
                (rbind ReadBool (\<lambda>present. if present then DecodeDataChunkWrapper n else rret zeroDataChunk))
                zeroDataChunk) (\<lambda>chunk.
        rret (Some (AppendRequest header schema table chunk))))))
     else if ty = MessageTypeSuccessResponse then ReadObject None (rret (Some (SuccessResponse header)))
     else if ty = MessageTypeDisconnectMessage then ReadObject None (rret (Some (DisconnectMessage header)))
     else if ty = MessageTypeErrorResponse then ReadObject None
       (rbind (ReadOptionalField 1 ReadString []) (\<lambda>message. rret (Some (ErrorResponse header message))))
     else rret None)"

text \<open>
  \<^verbatim>\<open>DecodeMessage\<close> checks the reader's error after the header, after the body and after \<^verbatim>\<open>AssertEOF\<close>.
\<close>

definition or_error :: "('a \<times> reader) outcome \<Rightarrow> ('a \<Rightarrow> reader \<Rightarrow> (codec_error + 'b) outcome) \<Rightarrow> (codec_error + 'b) outcome" where
  "or_error m k = outcome_bind m (\<lambda>(v, r). case Err r of Some e \<Rightarrow> Done (Inl e) | None \<Rightarrow> k v r)"

definition DecodeMessage :: "bytes \<Rightarrow> (codec_error + QuackMessage option) outcome" where
  "DecodeMessage bs =
     or_error (decodeHeader (NewBinaryReader bs)) (\<lambda>header r.
     or_error (decodeBody (Suc (length bs)) header r) (\<lambda>m r.
     or_error (AssertEOF r) (\<lambda>_ r. Done (Inr m))))"

end
