(* ===== verification/FixedLayout.thy ===== *)
theory FixedLayout
  imports VectorEncoder
begin

text \<open>
  The contract between \<^verbatim>\<open>encodeFixedValueForWrite\<close> and the reads of \<^verbatim>\<open>decodeFixedFlatVector\<close> /
  \<^verbatim>\<open>decodeFixedValue\<close>: for a logical and a physical type, a fixed-width layout of the values of a Go type.
  The locale derives that a column of such values is written row by row and read back; its
  interpretations discharge the contract for every physical type of the source.
\<close>

text \<open>An encoder that can panic emits \<open>bs\<close> when it does not panic and its action appends \<open>bs\<close>.\<close>

definition emits :: "wr outcome \<Rightarrow> bytes \<Rightarrow> bool" where
  "emits m bs \<longleftrightarrow> (\<exists>act. m = Done act \<and> appends act bs)"

lemma emits_Done [simp]: "emits (Done act) bs = appends act bs"
  by (simp add: emits_def)

lemma emits_bind: "m = Done x \<Longrightarrow> emits (f x) bs \<Longrightarrow> emits (outcome_bind m f) bs"
  by (simp add: emits_def)

locale fixed_layout =
  fixes lib :: go_lib and t :: LogicalType and p :: PhysicalType and width :: nat and esz :: int
    and applies :: bool and box :: "'a \<Rightarrow> govalue" and zero :: 'a and ok :: "'a \<Rightarrow> bool"
    and enc :: "'a \<Rightarrow> bytes" and get :: "'a rd"
  assumes width: "ByteWidth p = Done (int width)" "width \<noteq> 0" "width \<le> 16" "0 \<le> esz" "esz \<le> 16"
    and enc_width: "length (enc x) = width"
    and zero_ok: "ok zero"
    and box_nonnil: "ok x \<Longrightarrow> box x \<noteq> VNil"
    and value_writes: "applies \<Longrightarrow> ok x \<Longrightarrow> emits (encodeFixedValueForWrite lib t p (box x)) (enc x)"
    and nil_writes: "applies \<Longrightarrow> emits (encodeFixedValueForWrite lib t p VNil) (enc zero)"
    and value_reads: "applies \<Longrightarrow> ok x \<Longrightarrow> reads get x (enc x) rest"
begin

definition payload :: "'a list \<Rightarrow> bytes" where
  "payload vs = concat (map enc vs)"

lemma length_payload: "length (payload vs) = width * length vs"
  by (induction vs) (simp_all add: payload_def enc_width)

text \<open>
  The column \<open>vec\<close> shows the values \<open>vs\<close>: row \<open>i\<close> is the box of \<open>vs ! i\<close>, or nil, and then \<open>vs ! i\<close> is
  the zero value.
\<close>

definition shows_rows :: "DecodedVector \<Rightarrow> 'a list \<Rightarrow> bool" where
  "shows_rows vec vs \<longleftrightarrow> vec_Size vec = length vs \<and> list_all ok vs \<and>
     (\<forall>i < length vs. \<exists>isnull. IsNull vec (int i) = Done isnull \<and>
        (if isnull then vs ! i = zero else GetObject vec (int i) = Done (box (vs ! i))))"

lemma row_emits:
  assumes "applies" "shows_rows vec vs" "i < length vs"
  shows "emits (outcome_bind (IsNull vec (int i)) (\<lambda>isnull.
      outcome_bind (if isnull then Done VNil else GetObject vec (int i)) (encodeFixedValueForWrite lib t p)))
      (enc (vs ! i))"
proof -
  obtain isnull where n: "IsNull vec (int i) = Done isnull"
      "if isnull then vs ! i = zero else GetObject vec (int i) = Done (box (vs ! i))"
    using assms(2,3) by (auto simp: shows_rows_def)
  have "ok (vs ! i)" using assms(2,3) by (simp add: shows_rows_def list_all_length)
  then show ?thesis using n nil_writes value_writes assms(1) by (cases isnull) simp_all
qed

lemma rows_written:
  assumes "applies" "shows_rows vec vs"
  shows "encodeFixedBytes lib t p vec = Done (payload vs)"
proof -
  have step: "\<exists>act. outcome_bind (IsNull vec (int i)) (\<lambda>isnull.
      outcome_bind (if isnull then Done VNil else GetObject vec (int i)) (\<lambda>v.
      outcome_bind (encodeFixedValueForWrite lib t p v) (\<lambda>act. Done (act buf)))) = Done (act buf)
      \<and> appends act (enc (vs ! i))" if "i < length vs" for i and buf :: writer
  proof -
    obtain act where act: "outcome_bind (IsNull vec (int i)) (\<lambda>isnull.
        outcome_bind (if isnull then Done VNil else GetObject vec (int i)) (encodeFixedValueForWrite lib t p)) = Done act"
        "appends act (enc (vs ! i))"
      using row_emits [OF assms, of i] \<open>i < length vs\<close> by (auto simp: emits_def)
    have "outcome_bind (outcome_bind (IsNull vec (int i)) (\<lambda>isnull.
        outcome_bind (if isnull then Done VNil else GetObject vec (int i)) (encodeFixedValueForWrite lib t p)))
        (\<lambda>act. Done (act buf)) = Done (act buf)"
      unfolding act(1) by simp
    then show ?thesis using act(2) unfolding outcome_bind_assoc by blast
  qed
  have "k \<le> length vs \<Longrightarrow> w_err buf = None \<Longrightarrow>
      for_each (\<lambda>i buf. outcome_bind (IsNull vec (int i)) (\<lambda>isnull.
        outcome_bind (if isnull then Done VNil else GetObject vec (int i)) (\<lambda>v.
        outcome_bind (encodeFixedValueForWrite lib t p v) (\<lambda>act. Done (act buf))))) [0..<k] buf
      = Done (buf\<lparr>w_buf := w_buf buf @ payload (take k vs)\<rparr>)" for k buf
  proof (induction k)
    case 0
    then show ?case by (simp add: payload_def)
  next
    case (Suc k)
    let ?b = "buf\<lparr>w_buf := w_buf buf @ payload (take k vs)\<rparr>"
    obtain act where "appends act (enc (vs ! k))" and
      "outcome_bind (IsNull vec (int k)) (\<lambda>isnull.
        outcome_bind (if isnull then Done VNil else GetObject vec (int k)) (\<lambda>v.
        outcome_bind (encodeFixedValueForWrite lib t p v) (\<lambda>act. Done (act ?b)))) = Done (act ?b)"
      using step [of k ?b] Suc.prems by auto
    then show ?case
      using Suc by (simp add: for_each_append take_Suc_conv_app_nth payload_def appendsD)
  qed
  from this [of "length vs" "NewBinaryWriter n" for n] show ?thesis
    using assms(2) by (simp add: encodeFixedBytes_def width shows_rows_def Let_def Bytes_def NewBinaryWriter_def)
qed

lemma values_read:
  "applies \<Longrightarrow> list_all ok vs \<Longrightarrow> reads (read_values (length vs) get) vs (payload vs) rest"
proof (induction vs arbitrary: rest)
  case Nil
  then show ?case by (simp add: payload_def reads_rret)
next
  case (Cons v vs)
  have "reads (rbind get (\<lambda>v. rbind (read_values (length vs) get) (\<lambda>vs. rret (v # vs))))
      (v # vs) (enc v @ payload vs) rest" for rest
    using Cons by (intro reads_rbind [OF value_reads] reads_rbind_last [OF Cons.IH reads_rret]) simp_all
  then show ?case by (simp add: payload_def)
qed

lemma array_read:
  assumes "applies" "list_all ok vs" "length (payload vs) \<le> maxInput"
  shows "read_array esz (int (length vs)) get (NewBinaryReader (payload vs)) = Done vs"
proof -
  have "healthy (NewBinaryReader (payload vs))" "rem_bytes (NewBinaryReader (payload vs)) = payload vs @ []"
    using assms(3) by (simp_all add: healthy_def NewBinaryReader_def rem_bytes_def)
  note r = readsD [OF values_read [OF assms(1,2)] this]
  have "length vs \<le> maxInput" using assms(3) width(2) le_trans [OF _ assms(3), of "length vs"]
    by (simp add: length_payload)
  then have "int (length vs) \<le> 2 ^ 40" by (simp add: maxInput_def)
  then have "int (length vs) * esz \<le> 2 ^ 40 * 16" using width(4,5) by (intro mult_mono) simp_all
  then have "make_ok esz (int (length vs))" by (simp add: make_ok_def maxAlloc_def)
  then show ?thesis by (simp add: read_array_def r)
qed

end

section \<open>The typed layouts\<close>

abbreviation plain :: "LogicalType \<Rightarrow> PhysicalType \<Rightarrow> bool" where
  "plain t p \<equiv> \<not> needsObjectMaterialization t p"

lemma plain_ids:
  "plain t p \<Longrightarrow> lt_ID t \<noteq> LogicalTypeIDDecimal" "plain t p \<Longrightarrow> lt_ID t \<noteq> LogicalTypeIDDate"
  "plain t p \<Longrightarrow> lt_ID t \<noteq> LogicalTypeIDEnum"
  by (simp_all add: needsObjectMaterialization_def)

lemmas encode_fixed = encodeFixedValueForWrite_def toBool_def toInt64_def toFloat64_def encodeEnumOrInt_def
  encodeInt64LogicalValueForWrite_def Let_def

lemma narrow_widen [simp]:
  "ucast (scast a :: 64 word) = (a :: 8 word)" "ucast (scast b :: 64 word) = (b :: 16 word)"
  "ucast (scast c :: 64 word) = (c :: 32 word)"
proof -
  have top: "k \<le> n \<Longrightarrow> n < Suc k \<Longrightarrow> bit w k = bit w n" for k n :: nat and w :: "'w::len word"
    by (simp add: le_less_Suc_eq)
  show "ucast (scast a :: 64 word) = a" "ucast (scast b :: 64 word) = b" "ucast (scast c :: 64 word) = c"
    by (rule bit_word_eqI, simp add: bit_simps min_def, intro impI top, simp_all)+
qed

lemma signed_narrow [simp]:
  "scast (scast b :: 64 word) = (ucast b :: 8 word)" "scast (scast c :: 64 word) = (ucast c :: 16 word)"
  "scast d = (ucast d :: 32 word)" for b :: "16 word" and c :: "32 word" and d :: "64 word"
  by (rule bit_word_eqI, simp add: bit_simps min_def)+

lemma widen_narrow:
  "take_bit 8 b = b \<Longrightarrow> ucast (ucast b :: 8 word) = (b :: 16 word)"
  "take_bit 16 c = c \<Longrightarrow> ucast (ucast c :: 16 word) = (c :: 32 word)"
  "take_bit 32 d = d \<Longrightarrow> ucast (ucast d :: 32 word) = (d :: 64 word)"
  by (simp_all add: unsigned_ucast_eq)

text \<open>A read followed by a conversion.\<close>

lemma reads_convert: "reads f v bs rest \<Longrightarrow> h v = w \<Longrightarrow> reads (rbind f (\<lambda>x. rret (h x))) w bs rest"
  by (auto intro: reads_rbind_last reads_rret)

interpretation bool_layout: fixed_layout lib t PhysicalTypeBool 1 1 "plain t PhysicalTypeBool" VBool False "\<lambda>_. True"
    "\<lambda>b. [if b then 1 else 0]" "rbind ReadFixedUint8 (\<lambda>b. rret (b \<noteq> 0))" for lib t
  by unfold_locales
    (auto simp: ByteWidth_def encode_fixed appends_rules intro!: reads_convert [OF reads_ReadFixed(2)])

interpretation int8_layout: fixed_layout lib t PhysicalTypeInt8 1 1 "plain t PhysicalTypeInt8" VInt8 0 "\<lambda>_. True"
    "\<lambda>v. [v]" ReadFixedInt8 for lib t
  by unfold_locales (auto simp: ByteWidth_def encode_fixed appends_rules reads_rules)

text \<open>\<^verbatim>\<open>uint8\<close> values are held as \<^verbatim>\<open>int16\<close>, \<^verbatim>\<open>uint16\<close> as \<^verbatim>\<open>int32\<close>, \<^verbatim>\<open>uint32\<close> as \<^verbatim>\<open>int64\<close>.\<close>

interpretation uint8_layout: fixed_layout lib t PhysicalTypeUint8 1 2 "plain t PhysicalTypeUint8" VInt16 0
    "\<lambda>v. take_bit 8 v = v" "\<lambda>v. [ucast v]" "rbind ReadFixedUint8 (\<lambda>b. rret (ucast b))" for lib t
  by unfold_locales
    (auto simp: ByteWidth_def encode_fixed appends_rules plain_ids widen_narrow
      intro!: reads_convert [OF reads_ReadFixed(2)])

interpretation int16_layout: fixed_layout lib t PhysicalTypeInt16 2 2 "plain t PhysicalTypeInt16" VInt16 0
    "\<lambda>_. True" "le_bytes 2" ReadFixedInt16 for lib t
  by unfold_locales (auto simp: ByteWidth_def encode_fixed appends_rules reads_rules plain_ids)

interpretation uint16_layout: fixed_layout lib t PhysicalTypeUint16 2 4 "plain t PhysicalTypeUint16" VInt32 0
    "\<lambda>v. take_bit 16 v = v" "\<lambda>v. le_bytes 2 (ucast v :: 16 word)" "rbind ReadFixedUint16 (\<lambda>w. rret (ucast w))" for lib t
  by unfold_locales
    (auto simp: ByteWidth_def encode_fixed appends_rules plain_ids widen_narrow
      intro!: reads_convert [OF reads_ReadFixed(4)])

interpretation int32_layout: fixed_layout lib t PhysicalTypeInt32 4 4 "plain t PhysicalTypeInt32" VInt32 0
    "\<lambda>_. True" "le_bytes 4" ReadFixedInt32 for lib t
  by unfold_locales (auto simp: ByteWidth_def encode_fixed appends_rules reads_rules plain_ids)

interpretation uint32_layout: fixed_layout lib t PhysicalTypeUint32 4 8 "plain t PhysicalTypeUint32" VInt64 0
    "\<lambda>v. take_bit 32 v = v" "\<lambda>v. le_bytes 4 (ucast v :: 32 word)" "rbind ReadFixedUint32 (\<lambda>w. rret (ucast w))" for lib t
  by unfold_locales
    (auto simp: ByteWidth_def encode_fixed appends_rules plain_ids widen_narrow
      intro!: reads_convert [OF reads_ReadFixed(6)])

interpretation int64_layout: fixed_layout lib t PhysicalTypeInt64 8 8 "plain t PhysicalTypeInt64" VInt64 0
    "\<lambda>_. True" "le_bytes 8" ReadFixedInt64 for lib t
  by unfold_locales (auto simp: ByteWidth_def encode_fixed appends_rules reads_rules plain_ids)

interpretation uint64_layout: fixed_layout lib t PhysicalTypeUint64 8 8 "plain t PhysicalTypeUint64" VInt64 0
    "\<lambda>_. True" "le_bytes 8" ReadFixedInt64 for lib t
  by unfold_locales (auto simp: ByteWidth_def encode_fixed appends_rules reads_rules)

lemma float32_zero: "float32_of_float64 0 = 0"
  by (simp add: float32_of_float64_def magnitude_def inf64_def with_sign_def Let_def)

interpretation float_layout: fixed_layout lib t PhysicalTypeFloat 4 4 "plain t PhysicalTypeFloat" VFloat32 0
    "\<lambda>v. \<not> is_NaN32 v" "le_bytes 4" ReadFixedFloat32 for lib t
  by unfold_locales
    (auto simp: ByteWidth_def encode_fixed appends_rules reads_rules float32_float64_float32 float32_zero
      is_NaN32_def magnitude_def)

interpretation double_layout: fixed_layout lib t PhysicalTypeDouble 8 8 "plain t PhysicalTypeDouble" VFloat64 0
    "\<lambda>_. True" "le_bytes 8" ReadFixedFloat64 for lib t
  by unfold_locales (auto simp: ByteWidth_def encode_fixed appends_rules reads_rules)

end
