(* ===== verification/ObjectLayout.thy ===== *)
theory ObjectLayout
  imports FixedLayout
begin

text \<open>
  The fixed-width columns that are materialised as \<^verbatim>\<open>interface{}\<close> values (dates, times, timestamps,
  decimals, HUGEINT, UHUGEINT, INTERVAL, ENUM): a fixed layout of raw words in which the boxed value is
  what \<^verbatim>\<open>decodeFixedValue\<close> makes of the raw one.  Each interpretation says for which raw values
  encoding the boxed value gives the raw value back.
\<close>

locale object_layout = fixed_layout lib t p width 16 applies box zero ok enc get
  for lib t p width applies and box :: "'a \<Rightarrow> govalue" and zero ok enc get +
  assumes decodes: "applies \<Longrightarrow> decodeFixedValue t p = rbind get (\<lambda>x. rret (box x))"
begin

lemma object_reads: "applies \<Longrightarrow> ok x \<Longrightarrow> reads (decodeFixedValue t p) (box x) (enc x) rest"
  unfolding decodes by (rule reads_convert [OF value_reads refl])

lemma object_values_read:
  "applies \<Longrightarrow> list_all ok vs \<Longrightarrow>
   reads (read_values (length vs) (decodeFixedValue t p)) (map box vs) (payload vs) rest"
proof (induction vs arbitrary: rest)
  case Nil
  then show ?case by (simp add: payload_def reads_rret)
next
  case (Cons v vs)
  have "reads (rbind (decodeFixedValue t p) (\<lambda>v. rbind (read_values (length vs) (decodeFixedValue t p)) (\<lambda>vs. rret (v # vs))))
      (box v # map box vs) (enc v @ payload vs) rest" for rest
    using Cons by (intro reads_rbind [OF object_reads] reads_rbind_last [OF Cons.IH reads_rret]) simp_all
  then show ?case by (simp add: payload_def)
qed

lemma object_array_read:
  assumes "applies" "list_all ok vs" "length (payload vs) \<le> maxInput"
  shows "read_array 16 (int (length vs)) (decodeFixedValue t p) (NewBinaryReader (payload vs)) = Done (map box vs)"
proof -
  have "healthy (NewBinaryReader (payload vs))" "rem_bytes (NewBinaryReader (payload vs)) = payload vs @ []"
    using assms(3) by (simp_all add: healthy_def NewBinaryReader_def rem_bytes_def)
  note r = readsD [OF object_values_read [OF assms(1,2)] this]
  have "length vs \<le> maxInput" using assms(3) width(2) le_trans [OF _ assms(3), of "length vs"]
    by (simp add: length_payload)
  then have "make_ok 16 (int (length vs))" by (simp add: make_ok_def maxAlloc_def maxInput_def)
  then show ?thesis by (simp add: read_array_def r)
qed

end

lemma needs_object:
  "needsObjectMaterialization t PhysicalTypeInterval" "needsObjectMaterialization t PhysicalTypeInt128"
  "needsObjectMaterialization t PhysicalTypeUint128"
  by (simp_all add: needsObjectMaterialization_def)

section \<open>Dates and times\<close>

lemma dateToEpochDays_days:
  assumes "\<bar>n\<bar> \<le> 106751"
  shows "dateToEpochDays (VTime (epoch_AddDays n)) = n"
proof -
  have "round64 (of_int (n * 24) / 24) = of_int n"
    using round64_of_int [of n] assms by simp
  then show ?thesis
    by (simp add: dateToEpochDays_def time_Sub_epoch_days [OF assms] Duration_Hours_days [OF assms] trunc_rat_def)
qed

text \<open>The largest duration, which \<^verbatim>\<open>Sub\<close> saturates at, in days.\<close>

lemma saturated_days: "trunc_rat (round64 (Duration_Hours (2 ^ 63 - 1) / 24)) = 106751"
proof -
  have 1: "round64 (2836854775807 / 3600000000000) = of_nat 7097810061793676 * 2 powi (- 1 - 52)"
    by (rule round64_eq, simp_all, rule rne_eq) simp_all
  have 2: "round64 (2562047 + of_nat 7097810061793676 * 2 powi (- 1 - 52)) = of_nat 5501955730157246 * 2 powi (21 - 52)"
    by (rule round64_eq, simp_all, rule rne_eq) simp_all
  have 3: "round64 (of_nat 5501955730157246 * 2 powi (21 - 52) / 24) = of_nat 7335940973542995 * 2 powi (16 - 52)"
    by (rule round64_eq, simp_all, rule rne_eq) simp_all
  have "Duration_Hours (2 ^ 63 - 1) = of_nat 5501955730157246 * 2 powi (21 - 52)"
    unfolding 2 [symmetric] 1 [symmetric] by (simp add: Duration_Hours_def hour_ns_def second_ns_def sdiv_smod_pos)
  then have "round64 (Duration_Hours (2 ^ 63 - 1) / 24) = of_nat 7335940973542995 * 2 powi (16 - 52)"
    using 3 by (simp only:)
  moreover have "trunc_rat (of_nat 7335940973542995 * 2 powi (16 - 52)) = 106751" by (simp add: trunc_rat_def floor_eq_iff)
  ultimately show ?thesis by (simp only:)
qed

lemma dateToEpochDays_saturates: "dateToEpochDays (VTime (epoch_AddDays 106752)) = 106751"
proof -
  have "time_Sub (epoch_AddDays 106752) epoch = 2 ^ 63 - 1" by code_simp
  then show ?thesis using saturated_days by (simp add: dateToEpochDays_def)
qed

interpretation date_layout: object_layout lib t PhysicalTypeInt32 4 "lt_ID t = LogicalTypeIDDate"
    "\<lambda>w. VTime (epoch_AddDays (sint w))" 0 "\<lambda>w. \<bar>sint w\<bar> \<le> 106751" "le_bytes 4" ReadFixedInt32 for lib t
  by unfold_locales
    (auto simp: ByteWidth_def encodeFixedValueForWrite_def decodeFixedValue_def appends_rules reads_rules
      dateToEpochDays_days, simp add: dateToEpochDays_def toInt64_def appends_rules)

text \<open>The counts a time column keeps: all of them, except that a TIME is below one day.\<close>

definition time_count_ok :: "LogicalType \<Rightarrow> 64 word \<Rightarrow> bool" where
  "time_count_ok t w \<longleftrightarrow>
     (lt_ID t = LogicalTypeIDTime \<longrightarrow> 0 \<le> sint w \<and> sint w < 86400 * 1000000) \<and>
     (lt_ID t = LogicalTypeIDTimeNS \<longrightarrow> 0 \<le> sint w \<and> sint w < 86400 * 1000000000)"

lemma durationSinceMidnight_Add:
  assumes "0 \<le> d" "d < 86400 * second_ns"
  shows "durationSinceMidnight (time_Add epoch d) = d"
proof -
  have "int64 d" using assms by (simp add: int64_def second_ns_def)
  then have t: "time_Add epoch d = \<lparr>t_sec = d div second_ns, t_nsec = d mod second_ns\<rparr>"
    by (rule epoch_Add_floor)
  define s where "s = d div second_ns"
  have s: "0 \<le> s" "s < 86400" using assms by (simp_all add: s_def second_ns_def)
  have "s div 3600 * 3600 + s mod 3600 = s" "s mod 3600 div 60 * 60 + s mod 3600 mod 60 = s mod 3600"
    by (simp_all only: div_mult_mod_eq)
  moreover have "s mod 3600 mod 60 = s mod 60" by (simp add: mod_mod_cancel)
  ultimately have clock: "s div 3600 * 3600 + s mod 3600 div 60 * 60 + s mod 60 = s" by linarith
  have "durationSinceMidnight (time_Add epoch d)
      = (s div 3600 * 3600 + s mod 3600 div 60 * 60 + s mod 60) * second_ns + d mod second_ns"
    using s by (simp add: t s_def [symmetric] durationSinceMidnight_def time_Hour_def time_Minute_def
        time_Second_def hour_ns_def algebra_simps)
  also have "\<dots> = d" unfolding clock by (simp add: s_def)
  finally show ?thesis .
qed

lemma time_value_writes:
  assumes "needsObjectMaterialization t PhysicalTypeInt64" "lt_ID t \<noteq> LogicalTypeIDDecimal" "time_count_ok t w"
  shows "encodeInt64LogicalValueForWrite lib t (decodeInt64LogicalValue t w) = Done w"
proof -
  have "lt_ID t = LogicalTypeIDTime \<Longrightarrow> durationSinceMidnight (time_Add epoch (wrap64 (sint w * 1000))) sdiv 1000 = sint w"
  proof -
    assume "lt_ID t = LogicalTypeIDTime"
    then have r: "0 \<le> sint w * 1000" "sint w * 1000 < 86400 * second_ns"
      using assms(3) by (simp_all add: time_count_ok_def second_ns_def)
    then have "wrap64 (sint w * 1000) = sint w * 1000" by (intro wrap64_id) (simp_all add: second_ns_def)
    then show ?thesis using durationSinceMidnight_Add [OF r] r(1) by (simp add: sdiv_smod_pos)
  qed
  moreover have "lt_ID t = LogicalTypeIDTimeNS \<Longrightarrow> durationSinceMidnight (time_Add epoch (sint w)) = sint w"
    using assms(3) by (intro durationSinceMidnight_Add) (simp_all add: time_count_ok_def second_ns_def)
  ultimately show ?thesis
    using assms(1,2) Unix_roundtrips [of "sint w"]
    by (auto simp: encodeInt64LogicalValueForWrite_def decodeInt64LogicalValue_def toInt64_def Let_def
        needsObjectMaterialization_def)
qed

lemma encodeInt64_nil: "encodeInt64LogicalValueForWrite lib t VNil = Done 0"
  by (simp add: encodeInt64LogicalValueForWrite_def)

lemma time_count_zero: "time_count_ok t 0"
  by (simp add: time_count_ok_def)

lemma decodeInt64_nonnil: "decodeInt64LogicalValue t w \<noteq> VNil"
  by (simp add: decodeInt64LogicalValue_def Let_def)

interpretation time_layout: object_layout lib t PhysicalTypeInt64 8
    "needsObjectMaterialization t PhysicalTypeInt64 \<and> lt_ID t \<noteq> LogicalTypeIDDecimal"
    "decodeInt64LogicalValue t" 0 "time_count_ok t" "le_bytes 8" ReadFixedInt64 for lib t
  by unfold_locales
    (auto simp: ByteWidth_def encodeFixedValueForWrite_def decodeFixedValue_def appends_rules reads_rules
      time_value_writes decodeInt64_nonnil encodeInt64_nil time_count_zero)

section \<open>Decimals\<close>

definition has_scale :: "LogicalType \<Rightarrow> bool" where
  "has_scale t \<longleftrightarrow> (case lt_TypeInfo t of Some (DecimalTypeInfo _ _ _) \<Rightarrow> True | _ \<Rightarrow> False)"

text \<open>A decimal with as many fraction digits as the scale keeps its unscaled value.\<close>

lemma scale_rat_Fract:
  assumes "0 < f"
  shows "scale_rat (Fract v f) f = v"
proof -
  obtain n d where q: "quotient_of (Fract v f) = (n, d)" by (cases "quotient_of (Fract v f)")
  then have d: "0 < d" and eq: "Fract v f = of_int n / of_int d"
    by (simp_all add: quotient_of_denom_pos quotient_of_div)
  have "of_int v / of_int f = (of_int n / of_int d :: rat)" using eq by (simp add: Fract_of_int_quotient)
  then have "(of_int (v * d) :: rat) = of_int (n * f)" using d assms by (simp add: field_simps)
  then have "n * f = v * d" by (simp only: of_int_eq_iff)
  then show ?thesis using d by (simp add: scale_rat_def q sdiv_smod_floor)
qed

lemma decimal_roundtrip:
  "has_scale t \<Longrightarrow> decimalUnscaled lib t (VRat (decimalFromUnscaled t v)) = Done v"
  by (auto simp: has_scale_def decimalUnscaled_def decimalFromUnscaled_def scale_rat_Fract Let_def
      split: option.splits ExtraTypeInfo.splits)

lemma decimal_nil: "has_scale t \<Longrightarrow> decimalUnscaled lib t VNil = Done 0"
  by (auto simp: has_scale_def decimalUnscaled_def toFloat64Ok_def Let_def
      split: option.splits ExtraTypeInfo.splits)

abbreviation is_decimal :: "LogicalType \<Rightarrow> bool" where
  "is_decimal t \<equiv> lt_ID t = LogicalTypeIDDecimal \<and> has_scale t"

interpretation decimal16_layout: object_layout lib t PhysicalTypeInt16 2 "is_decimal t"
    "\<lambda>w. VRat (decimalFromUnscaled t (sint w))" 0 "\<lambda>_. True" "le_bytes 2" ReadFixedInt16 for lib t
  by unfold_locales
    (auto simp: ByteWidth_def encodeFixedValueForWrite_def decodeFixedValue_def appends_rules reads_rules
      decimal_roundtrip decimal_nil)

interpretation decimal32_layout: object_layout lib t PhysicalTypeInt32 4 "is_decimal t"
    "\<lambda>w. VRat (decimalFromUnscaled t (sint w))" 0 "\<lambda>_. True" "le_bytes 4" ReadFixedInt32 for lib t
  by unfold_locales
    (auto simp: ByteWidth_def encodeFixedValueForWrite_def decodeFixedValue_def appends_rules reads_rules
      decimal_roundtrip decimal_nil)

interpretation decimal64_layout: object_layout lib t PhysicalTypeInt64 8 "is_decimal t"
    "\<lambda>w. VRat (decimalFromUnscaled t (sint w))" 0 "\<lambda>_. True" "le_bytes 8" ReadFixedInt64 for lib t
  by unfold_locales
    (auto simp: ByteWidth_def encodeFixedValueForWrite_def decodeFixedValue_def appends_rules reads_rules
      encodeInt64LogicalValueForWrite_def decodeInt64LogicalValue_def decimal_roundtrip Let_def)

section \<open>128-bit values\<close>

definition parts_bytes :: "HugeIntParts \<Rightarrow> bytes" where
  "parts_bytes p = le_bytes 8 (Lower p) @ le_bytes 8 (Upper p)"

definition read_parts :: "HugeIntParts rd" where
  "read_parts = rbind ReadFixedUint64 (\<lambda>lower. rbind ReadFixedInt64 (\<lambda>upper.
     rret \<lparr>Upper = upper, Lower = lower\<rparr>))"

lemma reads_parts: "reads read_parts p (parts_bytes p) rest"
proof (cases p)
  case (fields u l)
  show ?thesis
    unfolding read_parts_def parts_bytes_def fields HugeIntParts.simps
    by (rule reads_rbind [OF reads_ReadFixed(8)], rule reads_rbind_last [OF reads_ReadFixed(7) reads_rret])
qed

lemma appends_parts:
  "appends (wseq (WriteFixedUint64 (Lower p)) (WriteFixedInt64 (Upper p))) (parts_bytes p)"
  unfolding parts_bytes_def by (intro appends_wseq appends_WriteFixed)

lemma rbind_read_parts:
  "rbind read_parts f = rbind ReadFixedUint64 (\<lambda>lower. rbind ReadFixedInt64 (\<lambda>upper.
     f \<lparr>Upper = upper, Lower = lower\<rparr>))"
  by (rule ext) (simp add: read_parts_def rbind_def rret_def outcome_bind_assoc split_def)

interpretation decimal128_layout: object_layout lib t PhysicalTypeInt128 16 "is_decimal t"
    "\<lambda>p. VRat (decimalFromUnscaled t (SignedBigInt p))" zeroHugeInt "\<lambda>_. True" parts_bytes read_parts for lib t
  by unfold_locales
    (auto simp: ByteWidth_def encodeFixedValueForWrite_def decodeFixedValue_def appends_parts reads_parts
      decimal_roundtrip parts_bytes_def [THEN arg_cong [of _ _ length]] FromSigned_SignedBigInt
      rbind_read_parts Let_def)

abbreviation is_hugeint :: "LogicalType \<Rightarrow> bool" where
  "is_hugeint t \<equiv> lt_ID t \<noteq> LogicalTypeIDDecimal \<and> lt_ID t \<noteq> LogicalTypeIDUUID"

interpretation hugeint_layout: object_layout lib t PhysicalTypeInt128 16 "is_hugeint t"
    "\<lambda>p. VBigInt (SignedBigInt p)" zeroHugeInt "\<lambda>_. True" parts_bytes read_parts for lib t
  by unfold_locales
    (auto simp: ByteWidth_def encodeFixedValueForWrite_def decodeFixedValue_def appends_parts reads_parts
      parts_bytes_def [THEN arg_cong [of _ _ length]] FromSigned_SignedBigInt rbind_read_parts Let_def)

lemma uhuge_words:
  "word_of_int (UnsignedBigInt p AND (push_bit 64 1 - 1)) = Lower p"
  "word_of_int (drop_bit 64 (UnsignedBigInt p) AND (push_bit 64 1 - 1)) = Upper p"
proof -
  have m: "push_bit 64 1 - 1 = (mask 64 :: int)" by (simp add: mask_eq_exp_minus_1)
  show "word_of_int (UnsignedBigInt p AND (push_bit 64 1 - 1)) = Lower p"
    "word_of_int (drop_bit 64 (UnsignedBigInt p) AND (push_bit 64 1 - 1)) = Upper p"
    unfolding m UnsignedBigInt_def by (rule bit_word_eqI, auto simp: bit_simps dest: bit_imp_le_length)+
qed

lemmas uhuge_words' = uhuge_words [simplified]

lemma appends_parts_u:
  "appends (wseq (WriteFixedUint64 (Lower p)) (WriteFixedUint64 (Upper p))) (parts_bytes p)"
  unfolding parts_bytes_def by (intro appends_wseq appends_WriteFixed)

lemma ReadFixed64_same: "ReadFixedUint64 = ReadFixedInt64"
  by (simp add: ReadFixedUint64_def ReadFixedInt64_def)

interpretation uhugeint_layout: object_layout lib t PhysicalTypeUint128 16 True
    "\<lambda>p. VBigInt (UnsignedBigInt p)" zeroHugeInt "\<lambda>_. True" parts_bytes read_parts for lib t
  using appends_parts_u [of zeroHugeInt]
  by unfold_locales
    (auto simp: ByteWidth_def encodeFixedValueForWrite_def decodeFixedValue_def appends_parts_u reads_parts
      parts_bytes_def [THEN arg_cong [of _ _ length]] uhuge_words' rbind_read_parts ReadFixed64_same zeroHugeInt_def Let_def)

section \<open>Intervals\<close>

definition interval_bytes :: "IntervalValue \<Rightarrow> bytes" where
  "interval_bytes iv = le_bytes 4 (Months iv) @ le_bytes 4 (Days iv) @ le_bytes 8 (Micros iv)"

definition read_interval :: "IntervalValue rd" where
  "read_interval = rbind ReadFixedInt32 (\<lambda>months. rbind ReadFixedInt32 (\<lambda>days. rbind ReadFixedInt64 (\<lambda>micros.
     rret \<lparr>Months = months, Days = days, Micros = micros\<rparr>)))"

lemma reads_interval: "reads read_interval iv (interval_bytes iv) rest"
proof (cases iv)
  case (fields m d u)
  show ?thesis
    unfolding read_interval_def interval_bytes_def fields IntervalValue.simps
    by (rule reads_rbind [OF reads_ReadFixed(5)], rule reads_rbind [OF reads_ReadFixed(5)],
        rule reads_rbind_last [OF reads_ReadFixed(7) reads_rret])
qed

lemma appends_interval:
  "appends (wseq (WriteFixedInt32 (Months iv)) (wseq (WriteFixedInt32 (Days iv)) (WriteFixedInt64 (Micros iv))))
     (interval_bytes iv)"
  unfolding interval_bytes_def by (intro appends_wseq appends_WriteFixed)

lemma rbind_read_interval:
  "rbind read_interval f = rbind ReadFixedInt32 (\<lambda>months. rbind ReadFixedInt32 (\<lambda>days.
     rbind ReadFixedInt64 (\<lambda>micros. f \<lparr>Months = months, Days = days, Micros = micros\<rparr>)))"
  by (rule ext) (simp add: read_interval_def rbind_def rret_def outcome_bind_assoc split_def)

interpretation interval_layout: object_layout lib t PhysicalTypeInterval 16 True
    VInterval "\<lparr>Months = 0, Days = 0, Micros = 0\<rparr>" "\<lambda>_. True" interval_bytes read_interval for lib t
  using appends_interval [of "\<lparr>Months = 0, Days = 0, Micros = 0\<rparr>"]
  by unfold_locales
    (auto simp: ByteWidth_def encodeFixedValueForWrite_def decodeFixedValue_def appends_interval reads_interval
      interval_bytes_def [THEN arg_cong [of _ _ length]] rbind_read_interval Let_def)

section \<open>Enumerations\<close>

text \<open>An ENUM with distinct labels, and the index a raw value stands for.\<close>

definition enum_ok :: "LogicalType \<Rightarrow> bool" where
  "enum_ok t \<longleftrightarrow> lt_ID t = LogicalTypeIDEnum \<and> distinct (or_zero [] (GetEnumValues t)) \<and> or_zero [] (GetEnumValues t) \<noteq> []"

definition enum_index :: "LogicalType \<Rightarrow> int \<Rightarrow> bool" where
  "enum_index t i \<longleftrightarrow> 0 \<le> i \<and> i < int (length (or_zero [] (GetEnumValues t)))"

lemma filter_enumerate_distinct:
  "distinct xs \<Longrightarrow> k < length xs \<Longrightarrow> filter (\<lambda>(i, v). v = xs ! k) (enumerate n xs) = [(n + k, xs ! k)]"
proof (induction xs arbitrary: n k)
  case (Cons x xs)
  show ?case
  proof (cases k)
    case 0
    have "filter (\<lambda>(i, v). v = x) (enumerate m xs) = []" for m
      using Cons.prems(1) by (auto simp: filter_empty_conv enumerate_eq_zip dest: set_zip_rightD)
    then show ?thesis by (simp add: 0)
  next
    case (Suc j)
    then have "x \<noteq> xs ! j" using Cons.prems by auto
    then show ?thesis using Cons Suc by simp
  qed
qed simp

lemma enum_roundtrip:
  assumes "enum_ok t" "enum_index t i"
  shows "encodeEnumOrInt lib t (decodeEnumOrInt t i) d = Done i"
    and "decodeEnumOrInt t i \<noteq> VNil"
proof -
  have "nat i < length (or_zero [] (GetEnumValues t))" using assms(2) by (auto simp: enum_index_def)
  then show "encodeEnumOrInt lib t (decodeEnumOrInt t i) d = Done i" "decodeEnumOrInt t i \<noteq> VNil"
    using assms filter_enumerate_distinct [of "or_zero [] (GetEnumValues t)" "nat i" 0]
    by (simp_all add: enum_ok_def enum_index_def decodeEnumOrInt_def encodeEnumOrInt_def sprint_v_def Let_def)
qed

lemma enum_zero: "enum_ok t \<Longrightarrow> enum_index t 0"
  by (simp add: enum_ok_def enum_index_def)

lemma encodeEnum_nil: "encodeEnumOrInt lib t VNil d = Done d"
  by (simp add: encodeEnumOrInt_def)

lemma decodeEnum_nonnil: "decodeEnumOrInt t i \<noteq> VNil" "decodeEnumOrInt64 t w \<noteq> VNil"
  by (simp_all add: decodeEnumOrInt_def decodeEnumOrInt64_def Let_def)

interpretation enum8_layout: object_layout lib t PhysicalTypeUint8 1 "enum_ok t"
    "\<lambda>w. decodeEnumOrInt t (uint w)" 0 "\<lambda>w. enum_ok t \<longrightarrow> enum_index t (uint w)" "\<lambda>w. [w]" ReadFixedUint8 for lib t
  by unfold_locales
    (auto simp: ByteWidth_def encodeFixedValueForWrite_def decodeFixedValue_def appends_rules reads_rules
      enum_roundtrip enum_zero encodeEnum_nil decodeEnum_nonnil)

interpretation enum16_layout: object_layout lib t PhysicalTypeUint16 2 "enum_ok t"
    "\<lambda>w. decodeEnumOrInt t (uint w)" 0 "\<lambda>w. enum_ok t \<longrightarrow> enum_index t (uint w)" "le_bytes 2" ReadFixedUint16 for lib t
  by unfold_locales
    (auto simp: ByteWidth_def encodeFixedValueForWrite_def decodeFixedValue_def appends_rules reads_rules
      enum_roundtrip enum_zero encodeEnum_nil decodeEnum_nonnil)

section \<open>UUIDs\<close>

lemma hex_digit_props:
  assumes "d < 16"
  shows "hex_value (hex_digit d) = Some (int d)" "hex_digit d \<noteq> CHR ''-''" "hex_digit d \<noteq> CHR ''+''"
proof -
  have "list_all (\<lambda>d. hex_value (hex_digit d) = Some (int d) \<and> hex_digit d \<noteq> CHR ''-'' \<and> hex_digit d \<noteq> CHR ''+'') [0..<16]"
    by code_simp
  then show "hex_value (hex_digit d) = Some (int d)" "hex_digit d \<noteq> CHR ''-''" "hex_digit d \<noteq> CHR ''+''"
    using assms by (simp_all add: list_all_iff)
qed

lemma byte_nibbles: "unat (b :: 8 word) div 16 < 16" "unat b mod 16 < 16"
proof -
  have "unat b < 256" using unsigned_less [of b] by simp
  then show "unat b div 16 < 16" by (simp add: less_mult_imp_div_less)
qed simp

lemma filter_hex_bytes: "filter (\<lambda>c. c \<noteq> CHR ''-'') (hex_bytes bs) = hex_bytes bs"
  by (induction bs) (simp_all add: hex_bytes_def hex_digit_props byte_nibbles)

lemma hex_bytes_append: "hex_bytes (a @ b) = hex_bytes a @ hex_bytes b"
  by (simp add: hex_bytes_def)

lemma length_hex_bytes [simp]: "length (hex_bytes bs) = 2 * length bs"
  by (induction bs) (simp_all add: hex_bytes_def)

text \<open>The number that big-endian bytes denote, after \<open>acc\<close>.\<close>

primrec be_value :: "bytes \<Rightarrow> int \<Rightarrow> int" where
  "be_value [] acc = acc"
| "be_value (b # bs) acc = be_value bs (acc * 256 + uint b)"

lemma hex_digits_bytes: "hex_digits (hex_bytes bs) acc = Some (be_value bs acc)"
proof (induction bs arbitrary: acc)
  case (Cons b bs)
  have "uint b = int (unat b div 16) * 16 + int (unat b mod 16)"
    by (simp add: of_nat_div of_nat_mod)
  then have e: "(acc * 16 + int (unat b div 16)) * 16 + int (unat b mod 16) = acc * 256 + uint b" by simp
  have "hex_digits (hex_bytes (b # bs)) acc
      = hex_digits (hex_bytes bs) ((acc * 16 + int (unat b div 16)) * 16 + int (unat b mod 16))"
    by (simp add: hex_bytes_def hex_digit_props byte_nibbles)
  also have "\<dots> = Some (be_value bs (acc * 256 + uint b))" unfolding e by (rule Cons.IH)
  finally show ?case by simp
qed (simp add: hex_bytes_def)

lemma SetString16_bytes: "bs \<noteq> [] \<Longrightarrow> SetString16 (hex_bytes bs) = Some (be_value bs 0)"
proof -
  assume "bs \<noteq> []"
  then obtain b cs where bs: "bs = b # cs" by (cases bs) auto
  define c d ds where "c = hex_digit (unat b div 16)" and "d = hex_digit (unat b mod 16)" and "ds = hex_bytes cs"
  have h: "hex_bytes bs = c # d # ds" by (simp add: hex_bytes_def bs c_def d_def ds_def)
  have "c \<noteq> CHR ''-''" "c \<noteq> CHR ''+''" by (simp_all add: c_def hex_digit_props byte_nibbles)
  then have "SetString16 (c # d # ds) = hex_digits (c # d # ds) 0"
    by (simp add: SetString16_def split: char.split bool.split)
  then show ?thesis using hex_digits_bytes [of bs 0] by (simp add: h)
qed

lemma be_value_append: "be_value (a @ b) acc = be_value b (be_value a acc)"
  by (induction a arbitrary: acc) simp_all

lemma be_value_le_bytes: "be_value (rev (le_bytes n w)) 0 = uint (take_bit (8 * n) w)" for w :: "64 word"
proof (induction n arbitrary: w)
  case (Suc n)
  have "be_value (rev (le_bytes (Suc n) w)) 0 = uint (take_bit (8 * n) (drop_bit 8 w)) * 256 + uint (ucast w :: 8 word)"
    by (simp add: be_value_append Suc.IH)
  also have "\<dots> = push_bit 8 (uint (take_bit (8 * n) (drop_bit 8 w))) + uint (ucast w :: 8 word)"
    by (simp add: push_bit_eq_mult)
  also have "\<dots> = push_bit 8 (uint (take_bit (8 * n) (drop_bit 8 w))) OR uint (ucast w :: 8 word)"
    by (rule disjunctive_add) (auto simp: bit_simps)
  also have "\<dots> = uint (take_bit (8 * Suc n) w)"
    by (rule bit_eqI) (auto simp: bit_simps)
  finally show ?case .
qed simp

lemma uuid_roundtrip: "uuidToHugeIntParts (VString (uuidFromHugeIntParts u l)) = \<lparr>Upper = u, Lower = l\<rparr>"
proof -
  let ?d = "u XOR push_bit 63 1"
  define b where "b = be_bytes8 ?d @ be_bytes8 l"
  have len: "length b = 16" by (simp add: b_def be_bytes8_def)
  define hex where "hex = hex_bytes b"
  have parts: "b = take 4 b @ take 2 (drop 4 b) @ take 2 (drop 6 b) @ take 2 (drop 8 b) @ take 6 (drop 10 b)"
    using len by (auto simp: length_Suc_conv numeral_eq_Suc)
  define s where "s = uuidFromHugeIntParts u l"
  have s: "s = hex_bytes (take 4 b) @ ''-'' @ hex_bytes (take 2 (drop 4 b)) @ ''-'' @
         hex_bytes (take 2 (drop 6 b)) @ ''-'' @ hex_bytes (take 2 (drop 8 b)) @ ''-'' @
         hex_bytes (take 6 (drop 10 b))"
    by (simp add: s_def uuidFromHugeIntParts_def b_def Let_def)
  have "length s = 36" by (simp add: s len)
  moreover have "filter (\<lambda>c. c \<noteq> CHR ''-'') s = hex"
  proof -
    have "hex = hex_bytes (take 4 b @ take 2 (drop 4 b) @ take 2 (drop 6 b) @ take 2 (drop 8 b) @ take 6 (drop 10 b))"
      unfolding hex_def by (rule arg_cong [OF parts])
    then show ?thesis by (simp add: s filter_hex_bytes hex_bytes_append)
  qed
  moreover have "take 16 hex = hex_bytes (be_bytes8 ?d)" "drop 16 hex = hex_bytes (be_bytes8 l)" "length hex = 32"
    by (simp_all add: hex_def b_def hex_bytes_append be_bytes8_def)
  moreover have "take_bit 64 w = w" for w :: "64 word" by (rule bit_word_eqI) (auto simp: bit_simps)
  then have "SetString16 (hex_bytes (be_bytes8 w)) = Some (uint w)" for w
    using be_value_le_bytes [of 8 w] by (subst SetString16_bytes) (auto simp: be_bytes8_def dest: arg_cong [of _ _ length])
  moreover have "?d XOR push_bit 63 1 = u" by (rule bit_word_eqI) (auto simp: bit_simps)
  ultimately show ?thesis
    by (simp add: uuidToHugeIntParts_def s_def [symmetric] Let_def)
qed

interpretation uuid_layout: object_layout lib t PhysicalTypeInt128 16 "lt_ID t = LogicalTypeIDUUID"
    "\<lambda>p. VString (uuidFromHugeIntParts (Upper p) (Lower p))" zeroHugeInt "\<lambda>_. True" parts_bytes read_parts for lib t
  by unfold_locales
    (auto simp: ByteWidth_def encodeFixedValueForWrite_def decodeFixedValue_def appends_parts reads_parts
      parts_bytes_def [THEN arg_cong [of _ _ length]] uuid_roundtrip rbind_read_parts Let_def)

end
