(* ===== verification/Columns.thy ===== *)
theory Columns
  imports ObjectLayout
begin

text \<open>
  Column vectors on the wire: the grammar of a flat column, and the round trip of \<^verbatim>\<open>EncodeVector\<close> and
  \<^verbatim>\<open>DecodeVector\<close> for every fixed-width layout and for the VARCHAR family, from which the round trips of
  chunks and messages follow.
\<close>

section \<open>The grammar of a flat column\<close>

definition flat_bytes :: "validity \<Rightarrow> bytes \<Rightarrow> bytes" where
  "flat_bytes v payload = field 100 (bool_bytes (v \<noteq> None)) @
     opt_field (v \<noteq> None) 101 (blob_bytes (words_to_bytes (case v of None \<Rightarrow> [] | Some ws \<Rightarrow> ws))) @
     field 102 payload"

lemma ToBytes_wf:
  "small_count n \<Longrightarrow> wf_validity v n \<Longrightarrow>
   (if v \<noteq> None then ValidityToBytes v (int n) else Done []) = Done (words_to_bytes (case v of None \<Rightarrow> [] | Some ws \<Rightarrow> ws))"
  by (auto simp: wf_validity_def ToBytes_words words_to_bytes_def [of "[]"] split: option.splits)

lemma appends_flat:
  assumes "appends act payload"
  shows "appends (wseq (wseq (WriteField 100 (WriteBool (v \<noteq> None)))
      (if v \<noteq> None then WriteField 101 (WriteBlob (words_to_bytes (case v of None \<Rightarrow> [] | Some ws \<Rightarrow> ws))) else wskip))
      (WriteField 102 act)) (flat_bytes v payload)"
  unfolding flat_bytes_def append_assoc [symmetric]
  by (intro appends_wseq appends_WriteField appends_WriteBool appends_opt_field appends_WriteBlob assms)

lemma emits_flat_fixed:
  assumes "small_count (vec_Size vec)" "extractValidity vec (int (vec_Size vec)) = Done v" "wf_validity v (vec_Size vec)"
    and "IsConstantSize (GetPhysicalType t)" "encodeFixedBytes lib t (GetPhysicalType t) vec = Done bs"
  shows "emits (EncodeVector lib t vec) (object (flat_bytes v (blob_bytes bs)))"
  using appends_WriteObject [OF appends_flat [OF appends_WriteBlob, of v bs]] ToBytes_wf [OF assms(1,3)]
  by (simp add: EncodeVector_def encodeFlatVectorBody_def assms(2,4,5) Let_def)

text \<open>The part of the decoder in front of the payload.\<close>

lemma reads_skip_geometry: "starts_other 99 rest \<Longrightarrow> reads (skip_geometry_field t) () [] rest"
proof (rule readsI)
  fix r assume rest: "starts_other 99 rest" and r: "healthy r" "rem_bytes r = [] @ rest"
  obtain g bs where g: "rest = fid_bytes g @ bs" "g \<noteq> 99" using rest by (auto simp: starts_other_def)
  then have "PeekFieldID r = Done (g, r)" using r by (simp add: PeekFieldID_eq)
  then show "skip_geometry_field t r = Done ((), advance (length []) r)"
    using g(2) by (simp add: skip_geometry_field_def rbind_def rret_def)
qed

lemma rbind_rret [simp]: "rbind (rret v) f = f v"
  by (rule ext) (simp add: rbind_def rret_def)

lemma reads_rlift: "m = Done v \<Longrightarrow> reads (rlift m) v [] rest"
  by (simp add: reads_def rlift_def)

lemma reads_validity_mask:
  assumes "small_count n" "length ws = (n + 63) div 64"
  shows "reads (readValidityMask (int n)) (Some ws) (blob_bytes (words_to_bytes ws)) rest"
proof -
  have "int (length (words_to_bytes ws)) = ValidityWireByteCount (int n)"
    using assms by (simp add: WireByteCount_nat small_count_def)
  then show ?thesis
    unfolding readValidityMask_def
    by (intro reads_rbind_last [OF reads_ReadBlob]) (simp add: reads_rlift FromBytes_words_to_bytes assms)
qed

lemma reads_flat:
  assumes "small_count n" "wf_validity v n"
    and k: "reads (k (v \<noteq> None) v) x (field 102 payload) rest"
  shows "reads (rbind (skip_geometry_field t) (\<lambda>_.
     rbind (ReadRequiredField 100 False ReadBool) (\<lambda>hasValidity.
     rbind (if hasValidity then ReadRequiredField 101 None (readValidityMask (int n)) else rret None)
       (k hasValidity)))) x (flat_bytes v payload) rest"
proof (cases v)
  case None
  show ?thesis
    unfolding flat_bytes_def None
    apply (rule reads_rbind_first [OF reads_skip_geometry])
     apply (simp add: field_def)
    apply (rule reads_rbind [OF reads_ReadRequiredField [OF reads_ReadBool]])
    using k by (simp add: None opt_field_def)
next
  case (Some ws)
  have ws: "length ws = (n + 63) div 64" using assms(2) by (simp add: wf_validity_def Some)
  show ?thesis
    unfolding flat_bytes_def Some
    apply (rule reads_rbind_first [OF reads_skip_geometry])
     apply (simp add: field_def)
    apply (rule reads_rbind [OF reads_ReadRequiredField [OF reads_ReadBool]])
    using k by (simp add: Some opt_field_def reads_rbind [OF reads_ReadRequiredField [OF reads_validity_mask [OF assms(1) ws]]])
qed

text \<open>A vector object without field 90 is a flat vector.\<close>

lemma reads_flat_vector:
  assumes "reads (decodeFlatVector (Suc n) t count) x (flat_bytes v payload) (object_end @ rest)"
  shows "reads (DecodeVector (Suc n) t count) x (object (flat_bytes v payload)) rest"
  unfolding DecodeVector.simps decodeVectorBody.simps
  apply (rule reads_ReadObject)
  apply (rule reads_rbind_first [OF reads_ReadOptionalField_absent])
   apply (simp add: flat_bytes_def field_def)
  using assms by simp

lemma reads_flat_fixed:
  assumes "small_count n" "wf_validity v n" "IsConstantSize (GetPhysicalType t)"
    and "ByteWidth (GetPhysicalType t) = Done (int w)" "w \<le> 16" "length bs = w * n"
    and d: "length bs \<le> maxInput \<Longrightarrow> decodeFixedFlatVector t (GetPhysicalType t) bs (int n) v = Done vec"
  shows "reads (DecodeVector (Suc k) t (int n)) (Some vec) (object (flat_bytes v (blob_bytes bs))) rest"
proof (rule reads_bounded)
  assume "length (object (flat_bytes v (blob_bytes bs))) + length rest \<le> maxInput"
  then have "length bs \<le> maxInput" by (simp add: flat_bytes_def blob_bytes_def)
  note d' = d [OF this]
  have "int w * int n \<le> 16 * 2 ^ 40"
    using assms(1,5) by (intro mult_mono) (simp_all add: small_count_def)
  moreover have "0 \<le> int w * int n" by simp
  ultimately have "- (2 ^ 63) \<le> int w * int n" "int w * int n < 2 ^ 63" by (simp_all add: order_trans [of _ 0])
  then have "wrap64 (int w * int n) = int w * int n" by (rule wrap64_id)
  then have "wrap64 (int w * int n) = int (length bs)" by (simp add: assms(6))
  then have body: "reads (rbind (rlift (ByteWidth (GetPhysicalType t))) (\<lambda>width.
       rbind (ReadRequiredField 102 [] ReadBlob) (\<lambda>bs.
       if int (length bs) \<noteq> wrap64 (width * int n) then force_error None
       else rlift (outcome_bind (decodeFixedFlatVector t (GetPhysicalType t) bs (int n) v) (\<lambda>v. Done (Some v))))))
     (Some vec) (field 102 (blob_bytes bs)) (object_end @ rest)"
    by (intro reads_rbind_first [OF reads_rlift [OF assms(4)]]
          reads_rbind_last [OF reads_ReadRequiredField [OF reads_ReadBlob]]) (simp add: d' reads_rlift)
  show "reads (DecodeVector (Suc k) t (int n)) (Some vec) (object (flat_bytes v (blob_bytes bs))) rest"
    unfolding decodeFlatVector.simps Let_def
    by (rule reads_flat_vector, unfold decodeFlatVector.simps Let_def, rule reads_flat [OF assms(1,2)])
       (use body assms(3) in simp)
qed

section \<open>Typed columns\<close>

text \<open>The null rows of a column hold the zero value (what Go's \<^verbatim>\<open>make\<close> leaves there).\<close>

definition wf_nulls :: "'a \<Rightarrow> 'a list \<Rightarrow> validity \<Rightarrow> bool" where
  "wf_nulls zero vs v \<longleftrightarrow> wf_validity v (length vs) \<and> (\<forall>i < length vs. \<not> row_valid v i \<longrightarrow> vs ! i = zero)"

locale typed_layout = fixed_layout lib t p width esz applies box zero ok enc get
  for lib t p width esz applies and box :: "'a \<Rightarrow> govalue" and zero ok enc get +
  fixes mk :: "'a list \<Rightarrow> validity \<Rightarrow> DecodedVector"
  assumes mk: "vec_Size (mk vs v) = length vs" "IsNull (mk vs v) row = ValidityIsNull v row"
      "GetObject (mk vs v) row = typed_get box vs v row" "extractValidity (mk vs v) n = Done v"
    and mk_decodes: "applies \<Longrightarrow> decodeFixedFlatVector t p bs n v
      = outcome_bind (read_array esz n get (NewBinaryReader bs)) (\<lambda>arr. Done (mk arr v))"
begin

lemma shows_mk: "list_all ok vs \<Longrightarrow> wf_nulls zero vs v \<Longrightarrow> shows_rows (mk vs v) vs"
proof -
  assume ok: "list_all ok vs" and n: "wf_nulls zero vs v"
  have "\<exists>isnull. IsNull (mk vs v) (int i) = Done isnull \<and>
      (if isnull then vs ! i = zero else GetObject (mk vs v) (int i) = Done (box (vs ! i)))" if i: "i < length vs" for i
    using n IsNull_wf [of v "length vs" i] typed_get_wf [of v vs i box] i
    by (intro exI [of _ "\<not> row_valid v i"]) (simp add: mk wf_nulls_def)
  with ok show "shows_rows (mk vs v) vs" by (simp add: shows_rows_def mk(1))
qed

lemma column_roundtrip:
  assumes "applies" "GetPhysicalType t = p" "list_all ok vs" "wf_nulls zero vs v" "small_count (length vs)"
  shows "\<exists>bs. emits (EncodeVector lib t (mk vs v)) bs \<and> bs \<noteq> [] \<and>
    (\<forall>rest k. reads (DecodeVector (Suc k) t (int (length vs))) (Some (mk vs v)) bs rest)"
proof -
  have const: "IsConstantSize (GetPhysicalType t)" using width(1) by (auto simp: ByteWidth_total assms(2))
  have wf: "wf_validity v (length vs)" using assms(4) by (simp add: wf_nulls_def)
  note enc = rows_written [OF assms(1) shows_mk [OF assms(3,4)]]
  have "emits (EncodeVector lib t (mk vs v)) (object (flat_bytes v (blob_bytes (payload vs))))"
    by (rule emits_flat_fixed) (use const enc wf assms(2,5) in \<open>simp_all add: mk\<close>)
  moreover have "reads (DecodeVector (Suc k) t (int (length vs))) (Some (mk vs v))
      (object (flat_bytes v (blob_bytes (payload vs)))) rest" for k rest
    by (rule reads_flat_fixed [where w = width, OF assms(5) wf const])
       (use assms(1-3) width array_read in \<open>simp_all add: length_payload mk_decodes\<close>)
  moreover have "object (flat_bytes v (blob_bytes (payload vs))) \<noteq> []" by (simp add: object_def object_end_def)
  ultimately show ?thesis by blast
qed

end

lemmas decode_typed = decodeFixedFlatVector_def extractValidity_def Let_def

interpretation bool_col: typed_layout lib t PhysicalTypeBool 1 1 "plain t PhysicalTypeBool" VBool False "\<lambda>_. True"
    "\<lambda>b. [if b then 1 else 0]" "rbind ReadFixedUint8 (\<lambda>b. rret (b \<noteq> 0))" "BoolVec t" for lib t
  by unfold_locales (simp_all add: decode_typed)

interpretation int8_col: typed_layout lib t PhysicalTypeInt8 1 1 "plain t PhysicalTypeInt8" VInt8 0 "\<lambda>_. True"
    "\<lambda>v. [v]" ReadFixedInt8 "ByteVec t" for lib t
  by unfold_locales (simp_all add: decode_typed)

interpretation uint8_col: typed_layout lib t PhysicalTypeUint8 1 2 "plain t PhysicalTypeUint8" VInt16 0
    "\<lambda>v. take_bit 8 v = v" "\<lambda>v. [ucast v]" "rbind ReadFixedUint8 (\<lambda>b. rret (ucast b))" "ShortVec t" for lib t
  by unfold_locales (simp_all add: decode_typed)

interpretation int16_col: typed_layout lib t PhysicalTypeInt16 2 2 "plain t PhysicalTypeInt16" VInt16 0
    "\<lambda>_. True" "le_bytes 2" ReadFixedInt16 "ShortVec t" for lib t
  by unfold_locales (simp_all add: decode_typed)

interpretation uint16_col: typed_layout lib t PhysicalTypeUint16 2 4 "plain t PhysicalTypeUint16" VInt32 0
    "\<lambda>v. take_bit 16 v = v" "\<lambda>v. le_bytes 2 (ucast v :: 16 word)" "rbind ReadFixedUint16 (\<lambda>w. rret (ucast w))"
    "IntVec t" for lib t
  by unfold_locales (simp_all add: decode_typed)

interpretation int32_col: typed_layout lib t PhysicalTypeInt32 4 4 "plain t PhysicalTypeInt32" VInt32 0
    "\<lambda>_. True" "le_bytes 4" ReadFixedInt32 "IntVec t" for lib t
  by unfold_locales (simp_all add: decode_typed)

interpretation uint32_col: typed_layout lib t PhysicalTypeUint32 4 8 "plain t PhysicalTypeUint32" VInt64 0
    "\<lambda>v. take_bit 32 v = v" "\<lambda>v. le_bytes 4 (ucast v :: 32 word)" "rbind ReadFixedUint32 (\<lambda>w. rret (ucast w))"
    "LongVec t" for lib t
  by unfold_locales (simp_all add: decode_typed)

interpretation int64_col: typed_layout lib t PhysicalTypeInt64 8 8 "plain t PhysicalTypeInt64" VInt64 0
    "\<lambda>_. True" "le_bytes 8" ReadFixedInt64 "LongVec t" for lib t
  by unfold_locales (simp_all add: decode_typed)

interpretation uint64_col: typed_layout lib t PhysicalTypeUint64 8 8 "plain t PhysicalTypeUint64" VInt64 0
    "\<lambda>_. True" "le_bytes 8" ReadFixedInt64 "LongVec t" for lib t
  by unfold_locales (simp_all add: decode_typed)

interpretation float_col: typed_layout lib t PhysicalTypeFloat 4 4 "plain t PhysicalTypeFloat" VFloat32 0
    "\<lambda>v. \<not> is_NaN32 v" "le_bytes 4" ReadFixedFloat32 "FloatVec t" for lib t
  by unfold_locales (simp_all add: decode_typed)

interpretation double_col: typed_layout lib t PhysicalTypeDouble 8 8 "plain t PhysicalTypeDouble" VFloat64 0
    "\<lambda>_. True" "le_bytes 8" ReadFixedFloat64 "DoubleVec t" for lib t
  by unfold_locales (simp_all add: decode_typed)

section \<open>The bitmap of an object column\<close>

lemma object_validity_spec:
  assumes "small_count (length rows)"
  shows "\<exists>v. object_validity rows (int (length rows)) = Done v \<and> wf_validity v (length rows)
    \<and> (\<forall>i < length rows. row_valid v i \<longleftrightarrow> rows ! i \<noteq> VNil)"
proof -
  let ?n = "length rows"
  let ?step = "\<lambda>(i, val) validity. if val = VNil then
       outcome_bind (case validity of None \<Rightarrow> ValidityAllValid (int ?n) | Some ws \<Rightarrow> Done ws) (\<lambda>ws.
       outcome_bind (ValiditySetNull ws (int i)) (\<lambda>ws'. Done (Some ws')))
     else Done validity"
  have "k \<le> ?n \<Longrightarrow> \<exists>v. for_each ?step (enumerate 0 (take k rows)) None = Done v \<and> wf_validity v ?n
      \<and> (\<forall>i < ?n. row_valid v i \<longleftrightarrow> \<not> (i < k \<and> rows ! i = VNil))" for k
  proof (induction k)
    case 0
    then show ?case by (auto simp: wf_validity_def row_valid_def)
  next
    case (Suc k)
    then obtain v where v: "for_each ?step (enumerate 0 (take k rows)) None = Done v" "wf_validity v ?n"
        "\<forall>i < ?n. row_valid v i \<longleftrightarrow> \<not> (i < k \<and> rows ! i = VNil)"
      by auto
    have k: "k < ?n" using Suc.prems by simp
    have split: "for_each ?step (enumerate 0 (take (Suc k) rows)) None = ?step (k, rows ! k) v"
      using v(1) k by (simp add: take_Suc_conv_app_nth enumerate_append_eq for_each_append)
    show ?case
    proof (cases "rows ! k = VNil")
      case False
      then show ?thesis using v split by (auto simp: less_Suc_eq)
    next
      case True
      obtain ws where ws: "(case v of None \<Rightarrow> ValidityAllValid (int ?n) | Some ws \<Rightarrow> Done ws) = Done ws"
          "length ws = (?n + 63) div 64" "\<forall>i < ?n. bit (ws ! (i div 64)) (i mod 64) = row_valid v i"
        using v(2) AllValid_words [OF assms] AllValid_bits words_hold(2)
        by (cases v) (auto simp: wf_validity_def row_valid_def)
      then obtain ws' where ws': "ValiditySetNull ws (int k) = Done ws'" "64 * length ws' = 64 * length ws"
          "ValidityIsValid (Some ws') (int k) = Done False"
          "\<forall>r < 64 * length ws. r \<noteq> k \<longrightarrow> ValidityIsValid (Some ws') (int r) = ValidityIsValid (Some ws) (int r)"
        using bitmap.clear_ok [of k ws] words_hold(2) [OF k] by auto
      have "row_valid (Some ws') i \<longleftrightarrow> (if i = k then False else row_valid v i)" if "i < ?n" for i
      proof -
        have "i < 64 * length ws" using words_hold(2) [OF that] ws(2) by simp
        then show ?thesis
          using ws'(2,3,4) ws(3) that by (auto simp: ValidityIsValid_bit row_valid_def)
      qed
      then have "\<forall>i < ?n. row_valid (Some ws') i \<longleftrightarrow> \<not> (i < Suc k \<and> rows ! i = VNil)"
        using v(3) True by (auto simp: less_Suc_eq)
      moreover have "wf_validity (Some ws') ?n" using ws'(2) ws(2) by (simp add: wf_validity_def)
      ultimately show ?thesis using split True ws(1) ws'(1) by simp
    qed
  qed
  from this [of ?n] show ?thesis by (auto simp: object_validity_def)
qed

section \<open>Object columns\<close>

lemma keep_valid_rows:
  assumes "wf_validity v (length rows)" "\<forall>i < length rows. row_valid v i \<longleftrightarrow> rows ! i \<noteq> VNil"
    and "length xs = length rows" "\<forall>i < length rows. rows ! i \<noteq> VNil \<longrightarrow> xs ! i = rows ! i"
  shows "keep_valid v xs = Done rows"
  unfolding keep_valid_def map_outcome_eq_Done
  using assms IsValid_wf [OF assms(1)] by (simp add: nth_enumerate_eq)

text \<open>The raw values behind the rows of an object column.\<close>

context object_layout
begin

definition raw_rows :: "govalue list \<Rightarrow> 'a list" where
  "raw_rows rows = map (\<lambda>r. if r = VNil then zero else SOME w. ok w \<and> r = box w) rows"

definition representable :: "govalue \<Rightarrow> bool" where
  "representable r \<longleftrightarrow> r = VNil \<or> (\<exists>w. ok w \<and> r = box w)"

lemma raw_rows:
  assumes "list_all representable rows" "i < length rows"
  shows "ok (raw_rows rows ! i)" "rows ! i = VNil \<Longrightarrow> raw_rows rows ! i = zero"
    "rows ! i \<noteq> VNil \<Longrightarrow> box (raw_rows rows ! i) = rows ! i"
proof -
  have r: "representable (rows ! i)" using assms by (simp add: list_all_length)
  have "ok w \<and> rows ! i = box w" if "rows ! i \<noteq> VNil" "w = (SOME w. ok w \<and> rows ! i = box w)" for w
    using r that someI_ex [of "\<lambda>w. ok w \<and> rows ! i = box w"] by (simp add: representable_def)
  then show "ok (raw_rows rows ! i)" "rows ! i = VNil \<Longrightarrow> raw_rows rows ! i = zero"
    "rows ! i \<noteq> VNil \<Longrightarrow> box (raw_rows rows ! i) = rows ! i"
    using assms(2) zero_ok by (auto simp: raw_rows_def)
qed

lemma shows_objects: "list_all representable rows \<Longrightarrow> shows_rows (ObjectVec t rows) (raw_rows rows)"
proof -
  assume rep: "list_all representable rows"
  have "\<exists>isnull. IsNull (ObjectVec t rows) (int i) = Done isnull \<and> (if isnull then raw_rows rows ! i = zero
      else GetObject (ObjectVec t rows) (int i) = Done (box (raw_rows rows ! i)))" if "i < length rows" for i
    using raw_rows [OF rep that] that by (intro exI [of _ "rows ! i = VNil"]) simp
  moreover have "list_all ok (raw_rows rows)"
    using raw_rows(1) [OF rep] by (simp add: list_all_length raw_rows_def)
  moreover have "length (raw_rows rows) = length rows" by (simp add: raw_rows_def)
  ultimately show ?thesis
    unfolding shows_rows_def by (intro conjI allI impI) (simp_all only: vec_Size.simps)
qed

lemma object_column_roundtrip:
  assumes "applies" "GetPhysicalType t = p" "needsObjectMaterialization t p"
    and rep: "list_all representable rows" and n: "small_count (length rows)"
  shows "\<exists>bs. emits (EncodeVector lib t (ObjectVec t rows)) bs \<and> bs \<noteq> [] \<and>
    (\<forall>rest k. reads (DecodeVector (Suc k) t (int (length rows))) (Some (ObjectVec t rows)) bs rest)"
proof -
  have const: "IsConstantSize (GetPhysicalType t)" using width(1) by (auto simp: ByteWidth_total assms(2))
  obtain v where v: "object_validity rows (int (length rows)) = Done v" "wf_validity v (length rows)"
      "\<forall>i < length rows. row_valid v i \<longleftrightarrow> rows ! i \<noteq> VNil"
    using object_validity_spec [OF n] by auto
  let ?raw = "raw_rows rows"
  have len: "length ?raw = length rows" by (simp add: raw_rows_def)
  have ok: "list_all ok ?raw" using raw_rows(1) [OF rep] by (simp add: list_all_length len)
  note enc = rows_written [OF assms(1) shows_objects [OF rep]]
  have "emits (EncodeVector lib t (ObjectVec t rows)) (object (flat_bytes v (blob_bytes (payload ?raw))))"
    by (rule emits_flat_fixed) (use const enc v n assms(2) in \<open>simp_all add: extractValidity_def\<close>)
  moreover have "reads (DecodeVector (Suc k) t (int (length rows))) (Some (ObjectVec t rows))
      (object (flat_bytes v (blob_bytes (payload ?raw)))) rest" for k rest
  proof (rule reads_flat_fixed [where w = width, OF n v(2) const])
    assume "length (payload ?raw) \<le> maxInput"
    then have "read_array 16 (int (length rows)) (decodeFixedValue t p) (NewBinaryReader (payload ?raw)) = Done (map box ?raw)"
      using object_array_read [OF assms(1) ok] by (simp add: len)
    moreover have "keep_valid v (map box ?raw) = Done rows"
      by (rule keep_valid_rows [OF v(2,3)]) (use raw_rows(3) [OF rep] in \<open>simp_all add: len\<close>)
    ultimately show "decodeFixedFlatVector t (GetPhysicalType t) (payload ?raw) (int (length rows)) v = Done (ObjectVec t rows)"
      using assms(2,3) by (simp add: decodeFixedFlatVector_def)
  qed (use width assms(2) in \<open>simp_all add: length_payload len\<close>)
  moreover have "object (flat_bytes v (blob_bytes (payload ?raw))) \<noteq> []" by (simp add: object_def object_end_def)
  ultimately show ?thesis by blast
qed

end

section \<open>The VARCHAR family\<close>

text \<open>A value a column of byte strings can hold: what \<^verbatim>\<open>decodeStringLikeValue\<close> makes of some bytes.\<close>

definition string_like :: "LogicalType \<Rightarrow> govalue \<Rightarrow> bool" where
  "string_like t r \<longleftrightarrow> (case r of
       VNil \<Rightarrow> True
     | VString _ \<Rightarrow> lt_ID t \<notin> set [LogicalTypeIDBlob, LogicalTypeIDGeometry, LogicalTypeIDBit]
     | VBytes _ \<Rightarrow> lt_ID t \<in> set [LogicalTypeIDBlob, LogicalTypeIDGeometry, LogicalTypeIDBit]
     | _ \<Rightarrow> False)"

lemma string_like_roundtrip:
  "string_like t r \<Longrightarrow> r \<noteq> VNil \<Longrightarrow> decodeStringLikeValue t (encodeStringLikeValueForWrite lib r) = r"
  by (cases r)
    (auto simp: string_like_def decodeStringLikeValue_def encodeStringLikeValueForWrite_def sprint_v_def)

definition strings_payload :: "go_lib \<Rightarrow> govalue list \<Rightarrow> bytes" where
  "strings_payload lib rows = list_bytes (\<lambda>r. blob_bytes (encodeStringLikeValueForWrite lib r)) rows"

lemma appends_strings:
  "appends (wseq (WriteULEB128 (of_nat (length rows)))
     (foldr (\<lambda>v. wseq (WriteStringBytes (encodeStringLikeValueForWrite lib v))) rows wskip)) (strings_payload lib rows)"
proof -
  have "appends (foldr (\<lambda>v. wseq (WriteStringBytes (encodeStringLikeValueForWrite lib v))) rows wskip)
      (concat (map (\<lambda>r. blob_bytes (encodeStringLikeValueForWrite lib r)) rows))"
    by (induction rows) (simp_all add: appends_wskip appends_wseq appends_WriteStringBytes)
  then show ?thesis
    unfolding strings_payload_def list_bytes_def uleb_len_def by (intro appends_wseq appends_WriteULEB128)
qed

lemma rows_read: "map_outcome (\<lambda>i. GetObject (ObjectVec t rows) (int i)) [0..<length rows] = Done rows"
  by (subst map_outcome_Done [of _ _ "\<lambda>i. rows ! i"]) (simp_all add: map_nth)

lemma string_column_roundtrip:
  assumes p: "GetPhysicalType t = PhysicalTypeVarchar" and rows: "list_all (string_like t) rows"
    and n: "small_count (length rows)"
  shows "\<exists>bs. emits (EncodeVector lib t (ObjectVec t rows)) bs \<and> bs \<noteq> [] \<and>
    (\<forall>rest k. reads (DecodeVector (Suc k) t (int (length rows))) (Some (ObjectVec t rows)) bs rest)"
proof -
  obtain v where v: "object_validity rows (int (length rows)) = Done v" "wf_validity v (length rows)"
      "\<forall>i < length rows. row_valid v i \<longleftrightarrow> rows ! i \<noteq> VNil"
    using object_validity_spec [OF n] by auto
  let ?bs = "object (flat_bytes v (strings_payload lib rows))"
  have const: "\<not> IsConstantSize PhysicalTypeVarchar" by (simp add: IsConstantSize_def)
  have "emits (EncodeVector lib t (ObjectVec t rows)) ?bs"
    using appends_WriteObject [OF appends_flat [OF appends_strings, of v]] ToBytes_wf [OF n v(2)] rows_read [of t rows]
    by (simp add: EncodeVector_def encodeFlatVectorBody_def extractValidity_def v(1) p const Let_def)
  moreover have "reads (DecodeVector (Suc k) t (int (length rows))) (Some (ObjectVec t rows)) ?bs rest" for k rest
  proof -
    let ?raw = "map (encodeStringLikeValueForWrite lib) rows"
    have payload: "strings_payload lib rows = list_bytes blob_bytes ?raw"
      by (simp add: strings_payload_def list_bytes_def comp_def)
    have "keep_valid v (map (decodeStringLikeValue t) ?raw) = Done rows"
      by (rule keep_valid_rows [OF v(2,3)])
        (use rows string_like_roundtrip in \<open>simp_all add: list_all_length\<close>)
    then have col: "reads (object_column t (keep_valid v (map (decodeStringLikeValue t) ?raw))) (Some (ObjectVec t rows)) [] (object_end @ rest)"
      by (simp add: object_column_def reads_rlift)
    have "reads (ReadList 24 (\<lambda>_. ReadStringBytes)) ?raw (list_bytes blob_bytes ?raw) (object_end @ rest)"
      by (rule reads_ReadList) (simp_all add: reads_ReadStringBytes)
    then have body: "reads (rbind (ReadRequiredField 102 [] (ReadList 24 (\<lambda>_. ReadStringBytes))) (\<lambda>raw.
         object_column t (keep_valid v (map (decodeStringLikeValue t) raw))))
       (Some (ObjectVec t rows)) (field 102 (strings_payload lib rows)) (object_end @ rest)"
      unfolding payload by (rule reads_rbind_last [OF reads_ReadRequiredField]) (rule col)
    show ?thesis
      by (rule reads_flat_vector, unfold decodeFlatVector.simps Let_def, rule reads_flat [OF n v(2)])
         (use body p const in simp)
  qed
  moreover have "?bs \<noteq> []" by (simp add: object_def object_end_def)
  ultimately show ?thesis by blast
qed

end
