(* ===== verification/Chunks.thy ===== *)
theory Chunks
  imports Columns
begin

text \<open>
  The columns and chunks the driver can send and get back unchanged: one well-formedness predicate per
  column type, and the round trips of \<^verbatim>\<open>EncodeVector\<close>/\<^verbatim>\<open>DecodeVector\<close> and
  \<^verbatim>\<open>EncodeDataChunk\<close>/\<^verbatim>\<open>DecodeDataChunk\<close> over it.
\<close>

section \<open>Representable columns\<close>

text \<open>The rows of a materialised fixed-width column: nil, or a value that the decoder makes of some raw value.\<close>

definition rows_of_kind :: "('a \<Rightarrow> bool) \<Rightarrow> ('a \<Rightarrow> govalue) \<Rightarrow> govalue list \<Rightarrow> bool" where
  "rows_of_kind ok box rows \<longleftrightarrow> list_all (\<lambda>r. r = VNil \<or> (\<exists>w. ok w \<and> r = box w)) rows"

definition objects_ok :: "LogicalType \<Rightarrow> PhysicalType \<Rightarrow> govalue list \<Rightarrow> bool" where
  "objects_ok t p rows \<longleftrightarrow>
     (if lt_ID t = LogicalTypeIDDate then
        p = PhysicalTypeInt32 \<and> rows_of_kind (\<lambda>w :: 32 word. \<bar>sint w\<bar> \<le> 106751) (\<lambda>w. VTime (epoch_AddDays (sint w))) rows
      else if lt_ID t = LogicalTypeIDDecimal then has_scale t \<and>
        (let dec = \<lambda>v. VRat (decimalFromUnscaled t v) in
         p = PhysicalTypeInt16 \<and> rows_of_kind (\<lambda>_. True) (\<lambda>w :: 16 word. dec (sint w)) rows \<or>
         p = PhysicalTypeInt32 \<and> rows_of_kind (\<lambda>_. True) (\<lambda>w :: 32 word. dec (sint w)) rows \<or>
         p = PhysicalTypeInt64 \<and> rows_of_kind (\<lambda>_. True) (\<lambda>w :: 64 word. dec (sint w)) rows \<or>
         p = PhysicalTypeInt128 \<and> rows_of_kind (\<lambda>_. True) (\<lambda>h :: HugeIntParts. dec (SignedBigInt h)) rows)
      else if lt_ID t = LogicalTypeIDEnum then enum_ok t \<and>
        (p = PhysicalTypeUint8 \<and> rows_of_kind (\<lambda>w :: 8 word. enum_ok t \<longrightarrow> enum_index t (uint w)) (\<lambda>w. decodeEnumOrInt t (uint w)) rows \<or>
         p = PhysicalTypeUint16 \<and> rows_of_kind (\<lambda>w :: 16 word. enum_ok t \<longrightarrow> enum_index t (uint w)) (\<lambda>w. decodeEnumOrInt t (uint w)) rows)
      else if p = PhysicalTypeInt64 then rows_of_kind (time_count_ok t) (decodeInt64LogicalValue t) rows
      else if p = PhysicalTypeInt128 \<and> lt_ID t = LogicalTypeIDUUID then
        rows_of_kind (\<lambda>_. True) (\<lambda>h :: HugeIntParts. VString (uuidFromHugeIntParts (Upper h) (Lower h))) rows
      else if p = PhysicalTypeInt128 then rows_of_kind (\<lambda>_. True) (\<lambda>h :: HugeIntParts. VBigInt (SignedBigInt h)) rows
      else if p = PhysicalTypeUint128 then rows_of_kind (\<lambda>_. True) (\<lambda>h :: HugeIntParts. VBigInt (UnsignedBigInt h)) rows
      else p = PhysicalTypeInterval \<and> rows_of_kind (\<lambda>_. True) (VInterval :: IntervalValue \<Rightarrow> govalue) rows)"

definition column_ok :: "LogicalType \<Rightarrow> DecodedVector \<Rightarrow> bool" where
  "column_ok t vec \<longleftrightarrow> TypeRef vec = t \<and> small_count (vec_Size vec) \<and> (let p = GetPhysicalType t in
     (case vec of
        BoolVec _ vs v \<Rightarrow> plain t p \<and> p = PhysicalTypeBool \<and> wf_nulls False vs v
      | ByteVec _ vs v \<Rightarrow> plain t p \<and> p = PhysicalTypeInt8 \<and> wf_nulls 0 vs v
      | ShortVec _ vs v \<Rightarrow> plain t p \<and> wf_nulls 0 vs v \<and>
          (p = PhysicalTypeInt16 \<or> p = PhysicalTypeUint8 \<and> list_all (\<lambda>x. take_bit 8 x = x) vs)
      | IntVec _ vs v \<Rightarrow> plain t p \<and> wf_nulls 0 vs v \<and>
          (p = PhysicalTypeInt32 \<or> p = PhysicalTypeUint16 \<and> list_all (\<lambda>x. take_bit 16 x = x) vs)
      | LongVec _ vs v \<Rightarrow> plain t p \<and> wf_nulls 0 vs v \<and>
          (p = PhysicalTypeInt64 \<or> p = PhysicalTypeUint64 \<or>
           p = PhysicalTypeUint32 \<and> list_all (\<lambda>x. take_bit 32 x = x) vs)
      | FloatVec _ vs v \<Rightarrow> plain t p \<and> p = PhysicalTypeFloat \<and> wf_nulls 0 vs v \<and> list_all (\<lambda>x. \<not> is_NaN32 x) vs
      | DoubleVec _ vs v \<Rightarrow> plain t p \<and> p = PhysicalTypeDouble \<and> wf_nulls 0 vs v
      | ObjectVec _ rows \<Rightarrow>
          p = PhysicalTypeVarchar \<and> list_all (string_like t) rows \<or>
          needsObjectMaterialization t p \<and> objects_ok t p rows))"

definition column_travels :: "go_lib \<Rightarrow> LogicalType \<Rightarrow> DecodedVector \<Rightarrow> bool" where
  "column_travels lib t vec \<longleftrightarrow> (\<exists>bs. emits (EncodeVector lib t vec) bs \<and> bs \<noteq> [] \<and>
     (\<forall>rest k. reads (DecodeVector (Suc k) t (int (vec_Size vec))) (Some vec) bs rest))"

lemma column_travelsI:
  assumes "\<exists>bs. emits (EncodeVector lib t vec) bs \<and> bs \<noteq> [] \<and>
    (\<forall>rest k. reads (DecodeVector (Suc k) t (int n)) (Some vec) bs rest)" "vec_Size vec = n"
  shows "column_travels lib t vec"
  using assms by (simp add: column_travels_def)

context object_layout
begin

lemma column_travels_kind:
  assumes "applies" "GetPhysicalType t = p" "needsObjectMaterialization t p"
    and "rows_of_kind ok box rows" "small_count (length rows)"
  shows "column_travels lib t (ObjectVec t rows)"
  by (rule column_travelsI [OF object_column_roundtrip])
    (use assms in \<open>simp_all add: rows_of_kind_def list_all_iff representable_def\<close>)

end

lemmas objects_travel =
  date_layout.column_travels_kind decimal16_layout.column_travels_kind decimal32_layout.column_travels_kind
  decimal64_layout.column_travels_kind decimal128_layout.column_travels_kind enum8_layout.column_travels_kind
  enum16_layout.column_travels_kind time_layout.column_travels_kind uuid_layout.column_travels_kind
  hugeint_layout.column_travels_kind uhugeint_layout.column_travels_kind interval_layout.column_travels_kind

lemma object_column_travels:
  assumes "GetPhysicalType t = p" "needsObjectMaterialization t p" "objects_ok t p rows" "small_count (length rows)"
  shows "column_travels lib t (ObjectVec t rows)"
  using assms unfolding objects_ok_def Let_def
  by (auto split: if_splits intro: objects_travel)


text \<open>Every representable column travels.\<close>

theorem column_travels_if_ok:
  assumes "column_ok t vec"
  shows "column_travels lib t vec"
proof -
  have typed: "column_travels lib t vec" if "\<exists>bs. emits (EncodeVector lib t vec) bs \<and> bs \<noteq> [] \<and>
      (\<forall>rest k. reads (DecodeVector (Suc k) t (int (vec_Size vec))) (Some vec) bs rest)"
    by (rule column_travelsI [OF that refl])
  have n: "small_count (vec_Size vec)" and t: "TypeRef vec = t" using assms by (simp_all add: column_ok_def)
  have any: "list_all (\<lambda>_. True) xs" for xs :: "'a list" by (simp add: list_all_iff)
  show ?thesis
  proof (cases vec)
    case (BoolVec t' vs v)
    then show ?thesis using assms by (intro typed) (auto simp: column_ok_def Let_def any intro!: bool_col.column_roundtrip)
  next
    case (ByteVec t' vs v)
    then show ?thesis using assms by (intro typed) (auto simp: column_ok_def Let_def any intro!: int8_col.column_roundtrip)
  next
    case (ShortVec t' vs v)
    then show ?thesis using assms
      by (intro typed) (auto simp: column_ok_def Let_def any intro: int16_col.column_roundtrip uint8_col.column_roundtrip)
  next
    case (IntVec t' vs v)
    then show ?thesis using assms
      by (intro typed) (auto simp: column_ok_def Let_def any intro: int32_col.column_roundtrip uint16_col.column_roundtrip)
  next
    case (LongVec t' vs v)
    then show ?thesis using assms
      by (intro typed) (auto simp: column_ok_def Let_def any
          intro: int64_col.column_roundtrip uint64_col.column_roundtrip uint32_col.column_roundtrip)
  next
    case (FloatVec t' vs v)
    then show ?thesis using assms by (intro typed) (auto simp: column_ok_def Let_def any intro!: float_col.column_roundtrip)
  next
    case (DoubleVec t' vs v)
    then show ?thesis using assms by (intro typed) (auto simp: column_ok_def Let_def any intro!: double_col.column_roundtrip)
  next
    case (ObjectVec t' rows)
    show ?thesis
    proof (cases "GetPhysicalType t = PhysicalTypeVarchar \<and> list_all (string_like t) rows")
      case True
      then show ?thesis using string_column_roundtrip [of t rows lib] n t ObjectVec by (intro typed) simp
    next
      case False
      then show ?thesis using assms n t ObjectVec
        by (auto simp: column_ok_def Let_def intro!: object_column_travels)
    qed
  qed
qed


section \<open>Chunks\<close>

definition chunk_ok :: "DataChunk \<Rightarrow> bool" where
  "chunk_ok c \<longleftrightarrow> 0 \<le> RowCount c \<and> RowCount c \<le> 2 ^ 40 \<and> list_all wf_lt (Types c) \<and>
     list_all2 (\<lambda>t col. case col of None \<Rightarrow> False
        | Some vec \<Rightarrow> int (vec_Size vec) = RowCount c \<and> column_ok t vec) (Types c) (Columns c)"

definition chunk_bytes :: "DataChunk \<Rightarrow> bytes list \<Rightarrow> bytes" where
  "chunk_bytes c cols = object (field 100 (uleb_int (RowCount c)) @ field 101 (list_bytes lt_bytes (Types c)) @
     field 102 (uleb_len (length cols) @ concat cols))"

lemma chunk_column:
  assumes "chunk_ok c" "i < length (Types c)"
  shows "\<exists>vec. Columns c ! i = Some vec \<and> int (vec_Size vec) = RowCount c \<and> column_travels lib (Types c ! i) vec"
  using assms column_travels_if_ok
  by (auto simp: chunk_ok_def list_all2_conv_all_nth split: option.splits)

lemma chunk_sizes:
  assumes "chunk_ok c"
  shows "length (Types c) = length (Columns c)"
    "\<not> (\<exists>col \<in> set (Columns c). case col of None \<Rightarrow> True | Some v \<Rightarrow> int (vec_Size v) \<noteq> RowCount c)"
proof -
  show len: "length (Types c) = length (Columns c)"
    using assms by (auto simp: chunk_ok_def dest: list_all2_lengthD)
  then show "\<not> (\<exists>col \<in> set (Columns c). case col of None \<Rightarrow> True | Some v \<Rightarrow> int (vec_Size v) \<noteq> RowCount c)"
    using chunk_column [OF assms] by (force simp: in_set_conv_nth)
qed

lemma appends_actions:
  assumes "length acts = length es" "\<And>i. i < length es \<Longrightarrow> appends (f (acts ! i)) (es ! i)"
  shows "appends (WriteList acts (\<lambda>_. f)) (uleb_len (length es) @ concat es)"
proof -
  have "map (\<lambda>act. Bytes (f act (NewBinaryWriter 0))) acts = es"
    by (rule nth_equalityI) (simp_all add: assms Bytes_of_appends)
  moreover have "appends (f act) (Bytes (f act (NewBinaryWriter 0)))" if "act \<in> set acts" for act
    using that assms Bytes_of_appends [OF assms(2)] by (force simp: in_set_conv_nth)
  then have "appends (WriteList acts (\<lambda>_. f)) (list_bytes (\<lambda>act. Bytes (f act (NewBinaryWriter 0))) acts)"
    by (rule appends_WriteList)
  ultimately show ?thesis by (simp add: list_bytes_def assms(1))
qed

text \<open>The two directions, over the same bytes.\<close>

lemma chunk_columns_encode:
  assumes "chunk_ok c"
  shows "\<exists>acts es. map_outcome (\<lambda>(t, col). case col of None \<Rightarrow> Panic | Some v \<Rightarrow> EncodeVector lib t v)
      (zip (Types c) (Columns c)) = Done acts \<and> length acts = length es \<and> length es = length (Types c) \<and>
    (\<forall>i < length es. appends (acts ! i) (es ! i) \<and> es ! i \<noteq> [] \<and>
       (\<forall>rest k. reads (DecodeVector (Suc k) (Types c ! i) (RowCount c)) (Columns c ! i) (es ! i) rest))"
proof -
  let ?n = "length (Types c)" and ?f = "\<lambda>(t, col). case col of None \<Rightarrow> Panic | Some v \<Rightarrow> EncodeVector lib t v"
  have "\<forall>i \<in> {..< ?n}. \<exists>p. ?f (Types c ! i, Columns c ! i) = Done (fst p) \<and> appends (fst p) (snd p) \<and> snd p \<noteq> [] \<and>
     (\<forall>rest k. reads (DecodeVector (Suc k) (Types c ! i) (RowCount c)) (Columns c ! i) (snd p) rest)"
    using chunk_column [OF assms, of _ lib] by (fastforce simp: column_travels_def emits_def)
  then obtain p where p: "\<forall>i < ?n. ?f (Types c ! i, Columns c ! i) = Done (fst (p i)) \<and> appends (fst (p i)) (snd (p i)) \<and>
      snd (p i) \<noteq> [] \<and> (\<forall>rest k. reads (DecodeVector (Suc k) (Types c ! i) (RowCount c)) (Columns c ! i) (snd (p i)) rest)"
    using bchoice by (metis lessThan_iff)
  show ?thesis
    by (rule exI [of _ "map (fst \<circ> p) [0..<?n]"], rule exI [of _ "map (snd \<circ> p) [0..<?n]"])
      (use p chunk_sizes(1) [OF assms] in \<open>simp add: map_outcome_eq_Done\<close>)
qed

theorem chunk_travels:
  assumes ok: "chunk_ok c"
  shows "\<exists>bs. emits (EncodeDataChunk lib c) bs \<and> bs \<noteq> [] \<and>
    (\<forall>rest n. length bs < n \<longrightarrow> reads (DecodeDataChunk n) c bs rest)"
proof -
  obtain acts es where enc: "map_outcome (\<lambda>(t, col). case col of None \<Rightarrow> Panic | Some v \<Rightarrow> EncodeVector lib t v)
      (zip (Types c) (Columns c)) = Done acts" and len: "length acts = length es" "length es = length (Types c)"
    and cols: "\<And>i. i < length es \<Longrightarrow> appends (acts ! i) (es ! i)" "\<And>i. i < length es \<Longrightarrow> es ! i \<noteq> []"
      "\<And>i rest k. i < length es \<Longrightarrow> reads (DecodeVector (Suc k) (Types c ! i) (RowCount c)) (Columns c ! i) (es ! i) rest"
    using chunk_columns_encode [OF ok, of lib] by blast
  let ?bs = "chunk_bytes c es"
  have rows: "0 \<le> RowCount c \<and> RowCount c \<le> MaxInt" using ok by (simp add: chunk_ok_def MaxInt_def)
  have wf: "list_all wf_lt (Types c)" using ok by (simp add: chunk_ok_def)
  have "emits (EncodeDataChunk lib c) ?bs"
    unfolding EncodeDataChunk_def chunk_bytes_def
    using chunk_sizes [OF ok] enc
    by (auto intro!: appends_WriteObject appends_wseq appends_WriteField appends_WriteList Encode_writes
        appends_actions [OF len(1)] cols(1) uleb_int.writes rows)
  moreover have "reads (DecodeDataChunk n) c ?bs rest" if n: "length ?bs < n" for n rest
  proof -
    have types: "reads (ReadList sizeof_LogicalType (\<lambda>_. DecodeLogicalType n)) (Types c) (list_bytes lt_bytes (Types c)) rest"
      for rest
    proof (rule reads_ReadList)
      fix t and i :: nat and rest assume t: "t \<in> set (Types c)"
      have "length (lt_bytes t) < n" using length_list_bytes_element [OF t, of lt_bytes] n
        by (simp add: chunk_bytes_def object_def field_def)
      then show "reads (DecodeLogicalType n) t (lt_bytes t) rest" using t wf by (intro Decode_reads) (simp_all add: list_all_iff)
    qed (simp_all add: sizeof_LogicalType_def)
    obtain k where k: "n = Suc k" using n by (cases n) auto
    have columns: "reads (ReadList 16 (\<lambda>i. if length (Types c) \<le> i then force_error None
        else DecodeVector n (Types c ! i) (RowCount c))) (Columns c) (uleb_len (length es) @ concat es) rest" for rest
    proof -
      have el: "length es = length (Columns c)" using len(2) chunk_sizes(1) [OF ok] by simp
      show ?thesis
        unfolding el by (rule reads_ReadList_indexed [OF _ _ el])
          (use cols(2,3) len(2) el k in \<open>auto simp: in_set_conv_nth\<close>)
    qed
    have same: "\<lparr>RowCount = RowCount c, Types = Types c, Columns = Columns c\<rparr> = c" by simp
    show ?thesis
      unfolding DecodeDataChunk_def chunk_bytes_def
      apply (rule reads_ReadObject)
      apply (rule reads_rbind [OF reads_ReadRequiredField [OF uleb_int.reads_back [OF rows]]])
      apply (rule reads_rbind [OF reads_ReadRequiredField [OF types]])
      apply (rule reads_rbind_last [OF reads_ReadRequiredField [OF columns]])
      using chunk_sizes(1) [OF ok] by (simp add: same reads_rret)
  qed
  moreover have "?bs \<noteq> []" by (simp add: chunk_bytes_def object_def object_end_def)
  ultimately show ?thesis by blast
qed

corollary chunk_wrapper_travels:
  assumes ok: "chunk_ok c"
  shows "\<exists>bs. emits (EncodeDataChunkWrapper lib c) bs \<and> bs \<noteq> [] \<and>
    (\<forall>rest n. length bs < n \<longrightarrow> reads (DecodeDataChunkWrapper n) c bs rest)"
proof -
  obtain bs where bs: "emits (EncodeDataChunk lib c) bs" "\<And>rest n. length bs < n \<Longrightarrow> reads (DecodeDataChunk n) c bs rest"
    using chunk_travels [OF ok, of lib] by blast
  let ?w = "object (field 300 bs)"
  have "emits (EncodeDataChunkWrapper lib c) ?w"
    using bs(1) unfolding EncodeDataChunkWrapper_def
    by (auto simp: emits_def intro!: appends_WriteObject appends_WriteField)
  moreover have "reads (DecodeDataChunkWrapper n) c ?w rest" if "length ?w < n" for n rest
    unfolding DecodeDataChunkWrapper_def
    using that by (intro reads_ReadObject reads_ReadRequiredField bs(2)) (simp add: object_def field_def)
  moreover have "?w \<noteq> []" by (simp add: object_def object_end_def)
  ultimately show ?thesis by blast
qed

end
