(* ===== verification/MessageRoundtrip.thy ===== *)
theory MessageRoundtrip
  imports Messages Chunks
begin

text \<open>
  The contract of \<^verbatim>\<open>EncodeMessage\<close> and \<^verbatim>\<open>DecodeMessage\<close>: a well-formed message is encoded without a
  panic or an error, and the bytes are decoded to the message with its header type filled in; the
  decoder never runs out of the fuel it starts with, whatever the bytes.
\<close>

section \<open>Well-formed messages\<close>

text \<open>The header the decoder returns: the type is the one \<^verbatim>\<open>encodeHeader\<close> was given.\<close>

primrec with_header :: "MessageHeader \<Rightarrow> QuackMessage \<Rightarrow> QuackMessage" where
  "with_header h (ConnectionRequest _ a v p mn mx) = ConnectionRequest h a v p mn mx"
| "with_header h (ConnectionResponse _ v p q has) = ConnectionResponse h v p q has"
| "with_header h (PrepareRequest _ sql) = PrepareRequest h sql"
| "with_header h (PrepareResponse _ ts ns nmf cs uuid) = PrepareResponse h ts ns nmf cs uuid"
| "with_header h (FetchRequest _ uuid) = FetchRequest h uuid"
| "with_header h (FetchResponse _ cs b has) = FetchResponse h cs b has"
| "with_header h (AppendRequest _ s t c) = AppendRequest h s t c"
| "with_header h (SuccessResponse _) = SuccessResponse h"
| "with_header h (DisconnectMessage _) = DisconnectMessage h"
| "with_header h (ErrorResponse _ msg) = ErrorResponse h msg"

definition stamp :: "QuackMessage \<Rightarrow> QuackMessage" where
  "stamp m = with_header ((Header m)\<lparr>h_Type := messageTypeOf m\<rparr>) m"

lemma Header_with_header [simp]: "Header (with_header h m) = h" "messageTypeOf (with_header h m) = messageTypeOf m"
  by (cases m; simp)+

definition message_ok :: "QuackMessage \<Rightarrow> bool" where
  "message_ok m \<longleftrightarrow> (case m of
       ConnectionResponse _ _ _ q has \<Rightarrow> has \<or> q = 0
     | PrepareResponse _ ts _ _ cs _ \<Rightarrow> list_all wf_lt ts \<and> list_all chunk_ok cs
     | FetchResponse _ cs b has \<Rightarrow> list_all chunk_ok cs \<and> (if has then b \<noteq> OptionalIndexInvalid else b = 0)
     | AppendRequest _ _ _ c \<Rightarrow> chunk_ok c
     | _ \<Rightarrow> True)"

section \<open>The header\<close>

definition header_bytes :: "MessageHeader \<Rightarrow> MessageType \<Rightarrow> bytes" where
  "header_bytes h mt = object (field 1 (uleb_int mt) @ opt_field (h_ConnectionID h \<noteq> []) 2 (string_bytes (h_ConnectionID h)) @
     field 3 (uleb_word (h_ClientQueryID h)))"

lemma query_id_kept:
  "(if \<not> HasClientQueryID h then OptionalIndexInvalid else h_ClientQueryID h) = h_ClientQueryID h"
  by (simp add: HasClientQueryID_def)

lemma appends_header:
  assumes "0 \<le> mt" "mt \<le> MaxInt"
  shows "appends (encodeHeader h mt) (header_bytes h mt)"
  unfolding encodeHeader_def header_bytes_def Let_def query_id_kept
  by (intro appends_WriteObject appends_wseq appends_WriteField appends_opt_field
      appends_WriteString appends_WriteULEB128 uleb_int.writes conjI assms)

lemmas opt_fields = reads_rbind [OF reads_ReadOptionalField] reads_rbind_last [OF reads_ReadOptionalField]
  reads_rbind [OF reads_ReadRequiredField] reads_rbind_last [OF reads_ReadRequiredField] reads_rret

lemmas other_field = opt_field_def field_def object_end_def FieldEnd_def

lemma reads_header:
  assumes "0 \<le> mt" "mt \<le> MaxInt"
  shows "reads decodeHeader (h\<lparr>h_Type := mt\<rparr>) (header_bytes h mt) rest"
  unfolding decodeHeader_def header_bytes_def
  apply (rule reads_ReadObject)
  apply (rule opt_fields, rule uleb_int.reads_back, simp add: assms)
  apply (rule opt_fields, rule reads_ReadString, simp add: field_def)
  apply (rule opt_fields(4), rule reads_ReadULEB128)
  by (cases h) (simp add: reads_rret)

section \<open>Lists of chunks\<close>

lemma length_concat_element: "e \<in> set es \<Longrightarrow> length e \<le> length (concat es)"
  by (induction es) auto

lemma chunk_list_travels:
  assumes "list_all chunk_ok cs"
  shows "\<exists>bs. emits (writeChunkPointerList lib cs) bs \<and>
    (\<forall>rest n. length bs < n \<longrightarrow> reads (readChunkPointerList n) cs bs rest)"
proof -
  let ?n = "length cs"
  have "\<forall>i \<in> {..< ?n}. \<exists>p. EncodeDataChunkWrapper lib (cs ! i) = Done (fst p) \<and> appends (fst p) (snd p) \<and>
     (\<forall>rest n. length (snd p) < n \<longrightarrow> reads (DecodeDataChunkWrapper n) (cs ! i) (snd p) rest)"
    using assms chunk_wrapper_travels [of _ lib] by (fastforce simp: list_all_length emits_def)
  then obtain p where p: "\<forall>i < ?n. EncodeDataChunkWrapper lib (cs ! i) = Done (fst (p i)) \<and> appends (fst (p i)) (snd (p i)) \<and>
      (\<forall>rest n. length (snd (p i)) < n \<longrightarrow> reads (DecodeDataChunkWrapper n) (cs ! i) (snd (p i)) rest)"
    using bchoice by (metis lessThan_iff)
  define acts where "acts = map (fst \<circ> p) [0..<?n]"
  define es where "es = map (\<lambda>i. bool_bytes True @ snd (p i)) [0..<?n]"
  let ?bs = "uleb_len (length es) @ concat es"
  have "map_outcome (EncodeDataChunkWrapper lib) cs = Done acts"
    using p by (simp add: map_outcome_eq_Done acts_def)
  moreover have "appends (WriteList acts (\<lambda>_ act. wseq (WriteBool True) act)) ?bs"
    by (rule appends_actions) (use p in \<open>simp_all add: acts_def es_def appends_wseq appends_WriteBool\<close>)
  ultimately have "emits (writeChunkPointerList lib cs) ?bs" by (simp add: writeChunkPointerList_def)
  moreover have "reads (readChunkPointerList n) cs ?bs rest" if n: "length ?bs < n" for n rest
  proof -
    have el: "length es = length cs" by (simp add: es_def)
    show ?thesis
      unfolding readChunkPointerList_def el
    proof (rule reads_ReadList_indexed [OF _ _ el])
      fix j rest assume j: "j < length cs"
      then have "length (es ! j) \<le> length (concat es)" by (intro length_concat_element) (simp add: el)
      then have "length (snd (p j)) < n" using n j by (simp add: es_def)
      then show "reads (rbind ReadBool (\<lambda>present. if \<not> present then rret zeroDataChunk else DecodeDataChunkWrapper n)) (cs ! j) (es ! j) rest"
        using p j by (auto simp: es_def intro!: reads_rbind [OF reads_ReadBool])
    qed (auto simp: sizeof_DataChunk_def es_def bool_bytes_def)
  qed
  ultimately show ?thesis by blast
qed


section \<open>Bodies\<close>

definition body_travels :: "go_lib \<Rightarrow> QuackMessage \<Rightarrow> MessageHeader \<Rightarrow> bool" where
  "body_travels lib m h \<longleftrightarrow> (\<exists>bs. emits (encodeBody lib m) bs \<and>
     (\<forall>rest n. length bs < n \<longrightarrow> reads (decodeBody n h) (Some (with_header h m)) bs rest))"

lemma body_travelsI:
  "emits (encodeBody lib m) bs \<Longrightarrow>
   (\<And>rest n. length bs < n \<Longrightarrow> reads (decodeBody n h) (Some (with_header h m)) bs rest) \<Longrightarrow> body_travels lib m h"
  unfolding body_travels_def by blast

lemmas write_fields = appends_WriteObject appends_wseq appends_WriteField appends_opt_field appends_wskip
  appends_WriteString appends_WriteULEB128 appends_WriteHugeInt appends_WriteBool appends_WriteList Encode_writes

lemma connection_request_travels:
  assumes "h_Type h = MessageTypeConnectionRequest"
  shows "body_travels lib (ConnectionRequest h' a v p mn mx) h"
proof (rule body_travelsI)
  let ?bs = "object (opt_field (a \<noteq> []) 1 (string_bytes a) @ opt_field (v \<noteq> []) 2 (string_bytes v) @
     opt_field (p \<noteq> []) 3 (string_bytes p) @ opt_field (mn \<noteq> 0) 4 (uleb_word mn) @ opt_field (mx \<noteq> 0) 5 (uleb_word mx))"
  show "emits (encodeBody lib (ConnectionRequest h' a v p mn mx)) ?bs"
    by (simp add: encodeBody_def writeOptionalString_def writeOptionalIndexNonZero_def write_fields)
  show "reads (decodeBody n h) (Some (with_header h (ConnectionRequest h' a v p mn mx))) ?bs rest" for n rest
    unfolding decodeBody_def Let_def
    apply (simp only: assms if_True refl with_header.simps)
    apply (rule reads_ReadObject)
    apply (rule opt_fields, rule reads_ReadString, simp add: other_field)+
    apply (rule opt_fields, rule reads_ReadULEB128, simp add: other_field)
    apply (rule opt_fields(2), rule reads_ReadULEB128, simp add: other_field)
    by (rule reads_rret)
qed

text \<open>The version of a ConnectionResponse is read by peeking at its field id.\<close>

lemma reads_opt_version:
  assumes "has \<or> q = 0"
  shows "reads (rbind PeekFieldID (\<lambda>fid. if fid = 3 then
       rbind ReadFieldID (\<lambda>_. rbind ReadULEB128 (\<lambda>w. rret (f w True)))
     else rret (f 0 False))) (f q has) (opt_field has 3 (uleb_word q)) (object_end @ rest)"
proof (cases has)
  case True
  have "reads (rbind PeekFieldID (\<lambda>fid. if fid = 3 then
       rbind ReadFieldID (\<lambda>_. rbind ReadULEB128 (\<lambda>w. rret (f w True)))
     else rret (f 0 False))) (f q True) (fid_bytes 3 @ uleb_word q) (object_end @ rest)"
    by (rule reads_rbind_first, unfold append_assoc, rule reads_PeekFieldID)
      (simp, intro reads_rbind [OF reads_ReadFieldID] reads_rbind_last [OF reads_ReadULEB128] reads_rret)
  then show ?thesis using True by (simp add: opt_field_def field_def)
next
  case False
  have "reads (rbind PeekFieldID (\<lambda>fid. if fid = 3 then
       rbind ReadFieldID (\<lambda>_. rbind ReadULEB128 (\<lambda>w. rret (f w True)))
     else rret (f 0 False))) (f 0 False) [] (object_end @ rest)"
    unfolding object_end_def
    by (rule reads_rbind_first, unfold append_Nil, rule reads_PeekFieldID) (simp add: FieldEnd_def reads_rret)
  then show ?thesis using False assms by (simp add: opt_field_def)
qed

lemma connection_response_travels:
  assumes "h_Type h = MessageTypeConnectionResponse" "has \<or> q = 0"
  shows "body_travels lib (ConnectionResponse h' v p q has) h"
proof (rule body_travelsI)
  let ?bs = "object (opt_field (v \<noteq> []) 1 (string_bytes v) @ opt_field (p \<noteq> []) 2 (string_bytes p) @
     opt_field has 3 (uleb_word q))"
  show "emits (encodeBody lib (ConnectionResponse h' v p q has)) ?bs"
    by (simp add: encodeBody_def writeOptionalString_def write_fields)
  show "reads (decodeBody n h) (Some (with_header h (ConnectionResponse h' v p q has))) ?bs rest" for n rest
    apply (simp add: decodeBody_def assms(1))
    apply (rule reads_ReadObject)
    apply (rule opt_fields, rule reads_ReadString, simp add: other_field)+
    apply (rule reads_opt_version)
    using assms(2) by simp
qed

lemma prepare_request_travels:
  assumes "h_Type h = MessageTypePrepareRequest"
  shows "body_travels lib (PrepareRequest h' sql) h"
proof (rule body_travelsI)
  let ?bs = "object (opt_field (sql \<noteq> []) 1 (string_bytes sql))"
  show "emits (encodeBody lib (PrepareRequest h' sql)) ?bs"
    by (simp add: encodeBody_def writeOptionalString_def write_fields)
  show "reads (decodeBody n h) (Some (with_header h (PrepareRequest h' sql))) ?bs rest" for n rest
    by (simp add: decodeBody_def assms, rule reads_ReadObject, rule opt_fields(2), rule reads_ReadString)
      (simp_all add: other_field reads_rret)
qed

lemma type_list_reads:
  assumes "list_all wf_lt ts" "length (list_bytes lt_bytes ts) < n"
  shows "reads (ReadList sizeof_LogicalType (\<lambda>_. DecodeLogicalType n)) ts (list_bytes lt_bytes ts) rest"
proof (rule reads_ReadList)
  fix t and i :: nat and rest assume t: "t \<in> set ts"
  then have "length (lt_bytes t) < n" using length_list_bytes_element [OF t, of lt_bytes] assms(2) by simp
  then show "reads (DecodeLogicalType n) t (lt_bytes t) rest" using t assms(1) by (intro Decode_reads) (simp_all add: list_all_iff)
qed (simp_all add: sizeof_LogicalType_def)

lemma string_list_reads: "reads (ReadList sizeof_string (\<lambda>_. ReadString)) ss (list_bytes string_bytes ss) rest"
  by (rule reads_ReadList) (simp_all add: sizeof_string_def reads_ReadString)

lemma reads_flag: "starts_other fid rest \<Longrightarrow> reads (ReadOptionalField fid ReadBool False) b (opt_field b fid (bool_bytes True)) rest"
  by (cases b) (simp_all add: opt_field_def reads_ReadOptionalField_present reads_ReadBool reads_ReadOptionalField_absent)

lemma opt_chunks:
  assumes "list_all chunk_ok cs"
  shows "\<exists>bs act. (if cs \<noteq> [] then outcome_bind (writeChunkPointerList lib cs) (\<lambda>act. Done (WriteField fid act))
       else Done wskip) = Done act \<and> appends act (opt_field (cs \<noteq> []) fid bs) \<and>
     (\<forall>rest n. length (opt_field (cs \<noteq> []) fid bs) < n \<longrightarrow> cs \<noteq> [] \<longrightarrow> reads (readChunkPointerList n) cs bs rest)"
proof (cases "cs = []")
  case True
  then show ?thesis by (auto simp: opt_field_def appends_wskip)
next
  case False
  obtain bs where "emits (writeChunkPointerList lib cs) bs"
      "\<And>rest n. length bs < n \<Longrightarrow> reads (readChunkPointerList n) cs bs rest"
    using chunk_list_travels [OF assms, of lib] by blast
  then show ?thesis using False
    by (intro exI [of _ bs]) (auto simp: emits_def opt_field_def field_def intro: appends_WriteField [unfolded field_def])
qed

lemma prepare_response_travels:
  assumes h: "h_Type h = MessageTypePrepareResponse" and ts: "list_all wf_lt ts" and cs: "list_all chunk_ok cs"
  shows "body_travels lib (PrepareResponse h' ts ns nmf cs uuid) h"
proof -
  obtain bs act where c: "(if cs \<noteq> [] then outcome_bind (writeChunkPointerList lib cs) (\<lambda>act. Done (WriteField 4 act))
       else Done wskip) = Done act" "appends act (opt_field (cs \<noteq> []) 4 bs)"
     "\<And>rest n. length (opt_field (cs \<noteq> []) 4 bs) < n \<Longrightarrow> cs \<noteq> [] \<Longrightarrow> reads (readChunkPointerList n) cs bs rest"
    using opt_chunks [OF cs, of lib 4] by blast
  let ?bs = "object (opt_field (ts \<noteq> []) 1 (list_bytes lt_bytes ts) @ opt_field (ns \<noteq> []) 2 (list_bytes string_bytes ns) @
     opt_field nmf 3 (bool_bytes True) @ opt_field (cs \<noteq> []) 4 bs @ field 5 (hugeint_bytes uuid))"
  show ?thesis
  proof (rule body_travelsI)
    have "emits (encodeBody lib (PrepareResponse h' ts ns nmf cs uuid)) ?bs =
      appends (WriteObject
           (wseq (if ts \<noteq> [] then WriteField 1 (WriteList ts (\<lambda>_. EncodeLogicalType)) else wskip)
           (wseq (if ns \<noteq> [] then WriteField 2 (WriteList ns (\<lambda>_. WriteString)) else wskip)
           (wseq (if nmf then WriteField 3 (WriteBool True) else wskip)
           (wseq act (WriteField 5 (WriteHugeInt uuid))))))) ?bs"
      using c(1) by (simp add: encodeBody_def)
    then show "emits (encodeBody lib (PrepareResponse h' ts ns nmf cs uuid)) ?bs"
      by (simp only:) (intro write_fields c(2))
    fix rest and n :: nat assume "length ?bs < n"
    then have len: "ts \<noteq> [] \<Longrightarrow> length (list_bytes lt_bytes ts) < n" "length (opt_field (cs \<noteq> []) 4 bs) < n"
      by (auto simp: object_def opt_field_def field_def)
    show "reads (decodeBody n h) (Some (with_header h (PrepareResponse h' ts ns nmf cs uuid))) ?bs rest"
      apply (simp add: decodeBody_def h)
      apply (rule reads_ReadObject)
      apply (rule opt_fields, rule type_list_reads [OF ts len(1)], assumption, simp add: other_field)
      apply (rule opt_fields, rule string_list_reads, simp add: other_field)
      apply (rule reads_rbind [OF reads_flag], simp add: other_field)
      apply (rule opt_fields(1) [OF c(3) [OF len(2)]], assumption, simp add: other_field)
      by (rule opt_fields(4), rule reads_ReadHugeInt, rule reads_rret)
  qed
qed

lemma fetch_request_travels:
  assumes "h_Type h = MessageTypeFetchRequest"
  shows "body_travels lib (FetchRequest h' uuid) h"
proof (rule body_travelsI)
  let ?bs = "object (field 1 (hugeint_bytes uuid))"
  show "emits (encodeBody lib (FetchRequest h' uuid)) ?bs" by (simp add: encodeBody_def write_fields)
  show "reads (decodeBody n h) (Some (with_header h (FetchRequest h' uuid))) ?bs rest" for n rest
    by (simp add: decodeBody_def assms, rule reads_ReadObject, rule opt_fields(4), rule reads_ReadHugeInt)
      (simp add: reads_rret)
qed

lemma fetch_response_travels:
  assumes h: "h_Type h = MessageTypeFetchResponse" and cs: "list_all chunk_ok cs"
    and b: "if has then b \<noteq> OptionalIndexInvalid else b = 0"
  shows "body_travels lib (FetchResponse h' cs b has) h"
proof -
  obtain bs act where c: "(if cs \<noteq> [] then outcome_bind (writeChunkPointerList lib cs) (\<lambda>act. Done (WriteField 1 act))
       else Done wskip) = Done act" "appends act (opt_field (cs \<noteq> []) 1 bs)"
     "\<And>rest n. length (opt_field (cs \<noteq> []) 1 bs) < n \<Longrightarrow> cs \<noteq> [] \<Longrightarrow> reads (readChunkPointerList n) cs bs rest"
    using opt_chunks [OF cs, of lib 1] by blast
  define idx where "idx = (if \<not> has then OptionalIndexInvalid else b)"
  let ?bs = "object (opt_field (cs \<noteq> []) 1 bs @ field 2 (uleb_word idx))"
  show ?thesis
  proof (rule body_travelsI)
    have "emits (encodeBody lib (FetchResponse h' cs b has)) ?bs =
      appends (WriteObject (wseq act (WriteField 2 (WriteULEB128 idx)))) ?bs"
      using c(1) by (simp add: encodeBody_def idx_def Let_def)
    then show "emits (encodeBody lib (FetchResponse h' cs b has)) ?bs"
      by (simp only:) (intro write_fields c(2))
    fix rest and n :: nat assume "length ?bs < n"
    then have len: "length (opt_field (cs \<noteq> []) 1 bs) < n" by (auto simp: object_def)
    show "reads (decodeBody n h) (Some (with_header h (FetchResponse h' cs b has))) ?bs rest"
      apply (simp add: decodeBody_def h)
      apply (rule reads_ReadObject)
      apply (rule opt_fields(1) [OF c(3) [OF len]], assumption, simp add: other_field)
      apply (rule opt_fields(4), rule reads_ReadULEB128)
      using b by (simp add: idx_def reads_rret split: if_splits)
  qed
qed

lemma append_request_travels:
  assumes h: "h_Type h = MessageTypeAppendRequest" and c: "chunk_ok c"
  shows "body_travels lib (AppendRequest h' s t c) h"
proof -
  obtain bs act where w: "EncodeDataChunkWrapper lib c = Done act" "appends act bs"
     "\<And>rest n. length bs < n \<Longrightarrow> reads (DecodeDataChunkWrapper n) c bs rest"
    using chunk_wrapper_travels [OF c, of lib] by (auto simp: emits_def)
  let ?bs = "object (opt_field (s \<noteq> []) 1 (string_bytes s) @ opt_field (t \<noteq> []) 2 (string_bytes t) @
     field 3 (bool_bytes True @ bs))"
  show ?thesis
  proof (rule body_travelsI)
    have "emits (encodeBody lib (AppendRequest h' s t c)) ?bs = appends (WriteObject
         (wseq (writeOptionalString 1 s)
         (wseq (if t \<noteq> [] then WriteField 2 (WriteString t) else wskip)
           (WriteField 3 (wseq (WriteBool True) act))))) ?bs"
      using w(1) by (simp add: encodeBody_def)
    then show "emits (encodeBody lib (AppendRequest h' s t c)) ?bs"
      unfolding writeOptionalString_def by (simp only:) (intro write_fields w(2))
    fix rest and n :: nat assume "length ?bs < n"
    then have "length bs < n" by (auto simp: object_def field_def)
    then have chunk: "reads (rbind ReadBool (\<lambda>present. if present then DecodeDataChunkWrapper n else rret zeroDataChunk)) c
        (bool_bytes True @ bs) rest" for rest
      using w(3) by (intro reads_rbind [OF reads_ReadBool]) simp
    show "reads (decodeBody n h) (Some (with_header h (AppendRequest h' s t c))) ?bs rest"
      apply (simp add: decodeBody_def h)
      apply (rule reads_ReadObject)
      apply (rule opt_fields, rule reads_ReadString, simp add: other_field)+
      by (rule reads_rbind_last [OF reads_ReadOptionalField_present [OF chunk]], rule reads_rret)
  qed
qed

lemma end_messages_travel:
  "h_Type h = MessageTypeSuccessResponse \<Longrightarrow> body_travels lib (SuccessResponse h') h"
  "h_Type h = MessageTypeDisconnectMessage \<Longrightarrow> body_travels lib (DisconnectMessage h') h"
  "h_Type h = MessageTypeErrorResponse \<Longrightarrow> body_travels lib (ErrorResponse h' msg) h"
proof -
  show "body_travels lib (SuccessResponse h') h" if "h_Type h = MessageTypeSuccessResponse"
    by (rule body_travelsI [where bs = "object []"])
      (simp_all add: encodeBody_def decodeBody_def that write_fields reads_ReadObject reads_rret)
  show "body_travels lib (DisconnectMessage h') h" if "h_Type h = MessageTypeDisconnectMessage"
    by (rule body_travelsI [where bs = "object []"])
      (simp_all add: encodeBody_def decodeBody_def that write_fields reads_ReadObject reads_rret)
  have "reads (ReadObject None (rbind (ReadOptionalField 1 ReadString []) (\<lambda>message. rret (Some (ErrorResponse h message)))))
      (Some (ErrorResponse h msg)) (object (opt_field (msg \<noteq> []) 1 (string_bytes msg))) rest" for rest
    by (rule reads_ReadObject, rule opt_fields(2), rule reads_ReadString) (simp_all add: other_field reads_rret)
  then show "body_travels lib (ErrorResponse h' msg) h" if "h_Type h = MessageTypeErrorResponse"
    by (intro body_travelsI [where bs = "object (opt_field (msg \<noteq> []) 1 (string_bytes msg))"])
      (simp_all add: encodeBody_def decodeBody_def writeOptionalString_def that write_fields)
qed

lemmas bodies_travel = connection_request_travels connection_response_travels prepare_request_travels
  prepare_response_travels fetch_request_travels fetch_response_travels append_request_travels end_messages_travel

lemma body_travels_if_ok:
  assumes "message_ok m" "h_Type h = messageTypeOf m"
  shows "body_travels lib m h"
  using assms by (cases m) (auto simp: message_ok_def intro!: bodies_travel)

section \<open>Messages\<close>

lemma messageTypeOf_range: "0 \<le> messageTypeOf m" "messageTypeOf m \<le> MaxInt"
  by (cases m; simp add: MaxInt_def)+

lemma message_bytes:
  assumes "message_ok m"
  shows "\<exists>bs. EncodeMessage lib m = Done (Inr (header_bytes (Header m) (messageTypeOf m) @ bs)) \<and>
    (\<forall>rest n. length bs < n \<longrightarrow> reads (decodeBody n (Header (stamp m))) (Some (stamp m)) bs rest)"
proof -
  have "body_travels lib m (Header (stamp m))"
    by (rule body_travels_if_ok [OF assms]) (simp add: stamp_def)
  then obtain bs where e: "emits (encodeBody lib m) bs"
      and r: "\<And>rest n. length bs < n \<Longrightarrow> reads (decodeBody n (Header (stamp m))) (Some (stamp m)) bs rest"
    by (auto simp: body_travels_def stamp_def)
  obtain act where act: "encodeBody lib m = Done act" "appends act bs" using e by (auto simp: emits_def)
  have "appends (wseq (encodeHeader (Header m) (messageTypeOf m)) act) (header_bytes (Header m) (messageTypeOf m) @ bs)"
    by (intro appends_wseq appends_header messageTypeOf_range act)
  from Bytes_of_appends [OF this] Err_of_appends [OF this]
  have "EncodeMessage lib m = Done (Inr (header_bytes (Header m) (messageTypeOf m) @ bs))"
    by (simp add: EncodeMessage_def act(1) wseq_def)
  with r show ?thesis by blast
qed

text \<open>Decoding the bytes of a message with \<open>rest\<close> behind them.\<close>

lemma decode_then_rest:
  assumes m: "message_ok m" and bs: "EncodeMessage lib m = Done (Inr bs)"
    and len: "length (bs @ rest) \<le> maxInput"
  shows "DecodeMessage (bs @ rest) = Done (if rest = [] then Inr (Some (stamp m))
     else Inl (newError ''AssertEOF'' (''unexpected trailing '' @ show_int (int (length rest)) @ '' byte(s)'') (int (length bs))))"
proof -
  let ?hd = "header_bytes (Header m) (messageTypeOf m)"
  obtain body where body: "bs = ?hd @ body"
      "\<And>rest n. length body < n \<Longrightarrow> reads (decodeBody n (Header (stamp m))) (Some (stamp m)) body rest"
    using message_bytes [OF m, of lib] bs by auto
  have h: "Header (stamp m) = (Header m)\<lparr>h_Type := messageTypeOf m\<rparr>" by (simp add: stamp_def)
  define r where "r = NewBinaryReader (bs @ rest)"
  have r: "healthy r" "rem_bytes r = ?hd @ body @ rest"
    using len body(1) by (simp_all add: r_def healthy_def NewBinaryReader_def rem_bytes_def)
  have 1: "decodeHeader r = Done (Header (stamp m), advance (length ?hd) r)"
    using readsD [OF reads_header [OF messageTypeOf_range] r] h by simp
  note r1 = healthy_advance [OF r] rem_bytes_advance [OF r(2)]
  have 2: "decodeBody (Suc (length (bs @ rest))) (Header (stamp m)) (advance (length ?hd) r)
      = Done (Some (stamp m), advance (length bs) r)"
    using readsD [OF body(2) r1, of "Suc (length (bs @ rest))"] by (simp add: body(1))
  have len': "length (r_bytes r) = length bs + length rest" "r_offset r = 0" "r_err r = None"
    by (simp_all add: r_def NewBinaryReader_def)
  have "AssertEOF (advance (length bs) r) = (if rest = [] then Done ((), advance (length bs) r)
      else rfail () ''AssertEOF'' (''unexpected trailing '' @ show_int (int (length rest)) @ '' byte(s)'') 0 (advance (length bs) r))"
    by (simp add: AssertEOF_def on_err_def len' EOF_def Remaining_def)
  with 1 2 show ?thesis
    by (simp add: DecodeMessage_def or_error_def r_def [symmetric] Err_def len' rfail_def)
qed

text \<open>The decoder always returns: its fuel is not exhausted, whatever the bytes are.\<close>

lemma fueled_readChunkPointerList: "fueled n (readChunkPointerList n)"
  unfolding readChunkPointerList_def by (intro fueled_ReadList_any safe_rules DecodeDataChunk_fueled)

lemma fueled_decodeHeader: "fueled n decodeHeader"
  unfolding decodeHeader_def
  by (intro safe_rules fueled_ReadRequiredField_any fueled_ReadOptionalField_any) simp

lemma fueled_decodeBody: "fueled n (decodeBody n h)"
  unfolding decodeBody_def Let_def
  by (intro safe_rules fueled_ReadRequiredField_any fueled_ReadOptionalField_any fueled_ReadList_any
      fueled_readChunkPointerList DecodeDataChunk_fueled LogicalType_fueled) simp_all

lemma or_error_fuel:
  assumes "fueled n f" "sane r" "left r < n"
    and "\<And>v r'. sane r' \<Longrightarrow> left r' < n \<Longrightarrow> k v r' \<noteq> OutOfFuel"
  shows "or_error (f r) k \<noteq> OutOfFuel"
proof (cases "f r")
  case (Done p)
  obtain v r' where p: "p = (v, r')" by (cases p)
  have fwd: "forward r r'" using assms(1-3) Done unfolding fueled_def p by blast
  then have "sane r'" "left r' < n" using assms(3) by (auto simp: forward_def left_def)
  then show ?thesis using assms(4) by (simp add: Done p or_error_def split: option.splits)
qed (use assms(1-3) in \<open>simp_all add: or_error_def fueled_def\<close>)

lemma DecodeMessage_fuel: "DecodeMessage bs \<noteq> OutOfFuel"
proof -
  have r: "sane (NewBinaryReader bs)" "left (NewBinaryReader bs) < Suc (length bs)"
    by (simp_all add: sane_def left_def NewBinaryReader_def)
  show ?thesis
    unfolding DecodeMessage_def
    by (rule or_error_fuel [OF fueled_decodeHeader r], rule or_error_fuel [OF fueled_decodeBody], assumption+,
        rule or_error_fuel [OF fueled_AssertEOF], assumption+) simp
qed

end
