(* ===== verification/GoStrings.thy ===== *)
theory GoStrings
  imports Prelude
begin

text \<open>
  What the driver uses of the packages \<^verbatim>\<open>strings\<close> and \<^verbatim>\<open>strconv\<close> of the Go standard library.  A Go
  string is a list of bytes in UTF-8; functions of the library that work on runes are written on the
  bytes of the runes that matter for them.
\<close>

section \<open>Prefixes, substrings and replacement\<close>

definition HasPrefix :: "string \<Rightarrow> string \<Rightarrow> bool" where
  "HasPrefix s p \<longleftrightarrow> take (length p) s = p"

definition TrimPrefix :: "string \<Rightarrow> string \<Rightarrow> string" where
  "TrimPrefix s p = (if HasPrefix s p then drop (length p) s else s)"

primrec Contains :: "string \<Rightarrow> string \<Rightarrow> bool" where
  "Contains [] p \<longleftrightarrow> p = []"
| "Contains (c # s) p \<longleftrightarrow> HasPrefix (c # s) p \<or> Contains s p"

text \<open>\<^verbatim>\<open>ContainsAny\<close> with a set of ASCII characters.\<close>

definition ContainsAny :: "string \<Rightarrow> string \<Rightarrow> bool" where
  "ContainsAny s cs \<longleftrightarrow> list_ex (\<lambda>c. c \<in> set cs) s"

text \<open>\<^verbatim>\<open>ReplaceAll(s, old, new)\<close> with a one-byte \<open>old\<close>.\<close>

definition ReplaceAll :: "string \<Rightarrow> char \<Rightarrow> string \<Rightarrow> string" where
  "ReplaceAll s old new = concat (map (\<lambda>c. if c = old then new else [c]) s)"

lemma HasPrefix_append [simp]: "HasPrefix (p @ s) p"
  by (simp add: HasPrefix_def)

lemma HasPrefix_iff: "HasPrefix s p \<longleftrightarrow> (\<exists>t. s = p @ t)"
  by (metis HasPrefix_def append_eq_conv_conj)

lemma HasPrefix_Nil [simp]: "HasPrefix s []"
  by (simp add: HasPrefix_def)

lemma HasPrefix_Cons [simp]: "HasPrefix (c # s) (d # p) \<longleftrightarrow> c = d \<and> HasPrefix s p" "\<not> HasPrefix [] (d # p)"
  by (simp_all add: HasPrefix_def)

lemma ReplaceAll_simps [simp]:
  "ReplaceAll [] old new = []"
  "ReplaceAll (c # s) old new = (if c = old then new else [c]) @ ReplaceAll s old new"
  by (simp_all add: ReplaceAll_def)

section \<open>Case and white space\<close>

text \<open>
  \<^verbatim>\<open>ToLower\<close>, exact in the ASCII characters of its result: besides A to Z, two runes have an ASCII
  lower case, U+0130 (bytes C4 B0) and U+212A (bytes E2 84 AA).  The bytes of other runes stand for
  their lower case, which is not ASCII; every use compares the result with ASCII text.
\<close>

definition ascii_lower :: "char \<Rightarrow> char" where
  "ascii_lower c = (let n = of_char c :: nat in if 65 \<le> n \<and> n \<le> 90 then char_of (n + 32) else c)"

fun ToLower :: "string \<Rightarrow> string" where
  "ToLower (a # b # s) =
     (if a = CHR 0xC4 \<and> b = CHR 0xB0 then CHR ''i'' # ToLower s
      else if a = CHR 0xE2 \<and> b = CHR 0x84 \<and> HasPrefix s [CHR 0xAA] then CHR ''k'' # ToLower (drop 1 s)
      else ascii_lower a # ToLower (b # s))"
| "ToLower [a] = [ascii_lower a]"
| "ToLower [] = []"

text \<open>The encodings of the runes of \<^verbatim>\<open>unicode.IsSpace\<close>, and \<^verbatim>\<open>TrimSpace\<close>.\<close>

definition space_runes :: "string list" where
  "space_runes = map (\<lambda>c. [c]) [CHR 9, CHR 10, CHR 11, CHR 12, CHR 13, CHR 32] @
     [[CHR 0xC2, CHR 0x85], [CHR 0xC2, CHR 0xA0], [CHR 0xE1, CHR 0x9A, CHR 0x80],
      [CHR 0xE2, CHR 0x81, CHR 0x9F], [CHR 0xE3, CHR 0x80, CHR 0x80]] @
     map (\<lambda>c. [CHR 0xE2, CHR 0x80, c])
       [CHR 0x80, CHR 0x81, CHR 0x82, CHR 0x83, CHR 0x84, CHR 0x85, CHR 0x86, CHR 0x87, CHR 0x88,
        CHR 0x89, CHR 0x8A, CHR 0xA8, CHR 0xA9, CHR 0xAF]"

primrec trim_runes :: "nat \<Rightarrow> string list \<Rightarrow> string \<Rightarrow> string" where
  "trim_runes 0 runes s = s"
| "trim_runes (Suc n) runes s =
     (case find (HasPrefix s) runes of None \<Rightarrow> s | Some r \<Rightarrow> trim_runes n runes (drop (length r) s))"

definition TrimSpace :: "string \<Rightarrow> string" where
  "TrimSpace s = (let l = trim_runes (length s) space_runes s
     in rev (trim_runes (length l) (map rev space_runes) (rev l)))"

text \<open>The count of \<^verbatim>\<open>trim_runes\<close> is enough: what is left does not start with one of the runes.\<close>

lemma trim_runes_stops:
  assumes "length s \<le> n" "[] \<notin> set runes"
  shows "find (HasPrefix (trim_runes n runes s)) runes = None"
  using assms(1)
proof (induction n arbitrary: s)
  case 0
  have "\<not> HasPrefix [] r" if "r \<in> set runes" for r using that assms(2) by (cases r) (auto simp: HasPrefix_def)
  with 0 show ?case by (simp add: find_None_iff)
next
  case (Suc n)
  show ?case
  proof (cases "find (HasPrefix s) runes")
    case (Some r)
    then have "r \<in> set runes" "HasPrefix s r" by (auto simp: find_Some_iff)
    then have "r \<noteq> []" "s \<noteq> []" using assms(2) by (auto simp: HasPrefix_iff)
    then have "length (drop (length r) s) < length s" by simp
    then show ?thesis using Some Suc by simp
  qed simp
qed

section \<open>Joining and quoting\<close>

primrec Join :: "string list \<Rightarrow> string \<Rightarrow> string" where
  "Join [] sep = []"
| "Join (s # ss) sep = s @ concat (map (\<lambda>t. sep @ t) ss)"

text \<open>
  \<^verbatim>\<open>%q\<close> on a string: the ASCII characters as \<^verbatim>\<open>strconv.Quote\<close> writes them; the bytes of other runes are
  kept, as it does with printable ones.
\<close>

definition hex_lower :: "nat \<Rightarrow> char" where
  "hex_lower d = char_of (if d < 10 then 48 + d else 87 + d)"

definition quote_char :: "char \<Rightarrow> string" where
  "quote_char c = (let n = of_char c :: nat in
     if c = CHR 34 \<or> c = CHR 92 then [CHR 92, c]
     else if n = 7 then [CHR 92, CHR ''a''] else if n = 8 then [CHR 92, CHR ''b'']
     else if n = 9 then [CHR 92, CHR ''t''] else if n = 10 then [CHR 92, CHR ''n'']
     else if n = 11 then [CHR 92, CHR ''v''] else if n = 12 then [CHR 92, CHR ''f'']
     else if n = 13 then [CHR 92, CHR ''r'']
     else if n < 32 \<or> n = 127 then [CHR 92, CHR ''x'', hex_lower (n div 16), hex_lower (n mod 16)]
     else [c])"

definition Quote :: "string \<Rightarrow> string" where
  "Quote s = CHR 34 # concat (map quote_char s) @ [CHR 34]"

section \<open>Numbers\<close>

definition digit_val :: "char \<Rightarrow> int option" where
  "digit_val c = (let n = of_char c :: nat in if 48 \<le> n \<and> n \<le> 57 then Some (int n - 48) else None)"

primrec parse_digits :: "string \<Rightarrow> int \<Rightarrow> int option" where
  "parse_digits [] acc = Some acc"
| "parse_digits (c # s) acc = (case digit_val c of None \<Rightarrow> None | Some d \<Rightarrow> parse_digits s (acc * 10 + d))"

text \<open>\<^verbatim>\<open>strconv.ParseInt(s, 10, 64)\<close> and \<^verbatim>\<open>strconv.Atoi(s)\<close>: \<open>None\<close> is either of their errors.\<close>

definition ParseInt10 :: "string \<Rightarrow> int option" where
  "ParseInt10 s =
     (let neg = HasPrefix s ''-''; body = (if HasPrefix s ''+'' \<or> neg then drop 1 s else s)
      in if body = [] then None else case parse_digits body 0 of None \<Rightarrow> None
         | Some n \<Rightarrow> (let v = if neg then - n else n in if - (2 ^ 63) \<le> v \<and> v < 2 ^ 63 then Some v else None))"

lemma digit_val_char: "n < 10 \<Longrightarrow> digit_val (digit_char n) = Some (int n)"
  by (simp add: digit_val_def digit_char_def take_bit_nat_def)

lemma parse_digits_append:
  "parse_digits (s @ t) acc = (case parse_digits s acc of None \<Rightarrow> None | Some a \<Rightarrow> parse_digits t a)"
  by (induction s arbitrary: acc) (simp_all split: option.splits)

lemma parse_digits_show: "parse_digits (show_nat n) 0 = Some (int n)"
proof (induction n rule: show_nat.induct)
  case (1 n)
  show ?case
  proof (cases "n < 10")
    case True
    then show ?thesis by (simp add: show_nat.simps [of n] digit_val_char)
  next
    case False
    have "int n = int (n div 10) * 10 + int (n mod 10)" by (metis div_mult_mod_eq of_nat_add of_nat_mult of_nat_numeral)
    then show ?thesis using 1 False
      by (subst show_nat.simps) (simp add: parse_digits_append digit_val_char)
  qed
qed

lemma show_nat_nonempty [simp]: "show_nat n \<noteq> []"
  by (subst show_nat.simps) simp

lemma show_nat_digits: "c \<in> set (show_nat n) \<Longrightarrow> \<exists>d < 10. c = digit_char d"
proof (induction n rule: show_nat.induct)
  case (1 n)
  then show ?case by (subst (asm) show_nat.simps) (force split: if_splits)
qed

lemma show_nat_head: "\<not> HasPrefix (show_nat n) ''-''" "\<not> HasPrefix (show_nat n) ''+''"
proof -
  obtain c s where s: "show_nat n = c # s" by (cases "show_nat n") auto
  then obtain d where d: "d < 10" "c = digit_char d" using show_nat_digits [of c n] by auto
  have "digit_val CHR ''-'' = None" "digit_val CHR ''+'' = None" by (simp_all add: digit_val_def)
  then show "\<not> HasPrefix (show_nat n) ''-''" "\<not> HasPrefix (show_nat n) ''+''"
    using digit_val_char [OF d(1)] d(2) s by auto
qed

text \<open>Printing and parsing an \<^verbatim>\<open>int64\<close>.\<close>

lemma ParseInt10_show:
  assumes "- (2 ^ 63) \<le> i" "i < 2 ^ 63"
  shows "ParseInt10 (show_int i) = Some i"
  using assms show_nat_head
  by (auto simp: ParseInt10_def show_int_def parse_digits_show Let_def)

lemma parse_zeros: "parse_digits (replicate k CHR ''0'' @ s) 0 = parse_digits s 0"
proof (induction k)
  case (Suc k)
  have "digit_val CHR ''0'' = Some 0" by (simp add: digit_val_def)
  then show ?case using Suc by simp
qed simp

end
