(* ===== verification/Uri.thy ===== *)
theory Uri
  imports Codec GoStrings "HOL-Library.AList"
begin

text \<open>
  \<^verbatim>\<open>internal/transport/uri.go\<close>: parsing of Quack URLs, the resolution of options, and the checks that keep
  a pasted URL from reading local secrets or injecting HTTP headers.  A Go map is an association list
  in the order in which \<^verbatim>\<open>range\<close> visits it.  The process environment, the file system, the URL parser of
  \<^verbatim>\<open>net/url\<close> and \<^verbatim>\<open>time.ParseDuration\<close> are the fields of \<open>host_env\<close>, an argument of the definitions.
\<close>

type_synonym str_map = "(string \<times> string) list"

text \<open>\<^verbatim>\<open>m[k]\<close>: the zero value when the key is absent.\<close>

definition lookup :: "str_map \<Rightarrow> string \<Rightarrow> string" where
  "lookup m k = (case map_of m k of None \<Rightarrow> [] | Some v \<Rightarrow> v)"

record parsed_url =
  u_Hostname :: string
  u_Port :: string
  u_Path :: string
  u_Query :: "(string \<times> string list) list"

record host_env =
  url_Parse :: "string \<Rightarrow> string + parsed_url"
  Getenv :: "string \<Rightarrow> string"
  ReadFile :: "string \<Rightarrow> string + string"
  ParseDuration :: "string \<Rightarrow> int option"

record QuackURI =
  Host :: string
  Port :: int
  Database :: string
  TLS :: bool
  Token :: string
  ConnectTimeout :: int
  RequestTimeout :: int
  Params :: str_map
  ExtraHeaders :: str_map

text \<open>One constructor per \<^verbatim>\<open>fmt.Errorf\<close> of the file, with the values it prints.\<close>

datatype uri_error =
    NotQuackURL string
  | MalformedURL string
  | InvalidURL string string
  | NoHost string
  | InvalidPort string string
  | OptionInURL string
  | InvalidHeaderName string
  | HeaderValueCRLF string
  | ReservedHeader string
  | TokenEnvUnset string
  | TokenFileUnread string string
  | TokenFileEmpty string
  | BadTimeout string string
  | NonPositiveTimeout string string

definition second :: int where "second = 1000000000"

definition DefaultConnectTimeout :: int where "DefaultConnectTimeout = 10 * second"
definition DefaultRequestTimeout :: int where "DefaultRequestTimeout = 60 * second"

definition URLScheme :: string where "URLScheme = ''quack://''"

definition HTTPHeaderPrefix :: string where "HTTPHeaderPrefix = ''adbc.quack.http.header.''"

definition AcceptsURL :: "string \<Rightarrow> bool" where
  "AcceptsURL s \<longleftrightarrow> HasPrefix s URLScheme \<or> HasPrefix s (''jdbc:'' @ URLScheme)"

section \<open>Options\<close>

definition parseBool :: "string \<Rightarrow> bool" where
  "parseBool s \<longleftrightarrow> ToLower (TrimSpace s) \<in> set [''true'', ''1'', ''yes'', ''on'']"

primrec firstNonEmpty :: "string list \<Rightarrow> string" where
  "firstNonEmpty [] = []"
| "firstNonEmpty (v # vs) = (if v \<noteq> [] then v else firstNonEmpty vs)"

definition validateHeader :: "string \<Rightarrow> string \<Rightarrow> uri_error option" where
  "validateHeader name value =
     (if name = [] \<or> ContainsAny name [CHR 32, CHR 9, CHR 13, CHR 10, CHR '':''] then Some (InvalidHeaderName name)
      else if ContainsAny value [CHR 13, CHR 10] then Some (HeaderValueCRLF name)
      else if ToLower name \<in> set [''content-type'', ''accept'', ''content-length'', ''host''] then Some (ReservedHeader name)
      else None)"

definition resolveToken :: "host_env \<Rightarrow> str_map \<Rightarrow> uri_error + string" where
  "resolveToken env params =
     (let tok = firstNonEmpty [lookup params ''token'', lookup params ''password'', lookup params ''adbc.quack.token''];
          var = firstNonEmpty [lookup params ''tokenEnv'', lookup params ''adbc.quack.token_env''];
          file = firstNonEmpty [lookup params ''tokenFile'', lookup params ''adbc.quack.token_file'']
      in if tok \<noteq> [] then Inr tok
         else if var \<noteq> [] then
           (let val = TrimSpace (Getenv env var) in if val = [] then Inl (TokenEnvUnset var) else Inr val)
         else if file \<noteq> [] then
           (case ReadFile env file of Inl e \<Rightarrow> Inl (TokenFileUnread file e)
            | Inr raw \<Rightarrow> (let val = TrimSpace raw in if val = [] then Inl (TokenFileEmpty file) else Inr val))
         else Inr [])"

text \<open>\<^verbatim>\<open>time.Duration(secs) * time.Second\<close> is a product of \<^verbatim>\<open>int64\<close>s: it wraps.\<close>

definition parseTimeout :: "host_env \<Rightarrow> str_map \<Rightarrow> string \<Rightarrow> string \<Rightarrow> int \<Rightarrow> uri_error + int" where
  "parseTimeout env params jdbcKey adbcKey def =
     (let raw = TrimSpace (firstNonEmpty [lookup params jdbcKey, lookup params adbcKey]);
          positive = (\<lambda>d. if d \<le> 0 then Inl (NonPositiveTimeout jdbcKey raw) else Inr d)
      in if raw = [] then Inr def
         else case ParseInt10 raw of
             Some secs \<Rightarrow> positive (wrap64 (secs * second))
           | None \<Rightarrow> (case ParseDuration env raw of None \<Rightarrow> Inl (BadTimeout jdbcKey raw) | Some d \<Rightarrow> positive d))"

section \<open>The texts of the errors\<close>

text \<open>
  The error of \<^verbatim>\<open>strconv.Atoi\<close> for a text that \<open>ParseInt10\<close> refuses: a digit sequence is read as an unsigned number
  first, which stops at the first digit that overflows 64 bits, or at the first character that is no digit.
\<close>

primrec uint_overflows :: "string \<Rightarrow> int \<Rightarrow> bool" where
  "uint_overflows [] acc \<longleftrightarrow> True"
| "uint_overflows (c # s) acc \<longleftrightarrow> (case digit_val c of None \<Rightarrow> False
     | Some d \<Rightarrow> 2 ^ 64 \<le> acc * 10 + d \<or> uint_overflows s (acc * 10 + d))"

definition Atoi_error :: "string \<Rightarrow> string" where
  "Atoi_error s = (let body = (if HasPrefix s ''+'' \<or> HasPrefix s ''-'' then drop 1 s else s) in
     ''strconv.Atoi: parsing '' @ Quote s @ '': '' @
     (if body \<noteq> [] \<and> uint_overflows body 0 then ''value out of range'' else ''invalid syntax''))"

primrec uri_error_text :: "uri_error \<Rightarrow> string" where
  "uri_error_text (NotQuackURL raw) = ''transport: not a Quack URL: '' @ Quote raw"
| "uri_error_text (MalformedURL raw) = ''transport: malformed Quack URL: '' @ Quote raw"
| "uri_error_text (InvalidURL raw e) = ''transport: invalid Quack URL '' @ Quote raw @ '': '' @ e"
| "uri_error_text (NoHost raw) = ''transport: Quack URL has no host: '' @ Quote raw"
| "uri_error_text (InvalidPort raw p) = ''transport: invalid port in '' @ Quote raw @ '': '' @ Atoi_error p"
| "uri_error_text (OptionInURL key) = ''transport: option '' @ Quote key @ '' is only accepted as an ADBC option, not a URL query parameter''"
| "uri_error_text (InvalidHeaderName name) = ''transport: invalid HTTP header name '' @ Quote name"
| "uri_error_text (HeaderValueCRLF name) = ''transport: HTTP header '' @ Quote name @ '' value must not contain CR/LF''"
| "uri_error_text (ReservedHeader name) = ''transport: HTTP header '' @ Quote name @ '' is reserved by the Quack protocol''"
| "uri_error_text (TokenEnvUnset var) = ''transport: token environment variable is unset or empty: '' @ var"
| "uri_error_text (TokenFileUnread file e) = ''transport: read token file '' @ file @ '': '' @ e"
| "uri_error_text (TokenFileEmpty file) = ''transport: token file is empty: '' @ file"
| "uri_error_text (BadTimeout key raw) = ''transport: option '' @ Quote key @ '' must be seconds or a Go duration, got '' @ Quote raw"
| "uri_error_text (NonPositiveTimeout key raw) = ''transport: option '' @ Quote key @ '' must be positive, got '' @ Quote raw"

section \<open>ParseURI\<close>

text \<open>The options the URL's query may not carry, in the order they are looked up.\<close>

definition secret_options :: "string list" where
  "secret_options = [''tokenEnv'', ''tokenFile'', ''adbc.quack.token_env'', ''adbc.quack.token_file'']"

definition query_params :: "(string \<times> string list) list \<Rightarrow> str_map" where
  "query_params query = fold (\<lambda>(k, vals) ps. case vals of [] \<Rightarrow> ps | v # _ \<Rightarrow> AList.update k v ps) query []"

definition refused_param :: "str_map \<Rightarrow> string option" where
  "refused_param params =
     (case find (\<lambda>k. map_of params k \<noteq> None) secret_options of
        Some k \<Rightarrow> Some k
      | None \<Rightarrow> map_option fst (find (\<lambda>(k, _). HasPrefix k HTTPHeaderPrefix) params))"

text \<open>The loop over the ADBC options, on the parameters and the extra headers.\<close>

primrec apply_opts :: "str_map \<Rightarrow> str_map \<times> str_map \<Rightarrow> uri_error + str_map \<times> str_map" where
  "apply_opts [] acc = Inr acc"
| "apply_opts (kv # opts) acc = (let (k, v) = kv; (params, headers) = acc in
     if HasPrefix k HTTPHeaderPrefix then
       (let name = TrimSpace (drop (length HTTPHeaderPrefix) k) in
        case validateHeader name v of Some e \<Rightarrow> Inl e
        | None \<Rightarrow> apply_opts opts (params, if v = [] then AList.delete name headers else AList.update name v headers))
     else if v \<noteq> [] then apply_opts opts (AList.update k v params, headers)
     else apply_opts opts (params, headers))"

definition resolve :: "host_env \<Rightarrow> string \<Rightarrow> int \<Rightarrow> string \<Rightarrow> str_map \<Rightarrow> str_map \<Rightarrow> uri_error + QuackURI" where
  "resolve env host port database params headers =
     (case resolveToken env params of Inl e \<Rightarrow> Inl e | Inr token \<Rightarrow>
      case parseTimeout env params ''connectTimeout'' ''adbc.quack.rpc.timeout_seconds.connect'' DefaultConnectTimeout of
        Inl e \<Rightarrow> Inl e
      | Inr connect \<Rightarrow>
      case parseTimeout env params ''requestTimeout'' ''adbc.quack.rpc.timeout_seconds.request'' DefaultRequestTimeout of
        Inl e \<Rightarrow> Inl e
      | Inr request \<Rightarrow> Inr \<lparr>Host = host, Port = port, Database = database,
          TLS = (parseBool (lookup params ''tls'') \<or> parseBool (lookup params ''useEncryption'') \<or>
                 parseBool (lookup params ''adbc.quack.tls'')),
          Token = token, ConnectTimeout = connect, RequestTimeout = request,
          Params = params, ExtraHeaders = headers\<rparr>)"

definition ParseURI :: "host_env \<Rightarrow> string \<Rightarrow> str_map \<Rightarrow> uri_error + QuackURI" where
  "ParseURI env rawURL opts =
     (if \<not> AcceptsURL rawURL then Inl (NotQuackURL rawURL)
      else let stripped = TrimPrefix rawURL ''jdbc:'' in
        if \<not> HasPrefix stripped URLScheme then Inl (MalformedURL rawURL)
        else case url_Parse env (''http://'' @ drop (length URLScheme) stripped) of
          Inl e \<Rightarrow> Inl (InvalidURL rawURL e)
        | Inr parsed \<Rightarrow>
        if u_Hostname parsed = [] then Inl (NoHost rawURL)
        else case (if u_Port parsed = [] then Some DefaultQuackPort else ParseInt10 (u_Port parsed)) of
          None \<Rightarrow> Inl (InvalidPort rawURL (u_Port parsed))
        | Some port \<Rightarrow>
        let database = TrimPrefix (u_Path parsed) ''/''; params = query_params (u_Query parsed) in
        case refused_param params of Some k \<Rightarrow> Inl (OptionInURL k)
        | None \<Rightarrow>
        case apply_opts opts (params, []) of Inl e \<Rightarrow> Inl e
        | Inr (params, headers) \<Rightarrow> resolve env (u_Hostname parsed) port database params headers)"

definition bracket_host :: "string \<Rightarrow> string" where
  "bracket_host host = (if Contains host '':'' \<and> \<not> HasPrefix host ''['' then ''['' @ host @ '']'' else host)"

definition HTTPURL :: "QuackURI \<Rightarrow> string" where
  "HTTPURL u = (if TLS u then ''https'' else ''http'') @ ''://'' @ bracket_host (Host u) @ '':'' @ show_int (Port u) @ QuackEndpoint"

definition QuackURI_string :: "QuackURI \<Rightarrow> string" where
  "QuackURI_string u = ''quack:'' @ Host u @ '':'' @ show_int (Port u)"

section \<open>The loop over the options\<close>

text \<open>Where an extra header comes from, and what it has passed.\<close>

definition header_from :: "str_map \<Rightarrow> string \<Rightarrow> string \<Rightarrow> bool" where
  "header_from opts name v \<longleftrightarrow> v \<noteq> [] \<and> validateHeader name v = None \<and>
     (\<exists>k. (k, v) \<in> set opts \<and> HasPrefix k HTTPHeaderPrefix \<and> name = TrimSpace (drop (length HTTPHeaderPrefix) k))"

lemma update_set: "set (AList.update k v al) \<subseteq> insert (k, v) (set al)"
  by (induction al) auto

lemma delete_set: "set (AList.delete k al) \<subseteq> set al"
  by (auto simp: AList.delete_eq)

lemma apply_opts_headers:
  assumes "apply_opts opts (ps, hs) = Inr (ps', hs')" "set opts \<subseteq> set all"
    and "\<forall>(name, v) \<in> set hs. header_from all name v"
  shows "\<forall>(name, v) \<in> set hs'. header_from all name v"
  using assms
proof (induction opts arbitrary: ps hs)
  case (Cons kv opts)
  obtain k v where kv: "kv = (k, v)" by (cases kv)
  let ?name = "TrimSpace (drop (length HTTPHeaderPrefix) k)"
  show ?case
  proof (cases "HasPrefix k HTTPHeaderPrefix")
    case False
    then show ?thesis using Cons by (auto simp: kv Let_def split: if_splits)
  next
    case True
    then have valid: "validateHeader ?name v = None"
        and rest: "apply_opts opts (ps, if v = [] then AList.delete ?name hs else AList.update ?name v hs) = Inr (ps', hs')"
      using Cons.prems(1) by (auto simp: kv Let_def split: option.splits)
    have "header_from all ?name v" if "v \<noteq> []"
      using that valid True Cons.prems(2) by (auto simp: header_from_def kv)
    then have "set (if v = [] then AList.delete ?name hs else AList.update ?name v hs) \<subseteq> {(n, v). header_from all n v}"
      using Cons.prems(3) update_set [of ?name v hs] delete_set [of ?name hs] by (cases "v = []") (simp_all, blast+)
    then have "\<forall>(name, v) \<in> set (if v = [] then AList.delete ?name hs else AList.update ?name v hs). header_from all name v"
      by blast
    then show ?thesis using Cons.IH [OF rest] Cons.prems(2) by simp
  qed
qed simp

lemma apply_opts_other_key:
  assumes "apply_opts opts (ps, hs) = Inr (ps', hs')" "\<forall>v. (k, v) \<in> set opts \<longrightarrow> v = [] \<or> HasPrefix k HTTPHeaderPrefix"
  shows "map_of ps' k = map_of ps k"
  using assms
  by (induction opts arbitrary: ps hs) (auto simp: Let_def update_conv' split: if_splits option.splits)

lemma apply_opts_key:
  assumes "apply_opts opts (ps, hs) = Inr (ps', hs')" "distinct (map fst opts)"
    and "(k, v) \<in> set opts" "v \<noteq> []" "\<not> HasPrefix k HTTPHeaderPrefix"
  shows "map_of ps' k = Some v"
  using assms
proof (induction opts arbitrary: ps hs)
  case (Cons kv opts)
  show ?case
  proof (cases "kv = (k, v)")
    case True
    then have "apply_opts opts (AList.update k v ps, hs) = Inr (ps', hs')" using Cons.prems by simp
    then have "map_of ps' k = map_of (AList.update k v ps) k"
      using Cons.prems(2) True by (intro apply_opts_other_key) force+
    then show ?thesis by (simp add: update_conv')
  next
    case False
    then have "(k, v) \<in> set opts" using Cons.prems(3) by auto
    then show ?thesis using Cons by (auto simp: Let_def split: if_splits option.splits prod.splits)
  qed
qed simp

section \<open>Secrets\<close>

lemma resolveToken_ignores_env:
  assumes "\<And>k. k \<in> set secret_options \<Longrightarrow> lookup params k = []"
  shows "resolveToken env params = resolveToken env' params"
  using assms by (simp add: resolveToken_def secret_options_def Let_def)

lemma refused_none: "refused_param params = None \<Longrightarrow> k \<in> set secret_options \<Longrightarrow> map_of params k = None"
  by (auto simp: refused_param_def find_None_iff split: option.splits)

lemma resolve_ignores_env:
  assumes "\<And>k. k \<in> set secret_options \<Longrightarrow> lookup params k = []" "ParseDuration env = ParseDuration env'"
  shows "resolve env host port db params headers = resolve env' host port db params headers"
proof -
  have "parseTimeout env = parseTimeout env'" by (intro ext) (simp only: parseTimeout_def assms(2))
  moreover have "resolveToken env params = resolveToken env' params" by (rule resolveToken_ignores_env [OF assms(1)])
  ultimately show ?thesis by (simp only: resolve_def)
qed

lemma secret_not_header: "k \<in> set secret_options \<Longrightarrow> \<not> HasPrefix k HTTPHeaderPrefix"
  by (auto simp: secret_options_def HTTPHeaderPrefix_def)

lemma secrets_absent:
  assumes "refused_param params = None" "apply_opts opts (params, hs) = Inr (params', hs')"
    and "\<forall>(k, v) \<in> set opts. k \<in> set secret_options \<longrightarrow> v = []" "k \<in> set secret_options"
  shows "lookup params' k = []"
proof -
  have "map_of params' k = map_of params k"
    using assms(3,4) secret_not_header by (intro apply_opts_other_key [OF assms(2)]) auto
  then show ?thesis using refused_none [OF assms(1,4)] by (simp add: lookup_def)
qed

section \<open>What ParseURI guarantees\<close>

lemma ParseURI_Inr:
  assumes "ParseURI env raw opts = Inr q"
  obtains parsed port params headers where
    "url_Parse env (''http://'' @ drop (length URLScheme) (TrimPrefix raw ''jdbc:'')) = Inr parsed"
    "u_Hostname parsed \<noteq> []" "refused_param (query_params (u_Query parsed)) = None"
    "apply_opts opts (query_params (u_Query parsed), []) = Inr (params, headers)"
    "resolve env (u_Hostname parsed) port (TrimPrefix (u_Path parsed) ''/'') params headers = Inr q"
  using assms by (auto simp: ParseURI_def Let_def split: if_splits sum.splits option.splits prod.splits)

lemma parseTimeout_positive:
  assumes "parseTimeout env params j a def = Inr d" "0 < def"
  shows "0 < d"
  using assms unfolding parseTimeout_def Let_def
  by (auto simp del: firstNonEmpty.simps split: option.splits if_splits)

lemma resolve_Inr:
  assumes "resolve env host port db params headers = Inr q"
  shows "Host q = host" "Port q = port" "Params q = params" "ExtraHeaders q = headers"
    "0 < ConnectTimeout q" "0 < RequestTimeout q" "resolveToken env params = Inr (Token q)"
proof -
  have "0 < DefaultConnectTimeout" "0 < DefaultRequestTimeout"
    by (simp_all add: DefaultConnectTimeout_def DefaultRequestTimeout_def second_def)
  then show "Host q = host" "Port q = port" "Params q = params" "ExtraHeaders q = headers"
    "0 < ConnectTimeout q" "0 < RequestTimeout q" "resolveToken env params = Inr (Token q)"
    using assms parseTimeout_positive by (auto simp: resolve_def split: sum.splits)
qed

text \<open>The check that the prefix is still there after \<^verbatim>\<open>jdbc:\<close> is removed never fails.\<close>

lemma accepted_has_scheme: "AcceptsURL raw \<Longrightarrow> HasPrefix (TrimPrefix raw ''jdbc:'') URLScheme"
  by (auto simp: AcceptsURL_def HasPrefix_iff TrimPrefix_def URLScheme_def)

end
