(* ===== verification/Transport.thy ===== *)
theory Transport
  imports MessageRoundtrip Uri
begin

text \<open>
  \<^verbatim>\<open>internal/transport/http.go\<close>: one request of the protocol over HTTP.  The resolver and the HTTP client
  are the fields of \<open>net\<close>, functions of the state \<open>'w\<close> of the world outside the driver, which they
  return updated; everything above them is a state-passing function.
\<close>

section \<open>Errors\<close>

text \<open>
  A Go error: its text, and the message of the \<^verbatim>\<open>*ErrServerError\<close> in its chain (what \<^verbatim>\<open>errors.As\<close> finds).
  \<^verbatim>\<open>fmt.Errorf("p: %w", err)\<close> keeps the chain.
\<close>

record go_error =
  e_text :: string
  e_server :: "string option"

definition errorf :: "string \<Rightarrow> go_error" where
  "errorf s = \<lparr>e_text = s, e_server = None\<rparr>"

definition wrapf :: "string \<Rightarrow> go_error \<Rightarrow> go_error" where
  "wrapf p e = e\<lparr>e_text := p @ e_text e\<rparr>"

definition ErrServerError :: "string \<Rightarrow> go_error" where
  "ErrServerError msg = \<lparr>e_text = msg, e_server = Some msg\<rparr>"

lemma error_simps [simp]:
  "e_text (wrapf p e) = p @ e_text e" "e_server (wrapf p e) = e_server e"
  "e_server (errorf s) = None" "e_server (ErrServerError m) = Some m"
  by (simp_all add: wrapf_def errorf_def ErrServerError_def)

section \<open>The network\<close>

record http_request =
  q_URL :: string
  q_Headers :: "(string \<times> string) list"
  q_Body :: bytes

text \<open>
  The outcome of \<^verbatim>\<open>httpClient.Do\<close> and of reading the body: an error of the client (and whether a
  \<^verbatim>\<open>*net.OpError\<close> is in its chain), an error while reading, or a status code with the whole body.
\<close>

datatype http_reply = SendFailed bool string | ReadFailed string | Response int bytes

record 'w net =
  LookupIP :: "string \<Rightarrow> 'w \<Rightarrow> (string + string list) \<times> 'w"
  NewRequest :: "string \<Rightarrow> string option"
  Do :: "http_request \<Rightarrow> 'w \<Rightarrow> http_reply \<times> 'w"

section \<open>The transport\<close>

text \<open>The URI and the timeouts given to the HTTP client, in nanoseconds.\<close>

record HTTPTransport =
  t_uri :: QuackURI
  dialTimeout :: int
  requestTimeout :: int

definition NewHTTPTransport :: "QuackURI \<Rightarrow> HTTPTransport" where
  "NewHTTPTransport u = \<lparr>t_uri = u,
     dialTimeout = (if ConnectTimeout u \<le> 0 then DefaultConnectTimeout else ConnectTimeout u),
     requestTimeout = (if RequestTimeout u \<le> 0 then DefaultRequestTimeout else RequestTimeout u)\<rparr>"

section \<open>Endpoints\<close>

definition endpointFor :: "QuackURI \<Rightarrow> string \<Rightarrow> string" where
  "endpointFor u addr = ''http://'' @ bracket_host addr @ '':'' @ show_int (Port u) @ QuackEndpoint"

definition endpointCandidates :: "'w net \<Rightarrow> QuackURI \<Rightarrow> 'w \<Rightarrow> (go_error + string list) \<times> 'w" where
  "endpointCandidates net u w =
     (if TLS u then (Inr [HTTPURL u], w)
      else case LookupIP net (Host u) w of
        (Inl e, w) \<Rightarrow> (Inl (errorf (''transport: resolve host '' @ Quote (Host u) @ '': '' @ e)), w)
      | (Inr addrs, w) \<Rightarrow>
          (if addrs = [] then Inl (errorf (''transport: no addresses found for '' @ Quote (Host u)))
           else Inr (map (endpointFor u) addrs), w))"

definition isFallthroughErr :: "bool \<Rightarrow> string \<Rightarrow> bool" where
  "isFallthroughErr op s \<longleftrightarrow> op \<or> Contains s ''connection refused'' \<or> Contains s ''connect: '' \<or>
     Contains s ''no route to host'' \<or> Contains s ''i/o timeout''"

section \<open>Send\<close>

text \<open>Extra headers first: a later \<^verbatim>\<open>Set\<close> of the same header replaces an earlier one.\<close>

definition build_request :: "QuackURI \<Rightarrow> string \<Rightarrow> bytes \<Rightarrow> http_request" where
  "build_request u endpoint body = \<lparr>q_URL = endpoint,
     q_Headers = ExtraHeaders u @ [(''Content-Type'', DuckDBMIMEType), (''Accept'', DuckDBMIMEType)],
     q_Body = body\<rparr>"

definition read_reply :: "string \<Rightarrow> int \<Rightarrow> bytes \<Rightarrow> (go_error + QuackMessage option) outcome" where
  "read_reply endpoint status body =
     (if status sdiv 100 \<noteq> 2 then Done (Inl (errorf (''transport: HTTP '' @ show_int status @ '' from '' @ endpoint)))
      else outcome_bind (DecodeMessage body) (\<lambda>d. Done (case d of
          Inl e \<Rightarrow> Inl (errorf (''transport: decode response: '' @ Error_string e))
        | Inr (Some (ErrorResponse _ msg)) \<Rightarrow> Inl (ErrServerError msg)
        | Inr m \<Rightarrow> Inr m)))"

text \<open>The loop over the endpoints; \<open>lastFailure\<close> is the text of the last error that let the next one be tried.\<close>

primrec send_loop :: "'w net \<Rightarrow> QuackURI \<Rightarrow> bytes \<Rightarrow> string list \<Rightarrow> string list \<Rightarrow> string option \<Rightarrow> 'w
    \<Rightarrow> ((go_error + QuackMessage option) \<times> 'w) outcome" where
  "send_loop net u body all [] lastFailure w =
     Done (Inl (errorf (''transport: HTTP connect failed for '' @ Host u @ '':'' @ show_int (Port u) @ '' (tried ''
       @ Join all '', '' @ ''): '' @ (case lastFailure of None \<Rightarrow> ''no endpoints connected'' | Some d \<Rightarrow> d))), w)"
| "send_loop net u body all (endpoint # rest) lastFailure w =
     (case NewRequest net endpoint of
        Some e \<Rightarrow> Done (Inl (errorf (''transport: build HTTP request: '' @ e)), w)
      | None \<Rightarrow> (case Do net (build_request u endpoint body) w of
          (SendFailed op e, w) \<Rightarrow>
            (if isFallthroughErr op e then send_loop net u body all rest (Some e) w
             else Done (Inl (errorf (''transport: HTTP request to '' @ endpoint @ '': '' @ e)), w))
        | (ReadFailed e, w) \<Rightarrow> Done (Inl (errorf (''transport: read response from '' @ endpoint @ '': '' @ e)), w)
        | (Response status reply, w) \<Rightarrow>
            outcome_bind (read_reply endpoint status reply) (\<lambda>r. Done (r, w))))"

definition Send :: "go_lib \<Rightarrow> 'w net \<Rightarrow> QuackURI \<Rightarrow> QuackMessage \<Rightarrow> 'w
    \<Rightarrow> ((go_error + QuackMessage option) \<times> 'w) outcome" where
  "Send lib net u m w = outcome_bind (EncodeMessage lib m) (\<lambda>enc. case enc of
       Inl e \<Rightarrow> Done (Inl (errorf (''transport: encode message: '' @ Error_string e)), w)
     | Inr body \<Rightarrow> (case endpointCandidates net u w of
         (Inl e, w) \<Rightarrow> Done (Inl e, w)
       | (Inr endpoints, w) \<Rightarrow> send_loop net u body endpoints endpoints None w))"

section \<open>What a request carries\<close>

text \<open>The value of a header after the calls of \<^verbatim>\<open>Header.Set\<close>, whose keys are case-insensitive.\<close>

definition header_value :: "(string \<times> string) list \<Rightarrow> string \<Rightarrow> string option" where
  "header_value hs name = map_of (rev (map (\<lambda>(n, v). (ToLower n, v)) hs)) (ToLower name)"

lemma protocol_headers_win:
  "header_value (q_Headers (build_request u e body)) ''Content-Type'' = Some DuckDBMIMEType"
  "header_value (q_Headers (build_request u e body)) ''Accept'' = Some DuckDBMIMEType"
proof -
  have "ToLower ''Accept'' = ''accept''" "ToLower ''Content-Type'' = ''content-type''" by code_simp+
  then show "header_value (q_Headers (build_request u e body)) ''Content-Type'' = Some DuckDBMIMEType"
    "header_value (q_Headers (build_request u e body)) ''Accept'' = Some DuckDBMIMEType"
    by (simp_all add: header_value_def build_request_def)
qed

text \<open>A network that records the requests the client makes.\<close>

definition recorded :: "'w net \<Rightarrow> (http_request list \<times> 'w) net" where
  "recorded net = \<lparr>LookupIP = (\<lambda>h (qs, w). let (r, w) = LookupIP net h w in (r, (qs, w))),
     NewRequest = NewRequest net,
     Do = (\<lambda>q (qs, w). let (r, w) = Do net q w in (r, (qs @ [q], w)))\<rparr>"

lemma recorded_simps [simp]:
  "LookupIP (recorded net) h (qs, w) = (fst (LookupIP net h w), (qs, snd (LookupIP net h w)))"
  "NewRequest (recorded net) = NewRequest net"
  "Do (recorded net) q (qs, w) = (fst (Do net q w), (qs @ [q], snd (Do net q w)))"
  by (simp_all add: recorded_def case_prod_unfold Let_def)

lemma send_loop_requests:
  assumes "send_loop (recorded net) u body all es l (qs, w) = Done (r, (qs', w'))"
  shows "\<exists>k \<le> length es. qs' = qs @ map (\<lambda>e. build_request u e body) (take k es)"
  using assms
proof (induction es arbitrary: l qs w)
  case Nil
  then show ?case by simp
next
  case (Cons e es)
  show ?case
  proof (cases "NewRequest net e")
    case None
    let ?q = "build_request u e body"
    have "(\<exists>t. send_loop (recorded net) u body all es (Some t) (qs @ [?q], snd (Do net ?q w)) = Done (r, (qs', w')))
        \<or> qs' = qs @ [?q]"
      using Cons.prems None
      by (auto simp: outcome_bind_eq_Done split: http_reply.splits if_splits)
    then show ?thesis
    proof
      assume "\<exists>t. send_loop (recorded net) u body all es (Some t) (qs @ [?q], snd (Do net ?q w)) = Done (r, (qs', w'))"
      then obtain k where "k \<le> length es" "qs' = (qs @ [?q]) @ map (\<lambda>e. build_request u e body) (take k es)"
        using Cons.IH by blast
      then show ?thesis by (intro exI [of _ "Suc k"]) simp
    qed (intro exI [of _ 1], simp)
  qed (use Cons.prems in \<open>auto intro: exI [of _ 0]\<close>)
qed

lemma endpointCandidates_recorded:
  "endpointCandidates (recorded net) u (qs, w) =
    (fst (endpointCandidates net u w), (qs, snd (endpointCandidates net u w)))"
  by (simp add: endpointCandidates_def split: prod.splits sum.splits)

lemma Send_requests:
  assumes "Send lib (recorded net) u m (qs, w) = Done (r, (qs', w'))"
  shows "qs' = qs \<or> (\<exists>body es k. EncodeMessage lib m = Done (Inr body) \<and> fst (endpointCandidates net u w) = Inr es \<and>
     k \<le> length es \<and> qs' = qs @ map (\<lambda>e. build_request u e body) (take k es))"
proof -
  obtain enc where enc: "EncodeMessage lib m = Done enc"
    using assms by (cases "EncodeMessage lib m") (simp_all add: Send_def)
  show ?thesis
  proof (cases "\<exists>body es. enc = Inr body \<and> fst (endpointCandidates net u w) = Inr es")
    case True
    then obtain body es where b: "enc = Inr body" "fst (endpointCandidates net u w) = Inr es" by blast
    then have "send_loop (recorded net) u body es es None (qs, snd (endpointCandidates net u w)) = Done (r, (qs', w'))"
      using assms enc by (simp add: Send_def endpointCandidates_recorded)
    from send_loop_requests [OF this] show ?thesis using b enc by blast
  next
    case False
    then show ?thesis
      using assms enc by (simp add: Send_def endpointCandidates_recorded split: sum.splits)
  qed
qed

section \<open>Answers\<close>

text \<open>A server that answers with the encoding of a well-formed reply.\<close>

definition delivered :: "QuackMessage \<Rightarrow> go_error + QuackMessage option" where
  "delivered m = (case m of ErrorResponse _ msg \<Rightarrow> Inl (ErrServerError msg) | _ \<Rightarrow> Inr (Some (stamp m)))"

lemma read_reply_message:
  assumes "message_ok m" "EncodeMessage lib m = Done (Inr bs)" "length bs \<le> maxInput" "status sdiv 100 = 2"
  shows "read_reply endpoint status bs = Done (delivered m)"
proof -
  have "DecodeMessage bs = Done (Inr (Some (stamp m)))"
    using decode_then_rest [OF assms(1,2), of "[]"] assms(3) by simp
  then show ?thesis using assms(4) by (cases m) (simp_all add: read_reply_def stamp_def delivered_def)
qed

text \<open>Every failure that lets the next endpoint be tried is skipped.\<close>

primrec skipped :: "'w net \<Rightarrow> QuackURI \<Rightarrow> bytes \<Rightarrow> string list \<Rightarrow> 'w \<Rightarrow> 'w option" where
  "skipped net u body [] w = Some w"
| "skipped net u body (e # es) w = (case Do net (build_request u e body) w of
     (SendFailed op t, w') \<Rightarrow>
       if NewRequest net e = None \<and> isFallthroughErr op t then skipped net u body es w' else None
   | _ \<Rightarrow> None)"

lemma send_loop_skips:
  assumes "skipped net u body bad w = Some w'"
  shows "\<exists>l. send_loop net u body all (bad @ rest) lastFailure w = send_loop net u body all rest l w'"
  using assms
proof (induction bad arbitrary: lastFailure w)
  case Nil
  then show ?case by auto
next
  case (Cons e bad)
  obtain op t w1 where d: "Do net (build_request u e body) w = (SendFailed op t, w1)" "isFallthroughErr op t"
      "NewRequest net e = None" "skipped net u body bad w1 = Some w'"
    using Cons.prems by (auto split: prod.splits http_reply.splits if_splits)
  then show ?case using Cons.IH [OF d(4), of "Some t"] by simp
qed

lemma Send_delivers:
  assumes "EncodeMessage lib m = Done (Inr body)"
    and "endpointCandidates net u w = (Inr (bad @ e # es), w1)"
    and "skipped net u body bad w1 = Some w2"
    and "NewRequest net e = None" "Do net (build_request u e body) w2 = (Response status rbs, w3)" "status sdiv 100 = 2"
    and "message_ok reply" "EncodeMessage lib' reply = Done (Inr rbs)" "length rbs \<le> maxInput"
  shows "Send lib net u m w = Done (delivered reply, w3)"
proof -
  obtain l where "send_loop net u body (bad @ e # es) (bad @ e # es) None w1 = send_loop net u body (bad @ e # es) (e # es) l w2"
    using send_loop_skips [OF assms(3), of "bad @ e # es" "e # es" None] by blast
  then show ?thesis
    using assms read_reply_message [OF assms(7,8,9,6)] by (simp add: Send_def)
qed

end
