(* ===== verification/Session.thy ===== *)
theory Session
  imports Transport
begin

text \<open>
  \<^verbatim>\<open>driver/quack/session.go\<close>: the session (query-id counter, connection id, closed flag), streaming
  cursors and the drained results.  The transport is an argument \<open>send\<close> over the state \<open>'w\<close> of the world
  (\<open>Send\<close> of the previous theory is one); the session record holds that state, and a cursor, which in
  Go points to its session, is passed next to it.
\<close>

type_synonym 'w transport = "QuackMessage \<Rightarrow> 'w \<Rightarrow> ((go_error + QuackMessage option) \<times> 'w) outcome"

record 'w session =
  queryIDSeq :: "64 word"
  connectionID :: string
  closed :: bool
  s_world :: 'w

type_synonym ('w, 'a) sess = "'w session \<Rightarrow> ((go_error + 'a) \<times> 'w session) outcome"

definition sret :: "'a \<Rightarrow> ('w, 'a) sess" where
  "sret v s = Done (Inr v, s)"

definition sfail :: "go_error \<Rightarrow> ('w, 'a) sess" where
  "sfail e s = Done (Inl e, s)"

text \<open>\<^verbatim>\<open>x, err := f(); if err != nil { return err }; g(x)\<close>.\<close>

definition sbind :: "('w, 'a) sess \<Rightarrow> ('a \<Rightarrow> ('w, 'b) sess) \<Rightarrow> ('w, 'b) sess" where
  "sbind f g s = outcome_bind (f s) (\<lambda>(r, s). case r of Inl e \<Rightarrow> Done (Inl e, s) | Inr v \<Rightarrow> g v s)"

section \<open>Requests\<close>

definition nextQueryID :: "'w session \<Rightarrow> 64 word \<times> 'w session" where
  "nextQueryID s = (queryIDSeq s, s\<lparr>queryIDSeq := queryIDSeq s + 1\<rparr>)"

definition request_header :: "MessageType \<Rightarrow> string \<Rightarrow> 64 word \<Rightarrow> MessageHeader" where
  "request_header ty conn qid = \<lparr>h_Type = ty, h_ConnectionID = conn, h_ClientQueryID = qid\<rparr>"

text \<open>Building a request with the next query id and the session's connection id, and sending it.\<close>

definition request :: "'w transport \<Rightarrow> (string \<Rightarrow> 64 word \<Rightarrow> QuackMessage) \<Rightarrow> ('w, QuackMessage option) sess" where
  "request send mk s = (let (qid, s') = nextQueryID s in
     outcome_bind (send (mk (connectionID s) qid) (s_world s')) (\<lambda>(r, w). Done (r, s'\<lparr>s_world := w\<rparr>)))"

text \<open>\<^verbatim>\<open>%T\<close> of a reply.\<close>

primrec type_name :: "QuackMessage \<Rightarrow> string" where
  "type_name (ConnectionRequest _ _ _ _ _ _) = ''message.ConnectionRequest''"
| "type_name (ConnectionResponse _ _ _ _ _) = ''message.ConnectionResponse''"
| "type_name (PrepareRequest _ _) = ''message.PrepareRequest''"
| "type_name (PrepareResponse _ _ _ _ _ _) = ''message.PrepareResponse''"
| "type_name (FetchRequest _ _) = ''message.FetchRequest''"
| "type_name (FetchResponse _ _ _ _) = ''message.FetchResponse''"
| "type_name (AppendRequest _ _ _ _) = ''message.AppendRequest''"
| "type_name (SuccessResponse _) = ''message.SuccessResponse''"
| "type_name (DisconnectMessage _) = ''message.DisconnectMessage''"
| "type_name (ErrorResponse _ _) = ''message.ErrorResponse''"

definition reply_type :: "QuackMessage option \<Rightarrow> string" where
  "reply_type m = (case m of None \<Rightarrow> ''<nil>'' | Some m \<Rightarrow> type_name m)"

text \<open>The shape shared by the requests: send, wrap an error, and accept only a reply of one kind.\<close>

definition exchange :: "'w transport \<Rightarrow> (string \<Rightarrow> 64 word \<Rightarrow> QuackMessage) \<Rightarrow> string \<Rightarrow> string
    \<Rightarrow> (QuackMessage \<Rightarrow> 'a option) \<Rightarrow> ('w, 'a) sess" where
  "exchange send mk errp expected accept s = outcome_bind (request send mk s) (\<lambda>(r, s). case r of
       Inl e \<Rightarrow> Done (Inl (wrapf errp e), s)
     | Inr resp \<Rightarrow> (case Option.bind resp accept of
         Some v \<Rightarrow> Done (Inr v, s)
       | None \<Rightarrow> Done (Inl (errorf (expected @ reply_type resp)), s)))"

text \<open>The result of an exchange, as a function of the transport's.\<close>

definition accepted :: "string \<Rightarrow> string \<Rightarrow> (QuackMessage \<Rightarrow> 'a option) \<Rightarrow> go_error + QuackMessage option \<Rightarrow> go_error + 'a" where
  "accepted errp expected accept r = (case r of
       Inl e \<Rightarrow> Inl (wrapf errp e)
     | Inr resp \<Rightarrow> (case Option.bind resp accept of
         Some v \<Rightarrow> Inr v
       | None \<Rightarrow> Inl (errorf (expected @ reply_type resp))))"

lemma exchange_accepted:
  "exchange send mk p e acc s = outcome_bind (request send mk s) (\<lambda>(r, s). Done (accepted p e acc r, s))"
  by (cases "request send mk s") (auto simp: exchange_def accepted_def split: sum.split option.split)

lemma exchange_Done:
  "exchange send mk p e acc s = Done (r, s') \<longleftrightarrow> (\<exists>r'. request send mk s = Done (r', s') \<and> r = accepted p e acc r')"
  by (auto simp: exchange_accepted outcome_bind_eq_Done)

lemma accepted_Inr: "accepted p e acc r = Inr v \<longleftrightarrow> (\<exists>m. r = Inr (Some m) \<and> acc m = Some v)"
  by (auto simp: accepted_def bind_eq_Some_conv split: sum.splits option.splits)

section \<open>The session\<close>

definition handshake :: "'w transport \<Rightarrow> string \<Rightarrow> ('w, unit) sess" where
  "handshake send token = sbind
     (exchange send (\<lambda>_ qid. ConnectionRequest (request_header MessageTypeConnectionRequest [] qid)
          token ''adbc-driver-quack/0.0.0'' ''go'' QuackVersion QuackVersion)
        ''session: handshake: '' ''session: expected CONNECTION_RESPONSE, got ''
        (\<lambda>m. case m of ConnectionResponse hdr _ _ _ _ \<Rightarrow> Some (h_ConnectionID hdr) | _ \<Rightarrow> None))
     (\<lambda>conn s. if conn = [] then Done (Inl (errorf ''session: server did not return a connection id''), s)
        else Done (Inr (), s\<lparr>connectionID := conn\<rparr>))"

definition newSession :: "'w transport \<Rightarrow> string \<Rightarrow> 'w \<Rightarrow> ((go_error + unit) \<times> 'w session) outcome" where
  "newSession send token w =
     handshake send token \<lparr>queryIDSeq = 1, connectionID = [], closed = False, s_world = w\<rparr>"

record cursor =
  columnNames :: "string list"
  columnTypes :: "LogicalType list"
  resultUUID :: HugeIntParts
  buffered :: "DataChunk list"
  needsMore :: bool
  c_closed :: bool

definition open_cursor :: "'w transport \<Rightarrow> string \<Rightarrow> ('w, cursor) sess" where
  "open_cursor send sql = exchange send
     (\<lambda>conn qid. PrepareRequest (request_header MessageTypePrepareRequest conn qid) sql)
     ''session: prepare: '' ''session: expected PREPARE_RESPONSE, got ''
     (\<lambda>m. case m of PrepareResponse _ types names nmf results uuid \<Rightarrow>
          Some \<lparr>columnNames = names, columnTypes = types, resultUUID = uuid, buffered = results,
            needsMore = nmf, c_closed = False\<rparr> | _ \<Rightarrow> None)"

definition peekFirstChunk :: "cursor \<Rightarrow> DataChunk option" where
  "peekFirstChunk c = (case buffered c of [] \<Rightarrow> None | chunk # _ \<Rightarrow> Some chunk)"

definition close_cursor :: "cursor \<Rightarrow> cursor" where
  "close_cursor c = c\<lparr>c_closed := True, buffered := []\<rparr>"

text \<open>The cursor is returned updated; an error leaves it as it was.\<close>

definition fetchMore :: "'w transport \<Rightarrow> cursor \<Rightarrow> ('w, cursor) sess" where
  "fetchMore send c = exchange send
     (\<lambda>conn qid. FetchRequest (request_header MessageTypeFetchRequest conn qid) (resultUUID c))
     ''cursor: fetch: '' ''cursor: expected FETCH_RESPONSE, got ''
     (\<lambda>m. case m of FetchResponse _ results _ hasBatchIndex \<Rightarrow>
          Some (c\<lparr>buffered := buffered c @ results, needsMore := hasBatchIndex\<rparr>) | _ \<Rightarrow> None)"

definition nextChunk :: "'w transport \<Rightarrow> cursor \<Rightarrow> ('w, DataChunk option \<times> cursor) sess" where
  "nextChunk send c =
     (if c_closed c then sret (None, c)
      else sbind (if buffered c = [] \<and> needsMore c then fetchMore send c else sret c) (\<lambda>c.
        case buffered c of [] \<Rightarrow> sret (None, c)
        | chunk # rest \<Rightarrow> sret (Some chunk, c\<lparr>buffered := rest\<rparr>)))"

text \<open>
  \<^verbatim>\<open>drainAll\<close>: a loop of fetches that ends when the server stops announcing batches; \<open>n\<close> bounds the number
  of fetches.
\<close>

primrec drain_loop :: "'w transport \<Rightarrow> nat \<Rightarrow> cursor \<Rightarrow> DataChunk list \<Rightarrow> ('w, DataChunk list \<times> cursor) sess" where
  "drain_loop send 0 c out = (if needsMore c then (\<lambda>s. OutOfFuel) else sret (out, c))"
| "drain_loop send (Suc n) c out =
     (if needsMore c then sbind (fetchMore send c) (\<lambda>c. drain_loop send n (c\<lparr>buffered := []\<rparr>) (out @ buffered c))
      else sret (out, c))"

definition drainAll :: "'w transport \<Rightarrow> nat \<Rightarrow> cursor \<Rightarrow> ('w, DataChunk list \<times> cursor) sess" where
  "drainAll send n c = drain_loop send n (c\<lparr>buffered := []\<rparr>) (buffered c)"

record drainedResult =
  ColumnNames :: "string list"
  ColumnTypes :: "LogicalType list"
  Chunks :: "DataChunk list"

definition drainPrepared :: "'w transport \<Rightarrow> nat \<Rightarrow> string \<Rightarrow> ('w, drainedResult) sess" where
  "drainPrepared send n sql = sbind (open_cursor send sql) (\<lambda>cur.
     sbind (drainAll send n cur) (\<lambda>(chunks, cur).
     sret \<lparr>ColumnNames = columnNames cur, ColumnTypes = columnTypes cur, Chunks = chunks\<rparr>))"

definition appendChunk :: "'w transport \<Rightarrow> string \<Rightarrow> string \<Rightarrow> DataChunk \<Rightarrow> ('w, unit) sess" where
  "appendChunk send schema table chunk = exchange send
     (\<lambda>conn qid. AppendRequest (request_header MessageTypeAppendRequest conn qid) schema table chunk)
     ''session: append: '' ''session: expected SUCCESS_RESPONSE for APPEND, got ''
     (\<lambda>m. case m of SuccessResponse _ \<Rightarrow> Some () | _ \<Rightarrow> None)"

text \<open>The error of the DISCONNECT request is dropped.\<close>

definition close_session :: "'w transport \<Rightarrow> ('w, unit) sess" where
  "close_session send s =
     (if closed s then Done (Inr (), s)
      else let s = s\<lparr>closed := True\<rparr> in
        if connectionID s = [] then Done (Inr (), s)
        else outcome_bind (request send
            (\<lambda>conn qid. DisconnectMessage (request_header MessageTypeDisconnectMessage conn qid)) s)
          (\<lambda>(_, s). Done (Inr (), s)))"

section \<open>The messages of a session\<close>

text \<open>
  What a session relies on: sending a message is one exchange, which the channel remembers.  Everything
  below about the requests of a session is proved for such a channel, and holds for every transport once
  it is observed with \<open>traced\<close>, which keeps every message with its reply.
\<close>

type_synonym exchanges = "(QuackMessage \<times> (go_error + QuackMessage option)) list"

definition traced :: "'w transport \<Rightarrow> (exchanges \<times> 'w) transport" where
  "traced send m = (\<lambda>(es, w). outcome_bind (send m w) (\<lambda>(r, w). Done (r, (es @ [(m, r)], w))))"

definition well_numbered :: "string \<Rightarrow> string \<Rightarrow> QuackMessage list \<Rightarrow> bool" where
  "well_numbered token conn ms \<longleftrightarrow> (\<exists>h rest. ms = ConnectionRequest h token ''adbc-driver-quack/0.0.0'' ''go'' QuackVersion QuackVersion # rest \<and>
     h_ConnectionID h = [] \<and>
     map (h_ClientQueryID \<circ> Header) ms = map of_nat [1..<Suc (length ms)] \<and>
     list_all (\<lambda>m. h_ConnectionID (Header m) = conn \<and> messageTypeOf m \<noteq> MessageTypeConnectionRequest) rest)"

definition disconnects :: "QuackMessage list \<Rightarrow> nat" where
  "disconnects ms = length (filter (\<lambda>m. messageTypeOf m = MessageTypeDisconnectMessage) ms)"

definition session_inv :: "('w \<Rightarrow> QuackMessage list) \<Rightarrow> string \<Rightarrow> string \<Rightarrow> 'w session \<Rightarrow> bool" where
  "session_inv sent token conn s \<longleftrightarrow> conn \<noteq> [] \<and> connectionID s = conn \<and>
     queryIDSeq s = of_nat (Suc (length (sent (s_world s)))) \<and>
     well_numbered token conn (sent (s_world s)) \<and> disconnects (sent (s_world s)) = (if closed s then 1 else 0)"

text \<open>
  The requests of a session after the handshake, with SQL texts that satisfy \<open>Q\<close>; a cursor fetches,
  whatever its state.
\<close>

inductive session_step :: "'w transport \<Rightarrow> (string \<Rightarrow> bool) \<Rightarrow> 'w session \<Rightarrow> 'w session \<Rightarrow> bool" for send Q where
  prepare: "Q sql \<Longrightarrow> open_cursor send sql s = Done (r, s') \<Longrightarrow> session_step send Q s s'"
| fetch: "fetchMore send c s = Done (r, s') \<Longrightarrow> session_step send Q s s'"
| append: "appendChunk send schema table chunk s = Done (r, s') \<Longrightarrow> session_step send Q s s'"
| disconnect: "close_session send s = Done (r, s') \<Longrightarrow> session_step send Q s s'"

inductive session_run :: "'w transport \<Rightarrow> (string \<Rightarrow> bool) \<Rightarrow> 'w session \<Rightarrow> 'w session \<Rightarrow> bool" for send Q where
  idle: "session_run send Q s s"
| more_steps: "session_run send Q s s' \<Longrightarrow> session_step send Q s' s'' \<Longrightarrow> session_run send Q s s''"

lemma session_run_trans: "session_run send Q t u \<Longrightarrow> session_run send Q s t \<Longrightarrow> session_run send Q s u"
  by (induction rule: session_run.induct) (auto intro: session_run.intros)

lemma session_run_step: "session_step send Q s s' \<Longrightarrow> session_run send Q s s'"
  by (blast intro: session_run.intros)

lemma session_run_mono: "session_run send Q s s' \<Longrightarrow> (\<And>sql. Q sql \<Longrightarrow> R sql) \<Longrightarrow> session_run send R s s'"
proof (induction rule: session_run.induct)
  case (more_steps s s' s'')
  then have "session_step send R s' s''"
    by (cases rule: session_step.cases [OF more_steps.hyps(2)]) (auto intro: session_step.intros)
  then show ?case using more_steps by (blast intro: session_run.more_steps)
qed (rule session_run.idle)

lemma sret_Done [simp]: "sret v s = Done (r, s') \<longleftrightarrow> r = Inr v \<and> s' = s"
  by (auto simp: sret_def)

lemma sfail_Done [simp]: "sfail e s = Done (r, s') \<longleftrightarrow> r = Inl e \<and> s' = s"
  by (auto simp: sfail_def)

lemma sbind_Done:
  "sbind f g s = Done (r, s') \<longleftrightarrow>
    (\<exists>e. f s = Done (Inl e, s') \<and> r = Inl e) \<or> (\<exists>v s1. f s = Done (Inr v, s1) \<and> g v s1 = Done (r, s'))"
proof (cases "f s")
  case (Done p)
  obtain v t where "p = (v, t)" by (cases p)
  then show ?thesis using Done by (cases v) (auto simp: sbind_def)
qed (simp_all add: sbind_def)

lemma eq_Done_list_case:
  "(case xs of [] \<Rightarrow> sret a | y # ys \<Rightarrow> sret (g y ys)) s = Done (r, s') \<Longrightarrow> s' = s"
  by (cases xs) auto

text \<open>Composed operations are runs.\<close>

lemma nextChunk_run: "nextChunk send c s = Done (r, s') \<Longrightarrow> session_run send Q s s'"
proof (cases "c_closed c \<or> \<not> (buffered c = [] \<and> needsMore c)")
  case True
  then show "nextChunk send c s = Done (r, s') \<Longrightarrow> ?thesis"
    by (cases "buffered c") (auto simp: nextChunk_def sbind_Done intro: session_run.idle split: if_splits)
next
  case False
  assume "nextChunk send c s = Done (r, s')"
  then have "\<exists>r. fetchMore send c s = Done (r, s')"
    using False by (auto simp: nextChunk_def sbind_Done dest: eq_Done_list_case)
  then show ?thesis by (blast intro: session_run_step session_step.fetch)
qed

lemma drain_loop_run: "drain_loop send n c out s = Done (r, s') \<Longrightarrow> session_run send Q s s'"
proof (induction n arbitrary: c out s)
  case (Suc n)
  have "session_run send Q s s'" if "fetchMore send c s = Done (v, s1)" "session_run send Q s1 s'" for v s1
    using that by (blast intro: session_run_step session_step.fetch session_run_trans)
  then show ?case using Suc
    by (cases "needsMore c") (fastforce simp: sbind_Done intro: session_run.idle session_run_step session_step.fetch)+
qed (auto split: if_splits intro: session_run.idle)

lemma drainPrepared_run: "Q sql \<Longrightarrow> drainPrepared send n sql s = Done (r, s') \<Longrightarrow> session_run send Q s s'"
  by (auto simp: drainPrepared_def drainAll_def sbind_Done
      intro: session_run_step session_step.prepare session_run_trans [OF drain_loop_run])

locale message_channel =
  fixes send :: "'w transport" and sent :: "'w \<Rightarrow> QuackMessage list"
  assumes send_logs: "send m w = Done (r, w') \<Longrightarrow> sent w' = sent w @ [m]"
begin

lemma request_sent:
  assumes "request send mk s = Done (r, s')"
  shows "sent (s_world s') = sent (s_world s) @ [mk (connectionID s) (queryIDSeq s)]"
    and "queryIDSeq s' = queryIDSeq s + 1" and "connectionID s' = connectionID s" and "closed s' = closed s"
  using assms by (auto simp: request_def nextQueryID_def outcome_bind_eq_Done dest!: send_logs)

lemma exchange_sent:
  assumes "exchange send mk p e acc s = Done (r, s')"
  shows "\<exists>r. request send mk s = Done (r, s')"
  using assms by (auto simp: exchange_Done)

lemma request_keeps:
  assumes "request send mk s = Done (r, s')" "session_inv sent token conn s"
    and "\<And>q. h_ConnectionID (Header (mk conn q)) = conn" "\<And>q. h_ClientQueryID (Header (mk conn q)) = q"
    and "\<And>q. messageTypeOf (mk conn q) \<noteq> MessageTypeConnectionRequest"
    and "\<And>q. messageTypeOf (mk conn q) \<noteq> MessageTypeDisconnectMessage"
  shows "session_inv sent token conn s'"
  using request_sent [OF assms(1)] assms(2-)
  by (auto simp: session_inv_def well_numbered_def disconnects_def)

lemma exchange_keeps:
  assumes "exchange send mk p e acc s = Done (r, s')" "session_inv sent token conn s"
    and "\<And>q. h_ConnectionID (Header (mk conn q)) = conn" "\<And>q. h_ClientQueryID (Header (mk conn q)) = q"
    and "\<And>q. messageTypeOf (mk conn q) \<noteq> MessageTypeConnectionRequest"
    and "\<And>q. messageTypeOf (mk conn q) \<noteq> MessageTypeDisconnectMessage"
  shows "session_inv sent token conn s'"
  using exchange_sent [OF assms(1)] assms(2-) by (blast intro: request_keeps)

lemma step_keeps:
  assumes "session_step send Q s s'" "session_inv sent token conn s"
  shows "session_inv sent token conn s'"
  using assms
proof (induction rule: session_step.induct)
  case (disconnect s r s')
  show ?case
  proof (cases "closed s")
    case True
    then show ?thesis using disconnect by (simp add: close_session_def)
  next
    case False
    let ?s = "s\<lparr>closed := True\<rparr>"
    obtain r' where req: "request send (\<lambda>conn qid. DisconnectMessage (request_header MessageTypeDisconnectMessage conn qid)) ?s = Done (r', s')"
      using disconnect False
      by (auto simp: close_session_def session_inv_def outcome_bind_eq_Done)
    show ?thesis
      using request_sent [OF req] disconnect(2) False
      by (auto simp: session_inv_def well_numbered_def disconnects_def request_header_def)
  qed
qed (auto simp: open_cursor_def fetchMore_def appendChunk_def request_header_def elim!: exchange_keeps)

lemma run_keeps: "session_run send Q s s' \<Longrightarrow> session_inv sent token conn s \<Longrightarrow> session_inv sent token conn s'"
  by (induction rule: session_run.induct) (auto intro: step_keeps)

lemma handshake_starts:
  assumes "newSession send token w = Done (Inr (), s)" "sent w = []"
  shows "session_inv sent token (connectionID s) s"
proof -
  let ?s = "\<lparr>queryIDSeq = 1, connectionID = [], closed = False, s_world = w\<rparr>"
  let ?mk = "\<lambda>_ qid. ConnectionRequest (request_header MessageTypeConnectionRequest [] qid)
      token ''adbc-driver-quack/0.0.0'' ''go'' QuackVersion QuackVersion"
  obtain s1 r conn where "request send ?mk ?s = Done (r, s1)" and s: "conn \<noteq> []" "s = s1\<lparr>connectionID := conn\<rparr>"
    using assms(1) by (auto simp: newSession_def handshake_def sbind_Done split: if_splits dest!: exchange_sent)
  from request_sent [OF this(1)] s assms(2) show ?thesis
    by (simp add: session_inv_def well_numbered_def disconnects_def request_header_def)
qed

theorem session_messages:
  assumes "newSession send token w = Done (Inr (), s0)" "sent w = []" "session_run send Q s0 s"
  shows "session_inv sent token (connectionID s0) s"
  using run_keeps [OF assms(3)] handshake_starts [OF assms(1,2)] .

end

interpretation traced_channel: message_channel "traced send" "map fst \<circ> fst" for send :: "'w transport"
  by unfold_locales (auto simp: traced_def outcome_bind_eq_Done)

end
