(* ===== verification/Cursors.thy ===== *)
theory Cursors
  imports Session
begin

text \<open>
  What a cursor promises (\<^verbatim>\<open>driver/quack/session.go\<close>): the chunks of a result are those that came with the
  PREPARE_RESPONSE followed by those of every FETCH_RESPONSE, in order.  \<open>batches\<close> is that contract, a
  relation between a cursor and the batches the server still delivers; \<open>drainAll\<close> and the chunk-by-chunk
  reading through \<open>nextChunk\<close> are compared with it.
\<close>

inductive batches :: "'w transport \<Rightarrow> cursor \<Rightarrow> 'w session \<Rightarrow> DataChunk list list \<Rightarrow> cursor \<Rightarrow> 'w session \<Rightarrow> bool" for send where
  exhausted: "\<not> needsMore c \<Longrightarrow> batches send c s [] c s"
| batch: "needsMore c \<Longrightarrow> fetchMore send c s = Done (Inr c', s1) \<Longrightarrow>
     batches send (c'\<lparr>buffered := []\<rparr>) s1 bs c'' s2 \<Longrightarrow> batches send c s (buffered c' # bs) c'' s2"

inductive_cases no_batch: "batches send c s [] c' s'"
inductive_cases some_batch: "batches send c s (b # bs) c' s'"

lemma sbind_sret [simp]: "sbind (sret v) f = f v"
  by (rule ext) (simp add: sbind_def sret_def)

lemma sbind_step: "f s = Done (Inr v, s') \<Longrightarrow> sbind f g s = g v s'"
  by (simp add: sbind_def)

lemma sbind_fail: "f s = Done (Inl e, s') \<Longrightarrow> sbind f g s = Done (Inl e, s')"
  by (simp add: sbind_def)

section \<open>Draining\<close>

lemma drain_loop_batches:
  assumes "batches send c s bs c' s'" "length bs \<le> n"
  shows "drain_loop send n c out s = Done (Inr (out @ concat bs, c'), s')"
  using assms
proof (induction arbitrary: n out rule: batches.induct)
  case (exhausted c s)
  then show ?case by (cases n) simp_all
next
  case (batch c s c' s1 bs c'' s2)
  then obtain k where "n = Suc k" "length bs \<le> k" by (cases n) auto
  then show ?case using batch by (simp add: sbind_step)
qed

lemma batches_drain_loop:
  assumes "drain_loop send n c out s = Done (Inr (chunks, c'), s')"
  shows "\<exists>bs. batches send c s bs c' s' \<and> length bs \<le> n \<and> chunks = out @ concat bs"
  using assms
proof (induction n arbitrary: c out s)
  case 0
  then show ?case by (auto split: if_splits intro: batches.exhausted)
next
  case (Suc n)
  show ?case
  proof (cases "needsMore c")
    case True
    then obtain c1 s1 where f: "fetchMore send c s = Done (Inr c1, s1)"
        "drain_loop send n (c1\<lparr>buffered := []\<rparr>) (out @ buffered c1) s1 = Done (Inr (chunks, c'), s')"
      using Suc.prems by (auto simp: sbind_Done)
    then obtain bs where "batches send (c1\<lparr>buffered := []\<rparr>) s1 bs c' s'" "length bs \<le> n" "chunks = (out @ buffered c1) @ concat bs"
      using Suc.IH by blast
    then show ?thesis using True f(1)
      by (intro exI [of _ "buffered c1 # bs"]) (simp add: batches.batch)
  qed (use Suc.prems in \<open>auto intro: batches.exhausted\<close>)
qed

lemma drainAll_batches:
  "batches send (c\<lparr>buffered := []\<rparr>) s bs c' s' \<Longrightarrow> length bs \<le> n \<Longrightarrow>
   drainAll send n c s = Done (Inr (buffered c @ concat bs, c'), s')"
  by (simp add: drainAll_def drain_loop_batches)

lemma batches_drainAll:
  "drainAll send n c s = Done (Inr (chunks, c'), s') \<Longrightarrow>
   \<exists>bs. batches send (c\<lparr>buffered := []\<rparr>) s bs c' s' \<and> length bs \<le> n \<and> chunks = buffered c @ concat bs"
  unfolding drainAll_def by (rule batches_drain_loop)

text \<open>More fuel never changes a result.\<close>

lemma drain_loop_fuel:
  assumes "drain_loop send n c out s \<noteq> OutOfFuel" "n \<le> m"
  shows "drain_loop send m c out s = drain_loop send n c out s"
  using assms
proof (induction n arbitrary: c out s m)
  case 0
  then show ?case by (cases m) (auto split: if_splits)
next
  case (Suc n)
  then obtain k where k: "m = Suc k" "n \<le> k" by (cases m) auto
  show ?case
  proof (cases "needsMore c")
    case True
    have "drain_loop send k (c1\<lparr>buffered := []\<rparr>) (out @ buffered c1) s1 = drain_loop send n (c1\<lparr>buffered := []\<rparr>) (out @ buffered c1) s1"
      if "fetchMore send c s = Done (Inr c1, s1)" for c1 s1
      using that Suc.prems(1) True k(2) by (intro Suc.IH) (auto simp: sbind_step)
    then show ?thesis using True k(1)
      by (cases "fetchMore send c s") (auto simp: sbind_def split: sum.split)
  qed (simp add: k)
qed

section \<open>Reading chunk by chunk\<close>

text \<open>Calling \<open>nextChunk\<close> until it returns nil, as the streaming record reader does.\<close>

primrec read_chunks :: "'w transport \<Rightarrow> nat \<Rightarrow> cursor \<Rightarrow> ('w, DataChunk list \<times> cursor) sess" where
  "read_chunks send 0 c = (\<lambda>s. OutOfFuel)"
| "read_chunks send (Suc n) c = sbind (nextChunk send c) (\<lambda>(x, c). case x of
      None \<Rightarrow> sret ([], c)
    | Some x \<Rightarrow> sbind (read_chunks send n c) (\<lambda>(xs, c). sret (x # xs, c)))"

lemma nextChunk_buffered:
  "\<not> c_closed c \<Longrightarrow> buffered c = x # xs \<Longrightarrow> nextChunk send c s = Done (Inr (Some x, c\<lparr>buffered := xs\<rparr>), s)"
  by (simp add: nextChunk_def)

lemma nextChunk_end:
  "\<not> c_closed c \<Longrightarrow> buffered c = [] \<Longrightarrow> \<not> needsMore c \<Longrightarrow> nextChunk send c s = Done (Inr (None, c), s)"
  by (simp add: nextChunk_def)

lemma nextChunk_fetches:
  assumes "\<not> c_closed c" "buffered c = []" "needsMore c" "fetchMore send c s = Done (Inr c', s1)"
  shows "nextChunk send c s = Done (Inr (case buffered c' of [] \<Rightarrow> (None, c') | x # xs \<Rightarrow> (Some x, c'\<lparr>buffered := xs\<rparr>)), s1)"
  using assms by (cases "buffered c'") (simp_all add: nextChunk_def sbind_step)

lemma fetchMore_kept: "fetchMore send c s = Done (Inr c', s1) \<Longrightarrow> c_closed c' = c_closed c"
proof -
  assume "fetchMore send c s = Done (Inr c', s1)"
  then obtain m where "(case m of FetchResponse _ results _ hasBatchIndex \<Rightarrow>
      Some (c\<lparr>buffered := buffered c @ results, needsMore := hasBatchIndex\<rparr>) | _ \<Rightarrow> None) = Some c'"
    unfolding fetchMore_def by (auto simp only: exchange_Done accepted_Inr eq_commute [of "Inr c'"])
  then show ?thesis by (cases m) auto
qed

lemma read_chunks_buffered:
  assumes "\<not> c_closed c" "buffered c = xs"
  shows "read_chunks send (length xs + n) c s =
    sbind (read_chunks send n (c\<lparr>buffered := []\<rparr>)) (\<lambda>(ys, c). sret (xs @ ys, c)) s"
  using assms
proof (induction xs arbitrary: c)
  case Nil
  have "c\<lparr>buffered := []\<rparr> = c" using Nil by (cases c) simp
  then show ?case by (cases "read_chunks send n c s") (auto simp: sbind_def sret_def split: sum.split)
next
  case (Cons x xs)
  let ?c = "c\<lparr>buffered := xs\<rparr>"
  have "read_chunks send (length xs + n) ?c s =
      sbind (read_chunks send n (c\<lparr>buffered := []\<rparr>)) (\<lambda>(ys, c). sret (xs @ ys, c)) s"
    using Cons.IH [of ?c] Cons.prems by simp
  then show ?case
    using Cons.prems
    by (cases "read_chunks send n (c\<lparr>buffered := []\<rparr>) s")
      (auto simp: sbind_step nextChunk_buffered, auto simp: sbind_def sret_def split: sum.split)
qed

lemma read_chunks_batches:
  assumes "batches send c s bs c' s'" "buffered c = []" "\<not> c_closed c" "list_all (\<lambda>b. b \<noteq> []) bs"
  shows "read_chunks send (Suc (length (concat bs))) c s = Done (Inr (concat bs, c'), s')"
  using assms
proof (induction rule: batches.induct)
  case (exhausted c s)
  then show ?case by (simp add: sbind_step nextChunk_end)
next
  case (batch c s c1 s1 bs c'' s2)
  then have c1: "\<not> c_closed c1" using fetchMore_kept by blast
  obtain x xs where x: "buffered c1 = x # xs" using batch.prems by (cases "buffered c1") auto
  have "nextChunk send c s = nextChunk send c1 s1"
    using batch.hyps batch.prems x c1 by (simp add: nextChunk_fetches nextChunk_buffered)
  then have "read_chunks send (Suc k) c s = read_chunks send (Suc k) c1 s1" for k
    by (simp add: sbind_def)
  then have "read_chunks send (Suc (length (concat (buffered c1 # bs)))) c s
      = read_chunks send (length (buffered c1) + Suc (length (concat bs))) c1 s1" by simp
  also have "\<dots> = Done (Inr (concat (buffered c1 # bs), c''), s2)"
    using read_chunks_buffered [OF c1 refl, of send "Suc (length (concat bs))" s1] batch.IH batch.prems c1
    by (simp add: sbind_step del: read_chunks.simps)
  finally show ?case .
qed

lemma read_chunks_all:
  assumes "batches send (c\<lparr>buffered := []\<rparr>) s bs c' s'" "\<not> c_closed c" "list_all (\<lambda>b. b \<noteq> []) bs"
  shows "read_chunks send (Suc (length (buffered c @ concat bs))) c s = Done (Inr (buffered c @ concat bs, c'), s')"
  using read_chunks_buffered [OF assms(2) refl, of send "Suc (length (concat bs))" s]
    read_chunks_batches [OF assms(1) _ _ assms(3)] assms(2)
  by (simp add: sbind_step del: read_chunks.simps)

end
