(* ===== verification/Arrow.thy ===== *)
theory Arrow
  imports Vectors
begin

text \<open>
  What the driver relies on of Arrow (\<^verbatim>\<open>arrow-go\<close>, third-party): data types, fields, and columns as the lists
  of the values they hold, \<open>None\<close> or \<open>CNull\<close> at a null.  A builder is the data type it builds and the
  list of the cells appended to it so far.  What a concrete library function computes is a parameter
  (\<open>arrow_lib\<close>; \<open>GetZone\<close> gives the offset from UTC in seconds of a time zone at an instant).
\<close>

datatype time_unit = Seconds | Milliseconds | Microseconds | Nanoseconds

datatype arrow_type =
    AT_Null | AT_Bool
  | AT_Int8 | AT_Int16 | AT_Int32 | AT_Int64
  | AT_Uint8 | AT_Uint16 | AT_Uint32 | AT_Uint64
  | AT_Float32 | AT_Float64
  | AT_String | AT_LargeString | AT_StringView
  | AT_Binary | AT_LargeBinary | AT_FixedSizeBinary int
  | AT_Date32 | AT_Date64 | AT_Time32 time_unit | AT_Time64 time_unit
  | AT_Timestamp time_unit string
  | AT_Decimal128 int int | AT_Decimal256 int int
  | AT_MonthDayNano
  | AT_List arrow_type | AT_FixedSizeList int arrow_type
  | AT_Struct "arrow_field list"
  | AT_Map arrow_type arrow_type
  | AT_Other string
and arrow_field = Field (f_Name: string) (f_Type: arrow_type) (f_Nullable: bool)

text \<open>A value appended to a builder.\<close>

datatype cell =
    CNull
  | CBool bool
  | CInt8 "8 word" | CInt16 "16 word" | CInt32 "32 word" | CInt64 "64 word"
  | CUint8 "8 word" | CUint16 "16 word" | CUint32 "32 word" | CUint64 "64 word"
  | CFloat32 "32 word" | CFloat64 "64 word"
  | CString string | CBinary bytes | CFixed bytes
  | CDate32 "32 word" | CTime64 "64 word" | CTimestamp "64 word"
  | CDecimal128 "128 word"
  | CList "cell list"
  | CStruct "cell list"
  | CMap "cell list" "cell list"

text \<open>
  The concrete array types of the library; \<open>OtherArr\<close> is one the driver does not name, with the validity of
  its rows.  A timestamp array carries its time zone, a dictionary array its values and the index of
  every row.
\<close>

datatype arrow_array =
    BooleanArr "bool option list"
  | Int8Arr "8 word option list" | Int16Arr "16 word option list" | Int32Arr "32 word option list" | Int64Arr "64 word option list"
  | Uint8Arr "8 word option list" | Uint16Arr "16 word option list" | Uint32Arr "32 word option list" | Uint64Arr "64 word option list"
  | Float32Arr "32 word option list" | Float64Arr "64 word option list"
  | StringArr "string option list" | LargeStringArr "string option list" | StringViewArr "string option list"
  | BinaryArr "bytes option list" | LargeBinaryArr "bytes option list" | FixedSizeBinaryArr int "bytes option list"
  | Decimal128Arr int int "int option list" | Decimal256Arr int int "int option list"
  | Date32Arr "32 word option list" | Date64Arr "64 word option list"
  | Time32Arr time_unit "32 word option list" | Time64Arr time_unit "64 word option list"
  | TimestampArr time_unit string "64 word option list"
  | DictionaryArr arrow_array "int option list"
  | NullArr nat
  | OtherArr arrow_type "bool list"

text \<open>The validity of every row.\<close>

primrec arr_valid :: "arrow_array \<Rightarrow> bool list" where
  "arr_valid (BooleanArr vs) = map (\<lambda>v. v \<noteq> None) vs"
| "arr_valid (Int8Arr vs) = map (\<lambda>v. v \<noteq> None) vs"
| "arr_valid (Int16Arr vs) = map (\<lambda>v. v \<noteq> None) vs"
| "arr_valid (Int32Arr vs) = map (\<lambda>v. v \<noteq> None) vs"
| "arr_valid (Int64Arr vs) = map (\<lambda>v. v \<noteq> None) vs"
| "arr_valid (Uint8Arr vs) = map (\<lambda>v. v \<noteq> None) vs"
| "arr_valid (Uint16Arr vs) = map (\<lambda>v. v \<noteq> None) vs"
| "arr_valid (Uint32Arr vs) = map (\<lambda>v. v \<noteq> None) vs"
| "arr_valid (Uint64Arr vs) = map (\<lambda>v. v \<noteq> None) vs"
| "arr_valid (Float32Arr vs) = map (\<lambda>v. v \<noteq> None) vs"
| "arr_valid (Float64Arr vs) = map (\<lambda>v. v \<noteq> None) vs"
| "arr_valid (StringArr vs) = map (\<lambda>v. v \<noteq> None) vs"
| "arr_valid (LargeStringArr vs) = map (\<lambda>v. v \<noteq> None) vs"
| "arr_valid (StringViewArr vs) = map (\<lambda>v. v \<noteq> None) vs"
| "arr_valid (BinaryArr vs) = map (\<lambda>v. v \<noteq> None) vs"
| "arr_valid (LargeBinaryArr vs) = map (\<lambda>v. v \<noteq> None) vs"
| "arr_valid (FixedSizeBinaryArr _ vs) = map (\<lambda>v. v \<noteq> None) vs"
| "arr_valid (Decimal128Arr _ _ vs) = map (\<lambda>v. v \<noteq> None) vs"
| "arr_valid (Decimal256Arr _ _ vs) = map (\<lambda>v. v \<noteq> None) vs"
| "arr_valid (Date32Arr vs) = map (\<lambda>v. v \<noteq> None) vs"
| "arr_valid (Date64Arr vs) = map (\<lambda>v. v \<noteq> None) vs"
| "arr_valid (Time32Arr _ vs) = map (\<lambda>v. v \<noteq> None) vs"
| "arr_valid (Time64Arr _ vs) = map (\<lambda>v. v \<noteq> None) vs"
| "arr_valid (TimestampArr _ _ vs) = map (\<lambda>v. v \<noteq> None) vs"
| "arr_valid (DictionaryArr _ vs) = map (\<lambda>v. v \<noteq> None) vs"
| "arr_valid (NullArr n) = replicate n False"
| "arr_valid (OtherArr _ vs) = vs"

definition arr_IsNull :: "arrow_array \<Rightarrow> int \<Rightarrow> bool outcome" where
  "arr_IsNull a i = outcome_bind (index_at (arr_valid a) i) (\<lambda>v. Done (\<not> v))"

definition arr_NullN :: "arrow_array \<Rightarrow> nat" where
  "arr_NullN a = length (filter Not (arr_valid a))"

text \<open>A record batch handed to the driver: its schema, its arrays and its number of rows.\<close>

record arrow_batch =
  b_Fields :: "arrow_field list"
  b_Columns :: "arrow_array list"
  b_NumRows :: nat

text \<open>
  A stream of record batches (\<^verbatim>\<open>array.RecordReader\<close>): its schema, the batches that \<^verbatim>\<open>Next\<close> delivers, and the error
  that \<^verbatim>\<open>Err\<close> reports once \<^verbatim>\<open>Next\<close> has returned false.
\<close>

record arrow_stream =
  as_Schema :: "arrow_field list"
  as_Batches :: "arrow_batch list"
  as_Err :: "string option"

text \<open>A record batch built by the driver: its schema and one list of cells per column.\<close>

record arrow_record =
  rec_Fields :: "arrow_field list"
  rec_Columns :: "cell list list"

record arrow_lib =
  Timestamp_us :: arrow_type
  FromBigInt :: "int \<Rightarrow> 128 word outcome"
  BuilderName :: "arrow_type \<Rightarrow> string"
  TypeName :: "arrow_type \<Rightarrow> string"
  ArrayName :: "arrow_array \<Rightarrow> string"
  DataTypeName :: "arrow_array \<Rightarrow> string"
  Date32_ToTime :: "32 word \<Rightarrow> go_time"
  Date64_ToTime :: "64 word \<Rightarrow> go_time"
  Time32_ToTime :: "time_unit \<Rightarrow> 32 word \<Rightarrow> go_time"
  Time64_ToTime :: "time_unit \<Rightarrow> 64 word \<Rightarrow> go_time"
  Timestamp_ToTime :: "time_unit \<Rightarrow> 64 word \<Rightarrow> go_time"
  GetZone :: "string \<Rightarrow> (go_time \<Rightarrow> int) option"
  SchemaMismatch :: string

text \<open>A loop that appends one value per element and ends at the first error.\<close>

primrec collect :: "('a \<Rightarrow> ('e + 'b) outcome) \<Rightarrow> 'a list \<Rightarrow> ('e + 'b list) outcome" where
  "collect f [] = Done (Inr [])"
| "collect f (x # xs) = outcome_bind (f x) (\<lambda>r. case r of Inl e \<Rightarrow> Done (Inl e)
     | Inr y \<Rightarrow> outcome_bind (collect f xs) (\<lambda>r. case r of Inl e \<Rightarrow> Done (Inl e) | Inr ys \<Rightarrow> Done (Inr (y # ys))))"

lemma collect_cong [fundef_cong]:
  "xs = ys \<Longrightarrow> (\<And>x. x \<in> set ys \<Longrightarrow> f x = g x) \<Longrightarrow> collect f xs = collect g ys"
proof -
  have "(\<And>x. x \<in> set ys \<Longrightarrow> f x = g x) \<Longrightarrow> collect f ys = collect g ys"
  proof (induction ys)
    case (Cons y ys)
    then have "f y = g y" "collect f ys = collect g ys" by simp_all
    then show ?case by (simp only: collect.simps)
  qed simp
  then show "xs = ys \<Longrightarrow> (\<And>x. x \<in> set ys \<Longrightarrow> f x = g x) \<Longrightarrow> collect f xs = collect g ys" by simp
qed

lemma collect_Inr: "(\<And>x. x \<in> set xs \<Longrightarrow> f x = Done (Inr (g x))) \<Longrightarrow> collect f xs = Done (Inr (map g xs))"
  by (induction xs) auto

lemma collect_no_fuel: "(\<And>x. x \<in> set xs \<Longrightarrow> f x \<noteq> OutOfFuel) \<Longrightarrow> collect f xs \<noteq> OutOfFuel"
  by (induction xs) (auto split: sum.split)

lemma collect_eq_Inr:
  "collect f xs = Done (Inr ys) \<longleftrightarrow> length ys = length xs \<and> (\<forall>i < length xs. f (xs ! i) = Done (Inr (ys ! i)))"
proof (induction xs arbitrary: ys)
  case (Cons x xs)
  have "collect f (x # xs) = Done (Inr ys) \<longleftrightarrow>
      (\<exists>y zs. f x = Done (Inr y) \<and> collect f xs = Done (Inr zs) \<and> ys = y # zs)"
    by (cases "f x"; cases "collect f xs") (auto split: sum.split)
  then show ?case
    by (cases ys) (auto simp: Cons.IH less_Suc_eq_0_disj)
qed auto

lemma map_sum_Inr: "map_sum f g x = Inr y \<longleftrightarrow> (\<exists>z. x = Inr z \<and> y = g z)"
  by (cases x) auto

lemma collect_nth: "collect f xs = Done (Inr ys) \<Longrightarrow> i < length xs \<Longrightarrow> f (xs ! i) = Done (Inr (ys ! i))"
  by (simp add: collect_eq_Inr)

lemma collect_length: "collect f xs = Done (Inr ys) \<Longrightarrow> length ys = length xs"
  by (simp add: collect_eq_Inr)

lemma bind_sum_Inr:
  "outcome_bind m (\<lambda>r. case r of Inl e \<Rightarrow> Done (Inl (f e)) | Inr x \<Rightarrow> g x) = Done (Inr y) \<longleftrightarrow> (\<exists>x. m = Done (Inr x) \<and> g x = Done (Inr y))"
proof (cases m)
  case (Done r)
  then show ?thesis by (cases r) auto
qed simp_all

end
