(* ===== verification/Sql.thy ===== *)
theory Sql
  imports GoStrings Vectors
begin

text \<open>
  SQL text built by the driver: quoting (\<^verbatim>\<open>quoteIdent\<close> of \<^verbatim>\<open>bulk_ingest.go\<close>, \<^verbatim>\<open>sqlString\<close> of \<^verbatim>\<open>metadata.go\<close>,
  the filters of \<^verbatim>\<open>metadata_objects.go\<close>) and the client-side parameter binding of \<^verbatim>\<open>params.go\<close>:
  \<^verbatim>\<open>decimalLiteral\<close>, \<^verbatim>\<open>renderLiteral\<close> and \<^verbatim>\<open>substituteParams\<close>.
\<close>

section \<open>Quoting\<close>

abbreviation quote :: char where "quote \<equiv> CHR 39"
abbreviation dquote :: char where "dquote \<equiv> CHR 34"
abbreviation newline :: char where "newline \<equiv> CHR 10"

definition quoteIdent :: "string \<Rightarrow> string" where
  "quoteIdent name = dquote # ReplaceAll name dquote [dquote, dquote] @ [dquote]"

primrec sqlString_loop :: "string \<Rightarrow> string" where
  "sqlString_loop [] = []"
| "sqlString_loop (c # s) = (if c = quote then [quote, quote] else [c]) @ sqlString_loop s"

definition sqlString :: "string \<Rightarrow> string" where
  "sqlString s = quote # sqlString_loop s @ [quote]"

text \<open>The filters append to the text of a query; a nil pointer is \<open>None\<close>.\<close>

definition appendEqualsQual :: "string \<Rightarrow> string \<Rightarrow> string option \<Rightarrow> string" where
  "appendEqualsQual sb col v = (case v of None \<Rightarrow> sb
     | Some s \<Rightarrow> sb @ '' AND '' @ col @ (if s = [] then '' IS NULL'' else '' = '' @ sqlString s))"

definition appendLikeQual :: "string \<Rightarrow> string \<Rightarrow> string option \<Rightarrow> string" where
  "appendLikeQual sb col pattern = (case pattern of None \<Rightarrow> sb
     | Some s \<Rightarrow> sb @ '' AND '' @ col @ (if s = [] then '' IS NULL''
         else '' LIKE '' @ sqlString s @ '' ESCAPE '' @ [quote, CHR 92, quote]))"

section \<open>Literals\<close>

function pad_zeros :: "int \<Rightarrow> string \<Rightarrow> string" where
  "pad_zeros n s = (if int (length s) \<le> n then pad_zeros n (CHR ''0'' # s) else s)"
  by pat_completeness auto
termination pad_zeros
  by (relation "measure (\<lambda>(n, s). nat (n + 1 - int (length s)))") auto

declare pad_zeros.simps [simp del]

definition decimalLiteral :: "int \<Rightarrow> int \<Rightarrow> string" where
  "decimalLiteral n scale = (let s = show_int n in
     if scale \<le> 0 then s
     else let neg = HasPrefix s ''-''; s = pad_zeros scale (TrimPrefix s ''-''); i = length s - nat scale;
              out = take i s @ ''.'' @ drop i s
          in if neg then ''-'' @ out else out)"

text \<open>
  The values of a row: nil, the scalars that \<^verbatim>\<open>scalarAt\<close> returns, and a pre-rendered \<^verbatim>\<open>sqlKeyword\<close>.  \<open>fmt_float\<close> is
  \<^verbatim>\<open>%v\<close> on a \<^verbatim>\<open>float64\<close>.
\<close>

datatype sql_value =
    SqlNil
  | SqlBool bool
  | SqlInt64 "64 word"
  | SqlUint64 "64 word"
  | SqlFloat64 "64 word"
  | SqlString string
  | SqlBytes bytes
  | SqlKeyword string

definition hex_upper :: "nat \<Rightarrow> char" where
  "hex_upper d = char_of (if d < 10 then 48 + d else 55 + d)"

definition blob_byte :: "8 word \<Rightarrow> string" where
  "blob_byte b = [CHR 92, CHR ''x'', hex_upper (unat b div 16), hex_upper (unat b mod 16)]"

fun renderLiteral :: "(64 word \<Rightarrow> string) \<Rightarrow> sql_value \<Rightarrow> string" where
  "renderLiteral fmt_float SqlNil = ''NULL''"
| "renderLiteral fmt_float (SqlBool b) = (if b then ''TRUE'' else ''FALSE'')"
| "renderLiteral fmt_float (SqlInt64 x) = show_int (sint x)"
| "renderLiteral fmt_float (SqlUint64 x) = show_int (uint x)"
| "renderLiteral fmt_float (SqlFloat64 x) = fmt_float x @ ''::DOUBLE''"
| "renderLiteral fmt_float (SqlString x) = [quote] @ ReplaceAll x quote [quote, quote] @ [quote]"
| "renderLiteral fmt_float (SqlBytes x) = [quote] @ concat (map blob_byte x) @ [quote] @ ''::BLOB''"
| "renderLiteral fmt_float (SqlKeyword x) = x"

section \<open>Substitution\<close>

text \<open>The four flags of the scanner, of which at most one is set.\<close>

datatype scan_mode = TopLevel | InStr | InIdent | LineComment | BlockComment

definition emit :: "string \<Rightarrow> 'e + string \<times> nat \<Rightarrow> 'e + string \<times> nat" where
  "emit t r = map_sum id (\<lambda>(out, idx). (t @ out, idx)) r"

fun subst_loop :: "(sql_value \<Rightarrow> string) \<Rightarrow> sql_value list \<Rightarrow> scan_mode \<Rightarrow> string \<Rightarrow> nat \<Rightarrow> string + string \<times> nat" where
  "subst_loop lit values mode [] idx = Inr ([], idx)"
| "subst_loop lit values mode (c # s) idx = (case mode of
      LineComment \<Rightarrow> emit [c] (subst_loop lit values (if c = newline then TopLevel else LineComment) s idx)
    | BlockComment \<Rightarrow> (if c = CHR ''*'' \<and> HasPrefix s ''/'' then emit ''*/'' (subst_loop lit values TopLevel (drop 1 s) idx)
        else emit [c] (subst_loop lit values BlockComment s idx))
    | InStr \<Rightarrow> emit [c] (subst_loop lit values (if c = quote then TopLevel else InStr) s idx)
    | InIdent \<Rightarrow> emit [c] (subst_loop lit values (if c = dquote then TopLevel else InIdent) s idx)
    | TopLevel \<Rightarrow>
       (if c = quote then emit [c] (subst_loop lit values InStr s idx)
        else if c = dquote then emit [c] (subst_loop lit values InIdent s idx)
        else if c = CHR ''-'' \<and> HasPrefix s ''-'' then emit [c] (subst_loop lit values LineComment s idx)
        else if c = CHR ''/'' \<and> HasPrefix s ''*'' then emit [c] (subst_loop lit values BlockComment s idx)
        else if c = CHR ''?'' then
          (if length values \<le> idx
           then Inl (''statement has more parameter markers than bound values ('' @ show_int (int (length values)) @ '')'')
           else emit (lit (values ! idx)) (subst_loop lit values TopLevel s (Suc idx)))
        else emit [c] (subst_loop lit values TopLevel s idx)))"

definition substituteParams :: "(64 word \<Rightarrow> string) \<Rightarrow> string \<Rightarrow> sql_value list \<Rightarrow> string + string" where
  "substituteParams fmt_float sql vs =
     (case subst_loop (renderLiteral fmt_float) vs TopLevel sql 0 of
        Inl e \<Rightarrow> Inl e
      | Inr (out, idx) \<Rightarrow> (if idx \<noteq> length vs
          then Inl (''statement has '' @ show_int (int idx) @ '' parameter markers but '' @ show_int (int (length vs)) @ '' values were bound'')
          else Inr out))"

section \<open>The text as tokens\<close>

text \<open>
  The reference reading of a statement: quoted strings, quoted identifiers and comments are single tokens
  (an unterminated one reaches to the end), every other character is a token of its own, and the \<open>TMarker\<close>s
  are the question marks outside quotes and comments.
\<close>

datatype token = TQuoted string | TComment string | TMarker | TChar char

primrec token_text :: "token \<Rightarrow> string" where
  "token_text (TQuoted s) = s"
| "token_text (TComment s) = s"
| "token_text TMarker = ''?''"
| "token_text (TChar c) = [c]"

text \<open>The part up to the first \<open>q\<close>, with it, and the rest; the same up to \<^verbatim>\<open>*/\<close>.\<close>

primrec upto :: "char \<Rightarrow> string \<Rightarrow> string" where
  "upto q [] = []"
| "upto q (c # s) = (if c = q then [c] else c # upto q s)"

primrec beyond :: "char \<Rightarrow> string \<Rightarrow> string" where
  "beyond q [] = []"
| "beyond q (c # s) = (if c = q then s else beyond q s)"

primrec upto_close :: "string \<Rightarrow> string" where
  "upto_close [] = []"
| "upto_close (c # s) = (if c = CHR ''*'' \<and> HasPrefix s ''/'' then ''*/'' else c # upto_close s)"

primrec beyond_close :: "string \<Rightarrow> string" where
  "beyond_close [] = []"
| "beyond_close (c # s) = (if c = CHR ''*'' \<and> HasPrefix s ''/'' then drop 1 s else beyond_close s)"

lemma length_beyond [simp]: "length (beyond q s) < Suc (length s)" "length (beyond_close s) < Suc (length s)"
  by (induction s) auto

fun tokens :: "string \<Rightarrow> token list" where
  "tokens [] = []"
| "tokens (c # s) =
     (if c = quote \<or> c = dquote then TQuoted (c # upto c s) # tokens (beyond c s)
      else if c = CHR ''-'' \<and> HasPrefix s ''-'' then TComment (c # upto newline s) # tokens (beyond newline s)
      else if c = CHR ''/'' \<and> HasPrefix s ''*'' then TComment (c # upto_close s) # tokens (beyond_close s)
      else if c = CHR ''?'' then TMarker # tokens s
      else TChar c # tokens s)"

declare tokens.simps(2) [simp del]

definition markers :: "token list \<Rightarrow> nat" where
  "markers ts = length (filter (\<lambda>t. t = TMarker) ts)"

lemma markers_simps [simp]:
  "markers [] = 0" "markers (t # ts) = (if t = TMarker then 1 else 0) + markers ts" "markers (ts @ us) = markers ts + markers us"
  by (simp_all add: markers_def)

lemma upto_beyond: "upto q s @ beyond q s = s" "upto_close s @ beyond_close s = s"
  by (induction s) (auto simp: HasPrefix_iff)

text \<open>The tokens are the text, cut into pieces.\<close>

lemma tokens_text: "concat (map token_text (tokens s)) = s"
  by (induction s rule: tokens.induct) (simp_all add: tokens.simps(2) upto_beyond)

text \<open>The \<open>n\<close>-th marker replaced by the text of the \<open>n\<close>-th value.\<close>

primrec fill :: "token list \<Rightarrow> string list \<Rightarrow> string" where
  "fill [] ls = []"
| "fill (t # ts) ls = (if t = TMarker then hd ls @ fill ts (tl ls) else token_text t @ fill ts ls)"

subsection \<open>The scanner agrees\<close>

lemma emit_simps [simp]:
  "emit t (Inl e) = Inl e" "emit t (Inr (out, i)) = Inr (t @ out, i)"
  "emit t (emit u r) = emit (t @ u) r" "emit [] r = r"
  by (cases r; auto simp: emit_def)+

lemma scan_quoted:
  "subst_loop lit vs InStr s idx = emit (upto quote s) (subst_loop lit vs TopLevel (beyond quote s) idx)"
  "subst_loop lit vs InIdent s idx = emit (upto dquote s) (subst_loop lit vs TopLevel (beyond dquote s) idx)"
  "subst_loop lit vs LineComment s idx = emit (upto newline s) (subst_loop lit vs TopLevel (beyond newline s) idx)"
  by (induction s) auto

lemma scan_block: "subst_loop lit vs BlockComment s idx = emit (upto_close s) (subst_loop lit vs TopLevel (beyond_close s) idx)"
  by (induction s) auto

lemma subst_loop_tokens:
  "subst_loop lit vs TopLevel s idx =
     (if idx \<le> length vs \<and> markers (tokens s) \<le> length vs - idx
      then Inr (fill (tokens s) (map lit (drop idx vs)), idx + markers (tokens s))
      else if markers (tokens s) = 0 then Inr (fill (tokens s) [], idx)
      else Inl (''statement has more parameter markers than bound values ('' @ show_int (int (length vs)) @ '')''))"
proof (induction s arbitrary: idx rule: tokens.induct)
  case (2 c s)
  have d: "idx < length vs \<Longrightarrow> drop idx vs = vs ! idx # drop (Suc idx) vs" by (simp add: Cons_nth_drop_Suc)
  consider "c = quote" | "c = dquote" | "c = CHR ''-''" "HasPrefix s ''-''" | "c = CHR ''/''" "HasPrefix s ''*''"
    | "c = CHR ''?''" | "c \<notin> {quote, dquote, CHR ''?''}" "\<not> (c = CHR ''-'' \<and> HasPrefix s ''-'')" "\<not> (c = CHR ''/'' \<and> HasPrefix s ''*'')"
    by auto
  then show ?case
  proof cases
    case 5
    then show ?thesis using "2.IH"(4) [of "Suc idx"] d
      by (auto simp: tokens.simps(2) emit_def)
  qed (use "2.IH" in \<open>auto simp: tokens.simps(2) scan_quoted scan_block\<close>)
qed auto

lemma substituteParams_tokens:
  "substituteParams fmt_float sql vs = (let m = markers (tokens sql) in
     if length vs < m
     then Inl (''statement has more parameter markers than bound values ('' @ show_int (int (length vs)) @ '')'')
     else if m < length vs
     then Inl (''statement has '' @ show_int (int m) @ '' parameter markers but '' @ show_int (int (length vs)) @ '' values were bound'')
     else Inr (fill (tokens sql) (map (renderLiteral fmt_float) vs)))"
  by (auto simp: substituteParams_def subst_loop_tokens Let_def)

section \<open>Literals stay literals\<close>

text \<open>
  A text is closed when it is cut into the same tokens whatever follows it, none of them a marker: a
  quote or a comment that it opens does not reach behind it.
\<close>

definition closed_text :: "string \<Rightarrow> bool" where
  "closed_text l \<longleftrightarrow> l \<noteq> [] \<and> (\<forall>rest. tokens (l @ rest) = tokens l @ tokens rest) \<and> TMarker \<notin> set (tokens l)"

definition plain_char :: "char \<Rightarrow> bool" where
  "plain_char c \<longleftrightarrow> c \<notin> {quote, dquote, CHR ''?'', CHR ''/''}"

lemma tokens_plain:
  "plain_char c \<Longrightarrow> \<not> (c = CHR ''-'' \<and> HasPrefix s ''-'') \<Longrightarrow> tokens (c # s) = TChar c # tokens s"
  by (auto simp: tokens.simps(2) plain_char_def)

lemma closed_plain:
  assumes "list_all plain_char l" "\<not> Contains l ''--''" "l \<noteq> []" "last l \<noteq> CHR ''-''"
  shows "closed_text l"
proof -
  have "tokens (l @ rest) = map TChar l @ tokens rest" for rest
    using assms
  proof (induction l)
    case (Cons c l)
    have "\<not> (c = CHR ''-'' \<and> HasPrefix (l @ rest) ''-'')"
      using Cons.prems by (cases l) auto
    moreover have "tokens (l @ rest) = map TChar l @ tokens rest"
      using Cons by (cases l) auto
    ultimately show ?case using Cons.prems(1) by (simp add: tokens_plain)
  qed simp
  from this [of "[]"] this show ?thesis using assms(3) by (auto simp: closed_text_def)
qed

lemma closed_append: "closed_text l \<Longrightarrow> closed_text m \<Longrightarrow> closed_text (l @ m)"
  by (auto simp: closed_text_def)

lemma upto_append: "q \<notin> set a \<Longrightarrow> upto q (a @ q # b) = a @ [q]" "q \<notin> set a \<Longrightarrow> beyond q (a @ q # b) = b"
  by (induction a) auto

lemma ReplaceAll_absent: "c \<notin> set s \<Longrightarrow> ReplaceAll s c t = s"
  by (induction s) auto

lemma quoted_tokens:
  assumes "q = quote \<or> q = dquote"
  shows "\<exists>ts. list_all (\<lambda>t. \<exists>u. t = TQuoted u) ts \<and>
    (\<forall>rest. tokens (q # ReplaceAll s q [q, q] @ q # rest) = ts @ tokens rest)"
proof (induction s rule: length_induct)
  case (1 s)
  show ?case
  proof (cases "q \<in> set s")
    case False
    then have "ReplaceAll s q [q, q] = s" by (rule ReplaceAll_absent)
    then show ?thesis using False assms
      by (intro exI [of _ "[TQuoted (q # s @ [q])]"]) (auto simp: tokens.simps(2) upto_append)
  next
    case True
    then obtain a b where s: "s = a @ q # b" "q \<notin> set a" by (meson split_list_first)
    then obtain ts where ts: "list_all (\<lambda>t. \<exists>u. t = TQuoted u) ts"
        "\<And>rest. tokens (q # ReplaceAll b q [q, q] @ q # rest) = ts @ tokens rest"
      using 1 [rule_format, of b] by auto
    have "ReplaceAll a q [q, q] = a" using s(2) by (rule ReplaceAll_absent)
    then have "ReplaceAll s q [q, q] = a @ q # q # ReplaceAll b q [q, q]"
      unfolding s(1) by (simp add: ReplaceAll_def)
    then have "tokens (q # ReplaceAll s q [q, q] @ q # rest) = TQuoted (q # a @ [q]) # ts @ tokens rest" for rest
      using s(2) assms ts(2) [of rest] by (auto simp: tokens.simps(2) upto_append)
    then show ?thesis using ts(1) by (intro exI [of _ "TQuoted (q # a @ [q]) # ts"]) simp
  qed
qed

lemma closed_quoted: "q = quote \<or> q = dquote \<Longrightarrow> closed_text (q # ReplaceAll s q [q, q] @ [q])"
proof -
  assume q: "q = quote \<or> q = dquote"
  obtain ts where ts: "list_all (\<lambda>t. \<exists>u. t = TQuoted u) ts"
      "\<And>rest. tokens (q # ReplaceAll s q [q, q] @ q # rest) = ts @ tokens rest"
    using quoted_tokens [OF q, of s] by (elim exE conjE) simp
  let ?l = "q # ReplaceAll s q [q, q] @ [q]"
  have "tokens (?l @ rest) = ts @ tokens rest" for rest using ts(2) [of rest] by (simp only: append_Cons append_assoc append_Nil)
  moreover from this [of "[]"] have "tokens ?l = ts" by (simp only: append_Nil2 tokens.simps(1))
  moreover have "TMarker \<notin> set ts" using ts(1) by (auto simp: list_all_iff)
  ultimately show ?thesis by (simp only: closed_text_def list.distinct simp_thms)
qed

lemma sqlString_ReplaceAll: "sqlString s = quote # ReplaceAll s quote [quote, quote] @ [quote]"
proof -
  have "sqlString_loop s = ReplaceAll s quote [quote, quote]" by (induction s) auto
  then show ?thesis by (simp add: sqlString_def)
qed

lemma closed_quotes: "closed_text (sqlString s)" "closed_text (quoteIdent s)"
  using closed_quoted [of quote s] closed_quoted [of dquote s] by (simp_all add: sqlString_ReplaceAll quoteIdent_def)

section \<open>What binding does to a statement\<close>

text \<open>
  A literal that starts with a minus sign (or a star) must not follow a minus sign (or a slash) directly:
  together they would open a comment.
\<close>

definition opens_comment :: "string \<Rightarrow> string \<Rightarrow> bool" where
  "opens_comment prev l \<longleftrightarrow> prev = ''-'' \<and> HasPrefix l ''-'' \<or> prev = ''/'' \<and> HasPrefix l ''*''"

primrec guarded :: "string \<Rightarrow> token list \<Rightarrow> string list \<Rightarrow> bool" where
  "guarded prev [] ls \<longleftrightarrow> True"
| "guarded prev (t # ts) ls \<longleftrightarrow>
     (if t = TMarker then \<not> opens_comment prev (hd ls) \<and> guarded [] ts (tl ls) else guarded (token_text t) ts ls)"

primrec expand :: "token list \<Rightarrow> token list list \<Rightarrow> token list" where
  "expand [] ls = []"
| "expand (t # ts) ls = (if t = TMarker then hd ls @ expand ts (tl ls) else t # expand ts ls)"

lemma fill_head: "\<not> HasPrefix s ''?'' \<Longrightarrow> HasPrefix (fill (tokens s) ls) [x] \<longleftrightarrow> HasPrefix s [x]"
  by (cases s) (auto simp: tokens.simps(2))

text \<open>A character in front of text that is filled in.\<close>

lemma two_char_head:
  assumes "\<not> (c = a \<and> HasPrefix s [x])" "guarded [c] (tokens s) ls" "list_all closed_text ls" "length ls = markers (tokens s)"
    and "\<And>l. HasPrefix l [x] \<Longrightarrow> c = a \<Longrightarrow> opens_comment [c] l"
  shows "\<not> (c = a \<and> HasPrefix (fill (tokens s) ls) [x])"
proof (cases "HasPrefix s ''?''")
  case True
  then obtain s' where s': "s = CHR ''?'' # s'" by (auto simp: HasPrefix_iff)
  then obtain l ls' where l: "ls = l # ls'" using assms(4) by (cases ls) (simp_all add: tokens.simps(2))
  then have "l \<noteq> []" "\<not> opens_comment [c] l"
    using assms(2,3) s' by (simp_all add: tokens.simps(2) closed_text_def)
  then show ?thesis using assms(5) [of l] l s' by (cases l) (auto simp: tokens.simps(2))
qed (use assms(1) fill_head in blast)

lemma beyond_Nil: "q \<notin> set s \<Longrightarrow> upto q s = s \<and> beyond q s = []"
  by (induction s) auto

lemma upto_again:
  assumes "beyond q s = [] \<Longrightarrow> r = []"
  shows "upto q (upto q s @ r) = upto q s \<and> beyond q (upto q s @ r) = r"
proof (cases "q \<in> set s")
  case True
  then obtain a b where "s = a @ q # b" "q \<notin> set a" by (meson split_list_first)
  then show ?thesis by (simp add: upto_append)
next
  case False
  then have "upto q s = s" "beyond q s = []" using beyond_Nil by auto
  then show ?thesis using assms by simp
qed

lemma upto_close_head: "s \<noteq> [] \<Longrightarrow> HasPrefix (upto_close s @ r) [x] \<longleftrightarrow> HasPrefix s [x]"
  by (cases s) auto

lemma upto_close_again:
  assumes "beyond_close s = [] \<Longrightarrow> r = []"
  shows "upto_close (upto_close s @ r) = upto_close s \<and> beyond_close (upto_close s @ r) = r"
  using assms
proof (induction s)
  case (Cons c s)
  show ?case
  proof (cases "c = CHR ''*'' \<and> HasPrefix s ''/''")
    case False
    have "\<not> (c = CHR ''*'' \<and> HasPrefix (upto_close s @ r) ''/'')"
      using False Cons.prems upto_close_head [of s r] by (cases "s = []") auto
    then show ?thesis using Cons False by auto
  qed auto
qed simp

lemma bound_tokens:
  assumes "guarded prev (tokens s) ls" "list_all closed_text ls" "length ls = markers (tokens s)"
  shows "tokens (fill (tokens s) ls) = expand (tokens s) (map tokens ls)"
  using assms
proof (induction s arbitrary: prev ls rule: tokens.induct)
  case (2 c s)
  have Nil: "fill (tokens x) [] = []" if "x = []" for x using that by simp
  consider (quoted) "c = quote \<or> c = dquote" | (line) "c = CHR ''-''" "HasPrefix s ''-''" | (block) "c = CHR ''/''" "HasPrefix s ''*''"
    | (marker) "c = CHR ''?''" | (other) "c \<notin> {quote, dquote, CHR ''?''}" "\<not> (c = CHR ''-'' \<and> HasPrefix s ''-'')" "\<not> (c = CHR ''/'' \<and> HasPrefix s ''*'')"
    by auto
  then show ?case
  proof cases
    case quoted
    let ?r = "fill (tokens (beyond c s)) ls"
    have ts: "tokens (c # s) = TQuoted (c # upto c s) # tokens (beyond c s)" using quoted by (auto simp: tokens.simps(2))
    have u: "upto c (upto c s @ ?r) = upto c s \<and> beyond c (upto c s @ ?r) = ?r"
      by (rule upto_again) simp
    have "tokens ?r = expand (tokens (beyond c s)) (map tokens ls)"
      using "2.IH"(1) [OF quoted, of "c # upto c s" ls] "2.prems" ts by simp
    then show ?thesis using ts u quoted by (simp add: tokens.simps(2))
  next
    case line
    let ?r = "fill (tokens (beyond newline s)) ls"
    have ts: "tokens (c # s) = TComment (c # upto newline s) # tokens (beyond newline s)" using line by (auto simp: tokens.simps(2))
    have u: "upto newline (upto newline s @ ?r) = upto newline s \<and> beyond newline (upto newline s @ ?r) = ?r"
      by (rule upto_again) simp
    have "HasPrefix (upto newline s @ ?r) ''-''" using line by (auto simp: HasPrefix_iff)
    moreover have "tokens ?r = expand (tokens (beyond newline s)) (map tokens ls)"
      using "2.IH"(2) [of "c # upto newline s" ls] line "2.prems" ts by simp
    ultimately show ?thesis using ts u line by (simp add: tokens.simps(2))
  next
    case block
    let ?r = "fill (tokens (beyond_close s)) ls"
    have ts: "tokens (c # s) = TComment (c # upto_close s) # tokens (beyond_close s)" using block by (auto simp: tokens.simps(2))
    have u: "upto_close (upto_close s @ ?r) = upto_close s \<and> beyond_close (upto_close s @ ?r) = ?r"
      by (rule upto_close_again) simp
    have "HasPrefix (upto_close s @ ?r) ''*''" using block by (cases s) auto
    moreover have "tokens ?r = expand (tokens (beyond_close s)) (map tokens ls)"
      using "2.IH"(3) [of "c # upto_close s" ls] block "2.prems" ts by simp
    ultimately show ?thesis using ts u block by (simp add: tokens.simps(2))
  next
    case marker
    have ts: "tokens (c # s) = TMarker # tokens s" using marker by (simp add: tokens.simps(2))
    then obtain l ls' where l: "ls = l # ls'" using "2.prems"(3) by (cases ls) simp_all
    have "tokens (fill (tokens s) ls') = expand (tokens s) (map tokens ls')"
      using "2.IH"(4) [of "[]" ls'] marker "2.prems" ts l by simp
    then show ?thesis using ts l "2.prems"(2) by (simp add: closed_text_def)
  next
    case other
    have ts: "tokens (c # s) = TChar c # tokens s" using other by (auto simp: tokens.simps(2))
    then have g: "guarded [c] (tokens s) ls" "length ls = markers (tokens s)" using "2.prems" by simp_all
    have "\<not> (c = CHR ''-'' \<and> HasPrefix (fill (tokens s) ls) ''-'')" "\<not> (c = CHR ''/'' \<and> HasPrefix (fill (tokens s) ls) ''*'')"
      using two_char_head [OF other(2) g(1) "2.prems"(2) g(2)] two_char_head [OF other(3) g(1) "2.prems"(2) g(2)]
      by (simp_all add: opens_comment_def)
    moreover have "tokens (fill (tokens s) ls) = expand (tokens s) (map tokens ls)"
      using "2.IH"(5) [of "[c]" ls] other "2.prems" ts g by auto
    ultimately show ?thesis using ts other(1) by (simp add: tokens.simps(2))
  qed
qed simp

section \<open>The literals of \<^verbatim>\<open>renderLiteral\<close>\<close>

definition number_text :: "string \<Rightarrow> bool" where
  "number_text t \<longleftrightarrow> t \<noteq> [] \<and> list_all plain_char t \<and> \<not> Contains t ''--'' \<and> last t \<noteq> CHR ''-''"

lemma closed_number: "number_text t \<Longrightarrow> closed_text t"
  by (simp add: number_text_def closed_plain)

lemma digits_plain: "d < 10 \<Longrightarrow> plain_char (digit_char d) \<and> digit_char d \<noteq> CHR ''-''"
proof -
  have "list_all (\<lambda>d. plain_char (digit_char d) \<and> digit_char d \<noteq> CHR ''-'') [0..<10]" by code_simp
  then show "d < 10 \<Longrightarrow> ?thesis" by (simp add: list_all_iff)
qed

lemma no_double_dash: "CHR ''-'' \<notin> set s \<Longrightarrow> \<not> Contains s ''--''"
  by (induction s) auto

lemma number_textI:
  assumes "list_all plain_char s" "CHR ''-'' \<notin> set s" "s \<noteq> []"
  shows "number_text s" "number_text (CHR ''-'' # s)"
proof -
  have "last s \<noteq> CHR ''-''" using assms(2,3) last_in_set by fastforce
  moreover have "plain_char CHR ''-''" by (simp add: plain_char_def)
  moreover have "\<not> HasPrefix s ''-''" using assms(2) by (auto simp: HasPrefix_iff)
  ultimately show "number_text s" "number_text (CHR ''-'' # s)"
    using assms no_double_dash [of s] by (auto simp: number_text_def)
qed

lemma show_nat_plain: "list_all plain_char (show_nat n)" "CHR ''-'' \<notin> set (show_nat n)"
  using show_nat_digits [of _ n] digits_plain by (auto simp: list_all_iff) metis+

lemma show_int_number: "number_text (show_int i)"
  using show_nat_plain number_textI by (auto simp: show_int_def)

lemma pad_zeros_replicate: "pad_zeros n s = replicate (nat (n + 1 - int (length s))) CHR ''0'' @ s"
proof (induction n s rule: pad_zeros.induct)
  case (1 n s)
  show ?case
  proof (cases "int (length s) \<le> n")
    case True
    then have "nat (n + 1 - int (length s)) = Suc (nat (n + 1 - int (length (CHR ''0'' # s))))" by simp
    then show ?thesis using 1 True by (subst pad_zeros.simps) (simp add: replicate_append_same flip: replicate_Suc)
  qed (subst pad_zeros.simps, simp)
qed

text \<open>The digits of a decimal literal: at least one in front of the point, \<open>scale\<close> behind it.\<close>

lemma decimalLiteral_shape:
  assumes "0 < scale"
  shows "\<exists>a b. decimalLiteral n scale = (if n < 0 then ''-'' else []) @ a @ ''.'' @ b \<and> int (length b) = scale \<and> a \<noteq> [] \<and>
    a @ b = replicate (nat (scale + 1 - int (length (show_nat (nat \<bar>n\<bar>))))) CHR ''0'' @ show_nat (nat \<bar>n\<bar>)"
proof -
  let ?s = "pad_zeros scale (show_nat (nat \<bar>n\<bar>))"
  let ?i = "length ?s - nat scale"
  have "int (length ?s) > scale" by (simp add: pad_zeros_replicate)
  then have "int (length (drop ?i ?s)) = scale" "take ?i ?s \<noteq> []" using assms by auto
  moreover have "decimalLiteral n scale = (if n < 0 then ''-'' else []) @ take ?i ?s @ ''.'' @ drop ?i ?s"
  proof (cases "n < 0")
    case True
    then show ?thesis using assms by (simp add: decimalLiteral_def show_int_def TrimPrefix_def Let_def)
  next
    case False
    then show ?thesis using assms show_nat_head(1) [of "nat n"]
      by (simp add: decimalLiteral_def show_int_def TrimPrefix_def Let_def)
  qed
  moreover have "take ?i ?s @ drop ?i ?s = replicate (nat (scale + 1 - int (length (show_nat (nat \<bar>n\<bar>))))) CHR ''0'' @ show_nat (nat \<bar>n\<bar>)"
    by (simp only: append_take_drop_id) (rule pad_zeros_replicate)
  ultimately show ?thesis by blast
qed

lemma decimalLiteral_number: "number_text (decimalLiteral n scale)"
proof (cases "0 < scale")
  case True
  then obtain a b where d: "decimalLiteral n scale = (if n < 0 then ''-'' else []) @ a @ ''.'' @ b" and ab: "a \<noteq> []"
      "a @ b = replicate (nat (scale + 1 - int (length (show_nat (nat \<bar>n\<bar>))))) CHR ''0'' @ show_nat (nat \<bar>n\<bar>)"
    using decimalLiteral_shape [OF True, of n] by blast
  have zeros: "list_all plain_char (replicate k CHR ''0'')" for k by (induction k) (simp_all add: plain_char_def)
  have "list_all plain_char (a @ b)" "CHR ''-'' \<notin> set (a @ b)"
    unfolding ab(2) using show_nat_plain zeros by simp_all
  then have "list_all plain_char (a @ ''.'' @ b)" "CHR ''-'' \<notin> set (a @ ''.'' @ b)" "a @ ''.'' @ b \<noteq> []"
    by (simp_all add: plain_char_def)
  then have "number_text (a @ ''.'' @ b)" "number_text (CHR ''-'' # a @ ''.'' @ b)" by (rule number_textI)+
  then show ?thesis using d by simp
next
  case False
  then show ?thesis using show_int_number by (simp add: decimalLiteral_def)
qed

lemma closed_blob: "closed_text ([quote] @ concat (map blob_byte x) @ [quote] @ ''::BLOB'')"
proof -
  have "list_all (\<lambda>d. hex_upper d \<noteq> quote) [0..<16]" by code_simp
  then have h: "d < 16 \<Longrightarrow> hex_upper d \<noteq> quote" for d by (simp add: list_all_iff)
  have "quote \<notin> set (blob_byte b)" for b
  proof -
    have "unat b < 16 * 16" using unsigned_less [of b] by simp
    then have "unat b div 16 < 16" "unat b mod 16 < 16" by (rule less_mult_imp_div_less, simp)
    then show ?thesis using h [of "unat b div 16"] h [of "unat b mod 16"] by (auto simp: blob_byte_def)
  qed
  then have "ReplaceAll (concat (map blob_byte x)) quote [quote, quote] = concat (map blob_byte x)"
    by (intro ReplaceAll_absent) auto
  then have "closed_text (quote # concat (map blob_byte x) @ [quote])" using closed_quoted [of quote "concat (map blob_byte x)"] by simp
  moreover have "closed_text ''::BLOB''" by (rule closed_plain) (simp_all add: plain_char_def)
  ultimately show ?thesis using closed_append by fastforce
qed

definition literal_ok :: "(64 word \<Rightarrow> string) \<Rightarrow> sql_value \<Rightarrow> bool" where
  "literal_ok fmt_float v \<longleftrightarrow> (case v of SqlFloat64 x \<Rightarrow> number_text (fmt_float x) | SqlKeyword t \<Rightarrow> closed_text t | _ \<Rightarrow> True)"

lemma closed_literal: "literal_ok fmt_float v \<Longrightarrow> closed_text (renderLiteral fmt_float v)"
proof -
  have "closed_text ''::DOUBLE''" by (rule closed_plain) (simp_all add: plain_char_def)
  then have "closed_text (t @ ''::DOUBLE'')" if "number_text t" for t by (rule closed_append [OF closed_number [OF that]])
  moreover have "closed_text ''NULL''" "closed_text ''TRUE''" "closed_text ''FALSE''" by (rule closed_plain; simp add: plain_char_def)+
  ultimately show "literal_ok fmt_float v \<Longrightarrow> ?thesis"
    using closed_blob closed_number [OF show_int_number] closed_quoted [of quote]
    by (cases v) (auto simp: literal_ok_def)
qed

section \<open>A minus sign in front of a marker\<close>

text \<open>
  What happens when a literal does follow a minus sign: together they open a line comment, which swallows the text
  up to the next newline, the opening quote of a bound string included; behind the newline the string is read as SQL.
\<close>

lemma fill_tokens:
  assumes "TMarker \<notin> set (tokens s)"
  shows "fill (tokens s @ ts) ls = s @ fill ts ls"
proof -
  have "fill (us @ ts) ls = concat (map token_text us) @ fill ts ls" if "TMarker \<notin> set us" for us
    using that by (induction us) auto
  then show ?thesis using assms by (simp add: tokens_text)
qed

lemma no_markers: "markers ts = 0 \<longleftrightarrow> TMarker \<notin> set ts"
  by (induction ts) auto

lemma closed_text_unfold: "closed_text l \<Longrightarrow> tokens (l @ s) = tokens l @ tokens s"
  by (simp add: closed_text_def)

lemma closed_text_markers: "closed_text l \<Longrightarrow> TMarker \<notin> set (tokens l)"
  by (simp add: closed_text_def)

text \<open>The statement: a closed text, a minus sign and a marker, another closed text and a marker, the rest.\<close>

lemma minus_marker_filled:
  assumes "closed_text pre" "closed_text mid" "markers (tokens post) = 0"
  shows "substituteParams fmt_float (pre @ ''-?'' @ mid @ ''?'' @ post) [v, w] =
    Inr (pre @ ''-'' @ renderLiteral fmt_float v @ mid @ renderLiteral fmt_float w @ post)"
proof -
  have t: "tokens (pre @ ''-?'' @ mid @ ''?'' @ post) = tokens pre @ TChar CHR ''-'' # TMarker # tokens mid @ TMarker # tokens post"
    using closed_text_unfold [OF assms(1)] closed_text_unfold [OF assms(2)] by (simp add: tokens.simps(2))
  have "fill (tokens post) [] = post" using fill_tokens [of post "[]" "[]"] assms(3) by (simp add: no_markers)
  moreover have "TMarker \<notin> set (tokens pre)" "TMarker \<notin> set (tokens mid)"
    using assms(1,2) by (simp_all add: closed_text_markers)
  ultimately show ?thesis using assms(3)
    unfolding substituteParams_tokens t Let_def by (simp add: fill_tokens no_markers [THEN iffD2])
qed

lemma minus_literal_tokens:
  assumes "closed_text pre" "newline \<notin> set (num @ mid @ a)" "quote \<notin> set (b @ rest)" "closed_text b"
  shows "tokens (pre @ ''-'' @ (CHR ''-'' # num) @ mid @ ([quote] @ ReplaceAll (a @ newline # b @ rest) quote [quote, quote] @ [quote]) @ post) =
    tokens pre @ TComment (''--'' @ num @ mid @ quote # ReplaceAll a quote [quote, quote] @ [newline]) # tokens b @ tokens (rest @ quote # post)"
proof -
  let ?a = "ReplaceAll a quote [quote, quote]"
  have split: "ReplaceAll (a @ newline # b @ rest) quote [quote, quote] = ?a @ newline # b @ rest"
    using ReplaceAll_absent [OF assms(3)] by (simp add: ReplaceAll_def)
  have "newline \<notin> set ?a" using assms(2) by (auto simp: ReplaceAll_def split: if_splits)
  then have "newline \<notin> set (CHR ''-'' # num @ mid @ quote # ?a)" using assms(2) by auto
  from upto_append [OF this, of "b @ rest @ quote # post"]
  have "tokens (CHR ''-'' # CHR ''-'' # num @ mid @ quote # ?a @ newline # b @ rest @ quote # post) =
      TComment (''--'' @ num @ mid @ quote # ?a @ [newline]) # tokens (b @ rest @ quote # post)"
    by (simp add: tokens.simps(2) [of "CHR ''-''"] HasPrefix_def)
  then show ?thesis using closed_text_unfold [OF assms(1)] closed_text_unfold [OF assms(4)] by (simp add: split)
qed

end
