(* ===== verification/Ingest.thy ===== *)
theory Ingest
  imports Arrow Chunks Sql
begin

text \<open>
  The conversions of \<^verbatim>\<open>driver/quack/bulk_ingest.go\<close>: the DDL of the target table and the DataChunk of an Arrow
  record batch.  The order of DDL and appends is in \<open>Statements\<close>.
\<close>

section \<open>Types\<close>

definition duckDBTypeForArrow :: "arrow_lib \<Rightarrow> arrow_type \<Rightarrow> string + string" where
  "duckDBTypeForArrow alib dt = (case dt of
       AT_Bool \<Rightarrow> Inr ''BOOLEAN''
     | AT_Int8 \<Rightarrow> Inr ''TINYINT''
     | AT_Int16 \<Rightarrow> Inr ''SMALLINT''
     | AT_Int32 \<Rightarrow> Inr ''INTEGER''
     | AT_Int64 \<Rightarrow> Inr ''BIGINT''
     | AT_Uint8 \<Rightarrow> Inr ''UTINYINT''
     | AT_Uint16 \<Rightarrow> Inr ''USMALLINT''
     | AT_Uint32 \<Rightarrow> Inr ''UINTEGER''
     | AT_Uint64 \<Rightarrow> Inr ''UBIGINT''
     | AT_Float32 \<Rightarrow> Inr ''FLOAT''
     | AT_Float64 \<Rightarrow> Inr ''DOUBLE''
     | AT_String \<Rightarrow> Inr ''VARCHAR''
     | AT_LargeString \<Rightarrow> Inr ''VARCHAR''
     | AT_Binary \<Rightarrow> Inr ''BLOB''
     | AT_LargeBinary \<Rightarrow> Inr ''BLOB''
     | AT_Date32 \<Rightarrow> Inr ''DATE''
     | AT_Timestamp _ tz \<Rightarrow> Inr (if tz \<noteq> [] then ''TIMESTAMP WITH TIME ZONE'' else ''TIMESTAMP'')
     | AT_Decimal128 p s \<Rightarrow> Inr (''DECIMAL('' @ show_int p @ '', '' @ show_int s @ '')'')
     | _ \<Rightarrow> Inl (''unsupported arrow type '' @ TypeName alib dt @ '' for ingest''))"

definition logicalTypeForArrow :: "arrow_lib \<Rightarrow> arrow_type \<Rightarrow> string + LogicalType" where
  "logicalTypeForArrow alib dt = (case dt of
       AT_Bool \<Rightarrow> Inr (Of LogicalTypeIDBoolean)
     | AT_Int8 \<Rightarrow> Inr (Of LogicalTypeIDTinyInt)
     | AT_Int16 \<Rightarrow> Inr (Of LogicalTypeIDSmallInt)
     | AT_Int32 \<Rightarrow> Inr (Of LogicalTypeIDInteger)
     | AT_Int64 \<Rightarrow> Inr (Of LogicalTypeIDBigInt)
     | AT_Uint8 \<Rightarrow> Inr (Of LogicalTypeIDUTinyInt)
     | AT_Uint16 \<Rightarrow> Inr (Of LogicalTypeIDUSmallInt)
     | AT_Uint32 \<Rightarrow> Inr (Of LogicalTypeIDUInteger)
     | AT_Uint64 \<Rightarrow> Inr (Of LogicalTypeIDUBigInt)
     | AT_Float32 \<Rightarrow> Inr (Of LogicalTypeIDFloat)
     | AT_Float64 \<Rightarrow> Inr (Of LogicalTypeIDDouble)
     | AT_String \<Rightarrow> Inr (Of LogicalTypeIDVarchar)
     | AT_LargeString \<Rightarrow> Inr (Of LogicalTypeIDVarchar)
     | AT_Binary \<Rightarrow> Inr (Of LogicalTypeIDBlob)
     | AT_LargeBinary \<Rightarrow> Inr (Of LogicalTypeIDBlob)
     | AT_Date32 \<Rightarrow> Inr (Of LogicalTypeIDDate)
     | AT_Timestamp _ tz \<Rightarrow> Inr (Of (if tz \<noteq> [] then LogicalTypeIDTimestampTZ else LogicalTypeIDTimestamp))
     | AT_Decimal128 p s \<Rightarrow> Inr (Decimal p s)
     | _ \<Rightarrow> Inl (''unsupported arrow type '' @ TypeName alib dt @ '' for ingest''))"

section \<open>The DDL\<close>

text \<open>The loop over the fields of the schema, with the position that decides the separator.\<close>

primrec column_defs :: "arrow_lib \<Rightarrow> nat \<Rightarrow> arrow_field list \<Rightarrow> string + string" where
  "column_defs alib i [] = Inr []"
| "column_defs alib i (f # fs) = (case duckDBTypeForArrow alib (f_Type f) of
       Inl e \<Rightarrow> Inl (''column '' @ Quote (f_Name f) @ '': '' @ e)
     | Inr colType \<Rightarrow> map_sum id (\<lambda>s. (if 0 < i then '', '' else []) @ quoteIdent (f_Name f) @ '' '' @ colType @
         (if f_Nullable f then [] else '' NOT NULL'') @ s) (column_defs alib (Suc i) fs))"

definition buildCreateTableSQL :: "arrow_lib \<Rightarrow> string \<Rightarrow> string \<Rightarrow> arrow_field list \<Rightarrow> bool \<Rightarrow> bool \<Rightarrow> bool \<Rightarrow> string + string" where
  "buildCreateTableSQL alib schema table s ifNotExists orReplace temporary =
     (if table = [] then Inl ''no target table set''
      else map_sum id (\<lambda>cols. ''CREATE '' @ (if orReplace then ''OR REPLACE '' else []) @ (if temporary then ''TEMPORARY '' else [])
        @ ''TABLE '' @ (if ifNotExists then ''IF NOT EXISTS '' else []) @ (if schema \<noteq> [] then quoteIdent schema @ ''.'' else [])
        @ quoteIdent table @ '' ('' @ cols @ '')'') (column_defs alib 0 s))"

section \<open>Columns\<close>

text \<open>\<^verbatim>\<open>vs[i] = f(arr.Value(i))\<close> at the rows that are not null, the zero value elsewhere.\<close>

definition arr_values :: "'b \<Rightarrow> ('a \<Rightarrow> 'b) \<Rightarrow> 'a option list \<Rightarrow> nat \<Rightarrow> 'b list outcome" where
  "arr_values zero f vs rowCount = map_outcome (\<lambda>i. outcome_bind (index_at vs (int i))
     (\<lambda>v. Done (case v of None \<Rightarrow> zero | Some x \<Rightarrow> f x))) [0..<rowCount]"

definition buildValidity :: "arrow_array \<Rightarrow> nat \<Rightarrow> validity outcome" where
  "buildValidity col rowCount =
     (if arr_NullN col = 0 then Done None
      else outcome_bind (ValidityAllValid (int rowCount)) (\<lambda>ws.
        outcome_bind (for_each (\<lambda>i ws. outcome_bind (arr_IsNull col (int i)) (\<lambda>null.
            if null then ValiditySetNull ws (int i) else Done ws)) [0..<rowCount] ws) (\<lambda>ws. Done (Some ws))))"

definition decodedVectorForArrow :: "arrow_lib \<Rightarrow> LogicalType \<Rightarrow> arrow_array \<Rightarrow> nat \<Rightarrow> (string + DecodedVector) outcome" where
  "decodedVectorForArrow alib t col rowCount = outcome_bind (buildValidity col rowCount) (\<lambda>validity.
     case col of
       BooleanArr vs \<Rightarrow> outcome_bind (arr_values False id vs rowCount) (\<lambda>xs. Done (Inr (BoolVec t xs validity)))
     | Int8Arr vs \<Rightarrow> outcome_bind (arr_values 0 id vs rowCount) (\<lambda>xs. Done (Inr (ByteVec t xs validity)))
     | Int16Arr vs \<Rightarrow> outcome_bind (arr_values 0 id vs rowCount) (\<lambda>xs. Done (Inr (ShortVec t xs validity)))
     | Int32Arr vs \<Rightarrow> outcome_bind (arr_values 0 id vs rowCount) (\<lambda>xs. Done (Inr (IntVec t xs validity)))
     | Int64Arr vs \<Rightarrow> outcome_bind (arr_values 0 id vs rowCount) (\<lambda>xs. Done (Inr (LongVec t xs validity)))
     | Uint8Arr vs \<Rightarrow> outcome_bind (arr_values 0 ucast vs rowCount) (\<lambda>xs. Done (Inr (ShortVec t xs validity)))
     | Uint16Arr vs \<Rightarrow> outcome_bind (arr_values 0 ucast vs rowCount) (\<lambda>xs. Done (Inr (IntVec t xs validity)))
     | Uint32Arr vs \<Rightarrow> outcome_bind (arr_values 0 ucast vs rowCount) (\<lambda>xs. Done (Inr (LongVec t xs validity)))
     | Uint64Arr vs \<Rightarrow> outcome_bind (arr_values 0 id vs rowCount) (\<lambda>xs. Done (Inr (LongVec t xs validity)))
     | Float32Arr vs \<Rightarrow> outcome_bind (arr_values 0 id vs rowCount) (\<lambda>xs. Done (Inr (FloatVec t xs validity)))
     | Float64Arr vs \<Rightarrow> outcome_bind (arr_values 0 id vs rowCount) (\<lambda>xs. Done (Inr (DoubleVec t xs validity)))
     | StringArr vs \<Rightarrow> outcome_bind (arr_values VNil VString vs rowCount) (\<lambda>xs. Done (Inr (ObjectVec t xs)))
     | BinaryArr vs \<Rightarrow> outcome_bind (arr_values VNil VBytes vs rowCount) (\<lambda>xs. Done (Inr (ObjectVec t xs)))
     | Decimal128Arr _ _ vs \<Rightarrow> outcome_bind (arr_values VNil VBigInt vs rowCount) (\<lambda>xs. Done (Inr (ObjectVec t xs)))
     | _ \<Rightarrow> Done (Inl (''decodedVectorForArrow: unsupported array '' @ ArrayName alib col)))"

definition chunkFromRecord :: "arrow_lib \<Rightarrow> arrow_batch \<Rightarrow> (string + DataChunk) outcome" where
  "chunkFromRecord alib rec = outcome_bind
     (collect (\<lambda>(i, field). case logicalTypeForArrow alib (f_Type field) of
          Inl e \<Rightarrow> Done (Inl (''column '' @ Quote (f_Name field) @ '': '' @ e))
        | Inr t \<Rightarrow> outcome_bind (index_at (b_Columns rec) (int i)) (\<lambda>col.
            outcome_bind (decodedVectorForArrow alib t col (b_NumRows rec)) (\<lambda>r.
            Done (map_sum (\<lambda>e. ''column '' @ Quote (f_Name field) @ '': '' @ e) (\<lambda>v. (t, v)) r))))
       (enumerate 0 (b_Fields rec)))
     (\<lambda>r. Done (map_sum id (\<lambda>cols. \<lparr>RowCount = int (b_NumRows rec), Types = map fst cols, Columns = map (Some \<circ> snd) cols\<rparr>) r))"

section \<open>Nulls\<close>

lemma for_each_filter:
  "for_each (\<lambda>i s. if P i then f i s else Done s) xs s = for_each f (filter P xs) s"
proof (induction xs arbitrary: s)
  case (Cons x xs)
  have "for_each (\<lambda>i s. if P i then f i s else Done s) xs = for_each f (filter P xs)" by (rule ext) (rule Cons.IH)
  then show ?case by simp
qed simp

lemma buildValidity_spec:
  assumes "small_count n" "length (arr_valid col) = n"
  shows "\<exists>v. buildValidity col n = Done v \<and> wf_validity v n \<and> (\<forall>i < n. row_valid v i = arr_valid col ! i)"
proof (cases "arr_NullN col = 0")
  case True
  then have "\<forall>i < n. arr_valid col ! i"
    using assms(2) by (auto simp: arr_NullN_def filter_empty_conv)
  then show ?thesis using True by (simp add: buildValidity_def wf_validity_def row_valid_def)
next
  case False
  let ?ws = "all_valid_words n"
  let ?rs = "filter (\<lambda>i. \<not> arr_valid col ! i) [0..<n]"
  have ws: "ValidityAllValid (int n) = Done ?ws" using AllValid_words [OF assms(1)] .
  have len: "length ?ws = (n + 63) div 64" by (simp add: all_valid_words_def)
  have in_rows: "i < 64 * length ?ws" if "i < n" for i using words_hold(2) [OF that] len by simp
  have "for_each (\<lambda>i ws. outcome_bind (arr_IsNull col (int i)) (\<lambda>null.
            if null then ValiditySetNull ws (int i) else Done ws)) [0..<n] ?ws =
      for_each (\<lambda>i ws. if \<not> arr_valid col ! i then ValiditySetNull ws (int i) else Done ws) [0..<n] ?ws"
    using assms(2) by (intro for_each_cong) (auto simp: arr_IsNull_def)
  also have "\<dots> = for_each (\<lambda>i ws. ValiditySetNull ws (int i)) ?rs ?ws" by (rule for_each_filter)
  finally have loop: "for_each (\<lambda>i ws. outcome_bind (arr_IsNull col (int i)) (\<lambda>null.
      if null then ValiditySetNull ws (int i) else Done ws)) [0..<n] ?ws =
      for_each (\<lambda>i ws. ValiditySetNull ws (int i)) ?rs ?ws" .
  obtain u where u: "for_each (\<lambda>i ws. ValiditySetNull ws (int i)) ?rs ?ws = Done u" "64 * length u = 64 * length ?ws"
      "\<forall>r < 64 * length ?ws. ValidityIsValid (Some u) (int r) = (if r \<in> set ?rs then Done False else ValidityIsValid (Some ?ws) (int r))"
    using bitmap.clear_all [of ?rs ?ws] in_rows by auto
  have "row_valid (Some u) i = arr_valid col ! i" if i: "i < n" for i
  proof -
    have "ValidityIsValid (Some u) (int i) = Done (arr_valid col ! i)"
      using u(3) in_rows [OF i] i AllValid_bits [of i n] len by (auto simp: ValidityIsValid_bit)
    then show ?thesis using u(2) in_rows [OF i] by (simp add: ValidityIsValid_bit row_valid_def)
  qed
  moreover have "wf_validity (Some u) n" using u(2) len by (simp add: wf_validity_def)
  ultimately show ?thesis using False ws loop u(1) by (simp add: buildValidity_def)
qed

end
