(* ===== verification/ArrowConv.thy ===== *)
theory ArrowConv
  imports Arrow VectorEncoder GoStrings
begin

text \<open>
  \<^verbatim>\<open>driver/quack/arrow_conv.go\<close>: the Arrow type of a logical type, the schema of a result, and the conversion
  of a DataChunk to an Arrow record, column by column through the builders of Arrow.
\<close>

section \<open>Types\<close>

lemma GetChildType_smaller: "GetChildType t = Inr c \<Longrightarrow> size c < size t"
  by (cases t; auto simp: GetChildType_def split: option.splits ExtraTypeInfo.splits)

lemma GetStructChildren_smaller:
  assumes "GetStructChildren t = Inr cs" "c \<in> set cs"
  shows "size (ct_Type c) < size t"
proof -
  have "size (ct_Type c) < size c" by (cases c) simp
  also have "size c \<le> size_list size cs" using assms(2) by (simp add: size_list_estimation')
  also have "size_list size cs < size t"
    using assms by (cases t) (auto simp: GetStructChildren_def split: option.splits ExtraTypeInfo.splits if_splits)
  finally show ?thesis .
qed

definition int32 :: "int \<Rightarrow> int" where
  "int32 x = sint (word_of_int x :: 32 word)"

lemma map_children_smaller:
  assumes "GetChildType t = Inr child" "GetStructChildren child = Inr [k, v]"
  shows "size (ct_Type k) < size t" "size (ct_Type v) < size t"
  using GetChildType_smaller [OF assms(1)] GetStructChildren_smaller [OF assms(2), of k] GetStructChildren_smaller [OF assms(2), of v]
  by simp_all

function arrowType :: "arrow_lib \<Rightarrow> LogicalType \<Rightarrow> arrow_type" where
  "arrowType alib t = (let i = lt_ID t in
     if i = LogicalTypeIDBoolean then AT_Bool
     else if i = LogicalTypeIDTinyInt then AT_Int8
     else if i = LogicalTypeIDSmallInt then AT_Int16
     else if i = LogicalTypeIDInteger then AT_Int32
     else if i = LogicalTypeIDBigInt then AT_Int64
     else if i = LogicalTypeIDUTinyInt then AT_Uint8
     else if i = LogicalTypeIDUSmallInt then AT_Uint16
     else if i = LogicalTypeIDUInteger then AT_Uint32
     else if i = LogicalTypeIDUBigInt then AT_Uint64
     else if i = LogicalTypeIDFloat then AT_Float32
     else if i = LogicalTypeIDDouble then AT_Float64
     else if i \<in> set [LogicalTypeIDVarchar, LogicalTypeIDChar, LogicalTypeIDStringLiteral, LogicalTypeIDBigNum, LogicalTypeIDEnum]
     then AT_String
     else if i \<in> set [LogicalTypeIDBlob, LogicalTypeIDBit, LogicalTypeIDGeometry] then AT_Binary
     else if i = LogicalTypeIDDate then AT_Date32
     else if i = LogicalTypeIDTime then AT_Time64 Microseconds
     else if i = LogicalTypeIDTimeNS then AT_Time64 Nanoseconds
     else if i \<in> set [LogicalTypeIDTimestamp, LogicalTypeIDTimestampSec, LogicalTypeIDTimestampMS, LogicalTypeIDTimestampNS]
     then Timestamp_us alib
     else if i = LogicalTypeIDTimestampTZ then AT_Timestamp Microseconds ''UTC''
     else if i = LogicalTypeIDDecimal then (case lt_TypeInfo t of
         Some (DecimalTypeInfo width scale _) \<Rightarrow> AT_Decimal128 (int32 width) (int32 scale)
       | _ \<Rightarrow> AT_Decimal128 38 0)
     else if i = LogicalTypeIDUUID then AT_FixedSizeBinary 16
     else if i = LogicalTypeIDHugeInt \<or> i = LogicalTypeIDUHugeInt then AT_Decimal128 38 0
     else if i = LogicalTypeIDInterval then AT_MonthDayNano
     else if i = LogicalTypeIDList then (case GetChildType t of Inl _ \<Rightarrow> AT_String | Inr child \<Rightarrow> AT_List (arrowType alib child))
     else if i = LogicalTypeIDArray then (case GetChildType t of Inl _ \<Rightarrow> AT_String
       | Inr child \<Rightarrow> (case GetArraySize t of Inl _ \<Rightarrow> AT_List (arrowType alib child)
           | Inr sz \<Rightarrow> if sz \<le> 0 then AT_List (arrowType alib child) else AT_FixedSizeList (int32 sz) (arrowType alib child)))
     else if i = LogicalTypeIDStruct then (case GetStructChildren t of Inl _ \<Rightarrow> AT_String
       | Inr children \<Rightarrow> (if children = [] then AT_String
           else AT_Struct (map (\<lambda>c. Field (ct_Name c) (arrowType alib (ct_Type c)) True) children)))
     else if i = LogicalTypeIDMap then (case GetChildType t of Inl _ \<Rightarrow> AT_String
       | Inr child \<Rightarrow> (case GetStructChildren child of
             Inr [k, v] \<Rightarrow> AT_Map (arrowType alib (ct_Type k)) (arrowType alib (ct_Type v))
           | _ \<Rightarrow> AT_List (arrowType alib child)))
     else AT_String)"
  by pat_completeness auto
termination arrowType
proof (relation "measure (size \<circ> snd)", goal_cases)
  case 1 show ?case by simp
qed (auto dest: GetChildType_smaller GetStructChildren_smaller map_children_smaller)

declare arrowType.simps [simp del]

text \<open>\<^verbatim>\<open>types[i]\<close> panics when there are fewer types than names.\<close>

definition SchemaFromColumns :: "arrow_lib \<Rightarrow> string list \<Rightarrow> LogicalType list \<Rightarrow> arrow_field list outcome" where
  "SchemaFromColumns alib names types = map_outcome (\<lambda>(i, n). outcome_bind (index_at types i) (\<lambda>t.
     Done (Field n (arrowType alib t) True))) (zip (map int [0..<length names]) names)"

section \<open>Values\<close>

definition toInt8 :: "govalue \<Rightarrow> 8 word" where
  "toInt8 v = (case v of VInt8 x \<Rightarrow> x | VInt16 x \<Rightarrow> ucast x | VInt32 x \<Rightarrow> ucast x | VInt64 x \<Rightarrow> ucast x | _ \<Rightarrow> 0)"

definition toInt16 :: "govalue \<Rightarrow> 16 word" where
  "toInt16 v = (case v of VInt8 x \<Rightarrow> scast x | VInt16 x \<Rightarrow> x | VInt32 x \<Rightarrow> ucast x | VInt64 x \<Rightarrow> ucast x | _ \<Rightarrow> 0)"

definition toInt32 :: "govalue \<Rightarrow> 32 word" where
  "toInt32 v = (case v of VInt8 x \<Rightarrow> scast x | VInt16 x \<Rightarrow> scast x | VInt32 x \<Rightarrow> x | VInt64 x \<Rightarrow> ucast x
     | VUint16 x \<Rightarrow> ucast x | VUint32 x \<Rightarrow> x | _ \<Rightarrow> 0)"

text \<open>\<^verbatim>\<open>toInt64\<close> and \<^verbatim>\<open>toFloat64\<close> of this package, which know fewer types than those of \<^verbatim>\<open>internal/message\<close>.\<close>

definition toInt64_arrow :: "govalue \<Rightarrow> 64 word" where
  "toInt64_arrow v = (case v of
       VInt x \<Rightarrow> word_of_int x | VInt8 x \<Rightarrow> scast x | VInt16 x \<Rightarrow> scast x | VInt32 x \<Rightarrow> scast x | VInt64 x \<Rightarrow> x
     | VUint8 x \<Rightarrow> ucast x | VUint16 x \<Rightarrow> ucast x | VUint32 x \<Rightarrow> ucast x | VUint64 x \<Rightarrow> x | _ \<Rightarrow> 0)"

definition toFloat64_arrow :: "govalue \<Rightarrow> 64 word" where
  "toFloat64_arrow v = (case v of
       VFloat32 x \<Rightarrow> float64_of_float32 x | VFloat64 x \<Rightarrow> x | _ \<Rightarrow> float64_of_int (sint (toInt64_arrow v)))"

text \<open>\<^verbatim>\<open>uuidStringToBytes\<close>: \<open>i\<close> is the position in the string, the \<^verbatim>\<open>break\<close> leaves the loop.\<close>

definition uuid_nibble :: "char \<Rightarrow> 8 word" where
  "uuid_nibble c = (let n = of_char c :: nat in
     if 48 \<le> n \<and> n \<le> 57 then of_nat (n - 48)
     else if 97 \<le> n \<and> n \<le> 102 then of_nat (n - 97 + 10)
     else if 65 \<le> n \<and> n \<le> 70 then of_nat (n - 65 + 10)
     else 0)"

primrec uuid_loop :: "string \<Rightarrow> nat \<Rightarrow> bytes \<Rightarrow> bytes" where
  "uuid_loop [] i out = out"
| "uuid_loop (c # s) i out =
     (if c = CHR ''-'' then uuid_loop s (Suc i) out
      else if even i \<and> 0 < length out \<and> length out < 16
      then uuid_loop s (Suc i) (butlast out @ [last out OR uuid_nibble c])
      else if 16 \<le> length out then out
      else uuid_loop s (Suc i) (out @ [push_bit 4 (uuid_nibble c)]))"

definition uuidStringToBytes :: "string \<Rightarrow> bytes" where
  "uuidStringToBytes s = (let out = uuid_loop s 0 [] in out @ replicate (16 - length out) 0)"

text \<open>A \<^verbatim>\<open>*big.Rat\<close> for a DECIMAL builder: its unscaled value, toward zero.\<close>

definition decimal_cell :: "arrow_lib \<Rightarrow> int \<Rightarrow> govalue \<Rightarrow> cell outcome" where
  "decimal_cell alib scale v = (case v of
       VRat x \<Rightarrow> (let (num, denom) = quotient_of x
           in outcome_bind (FromBigInt alib ((num * 10 ^ nat scale) sdiv denom)) (\<lambda>d. Done (CDecimal128 d)))
     | VBigInt x \<Rightarrow> outcome_bind (FromBigInt alib x) (\<lambda>d. Done (CDecimal128 d))
     | _ \<Rightarrow> Done CNull)"

text \<open>
  The cells of the date and time builders: \<^verbatim>\<open>v.Sub(epoch).Hours() / 24\<close> truncated, the microseconds of the
  clock reading, and \<^verbatim>\<open>v.UnixMicro()\<close>.
\<close>

definition date_cell :: "govalue \<Rightarrow> cell" where
  "date_cell v = (case v of
       VTime t \<Rightarrow> CDate32 (word_of_int (trunc_rat (round64 (Duration_Hours (time_Sub t epoch) / 24))))
     | _ \<Rightarrow> CNull)"

definition time_cell :: "govalue \<Rightarrow> cell" where
  "time_cell v = (case v of
       VTime t \<Rightarrow> CTime64 (word_of_int ((time_Hour t * hour_ns + time_Minute t * (60 * second_ns) + time_Second t * second_ns + t_nsec t) sdiv 1000))
     | _ \<Rightarrow> CNull)"

definition timestamp_cell :: "govalue \<Rightarrow> cell" where
  "timestamp_cell v = (case v of VTime t \<Rightarrow> CTimestamp (word_of_int (to_UnixMicro t)) | _ \<Rightarrow> CNull)"

section \<open>Boxed values\<close>

text \<open>
  \<^verbatim>\<open>appendBoxedScalar\<close> and \<^verbatim>\<open>appendBoxedSlice\<close>: a value nested in a list, an array or a struct.  The result is
  the cell that is appended to the builder.  \<^verbatim>\<open>FieldBuilder(ci)\<close> panics outside the fields.
\<close>

lemma field_smaller: "i < length fs \<Longrightarrow> size (f_Type (fs ! i)) < Suc (size_list (size :: arrow_field \<Rightarrow> nat) fs)"
proof -
  assume "i < length fs"
  have "size (f_Type (fs ! i)) < size (fs ! i)" by (cases "fs ! i") simp
  also have "\<dots> \<le> size_list size fs" using size_list_estimation' [OF nth_mem [OF \<open>i < length fs\<close>], of "size (fs ! i)" size] by simp
  finally show ?thesis by simp
qed

definition field_type :: "arrow_field list \<Rightarrow> nat \<Rightarrow> arrow_type option" where
  "field_type fs i = (if i < length fs then Some (f_Type (fs ! i)) else None)"

lemma field_type_smaller: "field_type fs i = Some b \<Longrightarrow> size b < Suc (size_list size fs)"
  by (auto simp: field_type_def field_smaller split: if_splits)

text \<open>\<^verbatim>\<open>row[child.Name]\<close> on a Go map.\<close>

definition map_get :: "(string \<times> govalue) list \<Rightarrow> string \<Rightarrow> govalue option" where
  "map_get row k = map_of row k"

function appendBoxedScalar :: "arrow_lib \<Rightarrow> go_lib \<Rightarrow> arrow_type \<Rightarrow> LogicalType \<Rightarrow> govalue \<Rightarrow> bool \<Rightarrow> (string + cell) outcome" where
  "appendBoxedScalar alib lib b childType v isNull =
     (if isNull then Done (Inr CNull)
      else case b of
          AT_Bool \<Rightarrow> Done (Inr (case v of VBool x \<Rightarrow> CBool x | _ \<Rightarrow> CNull))
        | AT_Int8 \<Rightarrow> Done (Inr (CInt8 (toInt8 v)))
        | AT_Int16 \<Rightarrow> Done (Inr (CInt16 (toInt16 v)))
        | AT_Int32 \<Rightarrow> Done (Inr (CInt32 (toInt32 v)))
        | AT_Int64 \<Rightarrow> Done (Inr (CInt64 (toInt64_arrow v)))
        | AT_Uint8 \<Rightarrow> Done (Inr (CUint8 (ucast (toInt64_arrow v))))
        | AT_Uint16 \<Rightarrow> Done (Inr (CUint16 (ucast (toInt64_arrow v))))
        | AT_Uint32 \<Rightarrow> Done (Inr (CUint32 (ucast (toInt64_arrow v))))
        | AT_Uint64 \<Rightarrow> Done (Inr (CUint64 (toInt64_arrow v)))
        | AT_Float32 \<Rightarrow> Done (Inr (CFloat32 (float32_of_float64 (toFloat64_arrow v))))
        | AT_Float64 \<Rightarrow> Done (Inr (CFloat64 (toFloat64_arrow v)))
        | AT_String \<Rightarrow> Done (Inr (CString (case v of VString s \<Rightarrow> s | VBytes x \<Rightarrow> string_of_bytes x | _ \<Rightarrow> sprint_v lib v)))
        | AT_Binary \<Rightarrow> Done (Inr (case v of VBytes x \<Rightarrow> CBinary x | VString s \<Rightarrow> CBinary (bytes_of_string s) | _ \<Rightarrow> CNull))
        | AT_Decimal128 _ scale \<Rightarrow> outcome_bind (decimal_cell alib scale v) (\<lambda>c. Done (Inr c))
        | AT_List b \<Rightarrow> (case v of
              VList items \<Rightarrow> outcome_bind (collect (\<lambda>x. appendBoxedScalar alib lib b (or_zero zeroLogicalType (GetChildType childType)) x (x = VNil)) items)
                (\<lambda>r. Done (map_sum id CList r))
            | _ \<Rightarrow> Done (Inr CNull))
        | AT_FixedSizeList _ b \<Rightarrow> (case v of
              VList items \<Rightarrow> outcome_bind (collect (\<lambda>x. appendBoxedScalar alib lib b (or_zero zeroLogicalType (GetChildType childType)) x (x = VNil)) items)
                (\<lambda>r. Done (map_sum id CList r))
            | _ \<Rightarrow> Done (Inr CNull))
        | AT_Struct fs \<Rightarrow> (case v of
              VMap row \<Rightarrow> outcome_bind (collect (\<lambda>(ci, child). case field_type fs ci of
                    None \<Rightarrow> Panic
                  | Some b \<Rightarrow> (case map_get row (ct_Name child) of
                        None \<Rightarrow> appendBoxedScalar alib lib b (ct_Type child) VNil True
                      | Some x \<Rightarrow> appendBoxedScalar alib lib b (ct_Type child) x (x = VNil)))
                  (enumerate 0 (or_zero [] (GetStructChildren childType))))
                (\<lambda>r. Done (map_sum id CStruct r))
            | _ \<Rightarrow> Done (Inr CNull))
        | _ \<Rightarrow> Done (Inr CNull))"
  by pat_completeness auto
termination appendBoxedScalar
  by (relation "measure (\<lambda>(_, _, b, _). size b)") (auto dest: field_type_smaller)

declare appendBoxedScalar.simps [simp del]

definition appendBoxedSlice :: "arrow_lib \<Rightarrow> go_lib \<Rightarrow> arrow_type \<Rightarrow> LogicalType \<Rightarrow> govalue list \<Rightarrow> (string + cell list) outcome" where
  "appendBoxedSlice alib lib b childType items =
     collect (\<lambda>v. appendBoxedScalar alib lib b childType v (v = VNil)) items"

section \<open>Columns\<close>

text \<open>The loop over the rows of a vector: a null, or the cell of the row's value.\<close>

definition column_rows :: "(govalue \<Rightarrow> (string + cell) outcome) \<Rightarrow> DecodedVector \<Rightarrow> (string + cell list) outcome" where
  "column_rows f vec = collect (\<lambda>i. outcome_bind (IsNull vec (int i)) (\<lambda>null.
     if null then Done (Inr CNull) else outcome_bind (GetObject vec (int i)) f)) [0..<vec_Size vec]"

definition append_list :: "arrow_lib \<Rightarrow> go_lib \<Rightarrow> arrow_type \<Rightarrow> LogicalType \<Rightarrow> govalue \<Rightarrow> (string + cell) outcome" where
  "append_list alib lib b t v = (case v of
       VList items \<Rightarrow> outcome_bind (appendBoxedSlice alib lib b (or_zero zeroLogicalType (GetChildType t)) items)
         (\<lambda>r. Done (map_sum id CList r))
     | _ \<Rightarrow> Done (Inr CNull))"

definition append_struct :: "arrow_lib \<Rightarrow> go_lib \<Rightarrow> arrow_field list \<Rightarrow> LogicalType \<Rightarrow> govalue \<Rightarrow> (string + cell) outcome" where
  "append_struct alib lib fs t v = (case v of
       VMap row \<Rightarrow> outcome_bind (collect (\<lambda>(ci, child). case field_type fs ci of
             None \<Rightarrow> Panic
           | Some b \<Rightarrow> (let val = map_get row (ct_Name child) in
               appendBoxedScalar alib lib b (ct_Type child) (case val of None \<Rightarrow> VNil | Some x \<Rightarrow> x)
                 (val = None \<or> val = Some VNil)))
           (enumerate 0 (or_zero [] (GetStructChildren t))))
         (\<lambda>r. Done (map_sum id CStruct r))
     | _ \<Rightarrow> Done (Inr CNull))"

text \<open>The key and value types of a MAP, zero when it is not a list of pairs.\<close>

definition map_types :: "LogicalType \<Rightarrow> LogicalType \<times> LogicalType" where
  "map_types t = (case GetChildType t of
       Inr childList \<Rightarrow> (case GetStructChildren childList of
           Inr [k, v] \<Rightarrow> (ct_Type k, ct_Type v)
         | _ \<Rightarrow> (zeroLogicalType, zeroLogicalType))
     | Inl _ \<Rightarrow> (zeroLogicalType, zeroLogicalType))"

definition append_entry :: "arrow_lib \<Rightarrow> go_lib \<Rightarrow> arrow_type \<Rightarrow> LogicalType \<Rightarrow> (string \<times> govalue) list \<Rightarrow> string \<Rightarrow> (string + cell) outcome" where
  "append_entry alib lib b t kv name = (let val = map_get kv name in
     appendBoxedScalar alib lib b t (case val of None \<Rightarrow> VNil | Some x \<Rightarrow> x) (val = None \<or> val = Some VNil))"

definition append_map :: "arrow_lib \<Rightarrow> go_lib \<Rightarrow> arrow_type \<Rightarrow> arrow_type \<Rightarrow> LogicalType \<Rightarrow> govalue \<Rightarrow> (string + cell) outcome" where
  "append_map alib lib kb ib t v = (case v of
       VList entries \<Rightarrow>
         (let (keyType, valueType) = map_types t;
              kvs = concat (map (\<lambda>e. case e of VMap kv \<Rightarrow> [kv] | _ \<Rightarrow> []) entries)
          in outcome_bind (collect (\<lambda>kv. outcome_bind (append_entry alib lib kb keyType kv ''key'') (\<lambda>r. case r of
                 Inl e \<Rightarrow> Done (Inl e)
               | Inr k \<Rightarrow> outcome_bind (append_entry alib lib ib valueType kv ''value'') (\<lambda>r. Done (map_sum id (\<lambda>x. (k, x)) r)))) kvs)
             (\<lambda>r. Done (map_sum id (\<lambda>es. CMap (map fst es) (map snd es)) r)))
     | _ \<Rightarrow> Done (Inr CNull))"

definition buildColumn :: "arrow_lib \<Rightarrow> go_lib \<Rightarrow> arrow_type \<Rightarrow> LogicalType \<Rightarrow> DecodedVector \<Rightarrow> (string + cell list) outcome" where
  "buildColumn alib lib b t vec = (case b of
       AT_Bool \<Rightarrow> column_rows (\<lambda>v. case v of VBool x \<Rightarrow> Done (Inr (CBool x)) | _ \<Rightarrow> Panic) vec
     | AT_Int8 \<Rightarrow> column_rows (\<lambda>v. Done (Inr (CInt8 (toInt8 v)))) vec
     | AT_Int16 \<Rightarrow> column_rows (\<lambda>v. Done (Inr (CInt16 (toInt16 v)))) vec
     | AT_Int32 \<Rightarrow> column_rows (\<lambda>v. Done (Inr (CInt32 (toInt32 v)))) vec
     | AT_Int64 \<Rightarrow> column_rows (\<lambda>v. Done (Inr (CInt64 (toInt64_arrow v)))) vec
     | AT_Uint8 \<Rightarrow> column_rows (\<lambda>v. Done (Inr (CUint8 (ucast (toInt64_arrow v))))) vec
     | AT_Uint16 \<Rightarrow> column_rows (\<lambda>v. Done (Inr (CUint16 (ucast (toInt64_arrow v))))) vec
     | AT_Uint32 \<Rightarrow> column_rows (\<lambda>v. Done (Inr (CUint32 (ucast (toInt64_arrow v))))) vec
     | AT_Uint64 \<Rightarrow> column_rows (\<lambda>v. Done (Inr (CUint64 (toInt64_arrow v)))) vec
     | AT_Float32 \<Rightarrow> column_rows (\<lambda>v. Done (Inr (CFloat32 (float32_of_float64 (toFloat64_arrow v))))) vec
     | AT_Float64 \<Rightarrow> column_rows (\<lambda>v. Done (Inr (CFloat64 (toFloat64_arrow v)))) vec
     | AT_String \<Rightarrow> column_rows (\<lambda>v. Done (Inr (CString (sprint_v lib v)))) vec
     | AT_Binary \<Rightarrow> column_rows (\<lambda>v. Done (Inr (CBinary (case v of VBytes x \<Rightarrow> x | _ \<Rightarrow> bytes_of_string (sprint_v lib v))))) vec
     | AT_Date32 \<Rightarrow> column_rows (\<lambda>v. Done (Inr (date_cell v))) vec
     | AT_Time64 _ \<Rightarrow> column_rows (\<lambda>v. Done (Inr (time_cell v))) vec
     | AT_Timestamp _ _ \<Rightarrow> column_rows (\<lambda>v. Done (Inr (timestamp_cell v))) vec
     | AT_Decimal128 _ scale \<Rightarrow> column_rows (\<lambda>v. outcome_bind (decimal_cell alib scale v) (\<lambda>c. Done (Inr c))) vec
     | AT_FixedSizeBinary _ \<Rightarrow> column_rows (\<lambda>v. Done (Inr (case v of
           VString s \<Rightarrow> (if length s = 36 then CFixed (uuidStringToBytes s) else CNull) | _ \<Rightarrow> CNull))) vec
     | AT_List b \<Rightarrow> column_rows (append_list alib lib b t) vec
     | AT_FixedSizeList _ b \<Rightarrow> column_rows (append_list alib lib b t) vec
     | AT_Struct fs \<Rightarrow> column_rows (append_struct alib lib fs t) vec
     | AT_Map kb ib \<Rightarrow> column_rows (append_map alib lib kb ib t) vec
     | _ \<Rightarrow> Done (Inl (''arrowconv: builder '' @ BuilderName alib b @ '' not yet handled (type '' @ LogicalTypeID_String (lt_ID t) @ '')'')))"

section \<open>Records\<close>

text \<open>\<^verbatim>\<open>builder.NewRecord()\<close> panics when the columns differ in length.\<close>

definition NewRecord :: "arrow_field list \<Rightarrow> cell list list \<Rightarrow> arrow_record outcome" where
  "NewRecord flds cols =
     (let cols = cols @ replicate (length flds - length cols) [] in
      if list_all (\<lambda>c. length c = length (hd cols)) cols
      then Done \<lparr>rec_Fields = flds, rec_Columns = cols\<rparr> else Panic)"

definition RecordFromChunk :: "arrow_lib \<Rightarrow> go_lib \<Rightarrow> string list \<Rightarrow> DataChunk \<Rightarrow> (string + arrow_record) outcome" where
  "RecordFromChunk alib lib names chunk =
     outcome_bind (SchemaFromColumns alib names (Types chunk)) (\<lambda>flds.
     outcome_bind (collect (\<lambda>(col, vec).
         outcome_bind (index_at flds (int col)) (\<lambda>f.
         outcome_bind (index_at (Types chunk) (int col)) (\<lambda>t.
         case vec of None \<Rightarrow> Panic
         | Some vec \<Rightarrow> outcome_bind (buildColumn alib lib (f_Type f) t vec)
             (\<lambda>r. Done (map_sum (\<lambda>e. ''column '' @ Quote (names ! col) @ '' ('' @ LogicalTypeID_String (lt_ID t) @ ''): '' @ e) id r)))))
       (enumerate 0 (Columns chunk))) (\<lambda>r.
     case r of Inl e \<Rightarrow> Done (Inl e)
     | Inr cols \<Rightarrow> outcome_bind (NewRecord flds cols) (\<lambda>record. Done (Inr record))))"

section \<open>What a record looks like\<close>

lemma NewRecord_shape:
  assumes "NewRecord flds cols = Done rec" "length cols \<le> length flds"
  shows "rec_Fields rec = flds \<and> length (rec_Columns rec) = length flds \<and>
    (\<forall>c \<in> set (rec_Columns rec). length c = length (hd (rec_Columns rec)))"
  using assms by (auto simp: NewRecord_def Let_def list_all_iff split: if_splits)

lemma RecordFromChunk_shape:
  assumes "RecordFromChunk alib lib names chunk = Done (Inr rec)"
  shows "SchemaFromColumns alib names (Types chunk) = Done (rec_Fields rec) \<and> length (rec_Columns rec) = length (rec_Fields rec) \<and>
    (\<forall>c \<in> set (rec_Columns rec). length c = length (hd (rec_Columns rec)))"
proof -
  obtain flds cols where f: "SchemaFromColumns alib names (Types chunk) = Done flds" "NewRecord flds cols = Done rec"
      "collect (\<lambda>(col, vec).
         outcome_bind (index_at flds (int col)) (\<lambda>f.
         outcome_bind (index_at (Types chunk) (int col)) (\<lambda>t.
         case vec of None \<Rightarrow> Panic
         | Some vec \<Rightarrow> outcome_bind (buildColumn alib lib (f_Type f) t vec)
             (\<lambda>r. Done (map_sum (\<lambda>e. ''column '' @ Quote (names ! col) @ '' ('' @ LogicalTypeID_String (lt_ID t) @ ''): '' @ e) id r)))))
       (enumerate 0 (Columns chunk)) = Done (Inr cols)"
    using assms unfolding RecordFromChunk_def outcome_bind_eq_Done [of "SchemaFromColumns _ _ _"] bind_sum_Inr by (auto simp: outcome_bind_eq_Done)
  have "i < length flds" if i: "i < length (Columns chunk)" for i
  proof (rule ccontr)
    assume "\<not> i < length flds"
    then have "index_at flds (int i) = Panic" by (simp add: index_at_def)
    then show False using collect_nth [OF f(3), of i] i by (simp add: nth_enumerate_eq)
  qed
  moreover have "length cols = length (Columns chunk)" using collect_length [OF f(3)] by simp
  ultimately have "length cols \<le> length flds" by (metis linorder_not_le less_irrefl)
  then show ?thesis using NewRecord_shape [OF f(2)] f(1) by simp
qed

section \<open>Values that are lost\<close>

text \<open>Inside a list, a struct or a map the builders of dates, times, timestamps, UUIDs and maps only get nulls.\<close>

lemma nested_values_become_null:
  "b \<in> {AT_Date32, AT_Time64 u, AT_Timestamp u tz, AT_FixedSizeBinary n, AT_Map kb ib} \<Longrightarrow>
   appendBoxedScalar alib lib b t v False = Done (Inr CNull)"
  by (elim insertE) (simp_all add: appendBoxedScalar.simps [of alib lib _ t v False])

text \<open>The digits of a UUID are paired by the parity of their position, hyphens included.\<close>

lemma uuid_bytes_shifted:
  "uuidStringToBytes ''00112233-4455-6677-8899-aabbccddeeff'' =
     [0x00, 0x01, 0x12, 0x23, 0x30, 0x44, 0x57, 0x67, 0x70, 0x88, 0x9B, 0xAB, 0xBC, 0xCD, 0xDE, 0xE0]"
  by code_simp

end
