(* ===== verification/IngestRoundtrip.thy ===== *)
theory IngestRoundtrip
  imports Ingest ArrowConv
begin

text \<open>
  Bulk ingest against the read path: a record batch of the supported types becomes a well-formed DataChunk
  (one that travels over the wire, by the theory \<open>Chunks\<close>), and a DataChunk with these columns is read
  back as a record with the same fields and the same cells.
\<close>

section \<open>The cells of an array\<close>

definition opt_cells :: "('a \<Rightarrow> cell) \<Rightarrow> 'a option list \<Rightarrow> cell list" where
  "opt_cells g vs = map (case_option CNull g) vs"

fun arr_cells :: "arrow_array \<Rightarrow> cell list" where
  "arr_cells (BooleanArr vs) = opt_cells CBool vs"
| "arr_cells (Int8Arr vs) = opt_cells CInt8 vs"
| "arr_cells (Int16Arr vs) = opt_cells CInt16 vs"
| "arr_cells (Int32Arr vs) = opt_cells CInt32 vs"
| "arr_cells (Int64Arr vs) = opt_cells CInt64 vs"
| "arr_cells (Uint8Arr vs) = opt_cells CUint8 vs"
| "arr_cells (Uint16Arr vs) = opt_cells CUint16 vs"
| "arr_cells (Uint32Arr vs) = opt_cells CUint32 vs"
| "arr_cells (Uint64Arr vs) = opt_cells CUint64 vs"
| "arr_cells (Float32Arr vs) = opt_cells CFloat32 vs"
| "arr_cells (Float64Arr vs) = opt_cells CFloat64 vs"
| "arr_cells (StringArr vs) = opt_cells CString vs"
| "arr_cells (BinaryArr vs) = opt_cells CBinary vs"
| "arr_cells _ = []"

text \<open>The arrays that are ingested without loss, with the type of their field.\<close>

definition ingestable :: "arrow_type \<Rightarrow> arrow_array \<Rightarrow> bool" where
  "ingestable dt col \<longleftrightarrow> (case col of
       BooleanArr _ \<Rightarrow> dt = AT_Bool
     | Int8Arr _ \<Rightarrow> dt = AT_Int8 | Int16Arr _ \<Rightarrow> dt = AT_Int16 | Int32Arr _ \<Rightarrow> dt = AT_Int32 | Int64Arr _ \<Rightarrow> dt = AT_Int64
     | Uint8Arr _ \<Rightarrow> dt = AT_Uint8 | Uint16Arr _ \<Rightarrow> dt = AT_Uint16 | Uint32Arr _ \<Rightarrow> dt = AT_Uint32 | Uint64Arr _ \<Rightarrow> dt = AT_Uint64
     | Float32Arr vs \<Rightarrow> dt = AT_Float32 \<and> (\<forall>x. Some x \<in> set vs \<longrightarrow> \<not> is_NaN32 x)
     | Float64Arr _ \<Rightarrow> dt = AT_Float64
     | StringArr _ \<Rightarrow> dt = AT_String
     | BinaryArr _ \<Rightarrow> dt = AT_Binary
     | _ \<Rightarrow> False)"

section \<open>One column\<close>

lemma zero_not_NaN: "\<not> is_NaN32 0"
  by (simp add: is_NaN32_def magnitude_def)

lemma column_rows_spec:
  assumes "vec_Size vec = length vs"
    and "\<And>i. i < length vs \<Longrightarrow> IsNull vec (int i) = Done (vs ! i = None)"
    and "\<And>i x. i < length vs \<Longrightarrow> vs ! i = Some x \<Longrightarrow> outcome_bind (GetObject vec (int i)) F = Done (Inr (g x))"
  shows "column_rows F vec = Done (Inr (opt_cells g vs))"
proof -
  have "column_rows F vec = Done (Inr (map (\<lambda>i. case_option CNull g (vs ! i)) [0..<length vs]))"
    unfolding column_rows_def assms(1)
    by (rule collect_Inr) (use assms(2,3) in \<open>auto split: option.split\<close>)
  moreover have "map (\<lambda>i. case_option CNull g (vs ! i)) [0..<length vs] = opt_cells g vs"
    by (rule nth_equalityI) (simp_all add: opt_cells_def)
  ultimately show ?thesis by simp
qed

lemma arr_values_spec: "arr_values zero f vs (length vs) = Done (map (case_option zero f) vs)"
proof -
  have "arr_values zero f vs (length vs) = Done (map (\<lambda>i. case_option zero f (vs ! i)) [0..<length vs])"
    unfolding arr_values_def by (rule map_outcome_Done) (auto split: option.split)
  moreover have "map (\<lambda>i. case_option zero f (vs ! i)) [0..<length vs] = map (case_option zero f) vs"
    by (rule nth_equalityI) simp_all
  ultimately show ?thesis by simp
qed

text \<open>A column whose vector is typed, with a bitmap for its nulls.\<close>

definition nulls_of :: "validity \<Rightarrow> 'a option list \<Rightarrow> bool" where
  "nulls_of v vs \<longleftrightarrow> wf_validity v (length vs) \<and> (\<forall>i < length vs. row_valid v i \<longleftrightarrow> vs ! i \<noteq> None)"

lemma nulls_wf: "nulls_of v vs \<Longrightarrow> wf_nulls zero (map (case_option zero f) vs) v"
  by (auto simp: nulls_of_def wf_nulls_def)

lemma typed_rows:
  assumes "nulls_of v vs" "vec_Size vec = length vs" "IsNull vec = ValidityIsNull v"
    and "GetObject vec = typed_get box (map (case_option zero f) vs) v"
    and "\<And>x. Some x \<in> set vs \<Longrightarrow> F (box (f x)) = Done (Inr (g x))"
  shows "column_rows F vec = Done (Inr (opt_cells g vs))"
proof (rule column_rows_spec [OF assms(2)])
  fix i assume i: "i < length vs"
  then show "IsNull vec (int i) = Done (vs ! i = None)"
    using assms(1,3) by (auto simp: nulls_of_def IsNull_wf)
  fix x assume x: "vs ! i = Some x"
  then have "Some x \<in> set vs" using i nth_mem by metis
  then show "outcome_bind (GetObject vec (int i)) F = Done (Inr (g x))"
    using assms(1,4,5) i x by (auto simp: nulls_of_def typed_get_wf)
qed

lemma object_rows:
  assumes "\<And>x. box x \<noteq> VNil" "\<And>x. F (box x) = Done (Inr (g x))"
  shows "column_rows F (ObjectVec t (map (case_option VNil box) vs)) = Done (Inr (opt_cells g vs))"
  by (rule column_rows_spec) (use assms in \<open>auto split: option.split\<close>)

lemma promoted_words:
  "ucast (scast (ucast (x :: 8 word) :: 16 word) :: 64 word) = x"
  "ucast (scast (ucast (y :: 16 word) :: 32 word) :: 64 word) = y"
  "ucast (ucast (z :: 32 word) :: 64 word) = z"
  by (rule bit_word_eqI; auto simp: bit_simps)+

lemma promoted_fit:
  "take_bit 8 (ucast (x :: 8 word) :: 16 word) = ucast x"
  "take_bit 16 (ucast (y :: 16 word) :: 32 word) = ucast y"
  "take_bit 32 (ucast (z :: 32 word) :: 64 word) = ucast z"
  by (rule bit_word_eqI; auto simp: bit_simps dest: bit_imp_le_length)+

definition column_kept :: "arrow_lib \<Rightarrow> go_lib \<Rightarrow> arrow_type \<Rightarrow> arrow_array \<Rightarrow> LogicalType \<Rightarrow> DecodedVector \<Rightarrow> bool" where
  "column_kept alib lib dt col t vec \<longleftrightarrow> logicalTypeForArrow alib dt = Inr t \<and>
     decodedVectorForArrow alib t col (length (arr_valid col)) = Done (Inr vec) \<and> arrowType alib t = dt \<and> wf_lt t \<and>
     vec_Size vec = length (arr_valid col) \<and> column_ok t vec \<and> buildColumn alib lib dt t vec = Done (Inr (arr_cells col))"

lemmas kept_defs = logicalTypeForArrow_def decodedVectorForArrow_def arrowType.simps Of_def wf_lt.simps
  int_ok_def MaxInt_def column_ok_def GetPhysicalType_def needsObjectMaterialization_def buildColumn_def

text \<open>
  What the driver must do alike for every Arrow type that becomes a typed vector: which vector it builds,
  that the vector has the layout of the logical type, and which cell a boxed value is read back to.
\<close>

locale ingest_kind =
  fixes alib :: arrow_lib and lib :: go_lib and dt :: arrow_type and arr :: "'a option list \<Rightarrow> arrow_array"
    and t :: LogicalType and mk :: "LogicalType \<Rightarrow> 'b list \<Rightarrow> validity \<Rightarrow> DecodedVector"
    and zero :: 'b and f :: "'a \<Rightarrow> 'b" and box :: "'b \<Rightarrow> govalue" and F :: "govalue \<Rightarrow> (string + cell) outcome"
    and g :: "'a \<Rightarrow> cell" and ok :: "'a \<Rightarrow> bool"
  assumes types: "logicalTypeForArrow alib dt = Inr t \<and> arrowType alib t = dt \<and> wf_lt t"
    and array: "arr_valid (arr vs) = map (\<lambda>v. v \<noteq> None) vs \<and> arr_cells (arr vs) = opt_cells g vs"
    and encoded: "buildValidity (arr vs) n = Done v \<Longrightarrow> decodedVectorForArrow alib t (arr vs) n =
      outcome_bind (arr_values zero f vs n) (\<lambda>xs. Done (Inr (mk t xs v)))"
    and vector: "vec_Size (mk t xs v) = length xs \<and> IsNull (mk t xs v) = ValidityIsNull v \<and> GetObject (mk t xs v) = typed_get box xs v"
    and layout: "small_count (length vs) \<Longrightarrow> wf_nulls zero (map (case_option zero f) vs) v \<Longrightarrow> \<forall>x. Some x \<in> set vs \<longrightarrow> ok x \<Longrightarrow>
      column_ok t (mk t (map (case_option zero f) vs) v)"
    and read: "buildColumn alib lib dt t vec = column_rows F vec"
    and cell: "ok x \<Longrightarrow> F (box (f x)) = Done (Inr (g x))"
begin

lemma kept:
  assumes "small_count (length vs)" "\<forall>x. Some x \<in> set vs \<longrightarrow> ok x"
  shows "\<exists>t vec. column_kept alib lib dt (arr vs) t vec"
proof -
  let ?xs = "map (case_option zero f) vs"
  have len: "length (arr_valid (arr vs)) = length vs" by (simp add: array)
  then obtain v where v: "buildValidity (arr vs) (length vs) = Done v" "nulls_of v vs"
    using buildValidity_spec [of "length vs" "arr vs"] assms(1) by (auto simp: array nulls_of_def)
  have "column_rows F (mk t ?xs v) = Done (Inr (opt_cells g vs))"
    by (rule typed_rows [OF v(2)]) (use assms(2) vector cell in auto)
  moreover have "column_ok t (mk t ?xs v)"
    by (rule layout [OF assms(1) nulls_wf [OF v(2)] assms(2)])
  ultimately have "column_kept alib lib dt (arr vs) t (mk t ?xs v)"
    using types array vector read len encoded [OF v(1)] by (simp add: column_kept_def arr_values_spec)
  then show ?thesis by blast
qed

end

interpretation bool_kind: ingest_kind alib lib AT_Bool BooleanArr "Of LogicalTypeIDBoolean" BoolVec False id VBool
    "\<lambda>v. case v of VBool x \<Rightarrow> Done (Inr (CBool x)) | _ \<Rightarrow> Panic" CBool "\<lambda>_. True" for alib lib
  by unfold_locales (simp_all add: kept_defs fun_eq_iff)

interpretation int8_kind: ingest_kind alib lib AT_Int8 Int8Arr "Of LogicalTypeIDTinyInt" ByteVec 0 id VInt8
    "\<lambda>v. Done (Inr (CInt8 (toInt8 v)))" CInt8 "\<lambda>_. True" for alib lib
  by unfold_locales (simp_all add: kept_defs fun_eq_iff toInt8_def)

interpretation int16_kind: ingest_kind alib lib AT_Int16 Int16Arr "Of LogicalTypeIDSmallInt" ShortVec 0 id VInt16
    "\<lambda>v. Done (Inr (CInt16 (toInt16 v)))" CInt16 "\<lambda>_. True" for alib lib
  by unfold_locales (simp_all add: kept_defs fun_eq_iff toInt16_def)

interpretation int32_kind: ingest_kind alib lib AT_Int32 Int32Arr "Of LogicalTypeIDInteger" IntVec 0 id VInt32
    "\<lambda>v. Done (Inr (CInt32 (toInt32 v)))" CInt32 "\<lambda>_. True" for alib lib
  by unfold_locales (simp_all add: kept_defs fun_eq_iff toInt32_def)

interpretation int64_kind: ingest_kind alib lib AT_Int64 Int64Arr "Of LogicalTypeIDBigInt" LongVec 0 id VInt64
    "\<lambda>v. Done (Inr (CInt64 (toInt64_arrow v)))" CInt64 "\<lambda>_. True" for alib lib
  by unfold_locales (simp_all add: kept_defs fun_eq_iff toInt64_arrow_def)

interpretation uint8_kind: ingest_kind alib lib AT_Uint8 Uint8Arr "Of LogicalTypeIDUTinyInt" ShortVec 0 ucast VInt16
    "\<lambda>v. Done (Inr (CUint8 (ucast (toInt64_arrow v))))" CUint8 "\<lambda>_. True" for alib lib
  by unfold_locales (simp_all add: kept_defs fun_eq_iff toInt64_arrow_def promoted_words promoted_fit list_all_iff split: option.split)

interpretation uint16_kind: ingest_kind alib lib AT_Uint16 Uint16Arr "Of LogicalTypeIDUSmallInt" IntVec 0 ucast VInt32
    "\<lambda>v. Done (Inr (CUint16 (ucast (toInt64_arrow v))))" CUint16 "\<lambda>_. True" for alib lib
  by unfold_locales (simp_all add: kept_defs fun_eq_iff toInt64_arrow_def promoted_words promoted_fit list_all_iff split: option.split)

interpretation uint32_kind: ingest_kind alib lib AT_Uint32 Uint32Arr "Of LogicalTypeIDUInteger" LongVec 0 ucast VInt64
    "\<lambda>v. Done (Inr (CUint32 (ucast (toInt64_arrow v))))" CUint32 "\<lambda>_. True" for alib lib
  by unfold_locales (simp_all add: kept_defs fun_eq_iff toInt64_arrow_def promoted_words promoted_fit list_all_iff split: option.split)

interpretation uint64_kind: ingest_kind alib lib AT_Uint64 Uint64Arr "Of LogicalTypeIDUBigInt" LongVec 0 id VInt64
    "\<lambda>v. Done (Inr (CUint64 (toInt64_arrow v)))" CUint64 "\<lambda>_. True" for alib lib
  by unfold_locales (simp_all add: kept_defs fun_eq_iff toInt64_arrow_def)

interpretation float32_kind: ingest_kind alib lib AT_Float32 Float32Arr "Of LogicalTypeIDFloat" FloatVec 0 id VFloat32
    "\<lambda>v. Done (Inr (CFloat32 (float32_of_float64 (toFloat64_arrow v))))" CFloat32 "\<lambda>x. \<not> is_NaN32 x" for alib lib
  by unfold_locales (auto simp: kept_defs fun_eq_iff toFloat64_arrow_def float32_float64_float32 list_all_iff zero_not_NaN split: option.split)

interpretation float64_kind: ingest_kind alib lib AT_Float64 Float64Arr "Of LogicalTypeIDDouble" DoubleVec 0 id VFloat64
    "\<lambda>v. Done (Inr (CFloat64 (toFloat64_arrow v)))" CFloat64 "\<lambda>_. True" for alib lib
  by unfold_locales (simp_all add: kept_defs fun_eq_iff toFloat64_arrow_def)

text \<open>Strings and blobs become boxed values; a null is a nil.\<close>

lemma object_kept:
  assumes "arr_valid col = map (\<lambda>v. v \<noteq> None) vs" "small_count (length vs)" "\<And>x. box x \<noteq> VNil"
    and "logicalTypeForArrow alib dt = Inr t \<and> arrowType alib t = dt \<and> wf_lt t" "arr_cells col = opt_cells g vs"
    and "\<And>v. buildValidity col (length vs) = Done v \<Longrightarrow> decodedVectorForArrow alib t col (length vs) =
      outcome_bind (arr_values VNil box vs (length vs)) (\<lambda>xs. Done (Inr (ObjectVec t xs)))"
    and "GetPhysicalType t = PhysicalTypeVarchar" "\<And>x. string_like t (box x)"
    and "\<And>vec. buildColumn alib lib dt t vec = column_rows F vec" "\<And>x. F (box x) = Done (Inr (g x))"
  shows "\<exists>t vec. column_kept alib lib dt col t vec"
proof -
  let ?vec = "ObjectVec t (map (case_option VNil box) vs)"
  obtain v where "buildValidity col (length vs) = Done v"
    using buildValidity_spec [of "length vs" col] assms(1,2) by auto
  then have "decodedVectorForArrow alib t col (length vs) = Done (Inr ?vec)"
    using assms(6) by (simp add: arr_values_spec)
  moreover have "column_ok t ?vec"
  proof -
    have "string_like t VNil" by (simp add: string_like_def)
    then have "list_all (string_like t) (map (case_option VNil box) vs)"
      using assms(8) by (auto simp: list_all_iff split: option.split)
    then show ?thesis using assms(2,7) by (simp add: column_ok_def)
  qed
  moreover have "buildColumn alib lib dt t ?vec = Done (Inr (arr_cells col))"
    using object_rows [of box F g t vs] assms(3,5,9,10) by simp
  ultimately have "column_kept alib lib dt col t ?vec"
    using assms(1,4) by (simp add: column_kept_def)
  then show ?thesis by blast
qed

lemma string_kept: "small_count (length vs) \<Longrightarrow> \<exists>t vec. column_kept alib lib AT_String (StringArr vs) t vec"
  by (rule object_kept [where box = VString and t = "Of LogicalTypeIDVarchar" and vs = vs and F = "\<lambda>v. Done (Inr (CString (sprint_v lib v)))" and g = CString])
    (simp_all add: kept_defs string_like_def sprint_v_def)

lemma binary_kept: "small_count (length vs) \<Longrightarrow> \<exists>t vec. column_kept alib lib AT_Binary (BinaryArr vs) t vec"
  by (rule object_kept [where box = VBytes and t = "Of LogicalTypeIDBlob" and vs = vs
        and F = "\<lambda>v. Done (Inr (CBinary (case v of VBytes x \<Rightarrow> x | _ \<Rightarrow> bytes_of_string (sprint_v lib v))))" and g = CBinary])
    (simp_all add: kept_defs string_like_def)

lemma ingest_column:
  assumes "ingestable dt col" "small_count (length (arr_valid col))"
  shows "\<exists>t vec. column_kept alib lib dt col t vec"
  using assms
  by (cases col)
    (simp_all add: ingestable_def bool_kind.kept int8_kind.kept int16_kind.kept int32_kind.kept int64_kind.kept uint8_kind.kept
      uint16_kind.kept uint32_kind.kept uint64_kind.kept float32_kind.kept float64_kind.kept string_kept binary_kept)

section \<open>Batches\<close>

definition batch_ok :: "arrow_batch \<Rightarrow> bool" where
  "batch_ok rec \<longleftrightarrow> small_count (b_NumRows rec) \<and>
     list_all2 (\<lambda>f col. ingestable (f_Type f) col \<and> length (arr_valid col) = b_NumRows rec) (b_Fields rec) (b_Columns rec)"

lemma length_arr_cells: "ingestable dt col \<Longrightarrow> length (arr_cells col) = length (arr_valid col)"
  by (cases col) (simp_all add: ingestable_def opt_cells_def)

theorem ingest_batch:
  assumes "batch_ok rec"
  shows "\<exists>chunk. chunkFromRecord alib rec = Done (Inr chunk) \<and> chunk_ok chunk \<and> RowCount chunk = int (b_NumRows rec) \<and>
    RecordFromChunk alib lib (map f_Name (b_Fields rec)) chunk = Done (Inr
      \<lparr>rec_Fields = map (\<lambda>f. Field (f_Name f) (f_Type f) True) (b_Fields rec), rec_Columns = map arr_cells (b_Columns rec)\<rparr>)"
proof -
  let ?fs = "b_Fields rec" and ?cols = "b_Columns rec" and ?n = "b_NumRows rec"
  let ?m = "length ?fs"
  have m: "length ?cols = ?m" and ok: "\<And>i. i < ?m \<Longrightarrow> ingestable (f_Type (?fs ! i)) (?cols ! i) \<and> length (arr_valid (?cols ! i)) = ?n"
    using assms by (auto simp: batch_ok_def list_all2_conv_all_nth)
  have "\<forall>i < ?m. \<exists>p. column_kept alib lib (f_Type (?fs ! i)) (?cols ! i) (fst p) (snd p)"
    using ingest_column [of _ _ alib lib] ok assms by (auto simp: batch_ok_def)
  then obtain p where p: "\<And>i. i < ?m \<Longrightarrow> column_kept alib lib (f_Type (?fs ! i)) (?cols ! i) (fst (p i)) (snd (p i))"
    by metis
  let ?tv = "map p [0..<?m]"
  let ?chunk = "\<lparr>RowCount = int ?n, Types = map fst ?tv, Columns = map (Some \<circ> snd) ?tv\<rparr>"
  have "collect (\<lambda>(i, field). case logicalTypeForArrow alib (f_Type field) of
          Inl e \<Rightarrow> Done (Inl (''column '' @ Quote (f_Name field) @ '': '' @ e))
        | Inr t \<Rightarrow> outcome_bind (index_at ?cols (int i)) (\<lambda>col.
            outcome_bind (decodedVectorForArrow alib t col ?n) (\<lambda>r.
            Done (map_sum (\<lambda>e. ''column '' @ Quote (f_Name field) @ '': '' @ e) (\<lambda>v. (t, v)) r))))
       (enumerate 0 ?fs) = Done (Inr ?tv)"
    using p ok m by (simp add: collect_eq_Inr column_kept_def nth_enumerate_eq)
  then have chunk: "chunkFromRecord alib rec = Done (Inr ?chunk)" by (simp add: chunkFromRecord_def)
  have ck: "chunk_ok ?chunk"
    using p ok assms by (auto simp: chunk_ok_def batch_ok_def small_count_def column_kept_def list_all2_conv_all_nth list_all_length)
  let ?flds = "map (\<lambda>f. Field (f_Name f) (f_Type f) True) ?fs"
  have schema: "SchemaFromColumns alib (map f_Name ?fs) (Types ?chunk) = Done ?flds"
    unfolding SchemaFromColumns_def map_outcome_eq_Done using p by (auto simp: column_kept_def)
  have cells: "collect (\<lambda>(col, vec).
         outcome_bind (index_at ?flds (int col)) (\<lambda>f.
         outcome_bind (index_at (Types ?chunk) (int col)) (\<lambda>t.
         case vec of None \<Rightarrow> Panic
         | Some vec \<Rightarrow> outcome_bind (buildColumn alib lib (f_Type f) t vec)
             (\<lambda>r. Done (map_sum (\<lambda>e. ''column '' @ Quote (map f_Name ?fs ! col) @ '' ('' @ LogicalTypeID_String (lt_ID t) @ ''): '' @ e) id r)))))
       (enumerate 0 (Columns ?chunk)) = Done (Inr (map arr_cells ?cols))"
    unfolding collect_eq_Inr using p m by (auto simp: column_kept_def nth_enumerate_eq)
  have "\<forall>c \<in> set (map arr_cells ?cols). length c = ?n"
    using ok m by (auto simp: in_set_conv_nth) (metis length_arr_cells)
  then have "NewRecord ?flds (map arr_cells ?cols) = Done \<lparr>rec_Fields = ?flds, rec_Columns = map arr_cells ?cols\<rparr>"
    using m by (cases "map arr_cells ?cols") (auto simp: NewRecord_def list_all_iff)
  then have "RecordFromChunk alib lib (map f_Name ?fs) ?chunk = Done (Inr \<lparr>rec_Fields = ?flds, rec_Columns = map arr_cells ?cols\<rparr>)"
    unfolding RecordFromChunk_def schema using cells by simp
  then show ?thesis using chunk ck by (intro exI [of _ ?chunk]) simp
qed

end
