(* ===== verification/GoCalendar.thy ===== *)
theory GoCalendar
  imports GoTime GoStrings
begin

text \<open>
  What the driver uses of \<^verbatim>\<open>Time.Format\<close>: the Gregorian date of a Unix day, computed as the library does (cycles of
  400, 100, 4 and 1 years), and the three layouts of \<^verbatim>\<open>driver/quack/params.go\<close>.
\<close>

section \<open>Dates\<close>

definition leap_year :: "int \<Rightarrow> bool" where
  "leap_year y \<longleftrightarrow> y mod 4 = 0 \<and> (y mod 100 \<noteq> 0 \<or> y mod 400 = 0)"

definition month_lengths :: "int \<Rightarrow> int list" where
  "month_lengths y = [31, if leap_year y then 29 else 28, 31, 30, 31, 30, 31, 31, 30, 31, 30, 31]"

text \<open>The year of a day counted from 0001-01-01, and the day in it.\<close>

definition year_of :: "int \<Rightarrow> int \<times> int" where
  "year_of n = (let n400 = n div 146097; d = n mod 146097;
      n100 = min 3 (d div 36524); d = d - n100 * 36524;
      n4 = d div 1461; d = d mod 1461;
      n1 = min 3 (d div 365)
    in (400 * n400 + 100 * n100 + 4 * n4 + n1 + 1, d - n1 * 365))"

text \<open>The month, from 1, and the day of it.\<close>

fun month_of :: "int list \<Rightarrow> int \<Rightarrow> int \<Rightarrow> int \<times> int" where
  "month_of (l # ls) m d = (if d < l \<or> ls = [] then (m, d + 1) else month_of ls (m + 1) (d - l))"
| "month_of [] m d = (m, d + 1)"

definition civil_of_day :: "int \<Rightarrow> int \<times> int \<times> int" where
  "civil_of_day n = (let (y, d) = year_of (n + 719162) in (y, month_of (month_lengths y) 1 d))"

section \<open>The calendar\<close>

text \<open>The number of days before a year and before a month: the reference for the conversion.\<close>

definition days_before_year :: "int \<Rightarrow> int" where
  "days_before_year y = 365 * (y - 1) + (y - 1) div 4 - (y - 1) div 100 + (y - 1) div 400"

definition valid_date :: "int \<Rightarrow> int \<Rightarrow> int \<Rightarrow> bool" where
  "valid_date y m d \<longleftrightarrow> 1 \<le> m \<and> m \<le> 12 \<and> 1 \<le> d \<and> d \<le> month_lengths y ! nat (m - 1)"

definition day_number :: "int \<Rightarrow> int \<Rightarrow> int \<Rightarrow> int" where
  "day_number y m d = days_before_year y + sum_list (take (nat (m - 1)) (month_lengths y)) + d - 1 - 719162"

lemma year_parts:
  assumes "0 \<le> b" "b \<le> 3" "0 \<le> c" "c \<le> 24" "0 \<le> e" "e \<le> (3 :: int)"
  shows "(400 * a + 100 * b + 4 * c + e) div 4 = 100 * a + 25 * b + c"
    and "(400 * a + 100 * b + 4 * c + e) div 100 = 4 * a + b" and "(400 * a + 100 * b + 4 * c + e) div 400 = a"
    and "(400 * a + 100 * b + 4 * c + e + 1) mod 4 = 0 \<longleftrightarrow> e = 3"
    and "(400 * a + 100 * b + 4 * c + e + 1) mod 100 = 0 \<longleftrightarrow> e = 3 \<and> c = 24"
    and "(400 * a + 100 * b + 4 * c + e + 1) mod 400 = 0 \<longleftrightarrow> e = 3 \<and> c = 24 \<and> b = 3"
proof -
  let ?x = "400 * a + 100 * b + 4 * c + e"
  show "?x div 4 = 100 * a + 25 * b + c" by (rule int_div_pos_eq [of _ _ _ e]) (use assms in simp_all)
  show "?x div 100 = 4 * a + b" by (rule int_div_pos_eq [of _ _ _ "4 * c + e"]) (use assms in simp_all)
  show "?x div 400 = a" by (rule int_div_pos_eq [of _ _ _ "100 * b + 4 * c + e"]) (use assms in simp_all)
  have 4: "(?x + 1) mod 4 = (if e = 3 then 0 else e + 1)"
    by (rule int_mod_pos_eq [of _ _ "100 * a + 25 * b + c + (if e = 3 then 1 else 0)"]) (use assms in auto)
  have 100: "(?x + 1) mod 100 = (if e = 3 \<and> c = 24 then 0 else 4 * c + e + 1)"
    by (rule int_mod_pos_eq [of _ _ "4 * a + b + (if e = 3 \<and> c = 24 then 1 else 0)"]) (use assms in auto)
  have 400: "(?x + 1) mod 400 = (if e = 3 \<and> c = 24 \<and> b = 3 then 0 else 100 * b + 4 * c + e + 1)"
    by (rule int_mod_pos_eq [of _ _ "a + (if e = 3 \<and> c = 24 \<and> b = 3 then 1 else 0)"]) (use assms in auto)
  show "(?x + 1) mod 4 = 0 \<longleftrightarrow> e = 3" "(?x + 1) mod 100 = 0 \<longleftrightarrow> e = 3 \<and> c = 24"
    "(?x + 1) mod 400 = 0 \<longleftrightarrow> e = 3 \<and> c = 24 \<and> b = 3"
    unfolding 4 100 400 using assms by auto
qed

lemma year_of_spec:
  assumes "year_of n = (y, d)"
  shows "days_before_year y + d = n \<and> 0 \<le> d \<and> d < (if leap_year y then 366 else 365)"
proof -
  define a where "a = n div 146097"
  define r where "r = n mod 146097"
  define b where "b = min 3 (r div 36524)"
  define s where "s = r - b * 36524"
  define c where "c = s div 1461"
  define t where "t = s mod 1461"
  define e where "e = min 3 (t div 365)"
  have y: "y = 400 * a + 100 * b + 4 * c + e + 1" "d = t - e * 365"
    using assms by (simp_all add: year_of_def Let_def a_def r_def b_def s_def c_def t_def e_def)
  have r: "0 \<le> r" "r < 146097" by (simp_all add: r_def)
  then have b: "0 \<le> b" "b \<le> 3" by (simp_all add: b_def)
  have s: "0 \<le> s" "s < 36525" "b < 3 \<longrightarrow> s < 36524" using r by (auto simp: s_def b_def min_def)
  have t: "0 \<le> t" "t < 1461" by (simp_all add: t_def)
  have c: "0 \<le> c" "c \<le> 24" using s by (simp_all add: c_def)
  have e: "0 \<le> e" "e \<le> 3" using t by (simp_all add: e_def)
  have n: "n = 146097 * a + 36524 * b + 1461 * c + t" by (simp add: a_def b_def c_def s_def t_def r_def)
  have d: "0 \<le> d" "d \<le> 365" "e < 3 \<longrightarrow> d < 365" using t by (auto simp: y(2) e_def min_def)
  have leap: "leap_year y \<longleftrightarrow> e = 3 \<and> (c \<noteq> 24 \<or> b = 3)"
    using year_parts(4-6) [OF b c e, of a] by (auto simp: leap_year_def y(1))
  have "c = 24 \<Longrightarrow> b < 3 \<Longrightarrow> t < 1460"
    using s(3) div_mult_mod_eq [of s 1461] by (simp add: c_def t_def)
  then have "d = 365 \<Longrightarrow> leap_year y" using d e b c y(2) by (cases "b = 3") (auto simp: leap)
  moreover have "days_before_year y + d = n"
    using year_parts(1-3) [OF b c e, of a] by (simp add: days_before_year_def y n algebra_simps)
  ultimately show ?thesis using d by (cases "d = 365") auto
qed

lemma month_of_spec:
  assumes "month_of ls m0 d = (m, dd)" "0 \<le> d" "d < sum_list ls"
  shows "m0 \<le> m \<and> nat (m - m0) < length ls \<and> 1 \<le> dd \<and> dd \<le> ls ! nat (m - m0) \<and> sum_list (take (nat (m - m0)) ls) + dd = d + 1"
  using assms
proof (induction ls m0 d rule: month_of.induct)
  case (1 l ls m0 d)
  show ?case
  proof (cases "d < l \<or> ls = []")
    case False
    then have IH: "m0 + 1 \<le> m \<and> nat (m - (m0 + 1)) < length ls \<and> 1 \<le> dd \<and> dd \<le> ls ! nat (m - (m0 + 1)) \<and>
        sum_list (take (nat (m - (m0 + 1))) ls) + dd = d - l + 1"
      using 1 by auto
    have k: "nat (m - m0) = Suc (nat (m - (m0 + 1)))" using conjunct1 [OF IH] by linarith
    show ?thesis unfolding k using IH by simp
  qed (use 1 in auto)
qed simp

theorem civil_of_day_spec:
  assumes "civil_of_day n = (y, m, d)"
  shows "valid_date y m d \<and> day_number y m d = n"
proof -
  obtain yd where yd: "year_of (n + 719162) = (y, yd)" "month_of (month_lengths y) 1 yd = (m, d)"
    using assms by (auto simp: civil_of_day_def Let_def split: prod.splits)
  have s: "days_before_year y + yd = n + 719162" "0 \<le> yd" "yd < sum_list (month_lengths y)"
    using year_of_spec [OF yd(1)] by (auto simp: month_lengths_def)
  from month_of_spec [OF yd(2) s(2,3)] show ?thesis
    using s(1) by (auto simp: valid_date_def day_number_def month_lengths_def)
qed

section \<open>Layouts\<close>

definition pad_left :: "nat \<Rightarrow> string \<Rightarrow> string" where
  "pad_left w s = replicate (w - length s) CHR ''0'' @ s"

definition two_digits :: "int \<Rightarrow> string" where
  "two_digits n = pad_left 2 (show_nat (nat n))"

text \<open>\<^verbatim>\<open>2006\<close>, \<^verbatim>\<open>2006-01-02\<close>, \<^verbatim>\<open>15:04:05.999999999\<close> and \<^verbatim>\<open>-07:00\<close>.\<close>

definition format_year :: "int \<Rightarrow> string" where
  "format_year y = (if y < 0 then ''-'' else []) @ pad_left 4 (show_nat (nat \<bar>y\<bar>))"

definition format_date :: "go_time \<Rightarrow> string" where
  "format_date t = (let (y, m, d) = civil_of_day (t_sec t div 86400) in format_year y @ ''-'' @ two_digits m @ ''-'' @ two_digits d)"

definition format_fraction :: "int \<Rightarrow> string" where
  "format_fraction ns = (let s = rev (dropWhile (\<lambda>c. c = CHR ''0'') (rev (pad_left 9 (show_nat (nat ns)))))
     in if s = [] then [] else ''.'' @ s)"

definition format_clock :: "go_time \<Rightarrow> string" where
  "format_clock t = two_digits (time_Hour t) @ '':'' @ two_digits (time_Minute t) @ '':'' @ two_digits (time_Second t) @ format_fraction (t_nsec t)"

definition format_offset :: "int \<Rightarrow> string" where
  "format_offset secs = (let m = secs sdiv 60 in (if m < 0 then ''-'' else ''+'') @ two_digits (\<bar>m\<bar> div 60) @ '':'' @ two_digits (\<bar>m\<bar> mod 60))"

end
