(* ===== verification/RecordReader.thy ===== *)
theory RecordReader
  imports Cursors ArrowConv
begin

text \<open>
  \<^verbatim>\<open>driver/quack/record_reader.go\<close>: the streaming reader that pulls one chunk at a time from a cursor and
  converts it.  The release of the records themselves (Arrow memory) is not modelled.
\<close>

record streamingRecordReader =
  rr_cursor :: cursor
  rr_schema :: "arrow_field list"
  rr_colNames :: "string list"
  rr_current :: "arrow_record option"
  rr_err :: "go_error option"
  rr_refs :: int
  rr_done :: bool

definition newStreamingRecordReader :: "arrow_lib \<Rightarrow> cursor \<Rightarrow> streamingRecordReader outcome" where
  "newStreamingRecordReader alib cur = outcome_bind (SchemaFromColumns alib (columnNames cur) (columnTypes cur)) (\<lambda>schema.
     Done \<lparr>rr_cursor = cur, rr_schema = schema, rr_colNames = columnNames cur, rr_current = None, rr_err = None, rr_refs = 1, rr_done = False\<rparr>)"

text \<open>The counter is an atomic \<^verbatim>\<open>int64\<close>; the release that brings it to zero closes the cursor.\<close>

definition Retain :: "streamingRecordReader \<Rightarrow> streamingRecordReader" where
  "Retain rr = rr\<lparr>rr_refs := wrap64 (rr_refs rr + 1)\<rparr>"

definition Release :: "streamingRecordReader \<Rightarrow> streamingRecordReader" where
  "Release rr = (let rr = rr\<lparr>rr_refs := wrap64 (rr_refs rr - 1)\<rparr> in
     if rr_refs rr \<noteq> 0 then rr else rr\<lparr>rr_current := None, rr_cursor := close_cursor (rr_cursor rr)\<rparr>)"

definition reader_Schema :: "streamingRecordReader \<Rightarrow> arrow_field list" where
  "reader_Schema rr = rr_schema rr"

definition RecordBatch :: "streamingRecordReader \<Rightarrow> arrow_record option" where
  "RecordBatch rr = rr_current rr"

definition reader_Err :: "streamingRecordReader \<Rightarrow> go_error option" where
  "reader_Err rr = rr_err rr"

text \<open>The loop of \<^verbatim>\<open>Next\<close> skips empty chunks; \<open>n\<close> bounds the chunks it looks at.\<close>

primrec Next_loop :: "arrow_lib \<Rightarrow> go_lib \<Rightarrow> 'w transport \<Rightarrow> nat \<Rightarrow> streamingRecordReader \<Rightarrow> 'w session
    \<Rightarrow> ((bool \<times> streamingRecordReader) \<times> 'w session) outcome" where
  "Next_loop alib lib send 0 rr s = OutOfFuel"
| "Next_loop alib lib send (Suc n) rr s = outcome_bind (nextChunk send (rr_cursor rr) s) (\<lambda>(r, s). case r of
       Inl e \<Rightarrow> Done ((False, rr\<lparr>rr_err := Some e\<rparr>), s)
     | Inr (None, c) \<Rightarrow> Done ((False, rr\<lparr>rr_cursor := c, rr_done := True\<rparr>), s)
     | Inr (Some chunk, c) \<Rightarrow>
         (let rr = rr\<lparr>rr_cursor := c\<rparr> in
          if RowCount chunk = 0 then Next_loop alib lib send n rr s
          else outcome_bind (RecordFromChunk alib lib (rr_colNames rr) chunk) (\<lambda>r. case r of
              Inl e \<Rightarrow> Done ((False, rr\<lparr>rr_err := Some (errorf e)\<rparr>), s)
            | Inr rec \<Rightarrow> Done ((True, rr\<lparr>rr_current := Some rec\<rparr>), s))))"

definition Next :: "arrow_lib \<Rightarrow> go_lib \<Rightarrow> 'w transport \<Rightarrow> nat \<Rightarrow> streamingRecordReader \<Rightarrow> 'w session
    \<Rightarrow> ((bool \<times> streamingRecordReader) \<times> 'w session) outcome" where
  "Next alib lib send n rr s =
     (if rr_err rr \<noteq> None \<or> rr_done rr then Done ((False, rr), s)
      else Next_loop alib lib send n (rr\<lparr>rr_current := None\<rparr>) s)"

section \<open>What a consumer sees\<close>

text \<open>Calling \<open>Next\<close> until it returns false, keeping the record of every call that returned true.\<close>

primrec read_records :: "arrow_lib \<Rightarrow> go_lib \<Rightarrow> 'w transport \<Rightarrow> nat \<Rightarrow> nat \<Rightarrow> streamingRecordReader \<Rightarrow> 'w session
    \<Rightarrow> ((arrow_record option list \<times> streamingRecordReader) \<times> 'w session) outcome" where
  "read_records alib lib send n 0 rr s = OutOfFuel"
| "read_records alib lib send n (Suc k) rr s = outcome_bind (Next alib lib send n rr s) (\<lambda>((more_rows, rr), s).
     if more_rows then outcome_bind (read_records alib lib send n k rr s) (\<lambda>((rs, rr'), s). Done ((rr_current rr # rs, rr'), s))
     else Done (([], rr), s))"

lemma read_chunks_Nil:
  assumes "read_chunks send n c s = Done (Inr ([], c'), s')"
  shows "nextChunk send c s = Done (Inr (None, c'), s')"
  using assms by (cases n) (auto simp: sbind_Done split: option.splits)

lemma read_chunks_Cons:
  assumes "read_chunks send n c s = Done (Inr (x # xs, c'), s')"
  shows "\<exists>m c1 s1. nextChunk send c s = Done (Inr (Some x, c1), s1) \<and> read_chunks send m c1 s1 = Done (Inr (xs, c'), s')"
  using assms by (cases n) (auto simp: sbind_Done split: option.splits, blast)

lemma read_chunks_skip:
  assumes "read_chunks send m c s = Done (Inr (xs, c'), s')" "length xs < n" "rr_cursor rr = c" "list_all (\<lambda>x. RowCount x = 0) xs"
  shows "Next_loop alib lib send n rr s = Done ((False, rr\<lparr>rr_cursor := c', rr_done := True\<rparr>), s')"
  using assms
proof (induction xs arbitrary: m c s n rr)
  case Nil
  then show ?case using read_chunks_Nil [OF Nil.prems(1)] by (cases n) simp_all
next
  case (Cons x xs)
  from read_chunks_Cons [OF Cons.prems(1)] obtain m1 c1 s1 where
    1: "nextChunk send c s = Done (Inr (Some x, c1), s1)" "read_chunks send m1 c1 s1 = Done (Inr (xs, c'), s')" by blast
  obtain k where k: "n = Suc k" "length xs < k" using Cons.prems(2) by (cases n) auto
  show ?case using Cons.IH [OF 1(2) k(2), of "rr\<lparr>rr_cursor := c1\<rparr>"] Cons.prems 1(1) k(1) by simp
qed

lemma read_chunks_next:
  assumes "read_chunks send m c s = Done (Inr (es @ x # xs, c'), s')" "length es < n" "rr_cursor rr = c"
    and "list_all (\<lambda>x. RowCount x = 0) es" "RowCount x \<noteq> 0" "RecordFromChunk alib lib (rr_colNames rr) x = Done (Inr r)"
  shows "\<exists>m1 c1 s1. Next_loop alib lib send n rr s = Done ((True, rr\<lparr>rr_cursor := c1, rr_current := Some r\<rparr>), s1) \<and>
    read_chunks send m1 c1 s1 = Done (Inr (xs, c'), s')"
  using assms
proof (induction es arbitrary: m c s n rr)
  case Nil
  from read_chunks_Cons [OF Nil.prems(1) [simplified]] obtain m1 c1 s1 where
    "nextChunk send c s = Done (Inr (Some x, c1), s1)" "read_chunks send m1 c1 s1 = Done (Inr (xs, c'), s')" by blast
  moreover obtain k where "n = Suc k" using Nil.prems(2) by (cases n) auto
  ultimately show ?case using Nil.prems(3-) by (intro exI [of _ m1] exI [of _ c1] exI [of _ s1]) simp
next
  case (Cons e es)
  from read_chunks_Cons [OF Cons.prems(1) [simplified]] obtain m1 c1 s1 where
    1: "nextChunk send c s = Done (Inr (Some e, c1), s1)" "read_chunks send m1 c1 s1 = Done (Inr (es @ x # xs, c'), s')" by blast
  obtain k where k: "n = Suc k" "length es < k" using Cons.prems(2) by (cases n) auto
  show ?case using Cons.IH [OF 1(2) k(2), of "rr\<lparr>rr_cursor := c1\<rparr>"] Cons.prems 1(1) k(1) by simp
qed

text \<open>Every chunk with rows is one record, in order, and then the reader is done without an error.\<close>

definition is_done :: "streamingRecordReader \<Rightarrow> cursor \<Rightarrow> bool" where
  "is_done rr c \<longleftrightarrow> rr_done rr \<and> rr_err rr = None \<and> rr_cursor rr = c"

lemma read_records_chunks:
  assumes "read_chunks send m c s = Done (Inr (xs, c'), s')" "rr_cursor rr = c" "rr_err rr = None" "\<not> rr_done rr"
    and "length xs < n" "length xs < k"
    and "\<And>x. x \<in> set xs \<Longrightarrow> RowCount x \<noteq> 0 \<Longrightarrow> RecordFromChunk alib lib (rr_colNames rr) x = Done (Inr (conv x))"
  shows "\<exists>rr'. read_records alib lib send n k rr s =
    Done ((map (Some \<circ> conv) (filter (\<lambda>x. RowCount x \<noteq> 0) xs), rr'), s') \<and> is_done rr' c'"
  using assms
proof (induction k arbitrary: m c s xs rr)
  case (Suc k)
  let ?rr = "rr\<lparr>rr_current := None\<rparr>"
  show ?case
  proof (cases "list_all (\<lambda>x. RowCount x = 0) xs")
    case True
    have "Next_loop alib lib send n ?rr s = Done ((False, ?rr\<lparr>rr_cursor := c', rr_done := True\<rparr>), s')"
      by (rule read_chunks_skip [OF Suc.prems(1,5)]) (use Suc.prems True in simp_all)
    moreover have "filter (\<lambda>x. RowCount x \<noteq> 0) xs = []" using True by (simp add: filter_empty_conv list_all_iff)
    ultimately show ?thesis using Suc.prems by (simp add: Next_def is_done_def)
  next
    case False
    then obtain es x ys where xs: "xs = es @ x # ys" "RowCount x \<noteq> 0" "list_all (\<lambda>x. RowCount x = 0) es"
      using split_list_first_prop [of xs "\<lambda>x. RowCount x \<noteq> 0"] by (auto simp: list_all_iff)
    have "\<exists>m1 c1 s1. Next_loop alib lib send n ?rr s = Done ((True, ?rr\<lparr>rr_cursor := c1, rr_current := Some (conv x)\<rparr>), s1) \<and>
        read_chunks send m1 c1 s1 = Done (Inr (ys, c'), s')"
      by (rule read_chunks_next [OF Suc.prems(1) [unfolded xs(1)]]) (use Suc.prems xs in simp_all)
    then obtain m1 c1 s1 where 1: "Next_loop alib lib send n ?rr s = Done ((True, ?rr\<lparr>rr_cursor := c1, rr_current := Some (conv x)\<rparr>), s1)"
        "read_chunks send m1 c1 s1 = Done (Inr (ys, c'), s')" by blast
    let ?r1 = "?rr\<lparr>rr_cursor := c1, rr_current := Some (conv x)\<rparr>"
    have "\<exists>rr'. read_records alib lib send n k ?r1 s1 =
        Done ((map (Some \<circ> conv) (filter (\<lambda>x. RowCount x \<noteq> 0) ys), rr'), s') \<and> is_done rr' c'"
      by (rule Suc.IH [OF 1(2)]) (use Suc.prems xs in simp_all)
    moreover have "filter (\<lambda>x. RowCount x \<noteq> 0) es = []" using xs(3) by (simp add: filter_empty_conv list_all_iff)
    ultimately show ?thesis using Suc.prems 1(1) xs by (auto simp: Next_def)
  qed
qed simp

end
