(* ===== verification/Adbc.thy ===== *)
theory Adbc
  imports Session
begin

text \<open>
  Errors and option names of the ADBC surface (\<^verbatim>\<open>driver/quack/driver.go\<close>).  The names are those of \<^verbatim>\<open>adbc.h\<close> in
  \<^verbatim>\<open>src/pkg/quack\<close>, which the Go constants of the \<^verbatim>\<open>adbc\<close> package repeat.
\<close>

datatype adbc_status =
    StatusNotImplemented | StatusNotFound | StatusAlreadyExists | StatusInvalidArgument
  | StatusInvalidState | StatusInternal | StatusIO

text \<open>
  An \<^verbatim>\<open>adbc.Error\<close>, or another Go error that is passed on as it is.  \<open>BadURI\<close> is the \<open>StatusInvalidArgument\<close> error
  that prints an error of \<^verbatim>\<open>ParseURI\<close>.
\<close>

datatype drv_error = AdbcError adbc_status string | BadURI uri_error | GoError go_error

definition errStatus :: "adbc_status \<Rightarrow> string \<Rightarrow> drv_error" where
  "errStatus code msg = AdbcError code msg"

definition fromTransportError :: "go_error \<Rightarrow> drv_error" where
  "fromTransportError e = (case e_server e of
       Some msg \<Rightarrow> AdbcError StatusInternal msg
     | None \<Rightarrow> AdbcError StatusIO (e_text e))"

definition OptionURI :: string where "OptionURI = ''uri''"
definition OptionKeyAutoCommit :: string where "OptionKeyAutoCommit = ''adbc.connection.autocommit''"
definition OptionValueEnabled :: string where "OptionValueEnabled = ''true''"
definition OptionValueDisabled :: string where "OptionValueDisabled = ''false''"
definition OptionKeyIngestTargetTable :: string where "OptionKeyIngestTargetTable = ''adbc.ingest.target_table''"
definition OptionValueIngestTargetDBSchema :: string where "OptionValueIngestTargetDBSchema = ''adbc.ingest.target_db_schema''"
definition OptionKeyIngestMode :: string where "OptionKeyIngestMode = ''adbc.ingest.mode''"
definition OptionValueIngestModeCreate :: string where "OptionValueIngestModeCreate = ''adbc.ingest.mode.create''"
definition OptionValueIngestModeAppend :: string where "OptionValueIngestModeAppend = ''adbc.ingest.mode.append''"
definition OptionValueIngestModeReplace :: string where "OptionValueIngestModeReplace = ''adbc.ingest.mode.replace''"
definition OptionValueIngestModeCreateAppend :: string where "OptionValueIngestModeCreateAppend = ''adbc.ingest.mode.create_append''"
definition OptionValueIngestTemporary :: string where "OptionValueIngestTemporary = ''adbc.ingest.temporary''"

lemmas option_names = OptionURI_def OptionKeyAutoCommit_def OptionValueEnabled_def OptionValueDisabled_def
  OptionKeyIngestTargetTable_def OptionValueIngestTargetDBSchema_def OptionKeyIngestMode_def
  OptionValueIngestModeCreate_def OptionValueIngestModeAppend_def OptionValueIngestModeReplace_def
  OptionValueIngestModeCreateAppend_def OptionValueIngestTemporary_def

end
