(* ===== verification/Binding.thy ===== *)
theory Binding
  imports Arrow Sql GoCalendar Adbc
begin

text \<open>
  The bound rows of \<^verbatim>\<open>driver/quack/params.go\<close>: the values of a record batch or a stream as SQL scalars.  Times
  become typed literals in the layouts of \<open>GoCalendar\<close>.
\<close>

definition zoned :: "int \<Rightarrow> go_time \<Rightarrow> go_time" where
  "zoned off t = t\<lparr>t_sec := t_sec t + off\<rparr>"

definition date_literal :: "go_time \<Rightarrow> sql_value" where
  "date_literal t = SqlKeyword (''DATE '' @ [quote] @ format_date t @ [quote])"

definition time_literal :: "go_time \<Rightarrow> sql_value" where
  "time_literal t = SqlKeyword (''TIME '' @ [quote] @ format_clock t @ [quote])"

definition timestamp_literal :: "arrow_lib \<Rightarrow> string \<Rightarrow> go_time \<Rightarrow> sql_value" where
  "timestamp_literal alib tz t =
     (if tz \<noteq> [] then
        (let off = (case GetZone alib tz of None \<Rightarrow> 0 | Some f \<Rightarrow> f t); l = zoned off t
         in SqlKeyword (''TIMESTAMPTZ '' @ [quote] @ format_date l @ '' '' @ format_clock l @ format_offset off @ [quote]))
      else SqlKeyword (''TIMESTAMP '' @ [quote] @ format_date t @ '' '' @ format_clock t @ [quote]))"

text \<open>\<^verbatim>\<open>a.Value(i)\<close> at a row that is not null.\<close>

definition at_row :: "'a option list \<Rightarrow> int \<Rightarrow> ('a \<Rightarrow> sql_value) \<Rightarrow> (string + sql_value) outcome" where
  "at_row vs i f = outcome_bind (index_at vs i) (\<lambda>v. Done (Inr (case v of None \<Rightarrow> SqlNil | Some x \<Rightarrow> f x)))"

fun scalarAt :: "arrow_lib \<Rightarrow> arrow_array \<Rightarrow> int \<Rightarrow> (string + sql_value) outcome" where
  "scalarAt alib (BooleanArr vs) i = at_row vs i SqlBool"
| "scalarAt alib (Int8Arr vs) i = at_row vs i (SqlInt64 \<circ> scast)"
| "scalarAt alib (Int16Arr vs) i = at_row vs i (SqlInt64 \<circ> scast)"
| "scalarAt alib (Int32Arr vs) i = at_row vs i (SqlInt64 \<circ> scast)"
| "scalarAt alib (Int64Arr vs) i = at_row vs i SqlInt64"
| "scalarAt alib (Uint8Arr vs) i = at_row vs i (SqlUint64 \<circ> ucast)"
| "scalarAt alib (Uint16Arr vs) i = at_row vs i (SqlUint64 \<circ> ucast)"
| "scalarAt alib (Uint32Arr vs) i = at_row vs i (SqlUint64 \<circ> ucast)"
| "scalarAt alib (Uint64Arr vs) i = at_row vs i SqlUint64"
| "scalarAt alib (Float32Arr vs) i = at_row vs i (SqlFloat64 \<circ> float64_of_float32)"
| "scalarAt alib (Float64Arr vs) i = at_row vs i SqlFloat64"
| "scalarAt alib (StringArr vs) i = at_row vs i SqlString"
| "scalarAt alib (LargeStringArr vs) i = at_row vs i SqlString"
| "scalarAt alib (StringViewArr vs) i = at_row vs i SqlString"
| "scalarAt alib (BinaryArr vs) i = at_row vs i SqlBytes"
| "scalarAt alib (LargeBinaryArr vs) i = at_row vs i SqlBytes"
| "scalarAt alib (FixedSizeBinaryArr _ vs) i = at_row vs i SqlBytes"
| "scalarAt alib (Decimal128Arr _ scale vs) i = at_row vs i (\<lambda>x. SqlKeyword (decimalLiteral x scale))"
| "scalarAt alib (Decimal256Arr _ scale vs) i = at_row vs i (\<lambda>x. SqlKeyword (decimalLiteral x scale))"
| "scalarAt alib (Date32Arr vs) i = at_row vs i (date_literal \<circ> Date32_ToTime alib)"
| "scalarAt alib (Date64Arr vs) i = at_row vs i (date_literal \<circ> Date64_ToTime alib)"
| "scalarAt alib (Time32Arr u vs) i = at_row vs i (time_literal \<circ> Time32_ToTime alib u)"
| "scalarAt alib (Time64Arr u vs) i = at_row vs i (time_literal \<circ> Time64_ToTime alib u)"
| "scalarAt alib (TimestampArr u tz vs) i = at_row vs i (timestamp_literal alib tz \<circ> Timestamp_ToTime alib u)"
| "scalarAt alib (DictionaryArr values_arr vs) i = outcome_bind (index_at vs i) (\<lambda>v. case v of
       None \<Rightarrow> Done (Inr SqlNil)
     | Some k \<Rightarrow> scalarAt alib values_arr k)"
| "scalarAt alib (NullArr n) i = outcome_bind (index_at (replicate n ()) i) (\<lambda>_. Done (Inr SqlNil))"
| "scalarAt alib (OtherArr t valid) i = outcome_bind (index_at valid i) (\<lambda>v.
     Done (if v then Inl (''cannot bind Arrow type '' @ DataTypeName alib (OtherArr t valid)) else Inr SqlNil))"

text \<open>The rows of one batch: the cells of row \<open>r\<close> in the order of the columns.\<close>

definition batch_rows :: "arrow_lib \<Rightarrow> arrow_batch \<Rightarrow> (string + sql_value list list) outcome" where
  "batch_rows alib rec = collect (\<lambda>r. collect (\<lambda>(c, col).
       outcome_bind (scalarAt alib col (int r)) (\<lambda>x. Done (map_sum
         (\<lambda>e. ''column '' @ Quote (f_Name (b_Fields rec ! c)) @ '': '' @ e) id x)))
     (enumerate 0 (b_Columns rec))) [0..<b_NumRows rec]"

definition boundRows :: "arrow_lib \<Rightarrow> arrow_batch option \<Rightarrow> arrow_stream option \<Rightarrow> (drv_error + sql_value list list) outcome" where
  "boundRows alib bnd stream =
     outcome_bind (collect (batch_rows alib) (case bnd of None \<Rightarrow> [] | Some rec \<Rightarrow> [rec])) (\<lambda>r. case r of
       Inl e \<Rightarrow> Done (Inl (errStatus StatusInvalidArgument (''bind: '' @ e)))
     | Inr rows \<Rightarrow> (case stream of
         None \<Rightarrow> Done (Inr (concat rows))
       | Some rs \<Rightarrow> outcome_bind (collect (batch_rows alib) (as_Batches rs)) (\<lambda>r. Done (case r of
             Inl e \<Rightarrow> Inl (errStatus StatusInvalidArgument (''bind: '' @ e))
           | Inr more_rows \<Rightarrow> (case as_Err rs of
               Some e \<Rightarrow> Inl (errStatus StatusIO (''bind stream: '' @ e))
             | None \<Rightarrow> Inr (concat rows @ concat more_rows))))))"

section \<open>The literals of bound values\<close>

text \<open>Every value a row can hold is rendered as a literal that ends where it ends.\<close>

lemma no_quote_digits: "quote \<notin> set (show_nat n)"
  using show_nat_plain(1) [of n] by (auto simp: list_all_iff plain_char_def)

lemma quoted_keyword:
  assumes "list_all plain_char p" "CHR ''-'' \<notin> set p" "p \<noteq> []" "quote \<notin> set s"
  shows "closed_text (p @ [quote] @ s @ [quote])"
proof -
  have "closed_text (quote # s @ [quote])" using closed_quoted [of quote s] assms(4) by (simp add: ReplaceAll_absent)
  moreover have "closed_text p" using assms number_textI(1) by (auto intro: closed_number)
  ultimately show ?thesis using closed_append by fastforce
qed

lemma pad_no_quote: "quote \<notin> set s \<Longrightarrow> quote \<notin> set (pad_left n s)"
  by (auto simp: pad_left_def)

lemma format_no_quote:
  "quote \<notin> set (format_date t)" "quote \<notin> set (format_clock t)" "quote \<notin> set (format_offset off)"
proof -
  have two: "quote \<notin> set (two_digits n)" for n by (simp add: two_digits_def pad_no_quote no_quote_digits)
  show "quote \<notin> set (format_date t)"
    by (auto simp: format_date_def format_year_def two pad_no_quote no_quote_digits split: prod.splits)
  have "quote \<notin> set (dropWhile P (rev (pad_left 9 (show_nat n))))" for P n
    using pad_no_quote [OF no_quote_digits [of n], of 9] set_dropWhileD by fastforce
  then have "quote \<notin> set (format_fraction ns)" for ns by (auto simp: format_fraction_def Let_def)
  then show "quote \<notin> set (format_clock t)" by (auto simp: format_clock_def two)
  show "quote \<notin> set (format_offset off)" by (auto simp: format_offset_def two Let_def)
qed

lemma time_literals_ok:
  "literal_ok ff (date_literal t)" "literal_ok ff (time_literal t)" "literal_ok ff (timestamp_literal alib tz t)"
proof -
  have p: "list_all plain_char ''DATE ''" "list_all plain_char ''TIME ''" "list_all plain_char ''TIMESTAMP ''" "list_all plain_char ''TIMESTAMPTZ ''"
    by (simp_all add: plain_char_def)
  show "literal_ok ff (date_literal t)"
    using quoted_keyword [OF p(1), of "format_date t"] format_no_quote by (simp add: date_literal_def literal_ok_def)
  show "literal_ok ff (time_literal t)"
    using quoted_keyword [OF p(2), of "format_clock t"] format_no_quote by (simp add: time_literal_def literal_ok_def)
  show "literal_ok ff (timestamp_literal alib tz t)"
    using quoted_keyword [OF p(3), of "format_date t @ '' '' @ format_clock t"]
      quoted_keyword [OF p(4), of "format_date l @ '' '' @ format_clock l @ format_offset off" for l off] format_no_quote
    by (simp add: timestamp_literal_def literal_ok_def Let_def)
qed

lemma scalarAt_literal:
  assumes "\<And>x. number_text (ff x)" "scalarAt alib col i = Done (Inr v)"
  shows "literal_ok ff v"
  using assms(2)
proof (induction alib col i rule: scalarAt.induct)
  case (25 alib arr vs i)
  then show ?case by (auto simp: outcome_bind_eq_Done literal_ok_def split: option.splits)
qed (use assms(1) time_literals_ok [of ff] closed_number [OF decimalLiteral_number] in
    \<open>auto simp: at_row_def outcome_bind_eq_Done literal_ok_def split: option.splits if_splits\<close>)

lemma batch_literals:
  assumes "\<And>x. number_text (ff x)" "batch_rows alib rec = Done (Inr rows)" "row \<in> set rows" "v \<in> set row"
  shows "literal_ok ff v"
proof -
  obtain r where r: "collect (\<lambda>(c, col). outcome_bind (scalarAt alib col (int r)) (\<lambda>x. Done (map_sum
         (\<lambda>e. ''column '' @ Quote (f_Name (b_Fields rec ! c)) @ '': '' @ e) id x))) (enumerate 0 (b_Columns rec)) = Done (Inr row)"
    using assms(2,3) unfolding batch_rows_def collect_eq_Inr by (auto simp: in_set_conv_nth)
  obtain i where i: "i < length row" "v = row ! i" using assms(4) by (auto simp: in_set_conv_nth)
  then have "i < length (b_Columns rec)" using r unfolding collect_eq_Inr by simp
  then have "scalarAt alib (b_Columns rec ! i) (int r) = Done (Inr v)"
    using r i unfolding collect_eq_Inr
    by (auto simp: nth_enumerate_eq outcome_bind_eq_Done map_sum_Inr eq_commute [of _ "map_sum _ _ _"] dest!: spec [of _ i])
  then show ?thesis using scalarAt_literal [of ff, OF assms(1)] by blast
qed

lemma batches_literals:
  assumes "\<And>x. number_text (ff x)" "collect (batch_rows alib) recs = Done (Inr rss)" "row \<in> set (concat rss)" "v \<in> set row"
  shows "literal_ok ff v"
proof -
  obtain rs where "rs \<in> set rss" "row \<in> set rs" using assms(3) by auto
  then obtain i where "i < length rss" "row \<in> set (rss ! i)" by (metis in_set_conv_nth)
  moreover from this have "batch_rows alib (recs ! i) = Done (Inr (rss ! i))"
    using assms(2) by (simp add: collect_eq_Inr)
  ultimately show ?thesis using batch_literals [of ff, OF assms(1)] assms(4) by blast
qed

lemma boundRows_literals:
  assumes "\<And>x. number_text (ff x)" "boundRows alib bnd stream = Done (Inr rows)" "row \<in> set rows"
  shows "list_all (literal_ok ff) row"
proof -
  obtain rss where 1: "collect (batch_rows alib) (case bnd of None \<Rightarrow> [] | Some rec \<Rightarrow> [rec]) = Done (Inr rss)"
    using assms(2) unfolding boundRows_def bind_sum_Inr by blast
  have "row \<in> set (concat rss) \<or> (\<exists>recs rss'. collect (batch_rows alib) recs = Done (Inr rss') \<and> row \<in> set (concat rss'))"
  proof (cases stream)
    case (Some rs)
    then obtain q where q: "collect (batch_rows alib) (as_Batches rs) = Done q"
      using assms(2) 1 by (auto simp: boundRows_def outcome_bind_eq_Done)
    then obtain rss' where "q = Inr rss'" "rows = concat rss @ concat rss'"
      using assms(2) 1 Some by (cases q) (auto simp: boundRows_def split: option.splits)
    note q this
    then show ?thesis using assms(3) by auto
  qed (use assms(2,3) 1 in \<open>auto simp: boundRows_def\<close>)
  then show ?thesis unfolding list_all_iff using batches_literals [of ff, OF assms(1)] 1 by blast
qed

end
