(* ===== verification/Statements.thy ===== *)
theory Statements
  imports RecordReader Ingest Binding
begin

text \<open>
  Connections and statements (\<^verbatim>\<open>driver/quack/driver.go\<close>) with the executions of bound statements
  (\<^verbatim>\<open>params.go\<close>) and of bulk ingest (\<^verbatim>\<open>bulk_ingest.go\<close>).  A statement points to its connection in Go; here it is
  passed next to it.  \<open>n\<close> bounds the fetches of a drain and the chunks a reader looks at.
\<close>

section \<open>Connections\<close>

record 'w connection =
  sess :: "'w session"
  autoCommit :: bool
  txOpen :: bool

type_synonym ('w, 'a) conn_op = "'w connection \<Rightarrow> ((drv_error + 'a) \<times> 'w connection) outcome"

definition cbind :: "('w, 'a) conn_op \<Rightarrow> ('a \<Rightarrow> ('w, 'b) conn_op) \<Rightarrow> ('w, 'b) conn_op" where
  "cbind f g c = outcome_bind (f c) (\<lambda>(r, c). case r of Inl e \<Rightarrow> Done (Inl e, c) | Inr v \<Rightarrow> g v c)"

definition cret :: "'a \<Rightarrow> ('w, 'a) conn_op" where
  "cret v c = Done (Inr v, c)"

definition cfail :: "drv_error \<Rightarrow> ('w, 'a) conn_op" where
  "cfail e c = Done (Inl e, c)"

text \<open>An operation of the session; its error is mapped by \<open>f\<close>.\<close>

definition on_session :: "(go_error \<Rightarrow> drv_error) \<Rightarrow> ('w, 'a) sess \<Rightarrow> ('w, 'a) conn_op" where
  "on_session f op c = outcome_bind (op (sess c)) (\<lambda>(r, s). Done (map_sum f id r, c\<lparr>sess := s\<rparr>))"

definition execNoResult :: "'w transport \<Rightarrow> nat \<Rightarrow> string \<Rightarrow> ('w, drainedResult) conn_op" where
  "execNoResult send n sql = on_session fromTransportError (drainPrepared send n sql)"

definition set_txOpen :: "bool \<Rightarrow> ('w, unit) conn_op" where
  "set_txOpen b c = Done (Inr (), c\<lparr>txOpen := b\<rparr>)"

definition beginTxIfNeeded :: "'w transport \<Rightarrow> nat \<Rightarrow> ('w, unit) conn_op" where
  "beginTxIfNeeded send n c =
     (if autoCommit c \<or> txOpen c then cret () c
      else cbind (execNoResult send n ''BEGIN TRANSACTION'') (\<lambda>_. set_txOpen True) c)"

definition Commit :: "'w transport \<Rightarrow> nat \<Rightarrow> ('w, unit) conn_op" where
  "Commit send n c =
     (if autoCommit c then cfail (errStatus StatusInvalidState ''Commit called while autocommit is enabled'') c
      else if \<not> txOpen c then cret () c
      else cbind (execNoResult send n ''COMMIT'') (\<lambda>_. set_txOpen False) c)"

definition Rollback :: "'w transport \<Rightarrow> nat \<Rightarrow> ('w, unit) conn_op" where
  "Rollback send n c =
     (if autoCommit c then cfail (errStatus StatusInvalidState ''Rollback called while autocommit is enabled'') c
      else if \<not> txOpen c then cret () c
      else cbind (execNoResult send n ''ROLLBACK'') (\<lambda>_. set_txOpen False) c)"

definition SetOption_conn :: "'w transport \<Rightarrow> nat \<Rightarrow> string \<Rightarrow> string \<Rightarrow> ('w, unit) conn_op" where
  "SetOption_conn send n key val c =
     (if key = OptionKeyAutoCommit then
        (if val = OptionValueEnabled then
           (if autoCommit c then cret () c
            else cbind (if txOpen c then cbind (execNoResult send n ''COMMIT'') (\<lambda>_. set_txOpen False) else cret ())
              (\<lambda>_ c. Done (Inr (), c\<lparr>autoCommit := True\<rparr>)) c)
         else if val = OptionValueDisabled then
           (if \<not> autoCommit c then cret () c else Done (Inr (), c\<lparr>autoCommit := False\<rparr>))
         else cfail (errStatus StatusInvalidArgument (''unknown value '' @ Quote val @ '' for '' @ key @ ''; expected ''
             @ Quote OptionValueEnabled @ '' or '' @ Quote OptionValueDisabled)) c)
      else cret () c)"

text \<open>The error of the ROLLBACK is dropped, and so is \<open>txOpen\<close>.\<close>

definition Close_conn :: "'w transport \<Rightarrow> nat \<Rightarrow> ('w, unit) conn_op" where
  "Close_conn send n c =
     outcome_bind (if txOpen c then outcome_bind (execNoResult send n ''ROLLBACK'' c) (\<lambda>(_, c). Done (c\<lparr>txOpen := False\<rparr>)) else Done c)
       (on_session GoError (close_session send))"

section \<open>Opening a connection\<close>

text \<open>
  \<^verbatim>\<open>mk_net\<close> builds the HTTP client for a transport; the options are an association list with distinct keys, as
  \<^verbatim>\<open>cloneMap\<close> copies them.
\<close>

definition SetOptions_db :: "(string \<times> string) list \<Rightarrow> (string \<times> string) list \<Rightarrow> (string \<times> string) list" where
  "SetOptions_db new opts = fold (\<lambda>(k, v). AList.update k v) new opts"

definition Open :: "host_env \<Rightarrow> go_lib \<Rightarrow> (HTTPTransport \<Rightarrow> 'w net) \<Rightarrow> (string \<times> string) list \<Rightarrow> 'w
    \<Rightarrow> ((drv_error + QuackURI \<times> 'w connection) \<times> 'w) outcome" where
  "Open env lib mk_net opts w = (case map_of opts OptionURI of
       None \<Rightarrow> Done (Inl (errStatus StatusInvalidArgument (''quack: missing required option '' @ Quote OptionURI)), w)
     | Some rawURL \<Rightarrow>
        (if rawURL = [] then Done (Inl (errStatus StatusInvalidArgument (''quack: missing required option '' @ Quote OptionURI)), w)
         else case ParseURI env rawURL (AList.delete OptionURI opts) of
             Inl e \<Rightarrow> Done (Inl (BadURI e), w)
           | Inr u \<Rightarrow> outcome_bind (newSession (Send lib (mk_net (NewHTTPTransport u)) u) (Token u) w) (\<lambda>(r, s). Done (case r of
                 Inl e \<Rightarrow> (Inl (fromTransportError e), s_world s)
               | Inr _ \<Rightarrow> (Inr (u, \<lparr>sess = s, autoCommit = True, txOpen = False\<rparr>), s_world s)))))"

section \<open>Statements\<close>

record statement =
  st_sql :: string
  st_closed :: bool
  targetTable :: string
  targetSchema :: string
  ingestMode :: string
  ingestTemporary :: bool
  bound :: "arrow_batch option"
  boundStream :: "arrow_stream option"

definition NewStatement :: statement where
  "NewStatement = \<lparr>st_sql = [], st_closed = False, targetTable = [], targetSchema = [], ingestMode = [],
     ingestTemporary = False, bound = None, boundStream = None\<rparr>"

definition clearBound :: "statement \<Rightarrow> statement" where
  "clearBound st = st\<lparr>bound := None, boundStream := None\<rparr>"

definition Close_stmt :: "statement \<Rightarrow> statement" where
  "Close_stmt st = clearBound (st\<lparr>st_closed := True\<rparr>)"

definition SetSqlQuery :: "string \<Rightarrow> statement \<Rightarrow> statement" where
  "SetSqlQuery sql st = st\<lparr>st_sql := sql\<rparr>"

definition bindBatch :: "arrow_batch \<Rightarrow> statement \<Rightarrow> statement" where
  "bindBatch rec st = st\<lparr>bound := Some rec\<rparr>"

definition bindStream :: "arrow_stream \<Rightarrow> statement \<Rightarrow> statement" where
  "bindStream rs st = st\<lparr>boundStream := Some rs\<rparr>"

definition SetOption_stmt :: "string \<Rightarrow> string \<Rightarrow> statement \<Rightarrow> drv_error + statement" where
  "SetOption_stmt key val st =
     (if key = OptionKeyIngestTargetTable then Inr (st\<lparr>targetTable := val\<rparr>)
      else if key = OptionValueIngestTargetDBSchema then Inr (st\<lparr>targetSchema := val\<rparr>)
      else if key = OptionKeyIngestMode then
        (if val \<in> set [OptionValueIngestModeCreate, OptionValueIngestModeAppend, OptionValueIngestModeReplace, OptionValueIngestModeCreateAppend]
         then Inr (st\<lparr>ingestMode := val\<rparr>)
         else Inl (errStatus StatusInvalidArgument (''unknown ingest mode '' @ Quote val)))
      else if key = OptionValueIngestTemporary then
        (if val = OptionValueEnabled then Inr (st\<lparr>ingestTemporary := True\<rparr>)
         else if val = OptionValueDisabled then Inr (st\<lparr>ingestTemporary := False\<rparr>)
         else Inl (errStatus StatusInvalidArgument (''invalid value '' @ Quote val @ '' for '' @ key @ '' (want ''
             @ Quote OptionValueEnabled @ '' or '' @ Quote OptionValueDisabled @ '')'')))
      else Inr st)"

text \<open>\<^verbatim>\<open>rows += int64(c.RowCount)\<close>.\<close>

definition count_rows :: "DataChunk list \<Rightarrow> int \<Rightarrow> int" where
  "count_rows chunks tot = fold (\<lambda>c rows. wrap64 (rows + RowCount c)) chunks tot"

subsection \<open>Bulk ingest\<close>

definition prepareIngestTarget :: "arrow_lib \<Rightarrow> 'w transport \<Rightarrow> nat \<Rightarrow> statement \<Rightarrow> arrow_field list \<Rightarrow> ('w, unit) conn_op" where
  "prepareIngestTarget alib send n st schema =
     (let mode = (if ingestMode st = [] then OptionValueIngestModeCreate else ingestMode st) in
      if mode = OptionValueIngestModeAppend then cret ()
      else case buildCreateTableSQL alib (targetSchema st) (targetTable st) schema
             (mode = OptionValueIngestModeCreateAppend) (mode = OptionValueIngestModeReplace) (ingestTemporary st) of
          Inl e \<Rightarrow> cfail (errStatus StatusInvalidArgument (''ingest: '' @ e))
        | Inr ddl \<Rightarrow> cbind (on_session (\<lambda>e. case e_server e of
                Some msg \<Rightarrow> (if mode = OptionValueIngestModeCreate \<and> Contains (ToLower msg) ''already exists''
                  then AdbcError StatusAlreadyExists msg else fromTransportError e)
              | None \<Rightarrow> fromTransportError e) (drainPrepared send n ddl)) (\<lambda>_. cret ()))"

definition pump :: "arrow_lib \<Rightarrow> 'w transport \<Rightarrow> statement \<Rightarrow> arrow_batch \<Rightarrow> ('w, unit) conn_op" where
  "pump alib send st rec c = outcome_bind (chunkFromRecord alib rec) (\<lambda>r. case r of
       Inl e \<Rightarrow> cfail (GoError (errorf e)) c
     | Inr chunk \<Rightarrow> on_session fromTransportError (appendChunk send (targetSchema st) (targetTable st) chunk) c)"

primrec pump_all :: "arrow_lib \<Rightarrow> 'w transport \<Rightarrow> statement \<Rightarrow> arrow_batch list \<Rightarrow> int \<Rightarrow> ('w, int) conn_op" where
  "pump_all alib send st [] tot = cret tot"
| "pump_all alib send st (rec # recs) tot =
     cbind (pump alib send st rec) (\<lambda>_. pump_all alib send st recs (wrap64 (tot + int (b_NumRows rec))))"

text \<open>The statement's binding is dropped when the function returns (\<^verbatim>\<open>defer s.clearBound()\<close>), see \<open>ExecuteUpdate\<close>.\<close>

definition executeIngest :: "arrow_lib \<Rightarrow> 'w transport \<Rightarrow> nat \<Rightarrow> statement \<Rightarrow> ('w, int) conn_op" where
  "executeIngest alib send n st =
     (if targetTable st = [] then cfail (errStatus StatusInvalidState ''ingest: no target table set'')
      else case (bound st, boundStream st) of
          (None, None) \<Rightarrow> cfail (errStatus StatusInvalidState ''ingest: no record/stream bound'')
        | (Some rec, stream) \<Rightarrow>
            cbind (prepareIngestTarget alib send n st (b_Fields rec)) (\<lambda>_.
            cbind (pump_all alib send st [rec] 0) (\<lambda>tot. (case stream of
                None \<Rightarrow> cret tot
              | Some rs \<Rightarrow> cbind (pump_all alib send st (as_Batches rs) tot) (\<lambda>tot. (case as_Err rs of
                    None \<Rightarrow> cret tot
                  | Some e \<Rightarrow> cfail (errStatus StatusIO (''ingest stream: '' @ e)))))))
        | (None, Some rs) \<Rightarrow>
            cbind (prepareIngestTarget alib send n st (as_Schema rs)) (\<lambda>_.
            cbind (pump_all alib send st (as_Batches rs) 0) (\<lambda>tot. (case as_Err rs of
                None \<Rightarrow> cret tot
              | Some e \<Rightarrow> cfail (errStatus StatusIO (''ingest stream: '' @ e))))))"

subsection \<open>Bound statements\<close>

text \<open>The result of a query: a streaming reader, or the records of all bound rows.\<close>

datatype query_reader = Streaming streamingRecordReader | Records "arrow_field list" "arrow_record list"

record libs =
  l_arrow :: arrow_lib
  l_go :: go_lib
  l_float :: "64 word \<Rightarrow> string"

definition open_reader :: "libs \<Rightarrow> 'w transport \<Rightarrow> string \<Rightarrow> ('w, streamingRecordReader) conn_op" where
  "open_reader ls send sql = cbind (on_session fromTransportError (open_cursor send sql)) (\<lambda>cur c.
     outcome_bind (newStreamingRecordReader (l_arrow ls) cur) (\<lambda>rr. Done (Inr rr, c)))"

primrec bound_updates :: "libs \<Rightarrow> 'w transport \<Rightarrow> nat \<Rightarrow> string \<Rightarrow> sql_value list list \<Rightarrow> int \<Rightarrow> ('w, int) conn_op" where
  "bound_updates ls send n sql [] tot = cret tot"
| "bound_updates ls send n sql (row # rows) tot = (case substituteParams (l_float ls) sql row of
       Inl e \<Rightarrow> cfail (errStatus StatusInvalidArgument (''bind: '' @ e))
     | Inr text \<Rightarrow> cbind (on_session fromTransportError (drainPrepared send n text)) (\<lambda>result.
         bound_updates ls send n sql rows (count_rows (Chunks result) tot)))"

definition executeBoundUpdate :: "libs \<Rightarrow> 'w transport \<Rightarrow> nat \<Rightarrow> statement \<Rightarrow> ('w, int) conn_op" where
  "executeBoundUpdate ls send n st c = outcome_bind (boundRows (l_arrow ls) (bound st) (boundStream st)) (\<lambda>r. case r of
       Inl e \<Rightarrow> cfail e c
     | Inr rows \<Rightarrow> bound_updates ls send n (st_sql st) rows 0 c)"

text \<open>The records of one bound row: the reader is drained and its error passed on as it is.\<close>

definition row_records :: "libs \<Rightarrow> 'w transport \<Rightarrow> nat \<Rightarrow> string \<Rightarrow> ('w, arrow_field list \<times> arrow_record list) conn_op" where
  "row_records ls send n sql = cbind (open_reader ls send sql) (\<lambda>rr c.
     outcome_bind (read_records (l_arrow ls) (l_go ls) send n n rr (sess c)) (\<lambda>((rs, rr'), s).
     Done (case rr_err rr' of None \<Rightarrow> Inr (rr_schema rr, concat (map (\<lambda>r. case r of None \<Rightarrow> [] | Some rec \<Rightarrow> [rec]) rs)) | Some e \<Rightarrow> Inl (GoError e), c\<lparr>sess := s\<rparr>)))"

primrec bound_queries :: "libs \<Rightarrow> 'w transport \<Rightarrow> nat \<Rightarrow> string \<Rightarrow> sql_value list list \<Rightarrow> ('w, (arrow_field list \<times> arrow_record list) list) conn_op" where
  "bound_queries ls send n sql [] = cret []"
| "bound_queries ls send n sql (row # rows) = (case substituteParams (l_float ls) sql row of
       Inl e \<Rightarrow> cfail (errStatus StatusInvalidArgument (''bind: '' @ e))
     | Inr text \<Rightarrow> cbind (row_records ls send n text) (\<lambda>r. cbind (bound_queries ls send n sql rows) (\<lambda>rs. cret (r # rs))))"

definition executeBoundQuery :: "libs \<Rightarrow> 'w transport \<Rightarrow> nat \<Rightarrow> statement \<Rightarrow> ('w, query_reader) conn_op" where
  "executeBoundQuery ls send n st c = outcome_bind (boundRows (l_arrow ls) (bound st) (boundStream st)) (\<lambda>r. case r of
       Inl e \<Rightarrow> cfail e c
     | Inr rows \<Rightarrow>
        (if rows = [] then cfail (errStatus StatusInvalidArgument ''bind: no parameter rows bound'')
         else if length rows = 1 then (case substituteParams (l_float ls) (st_sql st) (hd rows) of
             Inl e \<Rightarrow> cfail (errStatus StatusInvalidArgument (''bind: '' @ e))
           | Inr text \<Rightarrow> cbind (open_reader ls send text) (\<lambda>rr. cret (Streaming rr)))
         else cbind (bound_queries ls send n (st_sql st) rows) (\<lambda>rs.
             let schema = fst (hd rs); recs = concat (map snd rs) in
             if list_all (\<lambda>r. rec_Fields r = schema) recs then cret (Records schema recs)
             else cfail (errStatus StatusInternal (''bind: '' @ SchemaMismatch (l_arrow ls))))) c)"

subsection \<open>Execution\<close>

definition has_binding :: "statement \<Rightarrow> bool" where
  "has_binding st \<longleftrightarrow> bound st \<noteq> None \<or> boundStream st \<noteq> None"

text \<open>An operation of a statement: the statement is returned with the connection.\<close>

type_synonym ('w, 'a) stmt_op = "'w connection \<Rightarrow> statement \<Rightarrow> ((drv_error + 'a) \<times> 'w connection \<times> statement) outcome"

definition with_stmt :: "('w, 'a) conn_op \<Rightarrow> 'w connection \<Rightarrow> statement \<Rightarrow> ((drv_error + 'a) \<times> 'w connection \<times> statement) outcome" where
  "with_stmt op c st = outcome_bind (op c) (\<lambda>(r, c). Done (r, c, st))"

definition ExecuteQuery :: "libs \<Rightarrow> 'w transport \<Rightarrow> nat \<Rightarrow> ('w, query_reader) stmt_op" where
  "ExecuteQuery ls send n c st =
     (if st_sql st = [] then Done (Inl (errStatus StatusInvalidState ''Statement.ExecuteQuery: no SQL set''), c, st)
      else outcome_bind (beginTxIfNeeded send n c) (\<lambda>(r, c). case r of
          Inl e \<Rightarrow> Done (Inl e, c, st)
        | Inr _ \<Rightarrow> (if has_binding st then with_stmt (executeBoundQuery ls send n st) c (clearBound st)
            else with_stmt (cbind (open_reader ls send (st_sql st)) (\<lambda>rr. cret (Streaming rr))) c st)))"

definition ExecuteUpdate :: "libs \<Rightarrow> 'w transport \<Rightarrow> nat \<Rightarrow> ('w, int) stmt_op" where
  "ExecuteUpdate ls send n c st =
     outcome_bind (beginTxIfNeeded send n c) (\<lambda>(r, c). case r of
       Inl e \<Rightarrow> Done (Inl e, c, st)
     | Inr _ \<Rightarrow>
        (if targetTable st \<noteq> [] \<and> has_binding st
         then with_stmt (executeIngest (l_arrow ls) send n st) c (clearBound st)
         else if st_sql st = [] then Done (Inl (errStatus StatusInvalidState ''Statement.ExecuteUpdate: no SQL set''), c, st)
         else if has_binding st then with_stmt (executeBoundUpdate ls send n st) c (clearBound st)
         else with_stmt (cbind (on_session fromTransportError (drainPrepared send n (st_sql st)))
             (\<lambda>result. cret (count_rows (Chunks result) 0))) c st))"

end
