(* ===== verification/Runs.thy ===== *)
theory Runs
  imports Statements
begin

text \<open>
  The requests an operation of a connection makes: the executions are runs of the session whose SQL texts are
  the statement's, and leave the flags of the connection.
\<close>

section \<open>Operations are runs of the session\<close>

text \<open>An operation that only makes requests with SQL texts in \<open>Q\<close> and leaves the flags of the connection.\<close>

definition runs :: "'w transport \<Rightarrow> (string \<Rightarrow> bool) \<Rightarrow> ('w, 'a) conn_op \<Rightarrow> bool" where
  "runs send Q op \<longleftrightarrow> (\<forall>c r c'. op c = Done (r, c') \<longrightarrow>
     session_run send Q (sess c) (sess c') \<and> autoCommit c' = autoCommit c \<and> txOpen c' = txOpen c)"

named_theorems run_rules \<open>rules deriving that an operation is a run of the session\<close>

lemma runsI:
  "(\<And>c r c'. op c = Done (r, c') \<Longrightarrow>
     session_run send Q (sess c) (sess c') \<and> autoCommit c' = autoCommit c \<and> txOpen c' = txOpen c) \<Longrightarrow> runs send Q op"
  by (simp add: runs_def)

lemma runsD:
  assumes "runs send Q op" "op c = Done (r, c')"
  shows "session_run send Q (sess c) (sess c')" "autoCommit c' = autoCommit c" "txOpen c' = txOpen c"
  using assms by (auto simp: runs_def)

lemma cbind_Done:
  "cbind f g c = Done (r, c') \<longleftrightarrow>
    (\<exists>e. f c = Done (Inl e, c') \<and> r = Inl e) \<or> (\<exists>v c1. f c = Done (Inr v, c1) \<and> g v c1 = Done (r, c'))"
proof (cases "f c")
  case (Done p)
  obtain v t where "p = (v, t)" by (cases p)
  then show ?thesis using Done by (cases v) (auto simp: cbind_def)
qed (simp_all add: cbind_def)

lemma runs_cret [run_rules]: "runs send Q (cret v)"
  by (auto simp: runs_def cret_def intro: session_run.idle)

lemma runs_cfail [run_rules]: "runs send Q (cfail e)"
  by (auto simp: runs_def cfail_def intro: session_run.idle)

lemma runs_cbind [run_rules]:
  assumes "runs send Q f" "\<And>v. runs send Q (g v)"
  shows "runs send Q (cbind f g)"
proof (rule runsI)
  fix c r c' assume "cbind f g c = Done (r, c')"
  then consider e where "f c = Done (Inl e, c')" | v c1 where "f c = Done (Inr v, c1)" "g v c1 = Done (r, c')"
    by (auto simp: cbind_Done)
  then show "session_run send Q (sess c) (sess c') \<and> autoCommit c' = autoCommit c \<and> txOpen c' = txOpen c"
  proof cases
    case 1
    then show ?thesis using runsD [OF assms(1)] by blast
  next
    case 2
    then show ?thesis using runsD [OF assms(1) 2(1)] runsD [OF assms(2) 2(2)] session_run_trans by fastforce
  qed
qed

lemma runs_on_session:
  assumes "\<And>s r s'. op s = Done (r, s') \<Longrightarrow> session_run send Q s s'"
  shows "runs send Q (on_session f op)"
  using assms by (auto simp: runs_def on_session_def outcome_bind_eq_Done)

lemma runs_drain [run_rules]: "Q sql \<Longrightarrow> runs send Q (on_session f (drainPrepared send n sql))"
  by (rule runs_on_session) (rule drainPrepared_run)

lemma runs_open [run_rules]: "Q sql \<Longrightarrow> runs send Q (on_session f (open_cursor send sql))"
  by (rule runs_on_session) (rule session_run_step, rule session_step.prepare)

lemma runs_append [run_rules]: "runs send Q (on_session f (appendChunk send schema table chunk))"
  by (rule runs_on_session) (rule session_run_step, rule session_step.append)

lemma runs_outcome [run_rules]:
  "(\<And>v. m = Done v \<Longrightarrow> runs send Q (h v)) \<Longrightarrow> runs send Q (\<lambda>c. outcome_bind m (\<lambda>v. h v c))"
  by (cases m) (auto simp: runs_def)

lemma runs_sum [run_rules]:
  "(\<And>e. x = Inl e \<Longrightarrow> runs send Q (f e)) \<Longrightarrow> (\<And>v. x = Inr v \<Longrightarrow> runs send Q (g v)) \<Longrightarrow>
   runs send Q (case x of Inl e \<Rightarrow> f e | Inr v \<Rightarrow> g v)"
  by (cases x) auto

lemma runs_option [run_rules]:
  "(x = None \<Longrightarrow> runs send Q f) \<Longrightarrow> (\<And>v. x = Some v \<Longrightarrow> runs send Q (g v)) \<Longrightarrow>
   runs send Q (case x of None \<Rightarrow> f | Some v \<Rightarrow> g v)"
  by (cases x) auto

lemma runs_if [run_rules]:
  "(b \<Longrightarrow> runs send Q f) \<Longrightarrow> (\<not> b \<Longrightarrow> runs send Q g) \<Longrightarrow> runs send Q (if b then f else g)"
  by simp

lemma runs_sum_arg [run_rules]:
  "(\<And>e. x = Inl e \<Longrightarrow> runs send Q (f e)) \<Longrightarrow> (\<And>v. x = Inr v \<Longrightarrow> runs send Q (g v)) \<Longrightarrow>
   runs send Q (\<lambda>c. case x of Inl e \<Rightarrow> f e c | Inr v \<Rightarrow> g v c)"
  by (cases x) auto

subsection \<open>The reader\<close>

lemma Next_loop_run: "Next_loop alib lib send n rr s = Done (r, s') \<Longrightarrow> session_run send Q s s'"
proof (induction n arbitrary: rr s)
  case (Suc n)
  obtain v s1 where v: "nextChunk send (rr_cursor rr) s = Done (v, s1)" using Suc.prems
    by (cases "nextChunk send (rr_cursor rr) s") auto
  then have run: "session_run send Q s s1" by (rule nextChunk_run)
  have "s' = s1 \<or> (\<exists>rr'. Next_loop alib lib send n rr' s1 = Done (r, s'))"
    using Suc.prems v
    by (auto simp: outcome_bind_eq_Done Let_def sum.case_eq_if split: option.splits prod.splits if_splits)
  then show ?case using run Suc.IH session_run_trans by blast
qed simp

lemma Next_run: "Next alib lib send n rr s = Done (r, s') \<Longrightarrow> session_run send Q s s'"
  by (auto simp: Next_def intro: session_run.idle Next_loop_run split: if_splits)

lemma read_records_run: "read_records alib lib send n k rr s = Done (r, s') \<Longrightarrow> session_run send Q s s'"
proof (induction k arbitrary: rr s r)
  case (Suc k)
  obtain b rr1 s1 where v: "Next alib lib send n rr s = Done ((b, rr1), s1)" using Suc.prems
    by (cases "Next alib lib send n rr s") auto
  then have run: "session_run send Q s s1" by (rule Next_run)
  have "s' = s1 \<or> (\<exists>r'. read_records alib lib send n k rr1 s1 = Done (r', s'))"
    using Suc.prems v by (auto simp: outcome_bind_eq_Done split: if_splits prod.splits)
  then show ?case using run Suc.IH session_run_trans by blast
qed simp

subsection \<open>The executions\<close>

lemma runs_open_reader [run_rules]: "Q sql \<Longrightarrow> runs send Q (open_reader ls send sql)"
  unfolding open_reader_def
  by (intro runs_cbind runs_open) (auto simp: runs_def outcome_bind_eq_Done intro: session_run.idle)

lemma runs_row_records [run_rules]: "Q sql \<Longrightarrow> runs send Q (row_records ls send n sql)"
  unfolding row_records_def
  by (intro runs_cbind runs_open_reader) (auto simp: runs_def outcome_bind_eq_Done dest: read_records_run [where Q = Q])

lemma runs_pump [run_rules]: "runs send Q (pump alib send st rec)"
  unfolding pump_def [abs_def] by (intro run_rules)

lemma runs_pump_all [run_rules]: "runs send Q (pump_all alib send st recs tot)"
  by (induction recs arbitrary: tot) (auto intro: run_rules)

text \<open>The SQL texts a statement may send: its own, with a row of values bound, or the DDL of an ingest.\<close>

definition is_ddl :: "string \<Rightarrow> bool" where
  "is_ddl t \<longleftrightarrow> HasPrefix t ''CREATE ''"

definition sql_of :: "libs \<Rightarrow> statement \<Rightarrow> string \<Rightarrow> bool" where
  "sql_of ls st t \<longleftrightarrow> t = st_sql st \<or> (\<exists>row. substituteParams (l_float ls) (st_sql st) row = Inr t) \<or> is_ddl t"

lemma ddl_is_ddl: "buildCreateTableSQL alib schema table fs a b d = Inr t \<Longrightarrow> is_ddl t"
  by (cases "column_defs alib 0 fs") (auto simp: buildCreateTableSQL_def is_ddl_def split: if_splits)

lemma runs_prepareIngestTarget [run_rules]: "runs send (sql_of ls st) (prepareIngestTarget alib send n st schema)"
  unfolding prepareIngestTarget_def Let_def
  by (intro run_rules) (auto simp: sql_of_def dest: ddl_is_ddl)

lemma runs_executeIngest [run_rules]: "runs send (sql_of ls st) (executeIngest alib send n st)"
  unfolding executeIngest_def by (auto intro!: run_rules split: option.split)

lemma runs_bound_updates: "sql = st_sql st \<Longrightarrow> runs send (sql_of ls st) (bound_updates ls send n sql rows tot)"
  by (induction rows arbitrary: tot) (auto intro!: run_rules simp: sql_of_def)

lemma runs_bound_queries: "sql = st_sql st \<Longrightarrow> runs send (sql_of ls st) (bound_queries ls send n sql rows)"
  by (induction rows) (auto intro!: run_rules simp: sql_of_def)

lemma runs_executeBoundUpdate [run_rules]: "runs send (sql_of ls st) (executeBoundUpdate ls send n st)"
  unfolding executeBoundUpdate_def [abs_def] by (intro run_rules runs_bound_updates refl)

lemma runs_executeBoundQuery [run_rules]: "runs send (sql_of ls st) (executeBoundQuery ls send n st)"
  unfolding executeBoundQuery_def [abs_def] Let_def
  by (intro run_rules runs_bound_queries refl) (auto simp: sql_of_def)

lemma runs_plain_update [run_rules]:
  "runs send (sql_of ls st) (cbind (on_session fromTransportError (drainPrepared send n (st_sql st))) (\<lambda>result. cret (count_rows (Chunks result) 0)))"
  by (intro run_rules) (simp add: sql_of_def)

lemma runs_plain_query [run_rules]:
  "runs send (sql_of ls st) (cbind (open_reader ls send (st_sql st)) (\<lambda>rr. cret (Streaming rr)))"
  by (intro run_rules) (simp add: sql_of_def)

lemma with_stmt_Done: "with_stmt op c st = Done (r, c', st') \<longleftrightarrow> op c = Done (r, c') \<and> st' = st"
  by (auto simp: with_stmt_def outcome_bind_eq_Done)

text \<open>What a run leaves: the flags, and a session that only made requests with texts in \<open>Q\<close>.\<close>

definition stays :: "'w transport \<Rightarrow> (string \<Rightarrow> bool) \<Rightarrow> 'w connection \<Rightarrow> 'w connection \<Rightarrow> bool" where
  "stays send Q c c' \<longleftrightarrow> session_run send Q (sess c) (sess c') \<and> autoCommit c' = autoCommit c \<and> txOpen c' = txOpen c"

lemma stays_refl: "stays send Q c c"
  by (simp add: stays_def session_run.idle)

lemma runs_stays: "runs send Q op \<Longrightarrow> op c = Done (r, c') \<Longrightarrow> stays send Q c c'"
  by (simp add: stays_def runsD)

end
