(* ===== verification/Metadata.thy ===== *)
theory Metadata
  imports Statements
begin

text \<open>
  Metadata (\<^verbatim>\<open>driver/quack/metadata.go\<close>, \<^verbatim>\<open>metadata_info.go\<close>): the schema of a table with the reading of
  DuckDB's printed type names, the table types, and the driver and vendor information.
\<close>

section \<open>Cells of a drained result\<close>

text \<open>\<^verbatim>\<open>chunk.Columns[k]\<close> as an interface whose methods are called: a nil one panics.\<close>

definition column_vec :: "DataChunk \<Rightarrow> nat \<Rightarrow> DecodedVector option outcome" where
  "column_vec chunk k = index_at (Columns chunk) (int k)"

definition vec_object :: "DecodedVector option \<Rightarrow> nat \<Rightarrow> govalue outcome" where
  "vec_object v i = (case v of None \<Rightarrow> Panic | Some v \<Rightarrow> GetObject v (int i))"

definition column_object :: "DataChunk \<Rightarrow> nat \<Rightarrow> nat \<Rightarrow> govalue outcome" where
  "column_object chunk k i = outcome_bind (column_vec chunk k) (\<lambda>v. vec_object v i)"

text \<open>\<^verbatim>\<open>s, _ := v.(string)\<close> and \<^verbatim>\<open>s, ok := v.(string)\<close>.\<close>

definition string_value :: "govalue \<Rightarrow> string option" where
  "string_value v = (case v of VString s \<Rightarrow> Some s | _ \<Rightarrow> None)"

definition as_string :: "govalue \<Rightarrow> string" where
  "as_string v = (case string_value v of Some s \<Rightarrow> s | None \<Rightarrow> [])"

definition column_string :: "DataChunk \<Rightarrow> nat \<Rightarrow> nat \<Rightarrow> string outcome" where
  "column_string chunk k i = outcome_bind (column_object chunk k i) (\<lambda>v. Done (as_string v))"

text \<open>The rows of all chunks, in order.\<close>

definition chunk_rows :: "(DataChunk \<Rightarrow> nat \<Rightarrow> 'a outcome) \<Rightarrow> DataChunk \<Rightarrow> 'a list outcome" where
  "chunk_rows f chunk = map_outcome (f chunk) [0..<nat (RowCount chunk)]"

definition result_rows :: "(DataChunk \<Rightarrow> nat \<Rightarrow> 'a outcome) \<Rightarrow> DataChunk list \<Rightarrow> 'a list outcome" where
  "result_rows f chunks = outcome_bind (map_outcome (chunk_rows f) chunks) (\<lambda>rss. Done (concat rss))"

text \<open>A query of the driver itself: drained, its error mapped, its result read.\<close>

definition metadata_query :: "'w transport \<Rightarrow> nat \<Rightarrow> string \<Rightarrow> (drainedResult \<Rightarrow> (drv_error + 'a) outcome) \<Rightarrow> ('w, 'a) conn_op" where
  "metadata_query send n sql f = cbind (on_session fromTransportError (drainPrepared send n sql))
     (\<lambda>result c. outcome_bind (f result) (\<lambda>r. Done (r, c)))"

section \<open>Printed type names\<close>

text \<open>
  \<^verbatim>\<open>fmt.Sscanf(s, "%d", &n)\<close>: white space is skipped, a sign and decimal digits are read, what follows is left.
\<close>

definition Sscanf_d :: "string \<Rightarrow> int option" where
  "Sscanf_d s = (let s = trim_runes (length s) (filter (\<lambda>r. r \<noteq> [CHR 10]) space_runes) s;
       sign = (if HasPrefix s ''+'' \<or> HasPrefix s ''-'' then take 1 s else []);
       ds = takeWhile (\<lambda>c. digit_val c \<noteq> None) (drop (length sign) s)
     in if ds = [] then None else ParseInt10 (sign @ ds))"

primrec decimal_args :: "string \<Rightarrow> string \<Rightarrow> (int \<times> int) option" where
  "decimal_args pre [] = None"
| "decimal_args pre (c # s) =
     (if c = CHR '','' \<and> CHR '')'' \<in> set s then (case (Sscanf_d pre, Sscanf_d (takeWhile (\<lambda>c. c \<noteq> CHR '')'') s)) of
          (Some p, Some sc) \<Rightarrow> Some (p, sc)
        | _ \<Rightarrow> None)
      else decimal_args (pre @ [c]) s)"

definition parseDecimal :: "string \<Rightarrow> (int \<times> int) option" where
  "parseDecimal s = (if length s < 11 \<or> s ! 7 \<noteq> CHR ''('' then None else decimal_args [] (drop 8 s))"

definition arrowTypeForDuckDBName :: "arrow_lib \<Rightarrow> string \<Rightarrow> arrow_type" where
  "arrowTypeForDuckDBName alib s = (let base = takeWhile (\<lambda>c. c \<noteq> CHR ''('') s in
     if base = ''BOOLEAN'' then AT_Bool
     else if base = ''TINYINT'' then AT_Int8
     else if base \<in> {''SMALLINT'', ''UTINYINT''} then AT_Int16
     else if base \<in> {''INTEGER'', ''USMALLINT''} then AT_Int32
     else if base \<in> {''BIGINT'', ''UINTEGER''} then AT_Int64
     else if base = ''UBIGINT'' then AT_Uint64
     else if base = ''FLOAT'' then AT_Float32
     else if base = ''DOUBLE'' then AT_Float64
     else if base = ''DECIMAL'' then
       (case parseDecimal s of None \<Rightarrow> AT_Decimal128 38 0 | Some (p, sc) \<Rightarrow> AT_Decimal128 (int32 p) (int32 sc))
     else if base \<in> {''VARCHAR'', ''CHAR''} then AT_String
     else if base \<in> {''BLOB'', ''BIT''} then AT_Binary
     else if base = ''DATE'' then AT_Date32
     else if base = ''TIME'' then AT_Time64 Microseconds
     else if base = ''TIMESTAMP'' then Timestamp_us alib
     else if base = ''TIMESTAMP WITH TIME ZONE'' then AT_Timestamp Microseconds ''UTC''
     else if base = ''UUID'' then AT_FixedSizeBinary 16
     else AT_String)"

section \<open>GetTableSchema\<close>

definition table_schema_query :: "string option \<Rightarrow> string option \<Rightarrow> string \<Rightarrow> string" where
  "table_schema_query catalog dbSchema tableName =
     ''SELECT column_name, data_type, is_nullable FROM duckdb_columns() WHERE table_name = '' @ sqlString tableName
     @ (case catalog of Some s \<Rightarrow> (if s \<noteq> [] then '' AND database_name = '' @ sqlString s else []) | None \<Rightarrow> [])
     @ (case dbSchema of Some s \<Rightarrow> (if s \<noteq> [] then '' AND schema_name = '' @ sqlString s else []) | None \<Rightarrow> [])
     @ '' ORDER BY column_index''"

definition nullable_cell :: "DecodedVector option \<Rightarrow> nat \<Rightarrow> bool outcome" where
  "nullable_cell vec i = (case vec of None \<Rightarrow> Panic
     | Some v \<Rightarrow> outcome_bind (IsNull v (int i)) (\<lambda>null. if null then Done True
         else outcome_bind (GetObject v (int i)) (\<lambda>x. Done (case x of VBool b \<Rightarrow> b | _ \<Rightarrow> True))))"

definition schema_fields :: "arrow_lib \<Rightarrow> DataChunk \<Rightarrow> arrow_field list outcome" where
  "schema_fields alib chunk = outcome_bind (column_vec chunk 0) (\<lambda>nameVec. outcome_bind (column_vec chunk 1) (\<lambda>typeVec.
     outcome_bind (column_vec chunk 2) (\<lambda>nullableVec.
     map_outcome (\<lambda>i. outcome_bind (vec_object nameVec i) (\<lambda>name. outcome_bind (vec_object typeVec i) (\<lambda>ty.
       outcome_bind (nullable_cell nullableVec i) (\<lambda>nullable.
       Done (Field (as_string name) (arrowTypeForDuckDBName alib (as_string ty)) nullable))))) [0..<nat (RowCount chunk)])))"

definition getTableSchemaImpl :: "arrow_lib \<Rightarrow> 'w transport \<Rightarrow> nat \<Rightarrow> string option \<Rightarrow> string option \<Rightarrow> string \<Rightarrow> ('w, arrow_field list) conn_op" where
  "getTableSchemaImpl alib send n catalog dbSchema tableName =
     (if tableName = [] then cfail (errStatus StatusInvalidArgument ''GetTableSchema: tableName is required'')
      else metadata_query send n (table_schema_query catalog dbSchema tableName) (\<lambda>result.
        if length (ColumnTypes result) < 2
        then Done (Inl (errStatus StatusInternal ''GetTableSchema: unexpected metadata result shape''))
        else outcome_bind (map_outcome (schema_fields alib) (Chunks result)) (\<lambda>fss. Done (let flds = concat fss in
          if flds = [] then Inl (errStatus StatusNotFound (''table '' @ Quote tableName @ '' not found'')) else Inr flds))))"

definition getTableTypesImpl :: arrow_record where
  "getTableTypesImpl = \<lparr>rec_Fields = [Field ''table_type'' AT_String False],
     rec_Columns = [map CString [''TABLE'', ''LOCAL TEMPORARY'', ''VIEW'', ''SYSTEM VIEW'']]\<rparr>"

section \<open>GetInfo\<close>

text \<open>
  A row of the result: the code and the value, a member of a union (\<open>None\<close> is a null of the string kind).
  \<open>build_version\<close> is the main module's version in the build information, if there is one.
\<close>

definition InfoVendorName :: nat where "InfoVendorName = 0"
definition InfoVendorVersion :: nat where "InfoVendorVersion = 1"
definition InfoVendorSql :: nat where "InfoVendorSql = 3"
definition InfoVendorSubstrait :: nat where "InfoVendorSubstrait = 4"
definition InfoDriverName :: nat where "InfoDriverName = 100"
definition InfoDriverVersion :: nat where "InfoDriverVersion = 101"
definition InfoDriverArrowVersion :: nat where "InfoDriverArrowVersion = 102"
definition InfoDriverADBCVersion :: nat where "InfoDriverADBCVersion = 103"
definition AdbcVersion1_1_0 :: int where "AdbcVersion1_1_0 = 1001000"

lemmas info_codes = InfoVendorName_def InfoVendorVersion_def InfoVendorSql_def InfoVendorSubstrait_def
  InfoDriverName_def InfoDriverVersion_def InfoDriverArrowVersion_def InfoDriverADBCVersion_def

datatype info_value = InfoString "string option" | InfoInt64 int | InfoBool bool

definition supportedInfoCodes :: "nat list" where
  "supportedInfoCodes = [InfoVendorName, InfoVendorVersion, InfoVendorSql, InfoVendorSubstrait,
     InfoDriverName, InfoDriverVersion, InfoDriverArrowVersion, InfoDriverADBCVersion]"

definition driverInfoValues :: "nat \<Rightarrow> string" where
  "driverInfoValues code =
     (if code = InfoVendorName then ''DuckDB (via Quack)''
      else if code = InfoDriverName then ''ADBC Quack Driver - Go''
      else if code = InfoDriverVersion then ''0.0.0''
      else if code = InfoDriverArrowVersion then ''arrow-go/v18''
      else [])"

text \<open>Any error gives the empty string.\<close>

definition fetchVendorVersion :: "'w transport \<Rightarrow> nat \<Rightarrow> 'w connection \<Rightarrow> (string \<times> 'w connection) outcome" where
  "fetchVendorVersion send n c = outcome_bind (drainPrepared send n ''PRAGMA version'' (sess c)) (\<lambda>(r, s).
     outcome_bind (case r of
         Inl _ \<Rightarrow> Done []
       | Inr result \<Rightarrow> (case Chunks result of
           [] \<Rightarrow> Done []
         | chunk # _ \<Rightarrow> (if RowCount chunk = 0 \<or> Columns chunk = [] then Done []
             else outcome_bind (column_object chunk 0 0) (\<lambda>v. Done (case v of VString s \<Rightarrow> s | VBytes b \<Rightarrow> string_of_bytes b | _ \<Rightarrow> [])))))
       (\<lambda>version. Done (version, c\<lparr>sess := s\<rparr>)))"

text \<open>The version is asked for at every occurrence of its code until the answer is not empty.\<close>

primrec vendor_version :: "'w transport \<Rightarrow> nat \<Rightarrow> nat list \<Rightarrow> string \<Rightarrow> 'w connection \<Rightarrow> (string \<times> 'w connection) outcome" where
  "vendor_version send n [] version c = Done (version, c)"
| "vendor_version send n (code # codes) version c =
     (if code = InfoVendorVersion \<and> version = []
      then outcome_bind (fetchVendorVersion send n c) (\<lambda>(version, c). vendor_version send n codes version c)
      else vendor_version send n codes version c)"

definition info_row :: "string \<Rightarrow> string \<Rightarrow> nat \<Rightarrow> info_value" where
  "info_row vendorVersion driverVersion code =
     (if code = InfoVendorName then InfoString (Some (driverInfoValues code))
      else if code = InfoVendorVersion then InfoString (Some vendorVersion)
      else if code = InfoVendorSql then InfoBool True
      else if code = InfoVendorSubstrait then InfoBool False
      else if code = InfoDriverName then InfoString (Some (driverInfoValues code))
      else if code = InfoDriverVersion then InfoString (Some driverVersion)
      else if code = InfoDriverArrowVersion then InfoString (Some (driverInfoValues code))
      else if code = InfoDriverADBCVersion then InfoInt64 AdbcVersion1_1_0
      else InfoString None)"

definition getInfoImpl :: "string option \<Rightarrow> 'w transport \<Rightarrow> nat \<Rightarrow> nat list \<Rightarrow> ('w, (nat \<times> info_value) list) conn_op" where
  "getInfoImpl build_version send n infoCodes c =
     (let codes = (if infoCodes = [] then supportedInfoCodes else infoCodes);
          driverVersion = (case build_version of
              Some v \<Rightarrow> (if v \<noteq> [] \<and> v \<noteq> ''(devel)'' then v else driverInfoValues InfoDriverVersion)
            | None \<Rightarrow> driverInfoValues InfoDriverVersion)
      in outcome_bind (vendor_version send n codes [] c) (\<lambda>(vendorVersion, c).
         Done (Inr (map (\<lambda>code. (code, info_row vendorVersion driverVersion code)) codes), c)))"

end
