(* ===== verification/Objects.thy ===== *)
theory Objects
  imports Metadata
begin

text \<open>
  GetObjects (\<^verbatim>\<open>driver/quack/metadata_objects.go\<close>, \<^verbatim>\<open>metadata_constraints.go\<close> and the records of
  \<^verbatim>\<open>get_objects_types.go\<close>): the walk through catalogs, schemas, tables, columns and constraints.  The nested
  value it builds is what \<^verbatim>\<open>buildGetObjectsRecordReader\<close> (\<open>MetadataRecords\<close>) hands to the JSON packages and the Arrow
  builder.
\<close>

section \<open>Records\<close>

record constraintColumnUsage =
  FkCatalog :: "string option"
  FkDbSchema :: "string option"
  FkTable :: string
  FkColumnName :: string

record constraintInfo =
  ConstraintName :: "string option"
  ConstraintType :: string
  ConstraintColumnNames :: "string list"
  ConstraintColumnUsage :: "constraintColumnUsage list"

text \<open>The fields of a column that the driver fills in; the other fields stay nil.\<close>

record columnInfo =
  ColumnName :: string
  OrdinalPosition :: "32 word option"
  Remarks :: "string option"
  XdbcTypeName :: "string option"
  XdbcNullable :: "16 word option"
  XdbcColumnDef :: "string option"
  XdbcIsNullable :: "string option"

record tableInfo =
  TableName :: string
  TableType :: string
  TableColumns :: "columnInfo list"
  TableConstraints :: "constraintInfo list"

record dbSchemaInfo =
  DbSchemaName :: string
  DbSchemaTables :: "tableInfo list"

record getObjectsInfo =
  CatalogName :: string
  CatalogDbSchemas :: "dbSchemaInfo list"

definition ObjectDepthAll :: nat where "ObjectDepthAll = 0"
definition ObjectDepthCatalogs :: nat where "ObjectDepthCatalogs = 1"
definition ObjectDepthDBSchemas :: nat where "ObjectDepthDBSchemas = 2"
definition ObjectDepthTables :: nat where "ObjectDepthTables = 3"

section \<open>Queries\<close>

abbreviation nl :: string where "nl \<equiv> [newline]"

text \<open>A strings column: the column is looked up once per chunk, values that are not strings are left out.\<close>

definition string_rows :: "DataChunk \<Rightarrow> string list outcome" where
  "string_rows chunk = outcome_bind (column_vec chunk 0) (\<lambda>col.
     outcome_bind (map_outcome (\<lambda>i. outcome_bind (vec_object col i) (\<lambda>v. Done (string_value v))) [0..<nat (RowCount chunk)])
       (\<lambda>vs. Done (List.map_filter id vs)))"

definition queryStringColumn :: "'w transport \<Rightarrow> nat \<Rightarrow> string \<Rightarrow> ('w, string list) conn_op" where
  "queryStringColumn send n sql = metadata_query send n sql (\<lambda>result.
     outcome_bind (map_outcome string_rows (Chunks result)) (\<lambda>rss. Done (Inr (concat rss))))"

definition queryTableNames :: "'w transport \<Rightarrow> nat \<Rightarrow> string \<Rightarrow> ('w, (string \<times> string) list) conn_op" where
  "queryTableNames send n sql = metadata_query send n sql (\<lambda>result.
     outcome_bind (result_rows (\<lambda>chunk i. outcome_bind (column_string chunk 0 i) (\<lambda>name.
       outcome_bind (column_string chunk 1 i) (\<lambda>tt. Done (name, tt)))) (Chunks result)) (\<lambda>rows. Done (Inr rows)))"

definition catalogs_query :: "string option \<Rightarrow> string" where
  "catalogs_query catalog = appendEqualsQual ''SELECT DISTINCT catalog_name FROM information_schema.schemata WHERE TRUE''
     ''catalog_name'' catalog @ '' ORDER BY catalog_name''"

definition listCatalogs :: "'w transport \<Rightarrow> nat \<Rightarrow> string option \<Rightarrow> ('w, string list) conn_op" where
  "listCatalogs send n catalog = queryStringColumn send n (catalogs_query catalog)"

definition schemas_query :: "string \<Rightarrow> string option \<Rightarrow> string" where
  "schemas_query catalog pattern = appendLikeQual (''SELECT schema_name FROM information_schema.schemata WHERE TRUE''
     @ '' AND catalog_name = '' @ sqlString catalog) ''schema_name'' pattern @ '' ORDER BY schema_name''"

definition listDBSchemas :: "'w transport \<Rightarrow> nat \<Rightarrow> string \<Rightarrow> string option \<Rightarrow> ('w, string list) conn_op" where
  "listDBSchemas send n catalog pattern = queryStringColumn send n (schemas_query catalog pattern)"

definition tables_query :: "string \<Rightarrow> string \<Rightarrow> string option \<Rightarrow> string list \<Rightarrow> string" where
  "tables_query catalog schema tableFilter tableTypes = appendLikeQual
     (''SELECT table_name, table_type FROM ('' @ nl
      @ ''SELECT database_name AS table_catalog, schema_name AS table_schema, table_name,'' @ nl
      @ ''       CASE WHEN ('' @ quoteIdent ''temporary'' @ '') THEN ('' @ sqlString ''LOCAL TEMPORARY'' @ '') WHEN ('' @ quoteIdent ''internal'' @ '') THEN ''
        @ sqlString ''SYSTEM TABLE'' @ '' ELSE '' @ sqlString ''TABLE'' @ '' END AS table_type'' @ nl
      @ ''FROM duckdb_tables()'' @ nl
      @ ''UNION ALL'' @ nl
      @ ''SELECT database_name, schema_name, view_name,'' @ nl
      @ ''       CASE WHEN ('' @ quoteIdent ''internal'' @ '') THEN '' @ sqlString ''SYSTEM VIEW'' @ '' ELSE '' @ sqlString ''VIEW'' @ '' END'' @ nl
      @ ''FROM duckdb_views()'' @ nl
      @ '') x WHERE table_catalog = '' @ sqlString catalog @ '' AND table_schema = '' @ sqlString schema)
     ''table_name'' tableFilter
     @ (if tableTypes = [] then [] else '' AND table_type IN ('' @ Join (map sqlString tableTypes) '', '' @ '')'')
     @ '' ORDER BY table_name''"

definition columns_query :: "string \<Rightarrow> string \<Rightarrow> string \<Rightarrow> string option \<Rightarrow> string" where
  "columns_query catalog schema table columnFilter = appendLikeQual
     (''SELECT column_name, column_index, data_type, is_nullable, column_default, comment'' @ nl
      @ ''FROM duckdb_columns() WHERE database_name = '' @ sqlString catalog @ '' AND schema_name = '' @ sqlString schema
      @ '' AND table_name = '' @ sqlString table) ''column_name'' columnFilter @ '' ORDER BY column_index''"

section \<open>Columns of a table\<close>

definition toInt32Ok :: "govalue \<Rightarrow> 32 word option" where
  "toInt32Ok v = (case v of
       VInt x \<Rightarrow> Some (word_of_int x)
     | VInt8 x \<Rightarrow> Some (scast x)
     | VInt16 x \<Rightarrow> Some (scast x)
     | VInt32 x \<Rightarrow> Some x
     | VInt64 x \<Rightarrow> Some (ucast x)
     | VUint32 x \<Rightarrow> Some x
     | VUint64 x \<Rightarrow> Some (ucast x)
     | _ \<Rightarrow> None)"

definition column_info :: "DataChunk \<Rightarrow> nat \<Rightarrow> columnInfo outcome" where
  "column_info chunk i = outcome_bind (map_outcome (\<lambda>k. column_object chunk k i) [0..<6]) (\<lambda>vs.
     Done \<lparr>ColumnName = as_string (vs ! 0), OrdinalPosition = toInt32Ok (vs ! 1), Remarks = string_value (vs ! 5),
       XdbcTypeName = string_value (vs ! 2),
       XdbcNullable = (case vs ! 3 of VBool b \<Rightarrow> Some (if b then 1 else 0) | _ \<Rightarrow> None),
       XdbcColumnDef = string_value (vs ! 4),
       XdbcIsNullable = (case vs ! 3 of VBool b \<Rightarrow> Some (if b then ''YES'' else ''NO'') | _ \<Rightarrow> None)\<rparr>)"

definition listColumnsForTable :: "'w transport \<Rightarrow> nat \<Rightarrow> string \<Rightarrow> string \<Rightarrow> string \<Rightarrow> string option \<Rightarrow> ('w, columnInfo list) conn_op" where
  "listColumnsForTable send n catalog schema table columnFilter =
     metadata_query send n (columns_query catalog schema table columnFilter) (\<lambda>result.
       outcome_bind (result_rows column_info (Chunks result)) (\<lambda>cols. Done (Inr cols)))"

section \<open>Constraints\<close>

text \<open>
  The accumulators, a map from the table to a map from the constraint: a function whose values list the
  constraints of the table with what was appended for them.  Go ranges over a map in an order of its own; it
  is the argument \<open>order\<close>.
\<close>

primrec add_part :: "string \<Rightarrow> 'a \<Rightarrow> (string \<times> 'a list) list \<Rightarrow> (string \<times> 'a list) list" where
  "add_part cname x [] = [(cname, [x])]"
| "add_part cname x (g # gs) = (if fst g = cname then (cname, snd g @ [x]) # gs else g # add_part cname x gs)"

definition group_rows :: "(string \<times> string \<times> 'a) list \<Rightarrow> string \<Rightarrow> (string \<times> 'a list) list" where
  "group_rows rows = fold (\<lambda>(table, cname, x) m. m(table := add_part cname x (m table))) rows (\<lambda>_. [])"

definition constraint_name :: "string \<Rightarrow> string option" where
  "constraint_name name = (if name = [] then None else Some name)"

type_synonym constraint_map = "string \<Rightarrow> constraintInfo list"

type_synonym 'a map_order = "(string \<times> 'a list) list \<Rightarrow> (string \<times> 'a list) list"

definition primary_keys_query :: "string \<Rightarrow> string \<Rightarrow> string" where
  "primary_keys_query catalog schema =
     ''SELECT table_name, constraint_name, column_index, column_name'' @ nl
     @ ''FROM (SELECT dc.*,'' @ nl
     @ ''             UNNEST(dc.constraint_column_indexes) AS column_index,'' @ nl
     @ ''             UNNEST(dc.constraint_column_names)   AS column_name'' @ nl
     @ ''      FROM duckdb_constraints() AS dc'' @ nl
     @ ''      WHERE constraint_type = '' @ sqlString ''PRIMARY KEY'' @ '')'' @ nl
     @ ''WHERE database_name = '' @ sqlString catalog @ '' AND schema_name = '' @ sqlString schema
     @ '' ORDER BY table_name, constraint_name, column_index''"

definition pk_row :: "DataChunk \<Rightarrow> nat \<Rightarrow> (string \<times> string \<times> string) outcome" where
  "pk_row chunk i = outcome_bind (column_string chunk 0 i) (\<lambda>table. outcome_bind (column_string chunk 1 i) (\<lambda>cname.
     outcome_bind (column_string chunk 3 i) (\<lambda>col. Done (table, cname, col))))"

definition primary_key :: "string \<times> string list \<Rightarrow> constraintInfo" where
  "primary_key acc = \<lparr>ConstraintName = constraint_name (fst acc), ConstraintType = ''PRIMARY KEY'',
     ConstraintColumnNames = snd acc, ConstraintColumnUsage = []\<rparr>"

definition loadPrimaryKeys :: "string map_order \<Rightarrow> 'w transport \<Rightarrow> nat \<Rightarrow> string \<Rightarrow> string \<Rightarrow> constraint_map \<Rightarrow> ('w, constraint_map) conn_op" where
  "loadPrimaryKeys order send n catalog schema byTable = metadata_query send n (primary_keys_query catalog schema) (\<lambda>result.
     outcome_bind (result_rows pk_row (Chunks result)) (\<lambda>rows.
     let groups = group_rows (filter (\<lambda>(table, cname, col). table \<noteq> [] \<and> col \<noteq> []) rows)
     in Done (Inr (\<lambda>table. byTable table @ map primary_key (order (groups table))))))"

definition foreign_keys_query :: "string \<Rightarrow> string \<Rightarrow> string" where
  "foreign_keys_query catalog schema =
     ''SELECT table_name,'' @ nl @ ''       constraint_name,'' @ nl @ ''       column_index,'' @ nl @ ''       column_name,'' @ nl
     @ ''       database_name AS referenced_catalog,'' @ nl @ ''       schema_name   AS referenced_schema,'' @ nl
     @ ''       referenced_table,'' @ nl @ ''       referenced_column_name'' @ nl
     @ ''FROM (SELECT dc.*,'' @ nl
     @ ''             UNNEST(dc.constraint_column_indexes)  AS column_index,'' @ nl
     @ ''             UNNEST(dc.constraint_column_names)    AS column_name,'' @ nl
     @ ''             UNNEST(dc.referenced_column_names)    AS referenced_column_name'' @ nl
     @ ''      FROM duckdb_constraints() AS dc'' @ nl
     @ ''      WHERE constraint_type = '' @ sqlString ''FOREIGN KEY'' @ '')'' @ nl
     @ ''WHERE database_name = '' @ sqlString catalog @ '' AND schema_name = '' @ sqlString schema
     @ '' ORDER BY table_name, constraint_name, column_index''"

definition fk_usage :: "string \<Rightarrow> string \<Rightarrow> string \<Rightarrow> string \<Rightarrow> constraintColumnUsage" where
  "fk_usage refCat refSch refTab refCol = \<lparr>FkCatalog = constraint_name refCat, FkDbSchema = constraint_name refSch,
     FkTable = refTab, FkColumnName = refCol\<rparr>"

definition fk_row :: "DataChunk \<Rightarrow> nat \<Rightarrow> (string \<times> string \<times> string \<times> constraintColumnUsage) outcome" where
  "fk_row chunk i = outcome_bind (column_string chunk 0 i) (\<lambda>table. outcome_bind (column_string chunk 1 i) (\<lambda>cname.
     outcome_bind (column_string chunk 3 i) (\<lambda>col. outcome_bind (column_string chunk 4 i) (\<lambda>refCat.
     outcome_bind (column_string chunk 5 i) (\<lambda>refSch. outcome_bind (column_string chunk 6 i) (\<lambda>refTab.
     outcome_bind (column_string chunk 7 i) (\<lambda>refCol. Done (table, cname, col, fk_usage refCat refSch refTab refCol))))))))"

definition foreign_key :: "string \<times> (string \<times> constraintColumnUsage) list \<Rightarrow> constraintInfo" where
  "foreign_key acc = \<lparr>ConstraintName = constraint_name (fst acc), ConstraintType = ''FOREIGN KEY'',
     ConstraintColumnNames = map fst (snd acc), ConstraintColumnUsage = map snd (snd acc)\<rparr>"

text \<open>An error of the query is dropped: the map is left as it is.\<close>

definition loadForeignKeys :: "(string \<times> constraintColumnUsage) map_order \<Rightarrow> 'w transport \<Rightarrow> nat \<Rightarrow> string \<Rightarrow> string \<Rightarrow> constraint_map \<Rightarrow> ('w, constraint_map) conn_op" where
  "loadForeignKeys order send n catalog schema byTable c =
     outcome_bind (drainPrepared send n (foreign_keys_query catalog schema) (sess c)) (\<lambda>(r, s). case r of
         Inl _ \<Rightarrow> Done (Inr byTable, c\<lparr>sess := s\<rparr>)
       | Inr result \<Rightarrow> outcome_bind (result_rows fk_row (Chunks result)) (\<lambda>rows.
           let groups = group_rows (filter (\<lambda>(table, cname, col, usage). table \<noteq> [] \<and> col \<noteq> [] \<and> FkTable usage \<noteq> []) rows)
           in Done (Inr (\<lambda>table. byTable table @ map foreign_key (order (groups table))), c\<lparr>sess := s\<rparr>)))"

definition loadConstraintsForSchema :: "string map_order \<Rightarrow> (string \<times> constraintColumnUsage) map_order \<Rightarrow> 'w transport \<Rightarrow> nat \<Rightarrow> string \<Rightarrow> string
    \<Rightarrow> ('w, constraint_map) conn_op" where
  "loadConstraintsForSchema opk ofk send n catalog schema =
     cbind (loadPrimaryKeys opk send n catalog schema (\<lambda>_. [])) (loadForeignKeys ofk send n catalog schema)"

section \<open>The walk\<close>

text \<open>A loop over elements, with the connection threaded through and the first error ending it.\<close>

primrec cmapM :: "('a \<Rightarrow> ('w, 'b) conn_op) \<Rightarrow> 'a list \<Rightarrow> ('w, 'b list) conn_op" where
  "cmapM f [] = cret []"
| "cmapM f (x # xs) = cbind (f x) (\<lambda>y. cbind (cmapM f xs) (\<lambda>ys. cret (y # ys)))"

definition listTablesForDBSchema :: "string map_order \<Rightarrow> (string \<times> constraintColumnUsage) map_order \<Rightarrow> 'w transport \<Rightarrow> nat
    \<Rightarrow> string \<Rightarrow> string \<Rightarrow> string option \<Rightarrow> string option \<Rightarrow> string list \<Rightarrow> bool \<Rightarrow> ('w, tableInfo list) conn_op" where
  "listTablesForDBSchema opk ofk send n catalog schema tableFilter columnFilter tableTypes includeColumns =
     cbind (queryTableNames send n (tables_query catalog schema tableFilter tableTypes)) (\<lambda>tableRows.
     if includeColumns
     then cbind (loadConstraintsForSchema opk ofk send n catalog schema) (\<lambda>constraintsByTable.
       cmapM (\<lambda>(name, ty). cbind (listColumnsForTable send n catalog schema name columnFilter) (\<lambda>cols.
         cret \<lparr>TableName = name, TableType = ty, TableColumns = cols, TableConstraints = constraintsByTable name\<rparr>)) tableRows)
     else cret (map (\<lambda>(name, ty). \<lparr>TableName = name, TableType = ty, TableColumns = [], TableConstraints = []\<rparr>) tableRows))"

definition getObjectsImpl :: "string map_order \<Rightarrow> (string \<times> constraintColumnUsage) map_order \<Rightarrow> 'w transport \<Rightarrow> nat
    \<Rightarrow> nat \<Rightarrow> string option \<Rightarrow> string option \<Rightarrow> string option \<Rightarrow> string option \<Rightarrow> string list \<Rightarrow> ('w, getObjectsInfo list) conn_op" where
  "getObjectsImpl opk ofk send n depth catalog dbSchema tableName columnName tableTypes =
     cbind (listCatalogs send n catalog) (\<lambda>catalogs.
     cmapM (\<lambda>cat. if depth = ObjectDepthCatalogs then cret \<lparr>CatalogName = cat, CatalogDbSchemas = []\<rparr>
       else cbind (listDBSchemas send n cat dbSchema) (\<lambda>schemas.
         cbind (cmapM (\<lambda>sch. if depth = ObjectDepthDBSchemas then cret \<lparr>DbSchemaName = sch, DbSchemaTables = []\<rparr>
           else cbind (listTablesForDBSchema opk ofk send n cat sch tableName columnName tableTypes (depth = ObjectDepthAll))
             (\<lambda>tables. cret \<lparr>DbSchemaName = sch, DbSchemaTables = tables\<rparr>)) schemas)
         (\<lambda>entries. cret \<lparr>CatalogName = cat, CatalogDbSchemas = entries\<rparr>))) catalogs)"

section \<open>Grouping\<close>

text \<open>
  What the accumulators hold: for every table its constraints in the order of their first row, each with
  what its rows contributed, in row order.
\<close>

lemma add_part_names: "map fst (add_part c x gs) = (if c \<in> set (map fst gs) then map fst gs else map fst gs @ [c])"
  by (induction gs) auto

lemma add_part_lookup:
  "map_of (add_part c x gs) d = (if d = c then Some ((case map_of gs c of None \<Rightarrow> [] | Some xs \<Rightarrow> xs) @ [x]) else map_of gs d)"
  by (induction gs) auto

definition rows_for :: "(string \<times> string \<times> 'a) list \<Rightarrow> string \<Rightarrow> string \<Rightarrow> 'a list" where
  "rows_for rows table cname = map (snd \<circ> snd) (filter (\<lambda>r. fst r = table \<and> fst (snd r) = cname) rows)"

definition names_for :: "(string \<times> string \<times> 'a) list \<Rightarrow> string \<Rightarrow> string list" where
  "names_for rows table = rev (remdups (rev (map (fst \<circ> snd) (filter (\<lambda>r. fst r = table) rows))))"

lemma group_rows_snoc:
  "group_rows (rows @ [(t, c, x)]) = (group_rows rows)(t := add_part c x (group_rows rows t))"
  by (simp add: group_rows_def)

lemma names_for_snoc:
  "names_for (rows @ [(t, c, x)]) table =
     (if t = table \<and> c \<notin> set (names_for rows table) then names_for rows table @ [c] else names_for rows table)"
  by (simp add: names_for_def)

lemma rows_for_snoc:
  "rows_for (rows @ [(t, c, x)]) table d = (if t = table \<and> c = d then rows_for rows table d @ [x] else rows_for rows table d)"
  by (simp add: rows_for_def)

lemma rows_for_new: "c \<notin> set (names_for rows table) \<Longrightarrow> rows_for rows table c = []"
  by (auto simp: rows_for_def names_for_def filter_empty_conv)

lemma group_rows_spec:
  "map fst (group_rows rows table) = names_for rows table \<and>
   (\<forall>cname. map_of (group_rows rows table) cname = (if cname \<in> set (names_for rows table) then Some (rows_for rows table cname) else None))"
proof (induction rows rule: rev_induct)
  case Nil
  then show ?case by (simp add: group_rows_def names_for_def)
next
  case (snoc r rows)
  obtain t c x where r: "r = (t, c, x)" by (cases r)
  show ?case
    using snoc
    by (cases "t = table")
      (auto simp: r group_rows_snoc add_part_names add_part_lookup names_for_snoc rows_for_snoc rows_for_new)
qed

lemma group_rows_distinct: "distinct (map fst (group_rows rows table))"
  using group_rows_spec [of rows table] by (simp add: names_for_def)

text \<open>The groups of a table, as a function of its rows.\<close>

lemma group_rows_eq: "group_rows rows table = map (\<lambda>c. (c, rows_for rows table c)) (names_for rows table)"
proof (rule nth_equalityI)
  have names: "map fst (group_rows rows table) = names_for rows table" using group_rows_spec by blast
  then show len: "length (group_rows rows table) = length (map (\<lambda>c. (c, rows_for rows table c)) (names_for rows table))"
    by (metis length_map)
  fix i assume i: "i < length (group_rows rows table)"
  then have n: "names_for rows table ! i = fst (group_rows rows table ! i)" by (metis names nth_map)
  have "map_of (group_rows rows table) (fst (group_rows rows table ! i)) = Some (snd (group_rows rows table ! i))"
    using map_of_is_SomeI [OF group_rows_distinct, of "fst (group_rows rows table ! i)" "snd (group_rows rows table ! i)" rows table] i
    by (metis nth_mem prod.collapse)
  then have "snd (group_rows rows table ! i) = rows_for rows table (names_for rows table ! i)"
    using group_rows_spec [of rows table] n by (metis option.inject option.distinct(1))
  then show "group_rows rows table ! i = map (\<lambda>c. (c, rows_for rows table c)) (names_for rows table) ! i"
    using i len n by (simp add: prod_eq_iff)
qed

end
