(* ===== verification/Transactions.thy ===== *)
theory Transactions
  imports Runs Objects
begin

text \<open>
  The connection as a state machine: what a client can do with it, and how the transaction on the server
  follows \<open>autoCommit\<close> and \<open>txOpen\<close>.
\<close>

section \<open>Metadata reads are runs\<close>

text \<open>The SQL texts the driver generates of its own: the queries of the metadata functions.\<close>

definition is_query :: "string \<Rightarrow> bool" where
  "is_query t \<longleftrightarrow> (\<exists>cat sch tab. t = table_schema_query cat sch tab) \<or> (\<exists>cat. t = catalogs_query cat) \<or>
     (\<exists>c p. t = schemas_query c p) \<or> (\<exists>c s tf tts. t = tables_query c s tf tts) \<or> (\<exists>c s tab cf. t = columns_query c s tab cf) \<or>
     (\<exists>c s. t = primary_keys_query c s) \<or> (\<exists>c s. t = foreign_keys_query c s) \<or> t = ''PRAGMA version''"

lemma queries [run_rules]:
  "is_query (table_schema_query cat sch tab)" "is_query (catalogs_query cat)" "is_query (schemas_query c p)"
  "is_query (tables_query c s tf tts)" "is_query (columns_query c s t cf)"
  "is_query (primary_keys_query c s)" "is_query (foreign_keys_query c s)"
  unfolding is_query_def by blast+

lemma runs_metadata_query [run_rules]: "is_query sql \<Longrightarrow> runs send is_query (metadata_query send n sql f)"
  unfolding metadata_query_def
  by (intro runs_cbind runs_drain) (auto simp: runs_def outcome_bind_eq_Done intro: session_run.idle)

lemma qual_SELECT:
  "HasPrefix (appendLikeQual (''SELECT '' @ s) col p @ t) ''SELECT ''" "HasPrefix (appendEqualsQual (''SELECT '' @ s) col p @ t) ''SELECT ''"
  by (auto simp: HasPrefix_def appendLikeQual_def appendEqualsQual_def split: option.split)

lemma query_SELECT: "is_query t \<Longrightarrow> HasPrefix t ''SELECT '' \<or> t = ''PRAGMA version''"
  using qual_SELECT(1) [of "_ @ _" _ _ "_ @ _"] qual_SELECT(2) qual_SELECT(1)
  unfolding is_query_def
  by (elim disjE exE) (simp_all add: table_schema_query_def catalogs_query_def schemas_query_def tables_query_def columns_query_def
      primary_keys_query_def foreign_keys_query_def HasPrefix_def appendLikeQual_def appendEqualsQual_def split: option.split)

lemma runs_cmapM [run_rules]: "(\<And>x. runs send Q (f x)) \<Longrightarrow> runs send Q (cmapM f xs)"
  by (induction xs) (auto intro!: run_rules)

lemma runs_getTableSchema: "runs send is_query (getTableSchemaImpl alib send n cat sch tab)"
  unfolding getTableSchemaImpl_def by (intro run_rules)

lemma fetchVendorVersion_run: "fetchVendorVersion send n c = Done (v, c') \<Longrightarrow> stays send is_query c c'"
  by (auto simp: fetchVendorVersion_def outcome_bind_eq_Done stays_def is_query_def intro: drainPrepared_run)

lemma stays_trans: "stays send Q c c' \<Longrightarrow> stays send Q c' c'' \<Longrightarrow> stays send Q c c''"
  by (auto simp: stays_def intro: session_run_trans)

lemma vendor_version_run: "vendor_version send n codes v c = Done (v', c') \<Longrightarrow> stays send is_query c c'"
proof (induction codes arbitrary: v c)
  case (Cons code codes)
  then show ?case
    by (auto simp: outcome_bind_eq_Done intro: stays_trans dest!: fetchVendorVersion_run split: if_splits prod.splits)
qed (simp add: stays_refl)

lemma runs_getInfo: "runs send is_query (getInfoImpl bv send n codes)"
  by (rule runsI) (auto simp: getInfoImpl_def Let_def outcome_bind_eq_Done stays_def dest!: vendor_version_run)

lemma runs_loadForeignKeys [run_rules]: "runs send is_query (loadForeignKeys ofk send n cat sch m)"
proof (rule runsI)
  fix c r c' assume "loadForeignKeys ofk send n cat sch m c = Done (r, c')"
  then obtain q s where q: "drainPrepared send n (foreign_keys_query cat sch) (sess c) = Done (q, s)"
    and "loadForeignKeys ofk send n cat sch m c = Done (r, c')"
    by (auto simp: loadForeignKeys_def outcome_bind_eq_Done)
  then have "c' = c\<lparr>sess := s\<rparr>"
    by (cases q) (auto simp: loadForeignKeys_def outcome_bind_eq_Done Let_def)
  note q this
  then show "session_run send is_query (sess c) (sess c') \<and> autoCommit c' = autoCommit c \<and> txOpen c' = txOpen c"
    using drainPrepared_run [where Q = is_query, OF queries(7)] by simp
qed

lemma runs_getObjects: "runs send is_query (getObjectsImpl opk ofk send n depth cat sch tab col tts)"
  unfolding getObjectsImpl_def listCatalogs_def listDBSchemas_def listTablesForDBSchema_def listColumnsForTable_def
    queryStringColumn_def queryTableNames_def loadConstraintsForSchema_def loadPrimaryKeys_def case_prod_beta
  by (intro run_rules)

section \<open>Runs of a connection\<close>

text \<open>
  What a client does with an open connection, reading from the readers it got included.  The SQL texts of the client satisfy \<open>Q\<close>.
\<close>

inductive conn_step :: "(string \<Rightarrow> bool) \<Rightarrow> libs \<Rightarrow> 'w transport \<Rightarrow> nat \<Rightarrow> 'w connection \<Rightarrow> 'w connection \<Rightarrow> bool"
  for Q ls send n where
  commit: "Commit send n c = Done (r, c') \<Longrightarrow> conn_step Q ls send n c c'"
| rollback: "Rollback send n c = Done (r, c') \<Longrightarrow> conn_step Q ls send n c c'"
| set_option: "SetOption_conn send n key val c = Done (r, c') \<Longrightarrow> conn_step Q ls send n c c'"
| execute_query: "(\<And>t. sql_of ls st t \<Longrightarrow> Q t) \<Longrightarrow> ExecuteQuery ls send n c st = Done (r, c', st') \<Longrightarrow> conn_step Q ls send n c c'"
| execute_update: "(\<And>t. sql_of ls st t \<Longrightarrow> Q t) \<Longrightarrow> ExecuteUpdate ls send n c st = Done (r, c', st') \<Longrightarrow> conn_step Q ls send n c c'"
| get_table_schema: "getTableSchemaImpl (l_arrow ls) send n cat sch tab c = Done (r, c') \<Longrightarrow> conn_step Q ls send n c c'"
| get_info: "getInfoImpl bv send n codes c = Done (r, c') \<Longrightarrow> conn_step Q ls send n c c'"
| get_objects: "getObjectsImpl opk ofk send n depth cat osch otab col tts c = Done (r, c') \<Longrightarrow> conn_step Q ls send n c c'"
| read_reader: "read_records (l_arrow ls) (l_go ls) send n k rr (sess c) = Done (r, s) \<Longrightarrow> conn_step Q ls send n c (c\<lparr>sess := s\<rparr>)"

inductive conn_run :: "(string \<Rightarrow> bool) \<Rightarrow> libs \<Rightarrow> 'w transport \<Rightarrow> nat \<Rightarrow> 'w connection \<Rightarrow> 'w connection \<Rightarrow> bool"
  for Q ls send n where
  idle: "conn_run Q ls send n c c"
| more_steps: "conn_run Q ls send n c c' \<Longrightarrow> conn_step Q ls send n c' c'' \<Longrightarrow> conn_run Q ls send n c c''"

text \<open>An execution is, after the lazy BEGIN, a run with the SQL texts of the statement.\<close>

lemma ExecuteQuery_splits:
  assumes "ExecuteQuery ls send n c st = Done (r, c', st')"
  obtains "c' = c" | r1 c1 where "beginTxIfNeeded send n c = Done (r1, c1)" "stays send (sql_of ls st) c1 c'"
proof (cases "st_sql st = []")
  case False
  then obtain r1 c1 where b: "beginTxIfNeeded send n c = Done (r1, c1)"
    using assms by (auto simp: ExecuteQuery_def outcome_bind_eq_Done)
  have "stays send (sql_of ls st) c1 c'"
    using assms False b
    by (cases r1) (auto simp: ExecuteQuery_def with_stmt_Done stays_refl split: if_splits intro: runs_stays run_rules)
  then show ?thesis by (rule that(2) [OF b])
qed (use assms in \<open>auto simp: ExecuteQuery_def intro: that(1)\<close>)

lemma ExecuteUpdate_splits:
  assumes "ExecuteUpdate ls send n c st = Done (r, c', st')"
  obtains r1 c1 where "beginTxIfNeeded send n c = Done (r1, c1)" "stays send (sql_of ls st) c1 c'"
proof -
  obtain r1 c1 where b: "beginTxIfNeeded send n c = Done (r1, c1)"
    using assms by (auto simp: ExecuteUpdate_def outcome_bind_eq_Done)
  have "stays send (sql_of ls st) c1 c'"
    using assms b
    by (cases r1) (auto simp: ExecuteUpdate_def with_stmt_Done stays_refl split: if_splits intro: runs_stays run_rules)
  then show ?thesis by (rule that [OF b])
qed

section \<open>The transaction on the server\<close>

text \<open>
  The SQL texts a connection sent, with what became of each, and the transaction they leave on the server,
  given what each text does there: \<open>Some True\<close> opens a transaction, \<open>Some False\<close> ends it, \<open>None\<close> leaves it.
  The result is \<open>None\<close> once a text opens a transaction inside one or ends one outside.  A statement the server did
  not prepare changes nothing.
\<close>

definition is_control :: "string \<Rightarrow> bool" where
  "is_control sql \<longleftrightarrow> sql \<in> {''BEGIN TRANSACTION'', ''COMMIT'', ''ROLLBACK''}"

definition prepared :: "go_error + QuackMessage option \<Rightarrow> bool" where
  "prepared r \<longleftrightarrow> (case r of Inr (Some m) \<Rightarrow> messageTypeOf m = MessageTypePrepareResponse | _ \<Rightarrow> False)"

fun control_of :: "QuackMessage \<times> (go_error + QuackMessage option) \<Rightarrow> (string \<times> bool) list" where
  "control_of (PrepareRequest hdr sql, r) = [(sql, prepared r)]"
| "control_of (m, r) = []"

definition controls :: "exchanges \<Rightarrow> (string \<times> bool) list" where
  "controls es = concat (map control_of es)"

primrec tx_after :: "(string \<Rightarrow> bool option) \<Rightarrow> bool \<Rightarrow> (string \<times> bool) list \<Rightarrow> bool option" where
  "tx_after eff b [] = Some b"
| "tx_after eff b (x # xs) =
     (case eff (fst x) of None \<Rightarrow> tx_after eff b xs
      | Some b' \<Rightarrow> if b' = b then None else tx_after eff (if snd x then b' else b) xs)"

text \<open>What the server is relied on to do with the texts the driver sends of its own.\<close>

definition knows_control :: "(string \<Rightarrow> bool option) \<Rightarrow> bool" where
  "knows_control eff \<longleftrightarrow> eff ''BEGIN TRANSACTION'' = Some True \<and> eff ''COMMIT'' = Some False \<and> eff ''ROLLBACK'' = Some False \<and>
     (\<forall>t. is_query t \<longrightarrow> eff t = None)"

text \<open>The reply to a statement comes in one piece: no batch is left to fetch.  So it is for the driver's own transaction statements.\<close>

definition answers_at_once :: "'w transport \<Rightarrow> string \<Rightarrow> bool" where
  "answers_at_once send sql \<longleftrightarrow> (\<forall>hdr w w' h tys names more_chunks chunks uuid.
     send (PrepareRequest hdr sql) w = Done (Inr (Some (PrepareResponse h tys names more_chunks chunks uuid)), w') \<longrightarrow> \<not> more_chunks)"

definition control_simple :: "'w transport \<Rightarrow> bool" where
  "control_simple send \<longleftrightarrow> (\<forall>sql. is_control sql \<longrightarrow> answers_at_once send sql)"

lemma answers_at_onceD:
  "answers_at_once send sql \<Longrightarrow>
   send (PrepareRequest hdr sql) w = Done (Inr (Some (PrepareResponse h tys names more_chunks chunks uuid)), w') \<Longrightarrow> \<not> more_chunks"
  unfolding answers_at_once_def by blast

lemma control_simpleD: "control_simple send \<Longrightarrow> is_control sql \<Longrightarrow> answers_at_once send sql"
  unfolding control_simple_def by blast

definition tx_log :: "(exchanges \<times> 'w) connection \<Rightarrow> (string \<times> bool) list" where
  "tx_log c = controls (fst (s_world (sess c)))"

definition tx_inv :: "(string \<Rightarrow> bool option) \<Rightarrow> (exchanges \<times> 'w) connection \<Rightarrow> bool" where
  "tx_inv eff c \<longleftrightarrow> tx_after eff False (tx_log c) = Some (txOpen c) \<and> (autoCommit c \<longrightarrow> \<not> txOpen c)"

lemma tx_after_append: "tx_after eff b (xs @ ys) = Option.bind (tx_after eff b xs) (\<lambda>b. tx_after eff b ys)"
  by (induction xs arbitrary: b) (auto split: option.split)

text \<open>A part of the log that leaves every transaction alone.\<close>

definition grows_quietly :: "(string \<Rightarrow> bool option) \<Rightarrow> exchanges \<Rightarrow> exchanges \<Rightarrow> bool" where
  "grows_quietly eff es es' \<longleftrightarrow> (\<exists>xs. controls es' = controls es @ xs \<and> (\<forall>x \<in> set xs. eff (fst x) = None))"

lemma grows_quietly_refl [simp]: "grows_quietly eff es es"
  by (simp add: grows_quietly_def)

lemma grows_quietly_eq: "controls es' = controls es \<Longrightarrow> grows_quietly eff es es'"
  by (simp add: grows_quietly_def)

lemma grows_quietly_trans: "grows_quietly eff es es' \<Longrightarrow> grows_quietly eff es' es'' \<Longrightarrow> grows_quietly eff es es''"
  by (fastforce simp: grows_quietly_def)

lemma tx_after_quiet: "grows_quietly eff es es' \<Longrightarrow> tx_after eff b (controls es') = tx_after eff b (controls es)"
proof -
  have "tx_after eff b xs = Some b" if "\<forall>x \<in> set xs. eff (fst x) = None" for b and xs :: "(string \<times> bool) list"
    using that by (induction xs) auto
  then show "grows_quietly eff es es' \<Longrightarrow> ?thesis"
    by (auto simp: grows_quietly_def tx_after_append Option.bind_eq_Some_conv split: Option.bind_split)
qed

lemma controls_append [simp]: "controls (xs @ ys) = controls xs @ controls ys"
  by (simp add: controls_def)

lemma control_of_other: "messageTypeOf m \<noteq> MessageTypePrepareRequest \<Longrightarrow> control_of (m, r) = []"
  by (cases m) auto

text \<open>A request is one entry of the log.\<close>

lemma request_logged:
  assumes "request (traced send) mk s = Done (r, s')"
  shows "fst (s_world s') = fst (s_world s) @ [(mk (connectionID s) (queryIDSeq s), r)]"
    and "\<exists>w. send (mk (connectionID s) (queryIDSeq s)) (snd (s_world s)) = Done (r, w)"
  using assms by (auto simp: request_def nextQueryID_def traced_def outcome_bind_eq_Done split: prod.splits)

lemma exchange_quiet:
  assumes "exchange (traced send) mk p e acc s = Done (r, s')"
    and "\<And>conn q. messageTypeOf (mk conn q) \<noteq> MessageTypePrepareRequest"
  shows "controls (fst (s_world s')) = controls (fst (s_world s))"
  using assms request_logged(1) [of send mk s _ s']
  by (auto simp: exchange_Done controls_def control_of_other)

lemma step_quiet:
  assumes "session_step (traced send) Q s s'" "\<And>t. Q t \<Longrightarrow> eff t = None"
  shows "grows_quietly eff (fst (s_world s)) (fst (s_world s'))"
  using assms(1)
proof cases
  case (prepare sql r)
  then show ?thesis using assms(2) [of sql]
    by (auto simp: open_cursor_def exchange_Done controls_def grows_quietly_def dest!: request_logged(1))
next
  case (disconnect r)
  show ?thesis
  proof (cases "closed s \<or> connectionID s = []")
    case True
    then show ?thesis using disconnect by (auto simp: close_session_def Let_def split: if_splits)
  next
    case False
    then show ?thesis using disconnect
      by (auto simp: close_session_def Let_def outcome_bind_eq_Done controls_def grows_quietly_def dest!: request_logged(1))
  qed
qed (auto simp: fetchMore_def appendChunk_def intro: grows_quietly_eq elim!: exchange_quiet)

lemma run_quiet:
  assumes "session_run (traced send) Q s s'" "\<And>t. Q t \<Longrightarrow> eff t = None"
  shows "grows_quietly eff (fst (s_world s)) (fst (s_world s'))"
  using assms by (induction rule: session_run.induct) (auto dest: step_quiet intro: grows_quietly_trans)

lemma stays_quiet:
  assumes "stays (traced send) Q c c'" "\<And>t. Q t \<Longrightarrow> eff t = None" "tx_inv eff c"
  shows "tx_inv eff c'"
proof -
  have "grows_quietly eff (fst (s_world (sess c))) (fst (s_world (sess c')))"
    by (rule run_quiet [of send Q]) (use assms in \<open>auto simp: stays_def intro: session_run.idle\<close>)
  then show ?thesis using assms(1,3) by (simp add: stays_def tx_inv_def tx_log_def tx_after_quiet)
qed

text \<open>A transaction statement of the driver is one entry of the control log, and fails exactly when it was not prepared.\<close>

lemma open_cursor_control:
  assumes "open_cursor (traced send) sql s = Done (r, s')" "answers_at_once send sql"
  shows "controls (fst (s_world s')) = controls (fst (s_world s)) @ [(sql, \<not> isl r)]"
    and "r = Inr cur \<Longrightarrow> \<not> needsMore cur"
proof -
  let ?mk = "\<lambda>conn qid. PrepareRequest (request_header MessageTypePrepareRequest conn qid) sql"
  obtain r' where req: "request (traced send) ?mk s = Done (r', s')"
    and r: "r = accepted ''session: prepare: '' ''session: expected PREPARE_RESPONSE, got ''
     (\<lambda>m. case m of PrepareResponse _ types names nmf results uuid \<Rightarrow>
          Some \<lparr>columnNames = names, columnTypes = types, resultUUID = uuid, buffered = results,
            needsMore = nmf, c_closed = False\<rparr> | _ \<Rightarrow> None) r'"
    using assms(1) by (auto simp: open_cursor_def exchange_Done)
  have "prepared r' = (\<not> isl r)"
    by (cases r') (auto simp: r accepted_def prepared_def split: option.split QuackMessage.split)
  then show "controls (fst (s_world s')) = controls (fst (s_world s)) @ [(sql, \<not> isl r)]"
    using request_logged(1) [OF req] by (simp add: controls_def)
  show "\<not> needsMore cur" if cur: "r = Inr cur"
  proof -
    obtain m where m: "r' = Inr (Some m)" using cur [unfolded r accepted_Inr] by blast
    show ?thesis using cur request_logged(2) [OF req] assms(2)
      by (cases m) (auto simp: r m accepted_def dest: answers_at_onceD)
  qed
qed

lemma drainPrepared_control:
  assumes "drainPrepared (traced send) n sql s = Done (r, s')" "answers_at_once send sql"
  shows "controls (fst (s_world s')) = controls (fst (s_world s)) @ [(sql, \<not> isl r)]"
proof -
  obtain q s1 where o: "open_cursor (traced send) sql s = Done (q, s1)"
    using assms(1) by (auto simp: drainPrepared_def sbind_Done)
  show ?thesis
  proof (cases q)
    case (Inl e)
    then show ?thesis using assms(1) o open_cursor_control(1) [OF o assms(2)]
      by (auto simp: drainPrepared_def sbind_def)
  next
    case (Inr cur)
    have "drain_loop (traced send) n c out = (\<lambda>s. Done (Inr (out, c), s))" if "\<not> needsMore c" for c out
      using that by (cases n) (auto simp: sret_def)
    then have "s' = s1 \<and> \<not> isl r"
      using assms(1) o open_cursor_control(2) [OF o assms(2) Inr] Inr
      by (simp add: drainPrepared_def drainAll_def sbind_def sret_def) (auto split: prod.splits)
    then show ?thesis using open_cursor_control(1) [OF o assms(2)] Inr by simp
  qed
qed

lemma execNoResult_control:
  assumes "execNoResult (traced send) n sql c = Done (r, c')" "answers_at_once send sql"
  shows "tx_log c' = tx_log c @ [(sql, \<not> isl r)]" "autoCommit c' = autoCommit c" "txOpen c' = txOpen c"
  using assms(1) drainPrepared_control [OF _ assms(2), of n "sess c"]
  by (auto simp: execNoResult_def on_session_def outcome_bind_eq_Done tx_log_def isl_map_sum)

text \<open>BEGIN opens a transaction, COMMIT and ROLLBACK close it; a failure changes nothing.\<close>

lemma control_set:
  assumes "cbind (execNoResult (traced send) n sql) (\<lambda>_. set_txOpen b) c = Done (r, c')" "control_simple send"
    and "is_control sql" "txOpen c = (sql \<noteq> ''BEGIN TRANSACTION'')" "b = (sql = ''BEGIN TRANSACTION'')"
    and "tx_inv eff c" "b \<longrightarrow> \<not> autoCommit c" "knows_control eff"
  shows "tx_inv eff c' \<and> autoCommit c' = autoCommit c \<and> txOpen c' = (if isl r then txOpen c else b)"
proof -
  obtain q c1 where e: "execNoResult (traced send) n sql c = Done (q, c1)"
    using assms(1) by (auto simp: cbind_Done)
  have eff: "eff sql = Some b" using assms(3,5,8) by (auto simp: knows_control_def is_control_def)
  have "b = (\<not> txOpen c)" using assms(4,5) by simp
  then show ?thesis
    using assms(1,6,7) execNoResult_control [OF e control_simpleD [OF assms(2,3)]] e eff
    by (cases q) (auto simp: cbind_def set_txOpen_def tx_inv_def tx_after_append tx_log_def)
qed

lemma beginTx_keeps:
  assumes "beginTxIfNeeded (traced send) n c = Done (r, c')" "control_simple send" "tx_inv eff c" "knows_control eff"
  shows "tx_inv eff c' \<and> autoCommit c' = autoCommit c"
  using assms control_set [of send n "''BEGIN TRANSACTION''" True c r c' eff]
  by (auto simp: beginTxIfNeeded_def cret_def is_control_def split: if_splits)

lemma Commit_keeps:
  assumes "Commit (traced send) n c = Done (r, c')" "control_simple send" "tx_inv eff c" "knows_control eff"
  shows "tx_inv eff c'"
  using assms control_set [of send n "''COMMIT''" False c r c' eff]
  by (auto simp: Commit_def cret_def cfail_def is_control_def split: if_splits)

lemma Rollback_keeps:
  assumes "Rollback (traced send) n c = Done (r, c')" "control_simple send" "tx_inv eff c" "knows_control eff"
  shows "tx_inv eff c'"
  using assms control_set [of send n "''ROLLBACK''" False c r c' eff]
  by (auto simp: Rollback_def cret_def cfail_def is_control_def split: if_splits)

lemma SetOption_splits:
  assumes "SetOption_conn send n key val c = Done (r, c')"
  obtains "c' = c"
    | b where "c' = c\<lparr>autoCommit := b\<rparr>" "\<not> txOpen c \<or> \<not> b"
    | "\<not> autoCommit c" "txOpen c" "cbind (cbind (execNoResult send n ''COMMIT'') (\<lambda>_. set_txOpen False))
        (\<lambda>_ c. Done (Inr (), c\<lparr>autoCommit := True\<rparr>)) c = Done (r, c')"
  using assms by (fastforce simp: SetOption_conn_def cret_def cfail_def cbind_def split: if_splits)

lemma SetOption_keeps:
  assumes "SetOption_conn (traced send) n key val c = Done (r, c')" "control_simple send" "tx_inv eff c" "knows_control eff"
  shows "tx_inv eff c'"
proof -
  let ?commit = "cbind (execNoResult (traced send) n ''COMMIT'') (\<lambda>_. set_txOpen False)"
  have set_auto: "tx_inv eff (c1\<lparr>autoCommit := b\<rparr>)" if "tx_inv eff c1" "\<not> txOpen c1 \<or> \<not> b" for c1 b
    using that by (auto simp: tx_inv_def tx_log_def)
  from assms(1) show ?thesis
  proof (cases rule: SetOption_splits)
    case 3
    then show ?thesis
      using control_set [of send n "''COMMIT''" False c _ _ eff, OF _ assms(2)] assms(3,4)
      by (fastforce simp: cbind_Done [of ?commit] is_control_def intro: set_auto)
  qed (use assms(3) set_auto in auto)
qed

lemma query_no_control: "is_query t \<Longrightarrow> \<not> is_control t"
  using query_SELECT [of t] by (auto simp: is_control_def HasPrefix_def)

lemma metadata_keeps_tx:
  assumes "runs (traced send) is_query op" "op c = Done (r, c')" "tx_inv eff c" "knows_control eff"
  shows "tx_inv eff c'"
  by (rule stays_quiet [OF runs_stays [OF assms(1,2)] _ assms(3)]) (use assms(4) in \<open>simp add: knows_control_def\<close>)

lemma step_keeps_tx:
  assumes "conn_step (\<lambda>t. eff t = None) ls (traced send) n c c'" "control_simple send" "tx_inv eff c" "knows_control eff"
  shows "tx_inv eff c'"
  using assms(1)
proof cases
  case (execute_query st r st')
  from execute_query(2) show ?thesis
    by (rule ExecuteQuery_splits)
      (use assms(2-4) execute_query(1) in \<open>auto intro: stays_quiet dest: beginTx_keeps\<close>)
next
  case (execute_update st r st')
  from execute_update(2) show ?thesis
    by (rule ExecuteUpdate_splits)
      (use assms(2-4) execute_update(1) in \<open>auto intro: stays_quiet dest: beginTx_keeps\<close>)
next
  case (read_reader k rr r s)
  have "stays (traced send) (\<lambda>_. False) c c'"
    using read_records_run [OF read_reader(2), of "\<lambda>_. False"] read_reader(1) by (simp add: stays_def)
  then show ?thesis by (rule stays_quiet) (simp_all add: assms(3))
next
  case (get_table_schema cat sch tab r)
  then show ?thesis by (blast intro: metadata_keeps_tx runs_getTableSchema assms(3,4))
next
  case (get_info bv codes r)
  then show ?thesis by (blast intro: metadata_keeps_tx runs_getInfo assms(3,4))
next
  case (get_objects opk ofk depth cat osch otab col tts r)
  then show ?thesis by (blast intro: metadata_keeps_tx runs_getObjects assms(3,4))
qed (use assms(2-4) Commit_keeps Rollback_keeps SetOption_keeps in blast)+

lemma run_keeps_tx:
  assumes "conn_run (\<lambda>t. eff t = None) ls (traced send) n c c'" "control_simple send" "tx_inv eff c" "knows_control eff"
  shows "tx_inv eff c'"
  using assms by (induction rule: conn_run.induct) (auto dest: step_keeps_tx)

text \<open>
  The hypothesis on the client's SQL is needed: the driver does not see that a statement of the client ended the
  transaction, and its next COMMIT is sent outside one.
\<close>

lemma client_commit_unseen:
  assumes "ExecuteUpdate ls (traced send) n c st = Done (Inr k, c', st')" "\<not> has_binding st" "answers_at_once send (st_sql st)"
    and "txOpen c" "tx_after eff False (tx_log c) = Some True" "eff (st_sql st) = Some False"
  shows "txOpen c' \<and> tx_after eff False (tx_log c') = Some False"
proof -
  have "beginTxIfNeeded (traced send) n c = Done (Inr (), c)" using assms(4) by (simp add: beginTxIfNeeded_def cret_def)
  then obtain r where r: "drainPrepared (traced send) n (st_sql st) (sess c) = Done (Inr r, sess c')" "txOpen c' = txOpen c"
    using assms(1,2) by (auto simp: ExecuteUpdate_def with_stmt_Done cbind_Done cret_def on_session_def outcome_bind_eq_Done
        map_sum_Inr split: if_splits)
  then have "tx_log c' = tx_log c @ [(st_sql st, True)]" using drainPrepared_control [OF r(1) assms(3)] by (simp add: tx_log_def)
  then show ?thesis using assms(4-6) r(2) by (simp add: tx_after_append)
qed

text \<open>A new connection: one request, no transaction.\<close>

lemma new_connection_tx:
  assumes "newSession (traced send) token ([], w) = Done (Inr (), s)"
  shows "tx_inv eff \<lparr>sess = s, autoCommit = True, txOpen = False\<rparr>"
  using assms
  by (auto simp: newSession_def handshake_def sbind_Done exchange_Done tx_inv_def tx_log_def controls_def
      dest!: request_logged(1) split: if_splits)

section \<open>The session of a connection\<close>

text \<open>Whatever a client does with a connection, its session makes a run.\<close>

lemma execNoResult_run: "execNoResult send n sql c = Done (r, c') \<Longrightarrow> session_run send (\<lambda>_. True) (sess c) (sess c')"
  by (auto simp: execNoResult_def on_session_def outcome_bind_eq_Done intro: drainPrepared_run)

lemma control_run:
  "cbind (execNoResult send n sql) (\<lambda>_. set_txOpen b) c = Done (r, c') \<Longrightarrow> session_run send (\<lambda>_. True) (sess c) (sess c')"
  by (auto simp: cbind_Done set_txOpen_def dest: execNoResult_run)

lemma beginTx_run: "beginTxIfNeeded send n c = Done (r, c') \<Longrightarrow> session_run send (\<lambda>_. True) (sess c) (sess c')"
  by (auto simp: beginTxIfNeeded_def cret_def session_run.idle split: if_splits dest: control_run)

lemma stays_run: "stays send Q c c' \<Longrightarrow> session_run send (\<lambda>_. True) (sess c) (sess c')"
  by (auto simp: stays_def intro: session_run_mono)

lemma close_run: "Close_conn send n c = Done (r, c') \<Longrightarrow> session_run send (\<lambda>_. True) (sess c) (sess c')"
proof -
  assume "Close_conn send n c = Done (r, c')"
  then obtain s r' where "session_run send (\<lambda>_. True) (sess c) s" "close_session send s = Done (r', sess c')"
    using session_run.idle [of send "\<lambda>_. True" "sess c"]
    by (cases "txOpen c") (auto simp: Close_conn_def on_session_def outcome_bind_eq_Done dest!: execNoResult_run)
  then show ?thesis by (blast intro: session_run.more_steps session_step.disconnect)
qed

lemma step_session:
  assumes "conn_step Q ls send n c c'"
  shows "session_run send (\<lambda>_. True) (sess c) (sess c')"
  using assms
proof cases
  case (set_option key val r)
  from set_option show ?thesis
    by (cases rule: SetOption_splits)
      (auto simp: cbind_Done [of "cbind _ _"] session_run.idle dest!: control_run)
next
  case (execute_query st r st')
  from execute_query(2) show ?thesis
    by (rule ExecuteQuery_splits) (auto intro: session_run.idle session_run_trans [OF stays_run beginTx_run])
next
  case (execute_update st r st')
  from execute_update(2) show ?thesis
    by (rule ExecuteUpdate_splits) (auto intro: session_run_trans [OF stays_run beginTx_run])
next
  case (read_reader k rr r s)
  then show ?thesis by (auto intro: read_records_run)
next
  case (get_table_schema cat sch tab r)
  then show ?thesis by (blast intro: stays_run runs_stays runs_getTableSchema)
next
  case (get_info bv codes r)
  then show ?thesis by (blast intro: stays_run runs_stays runs_getInfo)
next
  case (get_objects opk ofk depth cat osch otab col tts r)
  then show ?thesis by (blast intro: stays_run runs_stays runs_getObjects)
qed (auto simp: Commit_def Rollback_def cret_def cfail_def session_run.idle split: if_splits dest: control_run)

lemma run_session: "conn_run Q ls send n c c' \<Longrightarrow> session_run send (\<lambda>_. True) (sess c) (sess c')"
  by (induction rule: conn_run.induct) (auto intro: session_run.idle session_run_trans step_session)

text \<open>Closing: a transaction that is open is rolled back, then the session is disconnected once.\<close>

lemma close_session_twice:
  "close_session send s = Done (r, s') \<Longrightarrow> r = Inr () \<and> closed s' \<and> close_session send s' = Done (Inr (), s')"
  by (auto simp: close_session_def Let_def outcome_bind_eq_Done request_def nextQueryID_def split: if_splits)

lemma close_session_last:
  assumes "close_session (traced send) s = Done (r, s')" "\<not> closed s" "connectionID s \<noteq> []"
  shows "\<exists>hdr reply. fst (s_world s') = fst (s_world s) @ [(DisconnectMessage hdr, reply)]"
proof -
  let ?s = "s\<lparr>closed := True\<rparr>"
  obtain q where "request (traced send) (\<lambda>conn qid. DisconnectMessage (request_header MessageTypeDisconnectMessage conn qid)) ?s = Done (q, s')"
    using assms by (auto simp: close_session_def Let_def outcome_bind_eq_Done)
  from request_logged(1) [OF this] show ?thesis by auto
qed

lemma Close_conn_Done:
  assumes "Close_conn send n c = Done (r, c')"
  shows "r = Inr () \<and> \<not> txOpen c' \<and> closed (sess c') \<and> Close_conn send n c' = Done (Inr (), c')"
  using assms close_session_twice [of send]
  by (fastforce simp: Close_conn_def on_session_def outcome_bind_eq_Done split: if_splits)

lemma exec_session_flags:
  assumes "execNoResult (traced send) n sql c = Done (r, c')"
  shows "closed (sess c') = closed (sess c) \<and> connectionID (sess c') = connectionID (sess c)"
  using assms
proof -
  have loop: "closed s' = closed s \<and> connectionID s' = connectionID s"
    if "drain_loop (traced send) n cur out s = Done (r, s')" for cur out s r s'
    using that
  proof (induction n arbitrary: cur out s)
    case (Suc n)
    show ?case
      using Suc.prems Suc.IH traced_channel.request_sent(3,4) [of send _ s]
      by (fastforce simp: sbind_Done fetchMore_def exchange_Done split: if_splits)
  qed (simp split: if_splits)
  obtain q s where s: "drainPrepared (traced send) n sql (sess c) = Done (q, s)" "c' = c\<lparr>sess := s\<rparr>"
    using assms by (auto simp: execNoResult_def on_session_def outcome_bind_eq_Done)
  have "closed s = closed (sess c) \<and> connectionID s = connectionID (sess c)"
    using s(1) traced_channel.request_sent(3,4) [of send _ "sess c"]
    by (fastforce simp: drainPrepared_def drainAll_def sbind_Done open_cursor_def exchange_Done dest!: loop)
  then show ?thesis using s(2) by simp
qed

lemma Close_conn_log:
  assumes "Close_conn (traced send) n c = Done (r, c')" "control_simple send" "\<not> closed (sess c)" "connectionID (sess c) \<noteq> []"
  shows "(\<exists>ok. tx_log c' = tx_log c @ (if txOpen c then [(''ROLLBACK'', ok)] else [])) \<and>
    messageTypeOf (fst (last (fst (s_world (sess c'))))) = MessageTypeDisconnectMessage"
proof -
  obtain c1 q where c1: "close_session (traced send) (sess c1) = Done (q, sess c')" "closed (sess c1) = closed (sess c)"
      "connectionID (sess c1) = connectionID (sess c)"
      "\<exists>ok. tx_log c1 = tx_log c @ (if txOpen c then [(''ROLLBACK'', ok)] else [])"
  proof (cases "txOpen c")
    case False
    then show ?thesis using assms(1) that [of c]
      by (auto simp: Close_conn_def on_session_def outcome_bind_eq_Done)
  next
    case True
    then obtain q1 c1 q where e: "execNoResult (traced send) n ''ROLLBACK'' c = Done (q1, c1)"
        "close_session (traced send) (sess c1) = Done (q, sess c')"
      using assms(1) by (auto simp: Close_conn_def on_session_def outcome_bind_eq_Done)
    show ?thesis
      by (rule that [OF e(2)])
        (use exec_session_flags [OF e(1)] execNoResult_control(1) [OF e(1) control_simpleD [OF assms(2)]] True in \<open>auto simp: is_control_def\<close>)
  qed
  obtain hdr reply where l: "fst (s_world (sess c')) = fst (s_world (sess c1)) @ [(DisconnectMessage hdr, reply)]"
    using close_session_last [OF c1(1)] c1(2,3) assms(3,4) by auto
  then have "tx_log c' = tx_log c1" by (simp add: tx_log_def controls_def)
  then show ?thesis using c1(4) l by simp
qed

text \<open>An update without any SQL text opens a transaction before it fails.\<close>

lemma update_begins_before_check:
  assumes "beginTxIfNeeded send n c = Done (Inr (), c')" "st_sql st = []" "targetTable st = []"
  shows "ExecuteUpdate ls send n c st = Done (Inl (errStatus StatusInvalidState ''Statement.ExecuteUpdate: no SQL set''), c', st)"
  using assms by (simp add: ExecuteUpdate_def)

end
