(* ===== verification/CErrors.thy ===== *)
theory CErrors
  imports GoStrings "HOL-Library.Char_ord"
begin

text \<open>
  Errors of the C interface (\<^verbatim>\<open>src/pkg/quack/driver.go\<close>, with the release functions of \<^verbatim>\<open>utils.c\<close> and
  \<^verbatim>\<open>utils.h\<close>): the C struct \<^verbatim>\<open>AdbcError\<close>, how the driver fills it, and the errno values of a stream.

  The driver passes texts through \<^verbatim>\<open>fmt.Sprintf\<close>, and passes the text of an error as the \<^emph>\<open>format\<close>.
  \<open>Sprintf0\<close> is \<^verbatim>\<open>Sprintf\<close> without operands for every format; \<open>Sprintf\<close> with operands is
  given for the formats of this file, which are literals with the verbs \<^verbatim>\<open>%s\<close>, \<^verbatim>\<open>%d\<close> and \<^verbatim>\<open>%#v\<close>, and takes
  the operands in printed form.
\<close>

section \<open>Formatting\<close>

abbreviation (input) pct :: char where "pct \<equiv> CHR ''%''"

definition fmt_flag :: "char \<Rightarrow> bool" where
  "fmt_flag c \<longleftrightarrow> c \<in> {CHR ''#'', CHR ''0'', CHR ''+'', CHR ''-'', CHR '' ''}"

text \<open>A decimal number: its value, whether there is one, and the rest; a number beyond a million swallows the format.\<close>

primrec parsenum :: "int \<Rightarrow> bool \<Rightarrow> string \<Rightarrow> int \<times> bool \<times> string" where
  "parsenum n isnum [] = (n, isnum, [])"
| "parsenum n isnum (c # s) = (case digit_val c of None \<Rightarrow> (n, isnum, c # s)
     | Some d \<Rightarrow> if 10 ^ 6 < n then (0, False, []) else parsenum (n * 10 + d) True s)"

text \<open>An operand index in brackets: whether one was found, whether it is acceptable (never, without operands), the rest.\<close>

definition argNumber :: "string \<Rightarrow> bool \<times> bool \<times> string" where
  "argNumber s = (case s of [] \<Rightarrow> (False, True, s) | c # t \<Rightarrow>
     if c \<noteq> CHR ''['' then (False, True, s)
     else if length s < 3 \<or> CHR '']'' \<notin> set t then (False, False, t)
     else (let d = takeWhile (\<lambda>c. c \<noteq> CHR '']'') t; (n, ok, rest) = parsenum 0 False d
           in (ok \<and> rest = [], False, drop (length d + 1) t)))"

text \<open>The width and the precision: text put out, whether an index came last, whether all indexes were good, the rest.\<close>

definition fmt_width :: "bool \<Rightarrow> bool \<Rightarrow> string \<Rightarrow> string \<times> bool \<times> bool \<times> string" where
  "fmt_width afterIndex good s =
     (if s \<noteq> [] \<and> hd s = CHR ''*'' then (''%!(BADWIDTH)'', False, good, tl s)
      else let (n, isnum, r) = parsenum 0 False s in ([], afterIndex, good \<and> \<not> (afterIndex \<and> isnum), r))"

definition fmt_precision :: "bool \<Rightarrow> bool \<Rightarrow> string \<Rightarrow> string \<times> bool \<times> bool \<times> string" where
  "fmt_precision afterIndex good s =
     (if s \<noteq> [] \<and> hd s = CHR ''.''
      then let (found, ok, r) = argNumber (tl s); good = (good \<and> \<not> afterIndex \<and> ok)
           in if r \<noteq> [] \<and> hd r = CHR ''*'' then (''%!(BADPREC)'', False, good, tl r)
              else ([], found, good, snd (snd (parsenum 0 False r)))
      else ([], afterIndex, good, s))"

text \<open>The first rune of a text as it is printed, and the rest; a byte that starts no rune is printed as U+FFFD.\<close>

definition rune_lead :: "nat \<Rightarrow> (nat \<times> nat \<times> nat) option" where
  "rune_lead b =
     (if 0xC2 \<le> b \<and> b \<le> 0xDF then Some (1, 0x80, 0xBF)
      else if b = 0xE0 then Some (2, 0xA0, 0xBF)
      else if b = 0xED then Some (2, 0x80, 0x9F)
      else if 0xE1 \<le> b \<and> b \<le> 0xEF then Some (2, 0x80, 0xBF)
      else if b = 0xF0 then Some (3, 0x90, 0xBF)
      else if 0xF1 \<le> b \<and> b \<le> 0xF3 then Some (3, 0x80, 0xBF)
      else if b = 0xF4 then Some (3, 0x80, 0x8F)
      else None)"

definition take_rune :: "string \<Rightarrow> string \<times> string" where
  "take_rune s = (case s of [] \<Rightarrow> ([], []) | c # t \<Rightarrow>
     if (of_char c :: nat) < 0x80 then ([c], t)
     else let bad = ([CHR 0xEF, CHR 0xBF, CHR 0xBD], t)
       in case rune_lead (of_char c) of None \<Rightarrow> bad
       | Some (n, lo, hi) \<Rightarrow>
           if n \<le> length t \<and> lo \<le> of_char (hd t) \<and> of_char (hd t) \<le> hi \<and>
              list_all (\<lambda>d. 0x80 \<le> (of_char d :: nat) \<and> (of_char d :: nat) \<le> 0xBF) (take n t)
           then (c # take n t, drop n t) else bad)"

text \<open>What one verb of the format (behind its percent sign) puts out, and the rest of the format.\<close>

definition fmt_verb :: "string \<Rightarrow> string \<times> string" where
  "fmt_verb s =
     (let (found, good, s) = argNumber (dropWhile fmt_flag s);
          (o1, found, good, s) = fmt_width found good s;
          (o2, found, good, s) = fmt_precision found good s;
          (ok, s) = (if found then (True, s) else snd (argNumber s))
      in if s = [] then (o1 @ o2 @ ''%!(NOVERB)'', [])
         else let (verb, r) = take_rune s
              in (o1 @ o2 @ (if verb = [pct] then [pct]
                   else ''%!'' @ verb @ (if good \<and> ok then ''(MISSING)'' else ''(BADINDEX)'')), r))"

lemma parsenum_length: "length (snd (snd (parsenum n isnum s))) \<le> length s"
  by (induction s arbitrary: n isnum) (auto split: option.split intro: le_SucI)

lemma argNumber_length: "length (snd (snd (argNumber s))) \<le> length s"
  by (auto simp: argNumber_def Let_def split: list.split prod.split)

lemma fmt_width_length: "length (snd (snd (snd (fmt_width a g s)))) \<le> length s"
  using parsenum_length [of 0 False s] by (auto simp: fmt_width_def Let_def split: prod.split)

lemma fmt_precision_length: "length (snd (snd (snd (fmt_precision a g s)))) \<le> length s"
proof (cases "s \<noteq> [] \<and> hd s = CHR ''.''")
  case True
  define r where "r = snd (snd (argNumber (tl s)))"
  have "length r \<le> length (tl s)" unfolding r_def by (rule argNumber_length)
  moreover have "length (snd (snd (parsenum 0 False r))) \<le> length r" by (rule parsenum_length)
  ultimately show ?thesis using True r_def
    by (auto simp: fmt_precision_def Let_def split: prod.split intro: le_trans [OF diff_le_self])
qed (auto simp: fmt_precision_def)

lemma take_rune_length: "length (snd (take_rune s)) \<le> length s"
  by (auto simp: take_rune_def Let_def split: list.split option.split)

lemma fmt_verb_length: "length (snd (fmt_verb s)) \<le> length s"
proof -
  obtain f1 g1 s1 where 1: "argNumber (dropWhile fmt_flag s) = (f1, g1, s1)" by (metis prod_cases3)
  obtain o2 f2 g2 s2 where 2: "fmt_width f1 g1 s1 = (o2, f2, g2, s2)" by (metis prod_cases4)
  obtain o3 f3 g3 s3 where 3: "fmt_precision f2 g2 s2 = (o3, f3, g3, s3)" by (metis prod_cases4)
  obtain ok s4 where 4: "(if f3 then (True, s3) else snd (argNumber s3)) = (ok, s4)" by (metis surj_pair)
  have "length s1 \<le> length s"
    using argNumber_length [of "dropWhile fmt_flag s"] length_dropWhile_le [of fmt_flag s] 1 by simp
  moreover have "length s2 \<le> length s1" using fmt_width_length [of f1 g1 s1] 2 by simp
  moreover have "length s3 \<le> length s2" using fmt_precision_length [of f2 g2 s2] 3 by simp
  moreover have "length s4 \<le> length s3" using argNumber_length [of s3] 4 by (auto split: if_splits)
  moreover have "length (snd (take_rune s4)) \<le> length s4" by (rule take_rune_length)
  ultimately show ?thesis by (auto simp: fmt_verb_def Let_def 1 2 3 4 split: prod.split)
qed

function Sprintf0 :: "string \<Rightarrow> string" where
  "Sprintf0 s = (let plain = takeWhile (\<lambda>c. c \<noteq> pct) s; r = dropWhile (\<lambda>c. c \<noteq> pct) s
     in if r = [] then plain else plain @ fst (fmt_verb (tl r)) @ Sprintf0 (snd (fmt_verb (tl r))))"
  by pat_completeness auto

termination Sprintf0
proof (relation "measure length")
  fix s p r :: string
  assume r: "r = dropWhile (\<lambda>c. c \<noteq> pct) s" "r \<noteq> []"
  have "length r \<le> length s" unfolding r(1) by (rule length_dropWhile_le)
  moreover have "length (tl r) < length r" using r(2) by simp
  ultimately have "length (tl r) < length s" by simp
  then show "(snd (fmt_verb (tl r)), s) \<in> measure length"
    using fmt_verb_length [of "tl r"] by simp
qed simp

declare Sprintf0.simps [simp del]

fun Sprintf :: "string \<Rightarrow> string list \<Rightarrow> string" where
  "Sprintf s [] = Sprintf0 s"
| "Sprintf [] (v # vs) = []"
| "Sprintf (c # s) (v # vs) =
     (if c \<noteq> pct then c # Sprintf s (v # vs)
      else v @ Sprintf (if HasPrefix s ''#'' then drop 2 s else drop 1 s) vs)"

text \<open>A text without a percent sign is printed as it is.\<close>

lemma Sprintf0_plain: "pct \<notin> set s \<Longrightarrow> Sprintf0 s = s"
  by (subst Sprintf0.simps) (auto simp: Let_def takeWhile_eq_all_conv dropWhile_eq_Nil_conv)

text \<open>A percent sign before a letter becomes the report of a missing operand.\<close>

lemma fmt_verb_letter:
  assumes "CHR ''A'' \<le> c" "c \<le> CHR ''Z'' \<or> CHR ''a'' \<le> c \<and> c \<le> CHR ''z''"
  shows "fmt_verb (c # s) = (''%!'' @ [c] @ ''(MISSING)'', s)"
proof -
  have n: "65 \<le> (of_char c :: nat)" "(of_char c :: nat) \<le> 90 \<or> 97 \<le> (of_char c :: nat) \<and> (of_char c :: nat) \<le> 122"
    using assms by (auto simp: less_eq_char_def)
  then have "\<not> fmt_flag c" "digit_val c = None" "c \<notin> {CHR ''['', CHR ''*'', CHR ''.'', pct}"
    by (auto simp: fmt_flag_def digit_val_def Let_def)
  then show ?thesis using n
    by (auto simp: fmt_verb_def argNumber_def fmt_width_def fmt_precision_def take_rune_def Let_def)
qed

lemma Sprintf0_letter:
  assumes "pct \<notin> set pre" "CHR ''A'' \<le> c" "c \<le> CHR ''Z'' \<or> CHR ''a'' \<le> c \<and> c \<le> CHR ''z''"
  shows "Sprintf0 (pre @ pct # c # s) = pre @ ''%!'' @ [c] @ ''(MISSING)'' @ Sprintf0 s"
proof -
  have "takeWhile (\<lambda>c. c \<noteq> pct) (pre @ pct # c # s) = pre" "dropWhile (\<lambda>c. c \<noteq> pct) (pre @ pct # c # s) = pct # c # s"
    using assms(1) by (auto simp: takeWhile_append dropWhile_append)
  then show ?thesis using fmt_verb_letter [OF assms(2,3), of s] by (subst Sprintf0.simps) (simp add: Let_def)
qed

section \<open>Go errors and the C struct\<close>

abbreviation (input) ADBC_STATUS_OK :: nat where "ADBC_STATUS_OK \<equiv> 0"
abbreviation (input) ADBC_STATUS_UNKNOWN :: nat where "ADBC_STATUS_UNKNOWN \<equiv> 1"
abbreviation (input) ADBC_STATUS_NOT_IMPLEMENTED :: nat where "ADBC_STATUS_NOT_IMPLEMENTED \<equiv> 2"
abbreviation (input) ADBC_STATUS_INVALID_ARGUMENT :: nat where "ADBC_STATUS_INVALID_ARGUMENT \<equiv> 5"
abbreviation (input) ADBC_STATUS_INVALID_STATE :: nat where "ADBC_STATUS_INVALID_STATE \<equiv> 6"
abbreviation (input) ADBC_STATUS_INTERNAL :: nat where "ADBC_STATUS_INTERNAL \<equiv> 9"

text \<open>
  An error of the Go side: an \<^verbatim>\<open>adbc.Error\<close> (also one found by unwrapping, as \<^verbatim>\<open>errors.As\<close> does) or
  another error, given by its text.  A detail is its key and what \<^verbatim>\<open>Serialize\<close> returns.
\<close>

record adbc_error =
  ae_Msg :: string
  ae_Code :: nat
  ae_VendorCode :: int
  ae_SqlState :: string
  ae_Details :: "(string \<times> (string + bytes)) list"

datatype api_error = AsAdbcError adbc_error | PlainError string

text \<open>
  The struct \<^verbatim>\<open>AdbcError\<close> of the caller.  \<^verbatim>\<open>release\<close> is null or one of the two functions the driver
  installs; \<^verbatim>\<open>private_data\<close> points to a \<^verbatim>\<open>QuackError\<close>, whose keys, values and lengths are one list.
\<close>

datatype err_release = NoRelease | Quack_release_error | QuackReleaseErrWithDetails

record quack_error =
  qe_message :: string
  qe_details :: "(string \<times> bytes) list"

record c_error =
  ce_message :: "string option"
  ce_vendor_code :: int
  ce_sqlstate :: string
  ce_release :: err_release
  ce_private :: "quack_error option"

definition ADBC_ERROR_VENDOR_CODE_PRIVATE_DATA :: int where
  "ADBC_ERROR_VENDOR_CODE_PRIVATE_DATA = - (2 ^ 31)"

text \<open>\<^verbatim>\<open>C.CString\<close>, as a C reader sees it: the text ends at the first null byte.\<close>

definition C_CString :: "string \<Rightarrow> string" where
  "C_CString s = takeWhile (\<lambda>c. c \<noteq> CHR 0x00) s"

text \<open>The release functions of \<^verbatim>\<open>utils.c\<close> and \<^verbatim>\<open>utils.h\<close>.\<close>

definition run_release :: "err_release \<Rightarrow> c_error \<Rightarrow> c_error" where
  "run_release rel e = (case rel of
       NoRelease \<Rightarrow> e
     | Quack_release_error \<Rightarrow> e\<lparr>ce_message := None, ce_release := NoRelease\<rparr>
     | QuackReleaseErrWithDetails \<Rightarrow>
         if ce_release e \<noteq> QuackReleaseErrWithDetails \<or> ce_private e = None then e
         else e\<lparr>ce_message := None, ce_release := NoRelease, ce_private := None\<rparr>)"

definition QuackerrRelease :: "c_error \<Rightarrow> c_error" where
  "QuackerrRelease e = (if ce_release e \<noteq> NoRelease then (run_release (ce_release e) e)\<lparr>ce_release := NoRelease\<rparr> else e)"

definition QuackErrorGetDetailCount :: "c_error option \<Rightarrow> nat" where
  "QuackErrorGetDetailCount err = (case err of None \<Rightarrow> 0 | Some e \<Rightarrow>
     if ce_release e \<noteq> QuackReleaseErrWithDetails then 0
     else case ce_private e of None \<Rightarrow> 0 | Some q \<Rightarrow> length (qe_details q))"

definition QuackErrorGetDetail :: "c_error option \<Rightarrow> int \<Rightarrow> (string \<times> bytes) option" where
  "QuackErrorGetDetail err index = (case err of None \<Rightarrow> None | Some e \<Rightarrow>
     if ce_release e \<noteq> QuackReleaseErrWithDetails then None
     else case ce_private e of None \<Rightarrow> None
       | Some q \<Rightarrow> if index < 0 \<or> int (length (qe_details q)) \<le> index then None else Some (qe_details q ! nat index))"

section \<open>Reporting\<close>

definition errPrefix :: string where "errPrefix = ''[Quack] ''"

definition setErr :: "c_error option \<Rightarrow> string \<Rightarrow> string list \<Rightarrow> c_error option" where
  "setErr err fmt vals = (case err of None \<Rightarrow> None | Some e \<Rightarrow>
     let e = (if ce_release e \<noteq> NoRelease then QuackerrRelease e else e);
         msg = (if HasPrefix fmt errPrefix then Sprintf fmt vals else errPrefix @ Sprintf fmt vals)
     in Some (e\<lparr>ce_message := Some (C_CString msg), ce_release := Quack_release_error\<rparr>))"

definition detail_entry :: "string \<times> (string + bytes) \<Rightarrow> string \<times> bytes" where
  "detail_entry d = (C_CString (fst d), case snd d of Inl msg \<Rightarrow> bytes_of_string msg | Inr b \<Rightarrow> b)"

definition setErrWithDetails :: "c_error option \<Rightarrow> adbc_error \<Rightarrow> c_error option" where
  "setErrWithDetails err ae = (case err of None \<Rightarrow> None | Some e \<Rightarrow>
     let e = e\<lparr>ce_sqlstate := take 5 (ae_SqlState ae)\<rparr>; numDetails = length (ae_Details ae)
     in if ce_vendor_code e \<noteq> ADBC_ERROR_VENDOR_CODE_PRIVATE_DATA
        then setErr (Some (if ae_VendorCode ae \<noteq> ADBC_ERROR_VENDOR_CODE_PRIVATE_DATA
                           then e\<lparr>ce_vendor_code := ae_VendorCode ae\<rparr> else e)) (ae_Msg ae) []
        else if numDetails = 0 \<and> ae_VendorCode ae \<noteq> 0 \<and> ae_VendorCode ae \<noteq> ADBC_ERROR_VENDOR_CODE_PRIVATE_DATA
        then setErr (Some (e\<lparr>ce_vendor_code := ae_VendorCode ae\<rparr>)) (ae_Msg ae) []
        else Some (e\<lparr>ce_message := Some (C_CString (ae_Msg ae)), ce_release := QuackReleaseErrWithDetails,
               ce_private := Some \<lparr>qe_message = C_CString (ae_Msg ae), qe_details = map detail_entry (ae_Details ae)\<rparr>\<rparr>))"

text \<open>The status code for an error, and the struct filled from it.\<close>

definition errToAdbcErr :: "c_error option \<Rightarrow> api_error option \<Rightarrow> nat \<times> c_error option" where
  "errToAdbcErr err e = (case e of
       None \<Rightarrow> (ADBC_STATUS_OK, err)
     | Some (AsAdbcError ae) \<Rightarrow> (ae_Code ae, setErrWithDetails err ae)
     | Some (PlainError msg) \<Rightarrow> (ADBC_STATUS_UNKNOWN, setErr err msg []))"

text \<open>The errno of a stream operation that failed with a status.\<close>

datatype c_errno = E_OK | EIO | ENOTSUP | ENOENT | EEXIST | EINVAL | ECANCELED | ETIMEDOUT | EACCES

definition errno_of_status :: "nat \<Rightarrow> c_errno" where
  "errno_of_status status =
     (if status = 1 then EIO else if status = 2 then ENOTSUP else if status = 3 then ENOENT
      else if status = 4 then EEXIST else if status = 5 then EINVAL else if status = 6 then EINVAL
      else if status = 7 then EIO else if status = 8 then EIO else if status = 9 then EIO else if status = 10 then EIO
      else if status = 11 then ECANCELED else if status = 12 then ETIMEDOUT
      else if status = 13 then EACCES else if status = 14 then EACCES else EIO)"

section \<open>What the caller reads\<close>

text \<open>
  A message without a percent sign is reported as it is, behind one prefix, whether it was prefixed before
  or not.
\<close>

definition prefixed :: "string \<Rightarrow> string" where
  "prefixed msg = (if HasPrefix msg errPrefix then msg else errPrefix @ msg)"

lemma setErr_text:
  assumes "pct \<notin> set msg"
  shows "map_option ce_message (setErr (Some e) msg []) = Some (Some (C_CString (prefixed msg)))"
  using assms by (simp add: setErr_def Let_def prefixed_def Sprintf0_plain)

lemma setErr_release: "setErr (Some e) fmt vals = Some e' \<Longrightarrow> ce_release e' = Quack_release_error"
  by (auto simp: setErr_def Let_def)

text \<open>A driver error whose struct still holds details is released first, so no details outlive their message.\<close>

definition details_match :: "c_error \<Rightarrow> bool" where
  "details_match e \<longleftrightarrow>
     (ce_release e = NoRelease \<longrightarrow> ce_private e = None) \<and>
     (ce_release e = QuackReleaseErrWithDetails \<longleftrightarrow> ce_private e \<noteq> None)"

lemma details_match_release: "details_match e \<Longrightarrow> details_match (QuackerrRelease e)"
  by (cases "ce_release e") (auto simp: details_match_def QuackerrRelease_def run_release_def)

lemma details_match_setErr:
  assumes "details_match e" "setErr (Some e) fmt vals = Some e'"
  shows "details_match e'" "ce_private e' = None"
  using assms
  by (cases "ce_release e"; auto simp: details_match_def setErr_def Let_def QuackerrRelease_def run_release_def)+

lemma errToAdbcErr_Some: "\<exists>code e'. errToAdbcErr (Some e) g = (code, Some e')"
  by (simp add: errToAdbcErr_def setErrWithDetails_def setErr_def Let_def split: option.split api_error.split)

lemma details_match_report:
  assumes "details_match e" "errToAdbcErr (Some e) g = (code, Some e')"
  shows "details_match e'"
proof (cases g)
  case None
  then show ?thesis using assms by (simp add: errToAdbcErr_def)
next
  case (Some a)
  show ?thesis
  proof (cases a)
    case (PlainError msg)
    then show ?thesis using assms Some details_match_setErr(1) [OF assms(1)] by (auto simp: errToAdbcErr_def)
  next
    case (AsAdbcError ae)
    have upd: "details_match (e\<lparr>ce_sqlstate := x\<rparr>)" "details_match (e\<lparr>ce_sqlstate := x, ce_vendor_code := v\<rparr>)" for x v
      using assms(1) by (simp_all add: details_match_def)
    show ?thesis using assms(2) Some AsAdbcError details_match_setErr(1) [OF upd(1)] details_match_setErr(1) [OF upd(2)]
      by (auto simp: errToAdbcErr_def setErrWithDetails_def Let_def details_match_def split: if_splits)
  qed
qed

end
