(* ===== verification/CHandles.thy ===== *)
theory CHandles
  imports CErrors "HOL-Library.AList"
begin

text \<open>
  The state behind the C interface (\<^verbatim>\<open>src/pkg/quack/driver.go\<close>) and the helpers its functions share: handles,
  the checks in front of every operation, contexts, exported options and record readers, and the recovery from panics.

  A C caller holds structs (databases, connections, statements, streams) at addresses; the
  \<^verbatim>\<open>private_data\<close> of a struct is a \<^verbatim>\<open>cgo.Handle\<close>, a number that the runtime maps to a Go object.  Handles are never
  reused, so the model uses the number of the handle for the Go object too: \<open>objs\<close> is the Go heap and
  \<open>live_handles\<close> the table of the runtime.  The operations run one at a time.

  The objects behind the \<^verbatim>\<open>adbc\<close> interfaces (those of \<^verbatim>\<open>driver/quack\<close>, see the theory \<open>CDriver\<close>), the record
  readers and the Arrow C data interface are the parameter \<open>go_env\<close>: functions on a state
  \<open>'w\<close> that return or panic.  The objects are numbers.  The \<open>err\<close> argument of an operation is the component
  \<open>c_err\<close> (\<open>None\<close> for a null pointer), its output arguments are in \<open>c_out\<close>.
\<close>

section \<open>The Go side\<close>

datatype go_panic = NilDeref | BadHandle | BadType | IndexRange | SliceLen | GoPanicked string

datatype go_target = TDatabase nat | TConnection nat | TStatement nat

datatype go_iface = GetSetOptions | PostInitOptions | ConnectionGetStatistics | StatementExecuteSchema | DatabaseLogging

datatype opt_value = OptString string | OptBytes bytes | OptDouble "64 word" | OptInt int

datatype log_level = LevelDebug | LevelInfo | LevelWarn | LevelError

type_synonym options = "(string \<times> string) list"

text \<open>Calls that return an error; calls that return an object and an error; calls that return nothing.\<close>

datatype go_call =
    Go_Close go_target
  | Go_SetOption go_target string opt_value
  | Go_Commit nat nat
  | Go_Rollback nat nat
  | Go_Prepare nat nat
  | Go_SetSqlQuery nat string
  | Go_SetSubstraitPlan nat bytes
  | Go_Bind nat nat nat
  | Go_BindStream nat nat nat

datatype go_make =
    Go_NewDatabase options
  | Go_Open nat
  | Go_NewStatement nat
  | Go_GetInfo nat nat "32 word list"
  | Go_GetObjects nat nat int "string option" "string option" "string option" "string option" "string list option"
  | Go_GetStatistics nat nat "string option" "string option" "string option" bool
  | Go_GetStatisticNames nat nat
  | Go_GetTableSchema nat nat "string option" "string option" string
  | Go_GetTableTypes nat nat
  | Go_ReadPartition nat nat bytes
  | Go_ExecuteSchema nat nat
  | Go_GetParameterSchema nat
  | Go_ImportRecordBatch nat nat
  | Go_ImportRecordReader nat

datatype go_effect = Rdr_Retain nat | Rdr_Release nat | Rec_Release nat | Release_CArray nat | Set_Logger nat log_level

record go_partitions =
  NumPartitions :: nat
  PartitionIDs :: "bytes list"

type_synonym ('w, 'a) go_fun = "'w \<Rightarrow> (go_panic + 'a) \<times> 'w"

record 'w go_env =
  call_err :: "go_call \<Rightarrow> ('w, api_error option) go_fun"
  call_make :: "go_make \<Rightarrow> ('w, api_error + nat) go_fun"
  call_effect :: "go_effect \<Rightarrow> ('w, unit) go_fun"
  call_update :: "nat \<Rightarrow> nat \<Rightarrow> ('w, api_error + int) go_fun"
  call_query :: "nat \<Rightarrow> nat \<Rightarrow> ('w, api_error + nat \<times> int) go_fun"
  call_partitions :: "nat \<Rightarrow> nat \<Rightarrow> ('w, api_error + nat option \<times> go_partitions \<times> int) go_fun"
  get_option :: "go_target \<Rightarrow> string \<Rightarrow> ('w, api_error + string) go_fun"
  get_bytes :: "go_target \<Rightarrow> string \<Rightarrow> ('w, api_error + string) go_fun"
  get_double :: "go_target \<Rightarrow> string \<Rightarrow> ('w, 64 word \<times> api_error option) go_fun"
  get_int :: "go_target \<Rightarrow> string \<Rightarrow> ('w, int \<times> api_error option) go_fun"
  rdr_Next :: "nat \<Rightarrow> ('w, bool) go_fun"
  rdr_RecordBatch :: "nat \<Rightarrow> ('w, nat) go_fun"
  rdr_Err :: "nat \<Rightarrow> ('w, api_error option) go_fun"
  rdr_Schema :: "nat \<Rightarrow> ('w, nat option) go_fun"
  supports :: "go_iface \<Rightarrow> go_target \<Rightarrow> bool"
  range_map :: "options \<Rightarrow> options"
  show_panic :: "go_panic \<Rightarrow> string"
  logLevelEnv :: string

section \<open>Objects, structs and the state\<close>

record cDatabase =
  db_opts :: options
  db_db :: "nat option"

record cConn =
  conn_ctx :: "nat option"
  conn_cnxn :: "nat option"
  conn_initArgs :: options

record cStmt =
  stmt_ctx :: "nat option"
  stmt_stmt :: "nat option"

record cArrayStream =
  cs_rdr :: nat
  cs_adbcErr :: "c_error option"
  cs_status :: nat

datatype c_object = HDatabase cDatabase | HConn cConn | HStmt cStmt | HStream cArrayStream

text \<open>A struct \<^verbatim>\<open>ArrowArrayStream\<close>: whether its release function is the driver's, and its \<^verbatim>\<open>private_data\<close>.\<close>

record c_stream =
  st_ours :: bool
  st_private :: nat

record c_partitions =
  num_partitions :: nat
  part_offsets :: "nat list"
  part_lengths :: "nat list"
  part_private :: "bytes option"

text \<open>Output arguments: \<open>None\<close> is a null pointer.\<close>

record c_outputs =
  o_value :: "string option"
  o_length :: "int option"
  o_double :: "64 word option"
  o_int :: "int option"
  o_affected :: "int option"
  o_schema :: "nat option option"
  o_array :: "nat option option"
  o_partitions :: "c_partitions option"
  o_status :: "nat option"

record 'w capi =
  globalPoison :: bool
  objs :: "nat \<rightharpoonup> c_object"
  live_handles :: "nat set"
  next_handle :: nat
  db_data :: "nat \<Rightarrow> nat"
  cnxn_data :: "nat \<Rightarrow> nat"
  stmt_data :: "nat \<Rightarrow> nat"
  stream_data :: "nat \<Rightarrow> c_stream"
  next_ctx :: nat
  cancelled :: "nat set"
  stderr_log :: "go_panic list"
  c_err :: "c_error option"
  c_out :: c_outputs
  go_side :: 'w

section \<open>Running Go code that may panic\<close>

type_synonym ('w, 'a) capi_m = "'w capi \<Rightarrow> (go_panic + 'a) \<times> 'w capi"

definition c_ret :: "'a \<Rightarrow> ('w, 'a) capi_m" where
  "c_ret v = (\<lambda>s. (Inr v, s))"

definition c_panic :: "go_panic \<Rightarrow> ('w, 'a) capi_m" where
  "c_panic e = (\<lambda>s. (Inl e, s))"

definition c_bind :: "('w, 'a) capi_m \<Rightarrow> ('a \<Rightarrow> ('w, 'b) capi_m) \<Rightarrow> ('w, 'b) capi_m" where
  "c_bind m f = (\<lambda>s. case m s of (Inl e, s') \<Rightarrow> (Inl e, s') | (Inr v, s') \<Rightarrow> f v s')"

abbreviation c_then :: "('w, 'a) capi_m \<Rightarrow> ('w, 'b) capi_m \<Rightarrow> ('w, 'b) capi_m" where
  "c_then m n \<equiv> c_bind m (\<lambda>_. n)"

definition c_gets :: "('w capi \<Rightarrow> 'a) \<Rightarrow> ('w, 'a) capi_m" where
  "c_gets f = (\<lambda>s. (Inr (f s), s))"

definition c_modify :: "('w capi \<Rightarrow> 'w capi) \<Rightarrow> ('w, unit) capi_m" where
  "c_modify f = (\<lambda>s. (Inr (), f s))"

text \<open>\<^verbatim>\<open>defer f()\<close> around the rest of a function: \<open>f\<close> runs after a return and after a panic.\<close>

definition c_defer :: "('w, unit) capi_m \<Rightarrow> ('w, 'a) capi_m \<Rightarrow> ('w, 'a) capi_m" where
  "c_defer f m = (\<lambda>s. case m s of (r, s') \<Rightarrow> (case f s' of (Inl e, s'') \<Rightarrow> (Inl e, s'') | (Inr _, s'') \<Rightarrow> (r, s'')))"

text \<open>A call of the Go side.\<close>

definition go_do :: "('w, 'a) go_fun \<Rightarrow> ('w, 'a) capi_m" where
  "go_do f = (\<lambda>s. case f (go_side s) of (r, w) \<Rightarrow> (r, s\<lparr>go_side := w\<rparr>))"

text \<open>Return with an error text and a status; return the status of an error value.\<close>

definition set_error :: "string \<Rightarrow> string list \<Rightarrow> ('w, unit) capi_m" where
  "set_error fmt vals = c_modify (\<lambda>s. s\<lparr>c_err := setErr (c_err s) fmt vals\<rparr>)"

definition complain :: "string \<Rightarrow> string list \<Rightarrow> nat \<Rightarrow> ('w, nat) capi_m" where
  "complain fmt vals code = c_then (set_error fmt vals) (c_ret code)"

definition report :: "api_error option \<Rightarrow> ('w, nat) capi_m" where
  "report e = (\<lambda>s. case errToAdbcErr (c_err s) e of (code, err) \<Rightarrow> (Inr code, s\<lparr>c_err := err\<rparr>))"

text \<open>After a panic every operation fails; the stack traces are printed once.\<close>

definition poison :: "'w go_env \<Rightarrow> string \<Rightarrow> go_panic \<Rightarrow> 'w capi \<Rightarrow> nat \<times> 'w capi" where
  "poison env fname e s = (ADBC_STATUS_INTERNAL, s\<lparr>globalPoison := True,
     stderr_log := (if globalPoison s then stderr_log s else stderr_log s @ [e]),
     c_err := setErr (c_err s) ''%s: Go panic in Quack driver (see stderr): %#v'' [fname, show_panic env e]\<rparr>)"

definition recovering :: "'w go_env \<Rightarrow> string \<Rightarrow> ('w, nat) capi_m \<Rightarrow> 'w capi \<Rightarrow> nat \<times> 'w capi" where
  "recovering env fname m s = (case m s of (Inr code, s') \<Rightarrow> (code, s') | (Inl e, s') \<Rightarrow> poison env fname e s')"

section \<open>Handles\<close>

definition newHandle :: "c_object \<Rightarrow> ('w, nat) capi_m" where
  "newHandle ob = (\<lambda>s. (Inr (next_handle s), s\<lparr>objs := (objs s)(next_handle s \<mapsto> ob),
     live_handles := insert (next_handle s) (live_handles s), next_handle := next_handle s + 1\<rparr>))"

definition deleteHandle :: "nat \<Rightarrow> ('w, unit) capi_m" where
  "deleteHandle h = (\<lambda>s. if h \<in> live_handles s then (Inr (), s\<lparr>live_handles := live_handles s - {h}\<rparr>) else (Inl BadHandle, s))"

text \<open>\<^verbatim>\<open>handleFromPtr(ptr).Value()\<close>, and the type assertions on it (\<^verbatim>\<open>getFromHandle[T]\<close>).\<close>

definition handle_value :: "nat \<Rightarrow> ('w, c_object) capi_m" where
  "handle_value h = (\<lambda>s. if h \<in> live_handles s
     then (case objs s h of Some ob \<Rightarrow> (Inr ob, s) | None \<Rightarrow> (Inl BadHandle, s)) else (Inl BadHandle, s))"

definition get_database :: "nat \<Rightarrow> ('w, cDatabase) capi_m" where
  "get_database h = c_bind (handle_value h) (\<lambda>ob. case ob of HDatabase d \<Rightarrow> c_ret d | _ \<Rightarrow> c_panic BadType)"

definition get_conn :: "nat \<Rightarrow> ('w, cConn) capi_m" where
  "get_conn h = c_bind (handle_value h) (\<lambda>ob. case ob of HConn d \<Rightarrow> c_ret d | _ \<Rightarrow> c_panic BadType)"

definition get_stmt :: "nat \<Rightarrow> ('w, cStmt) capi_m" where
  "get_stmt h = c_bind (handle_value h) (\<lambda>ob. case ob of HStmt d \<Rightarrow> c_ret d | _ \<Rightarrow> c_panic BadType)"

definition get_stream :: "nat \<Rightarrow> ('w, cArrayStream) capi_m" where
  "get_stream h = c_bind (handle_value h) (\<lambda>ob. case ob of HStream d \<Rightarrow> c_ret d | _ \<Rightarrow> c_panic BadType)"

text \<open>An assignment to the fields of a Go object.\<close>

definition set_object :: "nat \<Rightarrow> c_object \<Rightarrow> ('w, unit) capi_m" where
  "set_object h ob = c_modify (\<lambda>s. s\<lparr>objs := (objs s)(h \<mapsto> ob)\<rparr>)"

section \<open>Contexts\<close>

text \<open>
  The embedded \<^verbatim>\<open>cancellableContext\<close> of a connection or statement.  \<^verbatim>\<open>context.WithCancel\<close> makes a new context;
  contexts are numbered, and a cancelled one stays cancelled.
\<close>

definition ctx_of :: "c_object \<Rightarrow> nat option option" where
  "ctx_of ob = (case ob of HConn d \<Rightarrow> Some (conn_ctx d) | HStmt d \<Rightarrow> Some (stmt_ctx d) | _ \<Rightarrow> None)"

definition with_ctx :: "nat option \<Rightarrow> c_object \<Rightarrow> c_object" where
  "with_ctx c ob = (case ob of HConn d \<Rightarrow> HConn (d\<lparr>conn_ctx := c\<rparr>) | HStmt d \<Rightarrow> HStmt (d\<lparr>stmt_ctx := c\<rparr>) | _ \<Rightarrow> ob)"

definition cancelContext :: "nat \<Rightarrow> ('w, unit) capi_m" where
  "cancelContext h = (\<lambda>s. case objs s h of None \<Rightarrow> (Inl NilDeref, s) | Some ob \<Rightarrow>
     (case ctx_of ob of None \<Rightarrow> (Inl NilDeref, s) | Some c \<Rightarrow>
       (Inr (), s\<lparr>cancelled := (case c of None \<Rightarrow> cancelled s | Some n \<Rightarrow> insert n (cancelled s)),
          objs := (objs s)(h \<mapsto> with_ctx None ob)\<rparr>)))"

definition newContext :: "nat \<Rightarrow> ('w, nat) capi_m" where
  "newContext h = c_then (cancelContext h) (\<lambda>s. case objs s h of None \<Rightarrow> (Inl NilDeref, s) | Some ob \<Rightarrow>
     (Inr (next_ctx s), s\<lparr>next_ctx := next_ctx s + 1, objs := (objs s)(h \<mapsto> with_ctx (Some (next_ctx s)) ob)\<rparr>))"

section \<open>The checks\<close>

text \<open>
  \<^verbatim>\<open>checkDBAlloc\<close>, \<^verbatim>\<open>checkConnAlloc\<close> and \<^verbatim>\<open>checkStmtAlloc\<close>: \<open>None\<close> is false (with the error set); for true the model
  returns the \<^verbatim>\<open>private_data\<close> that every caller reads next.
\<close>

definition check_alloc :: "string \<Rightarrow> ('w capi \<Rightarrow> nat \<Rightarrow> nat) \<Rightarrow> nat option \<Rightarrow> string \<Rightarrow> ('w, nat option) capi_m" where
  "check_alloc what data ptr fname = (\<lambda>s.
     if globalPoison s
     then c_then (set_error ''%s: Go panicked, driver is in unknown state'' [fname]) (c_ret None) s
     else case ptr of
       None \<Rightarrow> c_then (set_error (''%s: '' @ what @ '' not allocated'') [fname]) (c_ret None) s
     | Some a \<Rightarrow> if data s a = 0
         then c_then (set_error (''%s: '' @ what @ '' not allocated'') [fname]) (c_ret None) s
         else (Inr (Some (data s a)), s))"

definition checkDBAlloc :: "nat option \<Rightarrow> string \<Rightarrow> ('w, nat option) capi_m" where
  "checkDBAlloc = check_alloc ''database'' db_data"

definition checkConnAlloc :: "nat option \<Rightarrow> string \<Rightarrow> ('w, nat option) capi_m" where
  "checkConnAlloc = check_alloc ''connection'' cnxn_data"

definition checkStmtAlloc :: "nat option \<Rightarrow> string \<Rightarrow> ('w, nat option) capi_m" where
  "checkStmtAlloc = check_alloc ''statement'' stmt_data"

text \<open>The handle and the initialized Go object behind it.\<close>

definition checkDBInit :: "nat option \<Rightarrow> string \<Rightarrow> ('w, (nat \<times> nat) option) capi_m" where
  "checkDBInit db fname = c_bind (checkDBAlloc db fname) (\<lambda>r. case r of None \<Rightarrow> c_ret None
     | Some h \<Rightarrow> c_bind (get_database h) (\<lambda>d. case db_db d of
         None \<Rightarrow> c_then (set_error ''%s: database not initialized'' [fname]) (c_ret None)
       | Some x \<Rightarrow> c_ret (Some (h, x))))"

definition checkConnInit :: "nat option \<Rightarrow> string \<Rightarrow> ('w, (nat \<times> nat) option) capi_m" where
  "checkConnInit cnxn fname = c_bind (checkConnAlloc cnxn fname) (\<lambda>r. case r of None \<Rightarrow> c_ret None
     | Some h \<Rightarrow> c_bind (get_conn h) (\<lambda>d. case conn_cnxn d of
         None \<Rightarrow> c_then (set_error ''%s: connection not initialized'' [fname]) (c_ret None)
       | Some x \<Rightarrow> c_ret (Some (h, x))))"

definition checkStmtInit :: "nat option \<Rightarrow> string \<Rightarrow> ('w, (nat \<times> nat) option) capi_m" where
  "checkStmtInit stmt fname = c_bind (checkStmtAlloc stmt fname) (\<lambda>r. case r of None \<Rightarrow> c_ret None
     | Some h \<Rightarrow> c_bind (get_stmt h) (\<lambda>d. case stmt_stmt d of
         None \<Rightarrow> c_then (set_error ''%s: statement not allocated'' [fname]) (c_ret None)
       | Some x \<Rightarrow> c_ret (Some (h, x))))"

section \<open>Arguments and results\<close>

text \<open>\<^verbatim>\<open>C.GoString\<close>: the empty text for a null pointer.\<close>

definition GoString :: "string option \<Rightarrow> string" where
  "GoString p = (case p of None \<Rightarrow> [] | Some s \<Rightarrow> C_CString s)"

definition toStrPtr :: "string option \<Rightarrow> string option" where
  "toStrPtr p = (case p of None \<Rightarrow> None | Some s \<Rightarrow> Some (C_CString s))"

text \<open>An array of strings that ends with a null pointer.\<close>

primrec str_slice :: "string option list \<Rightarrow> string list" where
  "str_slice [] = []"
| "str_slice (p # ps) = (case p of None \<Rightarrow> [] | Some s \<Rightarrow> C_CString s # str_slice ps)"

definition toStrSlice :: "string option list option \<Rightarrow> string list option" where
  "toStrSlice p = (case p of None \<Rightarrow> None | Some ps \<Rightarrow> Some (str_slice ps))"

text \<open>
  \<^verbatim>\<open>fromCArr(ptr, int(sz))\<close> for a \<^verbatim>\<open>size_t\<close>: a slice of C memory, which by contract is at least that long.  The
  conversion to \<^verbatim>\<open>int\<close> wraps around, and \<^verbatim>\<open>unsafe.Slice\<close> panics for a negative length.
\<close>

definition fromCArr :: "'a list option \<Rightarrow> int \<Rightarrow> ('w, 'a list) capi_m" where
  "fromCArr ptr sz = (case ptr of None \<Rightarrow> c_ret [] | Some mem \<Rightarrow>
     if wrap64 sz < 0 then c_panic SliceLen else c_ret (take (nat (wrap64 sz)) mem))"

text \<open>
  A text option: the caller's buffer is filled, with a null byte behind the text, if it is long enough; the
  length needed is reported either way.
\<close>

definition exportStringOption :: "string \<Rightarrow> ('w, nat) capi_m" where
  "exportStringOption val = c_bind (c_gets (\<lambda>s. (o_value (c_out s), o_length (c_out s)))) (\<lambda>(out, len).
     case len of None \<Rightarrow> c_panic NilDeref
     | Some n \<Rightarrow> c_then
         (if int (length val) + 1 \<le> n
          then c_bind (fromCArr out n) (\<lambda>sink.
            if length sink \<le> length val then c_panic IndexRange
            else c_modify (\<lambda>s. s\<lparr>c_out := (c_out s)\<lparr>o_value :=
                 map_option (\<lambda>mem. val @ CHR 0x00 # drop (length val + 1) mem) out\<rparr>\<rparr>))
          else c_ret ())
         (c_then (c_modify (\<lambda>s. s\<lparr>c_out := (c_out s)\<lparr>o_length := Some (int (length val) + 1)\<rparr>\<rparr>)) (c_ret ADBC_STATUS_OK)))"

definition exportBytesOption :: "string \<Rightarrow> ('w, nat) capi_m" where
  "exportBytesOption val = c_bind (c_gets (\<lambda>s. (o_value (c_out s), o_length (c_out s)))) (\<lambda>(out, len).
     case len of None \<Rightarrow> c_panic NilDeref
     | Some n \<Rightarrow> c_then
         (if int (length val) \<le> n
          then c_bind (fromCArr out n) (\<lambda>sink. c_modify (\<lambda>s. s\<lparr>c_out := (c_out s)\<lparr>o_value :=
                 map_option (\<lambda>mem. take (length sink) val @ drop (min (length sink) (length val)) mem) out\<rparr>\<rparr>))
          else c_ret ())
         (c_then (c_modify (\<lambda>s. s\<lparr>c_out := (c_out s)\<lparr>o_length := Some (int (length val))\<rparr>\<rparr>)) (c_ret ADBC_STATUS_OK)))"

definition export_double :: "64 word \<Rightarrow> ('w, unit) capi_m" where
  "export_double v = c_bind (c_gets (\<lambda>s. o_double (c_out s))) (\<lambda>p. case p of None \<Rightarrow> c_panic NilDeref
     | Some _ \<Rightarrow> c_modify (\<lambda>s. s\<lparr>c_out := (c_out s)\<lparr>o_double := Some v\<rparr>\<rparr>))"

definition export_int :: "int \<Rightarrow> ('w, unit) capi_m" where
  "export_int v = c_bind (c_gets (\<lambda>s. o_int (c_out s))) (\<lambda>p. case p of None \<Rightarrow> c_panic NilDeref
     | Some _ \<Rightarrow> c_modify (\<lambda>s. s\<lparr>c_out := (c_out s)\<lparr>o_int := Some v\<rparr>\<rparr>))"

definition export_affected :: "int \<Rightarrow> ('w, unit) capi_m" where
  "export_affected n = c_bind (c_gets (\<lambda>s. o_affected (c_out s))) (\<lambda>p. case p of None \<Rightarrow> c_ret ()
     | Some _ \<Rightarrow> c_modify (\<lambda>s. s\<lparr>c_out := (c_out s)\<lparr>o_affected := Some n\<rparr>\<rparr>))"

text \<open>\<^verbatim>\<open>cdata.ExportArrowSchema\<close>.\<close>

definition export_schema :: "nat \<Rightarrow> ('w, unit) capi_m" where
  "export_schema sc = c_bind (c_gets (\<lambda>s. o_schema (c_out s))) (\<lambda>p. case p of None \<Rightarrow> c_panic NilDeref
     | Some _ \<Rightarrow> c_modify (\<lambda>s. s\<lparr>c_out := (c_out s)\<lparr>o_schema := Some (Some sc)\<rparr>\<rparr>))"

text \<open>A record reader becomes a C stream, which holds a reference of its own.\<close>

definition exportRecordReader :: "'w go_env \<Rightarrow> nat \<Rightarrow> nat option \<Rightarrow> ('w, unit) capi_m" where
  "exportRecordReader env rdr stream = (case stream of None \<Rightarrow> c_panic NilDeref
     | Some a \<Rightarrow> c_bind (newHandle (HStream \<lparr>cs_rdr = rdr, cs_adbcErr = None, cs_status = ADBC_STATUS_OK\<rparr>)) (\<lambda>h.
         c_then (c_modify (\<lambda>s. s\<lparr>stream_data := (stream_data s)(a := \<lparr>st_ours = True, st_private = h\<rparr>)\<rparr>))
           (go_do (call_effect env (Rdr_Retain rdr)))))"

end
