(* ===== verification/CDatabase.thy ===== *)
theory CDatabase
  imports CHandles
begin

text \<open>The operations of \<^verbatim>\<open>AdbcDatabase\<close> in \<^verbatim>\<open>src/pkg/quack/driver.go\<close>, and the option operations all three kinds of object share.\<close>

section \<open>Options\<close>

text \<open>
  The option operations of databases, connections and statements differ in the check, the receiver and the function
  name only: each begins with the check, then asserts the interface \<^verbatim>\<open>adbc.GetSetOptions\<close>.
\<close>

definition with_object :: "('w, (nat \<times> nat) option) capi_m \<Rightarrow> (nat \<Rightarrow> nat \<Rightarrow> ('w, nat) capi_m) \<Rightarrow> ('w, nat) capi_m" where
  "with_object check body = c_bind check (\<lambda>r. case r of None \<Rightarrow> c_ret ADBC_STATUS_INVALID_STATE | Some (h, x) \<Rightarrow> body h x)"

definition requiring :: "'w go_env \<Rightarrow> go_iface \<Rightarrow> go_target \<Rightarrow> string \<Rightarrow> ('w, nat) capi_m \<Rightarrow> ('w, nat) capi_m" where
  "requiring env iface target msg body =
     (if supports env iface target then body else complain msg [] ADBC_STATUS_NOT_IMPLEMENTED)"

definition getString_op :: "'w go_env \<Rightarrow> string \<Rightarrow> (string \<Rightarrow> ('w, (nat \<times> nat) option) capi_m) \<Rightarrow> (nat \<Rightarrow> go_target) \<Rightarrow> string option \<Rightarrow> 'w capi \<Rightarrow> nat \<times> 'w capi" where
  "getString_op env fname check target key = recovering env fname (with_object (check fname) (\<lambda>h x.
     requiring env GetSetOptions (target x) (fname @ '': options are not supported'')
       (c_bind (go_do (get_option env (target x) (GoString key))) (\<lambda>r. case r of
           Inl e \<Rightarrow> report (Some e) | Inr val \<Rightarrow> exportStringOption val))))"

definition getBytes_op :: "'w go_env \<Rightarrow> string \<Rightarrow> (string \<Rightarrow> ('w, (nat \<times> nat) option) capi_m) \<Rightarrow> (nat \<Rightarrow> go_target) \<Rightarrow> string option \<Rightarrow> 'w capi \<Rightarrow> nat \<times> 'w capi" where
  "getBytes_op env fname check target key = recovering env fname (with_object (check fname) (\<lambda>h x.
     requiring env GetSetOptions (target x) (fname @ '': options are not supported'')
       (c_bind (go_do (get_bytes env (target x) (GoString key))) (\<lambda>r. case r of
           Inl e \<Rightarrow> report (Some e) | Inr val \<Rightarrow> exportBytesOption val))))"

text \<open>A number is stored whether or not there is an error.\<close>

definition getDouble_op :: "'w go_env \<Rightarrow> string \<Rightarrow> (string \<Rightarrow> ('w, (nat \<times> nat) option) capi_m) \<Rightarrow> (nat \<Rightarrow> go_target) \<Rightarrow> string option \<Rightarrow> 'w capi \<Rightarrow> nat \<times> 'w capi" where
  "getDouble_op env fname check target key = recovering env fname (with_object (check fname) (\<lambda>h x.
     requiring env GetSetOptions (target x) (fname @ '': options are not supported'')
       (c_bind (go_do (get_double env (target x) (GoString key))) (\<lambda>(val, e). c_then (export_double val) (report e)))))"

definition getInt_op :: "'w go_env \<Rightarrow> string \<Rightarrow> (string \<Rightarrow> ('w, (nat \<times> nat) option) capi_m) \<Rightarrow> (nat \<Rightarrow> go_target) \<Rightarrow> string option \<Rightarrow> 'w capi \<Rightarrow> nat \<times> 'w capi" where
  "getInt_op env fname check target key = recovering env fname (with_object (check fname) (\<lambda>h x.
     requiring env GetSetOptions (target x) (fname @ '': options are not supported'')
       (c_bind (go_do (get_int env (target x) (GoString key))) (\<lambda>(val, e). c_then (export_int val) (report e)))))"

definition setValue_op :: "'w go_env \<Rightarrow> string \<Rightarrow> (string \<Rightarrow> ('w, (nat \<times> nat) option) capi_m) \<Rightarrow> (nat \<Rightarrow> go_target) \<Rightarrow> string option \<Rightarrow> ('w, opt_value) capi_m \<Rightarrow> 'w capi \<Rightarrow> nat \<times> 'w capi" where
  "setValue_op env fname check target key get_value = recovering env fname (with_object (check fname) (\<lambda>h x.
     requiring env GetSetOptions (target x) (fname @ '': options are not supported'')
       (c_bind get_value (\<lambda>v. c_bind (go_do (call_err env (Go_SetOption (target x) (GoString key) v))) report))))"

text \<open>The bytes of an option: \<^verbatim>\<open>fromCArr[byte](value, int(length))\<close>.\<close>

definition bytes_value :: "bytes option \<Rightarrow> int \<Rightarrow> ('w, opt_value) capi_m" where
  "bytes_value mem len = c_bind (fromCArr mem len) (\<lambda>b. c_ret (OptBytes b))"

section \<open>Databases\<close>

definition QuackDatabaseGetOption :: "'w go_env \<Rightarrow> nat option \<Rightarrow> string option \<Rightarrow> 'w capi \<Rightarrow> nat \<times> 'w capi" where
  "QuackDatabaseGetOption env p key = getString_op env ''AdbcDatabaseGetOption'' (checkDBInit p) TDatabase key"

definition QuackDatabaseGetOptionBytes :: "'w go_env \<Rightarrow> nat option \<Rightarrow> string option \<Rightarrow> 'w capi \<Rightarrow> nat \<times> 'w capi" where
  "QuackDatabaseGetOptionBytes env p key = getBytes_op env ''AdbcDatabaseGetOptionBytes'' (checkDBInit p) TDatabase key"

definition QuackDatabaseGetOptionDouble :: "'w go_env \<Rightarrow> nat option \<Rightarrow> string option \<Rightarrow> 'w capi \<Rightarrow> nat \<times> 'w capi" where
  "QuackDatabaseGetOptionDouble env p key = getDouble_op env ''AdbcDatabaseGetOptionDouble'' (checkDBInit p) TDatabase key"

definition QuackDatabaseGetOptionInt :: "'w go_env \<Rightarrow> nat option \<Rightarrow> string option \<Rightarrow> 'w capi \<Rightarrow> nat \<times> 'w capi" where
  "QuackDatabaseGetOptionInt env p key = getInt_op env ''AdbcDatabaseGetOptionInt'' (checkDBInit p) TDatabase key"

definition QuackDatabaseSetOptionBytes :: "'w go_env \<Rightarrow> nat option \<Rightarrow> string option \<Rightarrow> bytes option \<Rightarrow> int \<Rightarrow> 'w capi \<Rightarrow> nat \<times> 'w capi" where
  "QuackDatabaseSetOptionBytes env p key mem len = setValue_op env ''AdbcDatabaseSetOptionBytes'' (checkDBInit p) TDatabase key (bytes_value mem len)"

definition QuackDatabaseSetOptionDouble :: "'w go_env \<Rightarrow> nat option \<Rightarrow> string option \<Rightarrow> 64 word \<Rightarrow> 'w capi \<Rightarrow> nat \<times> 'w capi" where
  "QuackDatabaseSetOptionDouble env p key v = setValue_op env ''AdbcDatabaseSetOptionDouble'' (checkDBInit p) TDatabase key (c_ret (OptDouble v))"

definition QuackDatabaseSetOptionInt :: "'w go_env \<Rightarrow> nat option \<Rightarrow> string option \<Rightarrow> int \<Rightarrow> 'w capi \<Rightarrow> nat \<times> 'w capi" where
  "QuackDatabaseSetOptionInt env p key v = setValue_op env ''AdbcDatabaseSetOptionInt'' (checkDBInit p) TDatabase key (c_ret (OptInt v))"

text \<open>
  The log level named by \<^verbatim>\<open>ADBC_DRIVER_QUACK_LOG_LEVEL\<close>.  The case of \<^verbatim>\<open>warn\<close> has an empty body, so it leaves the
  initial level, which is that of \<^verbatim>\<open>error\<close>.
\<close>

definition log_level_of :: "string \<Rightarrow> log_level option" where
  "log_level_of v = (let v = ToLower v in
     if v = ''debug'' then Some LevelDebug
     else if v = ''info'' then Some LevelInfo
     else if v = ''warn'' then Some LevelError
     else if v = ''warning'' then Some LevelWarn
     else if v = ''error'' then Some LevelError
     else None)"

definition initLoggingFromEnv :: "'w go_env \<Rightarrow> nat \<Rightarrow> ('w, unit) capi_m" where
  "initLoggingFromEnv env x = (case log_level_of (logLevelEnv env) of None \<Rightarrow> c_ret ()
     | Some level \<Rightarrow> if supports env DatabaseLogging (TDatabase x)
         then go_do (call_effect env (Set_Logger x level)) else c_ret ())"

definition QuackDatabaseNew :: "'w go_env \<Rightarrow> nat option \<Rightarrow> 'w capi \<Rightarrow> nat \<times> 'w capi" where
  "QuackDatabaseNew env db = recovering env ''AdbcDatabaseNew'' (\<lambda>s.
     if globalPoison s
     then complain ''AdbcDatabaseNew: Go panicked, driver is in unknown state'' [] ADBC_STATUS_INTERNAL s
     else case db of None \<Rightarrow> c_panic NilDeref s
     | Some a \<Rightarrow> if db_data s a \<noteq> 0
         then complain ''AdbcDatabaseNew: database already allocated'' [] ADBC_STATUS_INVALID_STATE s
         else c_bind (newHandle (HDatabase \<lparr>db_opts = [], db_db = None\<rparr>)) (\<lambda>h.
           c_then (c_modify (\<lambda>s. s\<lparr>db_data := (db_data s)(a := h)\<rparr>)) (c_ret ADBC_STATUS_OK)) s)"

definition QuackDatabaseSetOption :: "'w go_env \<Rightarrow> nat option \<Rightarrow> string option \<Rightarrow> string option \<Rightarrow> 'w capi \<Rightarrow> nat \<times> 'w capi" where
  "QuackDatabaseSetOption env db key v = recovering env ''AdbcDatabaseSetOption''
     (c_bind (checkDBAlloc db ''AdbcDatabaseSetOption'') (\<lambda>r. case r of None \<Rightarrow> c_ret ADBC_STATUS_INVALID_STATE
       | Some h \<Rightarrow> c_bind (get_database h) (\<lambda>cdb. case db_db cdb of
           Some x \<Rightarrow> requiring env PostInitOptions (TDatabase x) ''AdbcDatabaseSetOption: options are not supported''
             (c_bind (go_do (call_err env (Go_SetOption (TDatabase x) (GoString key) (OptString (GoString v))))) report)
         | None \<Rightarrow> c_then (set_object h (HDatabase (cdb\<lparr>db_opts := AList.update (GoString key) (GoString v) (db_opts cdb)\<rparr>)))
             (c_ret ADBC_STATUS_OK))))"

definition QuackDatabaseInit :: "'w go_env \<Rightarrow> nat option \<Rightarrow> 'w capi \<Rightarrow> nat \<times> 'w capi" where
  "QuackDatabaseInit env db = recovering env ''AdbcDatabaseInit''
     (c_bind (checkDBAlloc db ''AdbcDatabaseInit'') (\<lambda>r. case r of None \<Rightarrow> c_ret ADBC_STATUS_INVALID_STATE
       | Some h \<Rightarrow> c_bind (get_database h) (\<lambda>cdb.
           if db_db cdb \<noteq> None
           then complain ''AdbcDatabaseInit: database already initialized'' [] ADBC_STATUS_INVALID_STATE
           else c_bind (go_do (call_make env (Go_NewDatabase (db_opts cdb)))) (\<lambda>res. case res of
               Inl e \<Rightarrow> report (Some e)
             | Inr adb \<Rightarrow> c_then (initLoggingFromEnv env adb)
                 (c_then (set_object h (HDatabase (cdb\<lparr>db_db := Some adb\<rparr>))) (c_ret ADBC_STATUS_OK))))))"

text \<open>The error of closing the Go database is dropped.\<close>

definition QuackDatabaseRelease :: "'w go_env \<Rightarrow> nat option \<Rightarrow> 'w capi \<Rightarrow> nat \<times> 'w capi" where
  "QuackDatabaseRelease env db = recovering env ''AdbcDatabaseInit''
     (c_bind (checkDBAlloc db ''AdbcDatabaseRelease'') (\<lambda>r. case r of None \<Rightarrow> c_ret ADBC_STATUS_INVALID_STATE
       | Some h \<Rightarrow> c_then (c_modify (\<lambda>s. s\<lparr>db_data := (db_data s)(the db := 0)\<rparr>))
           (c_bind (get_database h) (\<lambda>cdb. c_then (deleteHandle h)
             (c_then (case db_db cdb of None \<Rightarrow> c_ret ()
                | Some x \<Rightarrow> c_then (go_do (call_err env (Go_Close (TDatabase x)))) (set_object h (HDatabase (cdb\<lparr>db_db := None\<rparr>))))
             (c_then (set_object h (HDatabase \<lparr>db_opts = [], db_db = None\<rparr>)) (c_ret ADBC_STATUS_OK)))))))"

text \<open>The name of the log level in the environment: \<^verbatim>\<open>warn\<close> is read as \<^verbatim>\<open>error\<close>, although the help text lists it.\<close>

lemma warn_level_is_error: "log_level_of ''warn'' = log_level_of ''error''" "log_level_of ''warning'' \<noteq> log_level_of ''error''"
  by code_simp+

end
