(* ===== verification/CConnection.thy ===== *)
theory CConnection
  imports CDatabase
begin

text \<open>The operations of \<^verbatim>\<open>AdbcConnection\<close> in \<^verbatim>\<open>src/pkg/quack/driver.go\<close>.\<close>

section \<open>Options\<close>

definition QuackConnectionGetOption :: "'w go_env \<Rightarrow> nat option \<Rightarrow> string option \<Rightarrow> 'w capi \<Rightarrow> nat \<times> 'w capi" where
  "QuackConnectionGetOption env p key = getString_op env ''AdbcConnectionGetOption'' (checkConnInit p) TConnection key"

definition QuackConnectionGetOptionBytes :: "'w go_env \<Rightarrow> nat option \<Rightarrow> string option \<Rightarrow> 'w capi \<Rightarrow> nat \<times> 'w capi" where
  "QuackConnectionGetOptionBytes env p key = getBytes_op env ''AdbcConnectionGetOptionBytes'' (checkConnInit p) TConnection key"

definition QuackConnectionGetOptionDouble :: "'w go_env \<Rightarrow> nat option \<Rightarrow> string option \<Rightarrow> 'w capi \<Rightarrow> nat \<times> 'w capi" where
  "QuackConnectionGetOptionDouble env p key = getDouble_op env ''AdbcConnectionGetOptionDouble'' (checkConnInit p) TConnection key"

definition QuackConnectionGetOptionInt :: "'w go_env \<Rightarrow> nat option \<Rightarrow> string option \<Rightarrow> 'w capi \<Rightarrow> nat \<times> 'w capi" where
  "QuackConnectionGetOptionInt env p key = getInt_op env ''AdbcConnectionGetOptionInt'' (checkConnInit p) TConnection key"

definition QuackConnectionSetOptionBytes :: "'w go_env \<Rightarrow> nat option \<Rightarrow> string option \<Rightarrow> bytes option \<Rightarrow> int \<Rightarrow> 'w capi \<Rightarrow> nat \<times> 'w capi" where
  "QuackConnectionSetOptionBytes env p key mem len = setValue_op env ''AdbcConnectionSetOptionBytes'' (checkConnInit p) TConnection key (bytes_value mem len)"

definition QuackConnectionSetOptionDouble :: "'w go_env \<Rightarrow> nat option \<Rightarrow> string option \<Rightarrow> 64 word \<Rightarrow> 'w capi \<Rightarrow> nat \<times> 'w capi" where
  "QuackConnectionSetOptionDouble env p key v = setValue_op env ''AdbcConnectionSetOptionDouble'' (checkConnInit p) TConnection key (c_ret (OptDouble v))"

definition QuackConnectionSetOptionInt :: "'w go_env \<Rightarrow> nat option \<Rightarrow> string option \<Rightarrow> int \<Rightarrow> 'w capi \<Rightarrow> nat \<times> 'w capi" where
  "QuackConnectionSetOptionInt env p key v = setValue_op env ''AdbcConnectionSetOptionInt'' (checkConnInit p) TConnection key (c_ret (OptInt v))"

section \<open>Life cycle\<close>

definition QuackConnectionNew :: "'w go_env \<Rightarrow> nat option \<Rightarrow> 'w capi \<Rightarrow> nat \<times> 'w capi" where
  "QuackConnectionNew env cnxn = recovering env ''AdbcConnectionNew'' (\<lambda>s.
     if globalPoison s
     then complain ''AdbcConnectionNew: Go panicked, driver is in unknown state'' [] ADBC_STATUS_INTERNAL s
     else case cnxn of None \<Rightarrow> c_panic NilDeref s
     | Some a \<Rightarrow> if cnxn_data s a \<noteq> 0
         then complain ''AdbcConnectionNew: connection already allocated'' [] ADBC_STATUS_INVALID_STATE s
         else c_bind (newHandle (HConn \<lparr>conn_ctx = None, conn_cnxn = None, conn_initArgs = []\<rparr>)) (\<lambda>h.
           c_then (c_modify (\<lambda>s. s\<lparr>cnxn_data := (cnxn_data s)(a := h)\<rparr>)) (c_ret ADBC_STATUS_OK)) s)"

definition QuackConnectionSetOption :: "'w go_env \<Rightarrow> nat option \<Rightarrow> string option \<Rightarrow> string option \<Rightarrow> 'w capi \<Rightarrow> nat \<times> 'w capi" where
  "QuackConnectionSetOption env cnxn key v = recovering env ''AdbcConnectionSetOption''
     (c_bind (checkConnAlloc cnxn ''AdbcConnectionSetOption'') (\<lambda>r. case r of None \<Rightarrow> c_ret ADBC_STATUS_INVALID_STATE
       | Some h \<Rightarrow> c_bind (get_conn h) (\<lambda>conn. case conn_cnxn conn of
           None \<Rightarrow> c_then (set_object h (HConn (conn\<lparr>conn_initArgs := AList.update (GoString key) (GoString v) (conn_initArgs conn)\<rparr>)))
             (c_ret ADBC_STATUS_OK)
         | Some x \<Rightarrow> requiring env PostInitOptions (TConnection x) ''AdbcConnectionSetOption: not supported post-init''
             (c_bind (go_do (call_err env (Go_SetOption (TConnection x) (GoString key) (OptString (GoString v))))) report))))"

text \<open>The loop over the options set before: it stops at the first error.\<close>

primrec apply_options :: "'w go_env \<Rightarrow> nat \<Rightarrow> options \<Rightarrow> ('w, nat) capi_m" where
  "apply_options env x [] = c_ret ADBC_STATUS_OK"
| "apply_options env x (kv # kvs) =
     c_bind (c_bind (go_do (call_err env (Go_SetOption (TConnection x) (fst kv) (OptString (snd kv))))) report) (\<lambda>code.
       if code \<noteq> ADBC_STATUS_OK then c_ret code else apply_options env x kvs)"

definition QuackConnectionInit :: "'w go_env \<Rightarrow> nat option \<Rightarrow> nat option \<Rightarrow> 'w capi \<Rightarrow> nat \<times> 'w capi" where
  "QuackConnectionInit env cnxn db = recovering env ''AdbcConnectionInit''
     (c_bind (checkConnAlloc cnxn ''AdbcConnectionInit'') (\<lambda>r. case r of None \<Rightarrow> c_ret ADBC_STATUS_INVALID_STATE
       | Some h \<Rightarrow> c_bind (get_conn h) (\<lambda>conn.
           if conn_cnxn conn \<noteq> None
           then complain ''AdbcConnectionInit: connection already initialized'' [] ADBC_STATUS_INVALID_STATE
           else with_object (checkDBInit db ''AdbcConnectionInit'') (\<lambda>_ y.
             c_bind (go_do (call_make env (Go_Open y))) (\<lambda>res. case res of
                 Inl e \<Rightarrow> report (Some e)
               | Inr x \<Rightarrow> c_then (set_object h (HConn (conn\<lparr>conn_cnxn := Some x\<rparr>)))
                   (if conn_initArgs conn = [] then c_ret ADBC_STATUS_OK
                    else requiring env PostInitOptions (TConnection x) ''AdbcConnectionInit: options are not supported''
                      (c_bind (apply_options env x (range_map env (conn_initArgs conn))) (\<lambda>code.
                         if code \<noteq> ADBC_STATUS_OK then c_ret code
                         else c_then (set_object h (HConn (conn\<lparr>conn_cnxn := Some x, conn_initArgs := []\<rparr>)))
                           (c_ret ADBC_STATUS_OK)))))))))"

definition QuackConnectionRelease :: "'w go_env \<Rightarrow> nat option \<Rightarrow> 'w capi \<Rightarrow> nat \<times> 'w capi" where
  "QuackConnectionRelease env cnxn = recovering env ''AdbcConnectionRelease''
     (c_bind (checkConnAlloc cnxn ''AdbcConnectionRelease'') (\<lambda>r. case r of None \<Rightarrow> c_ret ADBC_STATUS_INVALID_STATE
       | Some h \<Rightarrow> c_then (c_modify (\<lambda>s. s\<lparr>cnxn_data := (cnxn_data s)(the cnxn := 0)\<rparr>))
           (c_bind (get_conn h) (\<lambda>conn. c_then (deleteHandle h)
             (c_defer (c_then (cancelContext h) (set_object h (HConn (conn\<lparr>conn_ctx := None, conn_cnxn := None\<rparr>))))
               (case conn_cnxn conn of None \<Rightarrow> c_ret ADBC_STATUS_OK
                | Some x \<Rightarrow> c_bind (go_do (call_err env (Go_Close (TConnection x)))) report))))))"

definition QuackConnectionCancel :: "'w go_env \<Rightarrow> nat option \<Rightarrow> 'w capi \<Rightarrow> nat \<times> 'w capi" where
  "QuackConnectionCancel env cnxn = recovering env ''AdbcConnectionCancel''
     (with_object (checkConnInit cnxn ''AdbcConnectionCancel'') (\<lambda>h x. c_then (cancelContext h) (c_ret ADBC_STATUS_OK)))"

section \<open>Metadata\<close>

text \<open>A reader or an error from the Go side: the reader is exported and the own reference given up.\<close>

definition export_reader :: "'w go_env \<Rightarrow> nat option \<Rightarrow> api_error + nat \<Rightarrow> ('w, nat) capi_m" where
  "export_reader env out res = (case res of Inl e \<Rightarrow> report (Some e)
     | Inr rdr \<Rightarrow> c_defer (go_do (call_effect env (Rdr_Release rdr)))
         (c_then (exportRecordReader env rdr out) (c_ret ADBC_STATUS_OK)))"

definition QuackConnectionGetInfo :: "'w go_env \<Rightarrow> nat option \<Rightarrow> 32 word list option \<Rightarrow> int \<Rightarrow> nat option \<Rightarrow> 'w capi \<Rightarrow> nat \<times> 'w capi" where
  "QuackConnectionGetInfo env cnxn codes len out = recovering env ''AdbcConnectionGetInfo''
     (with_object (checkConnInit cnxn ''AdbcConnectionGetInfo'') (\<lambda>h x.
       c_bind (fromCArr codes len) (\<lambda>infoCodes. c_bind (newContext h) (\<lambda>ctx.
         c_bind (go_do (call_make env (Go_GetInfo x ctx infoCodes))) (export_reader env out)))))"

definition QuackConnectionGetObjects :: "'w go_env \<Rightarrow> nat option \<Rightarrow> int \<Rightarrow> string option \<Rightarrow> string option \<Rightarrow> string option \<Rightarrow> string option list option \<Rightarrow> string option \<Rightarrow> nat option \<Rightarrow> 'w capi \<Rightarrow> nat \<times> 'w capi" where
  "QuackConnectionGetObjects env cnxn depth cat schema tableName tableType columnName out = recovering env ''AdbcConnectionGetObjects''
     (with_object (checkConnInit cnxn ''AdbcConnectionGetObjects'') (\<lambda>h x. c_bind (newContext h) (\<lambda>ctx.
       c_bind (go_do (call_make env (Go_GetObjects x ctx depth (toStrPtr cat) (toStrPtr schema) (toStrPtr tableName)
           (toStrPtr columnName) (toStrSlice tableType)))) (export_reader env out))))"

definition QuackConnectionGetStatistics :: "'w go_env \<Rightarrow> nat option \<Rightarrow> string option \<Rightarrow> string option \<Rightarrow> string option \<Rightarrow> int \<Rightarrow> nat option \<Rightarrow> 'w capi \<Rightarrow> nat \<times> 'w capi" where
  "QuackConnectionGetStatistics env cnxn cat schema tableName approximate out = recovering env ''AdbcConnectionGetStatistics''
     (with_object (checkConnInit cnxn ''AdbcConnectionGetStatistics'') (\<lambda>h x.
       requiring env ConnectionGetStatistics (TConnection x) ''AdbcConnectionGetStatistics: not supported''
         (c_bind (newContext h) (\<lambda>ctx. c_bind (go_do (call_make env (Go_GetStatistics x ctx (toStrPtr cat) (toStrPtr schema)
             (toStrPtr tableName) (approximate \<noteq> 0)))) (export_reader env out)))))"

text \<open>Both names of the next function are those of its neighbour.\<close>

definition QuackConnectionGetStatisticNames :: "'w go_env \<Rightarrow> nat option \<Rightarrow> nat option \<Rightarrow> 'w capi \<Rightarrow> nat \<times> 'w capi" where
  "QuackConnectionGetStatisticNames env cnxn out = recovering env ''AdbcConnectionGetStatistics''
     (with_object (checkConnInit cnxn ''AdbcConnectionGetStatistics'') (\<lambda>h x.
       requiring env ConnectionGetStatistics (TConnection x) ''AdbcConnectionGetStatistics: not supported''
         (c_bind (newContext h) (\<lambda>ctx. c_bind (go_do (call_make env (Go_GetStatisticNames x ctx))) (export_reader env out)))))"

text \<open>A schema or an error from the Go side.\<close>

definition export_schema_of :: "api_error + nat \<Rightarrow> ('w, nat) capi_m" where
  "export_schema_of res = (case res of Inl e \<Rightarrow> report (Some e)
     | Inr sc \<Rightarrow> c_then (export_schema sc) (c_ret ADBC_STATUS_OK))"

definition QuackConnectionGetTableSchema :: "'w go_env \<Rightarrow> nat option \<Rightarrow> string option \<Rightarrow> string option \<Rightarrow> string option \<Rightarrow> 'w capi \<Rightarrow> nat \<times> 'w capi" where
  "QuackConnectionGetTableSchema env cnxn cat schema tableName = recovering env ''AdbcConnectionGetTableSchema''
     (with_object (checkConnInit cnxn ''AdbcConnectionGetTableSchema'') (\<lambda>h x. c_bind (newContext h) (\<lambda>ctx.
       c_bind (go_do (call_make env (Go_GetTableSchema x ctx (toStrPtr cat) (toStrPtr schema) (GoString tableName)))) export_schema_of)))"

definition QuackConnectionGetTableTypes :: "'w go_env \<Rightarrow> nat option \<Rightarrow> nat option \<Rightarrow> 'w capi \<Rightarrow> nat \<times> 'w capi" where
  "QuackConnectionGetTableTypes env cnxn out = recovering env ''AdbcConnectionGetTableTypes''
     (with_object (checkConnInit cnxn ''AdbcConnectionGetTableTypes'') (\<lambda>h x. c_bind (newContext h) (\<lambda>ctx.
       c_bind (go_do (call_make env (Go_GetTableTypes x ctx))) (export_reader env out))))"

definition QuackConnectionReadPartition :: "'w go_env \<Rightarrow> nat option \<Rightarrow> bytes option \<Rightarrow> int \<Rightarrow> nat option \<Rightarrow> 'w capi \<Rightarrow> nat \<times> 'w capi" where
  "QuackConnectionReadPartition env cnxn serialized len out = recovering env ''AdbcConnectionReadPartition''
     (with_object (checkConnInit cnxn ''AdbcConnectionReadPartition'') (\<lambda>h x. c_bind (newContext h) (\<lambda>ctx.
       c_bind (fromCArr serialized len) (\<lambda>part.
         c_bind (go_do (call_make env (Go_ReadPartition x ctx part))) (export_reader env out)))))"

section \<open>Transactions\<close>

definition QuackConnectionCommit :: "'w go_env \<Rightarrow> nat option \<Rightarrow> 'w capi \<Rightarrow> nat \<times> 'w capi" where
  "QuackConnectionCommit env cnxn = recovering env ''AdbcConnectionCommit''
     (with_object (checkConnInit cnxn ''AdbcConnectionCommit'') (\<lambda>h x. c_bind (newContext h) (\<lambda>ctx.
       c_bind (go_do (call_err env (Go_Commit x ctx))) report)))"

definition QuackConnectionRollback :: "'w go_env \<Rightarrow> nat option \<Rightarrow> 'w capi \<Rightarrow> nat \<times> 'w capi" where
  "QuackConnectionRollback env cnxn = recovering env ''AdbcConnectionRollback''
     (with_object (checkConnInit cnxn ''AdbcConnectionRollback'') (\<lambda>h x. c_bind (newContext h) (\<lambda>ctx.
       c_bind (go_do (call_err env (Go_Rollback x ctx))) report)))"

end
