(* ===== verification/CStatement.thy ===== *)
theory CStatement
  imports CConnection
begin

text \<open>The operations of \<^verbatim>\<open>AdbcStatement\<close> in \<^verbatim>\<open>src/pkg/quack/driver.go\<close>.\<close>

section \<open>Options\<close>

definition QuackStatementGetOption :: "'w go_env \<Rightarrow> nat option \<Rightarrow> string option \<Rightarrow> 'w capi \<Rightarrow> nat \<times> 'w capi" where
  "QuackStatementGetOption env p key = getString_op env ''AdbcStatementGetOption'' (checkStmtInit p) TStatement key"

definition QuackStatementGetOptionBytes :: "'w go_env \<Rightarrow> nat option \<Rightarrow> string option \<Rightarrow> 'w capi \<Rightarrow> nat \<times> 'w capi" where
  "QuackStatementGetOptionBytes env p key = getBytes_op env ''AdbcStatementGetOptionBytes'' (checkStmtInit p) TStatement key"

definition QuackStatementGetOptionDouble :: "'w go_env \<Rightarrow> nat option \<Rightarrow> string option \<Rightarrow> 'w capi \<Rightarrow> nat \<times> 'w capi" where
  "QuackStatementGetOptionDouble env p key = getDouble_op env ''AdbcStatementGetOptionDouble'' (checkStmtInit p) TStatement key"

definition QuackStatementGetOptionInt :: "'w go_env \<Rightarrow> nat option \<Rightarrow> string option \<Rightarrow> 'w capi \<Rightarrow> nat \<times> 'w capi" where
  "QuackStatementGetOptionInt env p key = getInt_op env ''AdbcStatementGetOptionInt'' (checkStmtInit p) TStatement key"

definition QuackStatementSetOptionBytes :: "'w go_env \<Rightarrow> nat option \<Rightarrow> string option \<Rightarrow> bytes option \<Rightarrow> int \<Rightarrow> 'w capi \<Rightarrow> nat \<times> 'w capi" where
  "QuackStatementSetOptionBytes env p key mem len = setValue_op env ''AdbcStatementSetOptionBytes'' (checkStmtInit p) TStatement key (bytes_value mem len)"

definition QuackStatementSetOptionDouble :: "'w go_env \<Rightarrow> nat option \<Rightarrow> string option \<Rightarrow> 64 word \<Rightarrow> 'w capi \<Rightarrow> nat \<times> 'w capi" where
  "QuackStatementSetOptionDouble env p key v = setValue_op env ''AdbcStatementSetOptionDouble'' (checkStmtInit p) TStatement key (c_ret (OptDouble v))"

definition QuackStatementSetOptionInt :: "'w go_env \<Rightarrow> nat option \<Rightarrow> string option \<Rightarrow> int \<Rightarrow> 'w capi \<Rightarrow> nat \<times> 'w capi" where
  "QuackStatementSetOptionInt env p key v = setValue_op env ''AdbcStatementSetOptionInt'' (checkStmtInit p) TStatement key (c_ret (OptInt v))"

definition QuackStatementSetOption :: "'w go_env \<Rightarrow> nat option \<Rightarrow> string option \<Rightarrow> string option \<Rightarrow> 'w capi \<Rightarrow> nat \<times> 'w capi" where
  "QuackStatementSetOption env stmt key v = recovering env ''AdbcStatementSetOption''
     (with_object (checkStmtInit stmt ''AdbcStatementSetOption'') (\<lambda>h x.
       c_bind (go_do (call_err env (Go_SetOption (TStatement x) (GoString key) (OptString (GoString v))))) report))"

section \<open>Life cycle\<close>

definition QuackStatementNew :: "'w go_env \<Rightarrow> nat option \<Rightarrow> nat option \<Rightarrow> 'w capi \<Rightarrow> nat \<times> 'w capi" where
  "QuackStatementNew env cnxn stmt = recovering env ''AdbcStatementNew'' (\<lambda>s.
     if globalPoison s
     then complain ''AdbcStatementNew: Go panicked, driver is in unknown state'' [] ADBC_STATUS_INTERNAL s
     else case stmt of None \<Rightarrow> c_panic NilDeref s
     | Some a \<Rightarrow> if stmt_data s a \<noteq> 0
         then complain ''AdbcStatementNew: statement already allocated'' [] ADBC_STATUS_INVALID_STATE s
         else with_object (checkConnInit cnxn ''AdbcStatementNew'') (\<lambda>_ x.
           c_bind (go_do (call_make env (Go_NewStatement x))) (\<lambda>res. case res of
               Inl e \<Rightarrow> report (Some e)
             | Inr st \<Rightarrow> c_bind (newHandle (HStmt \<lparr>stmt_ctx = None, stmt_stmt = Some st\<rparr>)) (\<lambda>h.
                 c_then (c_modify (\<lambda>s. s\<lparr>stmt_data := (stmt_data s)(a := h)\<rparr>)) (c_ret ADBC_STATUS_OK)))) s)"

definition QuackStatementRelease :: "'w go_env \<Rightarrow> nat option \<Rightarrow> 'w capi \<Rightarrow> nat \<times> 'w capi" where
  "QuackStatementRelease env stmt = recovering env ''AdbcStatementRelease'' (\<lambda>s.
     if globalPoison s
     then complain ''AdbcStatementRelease: Go panicked, driver is in unknown state'' [] ADBC_STATUS_INTERNAL s
     else c_bind (checkStmtAlloc stmt ''AdbcStatementRelease'') (\<lambda>r. case r of None \<Rightarrow> c_ret ADBC_STATUS_INVALID_STATE
       | Some h \<Rightarrow> c_then (c_modify (\<lambda>s. s\<lparr>stmt_data := (stmt_data s)(the stmt := 0)\<rparr>))
           (c_bind (get_stmt h) (\<lambda>st. c_then (deleteHandle h)
             (c_defer (c_then (cancelContext h) (set_object h (HStmt \<lparr>stmt_ctx = None, stmt_stmt = None\<rparr>)))
               (case stmt_stmt st of None \<Rightarrow> c_ret ADBC_STATUS_OK
                | Some x \<Rightarrow> c_bind (go_do (call_err env (Go_Close (TStatement x)))) report))))) s)"

definition QuackStatementCancel :: "'w go_env \<Rightarrow> nat option \<Rightarrow> 'w capi \<Rightarrow> nat \<times> 'w capi" where
  "QuackStatementCancel env stmt = recovering env ''AdbcStatementCancel''
     (with_object (checkStmtInit stmt ''AdbcStatementCancel'') (\<lambda>h x. c_then (cancelContext h) (c_ret ADBC_STATUS_OK)))"

section \<open>Preparing and binding\<close>

definition QuackStatementPrepare :: "'w go_env \<Rightarrow> nat option \<Rightarrow> 'w capi \<Rightarrow> nat \<times> 'w capi" where
  "QuackStatementPrepare env stmt = recovering env ''AdbcStatementPrepare''
     (with_object (checkStmtInit stmt ''AdbcStatementPrepare'') (\<lambda>h x. c_bind (newContext h) (\<lambda>ctx.
       c_bind (go_do (call_err env (Go_Prepare x ctx))) report)))"

definition QuackStatementSetSqlQuery :: "'w go_env \<Rightarrow> nat option \<Rightarrow> string option \<Rightarrow> 'w capi \<Rightarrow> nat \<times> 'w capi" where
  "QuackStatementSetSqlQuery env stmt query = recovering env ''AdbcStatementSetSqlQuery''
     (with_object (checkStmtInit stmt ''AdbcStatementSetSqlQuery'') (\<lambda>h x.
       c_bind (go_do (call_err env (Go_SetSqlQuery x (GoString query)))) report))"

definition QuackStatementSetSubstraitPlan :: "'w go_env \<Rightarrow> nat option \<Rightarrow> bytes option \<Rightarrow> int \<Rightarrow> 'w capi \<Rightarrow> nat \<times> 'w capi" where
  "QuackStatementSetSubstraitPlan env stmt plan len = recovering env ''AdbcStatementSetSubstraitPlan''
     (with_object (checkStmtInit stmt ''AdbcStatementSetSubstraitPlan'') (\<lambda>h x. c_bind (fromCArr plan len) (\<lambda>b.
       c_bind (go_do (call_err env (Go_SetSubstraitPlan x b))) report)))"

text \<open>The C arrays and streams of the caller are numbers; a failed import of a batch releases the array.\<close>

definition QuackStatementBind :: "'w go_env \<Rightarrow> nat option \<Rightarrow> nat \<Rightarrow> nat \<Rightarrow> 'w capi \<Rightarrow> nat \<times> 'w capi" where
  "QuackStatementBind env stmt arr schema = recovering env ''AdbcStatementBind''
     (with_object (checkStmtInit stmt ''AdbcStatementBind'') (\<lambda>h x.
       c_bind (go_do (call_make env (Go_ImportRecordBatch arr schema))) (\<lambda>res. case res of
           Inl e \<Rightarrow> c_then (go_do (call_effect env (Release_CArray arr))) (report (Some e))
         | Inr rec \<Rightarrow> c_defer (go_do (call_effect env (Rec_Release rec))) (c_bind (newContext h) (\<lambda>ctx.
             c_bind (go_do (call_err env (Go_Bind x ctx rec))) report)))))"

definition QuackStatementBindStream :: "'w go_env \<Rightarrow> nat option \<Rightarrow> nat \<Rightarrow> 'w capi \<Rightarrow> nat \<times> 'w capi" where
  "QuackStatementBindStream env stmt stream = recovering env ''AdbcStatementBindStream''
     (with_object (checkStmtInit stmt ''AdbcStatementBindStream'') (\<lambda>h x.
       c_bind (go_do (call_make env (Go_ImportRecordReader stream))) (\<lambda>res. case res of
           Inl e \<Rightarrow> report (Some e)
         | Inr rdr \<Rightarrow> c_bind (newContext h) (\<lambda>ctx. c_bind (go_do (call_err env (Go_BindStream x ctx rdr))) report))))"

definition QuackStatementGetParameterSchema :: "'w go_env \<Rightarrow> nat option \<Rightarrow> 'w capi \<Rightarrow> nat \<times> 'w capi" where
  "QuackStatementGetParameterSchema env stmt = recovering env ''AdbcStatementGetParameterSchema''
     (with_object (checkStmtInit stmt ''AdbcStatementGetParameterSchema'') (\<lambda>h x.
       c_bind (go_do (call_make env (Go_GetParameterSchema x))) export_schema_of))"

section \<open>Executing\<close>

definition QuackStatementExecuteQuery :: "'w go_env \<Rightarrow> nat option \<Rightarrow> nat option \<Rightarrow> 'w capi \<Rightarrow> nat \<times> 'w capi" where
  "QuackStatementExecuteQuery env stmt out = recovering env ''AdbcStatementExecuteQuery''
     (with_object (checkStmtInit stmt ''AdbcStatementExecuteQuery'') (\<lambda>h x. c_bind (newContext h) (\<lambda>ctx.
       if out = None
       then c_bind (go_do (call_update env x ctx)) (\<lambda>res. case res of
           Inl e \<Rightarrow> report (Some e)
         | Inr n \<Rightarrow> c_then (export_affected n) (c_ret ADBC_STATUS_OK))
       else c_bind (go_do (call_query env x ctx)) (\<lambda>res. case res of
           Inl e \<Rightarrow> report (Some e)
         | Inr (rdr, n) \<Rightarrow> c_then (export_affected n) (export_reader env out (Inr rdr))))))"

text \<open>The names in the check are those of \<^verbatim>\<open>ExecuteQuery\<close>.\<close>

definition QuackStatementExecuteSchema :: "'w go_env \<Rightarrow> nat option \<Rightarrow> 'w capi \<Rightarrow> nat \<times> 'w capi" where
  "QuackStatementExecuteSchema env stmt = recovering env ''AdbcStatementExecuteQuery''
     (with_object (checkStmtInit stmt ''AdbcStatementExecuteQuery'') (\<lambda>h x.
       requiring env StatementExecuteSchema (TStatement x) ''AdbcStatementExecuteSchema: not supported''
         (c_bind (newContext h) (\<lambda>ctx. c_bind (go_do (call_make env (Go_ExecuteSchema x ctx))) export_schema_of))))"

text \<open>
  The partitions are copied into one block of C memory of \<open>sz\<close> bytes: the offset and length stored for each and the
  bytes written, up to a panic.  \<open>off\<close> is the offset of the rest \<^verbatim>\<open>dst\<close> of the block; \<^verbatim>\<open>&dst[0]\<close> panics when
  nothing is left, and so does an index beyond the number of partitions.
\<close>

fun copy_partitions :: "nat \<Rightarrow> nat \<Rightarrow> nat \<Rightarrow> bytes list \<Rightarrow> go_panic option \<times> nat list \<times> nat list \<times> bytes" where
  "copy_partitions num sz off [] = (None, [], [], [])"
| "copy_partitions num sz off (p # ps) =
     (if num = 0 \<or> sz \<le> off then (Some IndexRange, [], [], [])
      else let (e, offs, lens, mem) = copy_partitions (num - 1) sz (off + length p) ps
           in (e, off # offs, length p # lens, p @ mem))"

definition export_partitions :: "go_partitions \<Rightarrow> ('w, unit) capi_m" where
  "export_partitions part = (let sz = sum_list (map length (PartitionIDs part));
       (e, offs, lens, mem) = copy_partitions (NumPartitions part) sz 0 (PartitionIDs part)
     in c_then (c_modify (\<lambda>s. s\<lparr>c_out := (c_out s)\<lparr>o_partitions := Some
         \<lparr>num_partitions = NumPartitions part, part_offsets = offs, part_lengths = lens,
          part_private = Some (mem @ replicate (sz - length mem) 0)\<rparr>\<rparr>\<rparr>))
       (case e of None \<Rightarrow> c_ret () | Some e \<Rightarrow> c_panic e))"

definition QuackStatementExecutePartitions :: "'w go_env \<Rightarrow> nat option \<Rightarrow> 'w capi \<Rightarrow> nat \<times> 'w capi" where
  "QuackStatementExecutePartitions env stmt = recovering env ''AdbcStatementExecutePartitions''
     (with_object (checkStmtInit stmt ''AdbcStatementExecutePartitions'') (\<lambda>h x. c_bind (newContext h) (\<lambda>ctx.
       c_bind (go_do (call_partitions env x ctx)) (\<lambda>res. case res of
           Inl e \<Rightarrow> report (Some e)
         | Inr (sc, part, n) \<Rightarrow> c_bind (c_gets (\<lambda>s. c_out s)) (\<lambda>out.
             if o_partitions out = None
             then complain ''AdbcStatementExecutePartitions: partitions output struct is null'' [] ADBC_STATUS_INVALID_ARGUMENT
             else c_then (export_affected n)
               (c_then (case (sc, o_schema out) of (Some sc, Some _) \<Rightarrow> export_schema sc | _ \<Rightarrow> c_ret ())
                 (c_then (export_partitions part) (c_ret ADBC_STATUS_OK))))))))"

text \<open>The release function of the partitions; the count is left.\<close>

definition releasePartitions :: "c_partitions \<Rightarrow> c_partitions" where
  "releasePartitions p = (if part_private p = None then p
     else p\<lparr>part_offsets := [], part_lengths := [], part_private := None\<rparr>)"

end
