(* ===== verification/CStreams.thy ===== *)
theory CStreams
  imports CStatement
begin

text \<open>
  The exported streams and the entry point of the library (\<^verbatim>\<open>src/pkg/quack/driver.go\<close> and \<^verbatim>\<open>init.go\<close>).  These
  functions do not recover: a panic in them (\<open>Inl\<close>) ends the process.
\<close>

section \<open>Streams\<close>

text \<open>The guard of every stream function: the handle of a stream that is the driver's and not released.\<close>

definition stream_handle :: "nat option \<Rightarrow> 'w capi \<Rightarrow> nat option" where
  "stream_handle stream s = (case stream of None \<Rightarrow> None
     | Some a \<Rightarrow> if \<not> st_ours (stream_data s a) \<or> st_private (stream_data s a) = 0 then None
         else Some (st_private (stream_data s a)))"

text \<open>A struct \<^verbatim>\<open>AdbcError\<close> from \<^verbatim>\<open>calloc\<close>.\<close>

definition zero_c_error :: c_error where
  "zero_c_error = \<lparr>ce_message = None, ce_vendor_code = 0, ce_sqlstate = replicate 5 (CHR 0x00), ce_release = NoRelease, ce_private = None\<rparr>"

definition maybeError :: "'w go_env \<Rightarrow> nat \<Rightarrow> cArrayStream \<Rightarrow> ('w, c_errno) capi_m" where
  "maybeError env h cs = c_bind (go_do (rdr_Err env (cs_rdr cs))) (\<lambda>e. case e of None \<Rightarrow> c_ret E_OK
     | Some e \<Rightarrow> (let err = (case cs_adbcErr cs of Some x \<Rightarrow> QuackerrRelease x | None \<Rightarrow> zero_c_error);
           err = err\<lparr>ce_vendor_code := ADBC_ERROR_VENDOR_CODE_PRIVATE_DATA\<rparr>;
           (status, err) = errToAdbcErr (Some err) (Some e)
         in c_then (set_object h (HStream (cs\<lparr>cs_adbcErr := err, cs_status := status\<rparr>))) (c_ret (errno_of_status status))))"

definition QuackArrayStreamGetLastError :: "nat option \<Rightarrow> ('w, string option) capi_m" where
  "QuackArrayStreamGetLastError stream = (\<lambda>s. case stream_handle stream s of None \<Rightarrow> (Inr None, s)
     | Some h \<Rightarrow> c_bind (get_stream h) (\<lambda>cs. c_ret (case cs_adbcErr cs of None \<Rightarrow> None | Some e \<Rightarrow> ce_message e)) s)"

definition export_array :: "nat option \<Rightarrow> ('w, unit) capi_m" where
  "export_array batch = c_modify (\<lambda>s. s\<lparr>c_out := (c_out s)\<lparr>o_array := Some batch\<rparr>\<rparr>)"

definition QuackArrayStreamGetNext :: "'w go_env \<Rightarrow> nat option \<Rightarrow> ('w, c_errno) capi_m" where
  "QuackArrayStreamGetNext env stream = (\<lambda>s. case stream_handle stream s of None \<Rightarrow> (Inr EINVAL, s)
     | Some h \<Rightarrow> c_bind (get_stream h) (\<lambda>cs. c_bind (go_do (rdr_Next env (cs_rdr cs))) (\<lambda>more.
         if more then c_bind (go_do (rdr_RecordBatch env (cs_rdr cs))) (\<lambda>b. c_then (export_array (Some b)) (c_ret E_OK))
         else c_then (export_array None) (maybeError env h cs))) s)"

definition QuackArrayStreamGetSchema :: "'w go_env \<Rightarrow> nat option \<Rightarrow> ('w, c_errno) capi_m" where
  "QuackArrayStreamGetSchema env stream = (\<lambda>s. case stream_handle stream s of None \<Rightarrow> (Inr EINVAL, s)
     | Some h \<Rightarrow> c_bind (get_stream h) (\<lambda>cs. c_bind (go_do (rdr_Schema env (cs_rdr cs))) (\<lambda>sc. case sc of
           None \<Rightarrow> maybeError env h cs
         | Some sc \<Rightarrow> c_then (export_schema sc) (c_ret E_OK))) s)"

definition QuackArrayStreamRelease :: "'w go_env \<Rightarrow> nat option \<Rightarrow> ('w, unit) capi_m" where
  "QuackArrayStreamRelease env stream = (\<lambda>s. case stream_handle stream s of None \<Rightarrow> (Inr (), s)
     | Some h \<Rightarrow> c_then (c_modify (\<lambda>s. s\<lparr>stream_data := (stream_data s)(the stream := (stream_data s (the stream))\<lparr>st_private := 0\<rparr>)\<rparr>))
         (c_bind (get_stream h) (\<lambda>cs. c_then (deleteHandle h) (go_do (call_effect env (Rdr_Release (cs_rdr cs)))))) s)"

definition QuackErrorFromArrayStream :: "nat option \<Rightarrow> ('w, c_error option) capi_m" where
  "QuackErrorFromArrayStream stream = (\<lambda>s. case stream_handle stream s of None \<Rightarrow> (Inr None, s)
     | Some h \<Rightarrow> c_bind (get_stream h) (\<lambda>cs. c_then
         (c_modify (\<lambda>s. s\<lparr>c_out := (c_out s)\<lparr>o_status := map_option (\<lambda>_. cs_status cs) (o_status (c_out s))\<rparr>\<rparr>))
         (c_ret (cs_adbcErr cs))) s)"

section \<open>The entry point\<close>

text \<open>
  The struct \<^verbatim>\<open>AdbcDriver\<close> of the caller: the slots of version 1.0.0 and those 1.1.0 adds behind them, each with the
  name of the function it points to.  Every slot \<open>X\<close> is filled with the function \<open>QuackX\<close>.
\<close>

record c_driver =
  d_base :: "(string \<times> string) list"
  d_ext :: "(string \<times> string) list"

definition ADBC_VERSION_1_0_0 :: int where "ADBC_VERSION_1_0_0 = 1000000"
definition ADBC_VERSION_1_1_0 :: int where "ADBC_VERSION_1_1_0 = 1001000"

definition quack_slots :: "string list \<Rightarrow> (string \<times> string) list" where
  "quack_slots names = map (\<lambda>n. (n, ''Quack'' @ n)) names"

definition driver_slots :: "(string \<times> string) list" where
  "driver_slots = quack_slots [''DatabaseInit'', ''DatabaseNew'', ''DatabaseRelease'', ''DatabaseSetOption'',
     ''ConnectionNew'', ''ConnectionInit'', ''ConnectionRelease'', ''ConnectionSetOption'', ''ConnectionGetInfo'',
     ''ConnectionGetObjects'', ''ConnectionGetTableSchema'', ''ConnectionGetTableTypes'', ''ConnectionReadPartition'',
     ''ConnectionCommit'', ''ConnectionRollback'',
     ''StatementNew'', ''StatementRelease'', ''StatementSetOption'', ''StatementSetSqlQuery'', ''StatementSetSubstraitPlan'',
     ''StatementBind'', ''StatementBindStream'', ''StatementExecuteQuery'', ''StatementExecutePartitions'',
     ''StatementGetParameterSchema'', ''StatementPrepare'']"

definition driver_slots_1_1_0 :: "(string \<times> string) list" where
  "driver_slots_1_1_0 = quack_slots [''ErrorGetDetailCount'', ''ErrorGetDetail'', ''ErrorFromArrayStream'',
     ''DatabaseGetOption'', ''DatabaseGetOptionBytes'', ''DatabaseGetOptionDouble'', ''DatabaseGetOptionInt'',
     ''DatabaseSetOptionBytes'', ''DatabaseSetOptionDouble'', ''DatabaseSetOptionInt'',
     ''ConnectionCancel'', ''ConnectionGetOption'', ''ConnectionGetOptionBytes'', ''ConnectionGetOptionDouble'',
     ''ConnectionGetOptionInt'', ''ConnectionGetStatistics'', ''ConnectionGetStatisticNames'',
     ''ConnectionSetOptionBytes'', ''ConnectionSetOptionDouble'', ''ConnectionSetOptionInt'',
     ''StatementCancel'', ''StatementExecuteSchema'', ''StatementGetOption'', ''StatementGetOptionBytes'',
     ''StatementGetOptionDouble'', ''StatementGetOptionInt'', ''StatementSetOptionBytes'',
     ''StatementSetOptionDouble'', ''StatementSetOptionInt'']"

definition AdbcDriverQuackInit :: "int \<Rightarrow> c_driver option \<Rightarrow> c_error option \<Rightarrow> (go_panic + nat) \<times> c_driver option \<times> c_error option" where
  "AdbcDriverQuackInit version driver err =
     (if version \<noteq> ADBC_VERSION_1_0_0 \<and> version \<noteq> ADBC_VERSION_1_1_0
      then (Inr ADBC_STATUS_NOT_IMPLEMENTED, driver, setErr err ''Only version 1.0.0/1.1.0 supported, got %d'' [show_int version])
      else case driver of None \<Rightarrow> (Inl NilDeref, driver, err)
      | Some d \<Rightarrow> (Inr ADBC_STATUS_OK, Some (d\<lparr>d_base := driver_slots,
           d_ext := (if version = ADBC_VERSION_1_1_0 then driver_slots_1_1_0 else d_ext d)\<rparr>), err))"

definition QuackDriverInit :: "int \<Rightarrow> c_driver option \<Rightarrow> c_error option \<Rightarrow> (go_panic + nat) \<times> c_driver option \<times> c_error option" where
  "QuackDriverInit version rawDriver err = AdbcDriverQuackInit version rawDriver err"

definition AdbcDriverQuackdbInit :: "int \<Rightarrow> c_driver option \<Rightarrow> c_error option \<Rightarrow> (go_panic + nat) \<times> c_driver option \<times> c_error option" where
  "AdbcDriverQuackdbInit version rawDriver err = AdbcDriverQuackInit version rawDriver err"

text \<open>A caller of version 1.0.0 has a shorter struct; nothing behind it is written.\<close>

lemma init_1_0_0_keeps_rest:
  "AdbcDriverQuackInit ADBC_VERSION_1_0_0 (Some d) err = (r, Some d', err') \<Longrightarrow> d_ext d' = d_ext d"
  by (auto simp: AdbcDriverQuackInit_def ADBC_VERSION_1_0_0_def ADBC_VERSION_1_1_0_def)

end
