(* ===== verification/CLifecycle.thy ===== *)
theory CLifecycle
  imports CStreams
begin

text \<open>
  The handles of the C interface over a run of calls: which states are well formed, that every call keeps them so and
  never misuses a handle, and that a poisoned driver refuses every call.
\<close>

section \<open>Well-formed states\<close>

datatype c_kind = KDatabase | KConn | KStmt | KStream

definition kind_of :: "c_object \<Rightarrow> c_kind" where
  "kind_of ob = (case ob of HDatabase _ \<Rightarrow> KDatabase | HConn _ \<Rightarrow> KConn | HStmt _ \<Rightarrow> KStmt | HStream _ \<Rightarrow> KStream)"

text \<open>The handle in the struct of a kind at an address, \<open>0\<close> for none.\<close>

definition priv :: "c_kind \<Rightarrow> 'w capi \<Rightarrow> nat \<Rightarrow> nat" where
  "priv k s a = (case k of KDatabase \<Rightarrow> db_data s a | KConn \<Rightarrow> cnxn_data s a | KStmt \<Rightarrow> stmt_data s a
     | KStream \<Rightarrow> if st_ours (stream_data s a) then st_private (stream_data s a) else 0)"

definition holds :: "c_kind \<Rightarrow> 'w capi \<Rightarrow> nat \<Rightarrow> bool" where
  "holds k s h \<longleftrightarrow> h \<in> live_handles s \<and> (\<exists>ob. objs s h = Some ob \<and> kind_of ob = k)"

text \<open>A use of a deleted handle, or of a handle of another kind.\<close>

definition misuse :: "go_panic \<Rightarrow> bool" where
  "misuse e \<longleftrightarrow> e = BadHandle \<or> e = BadType"

definition owned_context :: "'w capi \<Rightarrow> nat \<Rightarrow> bool" where
  "owned_context s c \<longleftrightarrow> (\<exists>h ob. h \<in> live_handles s \<and> objs s h = Some ob \<and> ctx_of ob = Some (Some c))"

definition wf_handles :: "'w capi \<Rightarrow> bool" where
  "wf_handles s \<longleftrightarrow> 0 < next_handle s \<and> (\<forall>h \<in> live_handles s. 0 < h \<and> h < next_handle s)"

definition wf_structs :: "'w capi \<Rightarrow> bool" where
  "wf_structs s \<longleftrightarrow>
     (\<forall>k a. priv k s a \<noteq> 0 \<longrightarrow> holds k s (priv k s a)) \<and>
     (\<forall>k a b. priv k s a = priv k s b \<longrightarrow> priv k s a \<noteq> 0 \<longrightarrow> a = b) \<and>
     (\<forall>k h. k \<noteq> KStream \<longrightarrow> holds k s h \<longrightarrow> (\<exists>a. priv k s a = h))"

definition wf_contexts :: "'w capi \<Rightarrow> bool" where
  "wf_contexts s \<longleftrightarrow> (\<forall>c < next_ctx s. c \<in> cancelled s \<or> owned_context s c)"

definition wf_capi :: "'w capi \<Rightarrow> bool" where
  "wf_capi s \<longleftrightarrow> wf_handles s \<and> wf_structs s \<and> wf_contexts s \<and> (\<forall>e \<in> set (stderr_log s). \<not> misuse e)"

text \<open>Inside an operation on the object behind a handle.\<close>

definition inside :: "c_kind \<Rightarrow> nat \<Rightarrow> 'w capi \<Rightarrow> bool" where
  "inside k h s \<longleftrightarrow> wf_capi s \<and> holds k s h"

section \<open>Operations that keep a predicate\<close>

definition keeps :: "('w capi \<Rightarrow> bool) \<Rightarrow> ('w, 'a) capi_m \<Rightarrow> bool" where
  "keeps P m \<longleftrightarrow> (\<forall>s. P s \<longrightarrow> P (snd (m s)) \<and> (\<forall>e. fst (m s) = Inl e \<longrightarrow> \<not> misuse e))"

named_theorems keep_rules \<open>rules deriving that an operation keeps the state well formed\<close>

text \<open>Predicates that do not look at the error, the outputs and the Go side.\<close>

definition structural :: "('w capi \<Rightarrow> bool) \<Rightarrow> bool" where
  "structural P \<longleftrightarrow> (\<forall>s e out w. P s \<longrightarrow> P (s\<lparr>c_err := e\<rparr>) \<and> P (s\<lparr>c_out := out\<rparr>) \<and> P (s\<lparr>go_side := w\<rparr>))"

lemma caller_fields [simp]:
  "priv k (s\<lparr>c_err := e\<rparr>) = priv k s" "priv k (s\<lparr>c_out := out\<rparr>) = priv k s" "priv k (s\<lparr>go_side := w\<rparr>) = priv k s"
  "holds k (s\<lparr>c_err := e\<rparr>) = holds k s" "holds k (s\<lparr>c_out := out\<rparr>) = holds k s" "holds k (s\<lparr>go_side := w\<rparr>) = holds k s"
  "owned_context (s\<lparr>c_err := e\<rparr>) = owned_context s" "owned_context (s\<lparr>c_out := out\<rparr>) = owned_context s"
  "owned_context (s\<lparr>go_side := w\<rparr>) = owned_context s"
  by (auto simp: fun_eq_iff priv_def holds_def owned_context_def split: c_kind.split)

lemma structural_wf [simp]: "structural wf_capi"
  by (simp add: structural_def wf_capi_def wf_handles_def wf_structs_def wf_contexts_def)

lemma structural_inside [simp]: "structural (inside k h)"
  using structural_wf by (auto simp: structural_def inside_def)

lemma keepsI: "(\<And>s. P s \<Longrightarrow> P (snd (m s)) \<and> (\<forall>e. fst (m s) = Inl e \<longrightarrow> \<not> misuse e)) \<Longrightarrow> keeps P m"
  by (simp add: keeps_def)

lemma keeps_ret [keep_rules]: "keeps P (c_ret v)"
  by (simp add: keeps_def c_ret_def)

lemma keeps_panic [keep_rules]: "\<not> misuse e \<Longrightarrow> keeps P (c_panic e)"
  by (simp add: keeps_def c_panic_def)

lemma not_misuse [simp]: "\<not> misuse NilDeref" "\<not> misuse IndexRange" "\<not> misuse SliceLen" "\<not> misuse (GoPanicked t)"
  by (simp_all add: misuse_def)

lemma keeps_bind [keep_rules]:
  assumes "keeps P m" "\<And>v. keeps P (f v)"
  shows "keeps P (c_bind m f)"
proof (rule keepsI)
  fix s assume "P s"
  then show "P (snd (c_bind m f s)) \<and> (\<forall>e. fst (c_bind m f s) = Inl e \<longrightarrow> \<not> misuse e)"
    using assms by (cases "m s"; cases "fst (m s)") (fastforce simp: keeps_def c_bind_def)+
qed

lemma keeps_defer [keep_rules]:
  assumes "keeps P f" "keeps P m"
  shows "keeps P (c_defer f m)"
proof (rule keepsI)
  fix s assume "P s"
  obtain r s' where m: "m s = (r, s')" by (cases "m s")
  obtain r2 s2 where f: "f s' = (r2, s2)" by (cases "f s'")
  have "P s'" "\<forall>e. r = Inl e \<longrightarrow> \<not> misuse e" using assms(2) \<open>P s\<close> m by (auto simp: keeps_def dest: spec [of _ s])
  moreover from this have "P s2" "\<forall>e. r2 = Inl e \<longrightarrow> \<not> misuse e" using assms(1) f by (auto simp: keeps_def dest: spec [of _ s'])
  ultimately show "P (snd (c_defer f m s)) \<and> (\<forall>e. fst (c_defer f m s) = Inl e \<longrightarrow> \<not> misuse e)"
    by (cases r2) (auto simp: c_defer_def m f)
qed

lemma keeps_gets [keep_rules]: "keeps P (c_gets f)"
  by (simp add: keeps_def c_gets_def)

lemma keeps_if [keep_rules]: "(b \<Longrightarrow> keeps P m) \<Longrightarrow> (\<not> b \<Longrightarrow> keeps P n) \<Longrightarrow> keeps P (if b then m else n)"
  by simp

lemma keeps_option [keep_rules]:
  "(x = None \<Longrightarrow> keeps P m) \<Longrightarrow> (\<And>v. x = Some v \<Longrightarrow> keeps P (f v)) \<Longrightarrow> keeps P (case x of None \<Rightarrow> m | Some v \<Rightarrow> f v)"
  by (cases x) auto

lemma keeps_sum [keep_rules]:
  "(\<And>e. x = Inl e \<Longrightarrow> keeps P (f e)) \<Longrightarrow> (\<And>v. x = Inr v \<Longrightarrow> keeps P (g v)) \<Longrightarrow> keeps P (case x of Inl e \<Rightarrow> f e | Inr v \<Rightarrow> g v)"
  by (cases x) auto

lemma keeps_prod [keep_rules]: "(\<And>a b. x = (a, b) \<Longrightarrow> keeps P (f a b)) \<Longrightarrow> keeps P (case x of (a, b) \<Rightarrow> f a b)"
  by (cases x) auto

lemma keeps_err [keep_rules]: "structural P \<Longrightarrow> keeps P (c_modify (\<lambda>s. s\<lparr>c_err := f s\<rparr>))"
  by (simp add: keeps_def structural_def c_modify_def)

lemma keeps_out [keep_rules]: "structural P \<Longrightarrow> keeps P (c_modify (\<lambda>s. s\<lparr>c_out := f s\<rparr>))"
  by (simp add: keeps_def structural_def c_modify_def)

lemma keeps_set_error [keep_rules]: "structural P \<Longrightarrow> keeps P (set_error fmt vals)"
  unfolding set_error_def by (rule keeps_err)

lemma keeps_complain [keep_rules]: "structural P \<Longrightarrow> keeps P (complain fmt vals code)"
  unfolding complain_def by (intro keep_rules)

lemma keeps_report [keep_rules]: "structural P \<Longrightarrow> keeps P (report e)"
  by (simp add: keeps_def structural_def report_def split: prod.split)

text \<open>A call of the Go side that never misuses a handle.\<close>

definition tame :: "('w, 'a) go_fun \<Rightarrow> bool" where
  "tame f \<longleftrightarrow> (\<forall>w e. fst (f w) = Inl e \<longrightarrow> \<not> misuse e)"

lemma keeps_go [keep_rules]: "tame f \<Longrightarrow> structural P \<Longrightarrow> keeps P (go_do f)"
  unfolding keeps_def tame_def structural_def go_do_def by (auto split: prod.split) (metis fst_conv)

definition tame_env :: "'w go_env \<Rightarrow> bool" where
  "tame_env env \<longleftrightarrow> (\<forall>c. tame (call_err env c)) \<and> (\<forall>c. tame (call_make env c)) \<and> (\<forall>c. tame (call_effect env c)) \<and>
     (\<forall>x c. tame (call_update env x c)) \<and> (\<forall>x c. tame (call_query env x c)) \<and> (\<forall>x c. tame (call_partitions env x c)) \<and>
     (\<forall>t k. tame (get_option env t k)) \<and> (\<forall>t k. tame (get_bytes env t k)) \<and> (\<forall>t k. tame (get_double env t k)) \<and>
     (\<forall>t k. tame (get_int env t k)) \<and> (\<forall>r. tame (rdr_Next env r)) \<and> (\<forall>r. tame (rdr_RecordBatch env r)) \<and>
     (\<forall>r. tame (rdr_Err env r)) \<and> (\<forall>r. tame (rdr_Schema env r))"

lemma tame_calls [keep_rules]:
  assumes "tame_env env"
  shows "tame (call_err env c)" "tame (call_make env m)" "tame (call_effect env f)" "tame (call_update env x y)"
    "tame (call_query env x y)" "tame (call_partitions env x y)" "tame (get_option env t k)" "tame (get_bytes env t k)"
    "tame (get_double env t k)" "tame (get_int env t k)" "tame (rdr_Next env r)" "tame (rdr_RecordBatch env r)"
    "tame (rdr_Err env r)" "tame (rdr_Schema env r)"
  using assms by (auto simp: tame_env_def)

lemma keeps_fromCArr [keep_rules]: "keeps P (fromCArr p n)"
  unfolding fromCArr_def by (intro keep_rules not_misuse)

lemma keeps_exports [keep_rules]:
  assumes "structural P"
  shows "keeps P (exportStringOption v)" "keeps P (exportBytesOption v)" "keeps P (export_double d)" "keeps P (export_int i)"
    "keeps P (export_affected i)" "keeps P (export_schema sc)" "keeps P (export_array b)" "keeps P (export_schema_of res)"
  unfolding exportStringOption_def exportBytesOption_def export_double_def export_int_def export_affected_def export_schema_def
    export_array_def export_schema_of_def
  by (intro keep_rules not_misuse assms)+

section \<open>Objects, contexts and handles\<close>

lemma holds_priv: "wf_capi s \<Longrightarrow> priv k s a \<noteq> 0 \<Longrightarrow> holds k s (priv k s a)"
  by (simp add: wf_capi_def wf_structs_def)

lemma kind_with_ctx [simp]: "kind_of (with_ctx c ob) = kind_of ob"
  by (cases ob) (simp_all add: kind_of_def with_ctx_def)

lemma ctx_with_ctx: "ctx_of ob = Some d \<Longrightarrow> ctx_of (with_ctx c ob) = Some c"
  by (cases ob) (simp_all add: ctx_of_def with_ctx_def)

text \<open>
  The object behind a handle may change as long as its kind stays and its context stays, or is cancelled.
\<close>

lemma wf_update:
  assumes wf: "wf_capi s" and h: "h \<in> live_handles s" "objs s h = Some ob" "kind_of ob = kind_of ob'"
    and C: "cancelled s \<subseteq> C" "next_ctx s \<le> n"
    and ctx: "\<And>c. c < n \<Longrightarrow> next_ctx s \<le> c \<or> ctx_of ob = Some (Some c) \<Longrightarrow> c \<in> C \<or> ctx_of ob' = Some (Some c)"
    and s': "s' = s\<lparr>objs := (objs s)(h \<mapsto> ob'), cancelled := C, next_ctx := n\<rparr>"
  shows "wf_capi s'" "holds k s' = holds k s"
proof -
  show holds: "holds k s' = holds k s" for k using h by (auto simp: s' holds_def fun_eq_iff)
  have priv: "priv k s' = priv k s" for k by (auto simp: s' priv_def fun_eq_iff split: c_kind.split)
  have "wf_contexts s'"
    unfolding wf_contexts_def
  proof (intro allI impI)
    fix c assume "c < next_ctx s'"
    then have c: "c < n" by (simp add: s')
    show "c \<in> cancelled s' \<or> owned_context s' c"
    proof (cases "next_ctx s \<le> c \<or> ctx_of ob = Some (Some c)")
      case True
      then show ?thesis using ctx [OF c] h by (auto simp: s' owned_context_def)
    next
      case False
      then have "c < next_ctx s" by simp
      then have "c \<in> cancelled s \<or> owned_context s c" using wf unfolding wf_capi_def wf_contexts_def by blast
      then consider "c \<in> cancelled s" | h' ob2 where "h' \<in> live_handles s" "objs s h' = Some ob2" "ctx_of ob2 = Some (Some c)"
        unfolding owned_context_def by blast
      then show ?thesis
      proof cases
        case 1
        then show ?thesis using C by (auto simp: s')
      next
        case 2
        then have "h' \<noteq> h" using False h by auto
        then have "owned_context s' c" using 2 unfolding owned_context_def by (intro exI [of _ h'] exI [of _ ob2]) (simp add: s')
        then show ?thesis ..
      qed
    qed
  qed
  then show "wf_capi s'" using wf by (simp add: wf_capi_def wf_structs_def holds priv) (simp add: wf_handles_def s')
qed

lemma keeps_set_object [keep_rules]:
  assumes "kind_of ob' = k" "\<And>(s :: 'w capi) ob. inside k h s \<Longrightarrow> objs s h = Some ob \<Longrightarrow> ctx_of ob' = ctx_of ob"
  shows "keeps (inside k h) (set_object h ob' :: ('w, unit) capi_m)"
proof (rule keepsI)
  fix s :: "'w capi" assume s: "inside k h s"
  then obtain ob where ob: "wf_capi s" "h \<in> live_handles s" "objs s h = Some ob" "kind_of ob = k" "holds k s h"
    by (auto simp: inside_def holds_def)
  show "inside k h (snd (set_object h ob' s)) \<and> (\<forall>e. fst (set_object h ob' s) = Inl e \<longrightarrow> \<not> misuse e)"
    using wf_update [OF ob(1-3), where ob' = ob' and C = "cancelled s" and n = "next_ctx s"
        and s' = "s\<lparr>objs := (objs s)(h \<mapsto> ob')\<rparr>"] assms(1) assms(2) [OF s ob(3)] ob(4,5)
    by (simp add: set_object_def c_modify_def inside_def)
qed

lemma keeps_cancelContext [keep_rules]: "keeps (inside k h) (cancelContext h)"
proof (rule keepsI)
  fix s assume s: "inside k h s"
  then obtain ob where ob: "wf_capi s" "h \<in> live_handles s" "objs s h = Some ob" "kind_of ob = k" "holds k s h"
    by (auto simp: inside_def holds_def)
  show "inside k h (snd (cancelContext h s)) \<and> (\<forall>e. fst (cancelContext h s) = Inl e \<longrightarrow> \<not> misuse e)"
  proof (cases "ctx_of ob")
    case None
    then show ?thesis using s ob by (simp add: cancelContext_def)
  next
    case (Some c)
    define C where "C = (case c of None \<Rightarrow> cancelled s | Some n \<Rightarrow> insert n (cancelled s))"
    have "wf_capi (s\<lparr>cancelled := C, objs := (objs s)(h \<mapsto> with_ctx None ob)\<rparr>) \<and>
        holds k (s\<lparr>cancelled := C, objs := (objs s)(h \<mapsto> with_ctx None ob)\<rparr>) = holds k s"
      using wf_update [OF ob(1-3), where ob' = "with_ctx None ob" and C = C and n = "next_ctx s"
        and s' = "s\<lparr>cancelled := C, objs := (objs s)(h \<mapsto> with_ctx None ob)\<rparr>"] Some ob(4)
        subset_insertI [of "cancelled s"] by (cases c) (auto simp: C_def)
    then show ?thesis using ob(3,5) Some by (simp add: cancelContext_def C_def inside_def)
  qed
qed

lemma keeps_newContext [keep_rules]: "keeps (inside k h) (newContext h)"
proof (rule keepsI)
  fix s assume s: "inside k h s"
  obtain r s1 where c: "cancelContext h s = (r, s1)" by (cases "cancelContext h s")
  have k: "inside k h s1" "\<forall>e. r = Inl e \<longrightarrow> \<not> misuse e"
    using keeps_cancelContext [of k h] s c by (auto simp: keeps_def dest: spec [of _ s])
  show "inside k h (snd (newContext h s)) \<and> (\<forall>e. fst (newContext h s) = Inl e \<longrightarrow> \<not> misuse e)"
  proof (cases r)
    case (Inl e)
    then show ?thesis using k c by (simp add: newContext_def c_bind_def)
  next
    case (Inr u)
    obtain ob where ob: "wf_capi s1" "h \<in> live_handles s1" "objs s1 h = Some ob" "kind_of ob = k" "holds k s1 h"
      using k(1) by (auto simp: inside_def holds_def)
    have none: "ctx_of ob = Some None"
      using c Inr ob(3) ctx_with_ctx by (auto simp: cancelContext_def split: option.splits)
    define s2 where "s2 = s1\<lparr>next_ctx := next_ctx s1 + 1, objs := (objs s1)(h \<mapsto> with_ctx (Some (next_ctx s1)) ob)\<rparr>"
    have "wf_capi s2 \<and> holds k s2 = holds k s1"
      using wf_update [OF ob(1-3), where ob' = "with_ctx (Some (next_ctx s1)) ob" and C = "cancelled s1"
        and n = "next_ctx s1 + 1" and s' = s2] none ctx_with_ctx [OF none] by (auto simp: s2_def)
    then show ?thesis using c Inr ob(3,5) by (simp add: newContext_def c_bind_def s2_def inside_def)
  qed
qed

text \<open>A new handle that goes into an empty struct.\<close>

definition with_priv :: "c_kind \<Rightarrow> nat \<Rightarrow> nat \<Rightarrow> 'w capi \<Rightarrow> 'w capi" where
  "with_priv k a h s = (case k of KDatabase \<Rightarrow> s\<lparr>db_data := (db_data s)(a := h)\<rparr> | KConn \<Rightarrow> s\<lparr>cnxn_data := (cnxn_data s)(a := h)\<rparr>
     | KStmt \<Rightarrow> s\<lparr>stmt_data := (stmt_data s)(a := h)\<rparr>
     | KStream \<Rightarrow> s\<lparr>stream_data := (stream_data s)(a := \<lparr>st_ours = True, st_private = h\<rparr>)\<rparr>)"

lemma with_priv_simps [simp]:
  "live_handles (with_priv k a h s) = live_handles s" "objs (with_priv k a h s) = objs s"
  "next_handle (with_priv k a h s) = next_handle s" "next_ctx (with_priv k a h s) = next_ctx s"
  "cancelled (with_priv k a h s) = cancelled s" "stderr_log (with_priv k a h s) = stderr_log s"
  "globalPoison (with_priv k a h s) = globalPoison s"
  "priv k' (with_priv k a h s) b = (if k' = k \<and> b = a then h else priv k' s b)"
  by (cases k; cases k'; simp add: with_priv_def priv_def)+

lemma wf_attach:
  assumes wf: "wf_capi s" and ob: "kind_of ob = k" "ctx_of ob = None \<or> ctx_of ob = Some None"
    and free: "priv k s a = 0 \<or> k = KStream"
    and s': "s' = with_priv k a (next_handle s) (s\<lparr>objs := (objs s)(next_handle s \<mapsto> ob),
      live_handles := insert (next_handle s) (live_handles s), next_handle := next_handle s + 1\<rparr>)"
  shows "wf_capi s'" "holds k' s h \<Longrightarrow> holds k' s' h"
proof -
  let ?n = "next_handle s"
  have old: "h \<in> live_handles s \<Longrightarrow> h \<noteq> ?n \<and> 0 < h" for h using wf by (auto simp: wf_capi_def wf_handles_def)
  have holds: "holds k' s' h \<longleftrightarrow> h = ?n \<and> k' = k \<or> h \<noteq> ?n \<and> holds k' s h" for k' h
    using ob(1) by (auto simp: s' holds_def)
  have priv: "priv k' s' b = (if k' = k \<and> b = a then ?n else priv k' s b)" for k' b
    by (cases k') (simp_all add: s' priv_def [of _ "_\<lparr>next_handle := _\<rparr>"] priv_def [of _ s])
  show "holds k' s h \<Longrightarrow> holds k' s' h" using old by (auto simp: holds holds_def [of k' s])
  have "wf_handles s'" using wf by (auto simp: wf_capi_def wf_handles_def s')
  moreover have "wf_structs s'"
  proof -
    have p: "priv k' s b \<noteq> 0 \<Longrightarrow> holds k' s (priv k' s b) \<and> priv k' s b \<noteq> ?n" for k' b
      using wf old by (auto simp: wf_capi_def wf_structs_def holds_def)
    have n: "0 < ?n" using wf by (simp add: wf_capi_def wf_handles_def)
    have q: "priv k' s b \<noteq> ?n" for k' b using p [of k' b] n by auto
    have "holds k' s' (priv k' s' b)" if "priv k' s' b \<noteq> 0" for k' b
      using that p [of k' b] q [of k' b] by (auto simp: priv holds split: if_splits)
    moreover have "b = c" if "priv k' s' b = priv k' s' c" "priv k' s' b \<noteq> 0" for k' b c
    proof -
      have "priv k' s b = priv k' s c \<longrightarrow> priv k' s b \<noteq> 0 \<longrightarrow> b = c"
        using wf unfolding wf_capi_def wf_structs_def by blast
      then show ?thesis using that q [of k' b] q [of k' c] by (simp add: priv split: if_splits)
    qed
    moreover have "\<exists>b. priv k' s' b = h" if nk: "k' \<noteq> KStream" "holds k' s' h" for k' h
    proof (cases "h = ?n")
      case True
      then show ?thesis using nk by (auto simp: holds priv)
    next
      case False
      then have "holds k' s h" using nk(2) holds by blast
      then obtain b where "priv k' s b = h" "holds k' s h" using nk(1) wf unfolding wf_capi_def wf_structs_def by blast
      moreover from this have "h \<noteq> 0" using old by (auto simp: holds_def)
      ultimately have "priv k' s' b = h" using free nk by (auto simp: priv)
      then show ?thesis by blast
    qed
    ultimately show ?thesis unfolding wf_structs_def by blast
  qed
  moreover have "wf_contexts s'"
    unfolding wf_contexts_def
  proof (intro allI impI)
    fix c assume "c < next_ctx s'"
    then have "c \<in> cancelled s \<or> owned_context s c" using wf by (auto simp: s' wf_capi_def wf_contexts_def)
    then show "c \<in> cancelled s' \<or> owned_context s' c" using old by (fastforce simp: s' owned_context_def)
  qed
  ultimately show "wf_capi s'" using wf by (simp add: wf_capi_def s')
qed

section \<open>The checks\<close>

text \<open>What a check returns: nothing, with the error set, or the handle in the struct.\<close>

lemma set_error_ret [simp]: "c_then (set_error fmt vals) (c_ret v) s = (Inr v, s\<lparr>c_err := setErr (c_err s) fmt vals\<rparr>)"
  by (simp add: set_error_def c_bind_def c_modify_def c_ret_def)

lemma check_alloc_cases:
  obtains (refused) e where "check_alloc what data ptr fname s = (Inr None, s\<lparr>c_err := e\<rparr>)"
  | (ok) a where "ptr = Some a" "data s a \<noteq> 0" "\<not> globalPoison s" "check_alloc what data ptr fname s = (Inr (Some (data s a)), s)"
proof (cases "globalPoison s \<or> ptr = None \<or> data s (the ptr) = 0")
  case True
  then have "check_alloc what data ptr fname s = (Inr None, s\<lparr>c_err := c_err (snd (check_alloc what data ptr fname s))\<rparr>)"
    by (cases ptr; cases "globalPoison s") (simp_all add: check_alloc_def)
  then show ?thesis by (rule refused)
next
  case False
  then show ?thesis using ok by (auto simp: check_alloc_def)
qed

lemma wf_err: "wf_capi s \<Longrightarrow> wf_capi (s\<lparr>c_err := e\<rparr>)"
  using structural_wf by (auto simp: structural_def)

lemma handle_value_held: "holds k s h \<Longrightarrow> \<exists>ob. handle_value h s = (Inr ob, s) \<and> objs s h = Some ob \<and> kind_of ob = k"
  by (auto simp: holds_def handle_value_def)

lemma get_database_held: "holds KDatabase s h \<Longrightarrow> \<exists>d. get_database h s = (Inr d, s) \<and> objs s h = Some (HDatabase d)"
proof -
  assume "holds KDatabase s h"
  then obtain ob where "handle_value h s = (Inr ob, s)" "objs s h = Some ob" "kind_of ob = KDatabase"
    using handle_value_held by blast
  then show ?thesis by (cases ob) (simp_all add: get_database_def c_bind_def c_ret_def kind_of_def)
qed

lemma get_conn_held: "holds KConn s h \<Longrightarrow> \<exists>d. get_conn h s = (Inr d, s) \<and> objs s h = Some (HConn d)"
proof -
  assume "holds KConn s h"
  then obtain ob where "handle_value h s = (Inr ob, s)" "objs s h = Some ob" "kind_of ob = KConn"
    using handle_value_held by blast
  then show ?thesis by (cases ob) (simp_all add: get_conn_def c_bind_def c_ret_def kind_of_def)
qed

lemma get_stmt_held: "holds KStmt s h \<Longrightarrow> \<exists>d. get_stmt h s = (Inr d, s) \<and> objs s h = Some (HStmt d)"
proof -
  assume "holds KStmt s h"
  then obtain ob where "handle_value h s = (Inr ob, s)" "objs s h = Some ob" "kind_of ob = KStmt"
    using handle_value_held by blast
  then show ?thesis by (cases ob) (simp_all add: get_stmt_def c_bind_def c_ret_def kind_of_def)
qed

lemma get_stream_held: "holds KStream s h \<Longrightarrow> \<exists>d. get_stream h s = (Inr d, s) \<and> objs s h = Some (HStream d)"
proof -
  assume "holds KStream s h"
  then obtain ob where "handle_value h s = (Inr ob, s)" "objs s h = Some ob" "kind_of ob = KStream"
    using handle_value_held by blast
  then show ?thesis by (cases ob) (simp_all add: get_stream_def c_bind_def c_ret_def kind_of_def)
qed

text \<open>An operation on an allocated object keeps the state well formed if what follows the check does.\<close>

definition settles :: "('w capi \<Rightarrow> bool) \<Rightarrow> ('w, 'a) capi_m \<Rightarrow> bool" where
  "settles P m \<longleftrightarrow> (\<forall>s. P s \<longrightarrow> wf_capi (snd (m s)) \<and> (\<forall>e. fst (m s) = Inl e \<longrightarrow> \<not> misuse e))"

lemma keeps_settles: "keeps (inside k h) m \<Longrightarrow> settles (inside k h) m"
  unfolding keeps_def settles_def inside_def by blast

lemma settlesD: "settles P m \<Longrightarrow> P s \<Longrightarrow> m s = (r, s') \<Longrightarrow> wf_capi s' \<and> (\<forall>e. r = Inl e \<longrightarrow> \<not> misuse e)"
  unfolding settles_def by (metis fst_conv snd_conv)

lemma settles_wf: "settles wf_capi m \<longleftrightarrow> keeps wf_capi m"
  by (simp add: settles_def keeps_def)

lemma settles_alloc:
  assumes data: "data = priv k" and body: "\<And>a h. ptr = Some a \<Longrightarrow> settles (\<lambda>s. inside k h s \<and> priv k s a = h \<and> h \<noteq> 0) (f h)"
  shows "settles wf_capi (c_bind (check_alloc what data ptr fname) (\<lambda>r. case r of None \<Rightarrow> c_ret v | Some h \<Rightarrow> f h))"
  unfolding settles_def
proof (intro allI impI)
  fix s :: "'a capi" assume wf: "wf_capi s"
  let ?m = "c_bind (check_alloc what data ptr fname) (\<lambda>r. case r of None \<Rightarrow> c_ret v | Some h \<Rightarrow> f h)"
  show "wf_capi (snd (?m s)) \<and> (\<forall>e. fst (?m s) = Inl e \<longrightarrow> \<not> misuse e)"
  proof (cases rule: check_alloc_cases [of what data ptr fname s])
    case (refused e)
    then show ?thesis using wf by (simp add: c_bind_def c_ret_def wf_err)
  next
    case (ok a)
    then have "inside k (priv k s a) s" using wf holds_priv [OF wf, of k a] data by (simp add: inside_def)
    then show ?thesis using ok body [OF ok(1), of "priv k s a"] data by (simp add: c_bind_def settles_def)
  qed
qed

end
