(* ===== verification/CInvariant.thy ===== *)
theory CInvariant
  imports CLifecycle
begin

text \<open>
  Every operation of the C interface keeps the state well formed (\<open>wf_capi\<close>) and never misuses a handle.
\<close>

section \<open>Preconditions\<close>

definition stable :: "('w capi \<Rightarrow> bool) \<Rightarrow> bool" where
  "stable P \<longleftrightarrow> structural P \<and> (\<forall>s. P s \<longrightarrow> wf_capi s)"

lemma stable_wf [keep_rules]: "stable wf_capi"
  by (simp add: stable_def)

lemmas structural_rules [keep_rules] = structural_wf structural_inside

lemma stable_inside [keep_rules]: "stable (inside k h)"
  by (simp add: stable_def) (simp add: inside_def)

lemma stable_structural: "stable P \<Longrightarrow> structural P"
  by (simp add: stable_def)

lemma structural_priv: "structural (\<lambda>s. Q (priv k s a))"
  by (simp add: structural_def)

lemma structural_objs: "structural (\<lambda>s. Q (objs s h))"
  by (simp add: structural_def)

lemma stable_conj [keep_rules]: "stable P \<Longrightarrow> structural Q \<Longrightarrow> stable (\<lambda>s. P s \<and> Q s)"
  by (auto simp: stable_def structural_def)

lemma settles_weaken: "settles P m \<Longrightarrow> (\<And>s. Q s \<Longrightarrow> P s) \<Longrightarrow> settles Q m"
  unfolding settles_def by blast

lemma settles_keeps: "stable P \<Longrightarrow> keeps P m \<Longrightarrow> settles P m"
  unfolding settles_def keeps_def stable_def by blast

lemma settles_bind:
  fixes m :: "('w, 'a) capi_m"
  assumes "stable P" "keeps P m" "\<And>v. settles P (f v)"
  shows "settles P (c_bind m f)"
  unfolding settles_def
proof (intro allI impI)
  fix s :: "'w capi" assume "P s"
  obtain r s' where m: "m s = (r, s')" by (cases "m s")
  have s': "P s'" "\<forall>e. r = Inl e \<longrightarrow> \<not> misuse e" using assms(2) \<open>P s\<close> m unfolding keeps_def by (metis fst_conv snd_conv)+
  show "wf_capi (snd (c_bind m f s)) \<and> (\<forall>e. fst (c_bind m f s) = Inl e \<longrightarrow> \<not> misuse e)"
  proof (cases r)
    case (Inl e)
    then show ?thesis using s' assms(1) m by (simp add: c_bind_def stable_def)
  next
    case (Inr v)
    then show ?thesis using s'(1) assms(3) [of v] m by (simp add: c_bind_def settles_def)
  qed
qed

lemma settles_at:
  assumes "settles Q (f v)" "Q s" "m s = (Inr v, s)"
  shows "wf_capi (snd (c_bind m f s)) \<and> (\<forall>e. fst (c_bind m f s) = Inl e \<longrightarrow> \<not> misuse e)"
  using assms unfolding settles_def by (simp add: c_bind_def)

lemma settles_option:
  "(x = None \<Longrightarrow> settles P m) \<Longrightarrow> (\<And>v. x = Some v \<Longrightarrow> settles P (f v)) \<Longrightarrow> settles P (case x of None \<Rightarrow> m | Some v \<Rightarrow> f v)"
  by (cases x) auto

lemma settles_sum:
  "(\<And>e. x = Inl e \<Longrightarrow> settles P (f e)) \<Longrightarrow> (\<And>v. x = Inr v \<Longrightarrow> settles P (g v)) \<Longrightarrow> settles P (case x of Inl e \<Rightarrow> f e | Inr v \<Rightarrow> g v)"
  by (cases x) auto

lemma settles_if: "(b \<Longrightarrow> settles P m) \<Longrightarrow> (\<not> b \<Longrightarrow> settles P n) \<Longrightarrow> settles P (if b then m else n)"
  by simp

lemma settles_complain: "stable P \<Longrightarrow> settles P (complain fmt vals code)"
  by (intro settles_keeps keep_rules stable_structural)

section \<open>The checks of initialized objects\<close>

text \<open>
  What the invariant needs of a kind of object: the Go function that reads a handle returns the object and nothing else
  when the handle is one of that kind.
\<close>

locale handle_kind =
  fixes k :: c_kind and get :: "nat \<Rightarrow> ('w, 'd) capi_m" and con :: "'d \<Rightarrow> c_object"
  assumes held: "holds k s h \<Longrightarrow> \<exists>d. get h s = (Inr d, s) \<and> objs s h = Some (con d)"
begin

lemma settles_get:
  assumes "\<And>d. settles (\<lambda>s. P s \<and> inside k h s \<and> objs s h = Some (con d)) (f d)"
  shows "settles (\<lambda>s. P s \<and> inside k h s) (c_bind (get h) f)"
  unfolding settles_def
proof (intro allI impI)
  fix s assume s: "P s \<and> inside k h s"
  then obtain d where "get h s = (Inr d, s)" "objs s h = Some (con d)" using held unfolding inside_def by blast
  then show "wf_capi (snd (c_bind (get h) f s)) \<and> (\<forall>e. fst (c_bind (get h) f s) = Inl e \<longrightarrow> \<not> misuse e)"
    using s by (intro settles_at [where f = f and v = d and m = "get h", OF assms [of d]]) auto
qed

lemma returns: "holds k s h \<Longrightarrow> \<exists>d. get h s = (Inr d, s)"
  using held by blast

end

interpretation database: handle_kind KDatabase get_database HDatabase
  by unfold_locales (rule get_database_held)

interpretation conn: handle_kind KConn get_conn HConn
  by unfold_locales (rule get_conn_held)

interpretation stmt: handle_kind KStmt get_stmt HStmt
  by unfold_locales (rule get_stmt_held)

interpretation stream: handle_kind KStream get_stream HStream
  by unfold_locales (rule get_stream_held)

text \<open>The rule of a check in front of the rest of an operation, for any stable precondition.\<close>

lemma settles_check:
  assumes P: "stable P" and data: "data = priv k"
    and body: "\<And>a h. ptr = Some a \<Longrightarrow> settles (\<lambda>s. (P s \<and> priv k s a = h \<and> h \<noteq> 0) \<and> inside k h s) (f h)"
  shows "settles P (c_bind (check_alloc what data ptr fname) (\<lambda>r. case r of None \<Rightarrow> c_ret v | Some h \<Rightarrow> f h))"
  unfolding settles_def
proof (intro allI impI)
  fix s :: "'a capi" assume s: "P s"
  let ?m = "c_bind (check_alloc what data ptr fname) (\<lambda>r. case r of None \<Rightarrow> c_ret v | Some h \<Rightarrow> f h)"
  have wf: "wf_capi s" using s P by (simp add: stable_def)
  show "wf_capi (snd (?m s)) \<and> (\<forall>e. fst (?m s) = Inl e \<longrightarrow> \<not> misuse e)"
  proof (cases rule: check_alloc_cases [of what data ptr fname s])
    case (refused e)
    then show ?thesis using wf by (simp add: c_bind_def c_ret_def wf_err)
  next
    case (ok a)
    then have "inside k (priv k s a) s" using wf holds_priv [OF wf, of k a] data by (simp add: inside_def)
    then show ?thesis using ok body [OF ok(1), of "priv k s a"] s data by (simp add: c_bind_def settles_def)
  qed
qed

lemma data_priv: "db_data = priv KDatabase" "cnxn_data = priv KConn" "stmt_data = priv KStmt"
  by (simp_all add: priv_def fun_eq_iff)

lemma c_bind_assoc: "c_bind (c_bind m f) g = c_bind m (\<lambda>x. c_bind (f x) g)"
  by (rule ext) (auto simp: c_bind_def split: prod.split sum.split)

lemma c_bind_ret [simp]: "c_bind (c_ret v) f = f v"
  by (rule ext) (simp add: c_bind_def c_ret_def)

lemma with_object_db:
  "with_object (checkDBInit db fname) body = c_bind (check_alloc ''database'' db_data db fname) (\<lambda>r. case r of
     None \<Rightarrow> c_ret ADBC_STATUS_INVALID_STATE
   | Some h \<Rightarrow> c_bind (get_database h) (\<lambda>d. case db_db d of
       None \<Rightarrow> complain ''%s: database not initialized'' [fname] ADBC_STATUS_INVALID_STATE | Some x \<Rightarrow> body h x))"
  unfolding with_object_def checkDBInit_def checkDBAlloc_def complain_def c_bind_assoc
  by (intro arg_cong [where f = "c_bind _"] ext) (simp add: c_bind_assoc option.case_distrib [of "\<lambda>m. c_bind m _"] cong: option.case_cong split: option.split)

lemma with_object_conn:
  "with_object (checkConnInit cnxn fname) body = c_bind (check_alloc ''connection'' cnxn_data cnxn fname) (\<lambda>r. case r of
     None \<Rightarrow> c_ret ADBC_STATUS_INVALID_STATE
   | Some h \<Rightarrow> c_bind (get_conn h) (\<lambda>d. case conn_cnxn d of
       None \<Rightarrow> complain ''%s: connection not initialized'' [fname] ADBC_STATUS_INVALID_STATE | Some x \<Rightarrow> body h x))"
  unfolding with_object_def checkConnInit_def checkConnAlloc_def complain_def c_bind_assoc
  by (intro arg_cong [where f = "c_bind _"] ext) (simp add: c_bind_assoc option.case_distrib [of "\<lambda>m. c_bind m _"] cong: option.case_cong split: option.split)

lemma with_object_stmt:
  "with_object (checkStmtInit stmt fname) body = c_bind (check_alloc ''statement'' stmt_data stmt fname) (\<lambda>r. case r of
     None \<Rightarrow> c_ret ADBC_STATUS_INVALID_STATE
   | Some h \<Rightarrow> c_bind (get_stmt h) (\<lambda>d. case stmt_stmt d of
       None \<Rightarrow> complain ''%s: statement not allocated'' [fname] ADBC_STATUS_INVALID_STATE | Some x \<Rightarrow> body h x))"
  unfolding with_object_def checkStmtInit_def checkStmtAlloc_def complain_def c_bind_assoc
  by (intro arg_cong [where f = "c_bind _"] ext) (simp add: c_bind_assoc option.case_distrib [of "\<lambda>m. c_bind m _"] cong: option.case_cong split: option.split)

lemma stable_ready:
  assumes "stable P"
  shows "stable (\<lambda>s. (P s \<and> priv k s a = h \<and> h \<noteq> 0) \<and> inside k' h' s \<and> objs s h' = Some ob)"
  by (rule stable_conj [OF stable_conj [OF assms]])
    (use structural_inside [of k' h'] in \<open>auto simp: structural_def\<close>)

text \<open>The rest runs with the handle of an initialized object.\<close>

lemma settles_db_init:
  assumes "stable P" "\<And>h x. settles (\<lambda>s. P s \<and> inside KDatabase h s) (body h x)"
  shows "settles P (with_object (checkDBInit db fname) body)"
  unfolding with_object_db
  by (intro settles_check [where k = KDatabase] database.settles_get settles_option settles_complain stable_ready
      settles_weaken [OF assms(2)] data_priv assms(1)) auto

lemma settles_conn_init:
  assumes "stable P" "\<And>h x. settles (\<lambda>s. P s \<and> inside KConn h s) (body h x)"
  shows "settles P (with_object (checkConnInit cnxn fname) body)"
  unfolding with_object_conn
  by (intro settles_check [where k = KConn] conn.settles_get settles_option settles_complain stable_ready
      settles_weaken [OF assms(2)] data_priv assms(1)) auto

lemma settles_stmt_init:
  assumes "stable P" "\<And>h x. settles (\<lambda>s. P s \<and> inside KStmt h s) (body h x)"
  shows "settles P (with_object (checkStmtInit stmt fname) body)"
  unfolding with_object_stmt
  by (intro settles_check [where k = KStmt] stmt.settles_get settles_option settles_complain stable_ready
      settles_weaken [OF assms(2)] data_priv assms(1)) auto

text \<open>The common case: the rest keeps the handle.\<close>

lemma inside_wf: "(\<lambda>s. wf_capi s \<and> inside k h s) = inside k h"
  by (auto simp: inside_def)

lemma db_init_keeps [keep_rules]:
  "(\<And>h x. keeps (inside KDatabase h) (body h x)) \<Longrightarrow> settles wf_capi (with_object (checkDBInit db fname) body)"
  by (rule settles_db_init) (auto simp: inside_wf intro: settles_keeps keep_rules)

lemma conn_init_keeps [keep_rules]:
  "(\<And>h x. keeps (inside KConn h) (body h x)) \<Longrightarrow> settles wf_capi (with_object (checkConnInit db fname) body)"
  by (rule settles_conn_init) (auto simp: inside_wf intro: settles_keeps keep_rules)

lemma stmt_init_keeps [keep_rules]:
  "(\<And>h x. keeps (inside KStmt h) (body h x)) \<Longrightarrow> settles wf_capi (with_object (checkStmtInit db fname) body)"
  by (rule settles_stmt_init) (auto simp: inside_wf intro: settles_keeps keep_rules)

section \<open>Recovery\<close>

definition op_ok :: "('w capi \<Rightarrow> nat \<times> 'w capi) \<Rightarrow> bool" where
  "op_ok f \<longleftrightarrow> (\<forall>s. wf_capi s \<longrightarrow> wf_capi (snd (f s)))"

lemma poison_fields [simp]:
  "priv k (s\<lparr>globalPoison := b\<rparr>) = priv k s" "holds k (s\<lparr>globalPoison := b\<rparr>) = holds k s"
  "owned_context (s\<lparr>globalPoison := b\<rparr>) = owned_context s"
  "priv k (s\<lparr>stderr_log := es\<rparr>) = priv k s" "holds k (s\<lparr>stderr_log := es\<rparr>) = holds k s"
  "owned_context (s\<lparr>stderr_log := es\<rparr>) = owned_context s"
  by (auto simp: fun_eq_iff priv_def holds_def owned_context_def split: c_kind.split)

lemma wf_poison: "wf_capi s \<Longrightarrow> \<not> misuse e \<Longrightarrow> wf_capi (snd (poison env fname e s))"
  by (simp add: poison_def wf_capi_def wf_handles_def wf_structs_def wf_contexts_def)

lemma op_ok_recovering [keep_rules]:
  fixes m :: "('w, nat) capi_m"
  assumes "settles wf_capi m"
  shows "op_ok (recovering env fname m)"
  unfolding op_ok_def
proof (intro allI impI)
  fix s :: "'w capi" assume "wf_capi s"
  obtain r s' where m: "m s = (r, s')" by (cases "m s")
  have s': "wf_capi s' \<and> (\<forall>e. r = Inl e \<longrightarrow> \<not> misuse e)" using settlesD [OF assms \<open>wf_capi s\<close> m] .
  then show "wf_capi (snd (recovering env fname m s))"
    by (cases r) (simp_all add: recovering_def m wf_poison)
qed

section \<open>The operations that keep their handle\<close>

lemma keeps_requiring [keep_rules]: "structural P \<Longrightarrow> keeps P m \<Longrightarrow> keeps P (requiring env iface t msg m)"
  unfolding requiring_def by (intro keep_rules)

lemma keeps_bytes_value [keep_rules]: "keeps P (bytes_value mem len)"
  unfolding bytes_value_def by (intro keep_rules)

lemma db_option_ops:
  assumes "tame_env env"
  shows "op_ok (QuackDatabaseGetOption env p key)" "op_ok (QuackDatabaseGetOptionBytes env p key)"
    "op_ok (QuackDatabaseGetOptionDouble env p key)" "op_ok (QuackDatabaseGetOptionInt env p key)"
    "op_ok (QuackDatabaseSetOptionBytes env p key mem len)" "op_ok (QuackDatabaseSetOptionDouble env p key d)"
    "op_ok (QuackDatabaseSetOptionInt env p key i)"
  unfolding QuackDatabaseGetOption_def QuackDatabaseGetOptionBytes_def QuackDatabaseGetOptionDouble_def
    QuackDatabaseGetOptionInt_def QuackDatabaseSetOptionBytes_def QuackDatabaseSetOptionDouble_def QuackDatabaseSetOptionInt_def
    getString_op_def getBytes_op_def getDouble_op_def getInt_op_def setValue_op_def
  by (intro keep_rules assms)+

lemma conn_option_ops:
  assumes "tame_env env"
  shows "op_ok (QuackConnectionGetOption env p key)" "op_ok (QuackConnectionGetOptionBytes env p key)"
    "op_ok (QuackConnectionGetOptionDouble env p key)" "op_ok (QuackConnectionGetOptionInt env p key)"
    "op_ok (QuackConnectionSetOptionBytes env p key mem len)" "op_ok (QuackConnectionSetOptionDouble env p key d)"
    "op_ok (QuackConnectionSetOptionInt env p key i)"
  unfolding QuackConnectionGetOption_def QuackConnectionGetOptionBytes_def QuackConnectionGetOptionDouble_def
    QuackConnectionGetOptionInt_def QuackConnectionSetOptionBytes_def QuackConnectionSetOptionDouble_def QuackConnectionSetOptionInt_def
    getString_op_def getBytes_op_def getDouble_op_def getInt_op_def setValue_op_def
  by (intro keep_rules assms)+

lemma stmt_option_ops:
  assumes "tame_env env"
  shows "op_ok (QuackStatementGetOption env p key)" "op_ok (QuackStatementGetOptionBytes env p key)"
    "op_ok (QuackStatementGetOptionDouble env p key)" "op_ok (QuackStatementGetOptionInt env p key)"
    "op_ok (QuackStatementSetOptionBytes env p key mem len)" "op_ok (QuackStatementSetOptionDouble env p key d)"
    "op_ok (QuackStatementSetOptionInt env p key i)" "op_ok (QuackStatementSetOption env p key v)"
  unfolding QuackStatementGetOption_def QuackStatementGetOptionBytes_def QuackStatementGetOptionDouble_def
    QuackStatementGetOptionInt_def QuackStatementSetOptionBytes_def QuackStatementSetOptionDouble_def QuackStatementSetOptionInt_def
    QuackStatementSetOption_def getString_op_def getBytes_op_def getDouble_op_def getInt_op_def setValue_op_def
  by (intro keep_rules assms)+

text \<open>An exported reader gets a handle of its own, in the stream of the caller.\<close>

lemma newHandle_with_priv:
  "c_bind (newHandle ob) (\<lambda>h. c_then (c_modify (with_priv k a h)) m) s =
     m (with_priv k a (next_handle s) (s\<lparr>objs := (objs s)(next_handle s \<mapsto> ob),
       live_handles := insert (next_handle s) (live_handles s), next_handle := next_handle s + 1\<rparr>))"
  by (simp add: c_bind_def newHandle_def c_modify_def)

lemma exportRecordReader_alt:
  "exportRecordReader env rdr stream = (case stream of None \<Rightarrow> c_panic NilDeref
     | Some a \<Rightarrow> c_bind (newHandle (HStream \<lparr>cs_rdr = rdr, cs_adbcErr = None, cs_status = ADBC_STATUS_OK\<rparr>)) (\<lambda>h.
         c_then (c_modify (with_priv KStream a h)) (go_do (call_effect env (Rdr_Retain rdr)))))"
  by (simp add: exportRecordReader_def with_priv_def [abs_def] cong: option.case_cong)

lemma keeps_exportRecordReader [keep_rules]:
  fixes env :: "'w go_env"
  assumes "tame_env env"
  shows "keeps (inside k h) (exportRecordReader env rdr stream)"
proof (cases stream)
  case None
  then show ?thesis by (simp add: exportRecordReader_def keeps_panic)
next
  case (Some a)
  show ?thesis
  proof (rule keepsI)
    fix s :: "'w capi" assume s: "inside k h s"
    define ob where "ob = HStream \<lparr>cs_rdr = rdr, cs_adbcErr = None, cs_status = ADBC_STATUS_OK\<rparr>"
    define s1 where "s1 = with_priv KStream a (next_handle s) (s\<lparr>objs := (objs s)(next_handle s \<mapsto> ob),
       live_handles := insert (next_handle s) (live_handles s), next_handle := next_handle s + 1\<rparr>)"
    have "inside k h s1"
      using s wf_attach(1) [where s = s and ob = ob and k = KStream and a = a and s' = s1]
        wf_attach(2) [where s = s and ob = ob and k = KStream and a = a and s' = s1 and k' = k and h = h] by (auto simp: inside_def s1_def ob_def kind_of_def ctx_of_def)
    then have "inside k h (snd (go_do (call_effect env (Rdr_Retain rdr)) s1)) \<and>
        (\<forall>e. fst (go_do (call_effect env (Rdr_Retain rdr)) s1) = Inl e \<longrightarrow> \<not> misuse e)"
      using keeps_go [OF tame_calls(3) [OF assms] structural_inside] unfolding keeps_def by blast
    then show "inside k h (snd (exportRecordReader env rdr stream s)) \<and>
        (\<forall>e. fst (exportRecordReader env rdr stream s) = Inl e \<longrightarrow> \<not> misuse e)"
      unfolding exportRecordReader_alt Some option.case newHandle_with_priv ob_def [symmetric] s1_def .
  qed
qed

lemma keeps_export_reader [keep_rules]: "tame_env env \<Longrightarrow> keeps (inside k h) (export_reader env out res)"
  unfolding export_reader_def by (intro keep_rules structural_inside)

lemma conn_metadata_ops:
  assumes "tame_env env"
  shows "op_ok (QuackConnectionCancel env p)" "op_ok (QuackConnectionGetInfo env p codes len out)"
    "op_ok (QuackConnectionGetObjects env p depth cat schema tab tts col out)"
    "op_ok (QuackConnectionGetStatistics env p cat schema tab approx out)" "op_ok (QuackConnectionGetStatisticNames env p out)"
    "op_ok (QuackConnectionGetTableSchema env p cat schema tab)" "op_ok (QuackConnectionGetTableTypes env p out)"
    "op_ok (QuackConnectionReadPartition env p ser len out)" "op_ok (QuackConnectionCommit env p)"
    "op_ok (QuackConnectionRollback env p)"
  unfolding QuackConnectionCancel_def QuackConnectionGetInfo_def QuackConnectionGetObjects_def QuackConnectionGetStatistics_def
    QuackConnectionGetStatisticNames_def QuackConnectionGetTableSchema_def QuackConnectionGetTableTypes_def
    QuackConnectionReadPartition_def QuackConnectionCommit_def QuackConnectionRollback_def
  by (intro keep_rules assms)+

lemma keeps_export_partitions [keep_rules]: "structural P \<Longrightarrow> keeps P (export_partitions part)"
proof -
  assume P: "structural P"
  have "\<not> misuse e" if "fst (copy_partitions n sz off ps) = Some e" for n sz off ps e
    using that by (induction n sz off ps rule: copy_partitions.induct) (auto simp: Let_def split: if_splits prod.splits)
  then show ?thesis
    unfolding export_partitions_def Let_def
    by (auto split: prod.split option.split intro!: keep_rules P) (metis fst_conv)
qed

lemma stmt_ops:
  assumes "tame_env env"
  shows "op_ok (QuackStatementCancel env p)" "op_ok (QuackStatementPrepare env p)" "op_ok (QuackStatementSetSqlQuery env p q)"
    "op_ok (QuackStatementSetSubstraitPlan env p plan len)" "op_ok (QuackStatementBind env p arr sch)"
    "op_ok (QuackStatementBindStream env p st)" "op_ok (QuackStatementGetParameterSchema env p)"
    "op_ok (QuackStatementExecuteQuery env p out)" "op_ok (QuackStatementExecuteSchema env p)"
    "op_ok (QuackStatementExecutePartitions env p)"
  unfolding QuackStatementCancel_def QuackStatementPrepare_def QuackStatementSetSqlQuery_def QuackStatementSetSubstraitPlan_def
    QuackStatementBind_def QuackStatementBindStream_def QuackStatementGetParameterSchema_def QuackStatementExecuteQuery_def
    QuackStatementExecuteSchema_def QuackStatementExecutePartitions_def
  by (intro keep_rules assms; (split option.split)?; intro keep_rules assms)+

end
