(* ===== verification/CRuns.thy ===== *)
theory CRuns
  imports CInvariant
begin

text \<open>
  The operations that allocate, initialize and release objects, and runs of calls: the invariant \<open>wf_capi\<close> holds in
  every state a C caller can reach.
\<close>

section \<open>Allocation\<close>

lemma wf_new:
  assumes "wf_capi s" "kind_of ob = k" "ctx_of ob = None \<or> ctx_of ob = Some None" "priv k s a = 0"
  shows "wf_capi (snd (c_bind (newHandle ob) (\<lambda>h. c_then (c_modify (with_priv k a h)) (c_ret v)) s))"
  unfolding newHandle_with_priv using wf_attach(1) [where k = k and a = a and ob = ob, OF assms(1-3)] assms(4) by (simp add: c_ret_def)

lemma with_priv_eqs:
  "with_priv KDatabase a h = (\<lambda>s. s\<lparr>db_data := (db_data s)(a := h)\<rparr>)"
  "with_priv KConn a h = (\<lambda>s. s\<lparr>cnxn_data := (cnxn_data s)(a := h)\<rparr>)"
  "with_priv KStmt a h = (\<lambda>s. s\<lparr>stmt_data := (stmt_data s)(a := h)\<rparr>)"
  by (simp_all add: with_priv_def fun_eq_iff)

lemma complain_run [simp]: "complain fmt vals code s = (Inr code, s\<lparr>c_err := setErr (c_err s) fmt vals\<rparr>)"
  by (simp add: complain_def)

text \<open>The shape of the three functions that allocate: poison, null pointer, struct in use, allocation.\<close>

lemma settles_new:
  assumes "\<And>a. settles (\<lambda>s. wf_capi s \<and> priv k s a = 0) (f a)" "data = priv k"
  shows "settles wf_capi (\<lambda>s. if globalPoison s then complain m1 [] c1 s
     else case ptr of None \<Rightarrow> c_panic NilDeref s | Some a \<Rightarrow> if data s a \<noteq> 0 then complain m2 [] c2 s else f a s)"
  unfolding settles_def
proof (intro allI impI)
  fix s :: "'a capi" assume wf: "wf_capi s"
  show "wf_capi (snd (if globalPoison s then complain m1 [] c1 s
     else case ptr of None \<Rightarrow> c_panic NilDeref s | Some a \<Rightarrow> if data s a \<noteq> 0 then complain m2 [] c2 s else f a s)) \<and>
     (\<forall>e. fst (if globalPoison s then complain m1 [] c1 s
     else case ptr of None \<Rightarrow> c_panic NilDeref s | Some a \<Rightarrow> if data s a \<noteq> 0 then complain m2 [] c2 s else f a s) = Inl e \<longrightarrow> \<not> misuse e)"
  proof (cases "globalPoison s \<or> ptr = None \<or> data s (the ptr) \<noteq> 0")
    case True
    then show ?thesis using wf by (cases ptr) (auto simp: wf_err c_panic_def)
  next
    case False
    then obtain a where "ptr = Some a" "priv k s a = 0" "\<not> globalPoison s" using assms(2) by auto
    then show ?thesis using assms wf unfolding settles_def by auto
  qed
qed

lemma settles_attach:
  assumes "kind_of ob = k" "ctx_of ob = None \<or> ctx_of ob = Some None"
  shows "settles (\<lambda>s. wf_capi s \<and> priv k s a = 0) (c_bind (newHandle ob) (\<lambda>h. c_then (c_modify (with_priv k a h)) (c_ret v)))"
  unfolding settles_def
proof (intro allI impI conjI)
  fix s :: "'a capi" assume "wf_capi s \<and> priv k s a = 0"
  then show "wf_capi (snd (c_bind (newHandle ob) (\<lambda>h. c_then (c_modify (with_priv k a h)) (c_ret v)) s))"
    by (intro wf_new [OF _ assms]) simp_all
next
  fix s :: "'a capi" and e
  assume "fst (c_bind (newHandle ob) (\<lambda>h. c_then (c_modify (with_priv k a h)) (c_ret v)) s) = Inl e"
  then show "\<not> misuse e" by (simp add: newHandle_with_priv c_ret_def)
qed

lemma new_ops:
  assumes "tame_env env"
  shows "op_ok (QuackDatabaseNew env p)" "op_ok (QuackConnectionNew env p)" "op_ok (QuackStatementNew env c p)"
proof -
  show "op_ok (QuackDatabaseNew env p)"
    unfolding QuackDatabaseNew_def
    by (intro op_ok_recovering settles_new [where k = KDatabase] settles_attach [where k = KDatabase, unfolded with_priv_eqs])
      (simp_all add: kind_of_def ctx_of_def data_priv)
  show "op_ok (QuackConnectionNew env p)"
    unfolding QuackConnectionNew_def
    by (intro op_ok_recovering settles_new [where k = KConn] settles_attach [where k = KConn, unfolded with_priv_eqs])
      (simp_all add: kind_of_def ctx_of_def data_priv)
  have st: "stable (\<lambda>s. wf_capi s \<and> priv KStmt s a = 0)" for a
    by (intro stable_conj stable_wf) (simp add: structural_def)
  have new: "settles (\<lambda>s. wf_capi s \<and> priv KStmt s a = 0) (with_object (checkConnInit c f) (\<lambda>_ x.
      c_bind (go_do (call_make env (Go_NewStatement x))) (\<lambda>res. case res of Inl e \<Rightarrow> report (Some e)
        | Inr st \<Rightarrow> c_bind (newHandle (HStmt \<lparr>stmt_ctx = None, stmt_stmt = Some st\<rparr>)) (\<lambda>h.
            c_then (c_modify (with_priv KStmt a h)) (c_ret ADBC_STATUS_OK)))))" for a f
    by (rule settles_conn_init [OF st], rule settles_weaken [where P = "\<lambda>s. wf_capi s \<and> priv KStmt s a = 0"],
        intro settles_bind [OF st] settles_sum settles_keeps [OF st] settles_attach keep_rules assms stable_structural [OF st])
      (auto simp: kind_of_def ctx_of_def)
  show "op_ok (QuackStatementNew env c p)"
    unfolding QuackStatementNew_def
    by (intro op_ok_recovering settles_new [where k = KStmt] new [unfolded with_priv_eqs]) (simp add: data_priv)
qed

section \<open>Initialization and options\<close>

lemma keeps_set_database [keep_rules]: "keeps (inside KDatabase h) (set_object h (HDatabase d))"
  by (rule keeps_set_object) (auto simp: kind_of_def ctx_of_def inside_def holds_def split: c_object.splits)

text \<open>Inside an operation on a connection with a given context.\<close>

definition at_ctx :: "nat \<Rightarrow> nat option \<Rightarrow> 'w capi \<Rightarrow> bool" where
  "at_ctx h c s \<longleftrightarrow> inside KConn h s \<and> (\<exists>d. objs s h = Some (HConn d) \<and> conn_ctx d = c)"

lemma structural_at_ctx [keep_rules]: "structural (at_ctx h c)"
  using structural_inside [of KConn h] unfolding structural_def at_ctx_def by auto

lemma stable_at_ctx [keep_rules]: "stable (at_ctx h c)"
  using structural_at_ctx by (auto simp: stable_def at_ctx_def inside_def)

lemma keeps_set_conn [keep_rules]:
  assumes "conn_ctx d = c"
  shows "keeps (at_ctx h c) (set_object h (HConn d))"
proof (rule keepsI)
  fix s :: "'w capi" assume s: "at_ctx h c s"
  then obtain d0 where d0: "objs s h = Some (HConn d0)" "conn_ctx d0 = c" "wf_capi s" "holds KConn s h" "h \<in> live_handles s"
    by (auto simp: at_ctx_def inside_def holds_def)
  define s' where "s' = s\<lparr>objs := (objs s)(h \<mapsto> HConn d)\<rparr>"
  have "wf_capi s'" "holds KConn s' = holds KConn s"
    using wf_update [OF d0(3) d0(5) d0(1), where ob' = "HConn d" and C = "cancelled s" and n = "next_ctx s" and s' = s'] assms d0(2)
    by (auto simp: s'_def kind_of_def ctx_of_def)
  then show "at_ctx h c (snd (set_object h (HConn d) s)) \<and> (\<forall>e. fst (set_object h (HConn d) s) = Inl e \<longrightarrow> \<not> misuse e)"
    using d0(4) assms by (simp add: at_ctx_def inside_def set_object_def c_modify_def s'_def)
qed

lemma db_alloc_keeps:
  assumes "\<And>h d. keeps (inside KDatabase h) (f h d)"
  shows "settles wf_capi (c_bind (checkDBAlloc db fname) (\<lambda>r. case r of None \<Rightarrow> c_ret v | Some h \<Rightarrow> c_bind (get_database h) (f h)))"
  unfolding checkDBAlloc_def
  by (intro settles_check [where k = KDatabase] database.settles_get
      settles_weaken [OF settles_keeps [OF stable_inside assms]] data_priv stable_wf) auto

lemma conn_alloc_settles:
  assumes "\<And>h d. settles (at_ctx h (conn_ctx d)) (f h d)"
  shows "settles wf_capi (c_bind (checkConnAlloc cnxn fname) (\<lambda>r. case r of None \<Rightarrow> c_ret v | Some h \<Rightarrow> c_bind (get_conn h) (f h)))"
  unfolding checkConnAlloc_def
  by (intro settles_check [where k = KConn] conn.settles_get settles_weaken [OF assms] data_priv stable_wf) (auto simp: at_ctx_def)

lemma settles_under: "keeps (at_ctx h c) m \<Longrightarrow> settles (\<lambda>s. at_ctx h c s \<and> Q s) m"
  by (rule settles_weaken [OF settles_keeps [OF stable_at_ctx]]) auto

lemma keeps_apply_options [keep_rules]: "tame_env env \<Longrightarrow> structural P \<Longrightarrow> keeps P (apply_options env x kvs)"
proof (induction kvs)
  case (Cons kv kvs)
  show ?case unfolding apply_options.simps by (intro keep_rules Cons)
qed (simp add: keeps_ret)

lemma init_ops:
  assumes "tame_env env"
  shows "op_ok (QuackDatabaseSetOption env p key v)" "op_ok (QuackDatabaseInit env p)"
    "op_ok (QuackConnectionSetOption env p key v)" "op_ok (QuackConnectionInit env p db)"
proof -
  show "op_ok (QuackDatabaseSetOption env p key v)"
    unfolding QuackDatabaseSetOption_def by (intro op_ok_recovering db_alloc_keeps keep_rules assms)
  have log: "keeps (inside KDatabase h) (initLoggingFromEnv env x)" for h x
    unfolding initLoggingFromEnv_def by (intro keep_rules assms)
  show "op_ok (QuackDatabaseInit env p)"
    unfolding QuackDatabaseInit_def by (intro op_ok_recovering db_alloc_keeps keep_rules assms log)
  show "op_ok (QuackConnectionSetOption env p key v)"
    unfolding QuackConnectionSetOption_def
    by (intro op_ok_recovering conn_alloc_settles settles_keeps keep_rules assms) simp_all
  show "op_ok (QuackConnectionInit env p db)"
    unfolding QuackConnectionInit_def
    by (intro op_ok_recovering conn_alloc_settles settles_if settles_complain settles_db_init stable_at_ctx
        settles_under keep_rules assms) simp_all
qed

section \<open>Release\<close>

text \<open>
  The state after the handle is deleted and the struct cleared: well formed but for the context of the object, which
  is cancelled at the end.
\<close>

definition releasing :: "c_kind \<Rightarrow> nat \<Rightarrow> 'w capi \<Rightarrow> bool" where
  "releasing k h s \<longleftrightarrow> wf_handles s \<and> wf_structs s \<and> (\<forall>e \<in> set (stderr_log s). \<not> misuse e) \<and> h \<notin> live_handles s \<and>
     (\<exists>ob. objs s h = Some ob \<and> kind_of ob = k \<and>
       (\<forall>c < next_ctx s. c \<in> cancelled s \<or> owned_context s c \<or> ctx_of ob = Some (Some c)))"

lemma structural_releasing [keep_rules]: "structural (releasing k h)"
  by (auto simp: structural_def releasing_def wf_handles_def wf_structs_def)

lemma releasing_detached:
  assumes s: "inside k h s" "priv k s a = h" "h \<noteq> 0"
    and s': "objs s' = objs s" "live_handles s' = live_handles s - {h}" "next_handle s' = next_handle s"
      "next_ctx s' = next_ctx s" "cancelled s' = cancelled s" "stderr_log s' = stderr_log s"
      "\<And>k' b. priv k' s' b = (if k' = k \<and> b = a then 0 else priv k' s b)"
  shows "releasing k h s'"
proof -
  have wf: "wf_handles s" "wf_structs s" "wf_contexts s" "\<forall>e \<in> set (stderr_log s). \<not> misuse e" and h: "holds k s h"
    using s(1) by (simp_all add: inside_def wf_capi_def)
  have holds: "holds k' s' h' \<longleftrightarrow> h' \<noteq> h \<and> holds k' s h'" for k' h' using s' by (auto simp: holds_def)
  have kind: "k' = k" if "holds k' s h" for k' using that h by (auto simp: holds_def)
  have uniq: "priv k s b = h \<Longrightarrow> b = a" for b using wf(2) s(2,3) unfolding wf_structs_def by metis
  have "wf_structs s'"
    unfolding wf_structs_def
  proof (intro conjI allI impI)
    fix k' b assume b: "priv k' s' b \<noteq> 0"
    then have eq: "priv k' s' b = priv k' s b" and ne: "\<not> (k' = k \<and> b = a)" using s'(7) [of k' b] by (auto split: if_splits)
    have "holds k' s (priv k' s b)" using b eq wf(2) unfolding wf_structs_def by metis
    moreover have "priv k' s b \<noteq> h" using calculation kind [of k'] uniq [of b] ne by auto
    ultimately show "holds k' s' (priv k' s' b)" using eq by (simp add: holds)
  next
    fix k' b c assume bc: "priv k' s' b = priv k' s' c" "priv k' s' b \<noteq> 0"
    then have "priv k' s b = priv k' s c" "priv k' s b \<noteq> 0" using s'(7) by (auto split: if_splits)
    then show "b = c" using wf(2) unfolding wf_structs_def by metis
  next
    fix k' h' assume kh: "k' \<noteq> KStream" "holds k' s' h'"
    then have h': "holds k' s h'" "h' \<noteq> h" using holds by blast+
    then obtain b where b: "priv k' s b = h'" using kh(1) wf(2) unfolding wf_structs_def by blast
    then have "priv k' s' b = h'" using s'(7) s(2) h'(2) by auto
    then show "\<exists>b. priv k' s' b = h'" ..
  qed
  moreover obtain ob where ob: "objs s h = Some ob" "kind_of ob = k" using h by (auto simp: holds_def)
  moreover have "c \<in> cancelled s' \<or> owned_context s' c \<or> ctx_of ob = Some (Some c)" if c: "c < next_ctx s'" for c
  proof -
    have "c \<in> cancelled s \<or> owned_context s c" using c s' wf(3) by (auto simp: wf_contexts_def)
    then show ?thesis
    proof
      assume "owned_context s c"
      then obtain h' ob' where o: "h' \<in> live_handles s" "objs s h' = Some ob'" "ctx_of ob' = Some (Some c)"
        unfolding owned_context_def by blast
      show ?thesis
      proof (cases "h' = h")
        case True
        then show ?thesis using o ob by simp
      next
        case False
        then have "owned_context s' c" using o s' by (auto simp: owned_context_def)
        then show ?thesis by blast
      qed
    qed (use s' in simp)
  qed
  moreover have "wf_handles s'" using wf(1) s' by (auto simp: wf_handles_def)
  ultimately show ?thesis using wf(4) s' by (auto simp: releasing_def)
qed

text \<open>Without a context of its own the released object leaves a well-formed state.\<close>

lemma releasing_wf:
  assumes "releasing k h s" "\<And>ob. objs s h = Some ob \<Longrightarrow> kind_of ob = k \<Longrightarrow> ctx_of ob = None \<or> ctx_of ob = Some None"
  shows "wf_capi s"
  using assms by (fastforce simp: releasing_def wf_capi_def wf_contexts_def)

text \<open>An object whose handle is deleted may change without a context.\<close>

lemma releasing_set:
  assumes "releasing k h s" "kind_of ob' = k" "\<And>ob c. objs s h = Some ob \<Longrightarrow> ctx_of ob = Some (Some c) \<Longrightarrow> c \<in> C"
    and s': "s' = s\<lparr>cancelled := cancelled s \<union> C, objs := (objs s)(h \<mapsto> ob')\<rparr>"
  shows "releasing k h s'"
proof -
  obtain ob where ob: "objs s h = Some ob" "\<forall>c < next_ctx s. c \<in> cancelled s \<or> owned_context s c \<or> ctx_of ob = Some (Some c)"
    and r: "wf_handles s" "wf_structs s" "\<forall>e \<in> set (stderr_log s). \<not> misuse e" "h \<notin> live_handles s"
    using assms(1) by (auto simp: releasing_def)
  have "holds k' s' = holds k' s" for k' using r(4) by (auto simp: s' holds_def fun_eq_iff)
  moreover have "priv k' s' = priv k' s" for k' by (auto simp: s' priv_def fun_eq_iff split: c_kind.split)
  ultimately have "wf_structs s'" using r(2) by (simp add: wf_structs_def)
  moreover have "owned_context s' c" if oc: "owned_context s c" for c
  proof -
    obtain h' ob2 where "h' \<in> live_handles s" "objs s h' = Some ob2" "ctx_of ob2 = Some (Some c)"
      using oc unfolding owned_context_def by blast
    moreover from this have "h' \<noteq> h" using r(4) by auto
    ultimately show ?thesis by (auto simp: s' owned_context_def)
  qed
  ultimately show ?thesis using r ob assms(2) assms(3) [OF ob(1)] unfolding releasing_def
    by (auto simp: s' wf_handles_def)
qed

lemma keeps_releasing_database [keep_rules]: "keeps (releasing KDatabase h) (set_object h (HDatabase d))"
proof (rule keepsI)
  fix s :: "'w capi" assume s: "releasing KDatabase h s"
  have "ctx_of ob = None" if "objs s h = Some ob" for ob using s that
    by (cases ob) (auto simp: releasing_def kind_of_def ctx_of_def)
  then have "releasing KDatabase h (s\<lparr>objs := (objs s)(h \<mapsto> HDatabase d)\<rparr>)"
    using s by (intro releasing_set [OF s, of "HDatabase d" "{}"]) (auto simp: kind_of_def)
  then show "releasing KDatabase h (snd (set_object h (HDatabase d) s)) \<and>
      (\<forall>e. fst (set_object h (HDatabase d) s) = Inl e \<longrightarrow> \<not> misuse e)"
    by (simp add: set_object_def c_modify_def)
qed

text \<open>The deferred end of the release of a connection or statement.\<close>

lemma release_context:
  assumes s: "releasing k h s" and ob: "objs s h = Some ob" "ctx_of ob \<noteq> None" and ob': "kind_of ob' = k" "ctx_of ob' = Some None"
  shows "\<exists>s'. c_then (cancelContext h) (set_object h ob') s = (Inr (), s') \<and> wf_capi s'"
proof -
  obtain c where c: "ctx_of ob = Some c" using ob(2) by blast
  define s' where "s' = s\<lparr>cancelled := cancelled s \<union> set_option c, objs := (objs s)(h \<mapsto> ob')\<rparr>"
  have "releasing k h s'" using s ob c ob' by (intro releasing_set [OF s, of ob' "set_option c"]) (auto simp: s'_def)
  then have "wf_capi s'" by (rule releasing_wf) (use ob' in \<open>auto simp: s'_def\<close>)
  moreover have "c_then (cancelContext h) (set_object h ob') s = (Inr (), s')"
    using ob c by (cases c) (auto simp: c_bind_def cancelContext_def set_object_def c_modify_def s'_def)
  ultimately show ?thesis by blast
qed

lemma settles_release_context:
  assumes m: "keeps (releasing k h) m" and k: "k = KConn \<or> k = KStmt" and ob': "kind_of ob' = k" "ctx_of ob' = Some None"
  shows "settles (releasing k h) (c_defer (c_then (cancelContext h) (set_object h ob')) m)"
  unfolding settles_def
proof (intro allI impI)
  fix s :: "'a capi" assume s: "releasing k h s"
  obtain r s1 where r: "m s = (r, s1)" by (cases "m s")
  have s1: "releasing k h s1" "\<forall>e. r = Inl e \<longrightarrow> \<not> misuse e" using m s r unfolding keeps_def by (metis fst_conv snd_conv)+
  obtain ob where ob: "objs s1 h = Some ob" "kind_of ob = k" using s1(1) by (auto simp: releasing_def)
  have "ctx_of ob \<noteq> None" using ob(2) k by (cases ob) (auto simp: kind_of_def ctx_of_def)
  then obtain s' where "c_then (cancelContext h) (set_object h ob') s1 = (Inr (), s')" "wf_capi s'"
    using release_context [OF s1(1) ob(1) _ ob'] by blast
  then show "wf_capi (snd (c_defer (c_then (cancelContext h) (set_object h ob')) m s)) \<and>
      (\<forall>e. fst (c_defer (c_then (cancelContext h) (set_object h ob')) m s) = Inl e \<longrightarrow> \<not> misuse e)"
    using r s1(2) by (simp add: c_defer_def)
qed

definition clears :: "c_kind \<Rightarrow> nat \<Rightarrow> ('w capi \<Rightarrow> 'w capi) \<Rightarrow> bool" where
  "clears k a clear \<longleftrightarrow> (\<forall>s. objs (clear s) = objs s \<and> live_handles (clear s) = live_handles s \<and> next_handle (clear s) = next_handle s \<and>
     next_ctx (clear s) = next_ctx s \<and> cancelled (clear s) = cancelled s \<and> stderr_log (clear s) = stderr_log s \<and>
     (\<forall>k' b. priv k' (clear s) b = (if k' = k \<and> b = a then 0 else priv k' s b)))"

lemma clears_priv:
  "clears KDatabase a (\<lambda>s. s\<lparr>db_data := (db_data s)(a := 0)\<rparr>)"
  "clears KConn a (\<lambda>s. s\<lparr>cnxn_data := (cnxn_data s)(a := 0)\<rparr>)"
  "clears KStmt a (\<lambda>s. s\<lparr>stmt_data := (stmt_data s)(a := 0)\<rparr>)"
  "clears KStream a (\<lambda>s. s\<lparr>stream_data := (stream_data s)(a := (stream_data s a)\<lparr>st_private := 0\<rparr>)\<rparr>)"
  by (auto simp: clears_def priv_def split: c_kind.split)

lemma settles_detach:
  assumes get: "\<And>s. holds k s h \<Longrightarrow> \<exists>d. get h s = (Inr d, s)" and clear: "clears k a clear"
    and rest: "\<And>d. settles (releasing k h) (rest d)"
  shows "settles (\<lambda>s. (wf_capi s \<and> priv k s a = h \<and> h \<noteq> 0) \<and> inside k h s)
    (c_then (c_modify clear) (c_bind (get h) (\<lambda>d. c_then (deleteHandle h) (rest d))))"
  unfolding settles_def
proof (intro allI impI)
  fix s :: "'a capi" assume s: "(wf_capi s \<and> priv k s a = h \<and> h \<noteq> 0) \<and> inside k h s"
  have h: "holds k s h" using s by (simp add: inside_def)
  then have "holds k (clear s) h" "h \<in> live_handles s" using clear by (auto simp: holds_def clears_def)
  then obtain d where d: "get h (clear s) = (Inr d, clear s)" using get by blast
  define s2 where "s2 = (clear s)\<lparr>live_handles := live_handles (clear s) - {h}\<rparr>"
  have "priv k' s2 b = priv k' (clear s) b" for k' b by (cases k') (simp_all add: s2_def priv_def)
  then have "releasing k h s2"
    using s clear by (intro releasing_detached [where s = s and a = a]) (auto simp: s2_def clears_def)
  then have "wf_capi (snd (rest d s2)) \<and> (\<forall>e. fst (rest d s2) = Inl e \<longrightarrow> \<not> misuse e)"
    using rest [of d] unfolding settles_def by blast
  moreover have "c_then (c_modify clear) (c_bind (get h) (\<lambda>d. c_then (deleteHandle h) (rest d))) s = rest d s2"
    using \<open>h \<in> live_handles s\<close> clear d by (simp add: c_bind_def c_modify_def deleteHandle_def s2_def clears_def)
  ultimately show "wf_capi (snd (c_then (c_modify clear) (c_bind (get h) (\<lambda>d. c_then (deleteHandle h) (rest d))) s)) \<and>
      (\<forall>e. fst (c_then (c_modify clear) (c_bind (get h) (\<lambda>d. c_then (deleteHandle h) (rest d))) s) = Inl e \<longrightarrow> \<not> misuse e)"
    by simp
qed

lemma settles_releasing:
  assumes "keeps (releasing k h) m" "k = KDatabase \<or> k = KStream"
  shows "settles (releasing k h) m"
  unfolding settles_def
proof (intro allI impI)
  fix s :: "'a capi" assume "releasing k h s"
  then have m: "releasing k h (snd (m s)) \<and> (\<forall>e. fst (m s) = Inl e \<longrightarrow> \<not> misuse e)" using assms(1) unfolding keeps_def by blast
  have "ctx_of ob = None" if "kind_of ob = k" for ob using that assms(2) by (cases ob) (auto simp: kind_of_def ctx_of_def)
  then have "wf_capi (snd (m s))" using m releasing_wf by blast
  then show "wf_capi (snd (m s)) \<and> (\<forall>e. fst (m s) = Inl e \<longrightarrow> \<not> misuse e)" using m by blast
qed

lemma settles_unpoisoned:
  "settles wf_capi m \<Longrightarrow> settles wf_capi (\<lambda>s. if globalPoison s then complain fmt vals code s else m s)"
  by (simp add: settles_def wf_err)

lemma release_ops:
  assumes "tame_env env"
  shows "op_ok (QuackDatabaseRelease env p)" "op_ok (QuackConnectionRelease env p)" "op_ok (QuackStatementRelease env p)"
proof -
  show "op_ok (QuackDatabaseRelease env p)"
    unfolding QuackDatabaseRelease_def checkDBAlloc_def
    by (intro op_ok_recovering settles_check [where k = KDatabase] stable_wf data_priv settles_detach [OF database.returns] settles_releasing keep_rules assms)
      (auto intro: clears_priv simp del: fun_upd_apply)
  show "op_ok (QuackConnectionRelease env p)"
    unfolding QuackConnectionRelease_def checkConnAlloc_def
    by (intro op_ok_recovering settles_check [where k = KConn] stable_wf data_priv settles_detach [OF conn.returns] settles_release_context
        keep_rules assms) (auto intro: clears_priv simp: kind_of_def ctx_of_def simp del: fun_upd_apply)
  have rel: "settles wf_capi (c_bind (check_alloc what stmt_data p f) (\<lambda>r. case r of None \<Rightarrow> c_ret ADBC_STATUS_INVALID_STATE
       | Some h \<Rightarrow> c_then (c_modify (\<lambda>s. s\<lparr>stmt_data := (stmt_data s)(the p := 0)\<rparr>))
           (c_bind (get_stmt h) (\<lambda>st. c_then (deleteHandle h)
             (c_defer (c_then (cancelContext h) (set_object h (HStmt \<lparr>stmt_ctx = None, stmt_stmt = None\<rparr>)))
               (case stmt_stmt st of None \<Rightarrow> c_ret ADBC_STATUS_OK
                | Some x \<Rightarrow> c_bind (go_do (call_err env (Go_Close (TStatement x)))) report))))))" for what f
    by (intro settles_check [where k = KStmt] stable_wf data_priv settles_detach [OF stmt.returns] settles_release_context
        keep_rules assms) (auto intro: clears_priv simp: kind_of_def ctx_of_def simp del: fun_upd_apply)
  show "op_ok (QuackStatementRelease env p)"
    unfolding QuackStatementRelease_def checkStmtAlloc_def
    by (intro op_ok_recovering settles_unpoisoned rel)
qed

section \<open>Streams\<close>

lemma stream_handle_held:
  assumes "wf_capi s" "stream_handle stream s = Some h"
  obtains a where "stream = Some a" "priv KStream s a = h" "h \<noteq> 0" "inside KStream h s"
proof -
  obtain a where a: "stream = Some a" "priv KStream s a = h" "h \<noteq> 0"
    using assms(2) by (auto simp: stream_handle_def priv_def split: option.splits if_splits)
  then have "inside KStream h s" using holds_priv [OF assms(1), of KStream a] assms(1) by (simp add: inside_def)
  then show ?thesis using that a by blast
qed

lemma keeps_set_stream [keep_rules]: "keeps (inside KStream h) (set_object h (HStream d))"
  by (rule keeps_set_object) (auto simp: kind_of_def ctx_of_def inside_def holds_def split: c_object.splits)

lemma keeps_maybeError [keep_rules]: "tame_env env \<Longrightarrow> keeps (inside KStream h) (maybeError env h cs)"
  unfolding maybeError_def Let_def by (intro keep_rules)

text \<open>The guard of a stream function in front of the rest.\<close>

lemma settles_stream:
  assumes "\<And>a h. stream = Some a \<Longrightarrow> settles (\<lambda>s. (wf_capi s \<and> priv KStream s a = h \<and> h \<noteq> 0) \<and> inside KStream h s) (f h)"
  shows "settles wf_capi (\<lambda>s. case stream_handle stream s of None \<Rightarrow> (Inr v, s) | Some h \<Rightarrow> f h s)"
  unfolding settles_def
proof (intro allI impI)
  fix s :: "'a capi" assume wf: "wf_capi s"
  show "wf_capi (snd (case stream_handle stream s of None \<Rightarrow> (Inr v, s) | Some h \<Rightarrow> f h s)) \<and>
      (\<forall>e. fst (case stream_handle stream s of None \<Rightarrow> (Inr v, s) | Some h \<Rightarrow> f h s) = Inl e \<longrightarrow> \<not> misuse e)"
  proof (cases "stream_handle stream s")
    case None
    then show ?thesis using wf by simp
  next
    case (Some h)
    then obtain a where "stream = Some a" "priv KStream s a = h" "h \<noteq> 0" "inside KStream h s"
      using stream_handle_held [OF wf] by blast
    then show ?thesis using assms [of a h] wf Some unfolding settles_def by auto
  qed
qed

lemma settles_get_stream:
  assumes "\<And>cs. keeps (inside KStream h) (f cs)"
  shows "settles (\<lambda>s. (wf_capi s \<and> priv KStream s a = h \<and> h \<noteq> 0) \<and> inside KStream h s) (c_bind (get_stream h) f)"
  unfolding settles_def
proof (intro allI impI)
  fix s :: "'a capi" assume s: "(wf_capi s \<and> priv KStream s a = h \<and> h \<noteq> 0) \<and> inside KStream h s"
  then obtain d where d: "get_stream h s = (Inr d, s)" using get_stream_held unfolding inside_def by blast
  have "settles (inside KStream h) (f d)" by (rule keeps_settles [OF assms])
  from settles_at [where f = f and v = d and m = "get_stream h", OF this _ d]
  show "wf_capi (snd (c_bind (get_stream h) f s)) \<and> (\<forall>e. fst (c_bind (get_stream h) f s) = Inl e \<longrightarrow> \<not> misuse e)"
    using s by blast
qed

lemma stream_ops:
  assumes "tame_env env"
  shows "settles wf_capi (QuackArrayStreamGetLastError stream)" "settles wf_capi (QuackArrayStreamGetNext env stream)"
    "settles wf_capi (QuackArrayStreamGetSchema env stream)" "settles wf_capi (QuackErrorFromArrayStream stream)"
    "settles wf_capi (QuackArrayStreamRelease env stream)"
proof -
  show "settles wf_capi (QuackArrayStreamGetLastError stream)" "settles wf_capi (QuackArrayStreamGetNext env stream)"
    "settles wf_capi (QuackArrayStreamGetSchema env stream)" "settles wf_capi (QuackErrorFromArrayStream stream)"
    unfolding QuackArrayStreamGetLastError_def QuackArrayStreamGetNext_def QuackArrayStreamGetSchema_def QuackErrorFromArrayStream_def
    by (intro settles_stream settles_get_stream keep_rules assms)+
  show "settles wf_capi (QuackArrayStreamRelease env stream)"
    unfolding QuackArrayStreamRelease_def
    by (intro settles_stream settles_detach [OF stream.returns] settles_releasing keep_rules assms) (auto intro: clears_priv simp del: fun_upd_apply)
qed

section \<open>Runs\<close>

text \<open>The operations on databases, connections and statements, with their status.\<close>

inductive db_call :: "'w go_env \<Rightarrow> 'w capi \<Rightarrow> nat \<Rightarrow> 'w capi \<Rightarrow> bool" for env s where
  db_new: "QuackDatabaseNew env p s = (code, s') \<Longrightarrow> db_call env s code s'"
| db_set: "QuackDatabaseSetOption env p key v s = (code, s') \<Longrightarrow> db_call env s code s'"
| db_set_bytes: "QuackDatabaseSetOptionBytes env p key mem len s = (code, s') \<Longrightarrow> db_call env s code s'"
| db_set_double: "QuackDatabaseSetOptionDouble env p key d s = (code, s') \<Longrightarrow> db_call env s code s'"
| db_set_int: "QuackDatabaseSetOptionInt env p key i s = (code, s') \<Longrightarrow> db_call env s code s'"
| db_get: "QuackDatabaseGetOption env p key s = (code, s') \<Longrightarrow> db_call env s code s'"
| db_get_bytes: "QuackDatabaseGetOptionBytes env p key s = (code, s') \<Longrightarrow> db_call env s code s'"
| db_get_double: "QuackDatabaseGetOptionDouble env p key s = (code, s') \<Longrightarrow> db_call env s code s'"
| db_get_int: "QuackDatabaseGetOptionInt env p key s = (code, s') \<Longrightarrow> db_call env s code s'"
| db_init: "QuackDatabaseInit env p s = (code, s') \<Longrightarrow> db_call env s code s'"
| db_release: "QuackDatabaseRelease env p s = (code, s') \<Longrightarrow> db_call env s code s'"

inductive conn_call :: "'w go_env \<Rightarrow> 'w capi \<Rightarrow> nat \<Rightarrow> 'w capi \<Rightarrow> bool" for env s where
  conn_new: "QuackConnectionNew env p s = (code, s') \<Longrightarrow> conn_call env s code s'"
| conn_set: "QuackConnectionSetOption env p key v s = (code, s') \<Longrightarrow> conn_call env s code s'"
| conn_set_bytes: "QuackConnectionSetOptionBytes env p key mem len s = (code, s') \<Longrightarrow> conn_call env s code s'"
| conn_set_double: "QuackConnectionSetOptionDouble env p key d s = (code, s') \<Longrightarrow> conn_call env s code s'"
| conn_set_int: "QuackConnectionSetOptionInt env p key i s = (code, s') \<Longrightarrow> conn_call env s code s'"
| conn_get: "QuackConnectionGetOption env p key s = (code, s') \<Longrightarrow> conn_call env s code s'"
| conn_get_bytes: "QuackConnectionGetOptionBytes env p key s = (code, s') \<Longrightarrow> conn_call env s code s'"
| conn_get_double: "QuackConnectionGetOptionDouble env p key s = (code, s') \<Longrightarrow> conn_call env s code s'"
| conn_get_int: "QuackConnectionGetOptionInt env p key s = (code, s') \<Longrightarrow> conn_call env s code s'"
| conn_init: "QuackConnectionInit env p db s = (code, s') \<Longrightarrow> conn_call env s code s'"
| conn_release: "QuackConnectionRelease env p s = (code, s') \<Longrightarrow> conn_call env s code s'"
| conn_cancel: "QuackConnectionCancel env p s = (code, s') \<Longrightarrow> conn_call env s code s'"
| conn_info: "QuackConnectionGetInfo env p codes len out s = (code, s') \<Longrightarrow> conn_call env s code s'"
| conn_objects: "QuackConnectionGetObjects env p depth cat sch tab tts col out s = (code, s') \<Longrightarrow> conn_call env s code s'"
| conn_statistics: "QuackConnectionGetStatistics env p cat sch tab approx out s = (code, s') \<Longrightarrow> conn_call env s code s'"
| conn_statistic_names: "QuackConnectionGetStatisticNames env p out s = (code, s') \<Longrightarrow> conn_call env s code s'"
| conn_schema: "QuackConnectionGetTableSchema env p cat sch tab s = (code, s') \<Longrightarrow> conn_call env s code s'"
| conn_types: "QuackConnectionGetTableTypes env p out s = (code, s') \<Longrightarrow> conn_call env s code s'"
| conn_partition: "QuackConnectionReadPartition env p ser len out s = (code, s') \<Longrightarrow> conn_call env s code s'"
| conn_commit: "QuackConnectionCommit env p s = (code, s') \<Longrightarrow> conn_call env s code s'"
| conn_rollback: "QuackConnectionRollback env p s = (code, s') \<Longrightarrow> conn_call env s code s'"

inductive stmt_call :: "'w go_env \<Rightarrow> 'w capi \<Rightarrow> nat \<Rightarrow> 'w capi \<Rightarrow> bool" for env s where
  stmt_new: "QuackStatementNew env c p s = (code, s') \<Longrightarrow> stmt_call env s code s'"
| stmt_release: "QuackStatementRelease env p s = (code, s') \<Longrightarrow> stmt_call env s code s'"
| stmt_cancel: "QuackStatementCancel env p s = (code, s') \<Longrightarrow> stmt_call env s code s'"
| stmt_set: "QuackStatementSetOption env p key v s = (code, s') \<Longrightarrow> stmt_call env s code s'"
| stmt_set_bytes: "QuackStatementSetOptionBytes env p key mem len s = (code, s') \<Longrightarrow> stmt_call env s code s'"
| stmt_set_double: "QuackStatementSetOptionDouble env p key d s = (code, s') \<Longrightarrow> stmt_call env s code s'"
| stmt_set_int: "QuackStatementSetOptionInt env p key i s = (code, s') \<Longrightarrow> stmt_call env s code s'"
| stmt_get: "QuackStatementGetOption env p key s = (code, s') \<Longrightarrow> stmt_call env s code s'"
| stmt_get_bytes: "QuackStatementGetOptionBytes env p key s = (code, s') \<Longrightarrow> stmt_call env s code s'"
| stmt_get_double: "QuackStatementGetOptionDouble env p key s = (code, s') \<Longrightarrow> stmt_call env s code s'"
| stmt_get_int: "QuackStatementGetOptionInt env p key s = (code, s') \<Longrightarrow> stmt_call env s code s'"
| stmt_prepare: "QuackStatementPrepare env p s = (code, s') \<Longrightarrow> stmt_call env s code s'"
| stmt_sql: "QuackStatementSetSqlQuery env p q s = (code, s') \<Longrightarrow> stmt_call env s code s'"
| stmt_substrait: "QuackStatementSetSubstraitPlan env p plan len s = (code, s') \<Longrightarrow> stmt_call env s code s'"
| stmt_bind: "QuackStatementBind env p arr sch s = (code, s') \<Longrightarrow> stmt_call env s code s'"
| stmt_bind_stream: "QuackStatementBindStream env p stream s = (code, s') \<Longrightarrow> stmt_call env s code s'"
| stmt_parameters: "QuackStatementGetParameterSchema env p s = (code, s') \<Longrightarrow> stmt_call env s code s'"
| stmt_query: "QuackStatementExecuteQuery env p out s = (code, s') \<Longrightarrow> stmt_call env s code s'"
| stmt_schema: "QuackStatementExecuteSchema env p s = (code, s') \<Longrightarrow> stmt_call env s code s'"
| stmt_partitions: "QuackStatementExecutePartitions env p s = (code, s') \<Longrightarrow> stmt_call env s code s'"

definition adbc_call :: "'w go_env \<Rightarrow> 'w capi \<Rightarrow> nat \<Rightarrow> 'w capi \<Rightarrow> bool" where
  "adbc_call env s code s' \<longleftrightarrow> db_call env s code s' \<or> conn_call env s code s' \<or> stmt_call env s code s'"

text \<open>The callbacks of a stream that return; a panic in one ends the process, and the run.\<close>

inductive stream_call :: "'w go_env \<Rightarrow> 'w capi \<Rightarrow> 'w capi \<Rightarrow> bool" for env s where
  stream_next: "QuackArrayStreamGetNext env p s = (Inr r, s') \<Longrightarrow> stream_call env s s'"
| stream_schema: "QuackArrayStreamGetSchema env p s = (Inr r, s') \<Longrightarrow> stream_call env s s'"
| stream_last_error: "QuackArrayStreamGetLastError p s = (Inr r, s') \<Longrightarrow> stream_call env s s'"
| stream_error: "QuackErrorFromArrayStream p s = (Inr r, s') \<Longrightarrow> stream_call env s s'"
| stream_release: "QuackArrayStreamRelease env p s = (Inr r, s') \<Longrightarrow> stream_call env s s'"

text \<open>
  A run: calls, with the caller free to change its error struct and its output arguments in between.
\<close>

inductive capi_run :: "'w go_env \<Rightarrow> 'w capi \<Rightarrow> 'w capi \<Rightarrow> bool" for env s where
  start: "capi_run env s s"
| call: "capi_run env s s1 \<Longrightarrow> adbc_call env s1 code s2 \<Longrightarrow> capi_run env s s2"
| stream: "capi_run env s s1 \<Longrightarrow> stream_call env s1 s2 \<Longrightarrow> capi_run env s s2"
| caller: "capi_run env s s1 \<Longrightarrow> capi_run env s (s1\<lparr>c_err := e, c_out := out\<rparr>)"

lemma op_okD: "op_ok f \<Longrightarrow> wf_capi s \<Longrightarrow> f s = (code, s') \<Longrightarrow> wf_capi s'"
  unfolding op_ok_def by (metis snd_conv)

lemma adbc_call_wf:
  assumes "adbc_call env s code s'" "tame_env env" "wf_capi s"
  shows "wf_capi s'"
  using assms(1) unfolding adbc_call_def
proof (elim disjE)
  assume "db_call env s code s'"
  then show ?thesis
    by cases (blast intro: op_okD [OF _ assms(3)] new_ops(1) [OF assms(2)] init_ops(1,2) [OF assms(2)] db_option_ops [OF assms(2)]
      release_ops(1) [OF assms(2)])+
next
  assume "conn_call env s code s'"
  then show ?thesis
    by cases (blast intro: op_okD [OF _ assms(3)] new_ops(2) [OF assms(2)] init_ops(3,4) [OF assms(2)] conn_option_ops [OF assms(2)]
      release_ops(2) [OF assms(2)] conn_metadata_ops [OF assms(2)])+
next
  assume "stmt_call env s code s'"
  then show ?thesis
    by cases (blast intro: op_okD [OF _ assms(3)] new_ops(3) [OF assms(2)] stmt_option_ops [OF assms(2)]
      release_ops(3) [OF assms(2)] stmt_ops [OF assms(2)])+
qed

lemma stream_call_wf:
  assumes "stream_call env s s'" "tame_env env" "wf_capi s"
  shows "wf_capi s'"
  using assms(1)
proof cases
  case stream_next
  then show ?thesis using settlesD [OF stream_ops(2) [OF assms(2)] assms(3)] by blast
next
  case stream_schema
  then show ?thesis using settlesD [OF stream_ops(3) [OF assms(2)] assms(3)] by blast
next
  case stream_last_error
  then show ?thesis using settlesD [OF stream_ops(1) [OF assms(2)] assms(3)] by blast
next
  case stream_error
  then show ?thesis using settlesD [OF stream_ops(4) [OF assms(2)] assms(3)] by blast
next
  case stream_release
  then show ?thesis using settlesD [OF stream_ops(5) [OF assms(2)] assms(3)] by blast
qed

lemma capi_run_wf: "capi_run env s s' \<Longrightarrow> tame_env env \<Longrightarrow> wf_capi s \<Longrightarrow> wf_capi s'"
proof (induction rule: capi_run.induct)
  case start
  then show ?case by simp
next
  case (call s1 code s2)
  then show ?case using adbc_call_wf by blast
next
  case (stream s1 s2)
  then show ?case using stream_call_wf by blast
next
  case (caller s1 out e)
  then have "wf_capi (s1\<lparr>c_err := e\<rparr>)" by (intro wf_err) simp
  then show ?case using structural_wf [where 'a = 'a] unfolding structural_def by blast
qed

text \<open>The state of a process that has just loaded the driver.\<close>

definition capi_start :: "'w \<Rightarrow> 'w capi" where
  "capi_start w = \<lparr>globalPoison = False, objs = Map.empty, live_handles = {}, next_handle = 1, db_data = (\<lambda>_. 0), cnxn_data = (\<lambda>_. 0),
     stmt_data = (\<lambda>_. 0), stream_data = (\<lambda>_. \<lparr>st_ours = False, st_private = 0\<rparr>), next_ctx = 0, cancelled = {}, stderr_log = [],
     c_err = None, c_out = \<lparr>o_value = None, o_length = None, o_double = None, o_int = None, o_affected = None, o_schema = None,
       o_array = None, o_partitions = None, o_status = None\<rparr>, go_side = w\<rparr>"

lemma wf_capi_start: "wf_capi (capi_start w)"
  by (auto simp: capi_start_def wf_capi_def wf_handles_def wf_structs_def wf_contexts_def holds_def priv_def split: c_kind.splits)

end
