(* ===== verification/CResults.thy ===== *)
theory CResults
  imports CContracts
begin

text \<open>
  Results of the C interface: releasing everything leaves no handle and no context behind, text options are read in two
  calls, and a failed option spoils the initialization of a connection.
\<close>

section \<open>Releasing everything\<close>

lemma get_conn_run: "h \<in> live_handles s \<Longrightarrow> objs s h = Some (HConn d) \<Longrightarrow> get_conn h s = (Inr d, s)"
  by (simp add: get_conn_def handle_value_def c_bind_def c_ret_def)

lemma get_stmt_run: "h \<in> live_handles s \<Longrightarrow> objs s h = Some (HStmt d) \<Longrightarrow> get_stmt h s = (Inr d, s)"
  by (simp add: get_stmt_def handle_value_def c_bind_def c_ret_def)

lemma priv_object:
  assumes "wf_capi s" "priv k s a \<noteq> 0"
  obtains ob where "objs s (priv k s a) = Some ob" "kind_of ob = k" "priv k s a \<in> live_handles s"
  using holds_priv [OF assms] by (auto simp: holds_def)

text \<open>What a release does to the structs, whatever the state of its object, and even if closing it panics.\<close>

definition cleared :: "c_kind \<Rightarrow> nat \<Rightarrow> 'w capi \<Rightarrow> 'w capi \<Rightarrow> bool" where
  "cleared k a s s' \<longleftrightarrow> (\<forall>k' b. priv k' s' b = (if k' = k \<and> b = a then 0 else priv k' s b))"

lemma cleared_same: "priv k s a = 0 \<Longrightarrow> cleared k a s (s\<lparr>c_err := e\<rparr>)"
  by (simp add: cleared_def)

lemma database_cleared:
  assumes "wf_capi s" "\<not> globalPoison s"
  shows "cleared KDatabase a s (snd (QuackDatabaseRelease env (Some a) s))"
proof (cases "db_data s a = 0")
  case True
  then show ?thesis using assms(2) cleared_same [of KDatabase s a]
    by (simp add: QuackDatabaseRelease_def recovering_def checkDBAlloc_def c_bind_run [OF check_alloc_none] c_ret_def priv_def)
next
  case False
  define h where "h = db_data s a"
  obtain d where d: "objs s h = Some (HDatabase d)" "h \<in> live_handles s"
    using priv_object [OF assms(1), of KDatabase a] False get_database_held [of s h] by (auto simp: h_def priv_def holds_def)
  have c: "check_alloc ''database'' db_data (Some a) f s = (Inr (Some h), s)" for f
    using check_alloc_ok [of s db_data a] False assms(2) by (simp add: h_def)
  have g: "get_database h (s\<lparr>db_data := f\<rparr>) = (Inr d, s\<lparr>db_data := f\<rparr>)" for f
    using d by (intro get_database_run) simp_all
  note run = follow_simps QuackDatabaseRelease_def c g deleteHandle_def go_do_def poison_def cleared_def priv_def
  show ?thesis
  proof (cases "db_db d")
    case None
    then show ?thesis using d assms(2) by (auto simp: run split: c_kind.split)
  next
    case (Some x)
    obtain r w where "call_err env (Go_Close (TDatabase x)) (go_side s) = (r, w)" by (metis surj_pair)
    then show ?thesis using d assms(2) Some by (cases r) (auto simp: run split: c_kind.split)
  qed
qed

lemma connection_cleared:
  assumes "wf_capi s" "\<not> globalPoison s"
  shows "cleared KConn a s (snd (QuackConnectionRelease env (Some a) s))"
proof (cases "cnxn_data s a = 0")
  case True
  then show ?thesis using assms(2) cleared_same [of KConn s a]
    by (simp add: QuackConnectionRelease_def recovering_def checkConnAlloc_def c_bind_run [OF check_alloc_none] c_ret_def priv_def)
next
  case False
  define h where "h = cnxn_data s a"
  obtain d where d: "objs s h = Some (HConn d)" "h \<in> live_handles s"
    using priv_object [OF assms(1), of KConn a] False get_conn_held [of s h] by (auto simp: h_def priv_def holds_def)
  have c: "check_alloc ''connection'' cnxn_data (Some a) f s = (Inr (Some h), s)" for f
    using check_alloc_ok [of s cnxn_data a] False assms(2) by (simp add: h_def)
  have g: "get_conn h (s\<lparr>cnxn_data := f\<rparr>) = (Inr d, s\<lparr>cnxn_data := f\<rparr>)" for f
    using d by (intro get_conn_run) simp_all
  note run = follow_simps QuackConnectionRelease_def checkConnAlloc_def c g deleteHandle_def go_do_def poison_def cleared_def priv_def c_defer_def cancelContext_def ctx_of_def
  show ?thesis
  proof (cases "conn_cnxn d")
    case None
    then show ?thesis using d assms(2) by (auto simp: run split: c_kind.split)
  next
    case (Some x)
    obtain r w where "call_err env (Go_Close (TConnection x)) (go_side s) = (r, w)" by (metis surj_pair)
    then show ?thesis using d assms(2) Some by (cases r) (auto simp: run split: c_kind.split)
  qed
qed

lemma statement_cleared:
  assumes "wf_capi s" "\<not> globalPoison s"
  shows "cleared KStmt a s (snd (QuackStatementRelease env (Some a) s))"
proof (cases "stmt_data s a = 0")
  case True
  then show ?thesis using assms(2) cleared_same [of KStmt s a]
    by (simp add: QuackStatementRelease_def recovering_def checkStmtAlloc_def c_bind_run [OF check_alloc_none] c_ret_def priv_def)
next
  case False
  define h where "h = stmt_data s a"
  obtain d where d: "objs s h = Some (HStmt d)" "h \<in> live_handles s"
    using priv_object [OF assms(1), of KStmt a] False get_stmt_held [of s h] by (auto simp: h_def priv_def holds_def)
  have c: "check_alloc ''statement'' stmt_data (Some a) f s = (Inr (Some h), s)" for f
    using check_alloc_ok [of s stmt_data a] False assms(2) by (simp add: h_def)
  have g: "get_stmt h (s\<lparr>stmt_data := f\<rparr>) = (Inr d, s\<lparr>stmt_data := f\<rparr>)" for f
    using d by (intro get_stmt_run) simp_all
  note run = follow_simps QuackStatementRelease_def checkStmtAlloc_def c g deleteHandle_def go_do_def poison_def cleared_def priv_def c_defer_def cancelContext_def ctx_of_def
  show ?thesis
  proof (cases "stmt_stmt d")
    case None
    then show ?thesis using d assms(2) by (auto simp: run split: c_kind.split)
  next
    case (Some x)
    obtain r w where "call_err env (Go_Close (TStatement x)) (go_side s) = (r, w)" by (metis surj_pair)
    then show ?thesis using d assms(2) Some by (cases r) (auto simp: run split: c_kind.split)
  qed
qed

text \<open>Releasing the structs at a list of addresses.\<close>

primrec release_each :: "(nat option \<Rightarrow> 'w capi \<Rightarrow> nat \<times> 'w capi) \<Rightarrow> nat list \<Rightarrow> 'w capi \<Rightarrow> 'w capi" where
  "release_each f [] s = s"
| "release_each f (a # as) s = release_each f as (snd (f (Some a) s))"

definition release_all :: "'w go_env \<Rightarrow> nat list \<Rightarrow> nat list \<Rightarrow> nat list \<Rightarrow> 'w capi \<Rightarrow> 'w capi" where
  "release_all env dbs conns stmts s = release_each (QuackDatabaseRelease env) dbs
     (release_each (QuackConnectionRelease env) conns (release_each (QuackStatementRelease env) stmts s))"

lemma refuses_stays_poisoned: "refuses f \<Longrightarrow> globalPoison s \<Longrightarrow> globalPoison (snd (f s))"
proof -
  assume "refuses f" "globalPoison s"
  then have "snd (f s) = s\<lparr>c_err := c_err (snd (f s))\<rparr>" by (simp add: refuses_def)
  then have "globalPoison (snd (f s)) = globalPoison (s\<lparr>c_err := c_err (snd (f s))\<rparr>)" by metis
  then show ?thesis using \<open>globalPoison s\<close> by simp
qed

lemma release_each_clears:
  assumes f: "\<And>s a. wf_capi s \<Longrightarrow> \<not> globalPoison s \<Longrightarrow> cleared k a s (snd (f (Some a) s))"
      "\<And>s a. wf_capi s \<Longrightarrow> wf_capi (snd (f (Some a) s))" "\<And>a. refuses (f (Some a))"
    and s: "wf_capi s"
  shows "wf_capi (release_each f as s) \<and> (\<not> globalPoison (release_each f as s) \<longrightarrow> \<not> globalPoison s \<and>
    (\<forall>k' b. priv k' (release_each f as s) b = (if k' = k \<and> b \<in> set as then 0 else priv k' s b)))"
  using s
proof (induction as arbitrary: s)
  case (Cons a as)
  let ?s = "snd (f (Some a) s)"
  show ?case
  proof (cases "globalPoison s")
    case True
    then show ?thesis using Cons.IH [OF f(2) [OF Cons.prems, of a]] refuses_stays_poisoned [OF f(3), of s a] by auto
  next
    case False
    then show ?thesis using Cons.IH [OF f(2) [OF Cons.prems, of a]] f(1) [OF Cons.prems False, of a] by (auto simp: cleared_def)
  qed
qed simp

lemma release_all_clears:
  assumes env: "tame_env env" and s: "wf_capi s"
    and all: "\<And>a. db_data s a \<noteq> 0 \<Longrightarrow> a \<in> set dbs" "\<And>a. cnxn_data s a \<noteq> 0 \<Longrightarrow> a \<in> set conns" "\<And>a. stmt_data s a \<noteq> 0 \<Longrightarrow> a \<in> set stmts"
    and calm: "\<not> globalPoison (release_all env dbs conns stmts s)"
  shows "wf_capi (release_all env dbs conns stmts s)"
    and "k \<noteq> KStream \<Longrightarrow> priv k (release_all env dbs conns stmts s) b = 0"
proof -
  define s1 where "s1 = release_each (QuackStatementRelease env) stmts s"
  define s2 where "s2 = release_each (QuackConnectionRelease env) conns s1"
  have 1: "wf_capi s1 \<and> (\<not> globalPoison s1 \<longrightarrow> \<not> globalPoison s \<and>
      (\<forall>k' b. priv k' s1 b = (if k' = KStmt \<and> b \<in> set stmts then 0 else priv k' s b)))"
    unfolding s1_def using release_ops(3) [OF env] s
    by (intro release_each_clears statement_cleared refuses_stmt) (auto simp: op_ok_def)
  have 2: "wf_capi s2 \<and> (\<not> globalPoison s2 \<longrightarrow> \<not> globalPoison s1 \<and>
      (\<forall>k' b. priv k' s2 b = (if k' = KConn \<and> b \<in> set conns then 0 else priv k' s1 b)))"
    unfolding s2_def using release_ops(2) [OF env] 1
    by (intro release_each_clears connection_cleared refuses_conn) (auto simp: op_ok_def)
  have 3: "wf_capi (release_all env dbs conns stmts s) \<and> (\<not> globalPoison (release_all env dbs conns stmts s) \<longrightarrow> \<not> globalPoison s2 \<and>
      (\<forall>k' b. priv k' (release_all env dbs conns stmts s) b = (if k' = KDatabase \<and> b \<in> set dbs then 0 else priv k' s2 b)))"
    unfolding release_all_def s1_def [symmetric] s2_def [symmetric]
    using release_ops(1) [OF env] 2
    by (intro release_each_clears database_cleared refuses_db) (auto simp: op_ok_def)
  show "wf_capi (release_all env dbs conns stmts s)" using 3 by blast
  have z: "db_data s b = 0 \<or> b \<in> set dbs" "cnxn_data s b = 0 \<or> b \<in> set conns" "stmt_data s b = 0 \<or> b \<in> set stmts" using all by blast+
  show "k \<noteq> KStream \<Longrightarrow> priv k (release_all env dbs conns stmts s) b = 0"
    using 1 2 3 calm z by (cases k) (auto simp: priv_def [of _ s])
qed

lemma released_state:
  assumes "wf_capi s" "\<And>k b. k \<noteq> KStream \<Longrightarrow> priv k s b = 0"
  shows "holds k s h \<Longrightarrow> k = KStream" "c < next_ctx s \<Longrightarrow> c \<in> cancelled s"
proof -
  show none: "k = KStream" if h: "holds k s h" for k h
  proof (rule ccontr)
    assume k: "k \<noteq> KStream"
    obtain a where "priv k s a = h" using assms(1) k h unfolding wf_capi_def wf_structs_def by blast
    moreover have "h \<noteq> 0" using h assms(1) by (auto simp: holds_def wf_capi_def wf_handles_def)
    ultimately show False using assms(2) [OF k, of a] by simp
  qed
  show "c < next_ctx s \<Longrightarrow> c \<in> cancelled s"
  proof (rule ccontr)
    assume c: "c < next_ctx s" "c \<notin> cancelled s"
    then obtain h ob where ob: "h \<in> live_handles s" "objs s h = Some ob" "ctx_of ob = Some (Some c)"
      using assms(1) unfolding wf_capi_def wf_contexts_def owned_context_def by blast
    then have "kind_of ob = KStream" using none [of "kind_of ob" h] by (auto simp: holds_def)
    then show False using ob(3) by (cases ob) (auto simp: kind_of_def ctx_of_def)
  qed
qed

section \<open>Reading a text option\<close>

lemma export_too_small:
  assumes "o_length (c_out s) = Some n" "n \<le> int (length val)"
  shows "exportStringOption val s = (Inr ADBC_STATUS_OK, s\<lparr>c_out := (c_out s)\<lparr>o_length := Some (int (length val) + 1)\<rparr>\<rparr>)"
  using assms by (simp add: exportStringOption_def c_bind_def c_gets_def c_ret_def c_modify_def)

lemma export_fits:
  assumes "o_length (c_out s) = Some n" "int (length val) < n" "n < 2 ^ 63" "o_value (c_out s) = Some mem" "n \<le> int (length mem)"
  shows "exportStringOption val s = (Inr ADBC_STATUS_OK, s\<lparr>c_out := (c_out s)\<lparr>
    o_value := Some (val @ CHR 0x00 # drop (length val + 1) mem), o_length := Some (int (length val) + 1)\<rparr>\<rparr>)"
proof -
  have w: "wrap64 n = n" using assms(2,3) by (intro wrap64_id) simp_all
  have "fromCArr (Some mem) n s = (Inr (take (nat n) mem), s)" using assms(2) w by (simp add: fromCArr_def c_ret_def)
  moreover have "\<not> length (take (nat n) mem) \<le> length val" using assms(2,5) by simp
  ultimately show ?thesis using assms by (simp add: exportStringOption_def c_bind_def c_gets_def c_ret_def c_modify_def)
qed

text \<open>A length of \<open>2 ^ 63\<close> or more is negative as a Go \<^verbatim>\<open>int\<close>: the slice panics, and the driver is poisoned.\<close>

lemma export_huge_length:
  assumes "o_length (c_out s) = Some n" "2 ^ 63 \<le> n" "n < 2 ^ 64" "int (length val) < n" "o_value (c_out s) = Some mem"
  shows "exportStringOption val s = (Inl SliceLen, s)"
proof -
  have "wrap64 n = n - 2 ^ 64" using assms(2,3) by (intro wrap64_overflow) simp_all
  then have "wrap64 n < 0" using assms(3) by simp
  then show ?thesis using assms by (simp add: exportStringOption_def c_bind_def c_gets_def fromCArr_def c_panic_def)
qed

lemma C_CString_terminated: "C_CString (val @ CHR 0x00 # rest) = C_CString val"
  by (cases "CHR 0x00 \<in> set val") (auto simp: C_CString_def takeWhile_append takeWhile_eq_all_conv [THEN iffD2])

section \<open>The statement and the context of a query\<close>

lemma checked_stmt:
  assumes "\<not> globalPoison s" "stmt_data s a = h" "h \<noteq> 0" "h \<in> live_handles s" "objs s h = Some (HStmt d)" "stmt_stmt d = Some x"
  shows "checkStmtInit (Some a) f s = (Inr (Some (h, x)), s)"
  using check_alloc_ok [of s stmt_data a] get_stmt_run [OF assms(4,5)] assms
  by (simp add: checkStmtInit_def checkStmtAlloc_def c_bind_def c_ret_def)

lemma newContext_stmt:
  assumes "objs s h = Some (HStmt d)"
  shows "\<exists>s'. newContext h s = (Inr (next_ctx s), s') \<and> go_side s' = go_side s \<and> live_handles s' = live_handles s \<and>
    next_handle s' = next_handle s \<and> stream_data s' = stream_data s \<and> c_out s' = c_out s \<and> globalPoison s' = globalPoison s"
  using assms by (auto simp: newContext_def c_bind_def cancelContext_def ctx_of_def with_ctx_def)

section \<open>Options set before a connection is initialized\<close>

lemma connection_init_run:
  assumes s: "\<not> globalPoison s" "cnxn_data s c = h" "h \<noteq> 0" "h \<in> live_handles s" "objs s h = Some (HConn d)" "conn_cnxn d = None" "conn_initArgs d \<noteq> []"
    and db: "checkDBInit db ''AdbcConnectionInit'' s = (Inr (Some (g, y)), s)"
    and opened: "call_make env (Go_Open y) (go_side s) = (Inr (Inr x), w1)"
    and opts: "supports env PostInitOptions (TConnection x)" "range_map env (conn_initArgs d) = (k, v) # kvs"
    and fails: "call_err env (Go_SetOption (TConnection x) k (OptString v)) w1 = (Inr (Some e), w2)" "status_of (Some e) \<noteq> ADBC_STATUS_OK"
    and run: "QuackConnectionInit env (Some c) db s = (code, s')"
  shows "code = status_of (Some e)" "go_side s' = w2" "objs s' h = Some (HConn (d\<lparr>conn_cnxn := Some x\<rparr>))"
    "\<exists>s''. QuackConnectionInit env (Some c) db s' = (ADBC_STATUS_INVALID_STATE, s'') \<and> go_side s'' = w2 \<and> objs s'' = objs s'"
proof -
  have c: "check_alloc ''connection'' cnxn_data (Some c) f s = (Inr (Some h), s)" for f
    using check_alloc_ok [of s cnxn_data c] s by simp
  define s2 where "s2 = s\<lparr>go_side := w2, objs := (objs s)(h \<mapsto> HConn (d\<lparr>conn_cnxn := Some x\<rparr>)), c_err := snd (errToAdbcErr (c_err s) (Some e))\<rparr>"
  have "QuackConnectionInit env (Some c) db s = (status_of (Some e), s2)"
    using s fails(2)
    by (simp add: QuackConnectionInit_def recovering_def checkConnAlloc_def c_bind_def c get_conn_run [OF s(4,5)] with_object_def db
        go_do_def opened set_object_def c_modify_def requiring_def opts fails(1) report_status c_ret_def s2_def)
  then show r: "code = status_of (Some e)" "go_side s' = w2" "objs s' h = Some (HConn (d\<lparr>conn_cnxn := Some x\<rparr>))"
    using run by (auto simp: s2_def)
  have s': "s' = s2" using run \<open>QuackConnectionInit env (Some c) db s = (status_of (Some e), s2)\<close> by simp
  have c2: "check_alloc ''connection'' cnxn_data (Some c) f s2 = (Inr (Some h), s2)" for f
    using check_alloc_ok [of s2 cnxn_data c] s by (simp add: s2_def)
  have g2: "get_conn h s2 = (Inr (d\<lparr>conn_cnxn := Some x\<rparr>), s2)"
    using s(4) by (intro get_conn_run) (simp_all add: s2_def)
  show "\<exists>s''. QuackConnectionInit env (Some c) db s' = (ADBC_STATUS_INVALID_STATE, s'') \<and> go_side s'' = w2 \<and> objs s'' = objs s'"
    unfolding s' by (simp add: QuackConnectionInit_def recovering_def checkConnAlloc_def c_bind_def c2 g2) (simp add: s2_def)
qed

section \<open>Partitions\<close>

text \<open>The partitions a caller reads back: a slice of the block for each.\<close>

definition read_partitions :: "c_partitions \<Rightarrow> bytes list" where
  "read_partitions p = (case part_private p of None \<Rightarrow> []
     | Some mem \<Rightarrow> map2 (\<lambda>off len. take len (drop off mem)) (part_offsets p) (part_lengths p))"

lemma copy_partitions_ok:
  assumes "length ps \<le> num" "[] \<notin> set ps" "off + sum_list (map length ps) \<le> sz"
  shows "\<exists>offs. copy_partitions num sz off ps = (None, offs, map length ps, concat ps) \<and> length offs = length ps \<and>
    (\<forall>pre rest. length pre = off \<longrightarrow> map2 (\<lambda>off len. take len (drop off (pre @ concat ps @ rest))) offs (map length ps) = ps)"
  using assms
proof (induction ps arbitrary: num off)
  case (Cons p ps)
  have "0 < length p" using Cons.prems(2) by (cases p) auto
  moreover have "off + (length p + sum_list (map length ps)) \<le> sz" using Cons.prems(3) by simp
  ultimately have "off < sz" by linarith
  then have "length ps \<le> num - 1" "off + length p + sum_list (map length ps) \<le> sz" "\<not> (num = 0 \<or> sz \<le> off)"
    using Cons.prems by (auto simp: Suc_le_eq)
  moreover have "[] \<notin> set ps" using Cons.prems by simp
  ultimately obtain offs where offs: "copy_partitions (num - 1) sz (off + length p) ps = (None, offs, map length ps, concat ps)"
      "length offs = length ps"
      "\<And>pre rest. length pre = off + length p \<Longrightarrow> map2 (\<lambda>off len. take len (drop off (pre @ concat ps @ rest))) offs (map length ps) = ps"
    using Cons.IH [of "num - 1" "off + length p"] by blast
  have "map2 (\<lambda>off len. take len (drop off (pre @ p @ concat ps @ rest))) offs (map length ps) = ps" if "length pre = off" for pre rest
    using offs(3) [of "pre @ p" rest] that by simp
  then show ?case using offs(1,2) \<open>\<not> (num = 0 \<or> sz \<le> off)\<close> by auto
qed simp

lemma partitions_read_back:
  assumes "NumPartitions part = length (PartitionIDs part)" "[] \<notin> set (PartitionIDs part)" "export_partitions part s = (r, s')"
  shows "r = Inr ()" "map_option read_partitions (o_partitions (c_out s')) = Some (PartitionIDs part)"
proof -
  let ?ps = "PartitionIDs part" and ?sz = "sum_list (map length (PartitionIDs part))"
  obtain offs where o: "copy_partitions (NumPartitions part) ?sz 0 ?ps = (None, offs, map length ?ps, concat ?ps)"
      "map2 (\<lambda>off len. take len (drop off (concat ?ps @ []))) offs (map length ?ps) = ?ps"
    using copy_partitions_ok [of ?ps "NumPartitions part" 0 ?sz] assms(1,2) by (metis append_Nil le_refl list.size(3) add_0)
  show "r = Inr ()" "map_option read_partitions (o_partitions (c_out s')) = Some ?ps"
    using assms(3) o by (auto simp: export_partitions_def c_bind_def c_modify_def c_ret_def read_partitions_def length_concat)
qed

text \<open>An empty last partition has no address: the function panics, and the driver is poisoned.\<close>

lemma empty_last_partition_panics: "fst (copy_partitions 1 0 0 [[]]) = Some IndexRange" "fst (copy_partitions 2 1 0 [[b], []]) = Some IndexRange"
  by simp_all

end
