(* ===== verification/DriverApi.thy ===== *)
theory DriverApi
  imports Objects Statements
begin

text \<open>
  The rest of the public surface in \<^verbatim>\<open>driver/quack/driver.go\<close>: databases, the operations of a statement that only
  store or refuse something, the reader over a drained result, and the error values as a caller of the
  \<^verbatim>\<open>adbc\<close> interfaces sees them.
\<close>

section \<open>Databases\<close>

definition cloneMap :: "str_map \<Rightarrow> str_map" where
  "cloneMap m = fold (\<lambda>(k, v). AList.update k v) m []"

text \<open>A database is its options; closing it does nothing.\<close>

definition NewDatabase :: "str_map \<Rightarrow> str_map" where
  "NewDatabase opts = cloneMap opts"

definition Close_db :: "str_map \<Rightarrow> str_map" where
  "Close_db db = db"

lemma update_lookup: "map_of (fold (\<lambda>(k, v). AList.update k v) m acc) = map_of acc ++ map_of (rev m)"
proof (induction m arbitrary: acc)
  case (Cons kv m)
  obtain k v where kv: "kv = (k, v)" by (cases kv)
  show ?case using Cons.IH [of "AList.update k v acc"]
    by (auto simp: kv fun_eq_iff map_add_def update_conv split: option.split)
qed simp

lemma map_of_reversed: "distinct (map fst m) \<Longrightarrow> map_of (rev m) = map_of m"
  by (subst map_of_inject_set) (simp_all add: rev_map [symmetric])

lemma cloneMap_lookup:
  assumes "distinct (map fst m)"
  shows "map_of (cloneMap m) = map_of m"
proof -
  have "map_of (rev m) = map_of m" using assms by (rule map_of_reversed)
  then show ?thesis by (simp add: cloneMap_def update_lookup)
qed

lemma SetOptions_lookup:
  assumes "distinct (map fst new)"
  shows "map_of (SetOptions_db new opts) = map_of opts ++ map_of new"
  using map_of_reversed [OF assms] by (simp add: SetOptions_db_def update_lookup)

section \<open>Statements\<close>

definition Prepare :: "statement \<Rightarrow> drv_error + statement" where
  "Prepare st = Inr st"

definition SetSubstraitPlan :: "bytes \<Rightarrow> statement \<Rightarrow> drv_error + statement" where
  "SetSubstraitPlan plan st = Inl (errStatus StatusNotImplemented ''Substrait'')"

definition GetParameterSchema :: "statement \<Rightarrow> drv_error + arrow_field list" where
  "GetParameterSchema st = Inl (errStatus StatusNotImplemented ''GetParameterSchema'')"

definition Bind :: "arrow_batch \<Rightarrow> statement \<Rightarrow> drv_error + statement" where
  "Bind rec st = Inr (bindBatch rec st)"

definition BindStream :: "arrow_stream \<Rightarrow> statement \<Rightarrow> drv_error + statement" where
  "BindStream rs st = Inr (bindStream rs st)"

definition ExecutePartitions :: "statement \<Rightarrow> drv_error + 'p" where
  "ExecutePartitions st = Inl (errStatus StatusNotImplemented ''ExecutePartitions'')"

definition ReadPartition :: "bytes \<Rightarrow> ('w, 'r) conn_op" where
  "ReadPartition part = cfail (errStatus StatusNotImplemented ''ReadPartition'')"

section \<open>A reader over a drained result\<close>

text \<open>
  \<^verbatim>\<open>buildRecordReader\<close>, which nothing calls any more: the number of rows, the schema and the records.
  \<^verbatim>\<open>array.NewRecordReader\<close> refuses records of another schema, as in \<open>executeBoundQuery\<close>.
\<close>

definition buildRecordReader :: "arrow_lib \<Rightarrow> go_lib \<Rightarrow> drainedResult \<Rightarrow> (go_error + int \<times> arrow_field list \<times> arrow_record list) outcome" where
  "buildRecordReader alib lib result =
     outcome_bind (SchemaFromColumns alib (ColumnNames result) (ColumnTypes result)) (\<lambda>schema.
     let chunks = filter (\<lambda>c. RowCount c \<noteq> 0) (Chunks result) in
     outcome_bind (collect (RecordFromChunk alib lib (ColumnNames result)) chunks) (\<lambda>r. Done (case r of
         Inl e \<Rightarrow> Inl (errorf e)
       | Inr recs \<Rightarrow> if list_all (\<lambda>r. rec_Fields r = schema) recs then Inr (count_rows chunks 0, schema, recs)
           else Inl (errorf (SchemaMismatch alib)))))"

lemma collect_all: "(\<And>x. x \<in> set xs \<Longrightarrow> f x = Done (Inr (g x))) \<Longrightarrow> collect f xs = Done (Inr (map g xs))"
  by (induction xs) simp_all

text \<open>The records are those the streaming reader delivers for the same chunks (\<open>read_records_chunks\<close>).\<close>

lemma buildRecordReader_records:
  assumes "SchemaFromColumns alib (ColumnNames result) (ColumnTypes result) = Done schema"
    and "\<And>x. x \<in> set (Chunks result) \<Longrightarrow> RowCount x \<noteq> 0 \<Longrightarrow>
      RecordFromChunk alib lib (ColumnNames result) x = Done (Inr (conv x)) \<and> rec_Fields (conv x) = schema"
  shows "buildRecordReader alib lib result = Done (Inr (count_rows (filter (\<lambda>c. RowCount c \<noteq> 0) (Chunks result)) 0, schema,
    map conv (filter (\<lambda>c. RowCount c \<noteq> 0) (Chunks result))))"
  using assms collect_all [of "filter (\<lambda>c. RowCount c \<noteq> 0) (Chunks result)" "RecordFromChunk alib lib (ColumnNames result)" conv]
  by (simp add: buildRecordReader_def list_all_iff Let_def)

section \<open>The metadata calls\<close>

definition GetInfo :: "string option \<Rightarrow> 'w transport \<Rightarrow> nat \<Rightarrow> nat list \<Rightarrow> ('w, (nat \<times> info_value) list) conn_op" where
  "GetInfo build_version send n codes = getInfoImpl build_version send n codes"

definition GetObjects :: "string map_order \<Rightarrow> (string \<times> constraintColumnUsage) map_order \<Rightarrow> 'w transport \<Rightarrow> nat
    \<Rightarrow> nat \<Rightarrow> string option \<Rightarrow> string option \<Rightarrow> string option \<Rightarrow> string option \<Rightarrow> string list \<Rightarrow> ('w, getObjectsInfo list) conn_op" where
  "GetObjects opk ofk send n depth catalog dbSchema tableName columnName tableTypes =
     getObjectsImpl opk ofk send n depth catalog dbSchema tableName columnName tableTypes"

definition GetTableSchema :: "arrow_lib \<Rightarrow> 'w transport \<Rightarrow> nat \<Rightarrow> string option \<Rightarrow> string option \<Rightarrow> string \<Rightarrow> ('w, arrow_field list) conn_op" where
  "GetTableSchema alib send n catalog dbSchema tableName = getTableSchemaImpl alib send n catalog dbSchema tableName"

definition GetTableTypes :: "('w, arrow_record) conn_op" where
  "GetTableTypes = cret getTableTypesImpl"

section \<open>Errors\<close>

text \<open>The codes of \<^verbatim>\<open>adbc.Status\<close>, which are those of \<^verbatim>\<open>adbc.h\<close>.\<close>

primrec status_code :: "adbc_status \<Rightarrow> nat" where
  "status_code StatusNotImplemented = 2"
| "status_code StatusNotFound = 3"
| "status_code StatusAlreadyExists = 4"
| "status_code StatusInvalidArgument = 5"
| "status_code StatusInvalidState = 6"
| "status_code StatusInternal = 9"
| "status_code StatusIO = 10"

lemma status_code_inj: "status_code a = status_code b \<longleftrightarrow> a = b"
  by (cases a; cases b) simp_all

lemma status_code_errors: "status_code a \<notin> {0, 1}"
  by (cases a) simp_all

text \<open>\<^verbatim>\<open>errStatus(adbc.StatusInvalidArgument, "quack: %v", err)\<close> for an error of \<^verbatim>\<open>ParseURI\<close>.\<close>

definition adbc_form :: "drv_error \<Rightarrow> (nat \<times> string) + string" where
  "adbc_form e = (case e of
       AdbcError code msg \<Rightarrow> Inl (status_code code, msg)
     | BadURI e \<Rightarrow> Inl (status_code StatusInvalidArgument, ''quack: '' @ uri_error_text e)
     | GoError e \<Rightarrow> Inr (e_text e))"

end
