(* ===== verification/CDriver.thy ===== *)
theory CDriver
  imports CResults DriverApi
begin

text \<open>
  The Go side of the C interface as it really is: the parameter \<open>go_env\<close> of the C theories given by the driver of
  \<^verbatim>\<open>driver/quack\<close>.  The objects live on a heap \<open>drv\<close> and are numbers, as in \<open>go_env\<close>: databases, connections with
  the URI they were opened with, statements with their connection, record readers with theirs.  All connections
  share the network \<open>'w\<close>.  The readers and imports of the Arrow library are third-party code with a state \<open>'x\<close>
  of its own, a parameter like the network.

  A call that panics leaves the heap as it was before: nothing reads it again, since the C interface is poisoned
  then.  A call that exceeds the bound \<open>dp_fuel\<close> on fetches counts as not returning, which \<open>go_fun\<close> cannot express:
  it appears as the panic \<open>no_return\<close>.  Contexts are not followed into the driver: in Go a request of a cancelled
  context fails.
\<close>

section \<open>The heap\<close>

datatype drv_reader = QuackReader nat streamingRecordReader | LibReader nat

record ('w, 'x) drv =
  dv_next :: nat
  dv_dbs :: "nat \<rightharpoonup> str_map"
  dv_conns :: "nat \<rightharpoonup> QuackURI \<times> 'w connection"
  dv_stmts :: "nat \<rightharpoonup> nat \<times> statement"
  dv_readers :: "nat \<rightharpoonup> drv_reader"
  dv_schemas :: "nat \<rightharpoonup> arrow_field list"
  dv_batches :: "nat \<rightharpoonup> arrow_record option"
  dv_inputs :: "nat \<rightharpoonup> arrow_batch"
  dv_streams :: "nat \<rightharpoonup> arrow_stream"
  dv_net :: 'w
  dv_lib :: 'x

text \<open>What the driver hands to the Arrow library to make a reader of; the loops over its builders are in \<open>MetadataRecords\<close>.\<close>

datatype reader_source =
    Source_Records "arrow_field list" "arrow_record list"
  | Source_Info "(nat \<times> info_value) list"
  | Source_Objects "getObjectsInfo list"

text \<open>
  The parameters: the host, the libraries, the HTTP client of a transport, the bound on fetches, the orders of the
  Go maps, the build version, and the Arrow library (a failed call gives the text of its error).
\<close>

record ('w, 'x) drv_params =
  dp_host :: host_env
  dp_libs :: libs
  dp_net :: "HTTPTransport \<Rightarrow> 'w net"
  dp_fuel :: nat
  dp_pk_order :: "string map_order"
  dp_fk_order :: "(string \<times> constraintColumnUsage) map_order"
  dp_version :: "string option"
  dp_range :: "options \<Rightarrow> options"
  dp_show :: "go_panic \<Rightarrow> string"
  dp_log :: string
  lib_reader :: "reader_source \<Rightarrow> ('x, string + nat) go_fun"
  lib_Next :: "nat \<Rightarrow> ('x, bool) go_fun"
  lib_Batch :: "nat \<Rightarrow> ('x, arrow_record option) go_fun"
  lib_Err :: "nat \<Rightarrow> ('x, string option) go_fun"
  lib_Schema :: "nat \<Rightarrow> ('x, arrow_field list option) go_fun"
  lib_effect :: "go_effect \<Rightarrow> ('x, unit) go_fun"
  lib_import_batch :: "nat \<Rightarrow> nat \<Rightarrow> ('x, string + arrow_batch) go_fun"
  lib_import_stream :: "nat \<Rightarrow> ('x, string + arrow_stream) go_fun"

section \<open>Go functions on a state\<close>

definition go_ret :: "'a \<Rightarrow> ('d, 'a) go_fun" where
  "go_ret v = (\<lambda>d. (Inr v, d))"

definition go_throw :: "go_panic \<Rightarrow> ('d, 'a) go_fun" where
  "go_throw e = (\<lambda>d. (Inl e, d))"

definition go_bind :: "('d, 'a) go_fun \<Rightarrow> ('a \<Rightarrow> ('d, 'b) go_fun) \<Rightarrow> ('d, 'b) go_fun" where
  "go_bind f g = (\<lambda>d. case f d of (Inl e, d) \<Rightarrow> (Inl e, d) | (Inr v, d) \<Rightarrow> g v d)"

definition go_update :: "('d \<Rightarrow> 'd) \<Rightarrow> ('d, unit) go_fun" where
  "go_update f = (\<lambda>d. (Inr (), f d))"

text \<open>A nil object is dereferenced.\<close>

definition the_object :: "('d \<Rightarrow> nat \<rightharpoonup> 'o) \<Rightarrow> nat \<Rightarrow> ('d, 'o) go_fun" where
  "the_object sel k = (\<lambda>d. case sel d k of None \<Rightarrow> (Inl NilDeref, d) | Some ob \<Rightarrow> (Inr ob, d))"

text \<open>A new object.\<close>

definition allocate :: "(nat \<Rightarrow> ('w, 'x) drv \<Rightarrow> ('w, 'x) drv) \<Rightarrow> (('w, 'x) drv, nat) go_fun" where
  "allocate put = (\<lambda>d. (Inr (dv_next d), put (dv_next d) (d\<lparr>dv_next := dv_next d + 1\<rparr>)))"

definition new_database :: "str_map \<Rightarrow> (('w, 'x) drv, nat) go_fun" where
  "new_database ob = allocate (\<lambda>n d. d\<lparr>dv_dbs := (dv_dbs d)(n \<mapsto> ob)\<rparr>)"

definition new_connection :: "QuackURI \<times> 'w connection \<Rightarrow> (('w, 'x) drv, nat) go_fun" where
  "new_connection ob = allocate (\<lambda>n d. d\<lparr>dv_conns := (dv_conns d)(n \<mapsto> ob)\<rparr>)"

definition new_statement :: "nat \<times> statement \<Rightarrow> (('w, 'x) drv, nat) go_fun" where
  "new_statement ob = allocate (\<lambda>n d. d\<lparr>dv_stmts := (dv_stmts d)(n \<mapsto> ob)\<rparr>)"

definition new_reader :: "drv_reader \<Rightarrow> (('w, 'x) drv, nat) go_fun" where
  "new_reader ob = allocate (\<lambda>n d. d\<lparr>dv_readers := (dv_readers d)(n \<mapsto> ob)\<rparr>)"

definition new_schema :: "arrow_field list \<Rightarrow> (('w, 'x) drv, nat) go_fun" where
  "new_schema ob = allocate (\<lambda>n d. d\<lparr>dv_schemas := (dv_schemas d)(n \<mapsto> ob)\<rparr>)"

definition new_batch :: "arrow_record option \<Rightarrow> (('w, 'x) drv, nat) go_fun" where
  "new_batch ob = allocate (\<lambda>n d. d\<lparr>dv_batches := (dv_batches d)(n \<mapsto> ob)\<rparr>)"

definition new_input :: "arrow_batch \<Rightarrow> (('w, 'x) drv, nat) go_fun" where
  "new_input ob = allocate (\<lambda>n d. d\<lparr>dv_inputs := (dv_inputs d)(n \<mapsto> ob)\<rparr>)"

definition new_stream :: "arrow_stream \<Rightarrow> (('w, 'x) drv, nat) go_fun" where
  "new_stream ob = allocate (\<lambda>n d. d\<lparr>dv_streams := (dv_streams d)(n \<mapsto> ob)\<rparr>)"

definition set_statement :: "nat \<Rightarrow> nat \<times> statement \<Rightarrow> (('w, 'x) drv, unit) go_fun" where
  "set_statement x ob = go_update (\<lambda>d. d\<lparr>dv_stmts := (dv_stmts d)(x \<mapsto> ob)\<rparr>)"

definition set_reader :: "nat \<Rightarrow> drv_reader \<Rightarrow> (('w, 'x) drv, unit) go_fun" where
  "set_reader x ob = go_update (\<lambda>d. d\<lparr>dv_readers := (dv_readers d)(x \<mapsto> ob)\<rparr>)"

text \<open>A call of the Arrow library.\<close>

definition on_lib :: "('x, 'a) go_fun \<Rightarrow> (('w, 'x) drv, 'a) go_fun" where
  "on_lib f = (\<lambda>d. case f (dv_lib d) of (r, x) \<Rightarrow> (r, d\<lparr>dv_lib := x\<rparr>))"

section \<open>Connections\<close>

definition no_return :: go_panic where "no_return = GoPanicked ''no return''"
definition driver_panic :: go_panic where "driver_panic = GoPanicked ''panic in the driver''"

definition send_of :: "('w, 'x) drv_params \<Rightarrow> QuackURI \<Rightarrow> 'w transport" where
  "send_of P u = Send (l_go (dp_libs P)) (dp_net P (NewHTTPTransport u)) u"

text \<open>A connection with the network as it is now.\<close>

definition at_net :: "'w \<Rightarrow> 'w connection \<Rightarrow> 'w connection" where
  "at_net w c = c\<lparr>sess := (sess c)\<lparr>s_world := w\<rparr>\<rparr>"

definition on_conn :: "('w, 'x) drv_params \<Rightarrow> nat \<Rightarrow> ('w transport \<Rightarrow> 'w connection \<Rightarrow> ('a \<times> 'w connection) outcome)
    \<Rightarrow> (('w, 'x) drv, 'a) go_fun" where
  "on_conn P k f = go_bind (the_object dv_conns k) (\<lambda>(u, c) d. case f (send_of P u) (at_net (dv_net d) c) of
       Done (r, c) \<Rightarrow> (Inr r, d\<lparr>dv_conns := (dv_conns d)(k \<mapsto> (u, c)), dv_net := s_world (sess c)\<rparr>)
     | Panic \<Rightarrow> (Inl driver_panic, d)
     | OutOfFuel \<Rightarrow> (Inl no_return, d))"

definition on_stmt :: "('w, 'x) drv_params \<Rightarrow> nat \<Rightarrow> ('w transport \<Rightarrow> 'w connection \<Rightarrow> statement \<Rightarrow> ('a \<times> 'w connection \<times> statement) outcome)
    \<Rightarrow> (('w, 'x) drv, 'a) go_fun" where
  "on_stmt P x f = go_bind (the_object dv_stmts x) (\<lambda>(k, st).
     go_bind (on_conn P k (\<lambda>send c. outcome_bind (f send c st) (\<lambda>(r, c, st). Done ((r, st), c)))) (\<lambda>(r, st).
     go_bind (set_statement x (k, st)) (\<lambda>_. go_ret r)))"

text \<open>An operation of a statement alone: an error leaves it as it was.\<close>

definition api_error_of :: "drv_error \<Rightarrow> api_error" where
  "api_error_of e = (case adbc_form e of
       Inl (code, msg) \<Rightarrow> AsAdbcError \<lparr>ae_Msg = msg, ae_Code = code, ae_VendorCode = 0, ae_SqlState = replicate 5 (CHR 0x00), ae_Details = []\<rparr>
     | Inr msg \<Rightarrow> PlainError msg)"

definition on_stmt_pure :: "nat \<Rightarrow> (statement \<Rightarrow> drv_error + statement) \<Rightarrow> (('w, 'x) drv, api_error option) go_fun" where
  "on_stmt_pure x f = go_bind (the_object dv_stmts x) (\<lambda>(k, st). case f st of
       Inl e \<Rightarrow> go_ret (Some (api_error_of e))
     | Inr st \<Rightarrow> go_bind (set_statement x (k, st)) (\<lambda>_. go_ret None))"

definition err_result :: "drv_error + unit \<Rightarrow> api_error option" where
  "err_result r = (case r of Inl e \<Rightarrow> Some (api_error_of e) | Inr _ \<Rightarrow> None)"

definition make_result :: "('a \<Rightarrow> ('d, nat) go_fun) \<Rightarrow> drv_error + 'a \<Rightarrow> ('d, api_error + nat) go_fun" where
  "make_result mk r = (case r of Inl e \<Rightarrow> go_ret (Inl (api_error_of e)) | Inr v \<Rightarrow> go_bind (mk v) (\<lambda>n. go_ret (Inr n)))"

text \<open>A reader that the library makes.\<close>

definition library_reader :: "('w, 'x) drv_params \<Rightarrow> reader_source \<Rightarrow> (('w, 'x) drv, api_error + nat) go_fun" where
  "library_reader P src = go_bind (on_lib (lib_reader P src)) (\<lambda>r. case r of
       Inl msg \<Rightarrow> go_ret (Inl (PlainError msg))
     | Inr k \<Rightarrow> go_bind (new_reader (LibReader k)) (\<lambda>n. go_ret (Inr n)))"

definition reader_result :: "('w, 'x) drv_params \<Rightarrow> ('a \<Rightarrow> reader_source) \<Rightarrow> drv_error + 'a \<Rightarrow> (('w, 'x) drv, api_error + nat) go_fun" where
  "reader_result P src r = (case r of Inl e \<Rightarrow> go_ret (Inl (api_error_of e)) | Inr v \<Rightarrow> library_reader P (src v))"

section \<open>The calls\<close>

text \<open>A method that the driver's types do not have; the C interface asks for it before it calls (\<open>supports\<close>).\<close>

definition no_method :: "('d, 'a) go_fun" where
  "no_method = go_throw (GoPanicked ''no such method'')"

definition drv_supports :: "go_iface \<Rightarrow> go_target \<Rightarrow> bool" where
  "drv_supports iface target = (case (iface, target) of (PostInitOptions, TConnection _) \<Rightarrow> True | _ \<Rightarrow> False)"

text \<open>\<^verbatim>\<open>adbc.ObjectDepth(depth)\<close>: a number that is none of the constants acts as the depth of tables.\<close>

definition object_depth :: "int \<Rightarrow> nat" where
  "object_depth depth = (if depth < 0 then ObjectDepthTables else nat depth)"

fun drv_err :: "('w, 'x) drv_params \<Rightarrow> go_call \<Rightarrow> (('w, 'x) drv, api_error option) go_fun" where
  "drv_err P (Go_Close (TDatabase x)) = go_bind (the_object dv_dbs x) (\<lambda>db.
     go_bind (go_update (\<lambda>d. d\<lparr>dv_dbs := (dv_dbs d)(x \<mapsto> Close_db db)\<rparr>)) (\<lambda>_. go_ret None))"
| "drv_err P (Go_Close (TConnection k)) = go_bind (on_conn P k (\<lambda>send. Close_conn send (dp_fuel P))) (\<lambda>r. go_ret (err_result r))"
| "drv_err P (Go_Close (TStatement x)) = on_stmt_pure x (\<lambda>st. Inr (Close_stmt st))"
| "drv_err P (Go_SetOption (TConnection k) key (OptString v)) =
     go_bind (on_conn P k (\<lambda>send. SetOption_conn send (dp_fuel P) key v)) (\<lambda>r. go_ret (err_result r))"
| "drv_err P (Go_SetOption (TStatement x) key (OptString v)) = on_stmt_pure x (SetOption_stmt key v)"
| "drv_err P (Go_SetOption target key v) = no_method"
| "drv_err P (Go_Commit k ctx) = go_bind (on_conn P k (\<lambda>send. Commit send (dp_fuel P))) (\<lambda>r. go_ret (err_result r))"
| "drv_err P (Go_Rollback k ctx) = go_bind (on_conn P k (\<lambda>send. Rollback send (dp_fuel P))) (\<lambda>r. go_ret (err_result r))"
| "drv_err P (Go_Prepare x ctx) = on_stmt_pure x Prepare"
| "drv_err P (Go_SetSqlQuery x sql) = on_stmt_pure x (\<lambda>st. Inr (SetSqlQuery sql st))"
| "drv_err P (Go_SetSubstraitPlan x plan) = on_stmt_pure x (SetSubstraitPlan plan)"
| "drv_err P (Go_Bind x ctx rec) = go_bind (the_object dv_inputs rec) (\<lambda>b. on_stmt_pure x (Bind b))"
| "drv_err P (Go_BindStream x ctx rdr) = go_bind (the_object dv_streams rdr) (\<lambda>rs. on_stmt_pure x (BindStream rs))"

text \<open>\<^verbatim>\<open>Open\<close> of a database: the session runs on the shared network.\<close>

definition drv_open :: "('w, 'x) drv_params \<Rightarrow> nat \<Rightarrow> (('w, 'x) drv, api_error + nat) go_fun" where
  "drv_open P x = go_bind (the_object dv_dbs x) (\<lambda>opts d. case Open (dp_host P) (l_go (dp_libs P)) (dp_net P) opts (dv_net d) of
       Done (r, w) \<Rightarrow> make_result new_connection r (d\<lparr>dv_net := w\<rparr>)
     | Panic \<Rightarrow> (Inl driver_panic, d)
     | OutOfFuel \<Rightarrow> (Inl no_return, d))"

primrec drv_make :: "('w, 'x) drv_params \<Rightarrow> go_make \<Rightarrow> (('w, 'x) drv, api_error + nat) go_fun" where
  "drv_make P (Go_NewDatabase opts) = go_bind (new_database (NewDatabase (dp_range P opts))) (\<lambda>n. go_ret (Inr n))"
| "drv_make P (Go_Open x) = drv_open P x"
| "drv_make P (Go_NewStatement k) = go_bind (the_object dv_conns k) (\<lambda>_. go_bind (new_statement (k, NewStatement)) (\<lambda>n. go_ret (Inr n)))"
| "drv_make P (Go_GetInfo k ctx codes) =
     go_bind (on_conn P k (\<lambda>send. GetInfo (dp_version P) send (dp_fuel P) (map unat codes))) (reader_result P Source_Info)"
| "drv_make P (Go_GetObjects k ctx depth cat sch tab col types) =
     go_bind (on_conn P k (\<lambda>send. GetObjects (dp_pk_order P) (dp_fk_order P) send (dp_fuel P) (object_depth depth) cat sch tab col
       (case types of None \<Rightarrow> [] | Some ts \<Rightarrow> ts))) (reader_result P Source_Objects)"
| "drv_make P (Go_GetStatistics k ctx cat sch tab approx) = no_method"
| "drv_make P (Go_GetStatisticNames k ctx) = no_method"
| "drv_make P (Go_GetTableSchema k ctx cat sch tab) =
     go_bind (on_conn P k (\<lambda>send. GetTableSchema (l_arrow (dp_libs P)) send (dp_fuel P) cat sch tab)) (make_result new_schema)"
| "drv_make P (Go_GetTableTypes k ctx) =
     go_bind (on_conn P k (\<lambda>send. GetTableTypes)) (reader_result P (\<lambda>rec. Source_Records (rec_Fields rec) [rec]))"
| "drv_make P (Go_ReadPartition k ctx part) =
     go_bind (on_conn P k (\<lambda>send. ReadPartition part)) (make_result new_reader)"
| "drv_make P (Go_ExecuteSchema x ctx) = no_method"
| "drv_make P (Go_GetParameterSchema x) = go_bind (the_object dv_stmts x) (\<lambda>(k, st). make_result new_schema (GetParameterSchema st))"
| "drv_make P (Go_ImportRecordBatch arr schema) = go_bind (on_lib (lib_import_batch P arr schema)) (\<lambda>r. case r of
       Inl msg \<Rightarrow> go_ret (Inl (PlainError msg))
     | Inr b \<Rightarrow> go_bind (new_input b) (\<lambda>n. go_ret (Inr n)))"
| "drv_make P (Go_ImportRecordReader arr) = go_bind (on_lib (lib_import_stream P arr)) (\<lambda>r. case r of
       Inl msg \<Rightarrow> go_ret (Inl (PlainError msg))
     | Inr rs \<Rightarrow> go_bind (new_stream rs) (\<lambda>n. go_ret (Inr n)))"

text \<open>The reference count of a reader; the memory of records and C arrays is the library's.\<close>

definition count_reference :: "('w, 'x) drv_params \<Rightarrow> (streamingRecordReader \<Rightarrow> streamingRecordReader) \<Rightarrow> go_effect \<Rightarrow> nat \<Rightarrow> (('w, 'x) drv, unit) go_fun" where
  "count_reference P f e n = go_bind (the_object dv_readers n) (\<lambda>rd. case rd of
       QuackReader k rr \<Rightarrow> set_reader n (QuackReader k (f rr))
     | LibReader j \<Rightarrow> on_lib (lib_effect P (case e of Rdr_Retain _ \<Rightarrow> Rdr_Retain j | _ \<Rightarrow> Rdr_Release j)))"

definition drv_effect :: "('w, 'x) drv_params \<Rightarrow> go_effect \<Rightarrow> (('w, 'x) drv, unit) go_fun" where
  "drv_effect P e = (case e of
       Rdr_Retain n \<Rightarrow> count_reference P Retain e n
     | Rdr_Release n \<Rightarrow> count_reference P Release e n
     | Set_Logger x level \<Rightarrow> no_method
     | _ \<Rightarrow> on_lib (lib_effect P e))"

definition drv_update :: "('w, 'x) drv_params \<Rightarrow> nat \<Rightarrow> nat \<Rightarrow> (('w, 'x) drv, api_error + int) go_fun" where
  "drv_update P x ctx = go_bind (on_stmt P x (\<lambda>send. ExecuteUpdate (dp_libs P) send (dp_fuel P))) (\<lambda>r. go_ret (map_sum api_error_of id r))"

text \<open>The number of rows of a query is unknown.\<close>

definition drv_query :: "('w, 'x) drv_params \<Rightarrow> nat \<Rightarrow> nat \<Rightarrow> (('w, 'x) drv, api_error + nat \<times> int) go_fun" where
  "drv_query P x ctx = go_bind (the_object dv_stmts x) (\<lambda>(k, _).
     go_bind (on_stmt P x (\<lambda>send. ExecuteQuery (dp_libs P) send (dp_fuel P))) (\<lambda>r.
     go_bind (case r of
         Inl e \<Rightarrow> go_ret (Inl (api_error_of e))
       | Inr (Streaming rr) \<Rightarrow> go_bind (new_reader (QuackReader k rr)) (\<lambda>n. go_ret (Inr n))
       | Inr (Records schema recs) \<Rightarrow> library_reader P (Source_Records schema recs)) (\<lambda>r.
     go_ret (map_sum id (\<lambda>n. (n, -1)) r))))"

definition drv_partitions :: "('w, 'x) drv_params \<Rightarrow> nat \<Rightarrow> nat \<Rightarrow> (('w, 'x) drv, api_error + nat option \<times> go_partitions \<times> int) go_fun" where
  "drv_partitions P x ctx = go_bind (the_object dv_stmts x) (\<lambda>(k, st). go_ret (map_sum api_error_of id (ExecutePartitions st)))"

definition next_op :: "('w, 'x) drv_params \<Rightarrow> streamingRecordReader \<Rightarrow> 'w transport \<Rightarrow> 'w connection \<Rightarrow> ((bool \<times> streamingRecordReader) \<times> 'w connection) outcome" where
  "next_op P rr send c = outcome_bind (Next (l_arrow (dp_libs P)) (l_go (dp_libs P)) send (dp_fuel P) rr (sess c))
     (\<lambda>(r, s). Done (r, c\<lparr>sess := s\<rparr>))"

definition drv_Next :: "('w, 'x) drv_params \<Rightarrow> nat \<Rightarrow> (('w, 'x) drv, bool) go_fun" where
  "drv_Next P n = go_bind (the_object dv_readers n) (\<lambda>rd. case rd of
       LibReader j \<Rightarrow> on_lib (lib_Next P j)
     | QuackReader k rr \<Rightarrow> go_bind (on_conn P k (next_op P rr)) (\<lambda>(b, rr).
         go_bind (set_reader n (QuackReader k rr)) (\<lambda>_. go_ret b)))"

definition drv_Batch :: "('w, 'x) drv_params \<Rightarrow> nat \<Rightarrow> (('w, 'x) drv, nat) go_fun" where
  "drv_Batch P n = go_bind (the_object dv_readers n) (\<lambda>rd. case rd of
       LibReader j \<Rightarrow> go_bind (on_lib (lib_Batch P j)) new_batch
     | QuackReader k rr \<Rightarrow> new_batch (RecordBatch rr))"

definition drv_Err :: "('w, 'x) drv_params \<Rightarrow> nat \<Rightarrow> (('w, 'x) drv, api_error option) go_fun" where
  "drv_Err P n = go_bind (the_object dv_readers n) (\<lambda>rd. case rd of
       LibReader j \<Rightarrow> go_bind (on_lib (lib_Err P j)) (\<lambda>e. go_ret (map_option PlainError e))
     | QuackReader k rr \<Rightarrow> go_ret (map_option (\<lambda>e. PlainError (e_text e)) (reader_Err rr)))"

definition drv_Schema :: "('w, 'x) drv_params \<Rightarrow> nat \<Rightarrow> (('w, 'x) drv, nat option) go_fun" where
  "drv_Schema P n = go_bind (the_object dv_readers n) (\<lambda>rd. case rd of
       LibReader j \<Rightarrow> go_bind (on_lib (lib_Schema P j)) (\<lambda>sc. case sc of None \<Rightarrow> go_ret None | Some sc \<Rightarrow> go_bind (new_schema sc) (\<lambda>m. go_ret (Some m)))
     | QuackReader k rr \<Rightarrow> go_bind (new_schema (reader_Schema rr)) (\<lambda>m. go_ret (Some m)))"

definition driver_env :: "('w, 'x) drv_params \<Rightarrow> ('w, 'x) drv go_env" where
  "driver_env P = \<lparr>call_err = drv_err P, call_make = drv_make P, call_effect = drv_effect P, call_update = drv_update P,
     call_query = drv_query P, call_partitions = drv_partitions P,
     get_option = (\<lambda>target key. no_method), get_bytes = (\<lambda>target key. no_method),
     get_double = (\<lambda>target key. no_method), get_int = (\<lambda>target key. no_method),
     rdr_Next = drv_Next P, rdr_RecordBatch = drv_Batch P, rdr_Err = drv_Err P, rdr_Schema = drv_Schema P,
     supports = drv_supports, range_map = dp_range P, show_panic = dp_show P, logLevelEnv = dp_log P\<rparr>"

end
