(* ===== verification/CTame.thy ===== *)
theory CTame
  imports CDriver
begin

text \<open>
  The C interface over the driver: no call of the driver panics with the misuse of a handle, which is what the
  invariant of the C interface asks of its Go side, and the options that the driver does not have are refused.
\<close>

lemma driver_env_calls [simp]:
  "call_err (driver_env P) = drv_err P" "call_make (driver_env P) = drv_make P" "call_effect (driver_env P) = drv_effect P"
  "call_update (driver_env P) = drv_update P" "call_query (driver_env P) = drv_query P"
  "rdr_Next (driver_env P) = drv_Next P" "rdr_RecordBatch (driver_env P) = drv_Batch P" "rdr_Err (driver_env P) = drv_Err P"
  "rdr_Schema (driver_env P) = drv_Schema P" "supports (driver_env P) = drv_supports"
  by (simp_all add: driver_env_def)

section \<open>The driver misuses no handle\<close>

named_theorems tame_rules \<open>rules deriving that a Go function panics with no misuse of a handle\<close>

definition lib_tame :: "('w, 'x) drv_params \<Rightarrow> bool" where
  "lib_tame P \<longleftrightarrow> (\<forall>src. tame (lib_reader P src)) \<and> (\<forall>j. tame (lib_Next P j)) \<and> (\<forall>j. tame (lib_Batch P j)) \<and> (\<forall>j. tame (lib_Err P j)) \<and>
     (\<forall>j. tame (lib_Schema P j)) \<and> (\<forall>e. tame (lib_effect P e)) \<and> (\<forall>a s. tame (lib_import_batch P a s)) \<and> (\<forall>a. tame (lib_import_stream P a))"

lemma tame_libs [tame_rules]:
  assumes "lib_tame P"
  shows "tame (lib_reader P src)" "tame (lib_Next P j)" "tame (lib_Batch P j)" "tame (lib_Err P j)" "tame (lib_Schema P j)"
    "tame (lib_effect P e)" "tame (lib_import_batch P a s)" "tame (lib_import_stream P a)"
  using assms by (auto simp: lib_tame_def)

lemma tame_basic [tame_rules]:
  "tame (go_ret v)" "tame (go_update f)" "tame (allocate put)" "tame (the_object sel k)" "tame (no_method :: ('d, 'a) go_fun)"
  by (auto simp: tame_def go_ret_def go_update_def allocate_def the_object_def no_method_def go_throw_def misuse_def split: option.splits)

lemma tame_bind [tame_rules]: "tame f \<Longrightarrow> (\<And>v. tame (g v)) \<Longrightarrow> tame (go_bind f g)"
  by (auto simp: tame_def go_bind_def split: prod.splits sum.splits) (metis fst_conv)+

lemma tame_on_lib [tame_rules]: "tame f \<Longrightarrow> tame (on_lib f)"
  by (auto simp: tame_def on_lib_def split: prod.splits) (metis fst_conv)

lemma tame_fail: "\<not> misuse no_return" "\<not> misuse driver_panic"
  by (simp_all add: misuse_def no_return_def driver_panic_def)

lemma tame_outcome [tame_rules]:
  "tame (\<lambda>d. case f d of Done (r, c) \<Rightarrow> (Inr r, g d c) | Panic \<Rightarrow> (Inl driver_panic, d) | OutOfFuel \<Rightarrow> (Inl no_return, d))"
  by (auto simp: tame_def tame_fail split: outcome.splits)

lemma tame_new [tame_rules]:
  "tame (new_database a)" "tame (new_connection b)" "tame (new_statement c)" "tame (new_reader rd)" "tame (new_schema sc)"
  "tame (new_batch rec)" "tame (new_input i)" "tame (new_stream rs)" "tame (set_statement x ob)" "tame (set_reader x rd)"
  by (simp_all add: new_database_def new_connection_def new_statement_def new_reader_def new_schema_def new_batch_def new_input_def
      new_stream_def set_statement_def set_reader_def tame_basic)

lemma tame_case [tame_rules]:
  "(\<And>a b. tame (f a b)) \<Longrightarrow> tame (case p of (a, b) \<Rightarrow> f a b)"
  "(\<And>e. tame (l e)) \<Longrightarrow> (\<And>v. tame (r v)) \<Longrightarrow> tame (case x of Inl e \<Rightarrow> l e | Inr v \<Rightarrow> r v)"
  "tame n \<Longrightarrow> (\<And>v. tame (s v)) \<Longrightarrow> tame (case y of None \<Rightarrow> n | Some v \<Rightarrow> s v)"
  "(\<And>k rr. tame (q k rr)) \<Longrightarrow> (\<And>j. tame (w j)) \<Longrightarrow> tame (case rd of QuackReader k rr \<Rightarrow> q k rr | LibReader j \<Rightarrow> w j)"
  "(\<And>rr. tame (g rr)) \<Longrightarrow> (\<And>sc rs. tame (h sc rs)) \<Longrightarrow> tame (case qr of Streaming rr \<Rightarrow> g rr | Records sc rs \<Rightarrow> h sc rs)"
  by (simp_all split: prod.split sum.split option.split drv_reader.split query_reader.split)

lemma tame_on_conn [tame_rules]: "tame (on_conn P k f)"
  unfolding on_conn_def by (intro tame_rules)

lemma tame_on_stmt [tame_rules]: "tame (on_stmt P x f)" "tame (on_stmt_pure x h)"
  unfolding on_stmt_def on_stmt_pure_def by (intro tame_rules)+

lemma tame_make_result [tame_rules]: "(\<And>v. tame (mk v)) \<Longrightarrow> tame (make_result mk r)"
  unfolding make_result_def by (intro tame_rules)

lemma tame_reader_result [tame_rules]: "lib_tame P \<Longrightarrow> tame (library_reader P src)" "lib_tame P \<Longrightarrow> tame (reader_result P f r)"
  unfolding reader_result_def library_reader_def by (intro tame_rules; assumption)+

lemma tame_open: "tame (drv_open P x)"
  unfolding drv_open_def
proof (intro tame_rules)
  fix opts
  have "tame (make_result new_connection r)" for r :: "drv_error + QuackURI \<times> 'a connection" by (intro tame_rules)
  then show "tame (\<lambda>d. case Open (dp_host P) (l_go (dp_libs P)) (dp_net P) opts (dv_net d) of
       Done (r, w) \<Rightarrow> make_result new_connection r (d\<lparr>dv_net := w\<rparr>)
     | Panic \<Rightarrow> (Inl driver_panic, d) | OutOfFuel \<Rightarrow> (Inl no_return, d))"
    by (auto simp: tame_def tame_fail split: outcome.splits)
qed

lemma tame_err: "tame (drv_err P c)"
  by (cases "(P, c)" rule: drv_err.cases) (simp_all, (intro tame_rules)+)

lemma tame_make: "lib_tame P \<Longrightarrow> tame (drv_make P m)"
  by (cases m) (simp_all add: tame_open, (intro tame_rules; assumption)+)

lemma tame_rest:
  assumes "lib_tame P"
  shows "tame (drv_effect P e)" "tame (drv_update P x ctx)" "tame (drv_query P x ctx)" "tame (drv_partitions P x ctx)"
    "tame (drv_Next P n)" "tame (drv_Batch P n)" "tame (drv_Err P n)" "tame (drv_Schema P n)"
  unfolding drv_update_def drv_query_def drv_partitions_def drv_Next_def drv_Batch_def drv_Err_def drv_Schema_def
  subgoal
    unfolding drv_effect_def count_reference_def by (cases e) (simp_all, (intro tame_rules assms)+)
  by (intro tame_rules assms)+

lemma driver_tame: "lib_tame P \<Longrightarrow> tame_env (driver_env P)"
  by (simp add: tame_env_def driver_env_def tame_err tame_make tame_rest tame_basic)

section \<open>Operations the driver does not have\<close>

lemma drv_supports_simps [simp]:
  "\<not> drv_supports GetSetOptions t" "\<not> drv_supports StatementExecuteSchema t" "\<not> drv_supports ConnectionGetStatistics t"
  "\<not> drv_supports DatabaseLogging t" "drv_supports PostInitOptions t \<longleftrightarrow> (\<exists>k. t = TConnection k)"
  by (cases t; simp add: drv_supports_def)+

text \<open>An operation behind the check for an interface: refused with a text, and nothing but the error struct changes.\<close>

definition unsupported :: "('w capi \<Rightarrow> nat \<times> 'w capi) \<Rightarrow> string \<Rightarrow> 'w capi \<Rightarrow> bool" where
  "unsupported f msg s \<longleftrightarrow> f s = (ADBC_STATUS_NOT_IMPLEMENTED, s\<lparr>c_err := setErr (c_err s) msg []\<rparr>)"

lemma unsupported_op:
  assumes "check s = (Inr (Some (h, x)), s)" "\<not> supports env iface (target x)"
  shows "unsupported (recovering env fname (with_object check (\<lambda>h x. requiring env iface (target x) msg (body h x)))) msg s"
  using assms by (simp add: unsupported_def recovering_def with_object_def c_bind_def requiring_def complain_def set_error_def c_modify_def c_ret_def)

lemma database_options_unsupported:
  assumes "\<And>f. checkDBInit p f s = (Inr (Some (h, x)), s)"
  shows "unsupported (QuackDatabaseGetOption (driver_env P) p key) (''AdbcDatabaseGetOption'' @ '': options are not supported'') s"
    "unsupported (QuackDatabaseGetOptionBytes (driver_env P) p key) (''AdbcDatabaseGetOptionBytes'' @ '': options are not supported'') s"
    "unsupported (QuackDatabaseGetOptionDouble (driver_env P) p key) (''AdbcDatabaseGetOptionDouble'' @ '': options are not supported'') s"
    "unsupported (QuackDatabaseGetOptionInt (driver_env P) p key) (''AdbcDatabaseGetOptionInt'' @ '': options are not supported'') s"
    "unsupported (QuackDatabaseSetOptionBytes (driver_env P) p key mem len) (''AdbcDatabaseSetOptionBytes'' @ '': options are not supported'') s"
    "unsupported (QuackDatabaseSetOptionDouble (driver_env P) p key d) (''AdbcDatabaseSetOptionDouble'' @ '': options are not supported'') s"
    "unsupported (QuackDatabaseSetOptionInt (driver_env P) p key i) (''AdbcDatabaseSetOptionInt'' @ '': options are not supported'') s"
  unfolding QuackDatabaseGetOption_def QuackDatabaseGetOptionBytes_def QuackDatabaseGetOptionDouble_def QuackDatabaseGetOptionInt_def
    QuackDatabaseSetOptionBytes_def QuackDatabaseSetOptionDouble_def QuackDatabaseSetOptionInt_def option_ops
  by (rule unsupported_op, rule assms, simp)+

lemma connection_options_unsupported:
  assumes "\<And>f. checkConnInit p f s = (Inr (Some (h, x)), s)"
  shows "unsupported (QuackConnectionGetOption (driver_env P) p key) (''AdbcConnectionGetOption'' @ '': options are not supported'') s"
    "unsupported (QuackConnectionGetOptionBytes (driver_env P) p key) (''AdbcConnectionGetOptionBytes'' @ '': options are not supported'') s"
    "unsupported (QuackConnectionGetOptionDouble (driver_env P) p key) (''AdbcConnectionGetOptionDouble'' @ '': options are not supported'') s"
    "unsupported (QuackConnectionGetOptionInt (driver_env P) p key) (''AdbcConnectionGetOptionInt'' @ '': options are not supported'') s"
    "unsupported (QuackConnectionSetOptionBytes (driver_env P) p key mem len) (''AdbcConnectionSetOptionBytes'' @ '': options are not supported'') s"
    "unsupported (QuackConnectionSetOptionDouble (driver_env P) p key d) (''AdbcConnectionSetOptionDouble'' @ '': options are not supported'') s"
    "unsupported (QuackConnectionSetOptionInt (driver_env P) p key i) (''AdbcConnectionSetOptionInt'' @ '': options are not supported'') s"
    "unsupported (QuackConnectionGetStatistics (driver_env P) p cat sch tab approx out) ''AdbcConnectionGetStatistics: not supported'' s"
    "unsupported (QuackConnectionGetStatisticNames (driver_env P) p out) ''AdbcConnectionGetStatistics: not supported'' s"
  unfolding QuackConnectionGetOption_def QuackConnectionGetOptionBytes_def QuackConnectionGetOptionDouble_def QuackConnectionGetOptionInt_def
    QuackConnectionSetOptionBytes_def QuackConnectionSetOptionDouble_def QuackConnectionSetOptionInt_def QuackConnectionGetStatistics_def QuackConnectionGetStatisticNames_def option_ops
  by (rule unsupported_op, rule assms, simp)+

lemma statement_options_unsupported:
  assumes "\<And>f. checkStmtInit p f s = (Inr (Some (h, x)), s)"
  shows "unsupported (QuackStatementGetOption (driver_env P) p key) (''AdbcStatementGetOption'' @ '': options are not supported'') s"
    "unsupported (QuackStatementGetOptionBytes (driver_env P) p key) (''AdbcStatementGetOptionBytes'' @ '': options are not supported'') s"
    "unsupported (QuackStatementGetOptionDouble (driver_env P) p key) (''AdbcStatementGetOptionDouble'' @ '': options are not supported'') s"
    "unsupported (QuackStatementGetOptionInt (driver_env P) p key) (''AdbcStatementGetOptionInt'' @ '': options are not supported'') s"
    "unsupported (QuackStatementSetOptionBytes (driver_env P) p key mem len) (''AdbcStatementSetOptionBytes'' @ '': options are not supported'') s"
    "unsupported (QuackStatementSetOptionDouble (driver_env P) p key d) (''AdbcStatementSetOptionDouble'' @ '': options are not supported'') s"
    "unsupported (QuackStatementSetOptionInt (driver_env P) p key i) (''AdbcStatementSetOptionInt'' @ '': options are not supported'') s"
    "unsupported (QuackStatementExecuteSchema (driver_env P) p) ''AdbcStatementExecuteSchema: not supported'' s"
  unfolding QuackStatementGetOption_def QuackStatementGetOptionBytes_def QuackStatementGetOptionDouble_def QuackStatementGetOptionInt_def
    QuackStatementSetOptionBytes_def QuackStatementSetOptionDouble_def QuackStatementSetOptionInt_def QuackStatementExecuteSchema_def option_ops
  by (rule unsupported_op, rule assms, simp)+

end
