(* ===== verification/CQuery.thy ===== *)
theory CQuery
  imports CTame
begin

text \<open>
  A query through the C interface over the driver: a consumer of the C stream sees what a consumer of the record
  reader sees, up to the text of its error; executing a statement and reading its stream gives the records of the
  non-empty chunks in order; releasing the stream closes the cursor; an error of the server reaches the caller.
\<close>

section \<open>Reading a stream\<close>

text \<open>
  A consumer of a C stream: it calls \<open>GetNext\<close> until an error or the end of the stream (a released array), and collects
  the batches.  \<open>None\<close> is a consumer that has not finished after \<open>k\<close> calls.
\<close>

primrec read_stream :: "'w go_env \<Rightarrow> nat \<Rightarrow> nat option \<Rightarrow> ('w, c_errno option \<times> nat list) capi_m" where
  "read_stream env 0 p = c_ret (None, [])"
| "read_stream env (Suc k) p = c_bind (QuackArrayStreamGetNext env p) (\<lambda>e.
     if e \<noteq> E_OK then c_ret (Some e, [])
     else c_bind (c_gets (\<lambda>s. o_array (c_out s))) (\<lambda>b. case b of
         Some (Some n) \<Rightarrow> c_bind (read_stream env k p) (\<lambda>(r, ns). c_ret (r, n # ns))
       | _ \<Rightarrow> c_ret (Some E_OK, [])))"

text \<open>
  The stream at address \<open>a\<close> reads with handle \<open>h\<close> from reader \<open>n\<close> of the driver, which is \<open>rr\<close> and reads over
  connection \<open>k\<close>, whose session is \<open>se\<close>.
\<close>

definition reads_from :: "nat \<Rightarrow> nat \<Rightarrow> nat \<Rightarrow> nat \<Rightarrow> QuackURI \<Rightarrow> streamingRecordReader \<Rightarrow> 'w session \<Rightarrow> ('w, 'x) drv capi \<Rightarrow> bool" where
  "reads_from a h n k u rr se s \<longleftrightarrow> stream_handle (Some a) s = Some h \<and> h \<in> live_handles s \<and>
     (\<exists>cs. objs s h = Some (HStream cs) \<and> cs_rdr cs = n) \<and>
     dv_readers (go_side s) n = Some (QuackReader k rr) \<and>
     (\<exists>c. dv_conns (go_side s) k = Some (u, c) \<and> sess (at_net (dv_net (go_side s)) c) = se)"

lemma get_stream_run: "h \<in> live_handles s \<Longrightarrow> objs s h = Some (HStream cs) \<Longrightarrow> get_stream h s = (Inr cs, s)"
  by (simp add: get_stream_def handle_value_def c_bind_def c_ret_def)

lemmas go_defs = go_bind_def go_ret_def the_object_def go_update_def

lemma drv_Next_run:
  assumes "dv_readers d n = Some (QuackReader k rr)" "dv_conns d k = Some (u, c)"
    and "Next (l_arrow (dp_libs P)) (l_go (dp_libs P)) (send_of P u) (dp_fuel P) rr (sess (at_net (dv_net d) c)) = Done ((b, rr1), s1)"
  shows "drv_Next P n d = (Inr b, d\<lparr>dv_conns := (dv_conns d)(k \<mapsto> (u, (at_net (dv_net d) c)\<lparr>sess := s1\<rparr>)), dv_net := s_world s1,
    dv_readers := (dv_readers d)(n \<mapsto> QuackReader k rr1)\<rparr>)"
  using assms by (simp add: drv_Next_def on_conn_def go_defs next_op_def set_reader_def)

text \<open>One call of \<open>GetNext\<close> is one call of the reader's \<open>Next\<close>.\<close>

lemma GetNext_Next:
  assumes r: "reads_from a h n k u rr se s"
    and nx: "Next (l_arrow (dp_libs P)) (l_go (dp_libs P)) (send_of P u) (dp_fuel P) rr se = Done ((b, rr1), s1)"
  obtains cs d' where "objs s h = Some (HStream cs)" "cs_rdr cs = n"
    "QuackArrayStreamGetNext (driver_env P) (Some a) s =
      (if b then c_then (export_array (Some (dv_next (go_side s)))) (c_ret E_OK) (s\<lparr>go_side := d'\<lparr>dv_next := dv_next (go_side s) + 1,
           dv_batches := (dv_batches (go_side s))(dv_next (go_side s) \<mapsto> rr_current rr1)\<rparr>\<rparr>)
       else c_then (export_array None) (maybeError (driver_env P) h cs) (s\<lparr>go_side := d'\<rparr>))"
    "dv_readers d' n = Some (QuackReader k rr1)" "\<exists>c. dv_conns d' k = Some (u, c) \<and> sess (at_net (dv_net d') c) = s1"
    "dv_next d' = dv_next (go_side s)" "dv_batches d' = dv_batches (go_side s)"
proof -
  obtain cs c where c: "objs s h = Some (HStream cs)" "cs_rdr cs = n" "dv_conns (go_side s) k = Some (u, c)"
      "sess (at_net (dv_net (go_side s)) c) = se" "dv_readers (go_side s) n = Some (QuackReader k rr)"
      "stream_handle (Some a) s = Some h" "h \<in> live_handles s"
    using r by (auto simp: reads_from_def)
  define d' where "d' = (go_side s)\<lparr>dv_conns := (dv_conns (go_side s))(k \<mapsto> (u, (at_net (dv_net (go_side s)) c)\<lparr>sess := s1\<rparr>)), dv_net := s_world s1,
    dv_readers := (dv_readers (go_side s))(n \<mapsto> QuackReader k rr1)\<rparr>"
  have run: "drv_Next P n (go_side s) = (Inr b, d')"
    unfolding d'_def by (rule drv_Next_run [OF c(5,3)]) (simp add: c(4) nx)
  have rd: "dv_readers d' n = Some (QuackReader k rr1)" by (simp add: d'_def)
  have "QuackArrayStreamGetNext (driver_env P) (Some a) s =
      (if b then c_then (export_array (Some (dv_next (go_side s)))) (c_ret E_OK) (s\<lparr>go_side := d'\<lparr>dv_next := dv_next (go_side s) + 1,
           dv_batches := (dv_batches (go_side s))(dv_next (go_side s) \<mapsto> rr_current rr1)\<rparr>\<rparr>)
       else c_then (export_array None) (maybeError (driver_env P) h cs) (s\<lparr>go_side := d'\<rparr>))"
    using run rd
    by (cases b) (simp_all add: QuackArrayStreamGetNext_def c(2,6) get_stream_run [OF c(7,1)] c_bind_def go_do_def
        drv_Batch_def go_defs new_batch_def allocate_def RecordBatch_def, simp_all add: d'_def)
  moreover have "\<exists>c. dv_conns d' k = Some (u, c) \<and> sess (at_net (dv_net d') c) = s1"
    by (simp add: d'_def at_net_def)
  ultimately show ?thesis using c(1,2) rd by (intro that [of cs d']) (simp_all add: d'_def)
qed

lemma reads_from_kept:
  assumes "reads_from a h n k u rr se s"
    and "stream_data s' = stream_data s" "live_handles s' = live_handles s" "\<exists>cs. objs s' h = Some (HStream cs) \<and> cs_rdr cs = n"
    and "dv_readers (go_side s') n = Some (QuackReader k rr1)"
    and "\<exists>c. dv_conns (go_side s') k = Some (u, c) \<and> sess (at_net (dv_net (go_side s')) c) = s1"
  shows "reads_from a h n k u rr1 s1 s'"
proof -
  have "stream_handle (Some a) s' = stream_handle (Some a) s" using assms(2) by (simp add: stream_handle_def)
  then show ?thesis using assms by (simp add: reads_from_def)
qed

text \<open>The end of a result: a released array, and the error of the reader if it has one.\<close>

definition stream_error :: "nat \<Rightarrow> 'w capi \<Rightarrow> c_error option" where
  "stream_error h s = (case objs s h of Some (HStream cs) \<Rightarrow> cs_adbcErr cs | _ \<Rightarrow> None)"

definition reader_error :: "c_error option \<Rightarrow> string \<Rightarrow> c_error option" where
  "reader_error old msg = setErr (Some ((case old of Some x \<Rightarrow> QuackerrRelease x | None \<Rightarrow> zero_c_error)
     \<lparr>ce_vendor_code := ADBC_ERROR_VENDOR_CODE_PRIVATE_DATA\<rparr>)) msg []"

lemma GetNext_batch:
  assumes r: "reads_from a h n k u rr se s"
    and nx: "Next (l_arrow (dp_libs P)) (l_go (dp_libs P)) (send_of P u) (dp_fuel P) rr se = Done ((True, rr1), s1)"
  shows "\<exists>s'. QuackArrayStreamGetNext (driver_env P) (Some a) s = (Inr E_OK, s') \<and> reads_from a h n k u rr1 s1 s' \<and>
    o_array (c_out s') = Some (Some (dv_next (go_side s))) \<and> dv_next (go_side s') = dv_next (go_side s) + 1 \<and>
    dv_batches (go_side s') = (dv_batches (go_side s))(dv_next (go_side s) \<mapsto> rr_current rr1) \<and> stream_error h s' = stream_error h s"
  using r nx
proof (rule GetNext_Next)
  fix cs :: cArrayStream and d' :: "('a, 'b) drv"
  let ?d = "d'\<lparr>dv_next := dv_next (go_side s) + 1, dv_batches := (dv_batches (go_side s))(dv_next (go_side s) \<mapsto> rr_current rr1)\<rparr>"
  let ?s = "s\<lparr>go_side := ?d, c_out := (c_out s)\<lparr>o_array := Some (Some (dv_next (go_side s)))\<rparr>\<rparr>"
  assume d: "objs s h = Some (HStream cs)" "cs_rdr cs = n" "dv_readers d' n = Some (QuackReader k rr1)"
      "\<exists>c. dv_conns d' k = Some (u, c) \<and> sess (at_net (dv_net d') c) = s1"
    and g: "QuackArrayStreamGetNext (driver_env P) (Some a) s =
      (if True then c_then (export_array (Some (dv_next (go_side s)))) (c_ret E_OK) (s\<lparr>go_side := ?d\<rparr>)
       else c_then (export_array None) (maybeError (driver_env P) h cs) (s\<lparr>go_side := d'\<rparr>))"
  have "QuackArrayStreamGetNext (driver_env P) (Some a) s = (Inr E_OK, ?s)"
    using g by (simp add: c_bind_def export_array_def c_modify_def c_ret_def)
  moreover have "reads_from a h n k u rr1 s1 ?s" by (rule reads_from_kept [OF r]) (use d in simp_all)
  ultimately show ?thesis by (intro exI [of _ ?s]) (simp add: stream_error_def)
qed

lemma GetNext_end:
  assumes r: "reads_from a h n k u rr se s"
    and nx: "Next (l_arrow (dp_libs P)) (l_go (dp_libs P)) (send_of P u) (dp_fuel P) rr se = Done ((False, rr1), s1)"
  shows "\<exists>s'. QuackArrayStreamGetNext (driver_env P) (Some a) s = (Inr (if rr_err rr1 = None then E_OK else EIO), s') \<and>
    reads_from a h n k u rr1 s1 s' \<and> o_array (c_out s') = Some None \<and> dv_batches (go_side s') = dv_batches (go_side s) \<and>
    stream_error h s' = (case rr_err rr1 of None \<Rightarrow> stream_error h s | Some e \<Rightarrow> reader_error (stream_error h s) (e_text e))"
  using r nx
proof (rule GetNext_Next)
  fix cs :: cArrayStream and d' :: "('a, 'b) drv"
  let ?s = "s\<lparr>go_side := d', c_out := (c_out s)\<lparr>o_array := Some None\<rparr>\<rparr>"
  assume d: "objs s h = Some (HStream cs)" "cs_rdr cs = n" "dv_readers d' n = Some (QuackReader k rr1)"
      "\<exists>c. dv_conns d' k = Some (u, c) \<and> sess (at_net (dv_net d') c) = s1"
      "dv_next d' = dv_next (go_side s)" "dv_batches d' = dv_batches (go_side s)"
    and g: "QuackArrayStreamGetNext (driver_env P) (Some a) s =
      (if False then c_then (export_array (Some (dv_next (go_side s)))) (c_ret E_OK) (s\<lparr>go_side := d'\<lparr>dv_next := dv_next (go_side s) + 1,
           dv_batches := (dv_batches (go_side s))(dv_next (go_side s) \<mapsto> rr_current rr1)\<rparr>\<rparr>)
       else c_then (export_array None) (maybeError (driver_env P) h cs) (s\<lparr>go_side := d'\<rparr>))"
  have err: "drv_Err P n d' = (Inr (map_option (\<lambda>e. PlainError (e_text e)) (rr_err rr1)), d')"
    using d(3) by (simp add: drv_Err_def go_defs reader_Err_def)
  show ?thesis
  proof (cases "rr_err rr1")
    case None
    have "QuackArrayStreamGetNext (driver_env P) (Some a) s = (Inr E_OK, ?s)"
      using g d(2) err None by (simp add: c_bind_def export_array_def c_modify_def c_ret_def maybeError_def go_do_def)
    moreover have "reads_from a h n k u rr1 s1 ?s" by (rule reads_from_kept [OF r]) (use d in simp_all)
    ultimately show ?thesis using None d by (intro exI [of _ ?s]) (simp add: stream_error_def)
  next
    case (Some e)
    let ?cs = "cs\<lparr>cs_adbcErr := reader_error (cs_adbcErr cs) (e_text e), cs_status := ADBC_STATUS_UNKNOWN\<rparr>"
    let ?s2 = "?s\<lparr>objs := (objs s)(h \<mapsto> HStream ?cs)\<rparr>"
    have "QuackArrayStreamGetNext (driver_env P) (Some a) s = (Inr EIO, ?s2)"
      using g d(2) err Some
      by (simp add: c_bind_def export_array_def c_modify_def c_ret_def maybeError_def go_do_def errToAdbcErr_def set_object_def
          errno_of_status_def reader_error_def)
    moreover have "reads_from a h n k u rr1 s1 ?s2" by (rule reads_from_kept [OF r]) (use d in simp_all)
    ultimately show ?thesis using Some d by (intro exI [of _ ?s2]) (simp add: stream_error_def)
  qed
qed

text \<open>
  A consumer of the C stream sees what a consumer of the reader sees: the batches are the records of \<open>read_records\<close>,
  in order, and the error of the reader, if it has one, is the errno EIO with its text.
\<close>

lemma read_stream_records:
  assumes "read_records (l_arrow (dp_libs P)) (l_go (dp_libs P)) (send_of P u) (dp_fuel P) m rr se = Done ((rs, rr'), se')"
    and "reads_from a h n k u rr se s"
  shows "\<exists>ns s'. read_stream (driver_env P) m (Some a) s = (Inr (Some (if rr_err rr' = None then E_OK else EIO), ns), s') \<and>
    reads_from a h n k u rr' se' s' \<and> map (dv_batches (go_side s')) ns = map Some rs \<and>
    (\<forall>i < dv_next (go_side s). dv_batches (go_side s') i = dv_batches (go_side s) i) \<and>
    stream_error h s' = (case rr_err rr' of None \<Rightarrow> stream_error h s | Some e \<Rightarrow> reader_error (stream_error h s) (e_text e))"
  using assms
proof (induction m arbitrary: rr se rs s)
  case (Suc m)
  obtain b rr1 s1 where nx: "Next (l_arrow (dp_libs P)) (l_go (dp_libs P)) (send_of P u) (dp_fuel P) rr se = Done ((b, rr1), s1)"
    using Suc.prems(1) by (auto simp: outcome_bind_eq_Done)
  show ?case
  proof (cases b)
    case False
    then have e: "rs = []" "rr' = rr1" "se' = s1" using Suc.prems(1) nx by simp_all
    have nx: "Next (l_arrow (dp_libs P)) (l_go (dp_libs P)) (send_of P u) (dp_fuel P) rr se = Done ((False, rr1), s1)" using nx False by simp
    show ?thesis using e GetNext_end [OF Suc.prems(2) nx]
      by (cases "rr_err rr1") (auto simp: c_bind_def c_ret_def c_gets_def)
  next
    case True
    then obtain rs1 where rs: "read_records (l_arrow (dp_libs P)) (l_go (dp_libs P)) (send_of P u) (dp_fuel P) m rr1 s1 = Done ((rs1, rr'), se')"
        "rs = rr_current rr1 # rs1"
      using Suc.prems(1) nx by (auto simp: outcome_bind_eq_Done)
    obtain s2 where s2: "QuackArrayStreamGetNext (driver_env P) (Some a) s = (Inr E_OK, s2)" "reads_from a h n k u rr1 s1 s2"
        "o_array (c_out s2) = Some (Some (dv_next (go_side s)))" "dv_next (go_side s2) = dv_next (go_side s) + 1"
        "dv_batches (go_side s2) = (dv_batches (go_side s))(dv_next (go_side s) \<mapsto> rr_current rr1)" "stream_error h s2 = stream_error h s"
      using GetNext_batch [OF Suc.prems(2), of P rr1 s1] nx True by auto
    obtain ns s' where i: "read_stream (driver_env P) m (Some a) s2 = (Inr (Some (if rr_err rr' = None then E_OK else EIO), ns), s')"
        "reads_from a h n k u rr' se' s'" "map (dv_batches (go_side s')) ns = map Some rs1"
        "\<forall>i < dv_next (go_side s2). dv_batches (go_side s') i = dv_batches (go_side s2) i"
        "stream_error h s' = (case rr_err rr' of None \<Rightarrow> stream_error h s2 | Some e \<Rightarrow> reader_error (stream_error h s2) (e_text e))"
      using Suc.IH [OF rs(1) s2(2)] by blast
    have "dv_batches (go_side s') (dv_next (go_side s)) = Some (rr_current rr1)" using i(4) s2(4,5) by simp
    moreover have "dv_batches (go_side s') j = dv_batches (go_side s) j" if "j < dv_next (go_side s)" for j
      using i(4) s2(4,5) that by simp
    moreover have "read_stream (driver_env P) (Suc m) (Some a) s =
        (Inr (Some (if rr_err rr' = None then E_OK else EIO), dv_next (go_side s) # ns), s')"
      using s2(1,3) i(1) by (simp add: c_bind_def c_ret_def c_gets_def)
    ultimately show ?thesis using i(2,3) i(5) [unfolded s2(6)] rs(2) by (intro exI [of _ "dv_next (go_side s) # ns"] exI [of _ s']) simp
  qed
qed simp

section \<open>Executing a query\<close>

text \<open>A query with a stream: what the caller's stream and the driver's heap hold afterwards.\<close>

lemma execute_query_run:
  assumes s: "\<not> globalPoison s" "stmt_data s a = h" "h \<noteq> 0" "h \<in> live_handles s" "objs s h = Some (HStmt d)" "stmt_stmt d = Some x"
    and q: "call_query env x (next_ctx s) (go_side s) = (Inr (Inr (rdr, n)), w)"
    and e: "call_effect env (Rdr_Retain rdr) w = (Inr (), w1)" "call_effect env (Rdr_Release rdr) w1 = (Inr (), w2)"
    and fresh: "next_handle s \<noteq> 0"
  shows "\<exists>s'. QuackStatementExecuteQuery env (Some a) (Some out) s = (ADBC_STATUS_OK, s') \<and> go_side s' = w2 \<and>
    stream_handle (Some out) s' = Some (next_handle s) \<and> next_handle s \<in> live_handles s' \<and>
    objs s' (next_handle s) = Some (HStream \<lparr>cs_rdr = rdr, cs_adbcErr = None, cs_status = ADBC_STATUS_OK\<rparr>) \<and> \<not> globalPoison s'"
proof -
  obtain s1 where s1: "newContext h s = (Inr (next_ctx s), s1)" "go_side s1 = go_side s" "live_handles s1 = live_handles s"
      "next_handle s1 = next_handle s" "stream_data s1 = stream_data s" "c_out s1 = c_out s" "globalPoison s1 = globalPoison s"
    using newContext_stmt [OF s(5)] by blast
  define s2 where "s2 = (s1\<lparr>go_side := w\<rparr>)\<lparr>c_out := (case o_affected (c_out s) of None \<Rightarrow> c_out s | Some _ \<Rightarrow> (c_out s)\<lparr>o_affected := Some n\<rparr>)\<rparr>"
  have aff: "export_affected n (s1\<lparr>go_side := w\<rparr>) = (Inr (), s2)"
    by (simp add: export_affected_def c_bind_def c_gets_def c_ret_def c_modify_def s2_def s1(6) split: option.split)
  have s2: "go_side s2 = w" "next_handle s2 = next_handle s" "live_handles s2 = live_handles s" "\<not> globalPoison s2"
    using s(1) by (simp_all add: s2_def s1)
  have exec: "QuackStatementExecuteQuery env (Some a) (Some out) s = recovering env ''AdbcStatementExecuteQuery'' (\<lambda>_. export_reader env (Some out) (Inr rdr) s2) s"
    by (simp add: QuackStatementExecuteQuery_def recovering_def with_object_def c_bind_def checked_stmt [OF s] s1(1) go_do_def q s1(2) aff)
  let ?s = "s2\<lparr>objs := (objs s2)(next_handle s \<mapsto> HStream \<lparr>cs_rdr = rdr, cs_adbcErr = None, cs_status = ADBC_STATUS_OK\<rparr>),
      live_handles := insert (next_handle s) (live_handles s), next_handle := next_handle s + 1,
      stream_data := (stream_data s2)(out := \<lparr>st_ours = True, st_private = next_handle s\<rparr>), go_side := w2\<rparr>"
  have "export_reader env (Some out) (Inr rdr) s2 = (Inr ADBC_STATUS_OK, ?s)"
    by (simp add: export_reader_def exportRecordReader_def c_defer_def c_bind_def newHandle_def c_modify_def go_do_def e s2 c_ret_def)
  then have "QuackStatementExecuteQuery env (Some a) (Some out) s = (ADBC_STATUS_OK, ?s)" using exec by (simp add: recovering_def)
  then show ?thesis using fresh s2(4) by (intro exI [of _ ?s]) (simp add: stream_handle_def)
qed

text \<open>The driver's part: a statement without a binding, on a connection that needs no new transaction.\<close>

lemma drv_query_run:
  assumes "dv_stmts d x = Some (k, st)" "st_sql st \<noteq> []" "\<not> has_binding st" "dv_conns d k = Some (u, c)" "autoCommit c \<or> txOpen c"
    and "open_cursor (send_of P u) (st_sql st) (sess (at_net (dv_net d) c)) = Done (Inr cur, s1)"
    and "newStreamingRecordReader (l_arrow (dp_libs P)) cur = Done rr"
  shows "\<exists>d'. drv_query P x ctx d = (Inr (Inr (dv_next d, -1)), d') \<and> dv_readers d' (dv_next d) = Some (QuackReader k rr) \<and>
    (\<exists>c. dv_conns d' k = Some (u, c) \<and> sess (at_net (dv_net d') c) = s1) \<and> dv_stmts d' x = Some (k, st)"
proof -
  have "beginTxIfNeeded (send_of P u) (dp_fuel P) (at_net (dv_net d) c) = Done (Inr (), at_net (dv_net d) c)"
    using assms(5) by (auto simp: beginTxIfNeeded_def cret_def at_net_def)
  then have "ExecuteQuery (dp_libs P) (send_of P u) (dp_fuel P) (at_net (dv_net d) c) st =
      Done (Inr (Streaming rr), (at_net (dv_net d) c)\<lparr>sess := s1\<rparr>, st)"
    using assms(2,3,6,7)
    by (simp add: ExecuteQuery_def with_stmt_def cbind_def open_reader_def on_session_def cret_def)
  then show ?thesis using assms(1,4)
    by (simp add: drv_query_def go_defs on_stmt_def on_conn_def set_statement_def new_reader_def allocate_def at_net_def)
qed

lemma retain_release:
  assumes "dv_readers d n = Some (QuackReader k rr)" "rr_refs rr = 1"
  shows "drv_effect P (Rdr_Retain n) d = (Inr (), d\<lparr>dv_readers := (dv_readers d)(n \<mapsto> QuackReader k (Retain rr))\<rparr>)"
    "drv_effect P (Rdr_Release n) (d\<lparr>dv_readers := (dv_readers d)(n \<mapsto> QuackReader k (Retain rr))\<rparr>) = (Inr (), d)"
proof -
  have "wrap64 2 = 2" "wrap64 1 = 1" by (simp_all add: wrap64_id)
  then have "Release (Retain rr) = rr" using assms(2) by (simp add: Release_def Retain_def)
  then show "drv_effect P (Rdr_Retain n) d = (Inr (), d\<lparr>dv_readers := (dv_readers d)(n \<mapsto> QuackReader k (Retain rr))\<rparr>)"
    "drv_effect P (Rdr_Release n) (d\<lparr>dv_readers := (dv_readers d)(n \<mapsto> QuackReader k (Retain rr))\<rparr>) = (Inr (), d)"
    using assms by (simp_all add: drv_effect_def count_reference_def go_defs set_reader_def fun_upd_idem)
qed

lemma new_reader_refs:
  "newStreamingRecordReader alib cur = Done rr \<Longrightarrow> rr_refs rr = 1 \<and> rr_err rr = None \<and> \<not> rr_done rr \<and> rr_cursor rr = cur \<and> rr_colNames rr = columnNames cur"
  by (auto simp: newStreamingRecordReader_def outcome_bind_eq_Done)

lemma open_cursor_fresh:
  assumes "open_cursor send sql se = Done (Inr cur, se')"
  shows "\<not> c_closed cur"
proof -
  obtain m where "(case m of PrepareResponse _ types names nmf results uuid \<Rightarrow>
      Some \<lparr>columnNames = names, columnTypes = types, resultUUID = uuid, buffered = results, needsMore = nmf, c_closed = False\<rparr>
      | _ \<Rightarrow> None) = Some cur"
    using assms unfolding open_cursor_def by (auto simp only: exchange_Done accepted_Inr eq_commute [of "Inr cur"])
  then show ?thesis by (cases m) auto
qed

text \<open>The caller's side of a statement ready to run on the driver.\<close>

definition ready :: "nat \<Rightarrow> nat \<Rightarrow> nat \<Rightarrow> string \<Rightarrow> QuackURI \<Rightarrow> 'w connection \<Rightarrow> ('w, 'x) drv capi \<Rightarrow> bool" where
  "ready a x k sql u c s \<longleftrightarrow> \<not> globalPoison s \<and> stmt_data s a \<noteq> 0 \<and> stmt_data s a \<in> live_handles s \<and> next_handle s \<noteq> 0 \<and>
     (\<exists>d. objs s (stmt_data s a) = Some (HStmt d) \<and> stmt_stmt d = Some x) \<and>
     (\<exists>st. dv_stmts (go_side s) x = Some (k, st) \<and> st_sql st = sql \<and> \<not> has_binding st) \<and> sql \<noteq> [] \<and>
     dv_conns (go_side s) k = Some (u, c) \<and> (autoCommit c \<or> txOpen c)"

lemma query_streams:
  assumes "ready a x k sql u c s"
    and "open_cursor (send_of P u) sql (sess (at_net (dv_net (go_side s)) c)) = Done (Inr cur, s1)"
    and "newStreamingRecordReader (l_arrow (dp_libs P)) cur = Done rr"
  shows "\<exists>s'. QuackStatementExecuteQuery (driver_env P) (Some a) (Some out) s = (ADBC_STATUS_OK, s') \<and>
    reads_from out (next_handle s) (dv_next (go_side s)) k u rr s1 s'"
proof -
  obtain d st where r: "\<not> globalPoison s" "stmt_data s a \<noteq> 0" "stmt_data s a \<in> live_handles s" "next_handle s \<noteq> 0"
      "objs s (stmt_data s a) = Some (HStmt d)" "stmt_stmt d = Some x" "dv_stmts (go_side s) x = Some (k, st)" "st_sql st = sql"
      "\<not> has_binding st" "sql \<noteq> []" "dv_conns (go_side s) k = Some (u, c)" "autoCommit c \<or> txOpen c"
    using assms(1) unfolding ready_def by blast
  let ?n = "dv_next (go_side s)"
  obtain d' where q: "drv_query P x (next_ctx s) (go_side s) = (Inr (Inr (?n, -1)), d')"
      "dv_readers d' ?n = Some (QuackReader k rr)" "\<exists>c. dv_conns d' k = Some (u, c) \<and> sess (at_net (dv_net d') c) = s1"
    using drv_query_run [OF r(7) _ r(9) r(11,12), of P cur s1 rr "next_ctx s"] r(8,10) assms(2,3) by auto
  have refs: "rr_refs rr = 1" using new_reader_refs [OF assms(3)] by simp
  let ?d1 = "d'\<lparr>dv_readers := (dv_readers d')(?n \<mapsto> QuackReader k (Retain rr))\<rparr>"
  have c: "call_query (driver_env P) x (next_ctx s) (go_side s) = (Inr (Inr (?n, -1)), d')"
      "call_effect (driver_env P) (Rdr_Retain ?n) d' = (Inr (), ?d1)" "call_effect (driver_env P) (Rdr_Release ?n) ?d1 = (Inr (), d')"
    using q(1) retain_release [OF q(2) refs, of P] by simp_all
  show ?thesis
    using execute_query_run [OF r(1) refl r(2,3,5,6) c r(4), of out] q(2,3) by (auto simp: reads_from_def)
qed

text \<open>Reading does not touch the reference count.\<close>

lemma Next_loop_refs: "Next_loop alib lib send n rr se = Done ((b, rr1), s1) \<Longrightarrow> rr_refs rr1 = rr_refs rr"
proof (induction n arbitrary: rr se)
  case (Suc n)
  obtain r s2 where r: "nextChunk send (rr_cursor rr) se = Done (r, s2)"
    using Suc.prems by (auto simp: outcome_bind_eq_Done)
  show ?case
  proof (cases r)
    case (Inr p)
    obtain ch c where p: "p = (ch, c)" by (cases p)
    show ?thesis
    proof (cases ch)
      case None
      then show ?thesis using Suc.prems r Inr p by auto
    next
      case (Some a)
      show ?thesis
      proof (cases "RowCount a = 0")
        case True
        then show ?thesis using Suc.prems r Inr p Some Suc.IH [of "rr\<lparr>rr_cursor := c\<rparr>" s2] by simp
      next
        case False
        then obtain x where "RecordFromChunk alib lib (rr_colNames rr) a = Done x"
          using Suc.prems r Inr p Some by (auto simp: outcome_bind_eq_Done Let_def)
        then show ?thesis using Suc.prems r Inr p Some False by (cases x) auto
      qed
    qed
  qed (use Suc.prems r in auto)
qed simp

lemma Next_refs: "Next alib lib send n rr se = Done ((b, rr1), s1) \<Longrightarrow> rr_refs rr1 = rr_refs rr"
  using Next_loop_refs by (fastforce simp: Next_def split: if_splits)

lemma read_records_refs: "read_records alib lib send n m rr se = Done ((rs, rr'), s') \<Longrightarrow> rr_refs rr' = rr_refs rr"
  by (induction m arbitrary: rr se rs) (auto simp: outcome_bind_eq_Done dest!: Next_refs split: if_splits)

text \<open>The whole way: execution, reading to the end, the records of the non-empty chunks in order.\<close>

lemma query_reads_all:
  assumes ready: "ready a x k sql u c s"
    and cur: "open_cursor (send_of P u) sql (sess (at_net (dv_net (go_side s)) c)) = Done (Inr cur, s1)"
    and schema: "SchemaFromColumns (l_arrow (dp_libs P)) (columnNames cur) (columnTypes cur) = Done schema"
    and fetches: "batches (send_of P u) (cur\<lparr>buffered := []\<rparr>) s1 bs cur' s2" "[] \<notin> set bs"
    and fuel: "length (buffered cur @ concat bs) < dp_fuel P"
    and conv: "\<And>ch. ch \<in> set (buffered cur @ concat bs) \<Longrightarrow> RowCount ch \<noteq> 0 \<Longrightarrow>
      RecordFromChunk (l_arrow (dp_libs P)) (l_go (dp_libs P)) (columnNames cur) ch = Done (Inr (conv ch))"
  shows "\<exists>s' ns s'' rr'. QuackStatementExecuteQuery (driver_env P) (Some a) (Some out) s = (ADBC_STATUS_OK, s') \<and>
    read_stream (driver_env P) (Suc (length (buffered cur @ concat bs))) (Some out) s' = (Inr (Some E_OK, ns), s'') \<and>
    map (dv_batches (go_side s'')) ns = map (\<lambda>ch. Some (Some (conv ch))) (filter (\<lambda>ch. RowCount ch \<noteq> 0) (buffered cur @ concat bs)) \<and>
    reads_from out (next_handle s) (dv_next (go_side s)) k u rr' s2 s'' \<and> rr_refs rr' = 1"
proof -
  obtain rr where rr: "newStreamingRecordReader (l_arrow (dp_libs P)) cur = Done rr"
    using schema by (simp add: newStreamingRecordReader_def)
  note r = new_reader_refs [OF rr]
  obtain s' where s': "QuackStatementExecuteQuery (driver_env P) (Some a) (Some out) s = (ADBC_STATUS_OK, s')"
      "reads_from out (next_handle s) (dv_next (go_side s)) k u rr s1 s'"
    using query_streams [OF ready cur rr] by blast
  have "\<not> c_closed cur" using cur by (rule open_cursor_fresh)
  then have chunks: "read_chunks (send_of P u) (Suc (length (buffered cur @ concat bs))) cur s1 = Done (Inr (buffered cur @ concat bs, cur'), s2)"
    using fetches by (intro read_chunks_all) (auto simp: list_all_iff)
  define xs where "xs = buffered cur @ concat bs"
  have "\<exists>rr'. read_records (l_arrow (dp_libs P)) (l_go (dp_libs P)) (send_of P u) (dp_fuel P) (Suc (length xs)) rr s1 =
      Done ((map (Some \<circ> conv) (filter (\<lambda>ch. RowCount ch \<noteq> 0) xs), rr'), s2) \<and> is_done rr' cur'"
    by (rule read_records_chunks [OF chunks [folded xs_def]]) (use r fuel conv in \<open>simp_all add: xs_def\<close>)
  then obtain rr' where rr': "read_records (l_arrow (dp_libs P)) (l_go (dp_libs P)) (send_of P u) (dp_fuel P) (Suc (length xs)) rr s1 =
      Done ((map (Some \<circ> conv) (filter (\<lambda>ch. RowCount ch \<noteq> 0) xs), rr'), s2)" "is_done rr' cur'" by blast
  have "rr_refs rr' = 1" using read_records_refs [OF rr'(1)] r by simp
  then show ?thesis using read_stream_records [OF rr'(1) s'(2)] rr'(2) s'(1) unfolding xs_def [symmetric]
    by (auto simp: is_done_def comp_def simp del: read_stream.simps)
qed

section \<open>Releasing a stream\<close>

text \<open>The last reference: the handle is gone, and the cursor is closed.\<close>

lemma stream_release:
  assumes "reads_from a h n k u rr se s" "rr_refs rr = 1"
  shows "\<exists>s'. QuackArrayStreamRelease (driver_env P) (Some a) s = (Inr (), s') \<and> stream_handle (Some a) s' = None \<and> h \<notin> live_handles s' \<and>
    dv_readers (go_side s') n = Some (QuackReader k (rr\<lparr>rr_refs := 0, rr_current := None, rr_cursor := close_cursor (rr_cursor rr)\<rparr>)) \<and>
    dv_batches (go_side s') = dv_batches (go_side s)"
proof -
  obtain cs where cs: "objs s h = Some (HStream cs)" "cs_rdr cs = n" "dv_readers (go_side s) n = Some (QuackReader k rr)"
      "stream_handle (Some a) s = Some h" "h \<in> live_handles s"
    using assms(1) by (auto simp: reads_from_def)
  have "wrap64 0 = 0" by (simp add: wrap64_id)
  then have "Release rr = rr\<lparr>rr_refs := 0, rr_current := None, rr_cursor := close_cursor (rr_cursor rr)\<rparr>"
    using assms(2) by (simp add: Release_def)
  then show ?thesis using cs
    by (simp add: QuackArrayStreamRelease_def c_bind_def c_modify_def get_stream_def handle_value_def c_ret_def deleteHandle_def go_do_def
        drv_effect_def count_reference_def go_defs set_reader_def stream_handle_def)
qed

text \<open>
  A stream does not depend on the statement and the database behind it: releasing any of them, whatever state it is in,
  leaves the stream, its reader and the session of its connection as they are.
\<close>

lemma reads_from_spared:
  assumes "reads_from a h n k u rr se s" "stream_data s' = stream_data s" "h \<in> live_handles s \<longrightarrow> h \<in> live_handles s'"
    and "objs s' h = objs s h" "dv_readers (go_side s') = dv_readers (go_side s)" "dv_conns (go_side s') = dv_conns (go_side s)"
    and "dv_net (go_side s') = dv_net (go_side s)"
  shows "reads_from a h n k u rr se s'"
proof -
  have "stream_handle (Some a) s' = stream_handle (Some a) s" using assms(2) by (simp add: stream_handle_def)
  then show ?thesis using assms by (simp add: reads_from_def)
qed

lemma reads_from_simps [simp]:
  "reads_from a h n k u rr se (s\<lparr>c_err := e\<rparr>) = reads_from a h n k u rr se s"
  "reads_from a h n k u rr se (s\<lparr>stmt_data := f\<rparr>) = reads_from a h n k u rr se s"
  "reads_from a h n k u rr se (s\<lparr>db_data := f\<rparr>) = reads_from a h n k u rr se s"
  "reads_from a h n k u rr se (snd (poison env fname p s)) = reads_from a h n k u rr se s"
  by (simp_all add: reads_from_def stream_handle_def poison_def)

text \<open>Closing a statement or a database of the driver.\<close>

lemma driver_close_spares:
  assumes "call_err (driver_env P) (Go_Close t) d = (r, d')" "\<And>j. t \<noteq> TConnection j"
  shows "dv_readers d' = dv_readers d \<and> dv_conns d' = dv_conns d \<and> dv_net d' = dv_net d"
  using assms by (cases t) (auto simp: driver_env_def go_defs on_stmt_pure_def set_statement_def split: option.splits)

lemma statement_release_spares:
  assumes "reads_from a h n k u rr se s"
  shows "reads_from a h n k u rr se (snd (QuackStatementRelease (driver_env P) b s))"
proof (cases "globalPoison s \<or> b = None \<or> stmt_data s (the b) = 0")
  case True
  then show ?thesis using assms
    by (cases b) (auto simp: QuackStatementRelease_def recovering_def complain_def checkStmtAlloc_def check_alloc_def c_bind_def c_ret_def
        set_error_def c_modify_def)
next
  case False
  then obtain b' where b: "b = Some b'" "\<not> globalPoison s" "stmt_data s b' \<noteq> 0" by auto
  define i where "i = stmt_data s b'"
  let ?s = "s\<lparr>stmt_data := (stmt_data s)(b' := 0)\<rparr>"
  have c: "checkStmtAlloc (Some b') f s = (Inr (Some i), s)" for f
    unfolding checkStmtAlloc_def i_def by (rule check_alloc_ok) (use b in simp_all)
  show ?thesis
  proof (cases "get_stmt i ?s")
    case (Pair g t)
    then have t: "t = ?s" by (auto simp: get_stmt_def handle_value_def c_bind_def c_ret_def c_panic_def split: if_splits option.splits c_object.splits)
    show ?thesis
    proof (cases g)
      case (Inl e)
      then show ?thesis using assms b c Pair t by (simp add: QuackStatementRelease_def recovering_def c_bind_def c_modify_def)
    next
      case (Inr d)
      then have d: "objs s i = Some (HStmt d)" "i \<in> live_handles s" "get_stmt i ?s = (Inr d, ?s)" using Pair t
        by (auto simp: get_stmt_def handle_value_def c_bind_def c_ret_def c_panic_def split: if_splits option.splits c_object.splits)
      then have i: "i \<noteq> h" using assms by (auto simp: reads_from_def)
      show ?thesis
      proof (cases "stmt_stmt d")
        case None
        then show ?thesis using b c d i
          by (intro reads_from_spared [OF assms]) (simp_all add: QuackStatementRelease_def recovering_def c_bind_def c_modify_def c_defer_def
              deleteHandle_def cancelContext_def ctx_of_def set_object_def c_ret_def)
      next
        case (Some x)
        obtain r w where w: "call_err (driver_env P) (Go_Close (TStatement x)) (go_side s) = (r, w)" by (metis surj_pair)
        then show ?thesis using b c d i Some driver_close_spares [OF w]
          by (intro reads_from_spared [OF assms]) (cases r; simp add: QuackStatementRelease_def recovering_def c_bind_def c_modify_def c_defer_def
              deleteHandle_def cancelContext_def ctx_of_def set_object_def c_ret_def go_do_def report_status poison_def)+
      qed
    qed
  qed
qed

lemma database_release_spares:
  assumes "reads_from a h n k u rr se s"
  shows "reads_from a h n k u rr se (snd (QuackDatabaseRelease (driver_env P) b s))"
proof (cases "globalPoison s \<or> b = None \<or> db_data s (the b) = 0")
  case True
  then show ?thesis using assms
    by (cases b) (auto simp: QuackDatabaseRelease_def recovering_def complain_def checkDBAlloc_def check_alloc_def c_bind_def c_ret_def
        set_error_def c_modify_def)
next
  case False
  then obtain b' where b: "b = Some b'" "\<not> globalPoison s" "db_data s b' \<noteq> 0" by auto
  define i where "i = db_data s b'"
  let ?s = "s\<lparr>db_data := (db_data s)(b' := 0)\<rparr>"
  have c: "checkDBAlloc (Some b') f s = (Inr (Some i), s)" for f
    unfolding checkDBAlloc_def i_def by (rule check_alloc_ok) (use b in simp_all)
  show ?thesis
  proof (cases "get_database i ?s")
    case (Pair g t)
    then have t: "t = ?s" by (auto simp: get_database_def handle_value_def c_bind_def c_ret_def c_panic_def split: if_splits option.splits c_object.splits)
    show ?thesis
    proof (cases g)
      case (Inl e)
      then show ?thesis using assms b c Pair t by (simp add: QuackDatabaseRelease_def recovering_def c_bind_def c_modify_def)
    next
      case (Inr d)
      then have d: "objs s i = Some (HDatabase d)" "i \<in> live_handles s" "get_database i ?s = (Inr d, ?s)" using Pair t
        by (auto simp: get_database_def handle_value_def c_bind_def c_ret_def c_panic_def split: if_splits option.splits c_object.splits)
      then have i: "i \<noteq> h" using assms by (auto simp: reads_from_def)
      show ?thesis
      proof (cases "db_db d")
        case None
        then show ?thesis using b c d i
          by (intro reads_from_spared [OF assms]) (simp_all add: QuackDatabaseRelease_def recovering_def c_bind_def c_modify_def
              deleteHandle_def set_object_def c_ret_def)
      next
        case (Some x)
        obtain r w where w: "call_err (driver_env P) (Go_Close (TDatabase x)) (go_side s) = (r, w)" by (metis surj_pair)
        then show ?thesis using b c d i Some driver_close_spares [OF w]
          by (intro reads_from_spared [OF assms]) (cases r; simp add: QuackDatabaseRelease_def recovering_def c_bind_def c_modify_def
              deleteHandle_def set_object_def c_ret_def go_do_def poison_def)+
      qed
    qed
  qed
qed

lemma release_each_spares:
  assumes "\<And>s b. reads_from a h n k u rr se s \<Longrightarrow> reads_from a h n k u rr se (snd (f (Some b) s))" "reads_from a h n k u rr se s"
  shows "reads_from a h n k u rr se (release_each f bs s)"
  using assms(2) by (induction bs arbitrary: s) (simp_all add: assms(1))

text \<open>The life of a query: executed, read to the end and released.\<close>

lemma query_life:
  assumes "ready a x k sql u c s"
    and "open_cursor (send_of P u) sql (sess (at_net (dv_net (go_side s)) c)) = Done (Inr cur, s1)"
    and "SchemaFromColumns (l_arrow (dp_libs P)) (columnNames cur) (columnTypes cur) = Done schema"
    and "batches (send_of P u) (cur\<lparr>buffered := []\<rparr>) s1 bs cur' s2" "[] \<notin> set bs"
    and "length (buffered cur @ concat bs) < dp_fuel P"
    and "\<And>ch. ch \<in> set (buffered cur @ concat bs) \<Longrightarrow> RowCount ch \<noteq> 0 \<Longrightarrow>
      RecordFromChunk (l_arrow (dp_libs P)) (l_go (dp_libs P)) (columnNames cur) ch = Done (Inr (conv ch))"
  shows "\<exists>s' ns s'' s3 rr. QuackStatementExecuteQuery (driver_env P) (Some a) (Some out) s = (ADBC_STATUS_OK, s') \<and>
    read_stream (driver_env P) (Suc (length (buffered cur @ concat bs))) (Some out) s' = (Inr (Some E_OK, ns), s'') \<and>
    QuackArrayStreamRelease (driver_env P) (Some out) s'' = (Inr (), s3) \<and>
    map (dv_batches (go_side s3)) ns = map (\<lambda>ch. Some (Some (conv ch))) (filter (\<lambda>ch. RowCount ch \<noteq> 0) (buffered cur @ concat bs)) \<and>
    stream_handle (Some out) s3 = None \<and> next_handle s \<notin> live_handles s3 \<and>
    dv_readers (go_side s3) (dv_next (go_side s)) = Some (QuackReader k rr) \<and> rr_refs rr = 0 \<and> c_closed (rr_cursor rr)"
proof -
  obtain s' ns s'' rr where q: "QuackStatementExecuteQuery (driver_env P) (Some a) (Some out) s = (ADBC_STATUS_OK, s')"
      "read_stream (driver_env P) (Suc (length (buffered cur @ concat bs))) (Some out) s' = (Inr (Some E_OK, ns), s'')"
      "map (dv_batches (go_side s'')) ns = map (\<lambda>ch. Some (Some (conv ch))) (filter (\<lambda>ch. RowCount ch \<noteq> 0) (buffered cur @ concat bs))"
      "reads_from out (next_handle s) (dv_next (go_side s)) k u rr s2 s''" "rr_refs rr = 1"
    using query_reads_all [OF assms] by blast
  let ?rr = "rr\<lparr>rr_refs := 0, rr_current := None, rr_cursor := close_cursor (rr_cursor rr)\<rparr>"
  obtain s3 where "QuackArrayStreamRelease (driver_env P) (Some out) s'' = (Inr (), s3)" "stream_handle (Some out) s3 = None"
      "next_handle s \<notin> live_handles s3" "dv_readers (go_side s3) (dv_next (go_side s)) = Some (QuackReader k ?rr)"
      "dv_batches (go_side s3) = dv_batches (go_side s'')"
    using stream_release [OF q(4,5)] by blast
  moreover have "rr_refs ?rr = 0" "c_closed (rr_cursor ?rr)" by (simp_all add: close_cursor_def)
  ultimately show ?thesis using q(1-3) by metis
qed

section \<open>Errors of the server\<close>

text \<open>A query that the server refuses: its message and status are in the caller's error struct, and there is no stream.\<close>

lemma query_refused:
  assumes "ready a x k sql u c s"
    and "open_cursor (send_of P u) sql (sess (at_net (dv_net (go_side s)) c)) = Done (Inl e, s1)"
  shows "\<exists>s'. QuackStatementExecuteQuery (driver_env P) (Some a) (Some out) s =
      (if e_server e = None then status_code StatusIO else status_code StatusInternal, s') \<and>
    c_err s' = setErrWithDetails (c_err s) \<lparr>ae_Msg = (case e_server e of None \<Rightarrow> e_text e | Some msg \<Rightarrow> msg),
      ae_Code = (if e_server e = None then status_code StatusIO else status_code StatusInternal), ae_VendorCode = 0,
      ae_SqlState = replicate 5 (CHR 0x00), ae_Details = []\<rparr> \<and>
    stream_data s' = stream_data s \<and> live_handles s' = live_handles s \<and> dv_readers (go_side s') = dv_readers (go_side s) \<and> \<not> globalPoison s'"
proof -
  obtain d st where r: "\<not> globalPoison s" "stmt_data s a \<noteq> 0" "stmt_data s a \<in> live_handles s" "next_handle s \<noteq> 0"
      "objs s (stmt_data s a) = Some (HStmt d)" "stmt_stmt d = Some x" "dv_stmts (go_side s) x = Some (k, st)" "st_sql st = sql"
      "\<not> has_binding st" "sql \<noteq> []" "dv_conns (go_side s) k = Some (u, c)" "autoCommit c \<or> txOpen c"
    using assms(1) unfolding ready_def by blast
  obtain t where t: "newContext (stmt_data s a) s = (Inr (next_ctx s), t)" "go_side t = go_side s" "live_handles t = live_handles s"
      "stream_data t = stream_data s" "globalPoison t = globalPoison s" "c_err t = c_err s"
    using r(5) by (auto simp: newContext_def c_bind_def cancelContext_def ctx_of_def with_ctx_def)
  let ?c = "at_net (dv_net (go_side s)) c"
  have "beginTxIfNeeded (send_of P u) (dp_fuel P) ?c = Done (Inr (), ?c)"
    using r(12) by (auto simp: beginTxIfNeeded_def cret_def at_net_def)
  then have "ExecuteQuery (dp_libs P) (send_of P u) (dp_fuel P) ?c st = Done (Inl (fromTransportError e), ?c\<lparr>sess := s1\<rparr>, st)"
    using r(8,9,10) assms(2) by (simp add: ExecuteQuery_def with_stmt_def cbind_def open_reader_def on_session_def)
  then obtain d' where "drv_query P x (next_ctx s) (go_side s) = (Inr (Inl (api_error_of (fromTransportError e))), d')"
      "dv_readers d' = dv_readers (go_side s)"
    using r(7,11) by (simp add: drv_query_def go_defs on_stmt_def on_conn_def set_statement_def)
  then show ?thesis
    using r(1) t checked_stmt [OF r(1) refl r(2,3,5,6)]
    by (cases "e_server e")
      (simp_all add: QuackStatementExecuteQuery_def recovering_def with_object_def c_bind_def go_do_def report_def errToAdbcErr_def
        api_error_of_def adbc_form_def fromTransportError_def)
qed

end
