(* ===== verification/COwners.thy ===== *)
theory COwners
  imports CQuery
begin

text \<open>
  Who owns a record reader of the driver: in every state a C caller can reach, a reader is held by one live stream and
  counts one reference, or by none, counts no reference and has its cursor closed.  Most operations leave streams and
  readers alone (\<open>calm\<close>); the others make one reader and export it, read one, or release one.
\<close>

section \<open>Streams and readers\<close>

definition streams_of :: "'w capi \<Rightarrow> (nat \<times> nat) set" where
  "streams_of s = {(h, n). h \<in> live_handles s \<and> (\<exists>cs. objs s h = Some (HStream cs) \<and> cs_rdr cs = n)}"

text \<open>The streams are \<open>T\<close>, the readers \<open>R\<close>, object numbers are at least \<open>N\<close>, and no handle in \<open>H\<close> is a stream.\<close>

definition steady :: "nat set \<Rightarrow> (nat \<times> nat) set \<Rightarrow> (nat \<rightharpoonup> drv_reader) \<Rightarrow> nat \<Rightarrow> ('w, 'x) drv capi \<Rightarrow> bool" where
  "steady H T R N s \<longleftrightarrow> streams_of s = T \<and> dv_readers (go_side s) = R \<and> N \<le> dv_next (go_side s) \<and>
     (\<forall>h \<in> live_handles s. h < next_handle s) \<and> (\<forall>h \<in> H. \<forall>n. (h, n) \<notin> streams_of s)"

definition calm :: "nat set \<Rightarrow> (('w, 'x) drv, 'a) capi_m \<Rightarrow> bool" where
  "calm H m \<longleftrightarrow> (\<forall>T R N s. steady H T R N s \<longrightarrow> steady H T R N (snd (m s)))"

named_theorems calm_rules \<open>rules deriving that an operation leaves streams and readers alone\<close>

lemma streams_of_simps [simp]:
  "streams_of (s\<lparr>c_err := e\<rparr>) = streams_of s" "streams_of (s\<lparr>c_out := out\<rparr>) = streams_of s"
  "streams_of (s\<lparr>go_side := w\<rparr>) = streams_of s" "streams_of (s\<lparr>db_data := f\<rparr>) = streams_of s"
  "streams_of (s\<lparr>cnxn_data := f\<rparr>) = streams_of s" "streams_of (s\<lparr>stmt_data := f\<rparr>) = streams_of s"
  "streams_of (s\<lparr>stream_data := g\<rparr>) = streams_of s" "streams_of (s\<lparr>next_ctx := i\<rparr>) = streams_of s"
  "streams_of (s\<lparr>cancelled := C\<rparr>) = streams_of s" "streams_of (s\<lparr>globalPoison := b\<rparr>) = streams_of s"
  "streams_of (s\<lparr>stderr_log := l\<rparr>) = streams_of s" "streams_of (s\<lparr>next_handle := i\<rparr>) = streams_of s"
  by (simp_all add: streams_of_def)

lemma calmI: "(\<And>T R N s. steady H T R N s \<Longrightarrow> steady H T R N (snd (m s))) \<Longrightarrow> calm H m"
  by (simp add: calm_def)

lemma calmD: "calm H m \<Longrightarrow> steady H T R N s \<Longrightarrow> m s = (r, s') \<Longrightarrow> steady H T R N s'"
  unfolding calm_def by (metis snd_conv)

text \<open>A modification of other fields.\<close>

lemma calm_modify:
  assumes "\<And>s. streams_of (f s) = streams_of s \<and> go_side (f s) = go_side s \<and> live_handles (f s) = live_handles s \<and> next_handle (f s) = next_handle s"
  shows "calm H (c_modify f)"
  using assms by (auto simp: calm_def steady_def c_modify_def)

lemma calm_basic [calm_rules]:
  "calm H (c_ret v)" "calm H (c_panic e)" "calm H (c_gets g)"
  "calm H (c_modify (\<lambda>s. s\<lparr>c_err := e1 s\<rparr>))" "calm H (c_modify (\<lambda>s. s\<lparr>c_out := o1 s\<rparr>))"
  "calm H (c_modify (\<lambda>s. s\<lparr>db_data := f1 s\<rparr>))" "calm H (c_modify (\<lambda>s. s\<lparr>cnxn_data := f1 s\<rparr>))"
  "calm H (c_modify (\<lambda>s. s\<lparr>stmt_data := f1 s\<rparr>))"
  by (rule calm_modify; simp | simp add: calm_def c_ret_def c_panic_def c_gets_def)+

lemma calm_bind [calm_rules]:
  fixes m :: "(('w, 'x) drv, 'a) capi_m"
  assumes "calm H m" "\<And>v. calm H (f v)"
  shows "calm H (c_bind m f)"
proof (rule calmI)
  fix T R N and s :: "('w, 'x) drv capi" assume s: "steady H T R N s"
  obtain r s1 where m: "m s = (r, s1)" by (cases "m s")
  have "steady H T R N s1" using calmD [OF assms(1) s m] .
  then show "steady H T R N (snd (c_bind m f s))"
    using assms(2) m by (cases r) (simp_all add: c_bind_def calm_def)
qed

lemma calm_defer [calm_rules]:
  fixes m :: "(('w, 'x) drv, 'a) capi_m"
  assumes "calm H f" "calm H m"
  shows "calm H (c_defer f m)"
proof (rule calmI)
  fix T R N and s :: "('w, 'x) drv capi" assume s: "steady H T R N s"
  obtain r s1 where m: "m s = (r, s1)" by (cases "m s")
  obtain r2 s2 where f: "f s1 = (r2, s2)" by (cases "f s1")
  have "steady H T R N s2" using calmD [OF assms(1) calmD [OF assms(2) s m] f] .
  then show "steady H T R N (snd (c_defer f m s))" by (cases r2) (simp_all add: c_defer_def m f)
qed

lemma calm_cases [calm_rules]:
  "(b \<Longrightarrow> calm H m) \<Longrightarrow> (\<not> b \<Longrightarrow> calm H n) \<Longrightarrow> calm H (if b then m else n)"
  "(x = None \<Longrightarrow> calm H m) \<Longrightarrow> (\<And>v. x = Some v \<Longrightarrow> calm H (f v)) \<Longrightarrow> calm H (case x of None \<Rightarrow> m | Some v \<Rightarrow> f v)"
  "(\<And>e. y = Inl e \<Longrightarrow> calm H (g e)) \<Longrightarrow> (\<And>v. y = Inr v \<Longrightarrow> calm H (h v)) \<Longrightarrow> calm H (case y of Inl e \<Rightarrow> g e | Inr v \<Rightarrow> h v)"
  "(\<And>a b. z = (a, b) \<Longrightarrow> calm H (k a b)) \<Longrightarrow> calm H (case z of (a, b) \<Rightarrow> k a b)"
  by (simp_all split: option.split sum.split prod.split)

lemma calm_state_cases [calm_rules]:
  "calm H m \<Longrightarrow> calm H n \<Longrightarrow> calm H (\<lambda>s. if c s then m s else n s)"
  "calm H m \<Longrightarrow> (\<And>v. calm H (f v)) \<Longrightarrow> calm H (\<lambda>s. case x of None \<Rightarrow> m s | Some v \<Rightarrow> f v s)"
  "calm H m \<Longrightarrow> (\<And>v. calm H (f v)) \<Longrightarrow> calm H (\<lambda>s. case x' s of None \<Rightarrow> m s | Some v \<Rightarrow> f v s)"
  by (auto simp: calm_def split: option.split)

lemma calm_errors [calm_rules]: "calm H (set_error fmt vals)" "calm H (complain fmt vals code)" "calm H (report e)"
  unfolding set_error_def complain_def by (intro calm_rules)+ (auto simp: calm_def steady_def report_def split: prod.split)

lemma streams_with_ctx:
  "objs s h = Some ob \<Longrightarrow> live_handles s' = live_handles s \<Longrightarrow> objs s' = (objs s)(h \<mapsto> with_ctx c ob) \<Longrightarrow> streams_of s' = streams_of s"
  by (cases ob) (auto simp: streams_of_def with_ctx_def split: if_splits)

lemma calm_with_ctx:
  fixes f :: "(('w, 'x) drv, 'a) capi_m"
  assumes "\<And>s. case objs s h of None \<Rightarrow> snd (f s) = s | Some ob \<Rightarrow> snd (f s) = s \<or> live_handles (snd (f s)) = live_handles s \<and>
      go_side (snd (f s)) = go_side s \<and> next_handle (snd (f s)) = next_handle s \<and> (\<exists>c. objs (snd (f s)) = (objs s)(h \<mapsto> with_ctx c ob))"
  shows "calm H f"
proof (rule calmI)
  fix T R N and s :: "('w, 'x) drv capi" assume s: "steady H T R N s"
  show "steady H T R N (snd (f s))"
  proof (cases "snd (f s) = s")
    case False
    then obtain ob c where ob: "objs s h = Some ob" "live_handles (snd (f s)) = live_handles s" "go_side (snd (f s)) = go_side s"
        "next_handle (snd (f s)) = next_handle s" "objs (snd (f s)) = (objs s)(h \<mapsto> with_ctx c ob)"
      using assms [of s] by (cases "objs s h") auto
    then show ?thesis using s streams_with_ctx [OF ob(1,2,5)] by (auto simp: steady_def)
  qed (simp add: s)
qed

lemma calm_cancelContext [calm_rules]: "calm H (cancelContext h)"
  by (rule calm_with_ctx [where h = h]) (auto simp: cancelContext_def split: option.split)

lemma calm_newContext [calm_rules]: "calm H (newContext h)"
  unfolding newContext_def
  by (rule calm_bind [OF calm_cancelContext], rule calm_with_ctx [where h = h]) (auto split: option.split)

section \<open>Objects and handles\<close>

lemma calm_newHandle [calm_rules]:
  assumes "kind_of ob \<noteq> KStream"
  shows "calm H (newHandle ob :: (('w, 'x) drv, nat) capi_m)"
proof (rule calmI)
  fix T R N and s :: "('w, 'x) drv capi" assume s: "steady H T R N s"
  then have "next_handle s \<notin> live_handles s" by (auto simp: steady_def)
  then have "streams_of (snd (newHandle ob s)) = streams_of s"
    using assms by (cases ob) (auto simp: newHandle_def streams_of_def kind_of_def split: if_splits)
  then show "steady H T R N (snd (newHandle ob s))" using s by (auto simp: steady_def newHandle_def)
qed

lemma not_stream_handle: "steady H T R N s \<Longrightarrow> h \<in> H \<Longrightarrow> h \<in> live_handles s \<Longrightarrow> objs s h \<noteq> Some (HStream cs)"
  by (force simp: steady_def streams_of_def)

lemma calm_deleteHandle [calm_rules]:
  assumes "h \<in> H"
  shows "calm H (deleteHandle h :: (('w, 'x) drv, unit) capi_m)"
proof (rule calmI)
  fix T R N and s :: "('w, 'x) drv capi" assume s: "steady H T R N s"
  then have "streams_of (snd (deleteHandle h s)) = streams_of s"
    using not_stream_handle [OF s assms] by (auto simp: deleteHandle_def streams_of_def)
  then show "steady H T R N (snd (deleteHandle h s))" using s by (auto simp: steady_def deleteHandle_def)
qed

lemma calm_set_object [calm_rules]:
  assumes "h \<in> H" "kind_of ob \<noteq> KStream"
  shows "calm H (set_object h ob :: (('w, 'x) drv, unit) capi_m)"
proof (rule calmI)
  fix T R N and s :: "('w, 'x) drv capi" assume s: "steady H T R N s"
  then have "streams_of (snd (set_object h ob s)) = streams_of s"
    using not_stream_handle [OF s assms(1)] assms(2) by (cases ob) (fastforce simp: set_object_def c_modify_def streams_of_def kind_of_def split: if_splits)+
  then show "steady H T R N (snd (set_object h ob s))" using s by (auto simp: steady_def set_object_def c_modify_def)
qed

text \<open>Behind a successful type assertion the handle is none of a stream.\<close>

lemma calm_get:
  fixes get :: "(('w, 'x) drv, 'd) capi_m"
  assumes get: "\<And>s. (\<exists>e. get s = (Inl e, s)) \<or> (\<exists>d. get s = (Inr d, s) \<and> objs s h = Some (con d))" "\<And>d. kind_of (con d) \<noteq> KStream"
    and f: "\<And>d. calm (insert h H) (f d)"
  shows "calm H (c_bind get f)"
proof (rule calmI)
  fix T R N and s :: "('w, 'x) drv capi" assume s: "steady H T R N s"
  show "steady H T R N (snd (c_bind get f s))"
  proof (cases "\<exists>e. get s = (Inl e, s)")
    case True
    then show ?thesis using s by (auto simp: c_bind_def)
  next
    case False
    then obtain d where d: "get s = (Inr d, s)" "objs s h = Some (con d)" using get(1) [of s] by blast
    then have "steady (insert h H) T R N s"
      using s get(2) [of d] by (cases "con d") (auto simp: steady_def streams_of_def kind_of_def)
    then have "steady (insert h H) T R N (snd (f d s))" using f by (simp add: calm_def)
    then show ?thesis using d(1) by (auto simp: c_bind_def steady_def)
  qed
qed

lemma calm_gets [calm_rules]:
  "(\<And>d. calm (insert h H) (f1 d)) \<Longrightarrow> calm H (c_bind (get_database h) f1)"
  "(\<And>d. calm (insert h H) (f2 d)) \<Longrightarrow> calm H (c_bind (get_conn h) f2)"
  "(\<And>d. calm (insert h H) (f3 d)) \<Longrightarrow> calm H (c_bind (get_stmt h) f3)"
  by (rule calm_get [where con = HDatabase and h = h] calm_get [where con = HConn and h = h] calm_get [where con = HStmt and h = h];
      auto simp: get_database_def get_conn_def get_stmt_def handle_value_def c_bind_def c_ret_def c_panic_def kind_of_def
        split: option.split c_object.split)+

lemma calm_check_alloc [calm_rules]: "calm H (check_alloc what data ptr fname)"
  unfolding check_alloc_def by (auto simp: calm_def steady_def split: option.split)

lemma calm_exports [calm_rules]:
  "calm H (fromCArr p n)" "calm H (exportStringOption v)" "calm H (exportBytesOption v)" "calm H (export_double d)" "calm H (export_int i)"
  "calm H (export_affected i)" "calm H (export_schema sc)" "calm H (export_schema_of res)" "calm H (bytes_value mem len)" "calm H (export_array b)"
  unfolding fromCArr_def exportStringOption_def exportBytesOption_def export_double_def export_int_def export_affected_def export_schema_def
    export_schema_of_def bytes_value_def export_array_def by (intro calm_rules)+

lemma calm_partitions [calm_rules]: "calm H (export_partitions part)"
  unfolding export_partitions_def Let_def by (intro calm_rules)

lemma calm_requiring [calm_rules]: "calm H m \<Longrightarrow> calm H (requiring env iface t msg m)"
  unfolding requiring_def by (intro calm_rules)

section \<open>Calls of the driver\<close>

text \<open>A call that leaves the readers of the driver as they are.\<close>

definition kept :: "(('w, 'x) drv, 'a) go_fun \<Rightarrow> bool" where
  "kept f \<longleftrightarrow> (\<forall>d. dv_readers (snd (f d)) = dv_readers d \<and> dv_next d \<le> dv_next (snd (f d)))"

named_theorems kept_rules \<open>rules deriving that a call of the driver leaves the readers as they are\<close>

lemma calm_go_do [calm_rules]:
  fixes f :: "(('w, 'x) drv, 'a) go_fun"
  assumes f: "kept f"
  shows "calm H (go_do f)"
proof (rule calmI)
  fix T R N and s :: "('w, 'x) drv capi" assume s: "steady H T R N s"
  obtain r w where w: "f (go_side s) = (r, w)" by (cases "f (go_side s)")
  have "dv_readers w = dv_readers (go_side s)" "dv_next (go_side s) \<le> dv_next w"
    using f w unfolding kept_def by (metis snd_conv)+
  then show "steady H T R N (snd (go_do f s))" using s w by (auto simp: steady_def go_do_def)
qed

lemma kept_basic [kept_rules]:
  "kept (go_ret v)" "kept (the_object sel k)" "kept (no_method :: (('w, 'x) drv, 'a) go_fun)" "kept (new_database a)" "kept (new_connection b)"
  "kept (new_statement st)" "kept (new_schema sc)" "kept (new_batch rec)" "kept (new_input i)" "kept (new_stream rs)" "kept (set_statement x ob)"
  "kept (go_update (\<lambda>d. d\<lparr>dv_dbs := dbs1 d\<rparr>))"
  by (auto simp: kept_def go_defs no_method_def go_throw_def allocate_def new_database_def new_connection_def new_statement_def new_schema_def
      new_batch_def new_input_def new_stream_def set_statement_def split: option.splits)

lemma kept_bind [kept_rules]:
  fixes f :: "(('w, 'x) drv, 'a) go_fun"
  assumes "kept f" "\<And>v. kept (g v)"
  shows "kept (go_bind f g)"
  unfolding kept_def
proof
  fix d
  obtain r d1 where f: "f d = (r, d1)" by (cases "f d")
  have d1: "dv_readers d1 = dv_readers d \<and> dv_next d \<le> dv_next d1" using assms(1) f unfolding kept_def by (metis snd_conv)
  show "dv_readers (snd (go_bind f g d)) = dv_readers d \<and> dv_next d \<le> dv_next (snd (go_bind f g d))"
  proof (cases r)
    case (Inr v)
    then show ?thesis using assms(2) [of v] d1 f unfolding kept_def by (auto simp: go_bind_def intro: order_trans)
  qed (use d1 f in \<open>simp add: go_bind_def\<close>)
qed

lemma kept_on_lib [kept_rules]: "kept (on_lib f)"
  by (simp add: kept_def on_lib_def split: prod.split)

lemma kept_case [kept_rules]:
  "(\<And>a b. kept (f a b)) \<Longrightarrow> kept (case p of (a, b) \<Rightarrow> f a b)"
  "(\<And>e. kept (l e)) \<Longrightarrow> (\<And>v. kept (r v)) \<Longrightarrow> kept (case x of Inl e \<Rightarrow> l e | Inr v \<Rightarrow> r v)"
  "kept n \<Longrightarrow> (\<And>v. kept (s v)) \<Longrightarrow> kept (case y of None \<Rightarrow> n | Some v \<Rightarrow> s v)"
  "(\<And>k rr. kept (q k rr)) \<Longrightarrow> (\<And>j. kept (w j)) \<Longrightarrow> kept (case rd of QuackReader k rr \<Rightarrow> q k rr | LibReader j \<Rightarrow> w j)"
  by (simp_all split: prod.split sum.split option.split drv_reader.split)

lemma kept_on_conn [kept_rules]: "kept (on_conn P k f)"
  unfolding on_conn_def by (intro kept_rules) (auto simp: kept_def split: outcome.splits)

lemma kept_on_stmt [kept_rules]: "kept (on_stmt P x f)" "kept (on_stmt_pure x h)"
  unfolding on_stmt_def on_stmt_pure_def by (intro kept_rules)+

lemma kept_make_result [kept_rules]: "(\<And>v. kept (mk v)) \<Longrightarrow> kept (make_result mk r)"
  unfolding make_result_def by (intro kept_rules)

lemma kept_opened: "kept (make_result new_connection r)"
  by (intro kept_rules)

lemma kept_on_net: "kept f \<Longrightarrow> dv_readers (snd (f (d\<lparr>dv_net := w\<rparr>))) = dv_readers d \<and> dv_next d \<le> dv_next (snd (f (d\<lparr>dv_net := w\<rparr>)))"
  by (simp add: kept_def) (metis drv.select_convs(1) drv.surjective drv.update_convs(10))

lemma kept_open [kept_rules]: "kept (drv_open P x)"
  unfolding drv_open_def
  by (intro kept_rules) (simp add: kept_def kept_on_net [OF kept_opened] split: outcome.split prod.split)

lemma kept_err [kept_rules]: "kept (drv_err P c)"
  by (cases "(P, c)" rule: drv_err.cases) (simp_all, (intro kept_rules)+)

text \<open>The calls that make something else than a reader.\<close>

lemma kept_make [kept_rules]:
  "kept (drv_make P (Go_NewDatabase opts))" "kept (drv_make P (Go_Open x))" "kept (drv_make P (Go_NewStatement k))"
  "kept (drv_make P (Go_GetTableSchema k ctx cat sch tab))" "kept (drv_make P (Go_ExecuteSchema x ctx))"
  "kept (drv_make P (Go_GetParameterSchema x))" "kept (drv_make P (Go_ImportRecordBatch arr schema))" "kept (drv_make P (Go_ImportRecordReader arr))"
  by (simp_all, (intro kept_rules)+)

lemma kept_rest [kept_rules]:
  "kept (drv_update P x ctx)" "kept (drv_partitions P x ctx)" "kept (drv_Batch P n)" "kept (drv_Err P n)" "kept (drv_Schema P n)"
  "kept (drv_effect P (Rec_Release rec))" "kept (drv_effect P (Release_CArray arr))" "kept (drv_effect P (Set_Logger x level))"
  unfolding drv_update_def drv_partitions_def drv_Batch_def drv_Err_def drv_Schema_def drv_effect_def
  by (simp_all, (intro kept_rules)+)

end
