(* ===== verification/CCalm.thy ===== *)
theory CCalm
  imports COwners
begin

text \<open>The operations of the C interface that neither make nor read nor release a record reader leave streams and readers alone.\<close>

definition calm_op :: "(('w, 'x) drv capi \<Rightarrow> nat \<times> ('w, 'x) drv capi) \<Rightarrow> bool" where
  "calm_op f \<longleftrightarrow> (\<forall>T R N s. steady {} T R N s \<longrightarrow> steady {} T R N (snd (f s)))"

lemma steady_poison: "steady H T R N s \<Longrightarrow> steady H T R N (snd (poison env fname e s))"
  by (auto simp: poison_def steady_def)

lemma calm_recovering:
  fixes m :: "(('w, 'x) drv, nat) capi_m"
  assumes "calm {} m"
  shows "calm_op (recovering env fname m)"
  unfolding calm_op_def
proof (intro allI impI)
  fix T R N and s :: "('w, 'x) drv capi" assume s: "steady {} T R N s"
  obtain r s1 where m: "m s = (r, s1)" by (cases "m s")
  have "steady {} T R N s1" using calmD [OF assms s m] .
  then show "steady {} T R N (snd (recovering env fname m s))"
    using m by (cases r) (simp_all add: recovering_def steady_poison)
qed

text \<open>Behind the checks.\<close>

lemma calm_db_init: "(\<And>h x. calm (insert h H) (body h x)) \<Longrightarrow> calm H (with_object (checkDBInit p fname) body)"
  unfolding with_object_db by (intro calm_gets calm_rules)

lemma calm_conn_init: "(\<And>h x. calm (insert h H) (body h x)) \<Longrightarrow> calm H (with_object (checkConnInit p fname) body)"
  unfolding with_object_conn by (intro calm_gets calm_rules)

lemma calm_stmt_init: "(\<And>h x. calm (insert h H) (body h x)) \<Longrightarrow> calm H (with_object (checkStmtInit p fname) body)"
  unfolding with_object_stmt by (intro calm_gets calm_rules)

lemmas calm_inits = calm_db_init calm_conn_init calm_stmt_init

lemma driver_env_options [simp]:
  "get_option (driver_env P) t k = no_method" "get_bytes (driver_env P) t k = no_method"
  "get_double (driver_env P) t k = no_method" "get_int (driver_env P) t k = no_method" "call_partitions (driver_env P) = drv_partitions P"
  by (simp_all add: driver_env_def)

lemma calm_option_ops:
  assumes "\<And>body. (\<And>h x. calm {h} (body h x)) \<Longrightarrow> calm {} (with_object (check fname) body)"
  shows "calm_op (getString_op (driver_env P) fname check target key)" "calm_op (getBytes_op (driver_env P) fname check target key)"
    "calm_op (getDouble_op (driver_env P) fname check target key)" "calm_op (getInt_op (driver_env P) fname check target key)"
    "\<And>gv. (\<And>H. calm H gv) \<Longrightarrow> calm_op (setValue_op (driver_env P) fname check target key gv)"
  unfolding getString_op_def getBytes_op_def getDouble_op_def getInt_op_def setValue_op_def driver_env_options driver_env_calls
  by (intro calm_recovering assms calm_rules kept_rules; assumption)+

lemma calm_db_options:
  "calm_op (QuackDatabaseGetOption (driver_env P) p key)" "calm_op (QuackDatabaseGetOptionBytes (driver_env P) p key)"
  "calm_op (QuackDatabaseGetOptionDouble (driver_env P) p key)" "calm_op (QuackDatabaseGetOptionInt (driver_env P) p key)"
  "calm_op (QuackDatabaseSetOptionBytes (driver_env P) p key mem len)" "calm_op (QuackDatabaseSetOptionDouble (driver_env P) p key d)"
  "calm_op (QuackDatabaseSetOptionInt (driver_env P) p key i)"
  unfolding QuackDatabaseGetOption_def QuackDatabaseGetOptionBytes_def QuackDatabaseGetOptionDouble_def QuackDatabaseGetOptionInt_def
    QuackDatabaseSetOptionBytes_def QuackDatabaseSetOptionDouble_def QuackDatabaseSetOptionInt_def
  by (intro calm_option_ops calm_db_init calm_rules; assumption)+

lemma calm_conn_options:
  "calm_op (QuackConnectionGetOption (driver_env P) p key)" "calm_op (QuackConnectionGetOptionBytes (driver_env P) p key)"
  "calm_op (QuackConnectionGetOptionDouble (driver_env P) p key)" "calm_op (QuackConnectionGetOptionInt (driver_env P) p key)"
  "calm_op (QuackConnectionSetOptionBytes (driver_env P) p key mem len)" "calm_op (QuackConnectionSetOptionDouble (driver_env P) p key d)"
  "calm_op (QuackConnectionSetOptionInt (driver_env P) p key i)"
  unfolding QuackConnectionGetOption_def QuackConnectionGetOptionBytes_def QuackConnectionGetOptionDouble_def QuackConnectionGetOptionInt_def
    QuackConnectionSetOptionBytes_def QuackConnectionSetOptionDouble_def QuackConnectionSetOptionInt_def
  by (intro calm_option_ops calm_conn_init calm_rules; assumption)+

lemma calm_stmt_options:
  "calm_op (QuackStatementGetOption (driver_env P) p key)" "calm_op (QuackStatementGetOptionBytes (driver_env P) p key)"
  "calm_op (QuackStatementGetOptionDouble (driver_env P) p key)" "calm_op (QuackStatementGetOptionInt (driver_env P) p key)"
  "calm_op (QuackStatementSetOptionBytes (driver_env P) p key mem len)" "calm_op (QuackStatementSetOptionDouble (driver_env P) p key d)"
  "calm_op (QuackStatementSetOptionInt (driver_env P) p key i)" "calm_op (QuackStatementSetOption (driver_env P) p key v)"
  unfolding QuackStatementGetOption_def QuackStatementGetOptionBytes_def QuackStatementGetOptionDouble_def QuackStatementGetOptionInt_def
    QuackStatementSetOptionBytes_def QuackStatementSetOptionDouble_def QuackStatementSetOptionInt_def QuackStatementSetOption_def driver_env_calls
  by (intro calm_option_ops calm_stmt_init calm_recovering calm_rules kept_rules; assumption)+

lemma calm_logging [calm_rules]: "calm H (initLoggingFromEnv (driver_env P) x)"
  unfolding initLoggingFromEnv_def driver_env_calls by (intro calm_rules kept_rules)

lemma calm_apply_options [calm_rules]: "calm H (apply_options (driver_env P) x kvs)"
proof (induction kvs)
  case (Cons kv kvs)
  show ?case unfolding apply_options.simps driver_env_calls by (intro calm_rules kept_rules Cons)
qed (simp add: calm_basic)

lemma calm_new [calm_rules]:
  "calm H m1 \<Longrightarrow> calm H m2 \<Longrightarrow> (\<And>a. calm H (m3 a)) \<Longrightarrow> (\<And>a. calm H (m4 a)) \<Longrightarrow>
   calm H (\<lambda>s. if globalPoison s then m1 s else case ptr of None \<Rightarrow> m2 s | Some a \<Rightarrow> if data s a \<noteq> (0::nat) then m3 a s else m4 a s)"
  by (auto simp: calm_def split: option.split)

lemma calm_db_ops:
  "calm_op (QuackDatabaseNew (driver_env P) p)" "calm_op (QuackDatabaseSetOption (driver_env P) p key v)"
  "calm_op (QuackDatabaseInit (driver_env P) p)" "calm_op (QuackDatabaseRelease (driver_env P) p)"
  unfolding QuackDatabaseNew_def QuackDatabaseSetOption_def QuackDatabaseInit_def QuackDatabaseRelease_def driver_env_calls checkDBAlloc_def
  by (intro calm_recovering calm_gets calm_rules kept_rules; simp add: kind_of_def)+

lemma calm_conn_ops:
  "calm_op (QuackConnectionNew (driver_env P) p)" "calm_op (QuackConnectionSetOption (driver_env P) p key v)"
  "calm_op (QuackConnectionInit (driver_env P) p db)" "calm_op (QuackConnectionRelease (driver_env P) p)"
  "calm_op (QuackConnectionCancel (driver_env P) p)" "calm_op (QuackConnectionGetTableSchema (driver_env P) p cat sch tab)"
  "calm_op (QuackConnectionCommit (driver_env P) p)" "calm_op (QuackConnectionRollback (driver_env P) p)"
  unfolding QuackConnectionNew_def QuackConnectionSetOption_def QuackConnectionInit_def QuackConnectionRelease_def QuackConnectionCancel_def
    QuackConnectionGetTableSchema_def QuackConnectionCommit_def QuackConnectionRollback_def driver_env_calls checkConnAlloc_def
  by (intro calm_recovering calm_gets calm_inits calm_rules kept_rules; simp add: kind_of_def)+

lemma calm_stmt_ops:
  "calm_op (QuackStatementNew (driver_env P) c p)" "calm_op (QuackStatementRelease (driver_env P) p)"
  "calm_op (QuackStatementCancel (driver_env P) p)" "calm_op (QuackStatementPrepare (driver_env P) p)"
  "calm_op (QuackStatementSetSqlQuery (driver_env P) p q)" "calm_op (QuackStatementSetSubstraitPlan (driver_env P) p plan len)"
  "calm_op (QuackStatementBind (driver_env P) p arr sch)" "calm_op (QuackStatementBindStream (driver_env P) p stream)"
  "calm_op (QuackStatementGetParameterSchema (driver_env P) p)" "calm_op (QuackStatementExecuteSchema (driver_env P) p)"
  "calm_op (QuackStatementExecutePartitions (driver_env P) p)"
  unfolding QuackStatementNew_def QuackStatementRelease_def QuackStatementCancel_def QuackStatementPrepare_def QuackStatementSetSqlQuery_def
    QuackStatementSetSubstraitPlan_def QuackStatementBind_def QuackStatementBindStream_def QuackStatementGetParameterSchema_def
    QuackStatementExecuteSchema_def QuackStatementExecutePartitions_def driver_env_calls driver_env_options checkStmtAlloc_def
  by (intro calm_recovering calm_gets calm_inits calm_rules kept_rules; simp add: kind_of_def)+

end
