(* ===== verification/COwnership.thy ===== *)
theory COwnership
  imports CCalm
begin

text \<open>
  The ownership of readers in every reachable state: a reader of the driver counts one reference while a live stream
  holds it, and none afterwards, with its cursor closed; no two streams hold the same reader.
\<close>

section \<open>The invariant\<close>

text \<open>With one reader \<open>u\<close> that has just been made and has no stream yet.\<close>

definition owned_but :: "nat option \<Rightarrow> ('w, 'x) drv capi \<Rightarrow> bool" where
  "owned_but u s \<longleftrightarrow> (\<forall>h \<in> live_handles s. h < next_handle s) \<and>
     (\<forall>h n. (h, n) \<in> streams_of s \<longrightarrow> n < dv_next (go_side s) \<and> Some n \<noteq> u) \<and>
     (\<forall>h h' n. (h, n) \<in> streams_of s \<longrightarrow> (h', n) \<in> streams_of s \<longrightarrow> h = h') \<and>
     (\<forall>n. u = Some n \<longrightarrow> n < dv_next (go_side s)) \<and>
     (\<forall>n k rr. dv_readers (go_side s) n = Some (QuackReader k rr) \<longrightarrow> n < dv_next (go_side s) \<and>
        (if Some n = u \<or> (\<exists>h. (h, n) \<in> streams_of s) then rr_refs rr = 1 else rr_refs rr = 0 \<and> c_closed (rr_cursor rr)))"

abbreviation owned :: "('w, 'x) drv capi \<Rightarrow> bool" where
  "owned \<equiv> owned_but None"

lemma owned_start: "dv_readers d = Map.empty \<Longrightarrow> owned (capi_start d)"
  by (simp add: owned_but_def capi_start_def streams_of_def)

text \<open>What the invariant looks at.\<close>

lemma owned_steady:
  assumes "owned_but u s" "streams_of s' = streams_of s" "dv_readers (go_side s') = dv_readers (go_side s)"
    "dv_next (go_side s) \<le> dv_next (go_side s')" "\<forall>h \<in> live_handles s'. h < next_handle s'"
  shows "owned_but u s'"
  using assms(1,4,5) unfolding owned_but_def assms(2,3) by (elim conjE, intro conjI) (blast intro: order_less_le_trans)+

lemma steady_of: "owned_but u s \<Longrightarrow> steady {} (streams_of s) (dv_readers (go_side s)) (dv_next (go_side s)) s"
  by (simp add: steady_def owned_but_def)

lemma calm_owned:
  assumes "calm {} m" "owned_but u s"
  shows "owned_but u (snd (m s))"
proof -
  have "steady {} (streams_of s) (dv_readers (go_side s)) (dv_next (go_side s)) (snd (m s))"
    using assms(1) steady_of [OF assms(2)] unfolding calm_def by blast
  then show ?thesis using owned_steady [OF assms(2)] unfolding steady_def by blast
qed

lemma calm_op_owned:
  assumes "calm_op f" "owned s" "f s = (code, s')"
  shows "owned s'"
proof -
  have "steady {} (streams_of s) (dv_readers (go_side s)) (dv_next (go_side s)) s'"
    using assms(1,3) steady_of [OF assms(2)] unfolding calm_op_def by (metis snd_conv)
  then show ?thesis using owned_steady [OF assms(2)] unfolding steady_def by blast
qed

lemma owned_fields [simp]:
  "owned_but u (s\<lparr>c_err := e\<rparr>) = owned_but u s" "owned_but u (s\<lparr>c_out := out\<rparr>) = owned_but u s"
  "owned_but u (s\<lparr>stream_data := g\<rparr>) = owned_but u s" "owned_but u (s\<lparr>globalPoison := b\<rparr>) = owned_but u s"
  "owned_but u (s\<lparr>stderr_log := l\<rparr>) = owned_but u s"
  by (simp_all add: owned_but_def)

section \<open>References\<close>

lemma reader_effect:
  assumes "e = Rdr_Retain n \<and> f = Retain \<or> e = Rdr_Release n \<and> f = Release"
  obtains w where "snd (go_do (drv_effect P e) s) = s\<lparr>go_side := w\<rparr>"
    "\<And>k rr. dv_readers (go_side s) n = Some (QuackReader k rr) \<Longrightarrow> w = (go_side s)\<lparr>dv_readers := (dv_readers (go_side s))(n \<mapsto> QuackReader k (f rr))\<rparr>"
    "(\<And>k rr. dv_readers (go_side s) n \<noteq> Some (QuackReader k rr)) \<Longrightarrow> dv_readers w = dv_readers (go_side s) \<and> dv_next w = dv_next (go_side s)"
proof -
  let ?w = "go_side (snd (go_do (drv_effect P e) s))"
  have "snd (go_do (drv_effect P e) s) = s\<lparr>go_side := ?w\<rparr>" by (simp add: go_do_def split: prod.split)
  moreover have "?w = snd (drv_effect P e (go_side s))" by (simp add: go_do_def split: prod.split)
  moreover have "snd (drv_effect P e (go_side s)) = (go_side s)\<lparr>dv_readers := (dv_readers (go_side s))(n \<mapsto> QuackReader k (f rr))\<rparr>"
    if "dv_readers (go_side s) n = Some (QuackReader k rr)" for k rr
    using that assms by (auto simp: drv_effect_def count_reference_def go_defs set_reader_def)
  moreover have "dv_readers (snd (drv_effect P e (go_side s))) = dv_readers (go_side s) \<and> dv_next (snd (drv_effect P e (go_side s))) = dv_next (go_side s)"
    if "\<And>k rr. dv_readers (go_side s) n \<noteq> Some (QuackReader k rr)"
    using that assms by (auto simp: drv_effect_def count_reference_def go_defs on_lib_def split: option.splits drv_reader.splits prod.splits)
  ultimately show ?thesis using that [of ?w] by metis
qed

lemma refs_one: "rr_refs rr = 1 \<Longrightarrow> rr_refs (Retain rr) = 2" "rr_refs rr = 2 \<Longrightarrow> rr_refs (Release rr) = 1"
    "rr_refs rr = 1 \<Longrightarrow> rr_refs (Release rr) = 0 \<and> c_closed (rr_cursor (Release rr))"
proof -
  have "wrap64 2 = 2" "wrap64 1 = 1" "wrap64 0 = 0" by (simp_all add: wrap64_id)
  then show "rr_refs rr = 1 \<Longrightarrow> rr_refs (Retain rr) = 2" "rr_refs rr = 2 \<Longrightarrow> rr_refs (Release rr) = 1"
    "rr_refs rr = 1 \<Longrightarrow> rr_refs (Release rr) = 0 \<and> c_closed (rr_cursor (Release rr))"
    by (simp_all add: Retain_def Release_def close_cursor_def)
qed

text \<open>Dropping the reader that has no stream.\<close>

lemma owned_forget:
  assumes s: "owned_but (Some n) s" and n: "\<And>k rr. dv_readers (go_side s) n \<noteq> Some (QuackReader k rr)"
  shows "owned s"
  unfolding owned_but_def
proof (intro conjI allI impI)
  fix m k rr assume m: "dv_readers (go_side s) m = Some (QuackReader k rr)"
  then have "m \<noteq> n" using n by auto
  then show "m < dv_next (go_side s)"
    "if Some m = None \<or> (\<exists>h. (h, m) \<in> streams_of s) then rr_refs rr = 1 else rr_refs rr = 0 \<and> c_closed (rr_cursor rr)"
    using s m by (auto simp: owned_but_def split: if_splits)
qed (use s in \<open>auto simp: owned_but_def\<close>)

lemma drop_reader:
  assumes "owned_but (Some n) s"
  shows "owned (snd (go_do (drv_effect P (Rdr_Release n)) s))"
proof -
  obtain w where w: "snd (go_do (drv_effect P (Rdr_Release n)) s) = s\<lparr>go_side := w\<rparr>"
    "\<And>k rr. dv_readers (go_side s) n = Some (QuackReader k rr) \<Longrightarrow> w = (go_side s)\<lparr>dv_readers := (dv_readers (go_side s))(n \<mapsto> QuackReader k (Release rr))\<rparr>"
    "(\<And>k rr. dv_readers (go_side s) n \<noteq> Some (QuackReader k rr)) \<Longrightarrow> dv_readers w = dv_readers (go_side s) \<and> dv_next w = dv_next (go_side s)"
    by (rule reader_effect [of "Rdr_Release n" n Release P s]) auto
  show ?thesis
  proof (cases "\<exists>k rr. dv_readers (go_side s) n = Some (QuackReader k rr)")
    case True
    then obtain k rr where rr: "dv_readers (go_side s) n = Some (QuackReader k rr)" by blast
    then have "rr_refs rr = 1" using assms by (auto simp: owned_but_def)
    then show ?thesis using assms rr refs_one(3) [of rr] unfolding owned_but_def w(1) w(2) [OF rr] by (auto split: if_splits)
  next
    case False
    then have "dv_readers w = dv_readers (go_side s)" "dv_next w = dv_next (go_side s)" using w(3) by blast+
    moreover have "owned s" using assms False by (intro owned_forget) auto
    ultimately show ?thesis unfolding owned_but_def w(1) by auto
  qed
qed

section \<open>Exporting a reader\<close>

lemma export_owned:
  assumes "owned_but (Some n) s"
  shows "owned (snd (export_reader (driver_env P) out (Inr n) s))"
proof (cases out)
  case None
  have "snd (export_reader (driver_env P) None (Inr n) s) = snd (go_do (drv_effect P (Rdr_Release n)) s)"
    by (simp add: export_reader_def exportRecordReader_def c_defer_def c_bind_def c_panic_def split: prod.split sum.split)
  then show ?thesis using drop_reader [OF assms] None by simp
next
  case (Some a)
  let ?ob = "HStream \<lparr>cs_rdr = n, cs_adbcErr = None, cs_status = ADBC_STATUS_OK\<rparr>"
  define s1 where "s1 = s\<lparr>objs := (objs s)(next_handle s \<mapsto> ?ob), live_handles := insert (next_handle s) (live_handles s),
    next_handle := next_handle s + 1, stream_data := (stream_data s)(a := \<lparr>st_ours = True, st_private = next_handle s\<rparr>)\<rparr>"
  define s2 where "s2 = snd (go_do (drv_effect P (Rdr_Retain n)) s1)"
  have out: "snd (export_reader (driver_env P) out (Inr n) s) = snd (go_do (drv_effect P (Rdr_Release n)) s2)"
    by (simp add: Some export_reader_def exportRecordReader_def c_defer_def c_bind_def c_modify_def newHandle_def c_ret_def s1_def s2_def
        split: prod.split sum.split)
  have "next_handle s \<notin> live_handles s" using assms by (auto simp: owned_but_def)
  then have st: "streams_of s1 = insert (next_handle s, n) (streams_of s)" by (auto simp: s1_def streams_of_def split: if_splits)
  have g: "go_side s1 = go_side s" "live_handles s1 = insert (next_handle s) (live_handles s)" "next_handle s1 = next_handle s + 1"
    by (simp_all add: s1_def)
  obtain w where w: "s2 = s1\<lparr>go_side := w\<rparr>"
    "\<And>k rr. dv_readers (go_side s1) n = Some (QuackReader k rr) \<Longrightarrow> w = (go_side s1)\<lparr>dv_readers := (dv_readers (go_side s1))(n \<mapsto> QuackReader k (Retain rr))\<rparr>"
    "(\<And>k rr. dv_readers (go_side s1) n \<noteq> Some (QuackReader k rr)) \<Longrightarrow> dv_readers w = dv_readers (go_side s1) \<and> dv_next w = dv_next (go_side s1)"
    unfolding s2_def by (rule reader_effect [of "Rdr_Retain n" n Retain P s1]) auto
  obtain v where v: "snd (go_do (drv_effect P (Rdr_Release n)) s2) = s2\<lparr>go_side := v\<rparr>"
    "\<And>k rr. dv_readers (go_side s2) n = Some (QuackReader k rr) \<Longrightarrow> v = (go_side s2)\<lparr>dv_readers := (dv_readers (go_side s2))(n \<mapsto> QuackReader k (Release rr))\<rparr>"
    "(\<And>k rr. dv_readers (go_side s2) n \<noteq> Some (QuackReader k rr)) \<Longrightarrow> dv_readers v = dv_readers (go_side s2) \<and> dv_next v = dv_next (go_side s2)"
    by (rule reader_effect [of "Rdr_Release n" n Release P s2]) auto
  have new: "owned (s1\<lparr>go_side := v\<rparr>)" if r: "dv_next v = dv_next (go_side s)"
      "\<And>m. m \<noteq> n \<Longrightarrow> dv_readers v m = dv_readers (go_side s) m"
      "\<And>k rr. dv_readers v n = Some (QuackReader k rr) \<Longrightarrow> rr_refs rr = 1"
    unfolding owned_but_def
  proof (intro conjI allI impI)
    show "\<forall>h \<in> live_handles (s1\<lparr>go_side := v\<rparr>). h < next_handle (s1\<lparr>go_side := v\<rparr>)"
      using assms by (auto simp: g owned_but_def less_Suc_eq)
  next
    fix h m assume "(h, m) \<in> streams_of (s1\<lparr>go_side := v\<rparr>)"
    then show "m < dv_next (go_side (s1\<lparr>go_side := v\<rparr>))" using assms r(1) by (auto simp: st owned_but_def)
  next
    fix h h' m assume "(h, m) \<in> streams_of (s1\<lparr>go_side := v\<rparr>)" "(h', m) \<in> streams_of (s1\<lparr>go_side := v\<rparr>)"
    then show "h = h'" using assms by (auto simp: st owned_but_def)
  next
    fix m k rr assume m: "dv_readers (go_side (s1\<lparr>go_side := v\<rparr>)) m = Some (QuackReader k rr)"
    have "n < dv_next (go_side s)" using assms by (simp add: owned_but_def)
    then show "m < dv_next (go_side (s1\<lparr>go_side := v\<rparr>))"
      using assms m r(1,2) by (cases "m = n") (simp_all add: owned_but_def)
    show "if Some m = None \<or> (\<exists>h. (h, m) \<in> streams_of (s1\<lparr>go_side := v\<rparr>)) then rr_refs rr = 1 else rr_refs rr = 0 \<and> c_closed (rr_cursor rr)"
    proof (cases "m = n")
      case True
      then show ?thesis using m r(3) by (auto simp: st)
    next
      case False
      then have "dv_readers (go_side s) m = Some (QuackReader k rr)" using m r(2) by simp
      then show ?thesis using assms False by (auto simp: st owned_but_def split: if_splits)
    qed
  qed auto
  have "owned (s1\<lparr>go_side := v\<rparr>)"
  proof (cases "\<exists>k rr. dv_readers (go_side s) n = Some (QuackReader k rr)")
    case True
    then obtain k rr where rr: "dv_readers (go_side s) n = Some (QuackReader k rr)" by blast
    then have one: "rr_refs rr = 1" using assms by (auto simp: owned_but_def)
    have w': "w = (go_side s)\<lparr>dv_readers := (dv_readers (go_side s))(n \<mapsto> QuackReader k (Retain rr))\<rparr>" using w(2) [of k rr] rr g(1) by simp
    then have "v = w\<lparr>dv_readers := (dv_readers w)(n \<mapsto> QuackReader k (Release (Retain rr)))\<rparr>" using v(2) [of k "Retain rr"] w(1) by simp
    then show ?thesis using w' refs_one(1,2) one by (intro new) auto
  next
    case False
    then have "dv_readers w = dv_readers (go_side s) \<and> dv_next w = dv_next (go_side s)" using w(3) g(1) by auto
    moreover from this have "dv_readers v = dv_readers w \<and> dv_next v = dv_next w" using v(3) w(1) False by auto
    ultimately show ?thesis using False by (intro new) auto
  qed
  then show ?thesis unfolding out v(1) unfolding w(1) by simp
qed

end
