(* ===== verification/CReaders.thy ===== *)
theory CReaders
  imports COwnership
begin

text \<open>
  The operations that make, read and release record readers, and the invariant over every sequence of calls.
\<close>

section \<open>Calls that make a reader\<close>

definition fresh_reader :: "drv_reader \<Rightarrow> bool" where
  "fresh_reader rd \<longleftrightarrow> (\<forall>k rr. rd = QuackReader k rr \<longrightarrow> rr_refs rr = 1)"

text \<open>At most one reader is new, the one \<open>p\<close> finds in the result, and it counts one reference.\<close>

definition makes_reader :: "('a \<Rightarrow> nat option) \<Rightarrow> (('w, 'x) drv, 'a) go_fun \<Rightarrow> bool" where
  "makes_reader p f \<longleftrightarrow> (\<forall>d r d'. f d = (r, d') \<longrightarrow> dv_next d \<le> dv_next d' \<and>
     (case (case r of Inl _ \<Rightarrow> None | Inr v \<Rightarrow> p v) of None \<Rightarrow> dv_readers d' = dv_readers d
      | Some n \<Rightarrow> dv_next d \<le> n \<and> n < dv_next d' \<and> (\<exists>rd. dv_readers d' = (dv_readers d)(n \<mapsto> rd) \<and> fresh_reader rd)))"

definition made :: "api_error + nat \<Rightarrow> nat option" where
  "made r = (case r of Inl _ \<Rightarrow> None | Inr n \<Rightarrow> Some n)"

definition queried :: "api_error + nat \<times> int \<Rightarrow> nat option" where
  "queried r = (case r of Inl _ \<Rightarrow> None | Inr (n, _) \<Rightarrow> Some n)"

named_theorems make_rules \<open>rules deriving that a call makes at most one reader\<close>

lemma makes_ret [make_rules]: "p v = None \<Longrightarrow> makes_reader p (go_ret v)" "makes_reader p (no_method :: (('w, 'x) drv, 'a) go_fun)"
  by (simp_all add: makes_reader_def go_ret_def no_method_def go_throw_def)

lemma makes_bind_when:
  fixes f :: "(('w, 'x) drv, 'a) go_fun"
  assumes "kept f" "\<And>d v d'. f d = (Inr v, d') \<Longrightarrow> makes_reader p (g v)"
  shows "makes_reader p (go_bind f g)"
  unfolding makes_reader_def
proof (intro allI impI)
  fix d r d' assume b: "go_bind f g d = (r, d')"
  obtain q d1 where f: "f d = (q, d1)" by (cases "f d")
  have d1: "dv_readers d1 = dv_readers d" "dv_next d \<le> dv_next d1" using assms(1) f unfolding kept_def by (metis snd_conv)+
  show "dv_next d \<le> dv_next d' \<and> (case (case r of Inl _ \<Rightarrow> None | Inr v \<Rightarrow> p v) of None \<Rightarrow> dv_readers d' = dv_readers d
      | Some n \<Rightarrow> dv_next d \<le> n \<and> n < dv_next d' \<and> (\<exists>rd. dv_readers d' = (dv_readers d)(n \<mapsto> rd) \<and> fresh_reader rd))"
  proof (cases q)
    case (Inl e)
    then show ?thesis using b f d1 by (auto simp: go_bind_def)
  next
    case (Inr v)
    then have "makes_reader p (g v)" "g v d1 = (r, d')" using assms(2) b f by (auto simp: go_bind_def)
    then show ?thesis using d1 unfolding makes_reader_def by (fastforce split: option.splits)
  qed
qed

lemma makes_bind [make_rules]: "kept f \<Longrightarrow> (\<And>v. makes_reader p (g v)) \<Longrightarrow> makes_reader p (go_bind f g)"
  by (rule makes_bind_when)

lemma makes_case [make_rules]:
  "(\<And>a b. makes_reader p (f a b)) \<Longrightarrow> makes_reader p (case q of (a, b) \<Rightarrow> f a b)"
  "(\<And>e. makes_reader p (l e)) \<Longrightarrow> (\<And>v. makes_reader p (r v)) \<Longrightarrow> makes_reader p (case x of Inl e \<Rightarrow> l e | Inr v \<Rightarrow> r v)"
  by (simp_all split: prod.split sum.split)

lemma makes_new [make_rules]: "fresh_reader rd \<Longrightarrow> makes_reader made (go_bind (new_reader rd) (\<lambda>n. go_ret (Inr n)))"
  by (auto simp: makes_reader_def go_defs new_reader_def allocate_def made_def)

lemma made_error [simp]: "made (Inl e) = None" "queried (Inl e) = None"
  by (simp_all add: made_def queried_def)

lemma makes_library [make_rules]: "makes_reader made (library_reader P src)" "makes_reader made (reader_result P f r)"
proof -
  show l: "makes_reader made (library_reader P src)" for src
    unfolding library_reader_def by (intro make_rules kept_rules) (simp_all add: fresh_reader_def)
  show "makes_reader made (reader_result P f r)"
    unfolding reader_result_def by (intro make_rules l) simp
qed

lemma read_partition_fails: "on_conn P k (\<lambda>send. ReadPartition part) d = (Inr r, d') \<Longrightarrow> \<exists>e. r = Inl e"
  by (auto simp: on_conn_def go_defs ReadPartition_def cfail_def split: option.splits)

lemma makes_metadata [make_rules]:
  "makes_reader made (drv_make P (Go_GetInfo k ctx codes))" "makes_reader made (drv_make P (Go_GetObjects k ctx depth cat sch tab col types))"
  "makes_reader made (drv_make P (Go_GetStatistics k ctx cat sch tab approx))" "makes_reader made (drv_make P (Go_GetStatisticNames k ctx))"
  "makes_reader made (drv_make P (Go_GetTableTypes k ctx))" "makes_reader made (drv_make P (Go_ReadPartition k ctx part))"
proof -
  show "makes_reader made (drv_make P (Go_ReadPartition k ctx part))"
    by (simp, rule makes_bind_when, rule kept_on_conn, drule read_partition_fails) (auto simp: make_result_def makes_ret)
qed (simp_all, (intro make_rules kept_rules)+)

text \<open>A streaming reader of \<open>ExecuteQuery\<close> is new.\<close>

lemma cbind_Inr: "cbind f g c = Done (Inr v, c') \<longleftrightarrow> (\<exists>w c1. f c = Done (Inr w, c1) \<and> g w c1 = Done (Inr v, c'))"
  by (cases "f c") (auto simp: cbind_def outcome_bind_def split: sum.splits)

lemma open_reader_fresh: "open_reader ls send sql c = Done (Inr rr, c') \<Longrightarrow> rr_refs rr = 1"
  by (auto simp: open_reader_def cbind_Inr outcome_bind_eq_Done dest!: new_reader_refs)

lemma bound_query_fresh:
  assumes "executeBoundQuery ls send n st c = Done (Inr (Streaming rr), c')"
  shows "rr_refs rr = 1"
proof -
  obtain r where r: "boundRows (l_arrow ls) (bound st) (boundStream st) = Done r"
    using assms by (auto simp: executeBoundQuery_def outcome_bind_eq_Done)
  show ?thesis
  proof (cases r)
    case (Inr rows)
    show ?thesis
    proof (cases "substituteParams (l_float ls) (st_sql st) (hd rows)")
      case (Inr sql)
      then show ?thesis using assms r \<open>r = Inr rows\<close>
        by (auto simp: executeBoundQuery_def cbind_Inr cret_def cfail_def Let_def split: if_splits dest!: open_reader_fresh)
    qed (use assms r Inr in \<open>auto simp: executeBoundQuery_def cbind_Inr cret_def cfail_def Let_def split: if_splits\<close>)
  qed (use assms r in \<open>auto simp: executeBoundQuery_def cfail_def\<close>)
qed

lemma query_fresh:
  assumes "ExecuteQuery ls send n c st = Done (Inr (Streaming rr), c', st')"
  shows "rr_refs rr = 1"
proof (cases "st_sql st = []")
  case False
  then obtain r c1 where r: "beginTxIfNeeded send n c = Done (r, c1)" using assms by (auto simp: ExecuteQuery_def outcome_bind_eq_Done)
  show ?thesis using assms False r
    by (cases r) (auto simp: ExecuteQuery_def with_stmt_def outcome_bind_eq_Done cbind_Inr cret_def split: if_splits
      dest: bound_query_fresh open_reader_fresh)
qed (use assms in \<open>simp add: ExecuteQuery_def\<close>)

lemma on_stmt_result:
  assumes "on_stmt P x f d = (Inr r, d')"
  obtains send c st c' st' where "f send c st = Done (r, c', st')"
  using assms
  by (auto simp: on_stmt_def on_conn_def go_defs set_statement_def outcome_bind_eq_Done split: option.splits prod.splits outcome.splits sum.splits)

lemma makes_queried:
  fixes f :: "(('w, 'x) drv, api_error + nat) go_fun"
  assumes "makes_reader made f"
  shows "makes_reader queried (go_bind f (\<lambda>r. go_ret (map_sum id (\<lambda>n. (n, -1)) r)))"
  unfolding makes_reader_def
proof (intro allI impI)
  fix d d' :: "('w, 'x) drv" and r
  assume b: "go_bind f (\<lambda>r. go_ret (map_sum id (\<lambda>n. (n, -1 :: int)) r)) d = (r, d')"
  obtain q d1 where f: "f d = (q, d1)" by (cases "f d")
  then have "d1 = d'" using b by (cases q) (simp_all add: go_bind_def go_ret_def)
  moreover have "(case r of Inl _ \<Rightarrow> None | Inr v \<Rightarrow> queried v) = (case q of Inl _ \<Rightarrow> None | Inr v \<Rightarrow> made v)"
    using b f by (cases q) (auto simp: go_bind_def go_ret_def made_def queried_def split: sum.split)
  ultimately show "dv_next d \<le> dv_next d' \<and> (case (case r of Inl _ \<Rightarrow> None | Inr v \<Rightarrow> queried v) of None \<Rightarrow> dv_readers d' = dv_readers d
      | Some n \<Rightarrow> dv_next d \<le> n \<and> n < dv_next d' \<and> (\<exists>rd. dv_readers d' = (dv_readers d)(n \<mapsto> rd) \<and> fresh_reader rd))"
    using assms f unfolding makes_reader_def by simp
qed

lemma makes_query [make_rules]: "makes_reader queried (drv_query P x ctx)"
proof -
  have "makes_reader made (case r of Inl e \<Rightarrow> go_ret (Inl (api_error_of e))
       | Inr (Streaming rr) \<Rightarrow> go_bind (new_reader (QuackReader k rr)) (\<lambda>n. go_ret (Inr n))
       | Inr (Records schema recs) \<Rightarrow> library_reader P (Source_Records schema recs))"
    if "on_stmt P x (\<lambda>send. ExecuteQuery (dp_libs P) send (dp_fuel P)) d = (Inr r, d')" for k r and d d' :: "('a, 'b) drv"
  proof (cases r)
    case (Inr q)
    show ?thesis
    proof (cases q)
      case (Streaming rr)
      have "rr_refs rr = 1" using that on_stmt_result query_fresh unfolding Inr Streaming by metis
      then show ?thesis using Inr Streaming by (simp add: makes_new fresh_reader_def)
    qed (simp add: Inr makes_library)
  qed (simp add: makes_ret)
  then show ?thesis
    unfolding drv_query_def
    by (intro makes_bind [OF kept_basic(2)] makes_case(1) makes_bind_when [OF kept_on_stmt(1)] makes_queried) blast
qed

section \<open>Operations that keep the invariant\<close>

definition sound :: "(('w, 'x) drv, 'a) capi_m \<Rightarrow> bool" where
  "sound m \<longleftrightarrow> (\<forall>s. owned s \<longrightarrow> owned (snd (m s)))"

named_theorems sound_rules \<open>rules deriving that an operation keeps the ownership of readers\<close>

lemma sound_calm: "calm {} m \<Longrightarrow> sound m"
  by (simp add: sound_def calm_owned)

lemma sound_bind [sound_rules]:
  fixes m :: "(('w, 'x) drv, 'a) capi_m"
  assumes "calm {} m" "\<And>v. sound (f v)"
  shows "sound (c_bind m f)"
  unfolding sound_def
proof (intro allI impI)
  fix s :: "('w, 'x) drv capi" assume s: "owned s"
  obtain r s1 where m: "m s = (r, s1)" by (cases "m s")
  have "owned s1" using calm_owned [OF assms(1) s] m by simp
  then show "owned (snd (c_bind m f s))" using assms(2) m by (cases r) (simp_all add: c_bind_def sound_def)
qed

lemma sound_cases [sound_rules]:
  "(b \<Longrightarrow> sound m) \<Longrightarrow> (\<not> b \<Longrightarrow> sound n) \<Longrightarrow> sound (if b then m else n)"
  "(z = None \<Longrightarrow> sound m) \<Longrightarrow> (\<And>v. z = Some v \<Longrightarrow> sound (f v)) \<Longrightarrow> sound (case z of None \<Rightarrow> m | Some v \<Rightarrow> f v)"
  "(\<And>a b. q = (a, b) \<Longrightarrow> sound (k a b)) \<Longrightarrow> sound (case q of (a, b) \<Rightarrow> k a b)"
  by (simp_all split: option.split prod.split)

lemma sound_requiring [sound_rules]: "sound m \<Longrightarrow> sound (requiring env iface t msg m)"
  unfolding requiring_def by (intro sound_rules sound_calm [OF calm_errors(2)])

text \<open>The state after a call that may make a reader.\<close>

lemma owned_made:
  assumes f: "makes_reader p f" and s: "owned s" "go_do f s = (r, s')"
  shows "owned_but (case r of Inl _ \<Rightarrow> None | Inr v \<Rightarrow> p v) s'"
proof -
  obtain d' where d': "f (go_side s) = (r, d')" "s' = s\<lparr>go_side := d'\<rparr>" using s(2) by (cases "f (go_side s)") (auto simp: go_do_def)
  have m: "dv_next (go_side s) \<le> dv_next d'" "case (case r of Inl _ \<Rightarrow> None | Inr v \<Rightarrow> p v) of None \<Rightarrow> dv_readers d' = dv_readers (go_side s)
      | Some n \<Rightarrow> dv_next (go_side s) \<le> n \<and> n < dv_next d' \<and> (\<exists>rd. dv_readers d' = (dv_readers (go_side s))(n \<mapsto> rd) \<and> fresh_reader rd)"
    using f d'(1) unfolding makes_reader_def by blast+
  show ?thesis
  proof (cases "case r of Inl _ \<Rightarrow> None | Inr v \<Rightarrow> p v")
    case None
    have "owned s'" by (rule owned_steady [OF s(1)]) (use None m d'(2) s(1) in \<open>auto simp: owned_but_def\<close>)
    then show ?thesis using None by simp
  next
    case (Some n)
    then obtain rd where n: "dv_next (go_side s) \<le> n" "n < dv_next d'" "dv_readers d' = (dv_readers (go_side s))(n \<mapsto> rd)" "fresh_reader rd"
      using m(2) by auto
    have "owned_but (Some n) s'"
      unfolding owned_but_def
    proof (intro conjI allI impI)
      fix h m assume "(h, m) \<in> streams_of s'"
      then have "m < dv_next (go_side s)" using s(1) by (auto simp: d'(2) owned_but_def)
      then show "m < dv_next (go_side s')" "Some m \<noteq> Some n" using n m(1) by (auto simp: d'(2))
    next
      fix m k rr assume r: "dv_readers (go_side s') m = Some (QuackReader k rr)"
      show "m < dv_next (go_side s')"
      proof (cases "m = n")
        case False
        then have "m < dv_next (go_side s)" using r s(1) n by (auto simp: d'(2) owned_but_def)
        then show ?thesis using m(1) by (simp add: d'(2))
      qed (use n in \<open>simp add: d'(2)\<close>)
      have "m \<noteq> n \<Longrightarrow> if Some m = None \<or> (\<exists>h. (h, m) \<in> streams_of s) then rr_refs rr = 1 else rr_refs rr = 0 \<and> c_closed (rr_cursor rr)"
        using r s(1) n unfolding owned_but_def by (simp add: d'(2))
      then show "if Some m = Some n \<or> (\<exists>h. (h, m) \<in> streams_of s') then rr_refs rr = 1 else rr_refs rr = 0 \<and> c_closed (rr_cursor rr)"
        using r n by (cases "m = n") (auto simp: d'(2) fresh_reader_def)
    qed (use s(1) n in \<open>auto simp: d'(2) owned_but_def\<close>)
    then show ?thesis using Some by simp
  qed
qed

lemma sound_export [sound_rules]:
  fixes f :: "(('w, 'x) drv, api_error + nat) go_fun"
  assumes "makes_reader made f"
  shows "sound (c_bind (go_do f) (export_reader (driver_env P) out))"
  unfolding sound_def
proof (intro allI impI)
  fix s :: "('w, 'x) drv capi" assume s: "owned s"
  obtain r s1 where m: "go_do f s = (r, s1)" by (cases "go_do f s")
  have o: "owned_but (case r of Inl _ \<Rightarrow> None | Inr v \<Rightarrow> made v) s1" by (rule owned_made [OF assms s m])
  show "owned (snd (c_bind (go_do f) (export_reader (driver_env P) out) s))"
  proof (cases r)
    case (Inr v)
    show ?thesis
    proof (cases v)
      case (Inl e)
      have "sound (report (Some e) :: (('w, 'x) drv, nat) capi_m)" by (rule sound_calm [OF calm_errors(3)])
      then show ?thesis using o m \<open>r = Inr v\<close> Inl by (simp add: c_bind_def export_reader_def sound_def made_def)
    next
      case (Inr n)
      then have "owned_but (Some n) s1" using o \<open>r = Inr v\<close> by (simp add: made_def)
      then show ?thesis using m \<open>r = Inr v\<close> Inr export_owned [of n s1 P out] by (simp add: c_bind_def)
    qed
  qed (use o m in \<open>simp add: c_bind_def\<close>)
qed

lemma sound_query [sound_rules]:
  "sound (c_bind (go_do (drv_query P x ctx)) (\<lambda>res. case res of Inl e \<Rightarrow> report (Some e)
     | Inr (rdr, n) \<Rightarrow> c_then (export_affected n) (export_reader (driver_env P) out (Inr rdr))))"
  unfolding sound_def
proof (intro allI impI)
  fix s :: "('a, 'b) drv capi" assume s: "owned s"
  obtain r s1 where m: "go_do (drv_query P x ctx) s = (r, s1)" by (cases "go_do (drv_query P x ctx) s")
  have o: "owned_but (case r of Inl _ \<Rightarrow> None | Inr v \<Rightarrow> queried v) s1" by (rule owned_made [OF makes_query s m])
  show "owned (snd (c_bind (go_do (drv_query P x ctx)) (\<lambda>res. case res of Inl e \<Rightarrow> report (Some e)
     | Inr (rdr, n) \<Rightarrow> c_then (export_affected n) (export_reader (driver_env P) out (Inr rdr))) s))"
  proof (cases r)
    case (Inr v)
    show ?thesis
    proof (cases v)
      case (Inl e)
      have "sound (report (Some e) :: (('a, 'b) drv, nat) capi_m)" by (rule sound_calm [OF calm_errors(3)])
      then show ?thesis using o m \<open>r = Inr v\<close> Inl by (simp add: c_bind_def sound_def queried_def)
    next
      case (Inr q)
      obtain n k where q: "q = (n, k)" by (cases q)
      then have "owned_but (Some n) s1" using o \<open>r = Inr v\<close> Inr by (simp add: queried_def)
      moreover obtain s2 where a: "export_affected k s1 = (Inr (), s2)"
        by (cases "o_affected (c_out s1)") (auto simp: export_affected_def c_bind_def c_gets_def c_ret_def c_modify_def)
      ultimately have "owned_but (Some n) s2" using calm_owned [OF calm_exports(6), of "Some n" s1 k] by simp
      then show ?thesis using m \<open>r = Inr v\<close> Inr q a export_owned [of n s2 P out] by (simp add: c_bind_def)
    qed
  qed (use o m in \<open>simp add: c_bind_def\<close>)
qed

text \<open>Operations with \<open>recover\<close>.\<close>

definition sound_op :: "(('w, 'x) drv capi \<Rightarrow> nat \<times> ('w, 'x) drv capi) \<Rightarrow> bool" where
  "sound_op f \<longleftrightarrow> (\<forall>s. owned s \<longrightarrow> owned (snd (f s)))"

lemma sound_opD: "sound_op f \<Longrightarrow> owned s \<Longrightarrow> f s = (code, s') \<Longrightarrow> owned s'"
  unfolding sound_op_def by (metis snd_conv)

lemma sound_recovering:
  fixes m :: "(('w, 'x) drv, nat) capi_m"
  assumes "sound m"
  shows "sound_op (recovering env fname m)"
  unfolding sound_op_def
proof (intro allI impI)
  fix s :: "('w, 'x) drv capi" assume s: "owned s"
  obtain r s1 where m: "m s = (r, s1)" by (cases "m s")
  have "owned s1" using assms s m unfolding sound_def by (metis snd_conv)
  then show "owned (snd (recovering env fname m s))" using m by (cases r) (simp_all add: recovering_def poison_def)
qed

lemma calm_checks: "calm {} (checkConnInit p fname)" "calm {} (checkStmtInit p fname)"
  unfolding checkConnInit_def checkStmtInit_def checkConnAlloc_def checkStmtAlloc_def by (intro calm_gets calm_rules)+

lemma sound_inits:
  assumes "\<And>h x. sound (body h x)"
  shows "sound (with_object (checkConnInit p fname) body)" "sound (with_object (checkStmtInit p fname) body)"
  unfolding with_object_def by (intro sound_rules calm_checks sound_calm [OF calm_basic(1)] assms)+

lemma reader_ops:
  "sound_op (QuackConnectionGetInfo (driver_env P) p codes len out)" "sound_op (QuackConnectionGetObjects (driver_env P) p depth cat sch tab tts col out)"
  "sound_op (QuackConnectionGetStatistics (driver_env P) p cat sch tab approx out)" "sound_op (QuackConnectionGetStatisticNames (driver_env P) p out)"
  "sound_op (QuackConnectionGetTableTypes (driver_env P) p out)" "sound_op (QuackConnectionReadPartition (driver_env P) p ser len out)"
  unfolding QuackConnectionGetInfo_def QuackConnectionGetObjects_def QuackConnectionGetStatistics_def QuackConnectionGetStatisticNames_def
    QuackConnectionGetTableTypes_def QuackConnectionReadPartition_def driver_env_calls
  by (intro sound_recovering sound_inits sound_export sound_requiring sound_bind make_rules calm_rules)+

lemma query_op: "sound_op (QuackStatementExecuteQuery (driver_env P) p out)"
proof -
  have "sound (c_bind (go_do (drv_update P x ctx)) (\<lambda>res. case res of Inl e \<Rightarrow> report (Some e)
       | Inr n \<Rightarrow> c_then (export_affected n) (c_ret ADBC_STATUS_OK)))" for x ctx
    by (intro sound_calm calm_rules kept_rules)
  then show ?thesis
    unfolding QuackStatementExecuteQuery_def driver_env_calls
    by (intro sound_recovering sound_inits(2) sound_bind [OF calm_newContext] sound_cases(1) sound_query)
qed

section \<open>Streams\<close>

lemma stream_found: "get_stream h s = (r, s') \<Longrightarrow> s' = s \<and> (\<forall>cs. r = Inr cs \<longrightarrow> (h, cs_rdr cs) \<in> streams_of s)"
  by (auto simp: get_stream_def handle_value_def c_bind_def c_ret_def c_panic_def streams_of_def split: if_splits option.splits c_object.splits)

lemma streams_go [simp]: "streams_of (snd (go_do f s)) = streams_of s"
  by (simp add: go_do_def split: prod.split)

text \<open>Reading the reader of a stream.\<close>

lemma next_op_refs: "on_conn P k (next_op P rr) d = (Inr (b, rr'), d') \<Longrightarrow> rr_refs rr' = rr_refs rr"
  by (auto simp: on_conn_def go_defs next_op_def outcome_bind_eq_Done dest!: Next_refs split: option.splits outcome.splits prod.splits)

lemma drv_Next_readers:
  assumes "drv_Next P n d = (r, d')"
  shows "dv_next d \<le> dv_next d' \<and> (dv_readers d' = dv_readers d \<or> (\<exists>k k' rr rr'. dv_readers d n = Some (QuackReader k rr) \<and>
    dv_readers d' = (dv_readers d)(n \<mapsto> QuackReader k' rr') \<and> rr_refs rr' = rr_refs rr))"
proof (cases "dv_readers d n")
  case None
  then show ?thesis using assms by (simp add: drv_Next_def go_defs)
next
  case (Some rd)
  show ?thesis
  proof (cases rd)
    case (LibReader j)
    then show ?thesis using assms Some by (auto simp: drv_Next_def go_defs on_lib_def split: prod.splits)
  next
    case (QuackReader k rr)
    obtain q d1 where q: "on_conn P k (next_op P rr) d = (q, d1)" by (cases "on_conn P k (next_op P rr) d")
    have d1: "dv_readers d1 = dv_readers d" "dv_next d \<le> dv_next d1" using kept_on_conn [of P k "next_op P rr"] q unfolding kept_def by (metis snd_conv)+
    show ?thesis
    proof (cases q)
      case (Inr v)
      obtain b rr' where v: "v = (b, rr')" by (cases v)
      have "rr_refs rr' = rr_refs rr" using next_op_refs q unfolding Inr v by blast
      then show ?thesis using assms Some QuackReader q Inr v d1 by (auto simp: drv_Next_def go_defs set_reader_def)
    qed (use assms Some QuackReader q d1 in \<open>simp add: drv_Next_def go_defs\<close>)
  qed
qed

lemma next_owned:
  assumes s: "owned s" "(h, n) \<in> streams_of s"
  shows "owned (snd (go_do (drv_Next P n) s))"
proof -
  obtain r d' where d: "drv_Next P n (go_side s) = (r, d')" by (cases "drv_Next P n (go_side s)")
  have s': "snd (go_do (drv_Next P n) s) = s\<lparr>go_side := d'\<rparr>" by (simp add: go_do_def d)
  note m = drv_Next_readers [OF d]
  show ?thesis
  proof (cases "dv_readers d' = dv_readers (go_side s)")
    case True
    show ?thesis unfolding s' by (rule owned_steady [OF s(1)]) (use m True s(1) in \<open>auto simp: owned_but_def\<close>)
  next
    case False
    then obtain k k' rr rr' where rr: "dv_readers (go_side s) n = Some (QuackReader k rr)" "rr_refs rr' = rr_refs rr"
        "dv_readers d' = (dv_readers (go_side s))(n \<mapsto> QuackReader k' rr')" using m by blast
    have one: "rr_refs rr = 1" using s rr(1) unfolding owned_but_def by metis
    let ?d = "d'\<lparr>dv_readers := dv_readers (go_side s)\<rparr>"
    have "owned (s\<lparr>go_side := ?d\<rparr>)" by (rule owned_steady [OF s(1)]) (use m s(1) in \<open>auto simp: owned_but_def\<close>)
    then show ?thesis using rr one s(2) unfolding owned_but_def s' by auto
  qed
qed

text \<open>An error is stored in the stream, which keeps its reader.\<close>

lemma set_stream_owned:
  assumes "owned s" "(h, cs_rdr cs) \<in> streams_of s"
  shows "owned (snd (set_object h (HStream cs) s))"
proof -
  have "streams_of (snd (set_object h (HStream cs) s)) = streams_of s"
    using assms(2) by (auto simp: set_object_def c_modify_def streams_of_def split: if_splits)
  then show ?thesis by (intro owned_steady [OF assms(1)]) (use assms(1) in \<open>auto simp: set_object_def c_modify_def owned_but_def\<close>)
qed

lemma maybeError_owned:
  assumes s: "owned s" "(h, cs_rdr cs) \<in> streams_of s"
  shows "owned (snd (maybeError (driver_env P) h cs s))"
proof -
  obtain r s1 where m: "go_do (drv_Err P (cs_rdr cs)) s = (r, s1)" by (cases "go_do (drv_Err P (cs_rdr cs)) s")
  have s1: "owned s1" "streams_of s1 = streams_of s"
    using calm_owned [OF calm_go_do [OF kept_rest(4)] s(1)] streams_go [of "drv_Err P (cs_rdr cs)" s] m by (metis snd_conv)+
  have set: "owned (s1\<lparr>objs := (objs s1)(h \<mapsto> HStream (cs\<lparr>cs_adbcErr := er, cs_status := st\<rparr>))\<rparr>)" for er st
    using set_stream_owned [OF s1(1), of h "cs\<lparr>cs_adbcErr := er, cs_status := st\<rparr>"] s(2) s1(2) by (simp add: set_object_def c_modify_def)
  show ?thesis
    using s1(1) set m unfolding maybeError_def driver_env_calls
    by (cases r) (auto simp: c_bind_def c_ret_def Let_def set_object_def c_modify_def split: option.split prod.split)
qed

lemma stream_op:
  assumes "owned s" "\<And>h cs. stream_handle p s = Some h \<Longrightarrow> (h, cs_rdr cs) \<in> streams_of s \<Longrightarrow> owned (snd (f h cs s))"
  shows "owned (snd (case stream_handle p s of None \<Rightarrow> (Inr v, s) | Some h \<Rightarrow> c_bind (get_stream h) (f h) s))"
proof (cases "stream_handle p s")
  case (Some h)
  obtain r s1 where g: "get_stream h s = (r, s1)" by (cases "get_stream h s")
  then have "s1 = s" "\<And>cs. r = Inr cs \<Longrightarrow> (h, cs_rdr cs) \<in> streams_of s" using stream_found by blast+
  then show ?thesis using assms Some g by (cases r) (auto simp: c_bind_def)
qed (simp add: assms)

lemma get_next_owned:
  assumes s: "owned s"
  shows "owned (snd (QuackArrayStreamGetNext (driver_env P) p s))"
  unfolding QuackArrayStreamGetNext_def driver_env_calls
proof (rule stream_op [OF s])
  fix h and cs :: cArrayStream assume h: "(h, cs_rdr cs) \<in> streams_of s"
  obtain r s1 where m: "go_do (drv_Next P (cs_rdr cs)) s = (r, s1)" by (cases "go_do (drv_Next P (cs_rdr cs)) s")
  have s1: "owned s1" "streams_of s1 = streams_of s"
    using next_owned [OF s h] streams_go [of "drv_Next P (cs_rdr cs)" s] m by (metis snd_conv)+
  have b: "owned (snd (c_bind (go_do (drv_Batch P (cs_rdr cs))) (\<lambda>b. c_then (export_array (Some b)) (c_ret E_OK)) s1))"
    by (rule calm_owned [OF _ s1(1)], intro calm_rules kept_rules)
  have "owned (snd (export_array None s1))" by (rule calm_owned [OF calm_exports(10) s1(1)])
  then have "owned (snd (c_then (export_array None) (maybeError (driver_env P) h cs) s1))"
    using maybeError_owned [of "snd (export_array None s1)" h cs P] h s1(2) by (simp add: c_bind_def export_array_def c_modify_def)
  then show "owned (snd (c_bind (go_do (drv_Next P (cs_rdr cs))) (\<lambda>more.
         if more then c_bind (go_do (drv_Batch P (cs_rdr cs))) (\<lambda>b. c_then (export_array (Some b)) (c_ret E_OK))
         else c_then (export_array None) (maybeError (driver_env P) h cs)) s))"
    using s1(1) b by (cases r) (simp_all add: c_bind_def [of "go_do (drv_Next P (cs_rdr cs))"] m)
qed

lemma get_schema_owned:
  assumes s: "owned s"
  shows "owned (snd (QuackArrayStreamGetSchema (driver_env P) p s))"
  unfolding QuackArrayStreamGetSchema_def driver_env_calls
proof (rule stream_op [OF s])
  fix h and cs :: cArrayStream assume h: "(h, cs_rdr cs) \<in> streams_of s"
  obtain r s1 where m: "go_do (drv_Schema P (cs_rdr cs)) s = (r, s1)" by (cases "go_do (drv_Schema P (cs_rdr cs)) s")
  have s1: "owned s1" "streams_of s1 = streams_of s"
    using calm_owned [OF calm_go_do [OF kept_rest(5)] s] streams_go [of "drv_Schema P (cs_rdr cs)" s] m by (metis snd_conv)+
  have "owned (snd (c_then (export_schema sc) (c_ret E_OK) s1))" for sc
    by (rule calm_owned [OF _ s1(1)], intro calm_rules)
  then show "owned (snd (c_bind (go_do (drv_Schema P (cs_rdr cs))) (\<lambda>sc. case sc of
           None \<Rightarrow> maybeError (driver_env P) h cs | Some sc \<Rightarrow> c_then (export_schema sc) (c_ret E_OK)) s))"
    using s1 maybeError_owned [OF s1(1)] h
    by (cases r) (auto simp: c_bind_def [of "go_do (drv_Schema P (cs_rdr cs))"] m split: option.split)
qed

lemma last_error_owned: "owned s \<Longrightarrow> owned (snd (QuackArrayStreamGetLastError p s))"
  unfolding QuackArrayStreamGetLastError_def by (rule stream_op) (simp_all add: c_ret_def)

lemma stream_error_owned: "owned s \<Longrightarrow> owned (snd (QuackErrorFromArrayStream p s))"
  unfolding QuackErrorFromArrayStream_def by (rule stream_op) (simp_all add: c_bind_def c_ret_def c_modify_def)

text \<open>Releasing a stream: its reader is left without an owner and dropped.\<close>

lemma delete_stream_owned:
  assumes s: "owned s" "(h, n) \<in> streams_of s"
  shows "owned_but (Some n) (s\<lparr>live_handles := live_handles s - {h}\<rparr>)"
proof -
  let ?s = "s\<lparr>live_handles := live_handles s - {h}\<rparr>"
  have st: "streams_of ?s = streams_of s - {(h, n)}" using s(2) by (auto simp: streams_of_def)
  have only: "(h', n) \<in> streams_of s \<Longrightarrow> h' = h" for h' using s unfolding owned_but_def by blast
  show ?thesis
    unfolding owned_but_def st
  proof (intro conjI allI impI)
    fix m k rr assume m: "dv_readers (go_side ?s) m = Some (QuackReader k rr)"
    then show "m < dv_next (go_side ?s)" using s(1) by (simp add: owned_but_def)
    have base: "if \<exists>h'. (h', m) \<in> streams_of s then rr_refs rr = 1 else rr_refs rr = 0 \<and> c_closed (rr_cursor rr)"
      using s(1) m unfolding owned_but_def by simp
    show "if Some m = Some n \<or> (\<exists>h'. (h', m) \<in> streams_of s - {(h, n)}) then rr_refs rr = 1 else rr_refs rr = 0 \<and> c_closed (rr_cursor rr)"
    proof (cases "m = n")
      case True
      then have "rr_refs rr = 1" using base s(2) by (metis (full_types))
      then show ?thesis using True by simp
    next
      case False
      then have "(\<exists>h'. (h', m) \<in> streams_of s - {(h, n)}) \<longleftrightarrow> (\<exists>h'. (h', m) \<in> streams_of s)" by auto
      then show ?thesis using base False by simp
    qed
  next
    show "\<forall>h' \<in> live_handles ?s. h' < next_handle ?s" using s(1) by (simp add: owned_but_def)
  next
    fix h' m assume "(h', m) \<in> streams_of s - {(h, n)}"
    then show "m < dv_next (go_side ?s)" "Some m \<noteq> Some n" using s(1) only by (auto simp: owned_but_def)
  next
    fix h1 h2 m assume "(h1, m) \<in> streams_of s - {(h, n)}" "(h2, m) \<in> streams_of s - {(h, n)}"
    then show "h1 = h2" using s(1) unfolding owned_but_def by blast
  next
    fix m assume "Some n = Some m"
    then show "m < dv_next (go_side ?s)" using s by (simp add: owned_but_def)
  qed
qed

lemma release_owned:
  assumes s: "owned s"
  shows "owned (snd (QuackArrayStreamRelease (driver_env P) p s))"
proof (cases "stream_handle p s")
  case (Some h)
  define s0 where "s0 = s\<lparr>stream_data := (stream_data s)(the p := (stream_data s (the p))\<lparr>st_private := 0\<rparr>)\<rparr>"
  have s0: "owned s0" using s by (simp add: s0_def)
  obtain r s1 where g: "get_stream h s0 = (r, s1)" by (cases "get_stream h s0")
  then have s1: "s1 = s0" "\<And>cs. r = Inr cs \<Longrightarrow> (h, cs_rdr cs) \<in> streams_of s0" using stream_found by blast+
  show ?thesis
  proof (cases r)
    case (Inl e)
    then show ?thesis using s0 g s1(1) Some by (simp add: QuackArrayStreamRelease_def c_bind_def c_modify_def s0_def)
  next
    case (Inr cs)
    then have h: "(h, cs_rdr cs) \<in> streams_of s0" "h \<in> live_handles s0" using s1(2) by (auto simp: streams_of_def)
    have "owned (snd (go_do (drv_effect P (Rdr_Release (cs_rdr cs))) (s0\<lparr>live_handles := live_handles s0 - {h}\<rparr>)))"
      by (rule drop_reader [OF delete_stream_owned [OF s0 h(1)]])
    moreover have "snd (QuackArrayStreamRelease (driver_env P) p s) =
        snd (go_do (drv_effect P (Rdr_Release (cs_rdr cs))) (s0\<lparr>live_handles := live_handles s0 - {h}\<rparr>))"
      using Some g s1(1) Inr h(2) by (simp add: QuackArrayStreamRelease_def c_bind_def c_modify_def s0_def deleteHandle_def)
    ultimately show ?thesis by simp
  qed
qed (simp add: QuackArrayStreamRelease_def s)

section \<open>Runs\<close>

lemma call_owned:
  assumes "adbc_call (driver_env P) s code s'" "owned s"
  shows "owned s'"
  using assms(1) unfolding adbc_call_def
proof (elim disjE)
  assume "db_call (driver_env P) s code s'"
  then show ?thesis by cases (blast intro: calm_op_owned [OF _ assms(2)] calm_db_ops calm_db_options)+
next
  assume "conn_call (driver_env P) s code s'"
  then show ?thesis
    by cases (blast intro: calm_op_owned [OF _ assms(2)] sound_opD [OF _ assms(2)] calm_conn_ops calm_conn_options reader_ops)+
next
  assume "stmt_call (driver_env P) s code s'"
  then show ?thesis
    by cases (blast intro: calm_op_owned [OF _ assms(2)] sound_opD [OF _ assms(2)] calm_stmt_ops calm_stmt_options query_op)+
qed

lemma callback_owned:
  assumes "stream_call (driver_env P) s s'" "owned s"
  shows "owned s'"
  using assms(1) get_next_owned [OF assms(2)] get_schema_owned [OF assms(2)] last_error_owned [OF assms(2)] stream_error_owned [OF assms(2)]
    release_owned [OF assms(2)]
  by cases (metis snd_conv)+

lemma run_owned: "capi_run (driver_env P) s s' \<Longrightarrow> owned s \<Longrightarrow> owned s'"
proof (induction rule: capi_run.induct)
  case (call s1 code s2)
  then show ?case using call_owned by blast
next
  case (stream s1 s2)
  then show ?case using callback_owned by blast
qed simp_all

text \<open>A process without streams and readers.\<close>

definition no_readers :: "('w, 'x) drv capi \<Rightarrow> bool" where
  "no_readers s \<longleftrightarrow> dv_readers (go_side s) = Map.empty \<and> streams_of s = {} \<and> (\<forall>h \<in> live_handles s. h < next_handle s)"

lemma no_readers_owned: "no_readers s \<Longrightarrow> owned s"
  by (simp add: no_readers_def owned_but_def)

lemma owned_reader:
  assumes "owned s" "dv_readers (go_side s) n = Some (QuackReader k rr)"
  shows "(\<exists>h. {h. (h, n) \<in> streams_of s} = {h} \<and> rr_refs rr = 1) \<or>
    {h. (h, n) \<in> streams_of s} = {} \<and> rr_refs rr = 0 \<and> c_closed (rr_cursor rr)"
proof -
  have base: "if \<exists>h. (h, n) \<in> streams_of s then rr_refs rr = 1 else rr_refs rr = 0 \<and> c_closed (rr_cursor rr)"
    using assms unfolding owned_but_def by simp
  show ?thesis
  proof (cases "\<exists>h. (h, n) \<in> streams_of s")
    case True
    then obtain h where h: "(h, n) \<in> streams_of s" by blast
    then have "{h. (h, n) \<in> streams_of s} = {h}" using assms(1) unfolding owned_but_def by blast
    moreover have "rr_refs rr = 1" using base True by simp
    ultimately show ?thesis by blast
  next
    case False
    then show ?thesis using base by simp
  qed
qed

end
