(* ===== verification/Rpc.thy ===== *)
theory Rpc
  imports Cursors
begin

text \<open>
  The transport against a server that speaks the protocol: one \<open>Send\<close> is one call of the server.  The client encodes
  the request and decodes the answer (\<^verbatim>\<open>message_codec.go\<close>, \<^verbatim>\<open>http.go\<close>); the server is any function on messages, put
  behind HTTP with the same encoding.
\<close>

section \<open>A server behind HTTP\<close>

type_synonym 'w server = "QuackMessage \<Rightarrow> 'w \<Rightarrow> QuackMessage \<times> 'w"

definition serving :: "go_lib \<Rightarrow> 'w server \<Rightarrow> 'w net" where
  "serving lib srv = \<lparr>LookupIP = (\<lambda>h w. (Inr [h], w)), NewRequest = (\<lambda>_. None),
     Do = (\<lambda>q w. case DecodeMessage (q_Body q) of
         Done (Inr (Some m)) \<Rightarrow> (case srv m w of (reply, w) \<Rightarrow> (case EncodeMessage lib reply of
             Done (Inr bs) \<Rightarrow> (Response 200 bs, w) | _ \<Rightarrow> (Response 500 [], w)))
       | _ \<Rightarrow> (Response 400 [], w))\<rparr>"

text \<open>A message whose encoding is within the bound on input lengths.\<close>

definition encoded_within :: "nat \<Rightarrow> go_lib \<Rightarrow> QuackMessage \<Rightarrow> bool" where
  "encoded_within n lib m \<longleftrightarrow> (case EncodeMessage lib m of Done (Inr bs) \<Rightarrow> length bs \<le> n | _ \<Rightarrow> True)"

definition fits :: "go_lib \<Rightarrow> QuackMessage \<Rightarrow> bool" where
  "fits lib m \<longleftrightarrow> message_ok m \<and> encoded_within maxInput lib m"

lemma encoded_within_le: "encoded_within n lib m \<Longrightarrow> n \<le> n' \<Longrightarrow> encoded_within n' lib m"
  by (auto simp: encoded_within_def split: outcome.splits sum.splits)

lemma fits_encoded:
  assumes "fits lib m"
  obtains bs where "message_ok m" "EncodeMessage lib m = Done (Inr bs)" "length bs \<le> maxInput"
  using assms message_bytes [of m lib] by (auto simp: fits_def encoded_within_def)

lemma Send_serving:
  assumes m: "fits lib m" and r: "fits lib' (fst (srv (stamp m) w))"
  shows "Send lib (serving lib' srv) u m w = Done (delivered (fst (srv (stamp m) w)), snd (srv (stamp m) w))"
proof -
  obtain reply w' where s: "srv (stamp m) w = (reply, w')" by (cases "srv (stamp m) w")
  obtain body where b: "message_ok m" "EncodeMessage lib m = Done (Inr body)" "length body \<le> maxInput" using fits_encoded [OF m] by blast
  obtain bs where rb: "message_ok reply" "EncodeMessage lib' reply = Done (Inr bs)" "length bs \<le> maxInput"
    using fits_encoded [OF r] s by auto
  have d: "DecodeMessage body = Done (Inr (Some (stamp m)))"
    using decode_then_rest [OF b(1,2), of "[]"] b(3) by simp
  have "\<exists>es e. endpointCandidates (serving lib' srv) u w = (Inr ([] @ e # es), w)"
    by (simp add: endpointCandidates_def serving_def)
  then obtain e es where e: "endpointCandidates (serving lib' srv) u w = (Inr ([] @ e # es), w)" by blast
  show ?thesis
    using Send_delivers [OF b(2) e _ _ _ _ rb, of w 200 w'] s d rb(2) by (simp add: serving_def build_request_def signed_divide_int_def)
qed

section \<open>What the session sees\<close>

text \<open>A request of the session is one call of the server.\<close>

lemma request_serving:
  assumes "fits lib (mk (connectionID s) (queryIDSeq s))"
    and "fits lib' (fst (srv (stamp (mk (connectionID s) (queryIDSeq s))) (s_world s)))"
  shows "request (Send lib (serving lib' srv) u) mk s = (let (reply, w) = srv (stamp (mk (connectionID s) (queryIDSeq s))) (s_world s)
     in Done (delivered reply, s\<lparr>queryIDSeq := queryIDSeq s + 1, s_world := w\<rparr>))"
  using Send_serving [where m = "mk (connectionID s) (queryIDSeq s)" and w = "s_world s" and srv = srv, OF assms]
  by (simp add: request_def nextQueryID_def case_prod_unfold Let_def)

text \<open>The session after a request.\<close>

definition requested :: "'w session \<Rightarrow> 'w \<Rightarrow> 'w session" where
  "requested s w = s\<lparr>queryIDSeq := queryIDSeq s + 1, s_world := w\<rparr>"

lemma exchange_serving:
  assumes "fits lib (mk (connectionID s) (queryIDSeq s))"
    and "srv (stamp (mk (connectionID s) (queryIDSeq s))) (s_world s) = (reply, w)" "fits lib' reply"
  shows "exchange (Send lib (serving lib' srv) u) mk errp expected accept s = Done (accepted errp expected accept (delivered reply), requested s w)"
  using request_serving [where lib = lib and lib' = lib' and mk = mk and s = s and srv = srv and u = u] assms
  by (simp add: exchange_accepted requested_def)

abbreviation (input) prepare_request :: "'w session \<Rightarrow> string \<Rightarrow> QuackMessage" where
  "prepare_request s sql \<equiv> PrepareRequest (request_header MessageTypePrepareRequest (connectionID s) (queryIDSeq s)) sql"

abbreviation (input) fetch_request :: "'w session \<Rightarrow> cursor \<Rightarrow> QuackMessage" where
  "fetch_request s c \<equiv> FetchRequest (request_header MessageTypeFetchRequest (connectionID s) (queryIDSeq s)) (resultUUID c)"

text \<open>A statement that the server prepares, and one that it refuses.\<close>

lemma open_cursor_prepared:
  assumes "fits lib (prepare_request s sql)" "fits lib' (PrepareResponse h types names nmf results uuid)"
    and "srv (prepare_request s sql) (s_world s) = (PrepareResponse h types names nmf results uuid, w)"
  shows "open_cursor (Send lib (serving lib' srv) u) sql s = Done (Inr \<lparr>columnNames = names, columnTypes = types, resultUUID = uuid,
    buffered = results, needsMore = nmf, c_closed = False\<rparr>, requested s w)"
  unfolding open_cursor_def
  by (subst exchange_serving [where reply = "PrepareResponse h types names nmf results uuid" and w = w])
    (use assms in \<open>simp_all add: delivered_def accepted_def stamp_def request_header_def\<close>)

lemma open_cursor_refused:
  assumes "fits lib (prepare_request s sql)" "fits lib' (ErrorResponse h msg)"
    and "srv (prepare_request s sql) (s_world s) = (ErrorResponse h msg, w)"
  shows "open_cursor (Send lib (serving lib' srv) u) sql s = Done (Inl (wrapf ''session: prepare: '' (ErrServerError msg)), requested s w)"
  unfolding open_cursor_def
  by (subst exchange_serving [where reply = "ErrorResponse h msg" and w = w])
    (use assms in \<open>simp_all add: delivered_def accepted_def stamp_def request_header_def\<close>)

lemma fetchMore_fetched:
  assumes "fits lib (fetch_request s c)" "fits lib' (FetchResponse h results n more_batches)"
    and "srv (fetch_request s c) (s_world s) = (FetchResponse h results n more_batches, w)"
  shows "fetchMore (Send lib (serving lib' srv) u) c s = Done (Inr (c\<lparr>buffered := buffered c @ results, needsMore := more_batches\<rparr>), requested s w)"
  unfolding fetchMore_def
  by (subst exchange_serving [where reply = "FetchResponse h results n more_batches" and w = w])
    (use assms in \<open>simp_all add: delivered_def accepted_def stamp_def request_header_def\<close>)

lemma fetchMore_refused:
  assumes "fits lib (fetch_request s c)" "fits lib' (ErrorResponse h msg)"
    and "srv (fetch_request s c) (s_world s) = (ErrorResponse h msg, w)"
  shows "fetchMore (Send lib (serving lib' srv) u) c s = Done (Inl (wrapf ''cursor: fetch: '' (ErrServerError msg)), requested s w)"
  unfolding fetchMore_def
  by (subst exchange_serving [where reply = "ErrorResponse h msg" and w = w])
    (use assms in \<open>simp_all add: delivered_def accepted_def stamp_def request_header_def\<close>)

text \<open>A request has no parts that could fail to be encoded.\<close>

lemma small_requests:
  "message_ok (PrepareRequest h sql)" "message_ok (FetchRequest h uuid)" "message_ok (DisconnectMessage h)"
  "message_ok (ConnectionRequest h token name platform lo hi)"
  by (simp_all add: message_ok_def)

end
