(* ===== verification/MetadataRecords.thy ===== *)
theory MetadataRecords
  imports DriverApi
begin

text \<open>
  The last step of GetInfo and GetObjects: the values are appended to a record builder, which becomes a record reader
  (\<^verbatim>\<open>metadata_info.go\<close>, \<^verbatim>\<open>get_objects_types.go\<close>).  The builders of the Arrow library and \<^verbatim>\<open>encoding/json\<close> are
  third-party code, parameters with a state \<open>'b\<close>; \<open>'r\<close> is what a reader is.
\<close>

section \<open>GetInfo\<close>

text \<open>The builders of the code column, of the dense union (its type codes) and of the children of the union.\<close>

record ('b, 'r) info_builders =
  name_Append :: "nat \<Rightarrow> 'b \<Rightarrow> 'b"
  value_Append :: "nat \<Rightarrow> 'b \<Rightarrow> 'b"
  str_Append :: "string \<Rightarrow> 'b \<Rightarrow> 'b"
  str_AppendNull :: "'b \<Rightarrow> 'b"
  int64_Append :: "int \<Rightarrow> 'b \<Rightarrow> 'b"
  bool_Append :: "bool \<Rightarrow> 'b \<Rightarrow> 'b"
  info_Reader :: "'b \<Rightarrow> string + 'r"

definition InfoValueStringType :: nat where "InfoValueStringType = 0"
definition InfoValueBooleanType :: nat where "InfoValueBooleanType = 1"
definition InfoValueInt64Type :: nat where "InfoValueInt64Type = 2"

text \<open>One round of the loop; a value that is not present is of the string type.\<close>

definition append_info :: "('b, 'r) info_builders \<Rightarrow> nat \<times> info_value \<Rightarrow> 'b \<Rightarrow> 'b" where
  "append_info lib row b = (let b = name_Append lib (fst row) b in case snd row of
       InfoString v \<Rightarrow> (let b = value_Append lib InfoValueStringType b in
         case v of Some s \<Rightarrow> str_Append lib s b | None \<Rightarrow> str_AppendNull lib b)
     | InfoInt64 i \<Rightarrow> int64_Append lib i (value_Append lib InfoValueInt64Type b)
     | InfoBool v \<Rightarrow> bool_Append lib v (value_Append lib InfoValueBooleanType b))"

definition build_info :: "('b, 'r) info_builders \<Rightarrow> 'b \<Rightarrow> (nat \<times> info_value) list \<Rightarrow> string + 'r" where
  "build_info lib bldr rows = info_Reader lib (fold (append_info lib) rows bldr)"

text \<open>
  The library keeps its part when, seen through \<open>rows\<close>, a code followed by a type code and a value of that type is one
  more row.
\<close>

definition info_rows_ok :: "('b, 'r) info_builders \<Rightarrow> ('b \<Rightarrow> (nat \<times> info_value) list) \<Rightarrow> bool" where
  "info_rows_ok lib rows \<longleftrightarrow> (\<forall>b c.
     (\<forall>s. rows (str_Append lib s (value_Append lib InfoValueStringType (name_Append lib c b))) = rows b @ [(c, InfoString (Some s))]) \<and>
     rows (str_AppendNull lib (value_Append lib InfoValueStringType (name_Append lib c b))) = rows b @ [(c, InfoString None)] \<and>
     (\<forall>i. rows (int64_Append lib i (value_Append lib InfoValueInt64Type (name_Append lib c b))) = rows b @ [(c, InfoInt64 i)]) \<and>
     (\<forall>v. rows (bool_Append lib v (value_Append lib InfoValueBooleanType (name_Append lib c b))) = rows b @ [(c, InfoBool v)]))"

lemma append_info_row: "info_rows_ok lib rows \<Longrightarrow> rows (append_info lib row b) = rows b @ [row]"
  by (cases row; cases "snd row") (auto simp: append_info_def info_rows_ok_def Let_def split: option.split)

lemma appended_info: "info_rows_ok lib rows \<Longrightarrow> rows (fold (append_info lib) infos b) = rows b @ infos"
  by (induction infos arbitrary: b) (simp_all add: append_info_row)

section \<open>GetObjects\<close>

text \<open>\<^verbatim>\<open>json.Marshal\<close> of a catalog, and \<^verbatim>\<open>json.Unmarshal\<close> into the builder of the nested record.\<close>

record ('b, 'r) json_builder =
  Marshal :: "getObjectsInfo \<Rightarrow> string + string"
  Unmarshal :: "string \<Rightarrow> 'b \<Rightarrow> string + 'b"
  objects_Reader :: "'b \<Rightarrow> string + 'r"

primrec append_objects :: "('b, 'r) json_builder \<Rightarrow> getObjectsInfo list \<Rightarrow> 'b \<Rightarrow> string + 'b" where
  "append_objects lib [] b = Inr b"
| "append_objects lib (info # infos) b = (case Marshal lib info of Inl e \<Rightarrow> Inl e
     | Inr js \<Rightarrow> (case Unmarshal lib js b of Inl e \<Rightarrow> Inl e | Inr b \<Rightarrow> append_objects lib infos b))"

definition buildGetObjectsRecordReader :: "('b, 'r) json_builder \<Rightarrow> 'b \<Rightarrow> getObjectsInfo list \<Rightarrow> string + 'r" where
  "buildGetObjectsRecordReader lib bldr infos = (case append_objects lib infos bldr of Inl e \<Rightarrow> Inl e | Inr b \<Rightarrow> objects_Reader lib b)"

text \<open>The library keeps its part when the text of a catalog is read back as one more row.\<close>

definition objects_rows_ok :: "('b, 'r) json_builder \<Rightarrow> ('b \<Rightarrow> getObjectsInfo list) \<Rightarrow> bool" where
  "objects_rows_ok lib rows \<longleftrightarrow> (\<forall>info b. \<exists>js b'. Marshal lib info = Inr js \<and> Unmarshal lib js b = Inr b' \<and> rows b' = rows b @ [info])"

lemma appended_objects:
  assumes "objects_rows_ok lib rows"
  shows "\<exists>b'. append_objects lib infos b = Inr b' \<and> rows b' = rows b @ infos"
proof (induction infos arbitrary: b)
  case (Cons info infos)
  obtain js b1 where b1: "Marshal lib info = Inr js" "Unmarshal lib js b = Inr b1" "rows b1 = rows b @ [info]"
    using assms unfolding objects_rows_ok_def by blast
  then show ?case using Cons.IH [of b1] by simp
qed simp

text \<open>The record has one row per catalog, in order; the first failure ends the loop and is returned.\<close>

lemma objects_reader_rows:
  assumes "objects_rows_ok lib rows"
  shows "\<exists>b. buildGetObjectsRecordReader lib bldr infos = objects_Reader lib b \<and> rows b = rows bldr @ infos"
  using appended_objects [OF assms, of infos bldr] by (auto simp: buildGetObjectsRecordReader_def)

lemma objects_reader_fails:
  assumes "append_objects lib infos bldr = Inr b" "Marshal lib info = Inl e"
  shows "buildGetObjectsRecordReader lib bldr (infos @ info # rest) = Inl e"
proof -
  have "append_objects lib (infos @ info # rest) bldr = Inl e"
    using assms(1) by (induction infos arbitrary: bldr) (auto simp: assms(2) split: sum.splits)
  then show ?thesis by (simp add: buildGetObjectsRecordReader_def)
qed

section \<open>From the server to the record\<close>

text \<open>The rows of the record of GetInfo: one for each code asked for, in order.\<close>

lemma GetInfo_record:
  assumes "GetInfo version send n codes c = Done (Inr infos, c')" "info_rows_ok lib rows"
  shows "\<exists>b vendor driver. build_info lib bldr infos = info_Reader lib b \<and>
    rows b = rows bldr @ map (\<lambda>code. (code, info_row vendor driver code)) (if codes = [] then supportedInfoCodes else codes)"
proof -
  obtain vendor driver where "infos = map (\<lambda>code. (code, info_row vendor driver code)) (if codes = [] then supportedInfoCodes else codes)"
    using assms(1) by (auto simp: GetInfo_def getInfoImpl_def Let_def outcome_bind_eq_Done)
  then show ?thesis
    using appended_info [OF assms(2), of infos bldr] unfolding build_info_def
    by (intro exI [of _ "fold (append_info lib) infos bldr"] exI [of _ vendor] exI [of _ driver]) simp
qed

end
