(* ===== verification/Spec2Isabelle.thy ===== *)
theory Spec2Isabelle
  imports MessageRoundtrip Uri Cursors IngestRoundtrip GoCalendar Transactions CResults CReaders Rpc MetadataRecords "HOL-Library.Multiset"
begin

text \<open>
  Verification of the Quack ADBC driver (\<^verbatim>\<open>adbc-driver-quack\<close>, Go): the wire protocol below
  \<^verbatim>\<open>src/internal\<close>, the driver above it in \<^verbatim>\<open>src/driver/quack\<close>, and its C interface in \<^verbatim>\<open>src/pkg/quack\<close>.

  \<^bold>\<open>The program.\<close>  The driver speaks DuckDB's Quack protocol: \<^verbatim>\<open>internal/codec\<close> reads and writes the
  primitives of DuckDB's binary serializer, \<^verbatim>\<open>internal/quacktype\<close> the logical types, \<^verbatim>\<open>internal/message\<close> the
  column vectors, data chunks and messages, \<^verbatim>\<open>internal/transport\<close> posts a message over HTTP,
  \<^verbatim>\<open>driver/quack\<close> is the ADBC surface in Go (sessions, cursors, transactions, parameter binding, ingest, metadata),
  and \<^verbatim>\<open>pkg/quack\<close> exports it to C programs behind handles.

  \<^bold>\<open>The model.\<close>  A Go method is an Isabelle function of the same name.  What can panic returns an
  \<open>outcome\<close> (\<open>Done\<close>, \<open>Panic\<close>, and \<open>OutOfFuel\<close> for the recursion bound of a decoder); the reader and the
  writer are state-passing functions over records with the buffer, the offset and the sticky error.
  Integers have the width of the source: an \<^verbatim>\<open>int\<close> whose overflow matters is wrapped by \<open>wrap64\<close>, the
  fixed-width ones are words.

  \<^item> \<open>Prelude\<close>, \<open>GoStrings\<close>, \<open>GoFloat\<close>, \<open>GoTime\<close>: what the driver uses of the Go language and its library.
  \<^item> \<open>Codec\<close>, \<open>HugeInt\<close>, \<open>BinaryWriter\<close>, \<open>BinaryReader\<close>: \<^verbatim>\<open>internal/codec\<close>; \<open>WireGrammar\<close> is the byte grammar
    both sides are proved against, \<open>WireCodec\<close> the contract of a writer and a reader method (a locale
    with an interpretation for every pair of methods).
  \<^item> \<open>LogicalTypes\<close>, \<open>TypeCodec\<close>: \<^verbatim>\<open>internal/quacktype\<close>.
  \<^item> \<open>Validity\<close>, \<open>Vectors\<close>, \<open>VectorCodec\<close>, \<open>VectorEncoder\<close>, \<open>Messages\<close>: \<^verbatim>\<open>internal/message\<close>.  \<open>FixedLayout\<close>,
    \<open>ObjectLayout\<close> and \<open>Columns\<close> hold the contracts of the column layouts (locales, interpreted for every
    physical type), \<open>Chunks\<close> and \<open>MessageRoundtrip\<close> the round trips of chunks and messages.
  \<^item> \<open>Uri\<close>, \<open>Transport\<close>: \<^verbatim>\<open>internal/transport\<close> (\<^verbatim>\<open>uri.go\<close>, \<^verbatim>\<open>http.go\<close>).
  \<^item> \<open>Session\<close>, \<open>Cursors\<close>: \<^verbatim>\<open>driver/quack/session.go\<close>.  A session holds the state of the world behind its
    transport; \<open>message_channel\<close> is the locale of a transport that remembers what was sent, interpreted for any
    transport that is observed with \<open>traced\<close>.  \<open>batches\<close> is the contract of a result, which \<open>drainAll\<close> and the
    reading chunk by chunk are compared with.
  \<^item> \<open>Arrow\<close>, \<open>ArrowConv\<close>, \<open>RecordReader\<close>: Arrow data as lists of cells, \<^verbatim>\<open>arrow_conv.go\<close> and \<^verbatim>\<open>record_reader.go\<close>.
  \<^item> \<open>Sql\<close>, \<open>GoCalendar\<close>, \<open>Binding\<close>: quoting, literals, substitution and bound rows (\<^verbatim>\<open>params.go\<close>), with a reading of
    SQL text as tokens that they are proved against.
  \<^item> \<open>Ingest\<close>, \<open>IngestRoundtrip\<close>: the DDL and the chunks of \<^verbatim>\<open>bulk_ingest.go\<close>; the locale \<open>ingest_kind\<close> is
    interpreted for every ingestable type.
  \<^item> \<open>Adbc\<close>, \<open>Statements\<close>: errors, options, connections and statements (\<^verbatim>\<open>driver.go\<close>) with the executions of bound
    statements and of ingest.  \<open>Metadata\<close>, \<open>Objects\<close>: \<^verbatim>\<open>metadata*.go\<close> and \<^verbatim>\<open>get_objects_types.go\<close>.  \<open>DriverApi\<close> holds
    the rest of the surface of \<^verbatim>\<open>driver.go\<close>: databases, the operations that only store or refuse something.
    \<open>MetadataRecords\<close> appends the values of GetInfo and GetObjects to record builders, which are parameters.
  \<^item> \<open>Runs\<close>, \<open>Transactions\<close>: every operation of a connection as a run of its session, and the transaction on
    the server as a state machine.
  \<^item> \<open>CErrors\<close>, \<open>CHandles\<close>, \<open>CDatabase\<close>, \<open>CConnection\<close>, \<open>CStatement\<close>, \<open>CStreams\<close>: \<^verbatim>\<open>pkg/quack/driver.go\<close>, \<^verbatim>\<open>init.go\<close>
    and the release functions of \<^verbatim>\<open>utils.c\<close>.  The state \<open>capi\<close> holds the structs of the C caller, the table of
    \<^verbatim>\<open>cgo\<close> handles, the Go objects, the contexts and the poison flag; every exported function is a definition of its
    name, with panics, \<^verbatim>\<open>defer\<close> and \<^verbatim>\<open>recover\<close>.  \<open>CLifecycle\<close> states the invariant of the handles, \<open>CInvariant\<close> and
    \<open>CRuns\<close> prove that every operation and every sequence of them keeps it (the locale \<open>handle_kind\<close> is interpreted
    for the four kinds of handle), \<open>CContracts\<close> relates the database operations to an abstract life cycle, and
    \<open>CResults\<close> runs the operations that release, export and initialize.
  \<^item> \<open>CDriver\<close> composes the two halves: it instantiates the Go side of the C interface with the model of
    \<^verbatim>\<open>driver/quack\<close>, a heap of databases, connections, statements and readers over one network.  \<open>CTame\<close> shows that
    this driver meets the hypothesis of the invariant of the handles, \<open>CQuery\<close> follows a query from the C caller
    to the session and back, and \<open>Rpc\<close> puts a server, any function on messages, behind the HTTP client.
  \<^item> \<open>COwners\<close>, \<open>CCalm\<close>, \<open>COwnership\<close>, \<open>CReaders\<close>: who owns a record reader.  The operations that leave streams and readers
    alone are derived by rules from their definitions; the others make one reader and export it, read one or release one.

  \<^bold>\<open>What is shown.\<close>  A well-formed message is encoded without a panic and decoded to itself; so are
  chunks, logical types, LEB128 numbers, UUIDs and decimals, and an ingested Arrow batch survives the wire and
  the conversion back.  The decoder returns on every input, and the first error of a reader is kept (by
  every method but \<open>ReadBytes\<close> with a negative length).  A
  request reaches the first reachable address.  Whatever a client does, the requests of a connection are numbered
  in order under the server's connection id, and closing sends ROLLBACK if \<open>txOpen\<close> says so and disconnects once.  For clients
  that run no transaction statements of their own the driver's are legal and \<open>txOpen\<close> is the server's transaction
  (\<open>client_commit_unseen\<close> shows what happens to the others).  Draining a result and streaming it agree as long as
  no batch is empty.  Quoted names cannot change the structure of a statement, and bound values cannot unless a literal that
  starts with a minus sign follows one directly, which is shown to open a comment.  In every sequence of calls from C the structs that are not zero are live handles of their own kind
  and no two share one, a panic that is not the caller's doing comes from the Go side alone, and after a panic every
  operation refuses; the calls on a database follow an automaton, panics of the Go side included; releasing what is held
  deletes every handle and cancels every context, unless a panic on the way makes the driver refuse the rest.  These results hold
  for every Go side that is tame, the driver's own included (\<open>driver_tame\<close>).  One \<open>Send\<close> is one call of the server; a C caller that executes a query and reads its
  stream receives the records of the server's chunks in order as long as no batch is empty, and the text of the server's error if it refuses;
  whatever calls are made, a record reader has exactly one owner or is closed, and a stream outlives its statement and database.  A URL cannot make the driver read a local secret or add an HTTP header.  Bounds: which DECIMAL
  and DATE values fit, and what happens beyond; the remaining theorems state where the code departs from what it
  means to do.

  \<^bold>\<open>Bounds.\<close>  The round trips assume at most \<open>2 ^ 40\<close> bytes (\<open>maxInput\<close>) and rows, below which no length
  computation overflows.  The fuel of a decoder is one more than the number of unread bytes; every
  recursive call consumes a byte, so it is never exhausted (\<open>LogicalType_fueled\<close>, \<open>DecodeVector_fueled\<close>).
  Whether a drain ends is up to the server: its argument \<open>n\<close> bounds the fetches, and it returns with every bound
  that is at least the number of batches (\<open>drain_fuel_irrelevant\<close>).

  \<^bold>\<open>Parameters.\<close>  \<open>go_lib\<close> stands for \<^verbatim>\<open>fmt.Sprint\<close> on values that are not strings and the 256-bit parser of
  \<^verbatim>\<open>math/big\<close>; \<open>host_env\<close> for the environment, the file system, \<^verbatim>\<open>net/url\<close> and \<^verbatim>\<open>time.ParseDuration\<close>; \<open>net\<close> for the
  resolver and the HTTP client; \<open>arrow_lib\<close> for functions of \<^verbatim>\<open>arrow-go\<close>; a map order for the iteration over Go maps.
  \<open>go_env\<close> stands for the objects behind the \<^verbatim>\<open>adbc\<close> interfaces as the C interface sees them (\<open>CDriver\<close> instantiates it with the
  driver of \<^verbatim>\<open>driver/quack\<close>), for record readers and the Arrow C data interface; \<open>tame_env\<close> says that their panics are
  their own and not a misused handle.  Two hypotheses are about the server: \<open>knows_control\<close>, that BEGIN TRANSACTION, COMMIT and ROLLBACK do what
  they say and the metadata queries leave transactions alone, and \<open>control_simple\<close>, that those three are answered in one piece.

  \<^bold>\<open>Not modelled.\<close>  Concurrent calls of the C interface, the output of its help text and stack traces, memory management (the reference counts of arrays and
  records, allocators), mutexes, the effect of a cancelled context on a running request, and the panic of \<^verbatim>\<open>make\<close> in
  \<^verbatim>\<open>encodeFixedBytes\<close> for a capacity too large to allocate (a constant vector of that many rows).  In the composition of
  \<open>CDriver\<close> a call that exceeds the bound on fetches appears as a panic of its own (\<open>no_return\<close>), since the Go side of the C
  interface is a total function; the theorems about it give bounds under which this does not happen.
\<close>

section \<open>Sample values\<close>

text \<open>The values at which the properties below are applied.\<close>

definition sample_lib :: go_lib where
  "sample_lib = \<lparr>fmt_other = (\<lambda>_. []), ParseFloat = (\<lambda>_. None)\<rparr>"

definition sample_chunk :: DataChunk where
  "sample_chunk = \<lparr>RowCount = 2, Types = [Of LogicalTypeIDInteger, Of LogicalTypeIDVarchar],
     Columns = [Some (IntVec (Of LogicalTypeIDInteger) [7, 0] (Some [1])),
                Some (ObjectVec (Of LogicalTypeIDVarchar) [VString ''a'', VNil])]\<rparr>"

definition sample_message :: QuackMessage where
  "sample_message = PrepareResponse (zeroHeader\<lparr>h_ConnectionID := ''c1''\<rparr>)
     [Of LogicalTypeIDInteger, Of LogicalTypeIDVarchar] [''id'', ''name''] True [sample_chunk] zeroHugeInt"

definition sample_env :: host_env where
  "sample_env = \<lparr>url_Parse = (\<lambda>u. Inr \<lparr>u_Hostname = ''h'', u_Port = [], u_Path = [], u_Query = []\<rparr>),
     Getenv = (\<lambda>_. []), ReadFile = (\<lambda>_. Inl []), ParseDuration = (\<lambda>_. None)\<rparr>"

lemma stickyD: "sticky z f \<Longrightarrow> r_err r \<noteq> None \<Longrightarrow> f r = Done (z, r)"
  by (simp add: sticky_def)

lemma sample_types:
  "wf_lt (Of LogicalTypeIDInteger)" "wf_lt (Of LogicalTypeIDVarchar)"
  "GetPhysicalType (Of LogicalTypeIDInteger) = PhysicalTypeInt32"
  "GetPhysicalType (Of LogicalTypeIDVarchar) = PhysicalTypeVarchar"
  by (simp_all add: Of_def wf_lt.simps int_ok_def MaxInt_def GetPhysicalType_def)

lemma sample_chunk_ok: "chunk_ok sample_chunk"
  by (simp add: chunk_ok_def sample_chunk_def sample_types [unfolded Of_def] column_ok_def small_count_def wf_nulls_def
      wf_validity_def row_valid_def needsObjectMaterialization_def Of_def string_like_def less_Suc_eq Let_def)

lemma sample_message_ok: "message_ok sample_message"
  by (simp add: message_ok_def sample_message_def sample_types sample_chunk_ok)

text \<open>A server that replies from a list, in order.\<close>

definition scripted :: "(go_error + QuackMessage option) list transport" where
  "scripted m w = (case w of [] \<Rightarrow> Done (Inl (errorf ''connection closed''), []) | r # rs \<Rightarrow> Done (r, rs))"

definition prepared_reply :: "DataChunk list \<Rightarrow> bool \<Rightarrow> go_error + QuackMessage option" where
  "prepared_reply chunks more_chunks = Inr (Some (PrepareResponse zeroHeader [Of LogicalTypeIDInteger] [''id''] more_chunks chunks zeroHugeInt))"

definition fetched :: "DataChunk list \<Rightarrow> bool \<Rightarrow> go_error + QuackMessage option" where
  "fetched chunks more_chunks = Inr (Some (FetchResponse zeroHeader chunks 0 more_chunks))"

definition sample_cursor :: cursor where
  "sample_cursor = \<lparr>columnNames = [''id''], columnTypes = [Of LogicalTypeIDInteger], resultUUID = zeroHugeInt,
     buffered = [], needsMore = True, c_closed = False\<rparr>"

definition ints_chunk :: "32 word list \<Rightarrow> DataChunk" where
  "ints_chunk xs = \<lparr>RowCount = int (length xs), Types = [Of LogicalTypeIDInteger],
     Columns = [Some (IntVec (Of LogicalTypeIDInteger) xs None)]\<rparr>"

definition keys_chunk :: DataChunk where
  "keys_chunk = \<lparr>RowCount = 2, Types = replicate 4 (Of LogicalTypeIDVarchar), Columns = map (Some \<circ> ObjectVec (Of LogicalTypeIDVarchar))
     [[VString ''t'', VString ''t''], [VString ''pk'', VString ''pk''], [VNil, VNil], [VString ''a'', VString ''b'']]\<rparr>"

definition sample_session :: "'w \<Rightarrow> 'w session" where
  "sample_session w = \<lparr>queryIDSeq = 2, connectionID = ''c1'', closed = False, s_world = w\<rparr>"

definition sample_connection :: "'w \<Rightarrow> 'w connection" where
  "sample_connection w = \<lparr>sess = sample_session w, autoCommit = True, txOpen = False\<rparr>"

definition connected :: "go_error + QuackMessage option" where
  "connected = Inr (Some (ConnectionResponse (zeroHeader\<lparr>h_ConnectionID := ''c1''\<rparr>) ''1'' ''linux'' QuackVersion False))"

text \<open>The same server, which answers the transaction statements of the driver at once.\<close>

definition scripted_control :: "(go_error + QuackMessage option) list transport" where
  "scripted_control m w = (case m of
       PrepareRequest hdr sql \<Rightarrow> (if is_control sql then Done (prepared_reply [] False, w) else scripted m w)
     | _ \<Rightarrow> scripted m w)"

lemma scripted_control_simple: "control_simple scripted_control"
  by (simp add: control_simple_def answers_at_once_def scripted_control_def prepared_reply_def)





definition sample_time :: go_time where
  "sample_time = epoch_AddDays 0"

definition sample_alib :: arrow_lib where
  "sample_alib = \<lparr>Timestamp_us = AT_Timestamp Microseconds ''UTC'', FromBigInt = (\<lambda>i. Done (word_of_int i)),
     BuilderName = (\<lambda>_. []), TypeName = (\<lambda>_. []), ArrayName = (\<lambda>_. []), DataTypeName = (\<lambda>_. []),
     Date32_ToTime = (\<lambda>_. sample_time), Date64_ToTime = (\<lambda>_. sample_time), Time32_ToTime = (\<lambda>_ _. sample_time),
     Time64_ToTime = (\<lambda>_ _. sample_time), Timestamp_ToTime = (\<lambda>_ _. sample_time), GetZone = (\<lambda>_. None), SchemaMismatch = []\<rparr>"

definition sample_libs :: libs where
  "sample_libs = \<lparr>l_arrow = sample_alib, l_go = sample_lib, l_float = (\<lambda>_. ''0'')\<rparr>"

definition sample_uri :: QuackURI where
  "sample_uri = \<lparr>Host = ''h'', Port = 9494, Database = [], TLS = False, Token = ''t'', ConnectTimeout = 1, RequestTimeout = 1,
     Params = [], ExtraHeaders = [(''X-A'', ''1'')]\<rparr>"

text \<open>A host with two addresses, of which the first one tried is unreachable; the second answers with a SUCCESS_RESPONSE.\<close>

definition sample_net :: "nat net" where
  "sample_net = \<lparr>LookupIP = (\<lambda>h k. (Inr [''::1'', ''127.0.0.1''], k)), NewRequest = (\<lambda>_. None),
     Do = (\<lambda>q k. (if k = 0 then SendFailed True ''dial tcp'' else Response 200 [1, 0, 10, 3, 0, 0, 255, 255, 255, 255], Suc k))\<rparr>"

lemma sample_bytes: "EncodeMessage sample_lib (SuccessResponse zeroHeader) = Done (Inr [1, 0, 10, 3, 0, 0, 255, 255, 255, 255])"
  by code_simp

lemma sample_endpoints:
  "endpointCandidates sample_net sample_uri k = (Inr [endpointFor sample_uri ''::1'', endpointFor sample_uri ''127.0.0.1''], k)"
  by (simp add: endpointCandidates_def sample_net_def sample_uri_def)

text \<open>A Go side that succeeds in everything and records the effects asked of it.\<close>

definition sample_go :: "go_effect list go_env" where
  "sample_go = \<lparr>call_err = (\<lambda>c w. (Inr None, w)), call_make = (\<lambda>c w. (Inr (Inr 1), w)), call_effect = (\<lambda>f w. (Inr (), w @ [f])),
     call_update = (\<lambda>x c w. (Inr (Inr 0), w)), call_query = (\<lambda>x c w. (Inr (Inr (7, 3)), w)),
     call_partitions = (\<lambda>x c w. (Inr (Inr (None, \<lparr>NumPartitions = 0, PartitionIDs = []\<rparr>, 0)), w)),
     get_option = (\<lambda>t k w. (Inr (Inr ''v''), w)), get_bytes = (\<lambda>t k w. (Inr (Inr ''v''), w)),
     get_double = (\<lambda>t k w. (Inr (0, None), w)), get_int = (\<lambda>t k w. (Inr (0, None), w)),
     rdr_Next = (\<lambda>r w. (Inr False, w)), rdr_RecordBatch = (\<lambda>r w. (Inr 0, w)), rdr_Err = (\<lambda>r w. (Inr None, w)),
     rdr_Schema = (\<lambda>r w. (Inr None, w)), supports = (\<lambda>i t. True), range_map = (\<lambda>opts. opts), show_panic = (\<lambda>e. ''panic''),
     logLevelEnv = ''debug''\<rparr>"

text \<open>The same, but no connection option can be set.\<close>

definition sample_error :: api_error where
  "sample_error = AsAdbcError \<lparr>ae_Msg = ''unknown option'', ae_Code = 2, ae_VendorCode = 0, ae_SqlState = ''00000'', ae_Details = []\<rparr>"

definition strict_go :: "go_effect list go_env" where
  "strict_go = sample_go\<lparr>call_err := (\<lambda>c w. (Inr (case c of Go_SetOption (TConnection _) _ _ \<Rightarrow> Some sample_error | _ \<Rightarrow> None), w))\<rparr>"

lemma sample_go_ok: "tame_env sample_go"
  by (simp add: tame_env_def tame_def sample_go_def)

text \<open>A connection that is allocated, with an option set, and an initialized database; a process with a statement.\<close>

definition sample_capi :: "go_effect list capi" where
  "sample_capi = (capi_start [])\<lparr>
     objs := [1 \<mapsto> HDatabase \<lparr>db_opts = [], db_db = Some 5\<rparr>,
       2 \<mapsto> HConn \<lparr>conn_ctx = None, conn_cnxn = None, conn_initArgs = [(''autocommit'', ''maybe'')]\<rparr>,
       3 \<mapsto> HStmt \<lparr>stmt_ctx = None, stmt_stmt = Some 6\<rparr>],
     live_handles := {1, 2, 3}, next_handle := 4, db_data := (\<lambda>_. 0)(1 := 1), cnxn_data := (\<lambda>_. 0)(1 := 2), stmt_data := (\<lambda>_. 0)(1 := 3)\<rparr>"

definition fresh_error :: c_error where
  "fresh_error = \<lparr>ce_message = None, ce_vendor_code = 0, ce_sqlstate = ''00000'', ce_release = NoRelease, ce_private = None\<rparr>"

lemma sample_capi_run: "capi_run sample_go (capi_start []) (snd (QuackDatabaseNew sample_go (Some 1) (capi_start [])))"
proof -
  have "adbc_call sample_go (capi_start []) (fst (QuackDatabaseNew sample_go (Some 1) (capi_start [])))
      (snd (QuackDatabaseNew sample_go (Some 1) (capi_start [])))"
    unfolding adbc_call_def by (intro disjI1 db_call.db_new [where p = "Some 1"]) simp
  with capi_run.start show ?thesis by (rule capi_run.call)
qed

text \<open>A server with one table of two batches, which counts the requests; it refuses one statement, and to go on with other results.\<close>

definition other_result :: HugeIntParts where
  "other_result = \<lparr>Upper = 0, Lower = 1\<rparr>"

lemma other_result_new: "other_result \<noteq> zeroHugeInt"
  by (simp add: other_result_def zeroHugeInt_def)

definition sample_server :: "nat server" where
  "sample_server m w = (case m of
       PrepareRequest _ sql \<Rightarrow> if sql = ''SELECT 100%''
         then ErrorResponse zeroHeader ''syntax error'' else PrepareResponse zeroHeader [Of LogicalTypeIDInteger] [''id''] True [ints_chunk [7, 8]] zeroHugeInt
     | FetchRequest _ uuid \<Rightarrow> if uuid = zeroHugeInt then FetchResponse zeroHeader [ints_chunk [9]] 0 False
         else ErrorResponse zeroHeader ''interrupted''
     | _ \<Rightarrow> SuccessResponse zeroHeader, Suc w)"

lemma ints_chunk_ok: "length xs \<le> 2 ^ 40 \<Longrightarrow> chunk_ok (ints_chunk xs)"
  by (simp add: chunk_ok_def ints_chunk_def sample_types [unfolded Of_def] column_ok_def small_count_def wf_nulls_def
      wf_validity_def row_valid_def needsObjectMaterialization_def Of_def string_like_def Let_def)

lemma sample_size_1: "encoded_within 1000 sample_lib (PrepareRequest (request_header MessageTypePrepareRequest ''c1'' 2) ''FROM t'')"
  by code_simp

lemma sample_size_2: "encoded_within 1000 sample_lib (PrepareRequest (request_header MessageTypePrepareRequest ''c1'' 2) ''SELECT 100%'')"
  by code_simp

lemma sample_size_3: "encoded_within 1000 sample_lib (FetchRequest (request_header MessageTypeFetchRequest ''c1'' 3) zeroHugeInt)"
  by code_simp

lemma sample_size_4: "encoded_within 1000 sample_lib (ErrorResponse zeroHeader ''syntax error'')"
  by code_simp

lemma sample_size_5: "encoded_within 1000 sample_lib (FetchResponse zeroHeader [ints_chunk [9]] 0 False)"
  by code_simp

lemma sample_size_6: "encoded_within 1000 sample_lib (PrepareResponse zeroHeader [Of LogicalTypeIDInteger] [''id''] True [ints_chunk [7, 8]] zeroHugeInt)"
  by code_simp

lemma sample_size_7: "encoded_within 1000 sample_lib (FetchRequest (request_header MessageTypeFetchRequest ''c1'' 2) other_result)"
  by code_simp

lemma sample_size_9: "encoded_within 1000 sample_lib (DisconnectMessage (request_header MessageTypeDisconnectMessage ''c1'' 2))"
  by code_simp

lemma sample_size_10: "encoded_within 1000 sample_lib (SuccessResponse zeroHeader)"
  by code_simp

lemma sample_size_8: "encoded_within 1000 sample_lib (ErrorResponse zeroHeader ''interrupted'')"
  by code_simp

lemma sample_fits:
  "fits sample_lib (PrepareRequest (request_header MessageTypePrepareRequest ''c1'' 2) ''FROM t'')"
  "fits sample_lib (PrepareRequest (request_header MessageTypePrepareRequest ''c1'' 2) ''SELECT 100%'')"
  "fits sample_lib (FetchRequest (request_header MessageTypeFetchRequest ''c1'' 3) zeroHugeInt)"
  "fits sample_lib (ErrorResponse zeroHeader ''syntax error'')"
  "fits sample_lib (FetchResponse zeroHeader [ints_chunk [9]] 0 False)"
  "fits sample_lib (PrepareResponse zeroHeader [Of LogicalTypeIDInteger] [''id''] True [ints_chunk [7, 8]] zeroHugeInt)"
  "fits sample_lib (FetchRequest (request_header MessageTypeFetchRequest ''c1'' 2) other_result)"
  "fits sample_lib (ErrorResponse zeroHeader ''interrupted'')"
  "fits sample_lib (DisconnectMessage (request_header MessageTypeDisconnectMessage ''c1'' 2))" "fits sample_lib (SuccessResponse zeroHeader)"
  using ints_chunk_ok sample_types(1) encoded_within_le [OF sample_size_1] encoded_within_le [OF sample_size_2] encoded_within_le [OF sample_size_3]
    encoded_within_le [OF sample_size_4] encoded_within_le [OF sample_size_5] encoded_within_le [OF sample_size_6]
    encoded_within_le [OF sample_size_7] encoded_within_le [OF sample_size_8]
    encoded_within_le [OF sample_size_9] encoded_within_le [OF sample_size_10]
  by (simp_all add: fits_def message_ok_def maxInput_def)

text \<open>The driver over that server, and a C caller with a statement on a connection.\<close>

definition sample_params :: "(nat, unit) drv_params" where
  "sample_params = \<lparr>dp_host = sample_env, dp_libs = sample_libs, dp_net = (\<lambda>_. serving sample_lib sample_server), dp_fuel = 10,
     dp_pk_order = (\<lambda>gs. gs), dp_fk_order = (\<lambda>gs. gs), dp_version = None, dp_range = (\<lambda>opts. opts), dp_show = (\<lambda>e. ''panic''), dp_log = [],
     lib_reader = (\<lambda>src x. (Inr (Inr 0), x)), lib_Next = (\<lambda>j x. (Inr False, x)), lib_Batch = (\<lambda>j x. (Inr None, x)),
     lib_Err = (\<lambda>j x. (Inr None, x)), lib_Schema = (\<lambda>j x. (Inr None, x)), lib_effect = (\<lambda>e x. (Inr (), x)),
     lib_import_batch = (\<lambda>a s x. (Inr (Inl []), x)), lib_import_stream = (\<lambda>a x. (Inr (Inl []), x))\<rparr>"

definition sample_heap :: "string \<Rightarrow> (nat, unit) drv" where
  "sample_heap sql = \<lparr>dv_next = 10, dv_dbs = Map.empty, dv_conns = [5 \<mapsto> (sample_uri, sample_connection 0)],
     dv_stmts = [6 \<mapsto> (5, NewStatement\<lparr>st_sql := sql\<rparr>)], dv_readers = Map.empty, dv_schemas = Map.empty, dv_batches = Map.empty,
     dv_inputs = Map.empty, dv_streams = Map.empty, dv_net = 0, dv_lib = ()\<rparr>"

definition sample_caller :: "string \<Rightarrow> (nat, unit) drv capi" where
  "sample_caller sql = (capi_start (sample_heap sql))\<lparr>objs := [3 \<mapsto> HStmt \<lparr>stmt_ctx = None, stmt_stmt = Some 6\<rparr>],
     live_handles := {3}, next_handle := 4, stmt_data := (\<lambda>_. 0)(1 := 3)\<rparr>"

lemma sample_caller_ready: "sql \<noteq> [] \<Longrightarrow> ready 1 6 5 sql sample_uri (sample_connection 0) (sample_caller sql)"
  by (simp add: ready_def sample_caller_def capi_start_def sample_heap_def NewStatement_def has_binding_def sample_connection_def)

lemma sample_params_simps:
  "l_arrow (dp_libs sample_params) = sample_alib" "l_go (dp_libs sample_params) = sample_lib" "dp_fuel sample_params = 10"
  "dp_net sample_params t = serving sample_lib sample_server"
  by (simp_all add: sample_params_def sample_libs_def)

lemma sample_tame: "tame_env (driver_env sample_params)"
  by (rule driver_tame) (simp add: lib_tame_def tame_def sample_params_def)

lemma sample_send: "send_of sample_params u = Send sample_lib (serving sample_lib sample_server) u"
  by (simp add: send_of_def sample_params_def sample_libs_def)

lemma sample_at_net: "sess (at_net (dv_net (go_side (sample_caller sql))) (sample_connection 0)) = sample_session 0"
  by (simp add: at_net_def sample_caller_def sample_heap_def capi_start_def sample_connection_def sample_session_def)

definition sample_record :: "32 word list \<Rightarrow> arrow_record" where
  "sample_record xs = \<lparr>rec_Fields = [Field ''id'' AT_Int32 True], rec_Columns = [map CInt32 xs]\<rparr>"

definition sample_conv :: "DataChunk \<Rightarrow> arrow_record" where
  "sample_conv ch = sample_record (if ch = ints_chunk [9] then [9] else [7, 8])"

lemma sample_records:
  "RecordFromChunk sample_alib sample_lib [''id''] (ints_chunk [7, 8]) = Done (Inr (sample_record [7, 8]))"
  "RecordFromChunk sample_alib sample_lib [''id''] (ints_chunk [9]) = Done (Inr (sample_record [9]))"
  by code_simp+

lemma sample_schema: "SchemaFromColumns sample_alib [''id''] [Of LogicalTypeIDInteger] = Done [Field ''id'' AT_Int32 True]"
  by code_simp

text \<open>A stream in the middle of a result that the server will refuse to continue, and the statement it came from.\<close>

definition sample_reader :: streamingRecordReader where
  "sample_reader = \<lparr>rr_cursor = \<lparr>columnNames = [''id''], columnTypes = [Of LogicalTypeIDInteger], resultUUID = other_result,
       buffered = [ints_chunk [7, 8]], needsMore = True, c_closed = False\<rparr>, rr_schema = [Field ''id'' AT_Int32 True],
     rr_colNames = [''id''], rr_current = None, rr_err = None, rr_refs = 1, rr_done = False\<rparr>"

definition streaming_caller :: "(nat, unit) drv capi" where
  "streaming_caller = (capi_start ((sample_heap [])\<lparr>dv_readers := [7 \<mapsto> QuackReader 5 sample_reader]\<rparr>))\<lparr>
     objs := [3 \<mapsto> HStream \<lparr>cs_rdr = 7, cs_adbcErr = None, cs_status = ADBC_STATUS_OK\<rparr>, 4 \<mapsto> HStmt \<lparr>stmt_ctx = None, stmt_stmt = Some 6\<rparr>],
     live_handles := {3, 4}, next_handle := 5, stmt_data := (\<lambda>_. 0)(1 := 4),
     stream_data := (\<lambda>_. \<lparr>st_ours = False, st_private = 0\<rparr>)(2 := \<lparr>st_ours = True, st_private = 3\<rparr>)\<rparr>"

definition sample_stopped :: streamingRecordReader where
  "sample_stopped = sample_reader\<lparr>rr_cursor := (rr_cursor sample_reader)\<lparr>buffered := []\<rparr>,
     rr_err := Some (wrapf ''cursor: fetch: '' (ErrServerError ''interrupted''))\<rparr>"

lemma sample_stopped_err: "rr_err sample_stopped = Some (wrapf ''cursor: fetch: '' (ErrServerError ''interrupted''))"
  by (simp add: sample_stopped_def)

lemma sample_reads:
  "read_records sample_alib sample_lib (Send sample_lib (serving sample_lib sample_server) sample_uri) 10 2 sample_reader (sample_session 0) =
    Done (([Some (sample_record [7, 8])], sample_stopped), requested (sample_session 0) 1)"
proof -
  let ?send = "Send sample_lib (serving sample_lib sample_server) sample_uri"
  let ?c = "(rr_cursor sample_reader)\<lparr>buffered := []\<rparr>"
  have "fetchMore ?send ?c (sample_session 0) = Done (Inl (wrapf ''cursor: fetch: '' (ErrServerError ''interrupted'')), requested (sample_session 0) 1)"
    by (subst fetchMore_refused [where h = zeroHeader and msg = "''interrupted''" and w = 1])
      (simp_all add: sample_session_def sample_server_def request_header_def sample_fits [unfolded request_header_def] sample_reader_def other_result_new)
  moreover have "RowCount (ints_chunk [7, 8]) \<noteq> 0" by (simp add: ints_chunk_def)
  ultimately have c: "nextChunk ?send (rr_cursor sample_reader) (sample_session 0) = Done (Inr (Some (ints_chunk [7, 8]), ?c), sample_session 0)"
      "nextChunk ?send ?c (sample_session 0) = Done (Inl (wrapf ''cursor: fetch: '' (ErrServerError ''interrupted'')), requested (sample_session 0) 1)"
      "RowCount (ints_chunk [7, 8]) \<noteq> 0"
    by (simp_all add: nextChunk_def sample_reader_def sbind_def sret_def)
  have r_names: "rr_colNames sample_reader = [''id'']" by (simp add: sample_reader_def)
  have ten: "(10::nat) = Suc 9" by simp
  have "Next_loop sample_alib sample_lib ?send 10 sample_reader (sample_session 0) =
      Done ((True, sample_reader\<lparr>rr_cursor := ?c, rr_current := Some (sample_record [7, 8])\<rparr>), sample_session 0)"
    using c(1,3) sample_records(1) r_names unfolding ten by (subst Next_loop.simps) (simp add: Let_def)
  moreover have "Next_loop sample_alib sample_lib ?send 10 (sample_reader\<lparr>rr_cursor := ?c\<rparr>) (sample_session 0) =
      Done ((False, sample_reader\<lparr>rr_cursor := ?c, rr_err := Some (wrapf ''cursor: fetch: '' (ErrServerError ''interrupted''))\<rparr>), requested (sample_session 0) 1)"
    using c(2) unfolding ten by (subst Next_loop.simps) simp
  moreover have "sample_reader\<lparr>rr_current := None\<rparr> = sample_reader" "rr_err sample_reader = None" "\<not> rr_done sample_reader"
    by (simp_all add: sample_reader_def)
  moreover have "(sample_reader\<lparr>rr_cursor := ?c, rr_current := Some (sample_record [7, 8])\<rparr>)\<lparr>rr_current := None\<rparr> = sample_reader\<lparr>rr_cursor := ?c\<rparr>"
    by (simp add: sample_reader_def)
  ultimately have "read_records sample_alib sample_lib ?send 10 (Suc (Suc 0)) sample_reader (sample_session 0) = Done (([Some (sample_record [7, 8])],
      sample_reader\<lparr>rr_cursor := ?c, rr_err := Some (wrapf ''cursor: fetch: '' (ErrServerError ''interrupted''))\<rparr>),
      requested (sample_session 0) 1)"
    by (simp add: Next_def del: Next_loop.simps)
  then show ?thesis unfolding sample_stopped_def numeral_2_eq_2 .
qed

lemma streaming_reads: "reads_from 2 3 7 5 sample_uri sample_reader (sample_session 0) streaming_caller"
  by (simp add: reads_from_def streaming_caller_def stream_handle_def sample_heap_def capi_start_def at_net_def sample_connection_def sample_session_def)

text \<open>The cursor of that query.\<close>

definition sample_opened :: cursor where
  "sample_opened = \<lparr>columnNames = [''id''], columnTypes = [Of LogicalTypeIDInteger], resultUUID = zeroHugeInt,
     buffered = [ints_chunk [7, 8]], needsMore = True, c_closed = False\<rparr>"

lemma sample_open:
  "open_cursor (Send sample_lib (serving sample_lib sample_server) sample_uri) ''FROM t'' (sample_session 0) =
    Done (Inr sample_opened, requested (sample_session 0) 1)"
  unfolding sample_opened_def
  by (rule open_cursor_prepared) (simp_all add: sample_session_def sample_server_def request_header_def sample_fits [unfolded request_header_def])

text \<open>A C caller with an initialized database, an open connection and a statement that has run a query.\<close>

definition sample_client :: "(nat, unit) drv capi" where
  "sample_client = (capi_start ((sample_heap [])\<lparr>dv_dbs := [4 \<mapsto> []]\<rparr>))\<lparr>
     objs := [1 \<mapsto> HDatabase \<lparr>db_opts = [], db_db = Some 4\<rparr>,
       2 \<mapsto> HConn \<lparr>conn_ctx = None, conn_cnxn = Some 5, conn_initArgs = []\<rparr>, 3 \<mapsto> HStmt \<lparr>stmt_ctx = Some 0, stmt_stmt = Some 6\<rparr>],
     live_handles := {1, 2, 3}, next_handle := 4, next_ctx := 1,
     db_data := (\<lambda>_. 0)(1 := 1), cnxn_data := (\<lambda>_. 0)(1 := 2), stmt_data := (\<lambda>_. 0)(1 := 3)\<rparr>"

lemma sample_client_wf: "wf_capi sample_client"
proof -
  have kinds: "holds k sample_client h \<longleftrightarrow> k = KDatabase \<and> h = 1 \<or> k = KConn \<and> h = 2 \<or> k = KStmt \<and> h = 3" for k h
    by (auto simp: holds_def sample_client_def kind_of_def)
  have privs: "priv k sample_client a = (if a = 1 then (case k of KDatabase \<Rightarrow> 1 | KConn \<Rightarrow> 2 | KStmt \<Rightarrow> 3 | KStream \<Rightarrow> 0) else 0)" for k a
    by (cases k) (simp_all add: priv_def sample_client_def capi_start_def)
  have "wf_structs sample_client"
    unfolding wf_structs_def kinds privs by (auto split: c_kind.split if_splits)
  moreover have "wf_handles sample_client" by (simp add: wf_handles_def sample_client_def)
  moreover have "owned_context sample_client 0"
    unfolding owned_context_def by (intro exI [of _ 3]) (simp add: sample_client_def ctx_of_def)
  then have "wf_contexts sample_client" by (simp add: wf_contexts_def) (simp add: sample_client_def)
  ultimately show ?thesis by (simp add: wf_capi_def sample_client_def capi_start_def)
qed

lemma sample_close: "\<exists>c. Close_conn (send_of sample_params u) 10 (sample_connection 0) = Done (Inr (), c)"
proof -
  have "Send sample_lib (serving sample_lib sample_server) u (DisconnectMessage (request_header MessageTypeDisconnectMessage ''c1'' 2)) 0 =
      Done (Inr (Some (stamp (SuccessResponse zeroHeader))), 1)"
    by (subst Send_serving) (use sample_fits in \<open>simp_all add: stamp_def request_header_def sample_server_def delivered_def\<close>)
  then show ?thesis
    by (simp add: sample_send Close_conn_def on_session_def sample_connection_def sample_session_def close_session_def request_def
        nextQueryID_def Let_def)
qed

text \<open>
  C1: every well-formed message is encoded without a panic or an error, and decoding the bytes gives the message back with the header type of its kind.
\<close>

theorem message_roundtrip:
  assumes "message_ok m"
  shows "\<exists>bs. EncodeMessage lib m = Done (Inr bs) \<and>
    (length bs \<le> maxInput \<longrightarrow> DecodeMessage bs = Done (Inr (Some (stamp m))))"
  using message_bytes [OF assms, of lib] decode_then_rest [OF assms, of lib _ "[]"] by auto

theorem message_roundtrip_witness:
  "message_ok sample_message \<and> (\<exists>bs. EncodeMessage sample_lib sample_message = Done (Inr bs) \<and>
    (length bs \<le> maxInput \<longrightarrow> DecodeMessage bs = Done (Inr (Some (stamp sample_message)))))"
  using message_roundtrip [OF sample_message_ok] sample_message_ok by blast

text \<open>
  C2: a chunk of representable columns is encoded without a panic, and a reader positioned at its bytes reads back exactly the chunk and stops right behind it.
\<close>

theorem chunk_roundtrip:
  assumes "chunk_ok c"
  shows "\<exists>act bs. EncodeDataChunk lib c = Done act \<and> Bytes (act (NewBinaryWriter 256)) = bs \<and>
    (\<forall>rest. length (bs @ rest) \<le> maxInput \<longrightarrow> DecodeDataChunk (Suc (length bs)) (NewBinaryReader (bs @ rest))
       = Done (c, advance (length bs) (NewBinaryReader (bs @ rest))))"
proof -
  obtain act bs where act: "EncodeDataChunk lib c = Done act" "appends act bs"
      "\<And>rest n. length bs < n \<Longrightarrow> reads (DecodeDataChunk n) c bs rest"
    using chunk_travels [OF assms, of lib] by (auto simp: emits_def)
  have "DecodeDataChunk (Suc (length bs)) (NewBinaryReader (bs @ rest)) = Done (c, advance (length bs) (NewBinaryReader (bs @ rest)))"
    if "length (bs @ rest) \<le> maxInput" for rest
    using that by (intro readsD [OF act(3)]) (simp_all add: healthy_def NewBinaryReader_def rem_bytes_def)
  then show ?thesis using act(1) Bytes_of_appends [OF act(2)] by blast
qed

theorem chunk_roundtrip_witness:
  "chunk_ok sample_chunk \<and> (\<exists>act bs. EncodeDataChunk sample_lib sample_chunk = Done act \<and>
    Bytes (act (NewBinaryWriter 256)) = bs \<and>
    (\<forall>rest. length (bs @ rest) \<le> maxInput \<longrightarrow> DecodeDataChunk (Suc (length bs)) (NewBinaryReader (bs @ rest))
       = Done (sample_chunk, advance (length bs) (NewBinaryReader (bs @ rest)))))"
  using chunk_roundtrip [OF sample_chunk_ok] sample_chunk_ok by blast



text \<open>
  C4: a C caller executes a statement, calls the stream of the result until it ends, and releases it.  Suppose that the statement has SQL and no bound values, that its connection has autocommit on or a transaction open already (so no BEGIN is sent first), that every batch fetched from the server has a chunk (an empty one would end the stream early), that every chunk with rows converts to Arrow, and that there are fewer chunks than the fuel of the model.  Then the batches received are the records of the chunks with rows, in the order of the server; afterwards the handle of the stream is gone, the reader counts no reference and its cursor is closed.
\<close>

theorem query_reaches_caller:
  assumes "ready a x k sql u c s"
    and "open_cursor (send_of P u) sql (sess (at_net (dv_net (go_side s)) c)) = Done (Inr cur, s1)"
    and "SchemaFromColumns (l_arrow (dp_libs P)) (columnNames cur) (columnTypes cur) = Done schema"
    and "batches (send_of P u) (cur\<lparr>buffered := []\<rparr>) s1 bs cur' s2" "[] \<notin> set bs"
    and "length (buffered cur @ concat bs) < dp_fuel P"
    and "\<forall>ch \<in> set (buffered cur @ concat bs). RowCount ch \<noteq> 0 \<longrightarrow>
      RecordFromChunk (l_arrow (dp_libs P)) (l_go (dp_libs P)) (columnNames cur) ch = Done (Inr (conv ch))"
  shows "\<exists>s' ns s'' s3 rr. QuackStatementExecuteQuery (driver_env P) (Some a) (Some out) s = (ADBC_STATUS_OK, s') \<and>
    read_stream (driver_env P) (Suc (length (buffered cur @ concat bs))) (Some out) s' = (Inr (Some E_OK, ns), s'') \<and>
    QuackArrayStreamRelease (driver_env P) (Some out) s'' = (Inr (), s3) \<and>
    map (dv_batches (go_side s3)) ns = map (\<lambda>ch. Some (Some (conv ch))) (filter (\<lambda>ch. RowCount ch \<noteq> 0) (buffered cur @ concat bs)) \<and>
    stream_handle (Some out) s3 = None \<and> next_handle s \<notin> live_handles s3 \<and>
    dv_readers (go_side s3) (dv_next (go_side s)) = Some (QuackReader k rr) \<and> rr_refs rr = 0 \<and> c_closed (rr_cursor rr)"
  by (rule query_life [OF assms(1-6)]) (use assms(7) in blast)

theorem query_reaches_caller_witness:
  "\<exists>s' ns s'' s3. QuackStatementExecuteQuery (driver_env sample_params) (Some 1) (Some 2) (sample_caller ''FROM t'') = (ADBC_STATUS_OK, s') \<and>
    read_stream (driver_env sample_params) 3 (Some 2) s' = (Inr (Some E_OK, ns), s'') \<and>
    QuackArrayStreamRelease (driver_env sample_params) (Some 2) s'' = (Inr (), s3) \<and>
    map (dv_batches (go_side s3)) ns = [Some (Some (sample_record [7, 8])), Some (Some (sample_record [9]))]"
proof -
  let ?cur = "\<lparr>columnNames = [''id''], columnTypes = [Of LogicalTypeIDInteger], resultUUID = zeroHugeInt,
    buffered = [ints_chunk [7, 8]], needsMore = True, c_closed = False\<rparr>"
  let ?s1 = "requested (sample_session 0) 1" let ?s2 = "requested ?s1 2"
  let ?c = "?cur\<lparr>buffered := []\<rparr>"
  let ?send = "Send sample_lib (serving sample_lib sample_server) sample_uri"
  have o: "open_cursor ?send ''FROM t'' (sample_session 0) = Done (Inr ?cur, ?s1)"
    by (rule sample_open [unfolded sample_opened_def])
  have "fetchMore ?send ?c ?s1 = Done (Inr (?c\<lparr>buffered := [ints_chunk [9]], needsMore := False\<rparr>), ?s2)"
    by (subst fetchMore_fetched [where h = zeroHeader and results = "[ints_chunk [9]]" and n = 0 and more_batches = False and w = 2])
      (simp_all add: requested_def sample_session_def sample_server_def request_header_def sample_fits [unfolded request_header_def])
  then have b: "batches ?send ?c ?s1 [[ints_chunk [9]]] (?c\<lparr>needsMore := False\<rparr>) ?s2"
    using batches.batch [of ?c ?send ?s1 "?c\<lparr>buffered := [ints_chunk [9]], needsMore := False\<rparr>" ?s2 "[]" "?c\<lparr>needsMore := False\<rparr>" ?s2]
    by (simp add: batches.exhausted)
  have conv: "\<forall>ch \<in> set (buffered ?cur @ concat [[ints_chunk [9]]]). RowCount ch \<noteq> 0 \<longrightarrow>
      RecordFromChunk sample_alib sample_lib (columnNames ?cur) ch = Done (Inr (sample_conv ch))"
    using sample_records by (simp add: sample_conv_def ints_chunk_def)
  have sc: "SchemaFromColumns sample_alib (columnNames ?cur) (columnTypes ?cur) = Done [Field ''id'' AT_Int32 True]"
    using sample_schema by simp
  have map: "map (\<lambda>ch. Some (Some (sample_conv ch))) (filter (\<lambda>ch. RowCount ch \<noteq> 0) (buffered ?cur @ concat [[ints_chunk [9]]])) =
      [Some (Some (sample_record [7, 8])), Some (Some (sample_record [9]))]"
    by (simp add: sample_conv_def ints_chunk_def)
  have len: "Suc (length (buffered ?cur @ concat [[ints_chunk [9]]])) = 3" by simp
  have rd: "ready 1 6 5 ''FROM t'' sample_uri (sample_connection 0) (sample_caller ''FROM t'')" by (rule sample_caller_ready) simp
  have "[] \<notin> set [[ints_chunk [9]]]" "length (buffered ?cur @ concat [[ints_chunk [9]]]) < 10" by simp_all
  from query_reaches_caller [where P = sample_params and conv = sample_conv and out = 2, OF rd,
      unfolded sample_send sample_at_net sample_params_simps, OF o sc b this conv, unfolded map len]
  show ?thesis by (elim exE conjE) (intro exI conjI; assumption)
qed

text \<open>
  C5: after any sequence of calls of the C interface (with a Go side that itself misuses no handle) every non-null private_data is a live handle of the right kind, held by one struct only; every live database, connection and statement is held by a struct; every context ever made is cancelled or belongs to a live connection or statement; and no recorded panic is the use of a deleted or wrong handle.
\<close>

theorem capi_handles_sound:
  assumes "tame_env env" "capi_run env (capi_start w) s"
  shows "(\<forall>k a. priv k s a \<noteq> 0 \<longrightarrow> holds k s (priv k s a)) \<and>
    (\<forall>k a b. priv k s a = priv k s b \<longrightarrow> priv k s a \<noteq> 0 \<longrightarrow> a = b) \<and>
    (\<forall>k h. k \<noteq> KStream \<longrightarrow> holds k s h \<longrightarrow> (\<exists>a. priv k s a = h)) \<and>
    (\<forall>c < next_ctx s. c \<in> cancelled s \<or> owned_context s c) \<and>
    (\<forall>e \<in> set (stderr_log s). \<not> misuse e)"
proof -
  have "wf_capi s" by (rule capi_run_wf [OF assms(2,1) wf_capi_start])
  then show ?thesis unfolding wf_capi_def wf_structs_def wf_contexts_def by blast
qed

theorem capi_handles_sound_witness:
  "priv KDatabase (snd (QuackDatabaseNew sample_go (Some 1) (capi_start []))) 1 = 1 \<and>
   holds KDatabase (snd (QuackDatabaseNew sample_go (Some 1) (capi_start []))) 1"
proof -
  have p: "priv KDatabase (snd (QuackDatabaseNew sample_go (Some 1) (capi_start []))) 1 = 1"
    by (simp add: QuackDatabaseNew_def recovering_def capi_start_def c_bind_def newHandle_def c_modify_def c_ret_def priv_def)
  have "priv KDatabase (snd (QuackDatabaseNew sample_go (Some 1) (capi_start []))) 1 \<noteq> 0 \<longrightarrow>
      holds KDatabase (snd (QuackDatabaseNew sample_go (Some 1) (capi_start [])))
        (priv KDatabase (snd (QuackDatabaseNew sample_go (Some 1) (capi_start []))) 1)"
    using capi_handles_sound [OF sample_go_ok sample_capi_run] by blast
  then show ?thesis using p by simp
qed

text \<open>
  C6: start with no streams and readers and let a C program make any calls, also ones that fail, panic or are made after a panic.  In every state it reaches, a record reader of the driver is held by exactly one live stream handle and counts exactly one reference, or no live stream holds it, it counts no reference and its cursor is closed: no reader is leaked, shared or closed under a stream.
\<close>

theorem readers_have_owner:
  assumes "no_readers s0" "capi_run (driver_env P) s0 s" "dv_readers (go_side s) n = Some (QuackReader k rr)"
  shows "(\<exists>h. {h. (h, n) \<in> streams_of s} = {h} \<and> rr_refs rr = 1) \<or>
    {h. (h, n) \<in> streams_of s} = {} \<and> rr_refs rr = 0 \<and> c_closed (rr_cursor rr)"
  by (rule owned_reader [OF run_owned [OF assms(2) no_readers_owned [OF assms(1)]] assms(3)])

theorem readers_have_owner_witness:
  "\<exists>s rr. capi_run (driver_env sample_params) (sample_caller ''FROM t'') s \<and> dv_readers (go_side s) 10 = Some (QuackReader 5 rr) \<and>
    rr_refs rr = 1 \<and> {h. (h, 10) \<in> streams_of s} = {4}"
proof -
  let ?s0 = "sample_caller ''FROM t''"
  have rd: "ready 1 6 5 ''FROM t'' sample_uri (sample_connection 0) ?s0" by (rule sample_caller_ready) simp
  have n: "dv_next (go_side ?s0) = 10" "next_handle ?s0 = 4" by (simp_all add: sample_caller_def capi_start_def sample_heap_def)
  obtain rr where rr: "newStreamingRecordReader sample_alib sample_opened = Done rr" "rr_refs rr = 1"
    using sample_schema by (simp add: newStreamingRecordReader_def sample_opened_def)
  obtain s where s: "QuackStatementExecuteQuery (driver_env sample_params) (Some 1) (Some 2) ?s0 = (ADBC_STATUS_OK, s)"
      "reads_from 2 4 10 5 sample_uri rr (requested (sample_session 0) 1) s"
    using query_streams [where P = sample_params and out = 2, OF rd, unfolded sample_send sample_at_net sample_params_simps, OF sample_open rr(1)] n by auto
  have run: "capi_run (driver_env sample_params) ?s0 s"
    by (rule capi_run.call [OF capi_run.start]) (use s(1) in \<open>auto simp: adbc_call_def intro: stmt_call.stmt_query\<close>)
  have no: "no_readers ?s0" by (auto simp: no_readers_def sample_caller_def capi_start_def sample_heap_def streams_of_def)
  have h: "dv_readers (go_side s) 10 = Some (QuackReader 5 rr)" "(4, 10) \<in> streams_of s" using s(2) by (auto simp: reads_from_def streams_of_def)
  have "{h. (h, 10) \<in> streams_of s} = {4}" using readers_have_owner [OF no run h(1)] h(2) by (auto simp: set_eq_iff)
  then show ?thesis using run h(1) rr(2) by blast
qed



text \<open>
  C8: whatever a client does with a connection, the messages on the wire are one CONNECTION_REQUEST with the token, then requests under the connection id the server assigned; the query ids count up from 1, and there is exactly one DISCONNECT when the session is closed and none before.
\<close>

theorem connection_messages:
  assumes "newSession (traced send) token ([], w) = Done (Inr (), s)"
    and "conn_run Q ls (traced send) n \<lparr>sess = s, autoCommit = True, txOpen = False\<rparr> c"
    and "c' = c \<or> Close_conn (traced send) n c = Done (r, c')"
  shows "session_inv (map fst \<circ> fst) token (connectionID s) (sess c')"
proof -
  have "session_run (traced send) (\<lambda>_. True) s (sess c)" using run_session [OF assms(2)] by simp
  then have run: "session_run (traced send) (\<lambda>_. True) s (sess c')"
    using assms(3) close_run session_run_trans by blast
  show ?thesis by (rule traced_channel.session_messages [OF assms(1) _ run]) simp
qed

theorem connection_messages_witness:
  "\<exists>s r c'. newSession (traced scripted) ''t'' ([], [connected]) = Done (Inr (), s) \<and>
    Close_conn (traced scripted) 0 \<lparr>sess = s, autoCommit = True, txOpen = False\<rparr> = Done (r, c') \<and>
    session_inv (map fst \<circ> fst) ''t'' (connectionID s) (sess c')"
proof -
  obtain s where s: "newSession (traced scripted) ''t'' ([], [connected]) = Done (Inr (), s)"
    by (simp add: newSession_def handshake_def sbind_def exchange_accepted request_def nextQueryID_def traced_def scripted_def
        connected_def accepted_def)
  let ?c = "\<lparr>sess = s, autoCommit = True, txOpen = False\<rparr>"
  have "\<exists>r c'. Close_conn (traced scripted) 0 ?c = Done (r, c')"
    by (auto simp: Close_conn_def on_session_def close_session_def request_def nextQueryID_def traced_def scripted_def Let_def
        split: prod.split list.split)
  then show ?thesis using s connection_messages [OF s conn_run.idle] by blast
qed

text \<open>
  C9: a batch of columns of the ingestable types is converted to a chunk without a panic or an error; the APPEND_REQUEST carrying it is decoded to itself, and converting the decoded chunk to Arrow gives back the names, types, values and nulls of the batch, with every field nullable.
\<close>

theorem ingest_roundtrip:
  assumes "batch_ok rec"
  shows "\<exists>chunk bs. chunkFromRecord alib rec = Done (Inr chunk) \<and>
    EncodeMessage lib (AppendRequest hdr schema table chunk) = Done (Inr bs) \<and>
    (length bs \<le> maxInput \<longrightarrow> DecodeMessage bs = Done (Inr (Some (stamp (AppendRequest hdr schema table chunk))))) \<and>
    RecordFromChunk alib lib (map f_Name (b_Fields rec)) chunk = Done (Inr
      \<lparr>rec_Fields = map (\<lambda>f. Field (f_Name f) (f_Type f) True) (b_Fields rec), rec_Columns = map arr_cells (b_Columns rec)\<rparr>)"
proof -
  obtain chunk where chunk: "chunkFromRecord alib rec = Done (Inr chunk)" "chunk_ok chunk"
      "RecordFromChunk alib lib (map f_Name (b_Fields rec)) chunk = Done (Inr
        \<lparr>rec_Fields = map (\<lambda>f. Field (f_Name f) (f_Type f) True) (b_Fields rec), rec_Columns = map arr_cells (b_Columns rec)\<rparr>)"
    using ingest_batch [OF assms, of alib lib] by blast
  have ok: "message_ok (AppendRequest hdr schema table chunk)" using chunk(2) by (simp add: message_ok_def)
  show ?thesis
    using chunk message_bytes [OF ok, of lib] decode_then_rest [OF ok, of lib _ "[]"] by auto
qed

theorem ingest_roundtrip_witness:
  "\<exists>chunk. chunkFromRecord sample_alib \<lparr>b_Fields = [Field ''x'' AT_Int32 True, Field ''y'' AT_String False],
      b_Columns = [Int32Arr [Some 7, None], StringArr [None, Some ''a'']], b_NumRows = 2\<rparr> = Done (Inr chunk) \<and>
    RecordFromChunk sample_alib sample_lib [''x'', ''y''] chunk = Done (Inr \<lparr>rec_Fields = [Field ''x'' AT_Int32 True, Field ''y'' AT_String True],
      rec_Columns = [[CInt32 7, CNull], [CNull, CString ''a'']]\<rparr>)"
proof -
  let ?rec = "\<lparr>b_Fields = [Field ''x'' AT_Int32 True, Field ''y'' AT_String False],
      b_Columns = [Int32Arr [Some 7, None], StringArr [None, Some ''a'']], b_NumRows = 2\<rparr>"
  have "batch_ok ?rec" by (simp add: batch_ok_def small_count_def ingestable_def)
  from ingest_roundtrip [OF this, of sample_alib sample_lib zeroHeader "[]" "[]"] show ?thesis by (auto simp: opt_cells_def)
qed

text \<open>
  C10: when the server delivers no empty batch, pulling records one at a time from the streaming reader yields the conversion of every chunk with rows that draining the cursor returns, in that order, then ends without an error, and both make the same requests.
\<close>

theorem stream_equals_drain:
  assumes "batches send (c\<lparr>buffered := []\<rparr>) s bs c' s'" "list_all (\<lambda>b. b \<noteq> []) bs" "\<not> c_closed c"
    and "newStreamingRecordReader alib c = Done rr" "length (buffered c @ concat bs) < n" "length (buffered c @ concat bs) < k" "length bs \<le> n"
    and "\<And>x. x \<in> set (buffered c @ concat bs) \<Longrightarrow> RowCount x \<noteq> 0 \<Longrightarrow> RecordFromChunk alib lib (columnNames c) x = Done (Inr (conv x))"
  shows "\<exists>chunks rr'. drainAll send n c s = Done (Inr (chunks, c'), s') \<and>
    read_records alib lib send n k rr s = Done ((map (Some \<circ> conv) (filter (\<lambda>x. RowCount x \<noteq> 0) chunks), rr'), s') \<and>
    is_done rr' c'"
proof -
  have rr: "rr_cursor rr = c" "rr_err rr = None" "\<not> rr_done rr" "rr_colNames rr = columnNames c"
    using assms(4) by (auto simp: newStreamingRecordReader_def outcome_bind_eq_Done)
  have "\<exists>rr'. read_records alib lib send n k rr s =
      Done ((map (Some \<circ> conv) (filter (\<lambda>x. RowCount x \<noteq> 0) (buffered c @ concat bs)), rr'), s') \<and> is_done rr' c'"
    by (rule read_records_chunks [OF read_chunks_all [OF assms(1,3,2)] rr(1-3) assms(5,6)])
      (use assms(8) in \<open>simp only: rr(4)\<close>)
  then show ?thesis using drainAll_batches [OF assms(1,7)] by blast
qed

theorem stream_equals_drain_witness:
  "\<exists>rr chunks rr'. newStreamingRecordReader sample_alib (sample_cursor\<lparr>needsMore := False, buffered := [ints_chunk [], ints_chunk [7, 8]]\<rparr>) = Done rr \<and>
    drainAll scripted 3 (sample_cursor\<lparr>needsMore := False, buffered := [ints_chunk [], ints_chunk [7, 8]]\<rparr>) (sample_session []) =
      Done (Inr (chunks, sample_cursor\<lparr>needsMore := False\<rparr>), sample_session []) \<and>
    read_records sample_alib sample_lib scripted 3 3 rr (sample_session []) =
      Done ((map (Some \<circ> (\<lambda>x. \<lparr>rec_Fields = [Field ''id'' AT_Int32 True], rec_Columns = [[CInt32 7, CInt32 8]]\<rparr>))
        (filter (\<lambda>x. RowCount x \<noteq> 0) chunks), rr'), sample_session [])"
proof -
  let ?c = "sample_cursor\<lparr>needsMore := False, buffered := [ints_chunk [], ints_chunk [7, 8]]\<rparr>"
  obtain rr where rr: "newStreamingRecordReader sample_alib ?c = Done rr"
    by (simp add: newStreamingRecordReader_def SchemaFromColumns_def sample_cursor_def index_at_def)
  have b: "batches scripted (?c\<lparr>buffered := []\<rparr>) (sample_session []) [] (sample_cursor\<lparr>needsMore := False\<rparr>) (sample_session [])"
    using batches.exhausted [of "sample_cursor\<lparr>needsMore := False\<rparr>" scripted "sample_session []"] by (simp add: sample_cursor_def)
  have conv: "RecordFromChunk sample_alib sample_lib [''id''] (ints_chunk [7, 8])
      = Done (Inr \<lparr>rec_Fields = [Field ''id'' AT_Int32 True], rec_Columns = [[CInt32 7, CInt32 8]]\<rparr>)"
    by code_simp
  have "\<exists>chunks rr'. drainAll scripted 3 ?c (sample_session []) = Done (Inr (chunks, sample_cursor\<lparr>needsMore := False\<rparr>), sample_session []) \<and>
     read_records sample_alib sample_lib scripted 3 3 rr (sample_session []) =
      Done ((map (Some \<circ> (\<lambda>x. \<lparr>rec_Fields = [Field ''id'' AT_Int32 True], rec_Columns = [[CInt32 7, CInt32 8]]\<rparr>))
        (filter (\<lambda>x. RowCount x \<noteq> 0) chunks), rr'), sample_session []) \<and> is_done rr' (sample_cursor\<lparr>needsMore := False\<rparr>)"
    by (rule stream_equals_drain [OF b _ _ rr])
      (use conv in \<open>auto simp: sample_cursor_def ints_chunk_def\<close>)
  then show ?thesis using rr by blast
qed

text \<open>
  C11: reading a C stream until it ends refines reading the record reader of the driver behind it until Next is false: the batches are the same, the end is reported as success or, when the reader stopped at an error, as EIO, and then the error of the stream holds the text of that error.
\<close>

theorem stream_refines_reader:
  assumes "reads_from a h n k u rr se s"
    and "read_records (l_arrow (dp_libs P)) (l_go (dp_libs P)) (send_of P u) (dp_fuel P) m rr se = Done ((rs, rr'), se')"
  shows "\<exists>ns s'. read_stream (driver_env P) m (Some a) s = (Inr (Some (if rr_err rr' = None then E_OK else EIO), ns), s') \<and>
    reads_from a h n k u rr' se' s' \<and> map (dv_batches (go_side s')) ns = map Some rs \<and>
    stream_error h s' = (case rr_err rr' of None \<Rightarrow> stream_error h s | Some e \<Rightarrow> reader_error (stream_error h s) (e_text e))"
  using read_stream_records [OF assms(2,1)] by blast

theorem stream_refines_reader_witness:
  "\<exists>ns s'. read_stream (driver_env sample_params) 2 (Some 2) streaming_caller = (Inr (Some EIO, ns), s') \<and>
    map (dv_batches (go_side s')) ns = [Some (Some (sample_record [7, 8]))] \<and>
    stream_error 3 s' = reader_error None ''cursor: fetch: interrupted''"
proof -
  have none: "stream_error 3 streaming_caller = None" by (simp add: stream_error_def streaming_caller_def)
  from stream_refines_reader [where P = sample_params, OF streaming_reads, unfolded sample_send sample_params_simps, OF sample_reads]
  obtain ns s' where "read_stream (driver_env sample_params) 2 (Some 2) streaming_caller = (Inr (Some EIO, ns), s')"
      "map (dv_batches (go_side s')) ns = map Some [Some (sample_record [7, 8])]"
      "stream_error 3 s' = reader_error (stream_error 3 streaming_caller) (e_text (wrapf ''cursor: fetch: '' (ErrServerError ''interrupted'')))"
    unfolding sample_stopped_err by (auto simp del: read_stream.simps)
  then show ?thesis using none by (simp add: wrapf_def ErrServerError_def)
qed

text \<open>
  C12: a sequence of New, SetOption, Init and Release calls on one database, made in any state reachable with a Go side that misuses no handle, returns exactly the status codes of the automaton with the states none, allocated with options and ready, makes the same Go calls and ends in the state of the automaton.  The Go side may panic: then the call returns INTERNAL, the automaton is poisoned, and every later operation is refused.  No other database is changed.
\<close>

theorem database_lifecycle:
  assumes "tame_env env" "wf_capi s0" "capi_run env s0 s" "db_run env ops a s = (codes, s')"
  shows "db_spec_run env ops (machine s a) = (codes, machine s' a) \<and> (\<forall>b. b \<noteq> a \<longrightarrow> abs_db s' b = abs_db s b)"
  by (rule db_run_refines [OF assms(1) capi_run_wf [OF assms(3,1,2)] assms(4)])

theorem database_lifecycle_witness:
  "fst (db_run (driver_env sample_params) [DB_Init, DB_New, DB_SetOption (Some ''uri'') (Some ''quack://h''), DB_Init, DB_Init,
      DB_SetOption (Some ''uri'') None, DB_Release, DB_Release] 1 (capi_start (sample_heap []))) =
     [ADBC_STATUS_INVALID_STATE, ADBC_STATUS_OK, ADBC_STATUS_OK, ADBC_STATUS_OK, ADBC_STATUS_INVALID_STATE, ADBC_STATUS_NOT_IMPLEMENTED,
      ADBC_STATUS_OK, ADBC_STATUS_INVALID_STATE]"
proof -
  let ?ops = "[DB_Init, DB_New, DB_SetOption (Some ''uri'') (Some ''quack://h''), DB_Init, DB_Init, DB_SetOption (Some ''uri'') None, DB_Release, DB_Release]"
  let ?s = "capi_start (sample_heap [])"
  have env: "call_err (driver_env sample_params) = drv_err sample_params" "call_make (driver_env sample_params) = drv_make sample_params"
      "supports (driver_env sample_params) = drv_supports"
    by (simp_all add: driver_env_def)
  have log: "log_call (driver_env sample_params) x w = (Inr (), w)" for x w by (simp add: log_call_def env split: option.split)
  have m: "machine ?s 1 = (DB_None, False, sample_heap [])" by (simp add: machine_def abs_db_def capi_start_def)
  have "fst (db_run (driver_env sample_params) ?ops 1 ?s) = fst (db_spec_run (driver_env sample_params) ?ops (DB_None, False, sample_heap []))"
    using database_lifecycle [where s0 = ?s and s = ?s and ops = ?ops and a = 1, OF sample_tame wf_capi_start capi_run.start surjective_pairing]
    unfolding m by (metis fst_conv)
  also have "\<dots> = [ADBC_STATUS_INVALID_STATE, ADBC_STATUS_OK, ADBC_STATUS_OK, ADBC_STATUS_OK, ADBC_STATUS_INVALID_STATE, ADBC_STATUS_NOT_IMPLEMENTED,
      ADBC_STATUS_OK, ADBC_STATUS_INVALID_STATE]"
    by (simp add: env log sample_heap_def new_database_def allocate_def go_defs)
  finally show ?thesis .
qed

text \<open>
  C13: in every reachable state, releasing the statements, connections and databases that are allocated leaves no live handle except those of streams, and every context that was ever made is cancelled, whatever errors the Go side reports.  The one exception is a panic of the Go side, at a Close or before: a poisoned driver refuses the releases that follow, so the claim is made for runs at whose end the driver is not poisoned.
\<close>

theorem everything_released:
  assumes "tame_env env" "wf_capi s0" "capi_run env s0 s"
    and "\<And>a. db_data s a \<noteq> 0 \<Longrightarrow> a \<in> set dbs" "\<And>a. cnxn_data s a \<noteq> 0 \<Longrightarrow> a \<in> set conns" "\<And>a. stmt_data s a \<noteq> 0 \<Longrightarrow> a \<in> set stmts"
    and "s' = release_all env dbs conns stmts s" "\<not> globalPoison s'"
  shows "(\<forall>k h. holds k s' h \<longrightarrow> k = KStream) \<and> (\<forall>c < next_ctx s'. c \<in> cancelled s')"
proof -
  have wf: "wf_capi s" by (rule capi_run_wf [OF assms(3,1,2)])
  note r = release_all_clears [OF assms(1) wf assms(4-6) assms(8) [unfolded assms(7)]]
  show ?thesis unfolding assms(7) using released_state [OF r] by blast
qed

theorem everything_released_witness:
  "\<exists>s'. s' = release_all (driver_env sample_params) [1] [1] [1] sample_client \<and> \<not> globalPoison s' \<and> next_ctx s' = 1 \<and>
    {(k, h). holds k s' h \<and> k \<noteq> KStream} = {} \<and> 0 \<in> cancelled s'"
proof -
  let ?E = "driver_env sample_params"
  obtain c where c: "Close_conn (send_of sample_params sample_uri) 10 (sample_connection 0) = Done (Inr (), c)"
    using sample_close by blast
  have at: "at_net 0 (sample_connection 0) = sample_connection 0" by (simp add: at_net_def sample_connection_def sample_session_def)
  note run = follow_simps c_defer_def deleteHandle_def cancelContext_def with_ctx_def ctx_of_def go_do_def driver_env_def go_defs check_alloc_def
    get_stmt_def get_conn_def get_database_def handle_value_def on_stmt_pure_def set_statement_def on_conn_def err_result_def at c sample_params_simps
  define s1 where "s1 = snd (QuackStatementRelease ?E (Some 1) sample_client)"
  have s1: "\<not> globalPoison s1" "db_data s1 = (\<lambda>_. 0)(1 := 1)" "cnxn_data s1 = (\<lambda>_. 0)(1 := 2)" "next_ctx s1 = 1"
      "objs s1 2 = Some (HConn \<lparr>conn_ctx = None, conn_cnxn = Some 5, conn_initArgs = []\<rparr>)" "2 \<in> live_handles s1"
      "objs s1 1 = Some (HDatabase \<lparr>db_opts = [], db_db = Some 4\<rparr>)" "1 \<in> live_handles s1"
      "dv_conns (go_side s1) 5 = Some (sample_uri, sample_connection 0)" "dv_net (go_side s1) = 0" "dv_dbs (go_side s1) 4 = Some []"
    unfolding s1_def sample_client_def capi_start_def sample_heap_def
    by (simp_all add: run QuackStatementRelease_def checkStmtAlloc_def)
  define s2 where "s2 = snd (QuackConnectionRelease ?E (Some 1) s1)"
  have s2: "\<not> globalPoison s2" "db_data s2 = (\<lambda>_. 0)(1 := 1)" "next_ctx s2 = 1"
      "objs s2 1 = Some (HDatabase \<lparr>db_opts = [], db_db = Some 4\<rparr>)" "1 \<in> live_handles s2" "dv_dbs (go_side s2) 4 = Some []"
    unfolding s2_def using s1 by (simp_all add: run QuackConnectionRelease_def checkConnAlloc_def)
  define s' where "s' = snd (QuackDatabaseRelease ?E (Some 1) s2)"
  have s': "\<not> globalPoison s'" "next_ctx s' = 1"
    unfolding s'_def using s2 by (simp_all add: run QuackDatabaseRelease_def)
  have all: "s' = release_all ?E [1] [1] [1] sample_client"
    by (simp add: release_all_def s'_def s2_def s1_def)
  have "(\<forall>k h. holds k s' h \<longrightarrow> k = KStream) \<and> (\<forall>c < next_ctx s'. c \<in> cancelled s')"
    by (rule everything_released [OF sample_tame sample_client_wf capi_run.start _ _ _ all s'(1)])
      (simp_all add: sample_client_def capi_start_def split: if_splits)
  then show ?thesis using all s' by auto
qed

text \<open>
  C14: put any function on messages behind HTTP, with requests decoded and answers encoded by the codec of the driver: one Send calls the function exactly once, on the request with its header type, and delivers its answer, an ERROR_RESPONSE as the error with its text.  The messages must be well formed and their encodings within the bound on inputs.
\<close>

theorem send_is_server_call:
  assumes "fits lib m" "fits lib' (fst (srv (stamp m) w))"
  shows "Send lib (serving lib' srv) u m w = Done (delivered (fst (srv (stamp m) w)), snd (srv (stamp m) w))"
  using assms by (rule Send_serving)

theorem send_is_server_call_witness:
  "Send sample_lib (serving sample_lib sample_server) sample_uri (FetchRequest (request_header MessageTypeFetchRequest ''c1'' 3) zeroHugeInt) 5 =
    Done (Inr (Some (FetchResponse (zeroHeader\<lparr>h_Type := MessageTypeFetchResponse\<rparr>) [ints_chunk [9]] 0 False)), 6)"
  by (subst send_is_server_call) (use sample_fits in \<open>simp_all add: stamp_def request_header_def sample_server_def delivered_def\<close>)

text \<open>
  C15: a query that the server refuses, made by a statement with SQL and without bound values, on a driver that has not panicked and a connection that needs no BEGIN first: the C caller gets the status INTERNAL and the message of the server in its error struct, no stream is exported, no handle and no reader is left behind, and the driver is not poisoned.
\<close>

theorem server_error_reported:
  assumes "ready a x k sql u c s" "dp_net P (NewHTTPTransport u) = serving lib srv"
    and "sess (at_net (dv_net (go_side s)) c) = se" "srv (prepare_request se sql) (s_world se) = (ErrorResponse hdr msg, w)"
    and "fits (l_go (dp_libs P)) (prepare_request se sql)" "fits lib (ErrorResponse hdr msg)"
  shows "\<exists>s'. QuackStatementExecuteQuery (driver_env P) (Some a) (Some out) s = (status_code StatusInternal, s') \<and>
    c_err s' = setErrWithDetails (c_err s) \<lparr>ae_Msg = msg, ae_Code = status_code StatusInternal, ae_VendorCode = 0,
      ae_SqlState = replicate 5 (CHR 0x00), ae_Details = []\<rparr> \<and>
    stream_data s' = stream_data s \<and> live_handles s' = live_handles s \<and> dv_readers (go_side s') = dv_readers (go_side s) \<and> \<not> globalPoison s'"
  using query_refused [OF assms(1), of P _ _ out] open_cursor_refused [where s = se and sql = sql and srv = srv and u = u, OF assms(5,6,4)] assms(2,3)
  by (simp add: send_of_def wrapf_def ErrServerError_def)

theorem server_error_reported_witness:
  "\<exists>s'. QuackStatementExecuteQuery (driver_env sample_params) (Some 1) (Some 2) (sample_caller ''SELECT 100%'') = (status_code StatusInternal, s') \<and>
    c_err s' = setErrWithDetails None \<lparr>ae_Msg = ''syntax error'', ae_Code = status_code StatusInternal, ae_VendorCode = 0,
      ae_SqlState = replicate 5 (CHR 0x00), ae_Details = []\<rparr>"
  using server_error_reported [OF sample_caller_ready, where P = sample_params and lib = sample_lib and srv = sample_server and se = "sample_session 0"
      and hdr = zeroHeader and msg = "''syntax error''" and w = 1 and out = 2 and sql = "''SELECT 100%''"]
    sample_fits sample_at_net
  by (simp add: sample_params_def sample_libs_def sample_session_def sample_server_def sample_caller_def capi_start_def) blast

text \<open>
  C16: when some endpoints fail at connection level and the next one answers with the encoding of a well-formed message, Send returns that message (or, for an error response, the server's error), whatever endpoints are left.
\<close>

theorem send_reaches_live_endpoint:
  assumes "EncodeMessage lib m = Done (Inr body)"
    and "endpointCandidates net u w = (Inr (bad @ e # es), w1)"
    and "skipped net u body bad w1 = Some w2"
    and "NewRequest net e = None" "Do net (build_request u e body) w2 = (Response status rbs, w3)" "status sdiv 100 = 2"
    and "message_ok reply" "EncodeMessage lib' reply = Done (Inr rbs)" "length rbs \<le> maxInput"
  shows "Send lib net u m w = Done (delivered reply, w3)"
  by (rule Send_delivers [OF assms])

theorem send_reaches_live_endpoint_witness:
  "Send sample_lib sample_net sample_uri (SuccessResponse zeroHeader) 0 = Done (delivered (SuccessResponse zeroHeader), 2)"
proof -
  let ?a = "endpointFor sample_uri ''::1''" and ?b = "endpointFor sample_uri ''127.0.0.1''"
  let ?bs = "[1, 0, 10, 3, 0, 0, 255, 255, 255, 255] :: bytes"
  have "endpointCandidates sample_net sample_uri 0 = (Inr ([?a] @ ?b # []), 0)" by (simp add: sample_endpoints)
  moreover have "skipped sample_net sample_uri ?bs [?a] 0 = Some 1" "NewRequest sample_net ?b = None"
    "Do sample_net (build_request sample_uri ?b ?bs) 1 = (Response 200 ?bs, 2)"
    by (simp_all add: sample_net_def isFallthroughErr_def)
  moreover have "(200 :: int) sdiv 100 = 2" by code_simp
  ultimately show ?thesis
    by (rule send_reaches_live_endpoint [OF sample_bytes _ _ _ _ _ _ sample_bytes]) (simp_all add: message_ok_def maxInput_def)
qed

text \<open>
  C17: decoding returns (a message, an error, or a panic) on every byte string: the fuel the model starts with, one more than the number of bytes, is never exhausted.
\<close>

theorem decode_message_returns: "DecodeMessage bs \<noteq> OutOfFuel"
  by (rule DecodeMessage_fuel)



text \<open>
  C19: a message followed by further bytes is rejected with the AssertEOF error, at the offset where the message ends and with the number of bytes left.
\<close>

theorem trailing_bytes_rejected:
  assumes "message_ok m" "EncodeMessage lib m = Done (Inr bs)" "rest \<noteq> []" "length (bs @ rest) \<le> maxInput"
  shows "DecodeMessage (bs @ rest) = Done (Inl (newError ''AssertEOF''
    (''unexpected trailing '' @ show_int (int (length rest)) @ '' byte(s)'') (int (length bs))))"
  using decode_then_rest [OF assms(1,2,4)] assms(3) by simp

theorem trailing_bytes_rejected_witness:
  "EncodeMessage sample_lib (SuccessResponse zeroHeader) = Done (Inr [1, 0, 10, 3, 0, 0, 255, 255, 255, 255])
   \<and> DecodeMessage ([1, 0, 10, 3, 0, 0, 255, 255, 255, 255] @ [7])
     = Done (Inl (newError ''AssertEOF'' (''unexpected trailing '' @ show_int (int (length [7 :: 8 word])) @ '' byte(s)'')
         (int (length [1, 0, 10, 3, 0, 0, 255, 255, 255, 255 :: 8 word]))))"
proof -
  have e: "EncodeMessage sample_lib (SuccessResponse zeroHeader) = Done (Inr [1, 0, 10, 3, 0, 0, 255, 255, 255, 255])"
    by code_simp
  show ?thesis
    using e trailing_bytes_rejected [of "SuccessResponse zeroHeader", OF _ e, of "[7]"]
    by (simp add: message_ok_def maxInput_def)
qed

text \<open>
  C20: draining a cursor refines the contract of a result: it returns chunks exactly when the server delivers a finite sequence of batches, and then the chunks that came with the PREPARE_RESPONSE followed by those of every batch in order.
\<close>

theorem drain_collects_batches:
  "(\<exists>n. drainAll send n c s = Done (Inr (chunks, c'), s')) \<longleftrightarrow>
   (\<exists>bs. batches send (c\<lparr>buffered := []\<rparr>) s bs c' s' \<and> chunks = buffered c @ concat bs)"
  using drainAll_batches [OF _ order_refl] batches_drainAll by blast

text \<open>
  C21: closing a connection sends a ROLLBACK exactly when a transaction is open and no other SQL text, then a DISCONNECT as the last message, reports no error whatever the server replies, and a second close sends nothing at all.
\<close>

theorem connection_closed_once:
  assumes "Close_conn (traced send) n c = Done (r, c')" "control_simple send" "\<not> closed (sess c)" "connectionID (sess c) \<noteq> []"
  shows "(\<exists>ok. tx_log c' = tx_log c @ (if txOpen c then [(''ROLLBACK'', ok)] else [])) \<and>
    messageTypeOf (fst (last (fst (s_world (sess c'))))) = MessageTypeDisconnectMessage \<and>
    r = Inr () \<and> closed (sess c') \<and> Close_conn (traced send) n c' = Done (Inr (), c')"
  using Close_conn_log [OF assms] Close_conn_Done [OF assms(1)] by blast

theorem connection_closed_once_witness:
  "\<exists>r c'. Close_conn (traced scripted_control) 0 (sample_connection ([], []) \<lparr>autoCommit := False, txOpen := True\<rparr>) = Done (r, c') \<and>
    r = Inr () \<and> Close_conn (traced scripted_control) 0 c' = Done (Inr (), c')"
proof -
  let ?c = "sample_connection ([], []) \<lparr>autoCommit := False, txOpen := True\<rparr>"
  have "\<exists>r c'. Close_conn (traced scripted_control) 0 ?c = Done (r, c')"
    by (simp add: Close_conn_def execNoResult_def on_session_def drainPrepared_def sbind_def open_cursor_def exchange_accepted
        request_def nextQueryID_def traced_def scripted_control_def scripted_def sample_connection_def sample_session_def
        accepted_def close_session_def Let_def prepared_reply_def is_control_def drainAll_def sret_def)
  then obtain r c' where c: "Close_conn (traced scripted_control) 0 ?c = Done (r, c')" by blast
  have "\<not> closed (sess ?c)" "connectionID (sess ?c) \<noteq> []" by (simp_all add: sample_connection_def sample_session_def)
  then show ?thesis using c connection_closed_once [OF c scripted_control_simple] by blast
qed

text \<open>
  C22: once the driver is poisoned, every call on a database, connection or statement returns INVALID_STATE or INTERNAL and changes nothing but the error struct of the caller; the Go side is not called and no handle is touched.
\<close>

theorem poisoned_driver_refuses:
  assumes "globalPoison s" "adbc_call env s code s'"
  shows "(code = ADBC_STATUS_INVALID_STATE \<or> code = ADBC_STATUS_INTERNAL) \<and> s' = s\<lparr>c_err := c_err s'\<rparr>"
  by (rule adbc_call_refused [OF assms(2,1)])

theorem poisoned_driver_refuses_witness:
  "\<exists>code s'. QuackDatabaseInit sample_go (Some 1) (sample_capi\<lparr>globalPoison := True\<rparr>) = (code, s') \<and> code \<noteq> ADBC_STATUS_OK \<and> go_side s' = []"
proof -
  let ?s = "sample_capi\<lparr>globalPoison := True\<rparr>"
  obtain code s' where r: "QuackDatabaseInit sample_go (Some 1) ?s = (code, s')" by (metis surj_pair)
  then have "adbc_call sample_go ?s code s'" unfolding adbc_call_def by (intro disjI1 db_call.db_init)
  moreover have "globalPoison ?s" by simp
  ultimately have "(code = ADBC_STATUS_INVALID_STATE \<or> code = ADBC_STATUS_INTERNAL) \<and> s' = ?s\<lparr>c_err := c_err s'\<rparr>"
    using poisoned_driver_refuses by blast
  moreover from this have "go_side s' = go_side (?s\<lparr>c_err := c_err s'\<rparr>)" by metis
  moreover have "go_side (?s\<lparr>c_err := c_err s'\<rparr>) = []" by (simp add: sample_capi_def capi_start_def)
  ultimately have "code \<noteq> ADBC_STATUS_OK \<and> go_side s' = []" by auto
  then show ?thesis using r by blast
qed


text \<open>
  C24: after an error, every read method of the reader, those for fields, objects, scalars, strings, lists and fixed widths alike, returns its zero value, ReadOptionalField the default it is given, and changes nothing: the recorded error stays the first one, and no callback is called (the body of ReadObject runs, and is assumed to be such a read itself).  ReadBytes keeps the error only for a length that is not negative; for a negative one it replaces the recorded error by its own, against the comment that Err returns the original failure.
\<close>

theorem reader_errors_sticky:
  assumes "r_err r \<noteq> None" "sticky y body"
  shows "ReadFieldID r = Done (0, r) \<and> PeekFieldID r = Done (0, r) \<and> ReadEndObject r = Done ((), r) \<and> AssertEOF r = Done ((), r) \<and>
    ReadRequiredField fid z g r = Done (z, r) \<and> ReadOptionalField fid h d r = Done (d, r) \<and> ReadObject x body r = Done (x, r) \<and>
    readByte r = Done (0, r) \<and> ReadBool r = Done (False, r) \<and> ReadULEB128 r = Done (0, r) \<and> ReadULEB128Int r = Done (0, r) \<and>
    ReadULEB128BigInt r = Done (None, r) \<and> ReadSLEB128 r = Done (0, r) \<and> ReadHugeInt r = Done (zeroHugeInt, r) \<and>
    ReadStringBytes r = Done ([], r) \<and> ReadString r = Done ([], r) \<and> ReadBlob r = Done ([], r) \<and> ReadList esz f r = Done ([], r) \<and>
    ReadNullable e k r = Done ((e, False), r) \<and> ReadFixedInt8 r = Done (0, r) \<and> ReadFixedUint8 r = Done (0, r) \<and>
    ReadFixedInt16 r = Done (0, r) \<and> ReadFixedUint16 r = Done (0, r) \<and> ReadFixedInt32 r = Done (0, r) \<and> ReadFixedUint32 r = Done (0, r) \<and>
    ReadFixedInt64 r = Done (0, r) \<and> ReadFixedUint64 r = Done (0, r) \<and> ReadFixedFloat32 r = Done (0, r) \<and> ReadFixedFloat64 r = Done (0, r) \<and>
    ReadBytes n r = Done ([], if n < 0 then r\<lparr>r_err := Some (newError ''ReadBytes'' (''invalid length '' @ show_int n) (int (r_offset r)))\<rparr> else r)"
  by (intro conjI; rule sticky_scalars [THEN stickyD, OF assms(1)] sticky_fixed [THEN stickyD, OF assms(1)] sticky_fields [THEN stickyD, OF assms(1)]
      sticky_ReadObject [OF assms(2), THEN stickyD, OF assms(1)] ReadBytes_after_error [OF assms(1)])

theorem reader_errors_sticky_witness:
  "\<exists>r. r = NewBinaryReader [2, 65]\<lparr>r_err := Some (newError ''x'' ''y'' 0)\<rparr> \<and> ReadString r = Done ([], r) \<and>
    ReadBytes (- 1) r = Done ([], r\<lparr>r_err := Some (newError ''ReadBytes'' (''invalid length '' @ show_int (- 1)) 0)\<rparr>)"
proof -
  let ?r = "NewBinaryReader [2, 65]\<lparr>r_err := Some (newError ''x'' ''y'' 0)\<rparr>"
  have e: "r_err ?r \<noteq> None" and o: "r_offset ?r = 0" by (simp_all add: NewBinaryReader_def)
  have b: "sticky 0 ReadFieldID" by (rule sticky_fields)
  note all = reader_errors_sticky [OF e b, where fid = 0 and z = "()" and g = "rret ()" and h = "rret ()" and d = "()" and x = 0 and esz = 1
      and f = "\<lambda>_. rret ()" and e = "()" and k = "rret ()" and n = "- 1"]
  have "ReadString ?r = Done ([], ?r)"
    "ReadBytes (- 1) ?r = Done ([], if (- 1 :: int) < 0 then ?r\<lparr>r_err := Some (newError ''ReadBytes'' (''invalid length '' @ show_int (- 1)) (int (r_offset ?r)))\<rparr> else ?r)"
    using all by blast+
  then show ?thesis using o by (intro exI [of _ ?r]) simp
qed

text \<open>
  C25: a well-formed logical type, however deeply nested its extra type info is, is read back from the bytes the encoder writes.
\<close>

theorem logical_type_roundtrip:
  assumes "wf_lt t" "length (lt_bytes t) + length rest \<le> maxInput"
  shows "DecodeLogicalType (Suc (length (lt_bytes t))) (NewBinaryReader (Bytes (EncodeLogicalType t (NewBinaryWriter n)) @ rest))
    = Done (t, advance (length (lt_bytes t)) (NewBinaryReader (lt_bytes t @ rest)))"
  using assms by (intro lt.roundtrip) simp_all

theorem logical_type_roundtrip_witness:
  "let t = List_T (Struct_T [ChildType ''a'' (Decimal 10 2), ChildType ''b'' (Enum_T [''x'', ''y''])]) in
   DecodeLogicalType (Suc (length (lt_bytes t))) (NewBinaryReader (Bytes (EncodeLogicalType t (NewBinaryWriter 64)) @ [9]))
    = Done (t, advance (length (lt_bytes t)) (NewBinaryReader (lt_bytes t @ [9])))"
proof -
  let ?t = "List_T (Struct_T [ChildType ''a'' (Decimal 10 2), ChildType ''b'' (Enum_T [''x'', ''y''])])"
  have "length (lt_bytes ?t) = 89" by code_simp
  moreover have "wf_lt ?t"
    by (simp add: List_T_def Struct_T_def Decimal_def Enum_T_def wf_lt.simps wf_ti.simps wf_ct.simps int_ok_def MaxInt_def)
  ultimately show ?thesis
    using logical_type_roundtrip [of ?t "[9]" 64] by (simp add: maxInput_def)
qed

text \<open>
  C26: when the ADBC options name no token variable and no token file, the result of ParseURI is the same in every environment and file system: a pasted URL cannot make the driver read a local secret.
\<close>

theorem url_reads_no_secret:
  assumes "\<forall>(k, v) \<in> set opts. k \<in> set secret_options \<longrightarrow> v = []"
  shows "ParseURI env rawURL opts = ParseURI (env\<lparr>Getenv := g, ReadFile := f\<rparr>) rawURL opts"
proof -
  have "resolve env host port db params' headers = resolve (env\<lparr>Getenv := g, ReadFile := f\<rparr>) host port db params' headers"
    if "refused_param params = None" "apply_opts opts (params, []) = Inr (params', headers)"
    for host port db params params' headers
    by (rule resolve_ignores_env [OF secrets_absent [OF that assms]]) simp_all
  then show ?thesis
    by (simp add: ParseURI_def Let_def split: sum.split option.split prod.split)
qed

theorem url_reads_no_secret_witness:
  "ParseURI sample_env ''quack://h?token=t'' [(''adbc.quack.tls'', ''true'')]
   = ParseURI (sample_env\<lparr>Getenv := \<lambda>_. ''secret'', ReadFile := \<lambda>_. Inr ''secret''\<rparr>) ''quack://h?token=t''
      [(''adbc.quack.tls'', ''true'')]"
  by (rule url_reads_no_secret) (simp add: secret_options_def)

text \<open>
  C27: an extra header of a parsed URI was given as an ADBC option (never in the URL), is not empty, has no CR or LF in its value and is none of the headers the protocol owns.
\<close>

theorem extra_headers_checked:
  assumes "ParseURI env rawURL opts = Inr q" "(name, v) \<in> set (ExtraHeaders q)"
  shows "(\<exists>k. (k, v) \<in> set opts \<and> HasPrefix k HTTPHeaderPrefix \<and> name = TrimSpace (drop (length HTTPHeaderPrefix) k)) \<and>
    v \<noteq> [] \<and> CHR 13 \<notin> set v \<and> CHR 10 \<notin> set v \<and> name \<noteq> [] \<and>
    ToLower name \<notin> {''content-type'', ''accept'', ''content-length'', ''host''}"
proof -
  obtain parsed port params headers where
      "url_Parse env (''http://'' @ drop (length URLScheme) (TrimPrefix rawURL ''jdbc:'')) = Inr parsed"
      "u_Hostname parsed \<noteq> []" "refused_param (query_params (u_Query parsed)) = None"
      and q: "apply_opts opts (query_params (u_Query parsed), []) = Inr (params, headers)"
      "resolve env (u_Hostname parsed) port (TrimPrefix (u_Path parsed) ''/'') params headers = Inr q"
    by (rule ParseURI_Inr [OF assms(1)])
  have "header_from opts name v"
    using apply_opts_headers [OF q(1) subset_refl] assms(2) resolve_Inr(4) [OF q(2)] by auto
  then show ?thesis
    by (auto simp: header_from_def validateHeader_def ContainsAny_def list_ex_iff split: if_splits)
qed


theorem extra_headers_checked_witness:
  "\<exists>q. ParseURI sample_env ''quack://h'' [(HTTPHeaderPrefix @ ''X-Auth'', ''a'')] = Inr q \<and>
     (''X-Auth'', ''a'') \<in> set (ExtraHeaders q) \<and> CHR 13 \<notin> set ''a''"
proof -
  have e: "map_sum (\<lambda>_. ()) ExtraHeaders (ParseURI sample_env ''quack://h'' [(HTTPHeaderPrefix @ ''X-Auth'', ''a'')])
      = Inr [(''X-Auth'', ''a'')]"
    by code_simp
  then obtain q where q: "ParseURI sample_env ''quack://h'' [(HTTPHeaderPrefix @ ''X-Auth'', ''a'')] = Inr q"
      "ExtraHeaders q = [(''X-Auth'', ''a'')]"
    by (cases "ParseURI sample_env ''quack://h'' [(HTTPHeaderPrefix @ ''X-Auth'', ''a'')]") auto
  then show ?thesis using extra_headers_checked [OF q(1), of "''X-Auth''" "''a''"] by auto
qed

text \<open>
  C28: the rows of the primary-key query, those without a table or a column left out, are grouped so that every table gains exactly one constraint per constraint name among its rows, with the column names of those rows in the order of the rows; only the order of a table's constraints depends on the map iteration.
\<close>

theorem primary_keys_grouped:
  assumes "drainPrepared send n (primary_keys_query catalog schema) (sess c) = Done (Inr result, s)"
    and "result_rows pk_row (Chunks result) = Done rows" "\<And>gs. mset (order gs) = mset gs"
  defines "good \<equiv> filter (\<lambda>(table, cname, col). table \<noteq> [] \<and> col \<noteq> []) rows"
  shows "\<exists>m. loadPrimaryKeys order send n catalog schema byTable c = Done (Inr m, c\<lparr>sess := s\<rparr>) \<and>
    (\<forall>table. mset (m table) = mset (byTable table) +
       mset (map (\<lambda>cname. primary_key (cname, rows_for good table cname)) (names_for good table)))"
proof -
  let ?m = "\<lambda>table. byTable table @ map primary_key (order (group_rows good table))"
  have "loadPrimaryKeys order send n catalog schema byTable c = Done (Inr ?m, c\<lparr>sess := s\<rparr>)"
    using assms(1,2) by (simp add: loadPrimaryKeys_def metadata_query_def cbind_def on_session_def good_def Let_def)
  moreover have "mset (?m table) = mset (byTable table) +
      mset (map (\<lambda>cname. primary_key (cname, rows_for good table cname)) (names_for good table))" for table
  proof -
    have "mset (map primary_key (order (group_rows good table))) = mset (map primary_key (group_rows good table))"
      using assms(3) by (metis mset_map)
    then show ?thesis by (simp add: group_rows_eq comp_def)
  qed
  ultimately show ?thesis by blast
qed

theorem primary_keys_grouped_witness:
  "\<exists>m c'. loadPrimaryKeys rev scripted 0 ''memory'' ''main'' (\<lambda>_. []) (sample_connection [prepared_reply [keys_chunk] False]) = Done (Inr m, c') \<and>
    mset (m ''t'') = {# primary_key (''pk'', [''a'', ''b'']) #}"
proof -
  have d: "drainPrepared scripted 0 q (sess (sample_connection [prepared_reply [keys_chunk] False])) =
      Done (Inr \<lparr>ColumnNames = [''id''], ColumnTypes = [Of LogicalTypeIDInteger], Chunks = [keys_chunk]\<rparr>, (sample_session [])\<lparr>queryIDSeq := 3\<rparr>)" for q
    by (simp add: drainPrepared_def drainAll_def sbind_def open_cursor_def exchange_accepted request_def nextQueryID_def scripted_def
        sample_connection_def sample_session_def prepared_reply_def accepted_def sret_def)
  have r: "result_rows pk_row [keys_chunk] = Done [(''t'', ''pk'', ''a''), (''t'', ''pk'', ''b'')]"
    by code_simp
  let ?good = "filter (\<lambda>(table, cname, col). table \<noteq> [] \<and> col \<noteq> []) [(''t'', ''pk'', ''a''), (''t'', ''pk'', ''b'')]"
  have "\<exists>m. loadPrimaryKeys rev scripted 0 ''memory'' ''main'' (\<lambda>_. []) (sample_connection [prepared_reply [keys_chunk] False])
        = Done (Inr m, (sample_connection [prepared_reply [keys_chunk] False])\<lparr>sess := (sample_session [])\<lparr>queryIDSeq := 3\<rparr>\<rparr>) \<and>
      (\<forall>table. mset (m table) = mset [] + mset (map (\<lambda>cname. primary_key (cname, rows_for ?good table cname)) (names_for ?good table)))"
    by (rule primary_keys_grouped [OF d]) (simp_all add: r)
  then obtain m c' where m: "loadPrimaryKeys rev scripted 0 ''memory'' ''main'' (\<lambda>_. []) (sample_connection [prepared_reply [keys_chunk] False]) = Done (Inr m, c')"
      "mset (m ''t'') = mset [] + mset (map (\<lambda>cname. primary_key (cname, rows_for ?good ''t'' cname)) (names_for ?good ''t''))"
    by blast
  then show ?thesis by (auto simp: names_for_def rows_for_def)
qed

text \<open>
  C29: a record that RecordFromChunk returns is well formed: its fields are the schema of the names and the chunk's logical types, it has one column per field, and all columns have the same number of rows.
\<close>

theorem record_shape:
  assumes "RecordFromChunk alib lib names chunk = Done (Inr rec)"
  shows "SchemaFromColumns alib names (Types chunk) = Done (rec_Fields rec) \<and> length (rec_Columns rec) = length (rec_Fields rec) \<and>
    (\<exists>n. \<forall>c \<in> set (rec_Columns rec). length c = n)"
  using RecordFromChunk_shape [OF assms] by blast

theorem record_shape_witness:
  "\<exists>rec. RecordFromChunk sample_alib sample_lib [''id''] (ints_chunk [7, 8]) = Done (Inr rec) \<and> length (rec_Columns rec) = length (rec_Fields rec)"
proof -
  have "RecordFromChunk sample_alib sample_lib [''id''] (ints_chunk [7, 8])
      = Done (Inr \<lparr>rec_Fields = [Field ''id'' AT_Int32 True], rec_Columns = [[CInt32 7, CInt32 8]]\<rparr>)"
    by code_simp
  then show ?thesis using record_shape by blast
qed

text \<open>
  C30: an adbc error without a percent sign in its message is reported with its status code and its message, prefixed once unless details are attached; the details a caller reads are those of the error, and there are none otherwise.
\<close>

theorem error_text_reported:
  assumes "pct \<notin> set (ae_Msg ae)" "details_match e" "errToAdbcErr (Some e) (Some (AsAdbcError ae)) = (code, Some e')"
  shows "code = ae_Code ae \<and> details_match e' \<and>
    (if ce_vendor_code e = ADBC_ERROR_VENDOR_CODE_PRIVATE_DATA \<and>
        (ae_Details ae \<noteq> [] \<or> ae_VendorCode ae = 0 \<or> ae_VendorCode ae = ADBC_ERROR_VENDOR_CODE_PRIVATE_DATA)
     then ce_message e' = Some (C_CString (ae_Msg ae)) \<and> QuackErrorGetDetailCount (Some e') = length (ae_Details ae) \<and>
       (\<forall>i < length (ae_Details ae). QuackErrorGetDetail (Some e') (int i) = Some (detail_entry (ae_Details ae ! i)))
     else ce_message e' = Some (C_CString (prefixed (ae_Msg ae))) \<and> QuackErrorGetDetailCount (Some e') = 0)"
proof -
  have dm: "details_match e'" by (rule details_match_report [OF assms(2,3)])
  have msg_text: "setErr (Some x) (ae_Msg ae) [] = Some y \<Longrightarrow> ce_message y = Some (C_CString (prefixed (ae_Msg ae))) \<and> ce_release y = Quack_release_error" for x y
    using setErr_text [OF assms(1), of x] setErr_release by fastforce
  show ?thesis
  proof (cases "ce_vendor_code e = ADBC_ERROR_VENDOR_CODE_PRIVATE_DATA \<and>
      (ae_Details ae \<noteq> [] \<or> ae_VendorCode ae = 0 \<or> ae_VendorCode ae = ADBC_ERROR_VENDOR_CODE_PRIVATE_DATA)")
    case True
    then show ?thesis using assms(3) dm
      by (auto simp: errToAdbcErr_def setErrWithDetails_def Let_def QuackErrorGetDetailCount_def QuackErrorGetDetail_def)
  next
    case False
    then obtain x where x: "setErr (Some x) (ae_Msg ae) [] = Some e'" "code = ae_Code ae"
      using assms(3) by (auto simp: errToAdbcErr_def setErrWithDetails_def Let_def split: if_splits)
    then show ?thesis using msg_text [OF x(1)] dm False by (auto simp: QuackErrorGetDetailCount_def)
  qed
qed

theorem error_text_reported_witness:
  "map_option ce_message (snd (errToAdbcErr (Some fresh_error) (Some sample_error))) = Some (Some ''[Quack] unknown option'')"
proof -
  let ?ae = "\<lparr>ae_Msg = ''unknown option'', ae_Code = 2, ae_VendorCode = 0, ae_SqlState = ''00000'', ae_Details = []\<rparr>"
  obtain code e' where r: "errToAdbcErr (Some fresh_error) (Some (AsAdbcError ?ae)) = (code, Some e')"
    using errToAdbcErr_Some [of fresh_error "Some (AsAdbcError ?ae)"] by blast
  have "pct \<notin> set (ae_Msg ?ae)" "details_match fresh_error" "ce_vendor_code fresh_error \<noteq> ADBC_ERROR_VENDOR_CODE_PRIVATE_DATA"
    by (simp_all add: details_match_def fresh_error_def ADBC_ERROR_VENDOR_CODE_PRIVATE_DATA_def)
  from error_text_reported [OF this(1,2) r] this(3) have "ce_message e' = Some (C_CString (prefixed ''unknown option''))" by simp
  then show ?thesis using r by (simp add: sample_error_def prefixed_def errPrefix_def C_CString_def)
qed

text \<open>
  C31: asking for a text option with a buffer that is too small reports the length needed and writes nothing; asking again with a buffer of that length yields the text, as a C string.
\<close>

theorem text_option_fetched:
  assumes "int (length val) + 1 < 2 ^ 63" "o_length (c_out s) = Some n" "n \<le> int (length val)"
    and "exportStringOption val s = (r1, s1)" "o_length (c_out s1) = Some m" "length mem = nat m"
    and "exportStringOption val (s1\<lparr>c_out := (c_out s1)\<lparr>o_value := Some mem\<rparr>\<rparr>) = (r2, s2)"
  shows "r1 = Inr ADBC_STATUS_OK \<and> o_value (c_out s1) = o_value (c_out s) \<and> m = int (length val) + 1 \<and>
    r2 = Inr ADBC_STATUS_OK \<and> o_value (c_out s2) = Some (val @ [CHR 0x00]) \<and> GoString (o_value (c_out s2)) = C_CString val"
proof -
  have s1: "r1 = Inr ADBC_STATUS_OK" "s1 = s\<lparr>c_out := (c_out s)\<lparr>o_length := Some (int (length val) + 1)\<rparr>\<rparr>"
    using assms(4) export_too_small [OF assms(2,3)] by simp_all
  then have m: "m = int (length val) + 1" using assms(5) by simp
  let ?s = "s1\<lparr>c_out := (c_out s1)\<lparr>o_value := Some mem\<rparr>\<rparr>"
  have "exportStringOption val ?s = (Inr ADBC_STATUS_OK, ?s\<lparr>c_out := (c_out ?s)\<lparr>
      o_value := Some (val @ CHR 0x00 # drop (length val + 1) mem), o_length := Some (int (length val) + 1)\<rparr>\<rparr>)"
    by (rule export_fits [where n = m]) (use assms(1,5,6) m in simp_all)
  then show ?thesis using s1 m assms(6,7) C_CString_terminated [of val "[]"] by (auto simp: GoString_def)
qed

theorem text_option_fetched_witness:
  "\<exists>s2. exportStringOption ''main'' ((capi_start ())\<lparr>c_out := (c_out (capi_start ()))\<lparr>o_length := Some 5, o_value := Some ''.....''\<rparr>\<rparr>) =
     (Inr ADBC_STATUS_OK, s2) \<and> o_value (c_out s2) = Some (''main'' @ [CHR 0x00])"
proof -
  let ?s = "(capi_start ())\<lparr>c_out := (c_out (capi_start ()))\<lparr>o_length := Some 0\<rparr>\<rparr>"
  have 1: "exportStringOption ''main'' ?s = (Inr ADBC_STATUS_OK, ?s\<lparr>c_out := (c_out ?s)\<lparr>o_length := Some 5\<rparr>\<rparr>)"
    using export_too_small [of ?s 0 "''main''"] by simp
  let ?s1 = "?s\<lparr>c_out := (c_out ?s)\<lparr>o_length := Some 5\<rparr>\<rparr>"
  obtain r2 s2 where 2: "exportStringOption ''main'' (?s1\<lparr>c_out := (c_out ?s1)\<lparr>o_value := Some ''.....''\<rparr>\<rparr>) = (r2, s2)" by (metis surj_pair)
  have "r2 = Inr ADBC_STATUS_OK \<and> o_value (c_out s2) = Some (''main'' @ [CHR 0x00])"
    using text_option_fetched [OF _ _ _ 1 _ _ 2, of 0 5] by simp
  then show ?thesis using 2 by simp
qed

text \<open>
  C32: the text that sqlString and quoteIdent make of a name is read as quoted tokens and nothing else, whatever characters the name has and whatever text follows it, so names in DDL and metadata queries cannot end their quotes.
\<close>

theorem quoted_text_stays_quoted:
  "\<exists>ts us. list_all (\<lambda>t. \<exists>u. t = TQuoted u) (ts @ us) \<and> (\<forall>rest. tokens (sqlString s @ rest) = ts @ tokens rest) \<and>
    (\<forall>rest. tokens (quoteIdent s @ rest) = us @ tokens rest)"
proof -
  have "\<exists>ts. list_all (\<lambda>t. \<exists>u. t = TQuoted u) ts \<and> (\<forall>rest. tokens (sqlString s @ rest) = ts @ tokens rest)"
    using quoted_tokens [of quote s] by (simp add: sqlString_ReplaceAll)
  moreover have "\<exists>us. list_all (\<lambda>t. \<exists>u. t = TQuoted u) us \<and> (\<forall>rest. tokens (quoteIdent s @ rest) = us @ tokens rest)"
    using quoted_tokens [of dquote s] by (simp add: quoteIdent_def)
  ultimately show ?thesis by (metis list_all_append)
qed

text \<open>
  C33: an unsigned and a signed LEB128 value are written as their reference base-128 encodings and read back whatever follows them.
\<close>

theorem leb128_roundtrip:
  assumes "length (uleb128 (unat v)) + length rest \<le> maxInput" "length (sleb128 (sint s)) + length rest \<le> maxInput"
  shows "Bytes (WriteULEB128 v (NewBinaryWriter n)) = uleb128 (unat v) \<and>
    ReadULEB128 (NewBinaryReader (Bytes (WriteULEB128 v (NewBinaryWriter n)) @ rest))
      = Done (v, advance (length (uleb128 (unat v))) (NewBinaryReader (uleb128 (unat v) @ rest))) \<and>
    Bytes (WriteSLEB128 s (NewBinaryWriter n)) = sleb128 (sint s) \<and>
    ReadSLEB128 (NewBinaryReader (Bytes (WriteSLEB128 s (NewBinaryWriter n)) @ rest))
      = Done (s, advance (length (sleb128 (sint s))) (NewBinaryReader (sleb128 (sint s) @ rest)))"
  using assms uleb.bytes_written [of v n] uleb.roundtrip [of v rest n] sleb.bytes_written [of s n] sleb.roundtrip [of s rest n]
  by (simp_all add: uleb_word_def)

theorem leb128_roundtrip_witness:
  "ReadULEB128 (NewBinaryReader (Bytes (WriteULEB128 300 (NewBinaryWriter 8)) @ [1]))
     = Done (300, advance (length (uleb128 (unat (300 :: 64 word)))) (NewBinaryReader (uleb128 (unat (300 :: 64 word)) @ [1])))"
proof -
  have "length (uleb128 (unat (300 :: 64 word))) = 2" "length (sleb128 (sint (- 5 :: 64 word))) = 1" by code_simp+
  then show ?thesis
    by (intro conjunct1 [OF conjunct2 [OF leb128_roundtrip [of 300 "[1]" "- 5" 8]]]) (simp_all add: maxInput_def)
qed

text \<open>
  C34: when a fetch returns an empty batch, nextChunk reports the end of the result even if the server announced more batches, and the streaming reader is done, without an error.
\<close>

theorem empty_batch_ends_stream:
  assumes "fetchMore send c s = Done (Inr c', s')" "buffered c' = []"
    and "buffered c = []" "needsMore c" "\<not> c_closed c"
    and "rr_cursor rr = c" "rr_err rr = None" "\<not> rr_done rr" "0 < n"
  shows "nextChunk send c s = Done (Inr (None, c'), s') \<and>
    (\<exists>rr'. Next alib lib send n rr s = Done ((False, rr'), s') \<and> rr_done rr' \<and> rr_err rr' = None \<and> rr_cursor rr' = c')"
proof -
  have "nextChunk send c s = Done (Inr (None, c'), s')"
    using nextChunk_fetches [OF assms(5,3,4,1)] assms(2) by simp
  then show ?thesis using assms by (cases n) (simp_all add: Next_def)
qed

theorem empty_batch_ends_stream_witness:
  "nextChunk scripted sample_cursor (sample_session [fetched [] True, fetched [ints_chunk [7]] False]) =
     Done (Inr (None, sample_cursor), (sample_session [fetched [ints_chunk [7]] False])\<lparr>queryIDSeq := 3\<rparr>) \<and>
   drainAll scripted 2 sample_cursor (sample_session [fetched [] True, fetched [ints_chunk [7]] False]) =
     Done (Inr ([ints_chunk [7]], sample_cursor\<lparr>needsMore := False\<rparr>), (sample_session [])\<lparr>queryIDSeq := 4\<rparr>)"
proof -
  let ?s = "sample_session [fetched [] True, fetched [ints_chunk [7]] False]"
  let ?rr = "\<lparr>rr_cursor = sample_cursor, rr_schema = [], rr_colNames = [''id''], rr_current = None, rr_err = None, rr_refs = 1, rr_done = False\<rparr>"
  have f: "fetchMore scripted sample_cursor ?s = Done (Inr sample_cursor, (sample_session [fetched [ints_chunk [7]] False])\<lparr>queryIDSeq := 3\<rparr>)"
    by (simp add: fetchMore_def exchange_accepted request_def nextQueryID_def scripted_def fetched_def sample_session_def
        sample_cursor_def accepted_def)
  have "nextChunk scripted sample_cursor ?s = Done (Inr (None, sample_cursor), (sample_session [fetched [ints_chunk [7]] False])\<lparr>queryIDSeq := 3\<rparr>)"
    by (rule conjunct1 [OF empty_batch_ends_stream [OF f, of ?rr 1]]) (simp_all add: sample_cursor_def)
  moreover have "drainAll scripted 2 sample_cursor ?s =
     Done (Inr ([ints_chunk [7]], sample_cursor\<lparr>needsMore := False\<rparr>), (sample_session [])\<lparr>queryIDSeq := 4\<rparr>)"
    by (simp add: drainAll_def numeral_2_eq_2 sbind_def fetchMore_def exchange_accepted request_def nextQueryID_def scripted_def
        fetched_def sample_session_def sample_cursor_def accepted_def sret_def)
  ultimately show ?thesis by blast
qed



text \<open>
  C36: ingesting a Decimal128 value puts its unscaled integer i into the chunk, and the encoder takes that integer for the value: what it writes for the column is i times ten to the scale, not i.
\<close>

theorem decimal_ingest_scaled_twice:
  assumes "0 \<le> scale"
  shows "logicalTypeForArrow alib (AT_Decimal128 width scale) = Inr (Decimal width scale) \<and>
    decodedVectorForArrow alib (Decimal width scale) (Decimal128Arr width scale [Some i]) 1
      = Done (Inr (ObjectVec (Decimal width scale) [VBigInt i])) \<and>
    decimalUnscaled lib (Decimal width scale) (VBigInt i) = Done (i * 10 ^ nat scale)"
  by (simp add: logicalTypeForArrow_def decodedVectorForArrow_def buildValidity_def arr_NullN_def arr_values_def index_at_def
      decimalUnscaled_def Decimal_def)

theorem decimal_ingest_scaled_twice_witness:
  "decimalUnscaled sample_lib (Decimal 10 2) (VBigInt 12345) = Done 1234500"
  using decimal_ingest_scaled_twice [of 2 sample_alib 10 12345 sample_lib] by simp

text \<open>
  C37: if the first option that was set before Init is refused by the Go connection, Init returns that error, yet the connection is initialized: a second Init returns INVALID_STATE without a Go call, and the other options are never set.
\<close>

theorem failed_init_option_sticks:
  assumes "\<not> globalPoison s" "cnxn_data s c = h" "h \<noteq> 0" "h \<in> live_handles s" "objs s h = Some (HConn d)" "conn_cnxn d = None" "conn_initArgs d \<noteq> []"
    and "checkDBInit db ''AdbcConnectionInit'' s = (Inr (Some (g, y)), s)" "call_make env (Go_Open y) (go_side s) = (Inr (Inr x), w1)"
    and "supports env PostInitOptions (TConnection x)" "range_map env (conn_initArgs d) = (k, v) # kvs"
    and "call_err env (Go_SetOption (TConnection x) k (OptString v)) w1 = (Inr (Some e), w2)" "status_of (Some e) \<noteq> ADBC_STATUS_OK"
    and "QuackConnectionInit env (Some c) db s = (code, s')"
  shows "code = status_of (Some e) \<and> go_side s' = w2 \<and> objs s' h = Some (HConn (d\<lparr>conn_cnxn := Some x\<rparr>)) \<and>
    (\<exists>s''. QuackConnectionInit env (Some c) db s' = (ADBC_STATUS_INVALID_STATE, s'') \<and> go_side s'' = w2 \<and> objs s'' = objs s')"
  using connection_init_run [OF assms] by blast

theorem failed_init_option_sticks_witness:
  "fst (QuackConnectionInit strict_go (Some 1) (Some 1) sample_capi) = 2 \<and>
   fst (QuackConnectionInit strict_go (Some 1) (Some 1) (snd (QuackConnectionInit strict_go (Some 1) (Some 1) sample_capi))) = ADBC_STATUS_INVALID_STATE"
proof -
  obtain code s' where r: "QuackConnectionInit strict_go (Some 1) (Some 1) sample_capi = (code, s')" by (metis surj_pair)
  let ?d = "\<lparr>conn_ctx = None, conn_cnxn = None, conn_initArgs = [(''autocommit'', ''maybe'')]\<rparr>"
  have s: "\<not> globalPoison sample_capi" "cnxn_data sample_capi 1 = 2" "(2::nat) \<noteq> 0" "2 \<in> live_handles sample_capi"
      "objs sample_capi 2 = Some (HConn ?d)" "conn_cnxn ?d = None" "conn_initArgs ?d \<noteq> []"
    by (simp_all add: sample_capi_def capi_start_def)
  have db: "checkDBInit (Some 1) ''AdbcConnectionInit'' sample_capi = (Inr (Some (1, 5)), sample_capi)"
    by (simp add: checkDBInit_def checkDBAlloc_def check_alloc_def c_bind_def get_database_def handle_value_def c_ret_def sample_capi_def capi_start_def)
  have go: "call_make strict_go (Go_Open 5) (go_side sample_capi) = (Inr (Inr 1), [])" "supports strict_go PostInitOptions (TConnection 1)"
      "range_map strict_go (conn_initArgs ?d) = [(''autocommit'', ''maybe'')]"
      "call_err strict_go (Go_SetOption (TConnection 1) ''autocommit'' (OptString ''maybe'')) [] = (Inr (Some sample_error), [])"
      "status_of (Some sample_error) \<noteq> ADBC_STATUS_OK"
    by (simp_all add: strict_go_def sample_go_def sample_capi_def capi_start_def status_of_def sample_error_def)
  show ?thesis using failed_init_option_sticks [OF s db go r] r by (auto simp: status_of_def sample_error_def)
qed

text \<open>
  C38: the text of an error is passed to Sprintf as the format, so a percent sign in front of a letter reaches the caller as "%!c(MISSING)" instead of itself.
\<close>

theorem percent_in_error_text:
  assumes "pct \<notin> set pre" "CHR ''A'' \<le> c" "c \<le> CHR ''Z'' \<or> CHR ''a'' \<le> c \<and> c \<le> CHR ''z''" "\<not> HasPrefix (pre @ pct # c # post) errPrefix"
  shows "map_option ce_message (snd (errToAdbcErr (Some e) (Some (PlainError (pre @ pct # c # post))))) =
    Some (Some (C_CString (errPrefix @ pre @ ''%!'' @ [c] @ ''(MISSING)'' @ Sprintf0 post)))"
  using assms(4) Sprintf0_letter [OF assms(1-3), of post] by (simp add: errToAdbcErr_def setErr_def Let_def)

theorem percent_in_error_text_witness:
  "map_option ce_message (snd (errToAdbcErr (Some fresh_error) (Some (PlainError ''no match for %foo'')))) =
    Some (Some ''[Quack] no match for %!f(MISSING)oo'')"
proof -
  have p: "''no match for %foo'' = ''no match for '' @ pct # CHR ''f'' # ''oo''" by simp
  have a: "pct \<notin> set ''no match for ''" "CHR ''A'' \<le> CHR ''f''" "CHR ''f'' \<le> CHR ''Z'' \<or> CHR ''a'' \<le> CHR ''f'' \<and> CHR ''f'' \<le> CHR ''z''"
      "\<not> HasPrefix (''no match for '' @ pct # CHR ''f'' # ''oo'') errPrefix"
    by (simp_all add: less_eq_char_def errPrefix_def)
  show ?thesis unfolding p percent_in_error_text [OF a] by (simp add: Sprintf0_plain errPrefix_def C_CString_def)
qed

text \<open>
  C39: when the offset plus the requested length exceeds the largest int, the sum wraps, the bounds check passes, and the read panics instead of recording an error.
\<close>

theorem length_prefix_overflow_panics:
  assumes "r_err r = None" "MaxInt - int (r_offset r) < n" "n \<le> MaxInt" "r_offset r \<le> maxInput"
  shows "ReadBytes n r = Panic"
proof -
  have "wrap64 (int (r_offset r) + n) = int (r_offset r) + n - 2 ^ 64"
    using assms by (intro wrap64_overflow) (simp_all add: MaxInt_def maxInput_def)
  moreover have "\<not> make_ok 1 n" using assms(2,4) by (simp add: make_ok_def maxAlloc_def MaxInt_def maxInput_def)
  ultimately show ?thesis using assms by (simp add: ReadBytes_def rbind_def ensure_def rmake_def rpanic_def MaxInt_def maxInput_def)
qed

theorem length_prefix_overflow_panics_witness:
  "ReadBytes MaxInt (NewBinaryReader [1, 2, 3]\<lparr>r_offset := 1\<rparr>) = Panic"
  by (rule length_prefix_overflow_panics) (simp_all add: NewBinaryReader_def MaxInt_def maxInput_def)

text \<open>
  C40: every unscaled value of at most width digits fits into the physical integer type that GetPhysicalType gives to a DECIMAL of that width.
\<close>

theorem decimal_fits:
  assumes "1 \<le> width" "width \<le> 38" "\<bar>v :: int\<bar> < 10 ^ nat width"
  shows "\<exists>w. ByteWidth (GetPhysicalType (Decimal width scale)) = Done w \<and> - (2 ^ nat (8 * w - 1)) \<le> v \<and> v < 2 ^ nat (8 * w - 1)"
proof -
  have upto: "\<bar>v\<bar> < 10 ^ k" if "nat width \<le> k" for k
    using order.strict_trans2 [OF assms(3), of "10 ^ k"] that by (simp add: power_increasing)
  consider "width \<le> 4" | "4 < width" "width \<le> 9" | "9 < width" "width \<le> 18" | "18 < width" by linarith
  then show ?thesis
  proof cases
    case 1
    then have "\<bar>v\<bar> < 10 ^ 4" using assms(2) by (intro upto) simp
    with 1 show ?thesis using assms(2)
      by (simp add: GetPhysicalType_def Decimal_def getDecimalPhysicalType_def ByteWidth_def abs_less_iff)
  next
    case 2
    then have "\<bar>v\<bar> < 10 ^ 9" using assms(2) by (intro upto) simp
    with 2 show ?thesis using assms(2)
      by (simp add: GetPhysicalType_def Decimal_def getDecimalPhysicalType_def ByteWidth_def abs_less_iff)
  next
    case 3
    then have "\<bar>v\<bar> < 10 ^ 18" using assms(2) by (intro upto) simp
    with 3 show ?thesis using assms(2)
      by (simp add: GetPhysicalType_def Decimal_def getDecimalPhysicalType_def ByteWidth_def abs_less_iff)
  next
    case 4
    then have "\<bar>v\<bar> < 10 ^ 38" using assms(2) by (intro upto) simp
    with 4 show ?thesis using assms(2)
      by (simp add: GetPhysicalType_def Decimal_def getDecimalPhysicalType_def ByteWidth_def abs_less_iff)
  qed
qed

theorem decimal_fits_witness:
  "\<exists>w. ByteWidth (GetPhysicalType (Decimal 18 2)) = Done w \<and> - (2 ^ nat (8 * w - 1)) \<le> (- 999999999999999999 :: int)
     \<and> (- 999999999999999999 :: int) < 2 ^ nat (8 * w - 1)"
  by (rule decimal_fits) simp_all

section \<open>Further facts\<close>

text \<open>When the server delivers k batches and then stops announcing more, a drain returns with every bound of at least k fetches, and always the same chunks.\<close>

theorem drain_fuel_irrelevant:
  assumes "batches send (c\<lparr>buffered := []\<rparr>) s bs c' s'" "length bs \<le> n" "length bs \<le> m"
  shows "drainAll send n c s = drainAll send m c s \<and> drainAll send n c s \<noteq> OutOfFuel"
  using drainAll_batches [OF assms(1,2)] drainAll_batches [OF assms(1,3)] by simp

theorem drain_fuel_irrelevant_witness:
  "drainAll scripted 1 sample_cursor (sample_session [fetched [ints_chunk [7]] False]) =
     drainAll scripted 5 sample_cursor (sample_session [fetched [ints_chunk [7]] False]) \<and>
   drainAll scripted 1 sample_cursor (sample_session [fetched [ints_chunk [7]] False]) \<noteq> OutOfFuel"
proof -
  have f: "fetchMore scripted sample_cursor (sample_session [fetched [ints_chunk [7]] False]) =
      Done (Inr (sample_cursor\<lparr>buffered := [ints_chunk [7]], needsMore := False\<rparr>), (sample_session [])\<lparr>queryIDSeq := 3\<rparr>)"
    by (simp add: fetchMore_def exchange_accepted request_def nextQueryID_def scripted_def fetched_def sample_session_def
        sample_cursor_def accepted_def)
  have "batches scripted (sample_cursor\<lparr>buffered := []\<rparr>) (sample_session [fetched [ints_chunk [7]] False]) [[ints_chunk [7]]]
      (sample_cursor\<lparr>needsMore := False\<rparr>) ((sample_session [])\<lparr>queryIDSeq := 3\<rparr>)"
    using batches.batch [of sample_cursor scripted, OF _ f batches.exhausted] by (simp add: sample_cursor_def)
  then show ?thesis by (rule drain_fuel_irrelevant) simp_all
qed

text \<open>Clearing (setting) a row makes exactly that row null (valid): every other row, and the length of the bitmap, stay as they were.\<close>

theorem validity_bitmap:
  assumes "row < 64 * length ws" "r < 64 * length ws"
  shows "(\<exists>ws'. ValiditySetNull ws (int row) = Done ws' \<and> length ws' = length ws \<and>
      ValidityIsNull (Some ws') (int r) = (if r = row then Done True else ValidityIsNull (Some ws) (int r))) \<and>
    (\<exists>ws'. ValiditySetValid ws (int row) = Done ws' \<and> length ws' = length ws \<and>
      ValidityIsNull (Some ws') (int r) = (if r = row then Done False else ValidityIsNull (Some ws) (int r)))"
  using bitmap.clear_ok [OF assms(1)] bitmap.put_ok [OF assms(1)] assms(2)
  by (fastforce simp: ValidityIsNull_def)

theorem validity_bitmap_witness:
  "\<exists>ws'. ValiditySetNull [5, 1] (int 64) = Done ws' \<and> length ws' = length [5, 1 :: 64 word] \<and>
     ValidityIsNull (Some ws') (int 2) = (if (2 :: nat) = 64 then Done True else ValidityIsNull (Some [5, 1]) (int 2))"
  by (rule conjunct1 [OF validity_bitmap]) simp_all

text \<open>A bitmap with the words its row count needs is written as its little-endian bytes and read back unchanged.\<close>

theorem validity_bytes_roundtrip:
  assumes "small_count cnt" "length ws = (cnt + 63) div 64"
  shows "\<exists>bs. ValidityToBytes (Some ws) (int cnt) = Done bs \<and> length bs = 8 * length ws \<and>
    ValidityFromBytes bs (int cnt) = Done (Some ws)"
  using ToBytes_words [OF assms] FromBytes_words_to_bytes [OF assms] by auto

theorem validity_bytes_roundtrip_witness:
  "\<exists>bs. ValidityToBytes (Some [5, 1]) (int 70) = Done bs \<and> length bs = 8 * length [5, 1 :: 64 word] \<and>
     ValidityFromBytes bs (int 70) = Done (Some [5, 1])"
  by (rule validity_bytes_roundtrip) (simp_all add: small_count_def)

text \<open>The nil bitmap, which the driver uses for a column without nulls, has the same wire form as the bitmap of ValidityAllValid, and both mark every row valid.\<close>

theorem nil_validity:
  assumes "small_count cnt"
  shows "\<exists>ws. ValidityAllValid (int cnt) = Done ws \<and> ValidityToBytes None (int cnt) = ValidityToBytes (Some ws) (int cnt) \<and>
    (\<forall>r < cnt. ValidityIsNull (Some ws) (int r) = ValidityIsNull None (int r))"
proof -
  have "ValidityIsNull (Some (all_valid_words cnt)) (int r) = Done False" if "r < cnt" for r
    using AllValid_bits [of r cnt] words_hold(2) [OF that] that by (simp add: ValidityIsNull_bit)
  then show ?thesis
    using AllValid_words [OF assms] ToBytes_None [OF assms] by auto
qed

theorem nil_validity_witness:
  "\<exists>ws. ValidityAllValid (int 65) = Done ws \<and> ValidityToBytes None (int 65) = ValidityToBytes (Some ws) (int 65) \<and>
      (\<forall>r < 65. ValidityIsNull (Some ws) (int r) = ValidityIsNull None (int r))"
  by (rule nil_validity) (simp add: small_count_def)

text \<open>Every pair of halves is recovered from the canonical UUID text that the decoder renders it as.\<close>

theorem uuid_text_roundtrip: "uuidToHugeIntParts (VString (uuidFromHugeIntParts u l)) = \<lparr>Upper = u, Lower = l\<rparr>"
  by (rule uuid_roundtrip)

text \<open>The rational that decoding makes of an unscaled decimal is encoded back to the same unscaled integer, whatever the scale of the column is.\<close>

theorem decimal_value_roundtrip:
  "decimalUnscaled lib (Decimal width scale) (VRat (decimalFromUnscaled (Decimal width scale) v)) = Done v"
  by (rule decimal_roundtrip) (simp add: has_scale_def Decimal_def)

text \<open>The day count of a DATE is recovered from the time it is decoded to, for all days within 106751 of the epoch (the range of a 64-bit nanosecond difference).\<close>

theorem date_range:
  assumes "\<bar>n\<bar> \<le> 106751"
  shows "dateToEpochDays (VTime (epoch_AddDays n)) = n"
  by (rule dateToEpochDays_days [OF assms])

theorem date_range_witness: "dateToEpochDays (VTime (epoch_AddDays 19876)) = 19876"
  by (rule date_range) simp

text \<open>A URI that ParseURI returns has a host name, and both of its timeouts are positive.\<close>

theorem timeouts_positive:
  assumes "ParseURI env rawURL opts = Inr q"
  shows "Host q \<noteq> [] \<and> 0 < ConnectTimeout q \<and> 0 < RequestTimeout q"
  by (rule ParseURI_Inr [OF assms], use resolve_Inr in simp)

theorem timeouts_positive_witness:
  "\<exists>q. ParseURI sample_env ''jdbc:quack://h'' [(''connectTimeout'', ''5'')] = Inr q \<and> 0 < ConnectTimeout q"
proof -
  have "map_sum (\<lambda>_. ()) ConnectTimeout (ParseURI sample_env ''jdbc:quack://h'' [(''connectTimeout'', ''5'')]) = Inr 5000000000"
    by code_simp
  then obtain q where "ParseURI sample_env ''jdbc:quack://h'' [(''connectTimeout'', ''5'')] = Inr q"
    by (cases "ParseURI sample_env ''jdbc:quack://h'' [(''connectTimeout'', ''5'')]") auto
  then show ?thesis using timeouts_positive by blast
qed

text \<open>Splitting an integer into halves and reading them back gives the integer reduced to 128 bits, signed or unsigned, and splitting the reading of halves gives the halves.\<close>

theorem hugeint_parts:
  "SignedBigInt (HugeIntFromSigned v) = signed_take_bit 127 v \<and>
   UnsignedBigInt (HugeIntFromSigned v) = v mod 2 ^ 128 \<and>
   HugeIntFromSigned (SignedBigInt p) = p \<and> - (2 ^ 127) \<le> SignedBigInt p \<and> SignedBigInt p < 2 ^ 127"
  using SignedBigInt_FromSigned UnsignedBigInt_FromSigned FromSigned_SignedBigInt SignedBigInt_range
  by (simp add: take_bit_eq_mod)

text \<open>The literal of a decimal with a positive scale is an optional minus sign, at least one digit, a point and exactly scale digits, and the digits without the point are the absolute value of the unscaled integer.\<close>

theorem decimal_literal_value:
  assumes "0 < scale"
  shows "\<exists>a b. decimalLiteral n scale = (if n < 0 then ''-'' else []) @ a @ ''.'' @ b \<and> a \<noteq> [] \<and> int (length b) = scale \<and>
    parse_digits (a @ b) 0 = Some \<bar>n\<bar>"
proof -
  obtain a b where ab: "decimalLiteral n scale = (if n < 0 then ''-'' else []) @ a @ ''.'' @ b" "int (length b) = scale" "a \<noteq> []"
      "a @ b = replicate (nat (scale + 1 - int (length (show_nat (nat \<bar>n\<bar>))))) CHR ''0'' @ show_nat (nat \<bar>n\<bar>)"
    using decimalLiteral_shape [OF assms, of n] by blast
  have "parse_digits (a @ b) 0 = Some \<bar>n\<bar>" using ab(4) by (simp add: parse_zeros parse_digits_show)
  then show ?thesis using ab by blast
qed

theorem decimal_literal_value_witness:
  "\<exists>a b. decimalLiteral (- 5) 3 = ''-'' @ a @ ''.'' @ b \<and> a \<noteq> [] \<and> int (length b) = 3 \<and> parse_digits (a @ b) 0 = Some 5"
  using decimal_literal_value [of 3 "- 5"] by simp

text \<open>A DATE one day beyond that range is encoded as the last day of the range: the 64-bit difference of the two times saturates.\<close>

theorem date_out_of_range: "dateToEpochDays (VTime (epoch_AddDays 106752)) = 106751"
  by (rule dateToEpochDays_saturates)

text \<open>The timeout option 18446744074 (seconds) is accepted as 290448384 nanoseconds, because the multiplication by a second wraps around 64 bits and the result is positive.\<close>

theorem timeout_wraps: "parseTimeout env [(''connectTimeout'', ''18446744074'')] ''connectTimeout'' akey d = Inr 290448384"
proof -
  have "TrimSpace ''18446744074'' = ''18446744074''" "ParseInt10 ''18446744074'' = Some 18446744074"
    by code_simp+
  then show ?thesis by (simp add: parseTimeout_def lookup_def Uri.second_def wrap64_def)
qed

text \<open>A header with an unknown message type and nothing behind it decodes to the nil message without an error (the caller sees nil, nil).\<close>

theorem unknown_message_type:
  assumes "0 \<le> ty" "ty \<le> MaxInt" "ty \<notin> {1, 2, 3, 4, 7, 8, 9, 10, 11, 100}"
    and "length (header_bytes h ty) \<le> maxInput"
  shows "DecodeMessage (header_bytes h ty) = Done (Inr None)"
proof -
  define r where "r = NewBinaryReader (header_bytes h ty)"
  have r: "healthy r" "rem_bytes r = header_bytes h ty @ []"
    using assms(4) by (simp_all add: r_def healthy_def NewBinaryReader_def rem_bytes_def)
  have "decodeHeader r = Done (h\<lparr>h_Type := ty\<rparr>, advance (length (header_bytes h ty)) r)"
    by (rule readsD [OF reads_header [OF assms(1,2)] r])
  moreover have "decodeBody n (h\<lparr>h_Type := ty\<rparr>) r' = Done (None, r')" for n r'
    using assms(3) by (simp add: decodeBody_def rret_def)
  ultimately show ?thesis
    by (simp add: DecodeMessage_def or_error_def r_def [symmetric] Err_def AssertEOF_def on_err_def EOF_def)
      (simp add: r_def NewBinaryReader_def)
qed

theorem unknown_message_type_witness:
  "DecodeMessage (header_bytes zeroHeader 12) = Done (Inr None)"
proof -
  have "length (header_bytes zeroHeader 12) = 8" by code_simp
  then show ?thesis using unknown_message_type [of 12 zeroHeader] by (simp add: maxInput_def MaxInt_def)
qed

text \<open>The requests one Send makes are the same body posted to the first k candidates in their order, for some k; each carries the protocol's media type in Content-Type and Accept, whatever extra headers are configured.\<close>

theorem send_requests_candidates:
  assumes "Send lib (recorded net) u m ([], w) = Done (r, (qs, w'))"
  shows "(qs = [] \<or> (\<exists>body es k. EncodeMessage lib m = Done (Inr body) \<and> fst (endpointCandidates net u w) = Inr es \<and>
      k \<le> length es \<and> qs = map (\<lambda>e. build_request u e body) (take k es))) \<and>
    (\<forall>q \<in> set qs. header_value (q_Headers q) ''Content-Type'' = Some DuckDBMIMEType \<and>
       header_value (q_Headers q) ''Accept'' = Some DuckDBMIMEType)"
proof -
  have "qs = [] \<or> (\<exists>body es k. EncodeMessage lib m = Done (Inr body) \<and> fst (endpointCandidates net u w) = Inr es \<and>
      k \<le> length es \<and> qs = map (\<lambda>e. build_request u e body) (take k es))"
    using Send_requests [OF assms] by simp
  then show ?thesis using protocol_headers_win by auto
qed

theorem send_requests_candidates_witness:
  "\<exists>r qs. Send sample_lib (recorded (sample_net\<lparr>Do := \<lambda>q k. (SendFailed True [], k)\<rparr>)) sample_uri (SuccessResponse zeroHeader) ([], 0) = Done (r, (qs, 0)) \<and>
    length qs = 2 \<and> (\<forall>q \<in> set qs. header_value (q_Headers q) ''Accept'' = Some DuckDBMIMEType)"
proof -
  let ?net = "sample_net\<lparr>Do := \<lambda>q k. (SendFailed True [], k)\<rparr>"
  have "\<exists>r qs. Send sample_lib (recorded ?net) sample_uri (SuccessResponse zeroHeader) ([], 0) = Done (r, (qs, 0)) \<and> length qs = 2"
    by (simp add: Send_def sample_bytes endpointCandidates_recorded isFallthroughErr_def)
      (simp add: endpointCandidates_def sample_net_def sample_uri_def isFallthroughErr_def)
  then show ?thesis
    using send_requests_candidates [of sample_lib ?net sample_uri "SuccessResponse zeroHeader" 0] by blast
qed

end
